(* ===== verification/Go_Base.thy ===== *)
theory Go_Base
  imports Complex_Main
begin

text \<open>
  Prelude, part one: the fragment of Go's value domain every component uses. A Go function that
  returns \<open>(T, error)\<close> is a HOL function into the sum \<open>'e + 'a\<close> (\<open>Inl\<close> is the error), a function
  that returns only \<open>error\<close> is one into \<open>'e option\<close> (\<open>None\<close> is Go's nil), \<open>int64\<close> is \<open>int\<close> with the
  two's-complement wrap written out, and \<open>float64\<close> values that are only compared are IEEE values
  whose finite part is an exact rational.
\<close>

named_theorems go_result \<open>characterisations of successful and failed results\<close>
named_theorems go_num \<open>machine integers and float comparisons\<close>

section \<open>Results and early returns\<close>

definition and_then :: "'e + 'a \<Rightarrow> ('a \<Rightarrow> 'e + 'b) \<Rightarrow> 'e + 'b" where
  "and_then r f = (case r of Inl e \<Rightarrow> Inl e | Inr a \<Rightarrow> f a)"

definition check :: "'e option \<Rightarrow> 'e + 'b \<Rightarrow> 'e + 'b" where
  "check err r = (case err of Some e \<Rightarrow> Inl e | None \<Rightarrow> r)"

text \<open>The first error of two checks run one after the other.\<close>

definition or_else :: "'e option \<Rightarrow> 'e option \<Rightarrow> 'e option" where
  "or_else a b = (case a of Some e \<Rightarrow> Some e | None \<Rightarrow> b)"

lemma and_then_simps [simp]:
  "and_then (Inl e) f = Inl e"
  "and_then (Inr a) f = f a"
  by (simp_all add: and_then_def)

lemma check_simps [simp]:
  "check None r = r"
  "check (Some e) r = Inl e"
  by (simp_all add: check_def)

lemma or_else_simps [simp]:
  "or_else None b = b"
  "or_else (Some e) b = Some e"
  by (simp_all add: or_else_def)

lemma and_then_Inr_iff [go_result]:
  "and_then r f = Inr b \<longleftrightarrow> (\<exists>a. r = Inr a \<and> f a = Inr b)"
  by (cases r) auto

lemma and_then_Inl_iff [go_result]:
  "and_then r f = Inl e \<longleftrightarrow> r = Inl e \<or> (\<exists>a. r = Inr a \<and> f a = Inl e)"
  by (cases r) auto

lemma check_Inr_iff [go_result]: "check err r = Inr b \<longleftrightarrow> err = None \<and> r = Inr b"
  by (cases err) auto

lemma check_Inl_iff [go_result]:
  "check err r = Inl e \<longleftrightarrow> err = Some e \<or> (err = None \<and> r = Inl e)"
  by (cases err) auto

lemma or_else_None_iff [go_result]: "or_else a b = None \<longleftrightarrow> a = None \<and> b = None"
  by (cases a) auto

section \<open>Loops that stop at the first error\<close>

text \<open>\<open>for _, x := range xs { if err := f(x); err != nil { return err } }\<close>\<close>

fun first_error :: "('a \<Rightarrow> 'e option) \<Rightarrow> 'a list \<Rightarrow> 'e option" where
  "first_error f [] = None"
| "first_error f (x # xs) = or_else (f x) (first_error f xs)"

lemma first_error_None_iff [go_result]: "first_error f xs = None \<longleftrightarrow> (\<forall>x\<in>set xs. f x = None)"
  by (induction xs) (auto simp: go_result)

text \<open>
  The idiom with a \<open>seen\<close> map: each element is checked, then its key must not have been seen
  before, then the key is recorded.
\<close>

fun unique_scan :: "('a \<Rightarrow> 'e option) \<Rightarrow> ('a \<Rightarrow> 'k) \<Rightarrow> ('a \<Rightarrow> 'e) \<Rightarrow> 'k list \<Rightarrow> 'a list \<Rightarrow> 'e option" where
  "unique_scan f key dup seen [] = None"
| "unique_scan f key dup seen (x # xs) =
     or_else (f x)
       (if key x \<in> set seen then Some (dup x) else unique_scan f key dup (key x # seen) xs)"

lemma unique_scan_None_iff [go_result]:
  "unique_scan f key dup seen xs = None \<longleftrightarrow>
     (\<forall>x\<in>set xs. f x = None) \<and> distinct (map key xs) \<and> key ` set xs \<inter> set seen = {}"
  by (induction xs arbitrary: seen) (auto simp: go_result)

section \<open>Loops that collect problems\<close>

text \<open>\<open>if c { problems = append(problems, msg) }\<close>, and such checks for every element with its index.\<close>

definition problem :: "bool \<Rightarrow> 'e \<Rightarrow> 'e list" where
  "problem c msg = (if c then [msg] else [])"

fun each_from :: "nat \<Rightarrow> (nat \<Rightarrow> 'a \<Rightarrow> 'e list) \<Rightarrow> 'a list \<Rightarrow> 'e list" where
  "each_from i f [] = []"
| "each_from i f (x # xs) = f i x @ each_from (Suc i) f xs"

abbreviation each :: "(nat \<Rightarrow> 'a \<Rightarrow> 'e list) \<Rightarrow> 'a list \<Rightarrow> 'e list" where
  "each \<equiv> each_from 0"

lemma problem_Nil_iff [go_result]: "problem c msg = [] \<longleftrightarrow> \<not> c"
  by (simp add: problem_def)

text \<open>Whether an element has a problem does not depend on its index; only the message does.\<close>

lemma each_from_Nil_iff:
  assumes "\<And>i x. f i x = [] \<longleftrightarrow> P x"
  shows "each_from n f xs = [] \<longleftrightarrow> (\<forall>x\<in>set xs. P x)"
  using assms by (induction xs arbitrary: n) auto

lemma each_from_NilD: "each_from n f xs = [] \<Longrightarrow> x \<in> set xs \<Longrightarrow> \<exists>i. f i x = []"
  by (induction xs arbitrary: n) auto

lemma each_from_mem:
  "x \<in> set xs \<Longrightarrow> (\<And>i. \<exists>y\<in>set (f i x). P y) \<Longrightarrow> \<exists>y\<in>set (each_from n f xs). P y"
  by (induction xs arbitrary: n) (auto simp: bex_Un)

section \<open>Machine integers\<close>

definition wrap64 :: "int \<Rightarrow> int" where
  "wrap64 x = (x + 2 ^ 63) mod 2 ^ 64 - 2 ^ 63"

definition int64_range :: "int \<Rightarrow> bool" where
  "int64_range x \<longleftrightarrow> - (2 ^ 63) \<le> x \<and> x < 2 ^ 63"

definition max_int64 :: int where
  "max_int64 = 2 ^ 63 - 1"

lemma wrap64_id [go_num]: "int64_range x \<Longrightarrow> wrap64 x = x"
  by (simp add: wrap64_def int64_range_def)

lemma wrap64_range [go_num]: "int64_range (wrap64 x)"
  by (simp add: wrap64_def int64_range_def)

lemma wrap64_max_succ: "wrap64 (max_int64 + 1) = - (2 ^ 63)"
  by (simp add: wrap64_def max_int64_def)

section \<open>Floating-point comparisons\<close>

text \<open>
  A finite \<open>float64\<close> is a rational. Comparisons follow IEEE 754: every ordered comparison with a
  NaN is false. Negative and positive zero compare equal in Go and are one value here.
\<close>

datatype float64 = NaN | NegInf | Fin rat | PosInf

fun flt_lt :: "float64 \<Rightarrow> float64 \<Rightarrow> bool" where
  "flt_lt NaN y = False"
| "flt_lt x NaN = False"
| "flt_lt NegInf NegInf = False"
| "flt_lt NegInf y = True"
| "flt_lt (Fin x) (Fin y) = (x < y)"
| "flt_lt (Fin x) NegInf = False"
| "flt_lt (Fin x) PosInf = True"
| "flt_lt PosInf y = False"

definition flt_gt :: "float64 \<Rightarrow> float64 \<Rightarrow> bool" where
  "flt_gt x y = flt_lt y x"

definition flt_le :: "float64 \<Rightarrow> float64 \<Rightarrow> bool" where
  "flt_le x y = (flt_lt x y \<or> (x = y \<and> x \<noteq> NaN))"

definition flt_ge :: "float64 \<Rightarrow> float64 \<Rightarrow> bool" where
  "flt_ge x y = flt_le y x"

lemma flt_Fin [simp]:
  "flt_gt (Fin x) (Fin y) = (y < x)"
  "flt_le (Fin x) (Fin y) = (x \<le> y)"
  "flt_ge (Fin x) (Fin y) = (y \<le> x)"
  by (auto simp: flt_gt_def flt_le_def flt_ge_def)

lemma flt_NaN [simp]:
  "flt_gt NaN y = False" "flt_gt x NaN = False"
  "flt_le NaN y = False" "flt_le x NaN = False"
  "flt_ge NaN y = False" "flt_ge x NaN = False"
  by (cases x; cases y; auto simp: flt_gt_def flt_le_def flt_ge_def)+

lemma flt_le_not_lt: "flt_le x y \<Longrightarrow> \<not> flt_lt y x"
  by (cases x; cases y) (auto simp: flt_le_def)

text \<open>Between two finite bounds and not NaN means finite.\<close>

lemma flt_between:
  "x \<noteq> NaN \<Longrightarrow> \<not> flt_lt x (Fin a) \<Longrightarrow> \<not> flt_gt x (Fin b) \<Longrightarrow> \<exists>q. x = Fin q \<and> a \<le> q \<and> q \<le> b"
  by (cases x) (auto simp: flt_gt_def)

end
