(* ===== verification/Go_Strings.thy ===== *)
theory Go_Strings
  imports Go_Base "HOL-Library.List_Lexorder" "HOL-Library.Char_ord" "HOL-Library.Code_Target_Nat"
begin

text \<open>
  Prelude, part two: Go strings. A Go string is a sequence of bytes, so it is a HOL \<open>string\<close> (a
  list of 8-bit characters) and \<open>len\<close> is the list's length. Functions of the packages \<open>strings\<close>,
  \<open>strconv\<close>, \<open>unicode\<close> and \<open>unicode/utf8\<close> that look at code points decode the bytes the way
  \<open>utf8.DecodeRune\<close> does: an ill-formed sequence is the replacement character of width one.
  Strings are ordered bytewise (\<open>HOL-Library.List_Lexorder\<close>), as Go's \<open><\<close> orders them.
\<close>

named_theorems go_string \<open>facts about the string functions\<close>

type_synonym rune = nat

abbreviation byte :: "char \<Rightarrow> nat" where
  "byte c \<equiv> of_char c"

section \<open>UTF-8\<close>

definition RuneError :: rune where
  "RuneError = 65533"

text \<open>Number of bytes announced by a lead byte (0 for a byte that cannot start a sequence).\<close>

definition lead_width :: "nat \<Rightarrow> nat" where
  "lead_width b =
     (if b < 128 then 1
      else if 194 \<le> b \<and> b \<le> 223 then 2
      else if 224 \<le> b \<and> b \<le> 239 then 3
      else if 240 \<le> b \<and> b \<le> 244 then 4
      else 0)"

text \<open>The range the second byte must lie in, which rules out overlong forms and surrogates.\<close>

definition second_ok :: "nat \<Rightarrow> nat \<Rightarrow> bool" where
  "second_ok b c =
     (if b = 224 then 160 \<le> c \<and> c \<le> 191
      else if b = 237 then 128 \<le> c \<and> c \<le> 159
      else if b = 240 then 144 \<le> c \<and> c \<le> 191
      else if b = 244 then 128 \<le> c \<and> c \<le> 143
      else 128 \<le> c \<and> c \<le> 191)"

definition is_cont :: "nat \<Rightarrow> bool" where
  "is_cont c \<longleftrightarrow> 128 \<le> c \<and> c \<le> 191"

text \<open>\<open>utf8.DecodeRune\<close>: the rune and the number of bytes it occupies; \<open>None\<close> for an ill-formed
  start, which the library reports as \<open>(RuneError, 1)\<close>.\<close>

fun decode_wf :: "string \<Rightarrow> (rune \<times> nat) option" where
  "decode_wf [] = None"
| "decode_wf (c0 # cs) =
     (let b0 = byte c0; w = lead_width b0 in
      if w = 1 then Some (b0, 1)
      else if w = 2 then
        (case cs of c1 # _ \<Rightarrow>
           if second_ok b0 (byte c1) then Some ((b0 - 192) * 64 + (byte c1 - 128), 2) else None
         | [] \<Rightarrow> None)
      else if w = 3 then
        (case cs of c1 # c2 # _ \<Rightarrow>
           if second_ok b0 (byte c1) \<and> is_cont (byte c2)
           then Some ((b0 - 224) * 4096 + (byte c1 - 128) * 64 + (byte c2 - 128), 3) else None
         | _ \<Rightarrow> None)
      else if w = 4 then
        (case cs of c1 # c2 # c3 # _ \<Rightarrow>
           if second_ok b0 (byte c1) \<and> is_cont (byte c2) \<and> is_cont (byte c3)
           then Some ((b0 - 240) * 262144 + (byte c1 - 128) * 4096 + (byte c2 - 128) * 64
                        + (byte c3 - 128), 4)
           else None
         | _ \<Rightarrow> None)
      else None)"

lemma decode_wf_width:
  "decode_wf s = Some (r, w) \<Longrightarrow> 1 \<le> w \<and> w \<le> 4 \<and> w \<le> length s"
  by (cases s) (auto simp: Let_def split: if_splits list.splits)

definition decode_rune :: "string \<Rightarrow> rune \<times> nat" where
  "decode_rune s =
     (case s of [] \<Rightarrow> (RuneError, 0)
      | _ \<Rightarrow> (case decode_wf s of None \<Rightarrow> (RuneError, 1) | Some rw \<Rightarrow> rw))"

lemma decode_rune_width: "s \<noteq> [] \<Longrightarrow> 1 \<le> snd (decode_rune s) \<and> snd (decode_rune s) \<le> length s"
  using decode_wf_width [of s]
  by (cases s) (auto simp: decode_rune_def split: option.splits)

text \<open>The runes of a string, in the order of \<open>for _, r := range s\<close>.\<close>

function runes :: "string \<Rightarrow> rune list" where
  "runes s = (if s = [] then [] else fst (decode_rune s) # runes (drop (snd (decode_rune s)) s))"
  by pat_completeness auto
termination
proof (relation "measure length")
  show "\<And>s. s \<noteq> [] \<Longrightarrow> (drop (snd (decode_rune s)) s, s) \<in> measure length"
    using decode_rune_width by fastforce
qed simp

declare runes.simps [simp del]

lemma runes_Nil [simp]: "runes [] = []"
  by (simp add: runes.simps)

definition rune_count :: "string \<Rightarrow> nat" where
  "rune_count s = length (runes s)"

lemma rune_count_le [go_string]: "rune_count s \<le> length s"
proof (induction s rule: runes.induct)
  case (1 s)
  show ?case
  proof (cases "s = []")
    case False
    then show ?thesis
      using 1 [OF False] decode_rune_width [OF False]
      by (simp add: rune_count_def runes.simps [of s]) linarith
  qed (simp add: rune_count_def)
qed

lemma rune_count_pos [go_string]: "0 < rune_count s \<longleftrightarrow> s \<noteq> []"
  by (simp add: rune_count_def runes.simps [of s])

text \<open>\<open>utf8.ValidString\<close>.\<close>

function valid_utf8 :: "string \<Rightarrow> bool" where
  "valid_utf8 s =
     (s = [] \<or> (case decode_wf s of None \<Rightarrow> False | Some (_, w) \<Rightarrow> valid_utf8 (drop w s)))"
  by pat_completeness auto
termination
  by (relation "measure length") (auto dest: decode_wf_width)

declare valid_utf8.simps [simp del]

lemma valid_utf8_Nil [simp]: "valid_utf8 []"
  by (simp add: valid_utf8.simps)

lemma valid_utf8_Cons:
  "valid_utf8 (c # s) \<longleftrightarrow> (\<exists>r w. decode_wf (c # s) = Some (r, w) \<and> valid_utf8 (drop w (c # s)))"
  by (subst valid_utf8.simps) (auto split: option.splits)

section \<open>Spaces\<close>

text \<open>\<open>unicode.IsSpace\<close>: the White\_Space property.\<close>

definition is_space :: "rune \<Rightarrow> bool" where
  "is_space r \<longleftrightarrow>
     (9 \<le> r \<and> r \<le> 13) \<or> r = 32 \<or> r = 133 \<or> r = 160 \<or> r = 5760 \<or> (8192 \<le> r \<and> r \<le> 8202)
     \<or> r = 8232 \<or> r = 8233 \<or> r = 8239 \<or> r = 8287 \<or> r = 12288"

text \<open>\<open>unicode.IsControl\<close>: category Cc.\<close>

definition is_control :: "rune \<Rightarrow> bool" where
  "is_control r \<longleftrightarrow> r < 32 \<or> (127 \<le> r \<and> r < 160)"

function trim_left_space :: "string \<Rightarrow> string" where
  "trim_left_space s =
     (if s = [] then []
      else if is_space (fst (decode_rune s)) then trim_left_space (drop (snd (decode_rune s)) s)
      else s)"
  by pat_completeness auto
termination
proof (relation "measure length")
  show "\<And>s. s \<noteq> [] \<Longrightarrow> is_space (fst (decode_rune s)) \<Longrightarrow>
          (drop (snd (decode_rune s)) s, s) \<in> measure length"
    using decode_rune_width by fastforce
qed simp

declare trim_left_space.simps [simp del]

text \<open>\<open>utf8.RuneStart\<close> and \<open>utf8.DecodeLastRuneInString\<close>.\<close>

definition rune_start :: "char \<Rightarrow> bool" where
  "rune_start c \<longleftrightarrow> \<not> is_cont (byte c)"

definition last_start :: "string \<Rightarrow> nat option" where
  "last_start s =
     (let n = length s in
      if 2 \<le> n \<and> rune_start (s ! (n - 2)) then Some 2
      else if 3 \<le> n \<and> rune_start (s ! (n - 3)) then Some 3
      else if 4 \<le> n \<and> rune_start (s ! (n - 4)) then Some 4
      else None)"

definition decode_last_rune :: "string \<Rightarrow> rune \<times> nat" where
  "decode_last_rune s =
     (if s = [] then (RuneError, 0)
      else if byte (last s) < 128 then (byte (last s), 1)
      else (case last_start s of
              None \<Rightarrow> (RuneError, 1)
            | Some k \<Rightarrow>
                (case decode_rune (drop (length s - k) s) of
                   (r, w) \<Rightarrow> if w = k then (r, w) else (RuneError, 1))))"

lemma decode_last_rune_width: "s \<noteq> [] \<Longrightarrow> 1 \<le> snd (decode_last_rune s)"
proof -
  assume "s \<noteq> []"
  have "1 \<le> w" if "last_start s = Some k" "w = k" for k w
    using that by (auto simp: last_start_def Let_def split: if_splits)
  with \<open>s \<noteq> []\<close> show ?thesis
    by (auto simp: decode_last_rune_def split: option.splits prod.splits)
qed

function trim_right_space :: "string \<Rightarrow> string" where
  "trim_right_space s =
     (if s = [] then []
      else if is_space (fst (decode_last_rune s))
      then trim_right_space (take (length s - snd (decode_last_rune s)) s)
      else s)"
  by pat_completeness auto
termination
proof (relation "measure length")
  show "\<And>s. s \<noteq> [] \<Longrightarrow> is_space (fst (decode_last_rune s)) \<Longrightarrow>
          (take (length s - snd (decode_last_rune s)) s, s) \<in> measure length"
    using decode_last_rune_width by fastforce
qed simp

declare trim_right_space.simps [simp del]

text \<open>\<open>strings.TrimSpace\<close>.\<close>

definition trim_space :: "string \<Rightarrow> string" where
  "trim_space s = trim_right_space (trim_left_space s)"

lemma trim_left_space_length [go_string]: "length (trim_left_space s) \<le> length s"
proof (induction s rule: trim_left_space.induct)
  case (1 s)
  then show ?case
    by (subst trim_left_space.simps) (auto simp: trim_left_space.simps [of s] intro: le_trans)
qed

lemma trim_right_space_length [go_string]: "length (trim_right_space s) \<le> length s"
proof (induction s rule: trim_right_space.induct)
  case (1 s)
  then show ?case
    by (subst trim_right_space.simps) (auto simp: trim_right_space.simps [of s] intro: le_trans)
qed

lemma trim_space_length [go_string]: "length (trim_space s) \<le> length s"
  unfolding trim_space_def
  using le_trans [OF trim_right_space_length trim_left_space_length] .

lemma trim_space_Nil [simp]: "trim_space [] = []"
  by (simp add: trim_space_def trim_left_space.simps trim_right_space.simps)

text \<open>\<open>strings.Fields\<close>.\<close>

function split_fields_from :: "string \<Rightarrow> string \<Rightarrow> string list" where
  "split_fields_from cur s =
     (let finished = (if cur = [] then [] else [cur]) in
      if s = [] then finished
      else if is_space (fst (decode_rune s)) then finished @ split_fields_from [] (drop (snd (decode_rune s)) s)
      else split_fields_from (cur @ take (snd (decode_rune s)) s) (drop (snd (decode_rune s)) s))"
  by pat_completeness auto
termination
  by (relation "measure (\<lambda>(cur, s). length s)") (use decode_rune_width in fastforce)+

declare split_fields_from.simps [simp del]

definition split_fields :: "string \<Rightarrow> string list" where
  "split_fields s = split_fields_from [] s"

section \<open>Splitting, prefixes and suffixes\<close>

text \<open>\<open>strings.Split(s, sep)\<close> for a one-byte separator: always at least one part.\<close>

fun split_byte :: "char \<Rightarrow> string \<Rightarrow> string list" where
  "split_byte sep [] = [[]]"
| "split_byte sep (c # cs) =
     (if c = sep then [] # split_byte sep cs
      else (case split_byte sep cs of
              [] \<Rightarrow> [[c]]
            | p # ps \<Rightarrow> (c # p) # ps))"

fun has_prefix :: "string \<Rightarrow> string \<Rightarrow> bool" where
  "has_prefix s [] = True"
| "has_prefix [] (p # ps) = False"
| "has_prefix (c # s) (p # ps) = (c = p \<and> has_prefix s ps)"

definition has_suffix :: "string \<Rightarrow> string \<Rightarrow> bool" where
  "has_suffix s suf = has_prefix (rev s) (rev suf)"

definition trim_prefix :: "string \<Rightarrow> string \<Rightarrow> string" where
  "trim_prefix s p = (if has_prefix s p then drop (length p) s else s)"

definition trim_suffix :: "string \<Rightarrow> string \<Rightarrow> string" where
  "trim_suffix s suf = (if has_suffix s suf then take (length s - length suf) s else s)"

fun contains :: "string \<Rightarrow> string \<Rightarrow> bool" where
  "contains [] sub = (sub = [])"
| "contains (c # s) sub = (has_prefix (c # s) sub \<or> contains s sub)"

fun join :: "string \<Rightarrow> string list \<Rightarrow> string" where
  "join sep [] = []"
| "join sep [s] = s"
| "join sep (s # ss) = s @ sep @ join sep ss"

lemma has_prefix_iff [go_string]: "has_prefix s p \<longleftrightarrow> (\<exists>t. s = p @ t)"
  by (induction s p rule: has_prefix.induct) auto

lemma has_suffix_iff [go_string]: "has_suffix s suf \<longleftrightarrow> (\<exists>t. s = t @ suf)"
proof -
  have "(\<exists>t. rev s = rev suf @ t) \<longleftrightarrow> (\<exists>t. s = t @ suf)"
    by (metis rev_append rev_rev_ident)
  then show ?thesis by (simp add: has_suffix_def has_prefix_iff)
qed

lemma split_byte_nonempty [simp]: "split_byte sep s \<noteq> []"
  by (induction s) (auto split: list.splits)

lemma split_byte_join: "join [sep] (split_byte sep s) = s"
proof (induction s)
  case Nil
  then show ?case by simp
next
  case (Cons c cs)
  obtain p ps where split: "split_byte sep cs = p # ps"
    by (cases "split_byte sep cs") auto
  with Cons.IH show ?case
    by (cases ps) auto
qed

lemma split_byte_parts: "p \<in> set (split_byte sep s) \<Longrightarrow> sep \<notin> set p"
  by (induction s arbitrary: p) (auto split: list.splits if_splits)

lemma split_byte_join_inverse:
  "ps \<noteq> [] \<Longrightarrow> \<forall>p\<in>set ps. sep \<notin> set p \<Longrightarrow> split_byte sep (join [sep] ps) = ps"
proof (induction "[sep]" ps rule: join.induct)
  case (2 s)
  then show ?case
    by (induction s) auto
next
  case (3 s v va)
  have "split_byte sep (t @ [sep] @ join [sep] (v # va)) = t # split_byte sep (join [sep] (v # va))" if "sep \<notin> set t" for t
    using that by (induction t) auto
  with 3 show ?case by simp
qed simp

section \<open>Decimal numbers\<close>

definition is_digit :: "char \<Rightarrow> bool" where
  "is_digit c \<longleftrightarrow> 48 \<le> byte c \<and> byte c \<le> (57::nat)"

definition digit_val :: "char \<Rightarrow> nat" where
  "digit_val c = byte c - 48"

definition digit_char :: "nat \<Rightarrow> char" where
  "digit_char d = char_of (48 + d)"

fun digits_val :: "nat \<Rightarrow> string \<Rightarrow> nat" where
  "digits_val acc [] = acc"
| "digits_val acc (c # cs) = digits_val (10 * acc + digit_val c) cs"

fun nat_digits :: "nat \<Rightarrow> string" where
  "nat_digits n = (if n < 10 then [digit_char n] else nat_digits (n div 10) @ [digit_char (n mod 10)])"

declare nat_digits.simps [simp del]

text \<open>\<open>%d\<close> and \<open>strconv.Itoa\<close>.\<close>

definition itoa :: "int \<Rightarrow> string" where
  "itoa x = (if x < 0 then CHR ''-'' # nat_digits (nat (- x)) else nat_digits (nat x))"

text \<open>\<open>strconv.Atoi\<close> on a 64-bit platform: an optional sign, at least one digit, in range.\<close>

definition sign_split :: "string \<Rightarrow> bool \<times> string" where
  "sign_split s =
     (case s of [] \<Rightarrow> (False, [])
      | c # t \<Rightarrow> if c = CHR ''-'' then (True, t) else if c = CHR ''+'' then (False, t) else (False, s))"

definition atoi :: "string \<Rightarrow> int option" where
  "atoi s =
     (let ds = snd (sign_split s);
          v = int (digits_val 0 ds);
          x = (if fst (sign_split s) then - v else v)
      in if ds \<noteq> [] \<and> list_all is_digit ds \<and> int64_range x then Some x else None)"

lemma digit_char_digit [go_string]:
  "d < 10 \<Longrightarrow> is_digit (digit_char d) \<and> digit_val (digit_char d) = d"
  by (simp add: is_digit_def digit_val_def digit_char_def)

lemma digits_val_append: "digits_val acc (s @ t) = digits_val (digits_val acc s) t"
  by (induction s arbitrary: acc) auto

lemma nat_digits_digits [go_string]: "list_all is_digit (nat_digits n) \<and> nat_digits n \<noteq> []"
proof (induction n rule: nat_digits.induct)
  case (1 n)
  show ?case
  proof (cases "n < 10")
    case True
    then show ?thesis by (simp add: nat_digits.simps [of n] go_string)
  next
    case False
    with 1 show ?thesis by (simp add: nat_digits.simps [of n] go_string)
  qed
qed

lemma sign_split_digits [go_string]: "is_digit c \<Longrightarrow> sign_split (c # t) = (False, c # t)"
  by (auto simp: sign_split_def is_digit_def)

lemma digits_val_nat_digits [go_string]: "digits_val 0 (nat_digits n) = n"
proof (induction n rule: nat_digits.induct)
  case (1 n)
  show ?case
  proof (cases "n < 10")
    case True
    then show ?thesis by (simp add: nat_digits.simps [of n] go_string)
  next
    case False
    with 1 show ?thesis
      by (simp add: nat_digits.simps [of n] digits_val_append digit_char_digit)
  qed
qed

text \<open>\<open>%0nd\<close> for a number that is not negative.\<close>

definition zero_pad :: "nat \<Rightarrow> nat \<Rightarrow> string" where
  "zero_pad n x = replicate (n - length (nat_digits x)) (CHR ''0'') @ nat_digits x"

lemma digits_val_zeros: "digits_val 0 (replicate k CHR ''0'' @ s) = digits_val 0 s"
  by (induction k) (simp_all add: digit_val_def)

lemma nat_digits_length: "x < 10 ^ n \<Longrightarrow> 0 < n \<Longrightarrow> length (nat_digits x) \<le> n"
proof (induction x arbitrary: n rule: nat_digits.induct)
  case (1 x)
  show ?case
  proof (cases "x < 10")
    case True
    then show ?thesis using 1 by (simp add: nat_digits.simps [of x])
  next
    case False
    then obtain k where n: "n = Suc k" "0 < k" using 1 by (cases n; cases "n - 1") auto
    then have "x div 10 < 10 ^ k" using 1 by (simp add: less_mult_imp_div_less)
    with 1(1) [OF False this] n False show ?thesis by (simp add: nat_digits.simps [of x])
  qed
qed

lemma zero_pad_digits:
  assumes "x < 10 ^ n" "0 < n"
  shows "length (zero_pad n x) = n" "list_all is_digit (zero_pad n x)" "digits_val 0 (zero_pad n x) = x"
  using nat_digits_length [OF assms] nat_digits_digits [of x]
  by (auto simp: zero_pad_def digits_val_zeros digits_val_nat_digits list_all_iff is_digit_def)

text \<open>Printing a non-negative \<open>int64\<close> and reading it back.\<close>

lemma atoi_itoa: "0 \<le> x \<Longrightarrow> int64_range x \<Longrightarrow> atoi (itoa x) = Some x"
proof -
  assume nonneg: "0 \<le> x" and range: "int64_range x"
  obtain c t where ct: "nat_digits (nat x) = c # t"
    using nat_digits_digits [of "nat x"] by (cases "nat_digits (nat x)") auto
  have digit: "is_digit c"
    using nat_digits_digits [of "nat x"] ct by simp
  have "sign_split (nat_digits (nat x)) = (False, nat_digits (nat x))"
    unfolding ct by (rule sign_split_digits [OF digit])
  moreover have "itoa x = nat_digits (nat x)"
    using nonneg by (simp add: itoa_def)
  ultimately show ?thesis
    using nat_digits_digits [of "nat x"] nonneg range
    by (simp add: atoi_def digits_val_nat_digits)
qed

end
