(* ===== verification/Go_Time.thy ===== *)
theory Go_Time
  imports Go_Strings
begin

text \<open>
  Prelude, part three: time. A \<open>time.Time\<close> is an instant, the number of nanoseconds since Go's zero
  time (0001-01-01 00:00:00 UTC), so \<open>t.IsZero()\<close> is \<open>t = 0\<close> and \<open>t.UTC()\<close> is \<open>t\<close>. A
  \<open>time.Duration\<close> is an \<open>int64\<close> number of nanoseconds: \<open>Sub\<close> saturates as the library does. The
  proleptic Gregorian calendar and the RFC 3339 parser are modelled; a time-zone database entry is a
  function from seconds to the zone in force, a parameter wherever it occurs.
\<close>

named_theorems go_time \<open>facts about instants and durations\<close>

type_synonym time = int
type_synonym duration = int

abbreviation microsecond :: duration where "microsecond \<equiv> 1000"
abbreviation millisecond :: duration where "millisecond \<equiv> 1000000"
abbreviation second :: duration where "second \<equiv> 1000000000"
abbreviation minute :: duration where "minute \<equiv> 60000000000"
abbreviation hour :: duration where "hour \<equiv> 3600000000000"

definition is_zero :: "time \<Rightarrow> bool" where
  "is_zero t \<longleftrightarrow> t = 0"

text \<open>\<open>time.Time.Sub\<close>: the difference, clamped to the range of a Duration.\<close>

definition time_sub :: "time \<Rightarrow> time \<Rightarrow> duration" where
  "time_sub a b = max (- (2 ^ 63)) (min max_int64 (a - b))"

definition unix_epoch_seconds :: int where
  "unix_epoch_seconds = 62135596800"

definition unix_seconds :: "time \<Rightarrow> int" where
  "unix_seconds t = t div second - unix_epoch_seconds"

definition unix_milli :: "time \<Rightarrow> int" where
  "unix_milli t = wrap64 (t div millisecond - unix_epoch_seconds * 1000)"

lemma time_sub_exact [go_time]: "int64_range (a - b) \<Longrightarrow> time_sub a b = a - b"
  by (simp add: time_sub_def int64_range_def max_int64_def)

lemma time_sub_le_iff [go_time]:
  "- (2 ^ 63) \<le> d \<Longrightarrow> d < max_int64 \<Longrightarrow> time_sub a b \<le> d \<longleftrightarrow> a - b \<le> d"
  by (auto simp: time_sub_def max_int64_def)

lemma time_sub_less_iff [go_time]:
  "- (2 ^ 63) < d \<Longrightarrow> d \<le> max_int64 \<Longrightarrow> time_sub a b < d \<longleftrightarrow> a - b < d"
  by (auto simp: time_sub_def max_int64_def)

lemma time_sub_pos_iff [go_time]: "0 < time_sub a b \<longleftrightarrow> b < a"
  by (auto simp: time_sub_def max_int64_def)

section \<open>The calendar\<close>

text \<open>
  Days since 0001-01-01 of a date whose day of the month may lie outside the month, as \<open>time.Date\<close>
  normalises it: the day count is linear in the day. The month is in range.
\<close>

definition days_from_civil :: "int \<Rightarrow> int \<Rightarrow> int \<Rightarrow> int" where
  "days_from_civil y m d =
     (let y' = (if m \<le> 2 then y - 1 else y);
          era = y' div 400;
          yoe = y' - era * 400;
          doy = (153 * (if m > 2 then m - 3 else m + 9) + 2) div 5 + d - 1;
          doe = yoe * 365 + yoe div 4 - yoe div 100 + doy
      in era * 146097 + doe - 306)"

definition civil_from_days :: "int \<Rightarrow> int \<times> int \<times> int" where
  "civil_from_days n =
     (let z = n + 306;
          era = z div 146097;
          doe = z - era * 146097;
          yoe = (doe - doe div 1460 + doe div 36524 - doe div 146096) div 365;
          doy = doe - (365 * yoe + yoe div 4 - yoe div 100);
          mp = (5 * doy + 2) div 153;
          d = doy - (153 * mp + 2) div 5 + 1;
          m = (if mp < 10 then mp + 3 else mp - 9);
          y = yoe + era * 400
      in (if m \<le> 2 then y + 1 else y, m, d))"

text \<open>Go's \<open>time.Weekday\<close>: Sunday is 0. Day 0, 0001-01-01, was a Monday.\<close>

definition weekday_of_days :: "int \<Rightarrow> int" where
  "weekday_of_days n = (n + 1) mod 7"

definition is_leap :: "int \<Rightarrow> bool" where
  "is_leap y \<longleftrightarrow> y mod 4 = 0 \<and> (y mod 100 \<noteq> 0 \<or> y mod 400 = 0)"

definition days_in_month :: "int \<Rightarrow> int \<Rightarrow> int" where
  "days_in_month y m =
     (if m = 2 then (if is_leap y then 29 else 28)
      else if m \<in> {4, 6, 9, 11} then 30 else 31)"

lemma days_from_civil_add_day: "days_from_civil y m (d + k) = days_from_civil y m d + k"
  by (simp add: days_from_civil_def Let_def)

lemma civil_dates:
  "civil_from_days 0 = (1, 1, 1)" "civil_from_days 719162 = (1970, 1, 1)"
  "civil_from_days 738944 = (2024, 2, 29)" "days_from_civil 2024 2 29 = 738944"
  "days_from_civil 1 1 1 = 0" "days_from_civil 1970 1 1 = 719162"
  by code_simp+

text \<open>A day of a 400-year era lies in a century, a group of four years, a year and a day of it.\<close>

lemma era_split:
  assumes "0 \<le> doe" "doe < (146097 :: int)"
  obtains c q r doy where "0 \<le> c" "c \<le> 3" "0 \<le> q" "q \<le> 24" "0 \<le> r" "r \<le> 3" "0 \<le> doy" "doy \<le> 365"
    "doe = 36524 * c + 1461 * q + 365 * r + doy" "doy = 365 \<longrightarrow> r = 3 \<and> (q = 24 \<longrightarrow> c = 3)"
proof -
  define c where "c = min 3 (doe div 36524)"
  define rest where "rest = doe - 36524 * c"
  have c: "0 \<le> c" "c \<le> 3" "0 \<le> rest" "rest \<le> 36524" "rest = 36524 \<Longrightarrow> c = 3"
    using assms unfolding c_def rest_def by linarith+
  define q where "q = min 24 (rest div 1461)"
  define rest2 where "rest2 = rest - 1461 * q"
  have q: "0 \<le> q" "q \<le> 24" "0 \<le> rest2" "rest2 \<le> 1460" "q = 24 \<Longrightarrow> rest2 = 1460 \<Longrightarrow> rest = 36524"
    using c(3,4) unfolding q_def rest2_def by linarith+
  define r where "r = min 3 (rest2 div 365)"
  define doy where "doy = rest2 - 365 * r"
  have r: "0 \<le> r" "r \<le> 3" "0 \<le> doy" "doy \<le> 365" "doy = 365 \<Longrightarrow> r = 3 \<and> rest2 = 1460"
    using q(3,4) unfolding r_def doy_def by linarith+
  show ?thesis
    by (rule that [of c q r doy]) (use c q r in \<open>auto simp: rest_def rest2_def doy_def\<close>)
qed

lemma year_of_era:
  assumes "0 \<le> c" "c \<le> 3" "0 \<le> q" "q \<le> 24" "0 \<le> r" "r \<le> 3" "0 \<le> doy" "doy \<le> 365"
    "doe = 36524 * c + 1461 * q + 365 * r + doy" "doy = 365 \<longrightarrow> r = 3 \<and> (q = 24 \<longrightarrow> c = 3)"
  shows "(doe - doe div 1460 + doe div 36524 - doe div 146096) div 365 = 100 * c + 4 * q + (r :: int)"
    "(100 * c + 4 * q + r) div 4 = 25 * c + q" "(100 * c + 4 * q + r) div 100 = c"
proof -
  show "(100 * c + 4 * q + r) div 4 = 25 * c + q" "(100 * c + 4 * q + r) div 100 = c" using assms by linarith+
  have "0 \<le> c * 24 + q + 365 * r + doy" using assms by linarith
  define k where "k = (c * 24 + q + 365 * r + doy) div 1460"
  have k: "doe div 1460 = 25 * c + q + k"
    unfolding k_def using assms(9) by linarith
  show "(doe - doe div 1460 + doe div 36524 - doe div 146096) div 365 = 100 * c + 4 * q + r"
  proof (cases "doe = 146096")
    case True
    then have "c = 3" "q = 24" "r = 3" using assms by linarith+
    then show ?thesis using True by simp
  next
    case False
    have doe: "0 \<le> doe" "doe < 146096" using assms False by linarith+
    then have e: "doe div 146096 = 0" by simp
    have "1461 * q + 365 * r + doy < 36524" if "c < 3" using assms that by linarith
    then have s: "doe div 36524 = c" using assms doe by linarith
    have kb: "0 \<le> doy - k" "doy - k < 365" unfolding k_def using assms by linarith+
    have "doe - doe div 1460 + doe div 36524 - doe div 146096 = 365 * (100 * c + 4 * q + r) + (doy - k)"
      unfolding k s e using assms(9) by (simp add: algebra_simps)
    then show ?thesis using kb by simp
  qed
qed

text \<open>The month and day of a day counted from 1 March, and back.\<close>

lemma month_of_day:
  assumes "0 \<le> doy" "doy \<le> (365 :: int)" "mp = (5 * doy + 2) div 153"
  shows "0 \<le> mp" "mp \<le> 11" "1 \<le> doy - (153 * mp + 2) div 5 + 1"
    "doy - (153 * mp + 2) div 5 + 1 \<le> (if mp = 11 then doy - 336 else if mp \<in> {1, 3, 6, 8} then 30 else 31)"
proof -
  show b: "0 \<le> mp" "mp \<le> 11" using assms by linarith+
  then have "mp \<in> {0, 1, 2, 3, 4, 5, 6, 7, 8, 9, 10, 11}" unfolding insert_iff empty_iff by presburger
  then show "1 \<le> doy - (153 * mp + 2) div 5 + 1"
    "doy - (153 * mp + 2) div 5 + 1 \<le> (if mp = 11 then doy - 336 else if mp \<in> {1, 3, 6, 8} then 30 else 31)"
    using assms by (elim insertE; simp; linarith)+
qed

lemma leap_of_era:
  assumes "(0 :: int) \<le> c" "c \<le> 3" "0 \<le> q" "q \<le> 24" "q = 24 \<longrightarrow> c = 3"
  shows "is_leap (100 * c + 4 * q + 4 + era * 400)"
proof (cases "q = 24")
  case True
  then have "100 * c + 4 * q + 4 + era * 400 = 400 * (1 + era)" using assms by simp
  then show ?thesis unfolding is_leap_def by (simp only: mod_mult_self1_is_0) simp
next
  case False
  define k where "k = 25 * c + q + 1 + era * 100"
  have eq: "100 * c + 4 * q + 4 + era * 400 = 4 * k" unfolding k_def by simp
  have "k = (q + 1) + (c + 4 * era) * 25" unfolding k_def by simp
  then have "k mod 25 = q + 1" using False assms by (simp only: mod_mult_self1) simp
  moreover have "(4 * k) mod (4 * 25) = 4 * (k mod 25)" by (rule mod_mult_mult1)
  ultimately show ?thesis unfolding eq is_leap_def using assms by simp
qed

lemma civil_from_days_valid:
  assumes "civil_from_days n = (y, m, d)"
  shows "1 \<le> m \<and> m \<le> 12 \<and> 1 \<le> d \<and> d \<le> days_in_month y m \<and> days_from_civil y m d = n"
proof -
  define z era doe where "z = n + 306" and "era = z div 146097" and "doe = z - era * 146097"
  have "0 \<le> doe" "doe < 146097" unfolding doe_def era_def by linarith+
  then obtain c q r doy where s: "0 \<le> c" "c \<le> 3" "0 \<le> q" "q \<le> 24" "0 \<le> r" "r \<le> 3" "0 \<le> doy" "doy \<le> 365"
      "doe = 36524 * c + 1461 * q + 365 * r + doy" "doy = 365 \<longrightarrow> r = 3 \<and> (q = 24 \<longrightarrow> c = 3)"
    by (rule era_split)
  define yoe where "yoe = 100 * c + 4 * q + r"
  note year = year_of_era [OF s]
  define mp where "mp = (5 * doy + 2) div 153"
  note month = month_of_day [OF s(7,8) mp_def]
  have doy: "doe - (365 * yoe + yoe div 4 - yoe div 100) = doy" unfolding yoe_def year(2,3) using s(9) by (simp add: algebra_simps)
  have m: "m = (if mp < 10 then mp + 3 else mp - 9)" and d: "d = doy - (153 * mp + 2) div 5 + 1"
    and y: "y = (if m \<le> 2 then yoe + era * 400 + 1 else yoe + era * 400)"
    using assms unfolding civil_from_days_def Let_def z_def [symmetric] era_def [symmetric] doe_def [symmetric]
      year(1) yoe_def [symmetric] doy mp_def [symmetric] by auto
  have m': "1 \<le> m" "m \<le> 12" "1 \<le> d" using m d month by auto
  have feb: "is_leap y" if "mp = 11" "doy = 365" using leap_of_era [of c q era] that s y m by (auto simp: yoe_def add_ac)
  have "d \<le> days_in_month y m"
  proof (cases "mp = 11")
    case True
    then have "m = 2" "d \<le> doy - 336" using m d month(4) by simp_all
    moreover have "doy \<le> 364 \<or> doy = 365" using s(8) by linarith
    ultimately show ?thesis using feb True by (auto simp: days_in_month_def)
  next
    case False
    then have "mp \<in> {0, 1, 2, 3, 4, 5, 6, 7, 8, 9, 10}" using month(1,2) unfolding insert_iff empty_iff by presburger
    then show ?thesis using m d month(4) False by (elim insertE) (simp_all add: days_in_month_def)
  qed
  moreover have "days_from_civil y m d = n"
  proof -
    have y': "(if m \<le> 2 then y - 1 else y) = yoe + era * 400" using y by simp
    have yoe: "0 \<le> yoe" "yoe < 400" unfolding yoe_def using s by linarith+
    have e: "(yoe + era * 400) div 400 = era" using yoe by simp
    have mpm: "(if m > 2 then m - 3 else m + 9) = mp" using m month by auto
    have "days_from_civil y m d = era * 146097 + (yoe * 365 + yoe div 4 - yoe div 100 + ((153 * mp + 2) div 5 + d - 1)) - 306"
      unfolding days_from_civil_def Let_def y' e mpm by simp
    also have "\<dots> = era * 146097 + doe - 306" using doy d by linarith
    finally show ?thesis unfolding doe_def z_def by simp
  qed
  ultimately show ?thesis using m' by blast
qed

section \<open>RFC 3339\<close>

text \<open>
  \<open>time.Parse(time.RFC3339, s)\<close>. The layout takes a four-digit year, two-digit month, day, minute and
  second and an hour of one or two digits; a fractional second after a period or a comma is accepted
  although the layout names none, and digits after the ninth are dropped; the zone is \<open>Z\<close> or
  \<open>\<plusminus>hh:mm\<close> with hh at most 24 and mm at most 60.
\<close>

definition two_digits :: "string \<Rightarrow> (int \<times> string) option" where
  "two_digits s =
     (case s of a # b # t \<Rightarrow>
        if is_digit a \<and> is_digit b then Some (int (digits_val 0 [a, b]), t) else None
      | _ \<Rightarrow> None)"

definition hour_digits :: "string \<Rightarrow> (int \<times> string) option" where
  "hour_digits s =
     (case s of a # t \<Rightarrow>
        if \<not> is_digit a then None
        else (case t of b # u \<Rightarrow>
                if is_digit b then Some (int (digits_val 0 [a, b]), u) else Some (int (digit_val a), t)
              | [] \<Rightarrow> Some (int (digit_val a), []))
      | [] \<Rightarrow> None)"

definition year_digits :: "string \<Rightarrow> (int \<times> string) option" where
  "year_digits s =
     (if 4 \<le> length s \<and> list_all is_digit (take 4 s)
      then Some (int (digits_val 0 (take 4 s)), drop 4 s) else None)"

definition expect :: "char \<Rightarrow> string \<Rightarrow> string option" where
  "expect c s = (case s of x # t \<Rightarrow> if x = c then Some t else None | [] \<Rightarrow> None)"

text \<open>Up to nine fractional digits as nanoseconds.\<close>

definition frac_nanos :: "string \<Rightarrow> int" where
  "frac_nanos ds = (let used = take 9 ds in int (digits_val 0 used) * 10 ^ (9 - length used))"

definition fraction :: "string \<Rightarrow> int \<times> string" where
  "fraction s =
     (case s of c # d # t \<Rightarrow>
        if (c = CHR ''.'' \<or> c = CHR '','') \<and> is_digit d
        then (frac_nanos (takeWhile is_digit (d # t)), dropWhile is_digit (d # t))
        else (0, s)
      | _ \<Rightarrow> (0, s))"

text \<open>The zone offset in seconds east of UTC.\<close>

definition zone_offset :: "string \<Rightarrow> int option" where
  "zone_offset s =
     (if s = ''Z'' then Some 0
      else (case s of z # t \<Rightarrow>
        (if z \<noteq> CHR ''+'' \<and> z \<noteq> CHR ''-'' then None
         else Option.bind (two_digits t) (\<lambda>(hh, t1).
              Option.bind (expect CHR '':'' t1) (\<lambda>t2.
              Option.bind (two_digits t2) (\<lambda>(mm, t3).
                if t3 = [] \<and> hh \<le> 24 \<and> mm \<le> 60
                then Some ((if z = CHR ''-'' then - 1 else 1) * (hh * 3600 + mm * 60))
                else None))))
       | [] \<Rightarrow> None))"

definition parse_rfc3339 :: "string \<Rightarrow> time option" where
  "parse_rfc3339 s =
     Option.bind (year_digits s) (\<lambda>(y, s).
     Option.bind (expect CHR ''-'' s) (\<lambda>s.
     Option.bind (two_digits s) (\<lambda>(mo, s).
     Option.bind (expect CHR ''-'' s) (\<lambda>s.
     Option.bind (two_digits s) (\<lambda>(d, s).
     Option.bind (expect CHR ''T'' s) (\<lambda>s.
     Option.bind (hour_digits s) (\<lambda>(h, s).
     Option.bind (expect CHR '':'' s) (\<lambda>s.
     Option.bind (two_digits s) (\<lambda>(mi, s).
     Option.bind (expect CHR '':'' s) (\<lambda>s.
     Option.bind (two_digits s) (\<lambda>(sec, s).
     Option.bind (zone_offset (snd (fraction s))) (\<lambda>off.
       if 1 \<le> mo \<and> mo \<le> 12 \<and> 1 \<le> d \<and> d \<le> days_in_month y mo \<and> h < 24 \<and> mi < 60 \<and> sec < 60
       then Some ((days_from_civil y mo d * 86400 + h * 3600 + mi * 60 + sec - off) * second
                    + fst (fraction s))
       else None))))))))))))"

lemma parse_rfc3339_example:
  "parse_rfc3339 ''2024-02-29T23:59:59.5+01:00'' = Some ((738944 * 86400 + 22 * 3600 + 59 * 60 + 59) * second + 500 * millisecond)"
  "parse_rfc3339 ''2023-02-29T00:00:00Z'' = None"
  "parse_rfc3339 ''0001-01-01T00:00:00Z'' = Some 0"
  by code_simp+

end
