(* ===== verification/Reading_State.thy ===== *)
theory Reading_State
  imports Go_Time
begin

text \<open>
  The reading-state machine of \<open>src/internal/readingstate\<close>: the state of one story for one owner, the
  commands that change it, \<open>Apply\<close> (the transition function) and \<open>Validate\<close> (its invariant).
  The lemmas show that the transition preserves the invariant, which commands can fail and why,
  what each command leaves untouched, and that the tag list stays a sorted list without duplicates.
\<close>

named_theorems reading_simps \<open>the transition function, one command at a time\<close>

section \<open>States and commands\<close>

datatype rs_error =
    ErrConflict
  | ErrInvalid string
  | ErrNotFound
  | ErrUndoConflict
  | ErrUndoExpired
  | ErrUndoUnavailable

text \<open>A Go string type with named constants; the last constructor is every other string.\<close>

datatype location = LocationInbox | LocationLater | LocationArchive | LocationOther string

datatype action =
    ActionAddTag
  | ActionAlreadyKnown
  | ActionArchive
  | ActionDismiss
  | ActionMarkRead
  | ActionMarkUnread
  | ActionMoveInbox
  | ActionMoveLater
  | ActionRemoveTag
  | ActionReorderLater
  | ActionReturnSnoozed
  | ActionSnooze
  | ActionStar
  | ActionUnstar
  | ActionUnsnooze
  | ActionUpdateProgress
  | ActionOther string

record story_state =
  DismissedReason :: "string option"
  IsRead :: bool
  LastParagraphID :: "string option"
  LaterPosition :: "int option"
  Location :: location
  ReadAt :: "time option"
  ReadingProgress :: float64
  SnoozedFromLocation :: "location option"
  SnoozedUntil :: "time option"
  StarredAt :: "time option"
  StoryID :: string
  TagIDs :: "string list"
  UpdatedAt :: time
  Version :: int

record command =
  cmd_Action :: action
  cmd_DismissedReason :: "string option"
  cmd_ExpectedVersion :: int
  cmd_IdempotencyKey :: string
  cmd_LastParagraphID :: "string option"
  cmd_LaterPosition :: "int option"
  cmd_ReadingProgress :: "float64 option"
  cmd_SnoozedUntil :: "time option"
  cmd_StoryID :: string
  cmd_TagID :: "string option"
  cmd_UserID :: string

definition dismissalReasons :: "string list" where
  "dismissalReasons =
     [''already_known'', ''duplicate'', ''irrelevant_topic'', ''low_quality'', ''too_promotional'']"

definition DefaultState :: "string \<Rightarrow> time \<Rightarrow> story_state" where
  "DefaultState storyID now =
     \<lparr>DismissedReason = None, IsRead = False, LastParagraphID = None, LaterPosition = None,
      Location = LocationInbox, ReadAt = None, ReadingProgress = Fin 0,
      SnoozedFromLocation = None, SnoozedUntil = None, StarredAt = None,
      StoryID = storyID, TagIDs = [], UpdatedAt = now, Version = 0\<rparr>"

section \<open>The transition function\<close>

definition clearSnooze :: "story_state \<Rightarrow> story_state" where
  "clearSnooze s = s\<lparr>SnoozedFromLocation := None, SnoozedUntil := None\<rparr>"

definition markUnread :: "story_state \<Rightarrow> story_state" where
  "markUnread s = s\<lparr>IsRead := False, ReadAt := None\<rparr>"

definition Validate :: "story_state \<Rightarrow> rs_error option" where
  "Validate s =
     (if Location s \<noteq> LocationInbox \<and> Location s \<noteq> LocationLater \<and> Location s \<noteq> LocationArchive
      then Some (ErrInvalid ''unsupported location'')
      else if IsRead s \<noteq> (ReadAt s \<noteq> None)
      then Some (ErrInvalid ''read timestamp does not match read state'')
      else if flt_lt (ReadingProgress s) (Fin 0) \<or> flt_gt (ReadingProgress s) (Fin 1)
      then Some (ErrInvalid ''reading progress is outside its bounds'')
      else if (SnoozedUntil s = None) \<noteq> (SnoozedFromLocation s = None)
      then Some (ErrInvalid ''partial snooze state'')
      else if SnoozedFromLocation s \<noteq> None
              \<and> (Location s = LocationArchive \<or> Some (Location s) \<noteq> SnoozedFromLocation s)
      then Some (ErrInvalid ''snooze location does not match the active location'')
      else if Version s < 0
      then Some (ErrInvalid ''negative version'')
      else None)"

text \<open>The switch of \<open>Apply\<close>: the fields a command changes, before version and timestamp are set.\<close>

fun apply_action :: "action \<Rightarrow> story_state \<Rightarrow> command \<Rightarrow> time \<Rightarrow> rs_error + story_state" where
  "apply_action ActionMarkRead s c now = Inr (s\<lparr>IsRead := True, ReadAt := Some now\<rparr>)"
| "apply_action ActionMarkUnread s c now = Inr (markUnread s)"
| "apply_action ActionMoveInbox s c now =
     Inr (clearSnooze (s\<lparr>Location := LocationInbox, DismissedReason := None, LaterPosition := None\<rparr>))"
| "apply_action ActionMoveLater s c now =
     Inr (clearSnooze (s\<lparr>Location := LocationLater, DismissedReason := None,
                          LaterPosition := Some (unix_milli now)\<rparr>))"
| "apply_action ActionArchive s c now =
     Inr (clearSnooze (s\<lparr>Location := LocationArchive, DismissedReason := None, LaterPosition := None\<rparr>))"
| "apply_action ActionSnooze s c now =
     (if Location s = LocationArchive
      then Inl (ErrInvalid ''archived stories must be restored before snoozing'')
      else (case cmd_SnoozedUntil c of
        None \<Rightarrow> Inl (ErrInvalid ''snooze requires a return time'')
      | Some until \<Rightarrow>
          if \<not> now < until \<or> now + 366 * 24 * hour < until
          then Inl (ErrInvalid ''snooze return time must be within the next year'')
          else Inr (markUnread (s\<lparr>SnoozedUntil := Some until,
                                   SnoozedFromLocation := Some (Location s)\<rparr>))))"
| "apply_action ActionUnsnooze s c now = Inr (markUnread (clearSnooze s))"
| "apply_action ActionReturnSnoozed s c now =
     (case (SnoozedUntil s, SnoozedFromLocation s) of
        (Some until, Some _) \<Rightarrow>
          if now < until then Inl (ErrInvalid ''only snoozed stories can be returned'')
          else Inr (markUnread (clearSnooze s))
      | _ \<Rightarrow> Inl (ErrInvalid ''only snoozed stories can be returned''))"
| "apply_action ActionStar s c now = Inr (s\<lparr>StarredAt := Some now\<rparr>)"
| "apply_action ActionUnstar s c now = Inr (s\<lparr>StarredAt := None\<rparr>)"
| "apply_action ActionDismiss s c now =
     (let archived = clearSnooze (s\<lparr>Location := LocationArchive, LaterPosition := None\<rparr>) in
      case cmd_DismissedReason c of
        None \<Rightarrow> Inr (archived\<lparr>DismissedReason := None\<rparr>)
      | Some raw \<Rightarrow>
          let reason = trim_space raw in
          if reason \<notin> set dismissalReasons
          then Inl (ErrInvalid ''unsupported dismissal reason'')
          else Inr (archived\<lparr>DismissedReason := Some reason\<rparr>))"
| "apply_action ActionAlreadyKnown s c now = Inr (s\<lparr>IsRead := True, ReadAt := Some now\<rparr>)"
| "apply_action ActionUpdateProgress s c now =
     (case cmd_ReadingProgress c of
        None \<Rightarrow> Inl (ErrInvalid ''reading progress must be between zero and one'')
      | Some progress \<Rightarrow>
          if flt_lt progress (Fin 0) \<or> flt_gt progress (Fin 1)
          then Inl (ErrInvalid ''reading progress must be between zero and one'')
          else (case cmd_LastParagraphID c of
            None \<Rightarrow> Inr (s\<lparr>ReadingProgress := progress\<rparr>)
          | Some raw \<Rightarrow>
              let paragraphID = trim_space raw in
              if paragraphID = [] \<or> length paragraphID > 255
              then Inl (ErrInvalid ''paragraph ID must contain 1 through 255 characters'')
              else Inr (s\<lparr>LastParagraphID := Some paragraphID, ReadingProgress := progress\<rparr>)))"
| "apply_action ActionAddTag s c now =
     (case cmd_TagID c of
        None \<Rightarrow> Inl (ErrInvalid ''add tag requires a tag ID'')
      | Some tag \<Rightarrow>
          if trim_space tag = [] then Inl (ErrInvalid ''add tag requires a tag ID'')
          else if tag \<in> set (TagIDs s) then Inr s
          else Inr (s\<lparr>TagIDs := sort (TagIDs s @ [tag])\<rparr>))"
| "apply_action ActionRemoveTag s c now =
     (case cmd_TagID c of
        None \<Rightarrow> Inl (ErrInvalid ''remove tag requires a tag ID'')
      | Some tag \<Rightarrow>
          if trim_space tag = [] then Inl (ErrInvalid ''remove tag requires a tag ID'')
          else Inr (s\<lparr>TagIDs := filter (\<lambda>t. t \<noteq> tag) (TagIDs s)\<rparr>))"
| "apply_action ActionReorderLater s c now =
     (case cmd_LaterPosition c of
        None \<Rightarrow> Inl (ErrInvalid ''only Later stories accept a non-negative position'')
      | Some position \<Rightarrow>
          if Location s \<noteq> LocationLater \<or> position < 0
          then Inl (ErrInvalid ''only Later stories accept a non-negative position'')
          else Inr (s\<lparr>LaterPosition := Some position\<rparr>))"
| "apply_action (ActionOther a) s c now = Inl (ErrInvalid ''unsupported action'')"

definition Apply :: "story_state \<Rightarrow> command \<Rightarrow> time \<Rightarrow> rs_error + story_state" where
  "Apply current c now =
     and_then (apply_action (cmd_Action c) current c now) (\<lambda>changed.
       let next = changed\<lparr>Version := wrap64 (Version current + 1), UpdatedAt := now\<rparr>
       in check (Validate next) (Inr next))"

section \<open>The stored row and the machine's invariant\<close>

text \<open>The CHECK constraints of the table \<open>app.user_item_states\<close>; SQL \<open>length\<close> counts characters.\<close>

definition read_check :: "story_state \<Rightarrow> bool" where
  "read_check s \<longleftrightarrow> (IsRead s \<and> ReadAt s \<noteq> None) \<or> (\<not> IsRead s \<and> ReadAt s = None)"

definition snooze_check :: "story_state \<Rightarrow> bool" where
  "snooze_check s \<longleftrightarrow>
     (SnoozedUntil s = None \<and> SnoozedFromLocation s = None)
     \<or> (SnoozedUntil s \<noteq> None \<and> SnoozedFromLocation s \<in> {Some LocationInbox, Some LocationLater}
         \<and> SnoozedFromLocation s = Some (Location s))"

definition reading_progress_check :: "story_state \<Rightarrow> bool" where
  "reading_progress_check s \<longleftrightarrow> flt_le (Fin 0) (ReadingProgress s) \<and> flt_le (ReadingProgress s) (Fin 1)"

definition last_paragraph_id_check :: "story_state \<Rightarrow> bool" where
  "last_paragraph_id_check s \<longleftrightarrow>
     (case LastParagraphID s of None \<Rightarrow> True | Some p \<Rightarrow> 1 \<le> rune_count p \<and> rune_count p \<le> 255)"

definition later_position_check :: "story_state \<Rightarrow> bool" where
  "later_position_check s \<longleftrightarrow> (case LaterPosition s of None \<Rightarrow> True | Some q \<Rightarrow> 0 \<le> q)"

definition dismissed_reason_check :: "story_state \<Rightarrow> bool" where
  "dismissed_reason_check s \<longleftrightarrow>
     (case DismissedReason s of None \<Rightarrow> True | Some r \<Rightarrow> r \<in> set dismissalReasons)"

definition row_checks :: "story_state \<Rightarrow> bool" where
  "row_checks s \<longleftrightarrow>
     Location s \<in> {LocationInbox, LocationLater, LocationArchive} \<and> read_check s \<and> snooze_check s
     \<and> reading_progress_check s \<and> last_paragraph_id_check s \<and> later_position_check s
     \<and> dismissed_reason_check s \<and> 0 \<le> Version s"

lemmas row_check_defs = read_check_def snooze_check_def reading_progress_check_def
  last_paragraph_id_check_def later_position_check_def dismissed_reason_check_def

text \<open>What holds besides: where a position or a dismissal reason may be set, and the tag list.\<close>

definition placement_ok :: "story_state \<Rightarrow> bool" where
  "placement_ok s \<longleftrightarrow>
     (LaterPosition s \<noteq> None \<longleftrightarrow> Location s = LocationLater)
     \<and> (DismissedReason s \<noteq> None \<longrightarrow> Location s = LocationArchive)"

definition tags_ok :: "story_state \<Rightarrow> bool" where
  "tags_ok s \<longleftrightarrow> sorted (TagIDs s) \<and> distinct (TagIDs s)"

definition state_inv :: "story_state \<Rightarrow> bool" where
  "state_inv s \<longleftrightarrow> row_checks s \<and> placement_ok s \<and> tags_ok s"


text \<open>A command whose progress, if it carries one, is a number: JSON has no NaN.\<close>

definition numeric_command :: "command \<Rightarrow> bool" where
  "numeric_command c \<longleftrightarrow> cmd_ReadingProgress c \<noteq> Some NaN"

lemma clearSnooze_sel [simp]:
  "SnoozedUntil (clearSnooze s) = None" "SnoozedFromLocation (clearSnooze s) = None"
  "Location (clearSnooze s) = Location s" "IsRead (clearSnooze s) = IsRead s"
  "ReadAt (clearSnooze s) = ReadAt s" "ReadingProgress (clearSnooze s) = ReadingProgress s"
  "LastParagraphID (clearSnooze s) = LastParagraphID s" "LaterPosition (clearSnooze s) = LaterPosition s"
  "DismissedReason (clearSnooze s) = DismissedReason s" "Version (clearSnooze s) = Version s"
  "TagIDs (clearSnooze s) = TagIDs s" "StarredAt (clearSnooze s) = StarredAt s"
  "StoryID (clearSnooze s) = StoryID s"
  by (simp_all add: clearSnooze_def)

lemma markUnread_sel [simp]:
  "IsRead (markUnread s) = False" "ReadAt (markUnread s) = None"
  "Location (markUnread s) = Location s" "SnoozedUntil (markUnread s) = SnoozedUntil s"
  "SnoozedFromLocation (markUnread s) = SnoozedFromLocation s"
  "ReadingProgress (markUnread s) = ReadingProgress s"
  "LastParagraphID (markUnread s) = LastParagraphID s" "LaterPosition (markUnread s) = LaterPosition s"
  "DismissedReason (markUnread s) = DismissedReason s" "Version (markUnread s) = Version s"
  "TagIDs (markUnread s) = TagIDs s" "StarredAt (markUnread s) = StarredAt s"
  "StoryID (markUnread s) = StoryID s"
  by (simp_all add: markUnread_def)

lemma row_checks_valid: "row_checks s \<Longrightarrow> Validate s = None"
  by (auto simp: row_checks_def row_check_defs Validate_def flt_gt_def dest!: flt_le_not_lt)

text \<open>A value that passes the two bound checks and is a number lies between the bounds.\<close>

lemma progress_bounds:
  "p \<noteq> NaN \<Longrightarrow> \<not> flt_lt p (Fin 0) \<Longrightarrow> \<not> flt_gt p (Fin 1) \<Longrightarrow> flt_le (Fin 0) p \<and> flt_le p (Fin 1)"
  using flt_between [of p 0 1] by auto

text \<open>The switch keeps everything but the version, which only \<open>Apply\<close> changes.\<close>

lemma apply_action_Version: "apply_action a s c now = Inr t \<Longrightarrow> Version t = Version s \<and> StoryID t = StoryID s"
  by (cases a) (auto simp: Let_def split: option.splits if_splits)

lemmas action_splits = option.splits if_splits

lemma apply_action_tags: "apply_action a s c now = Inr t \<Longrightarrow> tags_ok s \<Longrightarrow> tags_ok t"
  by (cases a) (auto simp: tags_ok_def Let_def sorted_wrt_filter split: action_splits)

lemma apply_action_placement:
  "apply_action a s c now = Inr t \<Longrightarrow> placement_ok s \<Longrightarrow> placement_ok t"
  by (cases a) (auto simp: placement_ok_def Let_def split: action_splits)

lemma apply_action_location:
  "apply_action a s c now = Inr t \<Longrightarrow> Location s \<in> {LocationInbox, LocationLater, LocationArchive} \<Longrightarrow>
   Location t \<in> {LocationInbox, LocationLater, LocationArchive}"
  by (cases a) (auto simp: Let_def split: action_splits)

lemma apply_action_read: "apply_action a s c now = Inr t \<Longrightarrow> read_check s \<Longrightarrow> read_check t"
  by (cases a) (auto simp: read_check_def Let_def split: action_splits)

text \<open>A command clears the snooze, sets it for the place the story is in, or leaves it alone.\<close>

lemma apply_action_snooze_fields:
  "apply_action a s c now = Inr t \<Longrightarrow>
     (SnoozedUntil t = None \<and> SnoozedFromLocation t = None)
     \<or> (SnoozedUntil t \<noteq> None \<and> SnoozedFromLocation t = Some (Location t)
          \<and> Location t = Location s \<and> Location s \<noteq> LocationArchive)
     \<or> (SnoozedUntil t = SnoozedUntil s \<and> SnoozedFromLocation t = SnoozedFromLocation s
          \<and> Location t = Location s)"
  by (cases a) (auto simp: Let_def split: action_splits)

lemma apply_action_snooze:
  assumes "apply_action a s c now = Inr t" and "snooze_check s"
    and "Location s \<in> {LocationInbox, LocationLater, LocationArchive}"
  shows "snooze_check t"
  using apply_action_snooze_fields [OF assms(1)] assms(2,3)
  unfolding snooze_check_def by (elim disjE conjE) simp_all

lemma apply_action_progress:
  "apply_action a s c now = Inr t \<Longrightarrow> numeric_command c \<Longrightarrow> reading_progress_check s \<Longrightarrow>
   reading_progress_check t"
  by (cases a)
    (auto simp: reading_progress_check_def numeric_command_def Let_def dest: progress_bounds
          split: action_splits)

lemma apply_action_paragraph:
  "apply_action a s c now = Inr t \<Longrightarrow> last_paragraph_id_check s \<Longrightarrow> last_paragraph_id_check t"
  by (cases a)
    (auto simp: last_paragraph_id_check_def Let_def Suc_le_eq rune_count_pos
          intro: le_trans [OF rune_count_le] split: action_splits)

lemma apply_action_later:
  "apply_action a s c now = Inr t \<Longrightarrow> 0 \<le> unix_milli now \<Longrightarrow> later_position_check s \<Longrightarrow>
   later_position_check t"
  by (cases a) (auto simp: later_position_check_def Let_def split: action_splits)

lemma apply_action_dismissed:
  "apply_action a s c now = Inr t \<Longrightarrow> dismissed_reason_check s \<Longrightarrow> dismissed_reason_check t"
  by (cases a) (auto simp: dismissed_reason_check_def Let_def split: action_splits)

lemma apply_action_row:
  assumes "apply_action a s c now = Inr t" and "row_checks s" and "numeric_command c"
    and "0 \<le> unix_milli now"
  shows "row_checks t"
  using assms apply_action_location [OF assms(1)] apply_action_read [OF assms(1)]
    apply_action_snooze [OF assms(1)] apply_action_progress [OF assms(1)]
    apply_action_paragraph [OF assms(1)] apply_action_later [OF assms(1)]
    apply_action_dismissed [OF assms(1)] apply_action_Version [OF assms(1)]
  by (simp add: row_checks_def)

section \<open>Runs of commands\<close>

lemma Apply_Inr_iff:
  "Apply s c now = Inr s' \<longleftrightarrow>
     (\<exists>t. apply_action (cmd_Action c) s c now = Inr t
        \<and> s' = t\<lparr>Version := wrap64 (Version s + 1), UpdatedAt := now\<rparr> \<and> Validate s' = None)"
  by (auto simp: Apply_def go_result Let_def)

lemma row_checks_stamp:
  "row_checks t \<Longrightarrow> 0 \<le> v \<Longrightarrow> row_checks (t\<lparr>Version := v, UpdatedAt := now\<rparr>)"
  by (simp add: row_checks_def row_check_defs)

lemma state_inv_stamp:
  "state_inv t \<Longrightarrow> 0 \<le> v \<Longrightarrow> state_inv (t\<lparr>Version := v, UpdatedAt := now\<rparr>)"
  by (simp add: state_inv_def row_checks_stamp placement_ok_def tags_ok_def)

lemma apply_action_inv:
  "apply_action a s c now = Inr t \<Longrightarrow> state_inv s \<Longrightarrow> numeric_command c \<Longrightarrow> 0 \<le> unix_milli now \<Longrightarrow>
   state_inv t"
  by (auto simp: state_inv_def intro: apply_action_row apply_action_placement apply_action_tags)

lemma Apply_inv:
  assumes "Apply s c now = Inr s'" and "state_inv s" and "numeric_command c" and "0 \<le> unix_milli now"
  shows "state_inv s'"
proof -
  obtain t where t: "apply_action (cmd_Action c) s c now = Inr t"
    and s': "s' = t\<lparr>Version := wrap64 (Version s + 1), UpdatedAt := now\<rparr>" and valid: "Validate s' = None"
    using assms(1) by (auto simp: Apply_Inr_iff)
  have "0 \<le> wrap64 (Version s + 1)"
    using valid s' by (auto simp: Validate_def split: if_splits)
  then show ?thesis
    unfolding s' using apply_action_inv [OF t assms(2-4)] by (rule state_inv_stamp [rotated])
qed

text \<open>
  The states a story passes through: it starts in the default state, and each step is a command that
  \<open>Apply\<close> accepted at a clock reading after 1970.
\<close>

inductive reachable_state :: "string \<Rightarrow> story_state \<Rightarrow> bool" where
  start: "reachable_state sid (DefaultState sid t0)"
| step: "reachable_state sid s \<Longrightarrow> numeric_command c \<Longrightarrow> 0 \<le> unix_milli now \<Longrightarrow>
         Apply s c now = Inr s' \<Longrightarrow> reachable_state sid s'"

lemma DefaultState_inv: "state_inv (DefaultState sid t0)"
  by (simp add: state_inv_def row_checks_def row_check_defs placement_ok_def tags_ok_def DefaultState_def)

text \<open>The switch does not read the update time.\<close>

lemma apply_action_UpdatedAt:
  "apply_action a (s\<lparr>UpdatedAt := t\<rparr>) c now = map_sum id (\<lambda>s. s\<lparr>UpdatedAt := t\<rparr>) (apply_action a s c now)"
  by (cases a) (simp_all add: clearSnooze_def markUnread_def Let_def split: option.split)

lemma Apply_UpdatedAt: "Apply (s\<lparr>UpdatedAt := t\<rparr>) c now = Apply s c now"
  by (cases "apply_action (cmd_Action c) s c now") (simp_all add: Apply_def apply_action_UpdatedAt)

lemma Apply_StoryID: "Apply s c now = Inr s' \<Longrightarrow> StoryID s' = StoryID s"
  by (auto simp: Apply_Inr_iff dest: apply_action_Version)

definition sample_command :: "action \<Rightarrow> command" where
  "sample_command a =
     \<lparr>cmd_Action = a, cmd_DismissedReason = None, cmd_ExpectedVersion = 0,
      cmd_IdempotencyKey = ''0123456789abcdef'', cmd_LastParagraphID = None, cmd_LaterPosition = None,
      cmd_ReadingProgress = None, cmd_SnoozedUntil = None, cmd_StoryID = ''story'',
      cmd_TagID = None, cmd_UserID = ''owner''\<rparr>"

definition clock_2024 :: time where
  "clock_2024 = 738944 * 86400 * second"

lemma clock_2024_milli: "unix_milli clock_2024 = 1709164800000"
  by (simp add: unix_milli_def clock_2024_def wrap64_def unix_epoch_seconds_def)

text \<open>
  C1. Every state reachable by accepted commands satisfies all CHECK constraints of the table that
  stores it, has a Later position exactly when it is in Later, a dismissal reason only in the
  archive, a sorted tag list without duplicates, and still belongs to the same story.
\<close>

theorem reachable_state_inv:
  assumes "reachable_state sid s"
  shows "row_checks s \<and> placement_ok s \<and> tags_ok s \<and> StoryID s = sid"
proof -
  have "state_inv s \<and> StoryID s = sid"
    using assms
  proof (induction rule: reachable_state.induct)
    case (start sid t0)
    then show ?case by (simp add: DefaultState_inv) (simp add: DefaultState_def)
  next
    case (step sid s c now s')
    then show ?case by (auto intro: Apply_inv dest: Apply_StoryID)
  qed
  then show ?thesis by (simp add: state_inv_def)
qed

lemma sample_reachable:
  "reachable_state ''story''
     (DefaultState ''story'' clock_2024
        \<lparr>Location := LocationLater, LaterPosition := Some 1709164800000, Version := 1, UpdatedAt := clock_2024\<rparr>)"
proof (rule reachable_state.step [OF reachable_state.start])
  show "numeric_command (sample_command ActionMoveLater)"
    by (simp add: numeric_command_def sample_command_def)
  show "0 \<le> unix_milli clock_2024" by (simp add: clock_2024_milli)
  show "Apply (DefaultState ''story'' clock_2024) (sample_command ActionMoveLater) clock_2024 =
    Inr (DefaultState ''story'' clock_2024
        \<lparr>Location := LocationLater, LaterPosition := Some 1709164800000, Version := 1, UpdatedAt := clock_2024\<rparr>)"
    by (simp add: Apply_Inr_iff sample_command_def DefaultState_def clock_2024_milli clearSnooze_def
          Validate_def wrap64_def)
qed

theorem reachable_state_inv_witness:
  "placement_ok (DefaultState ''story'' clock_2024
     \<lparr>Location := LocationLater, LaterPosition := Some 1709164800000, Version := 1, UpdatedAt := clock_2024\<rparr>)"
  using reachable_state_inv [OF sample_reachable] by blast

lemma Apply_accepted:
  assumes "state_inv s" and "Version s < max_int64" and "numeric_command c" and "0 \<le> unix_milli now"
    and "apply_action (cmd_Action c) s c now = Inr t"
  shows "Apply s c now = Inr (t\<lparr>Version := Version s + 1, UpdatedAt := now\<rparr>)
         \<and> state_inv (t\<lparr>Version := Version s + 1, UpdatedAt := now\<rparr>)"
proof -
  have nonneg: "0 \<le> Version s"
    using assms(1) by (simp add: state_inv_def row_checks_def)
  then have "wrap64 (Version s + 1) = Version s + 1"
    using assms(2) by (intro wrap64_id) (simp add: int64_range_def max_int64_def)
  moreover have inv: "state_inv (t\<lparr>Version := Version s + 1, UpdatedAt := now\<rparr>)"
    using nonneg by (intro state_inv_stamp apply_action_inv [OF assms(5,1,3,4)]) simp
  moreover have "Validate (t\<lparr>Version := Version s + 1, UpdatedAt := now\<rparr>) = None"
    using inv by (intro row_checks_valid) (simp add: state_inv_def)
  ultimately show ?thesis
    using assms(5) by (simp add: Apply_Inr_iff)
qed

text \<open>
  C2. The final validation never rejects what the switch accepted: on a state that satisfies the
  invariant and whose version counter has not reached the largest \<open>int64\<close>, a command the switch
  accepts succeeds, adds exactly one to the version, stamps the update time and keeps the invariant.
\<close>

theorem Apply_complete:
  assumes "state_inv s" and "Version s < max_int64" and "numeric_command c" and "0 \<le> unix_milli now"
    and "apply_action (cmd_Action c) s c now = Inr t"
  shows "Apply s c now = Inr (t\<lparr>Version := Version s + 1, UpdatedAt := now\<rparr>)
         \<and> state_inv (t\<lparr>Version := Version s + 1, UpdatedAt := now\<rparr>)"
  by (rule Apply_accepted [OF assms])

theorem Apply_complete_witness:
  "Apply (DefaultState ''story'' 0) (sample_command ActionStar) clock_2024 =
     Inr (DefaultState ''story'' 0\<lparr>StarredAt := Some clock_2024, Version := 1, UpdatedAt := clock_2024\<rparr>)"
proof -
  have "Apply (DefaultState ''story'' 0) (sample_command ActionStar) clock_2024 =
     Inr (DefaultState ''story'' 0\<lparr>StarredAt := Some clock_2024, Version := Version (DefaultState ''story'' 0) + 1,
            UpdatedAt := clock_2024\<rparr>)"
    by (rule conjunct1 [OF Apply_complete])
      (simp_all add: DefaultState_inv numeric_command_def sample_command_def clock_2024_milli,
       simp add: DefaultState_def max_int64_def)
  then show ?thesis by (simp add: DefaultState_def)
qed

section \<open>What a command leaves alone\<close>

definition read_actions :: "action set" where
  "read_actions = {ActionMarkRead, ActionMarkUnread, ActionAlreadyKnown, ActionSnooze, ActionUnsnooze,
     ActionReturnSnoozed}"

definition move_actions :: "action set" where
  "move_actions = {ActionMoveInbox, ActionMoveLater, ActionArchive, ActionDismiss}"

definition snooze_actions :: "action set" where
  "snooze_actions = move_actions \<union> {ActionSnooze, ActionUnsnooze, ActionReturnSnoozed}"

lemmas action_sets = read_actions_def move_actions_def snooze_actions_def

lemma apply_action_frame:
  assumes "apply_action a s c now = Inr t"
  shows "a \<notin> {ActionStar, ActionUnstar} \<Longrightarrow> StarredAt t = StarredAt s"
    and "a \<notin> {ActionAddTag, ActionRemoveTag} \<Longrightarrow> TagIDs t = TagIDs s"
    and "a \<noteq> ActionUpdateProgress \<Longrightarrow> ReadingProgress t = ReadingProgress s \<and> LastParagraphID t = LastParagraphID s"
    and "a \<notin> move_actions \<Longrightarrow> Location t = Location s \<and> DismissedReason t = DismissedReason s"
    and "a \<notin> insert ActionReorderLater move_actions \<Longrightarrow> LaterPosition t = LaterPosition s"
    and "a \<notin> read_actions \<Longrightarrow> IsRead t = IsRead s \<and> ReadAt t = ReadAt s"
    and "a \<notin> snooze_actions \<Longrightarrow> SnoozedUntil t = SnoozedUntil s \<and> SnoozedFromLocation t = SnoozedFromLocation s"
  using assms
  by (cases a; auto simp: action_sets Let_def split: action_splits)+

text \<open>
  Commands act on independent dimensions: an accepted command changes the star only when it is
  Star or Unstar, the tags only when it is a tag command, reading progress and paragraph only on
  UpdateProgress, the place and the dismissal reason only when it moves, archives or dismisses, the
  Later position only then or on a reorder, the read mark only on a read or snooze command, and the
  snooze only when it snoozes, ends a snooze or moves.
\<close>

lemma Apply_frame:
  assumes "Apply s c now = Inr s'"
  shows "(cmd_Action c \<notin> {ActionStar, ActionUnstar} \<longrightarrow> StarredAt s' = StarredAt s)
    \<and> (cmd_Action c \<notin> {ActionAddTag, ActionRemoveTag} \<longrightarrow> TagIDs s' = TagIDs s)
    \<and> (cmd_Action c \<noteq> ActionUpdateProgress \<longrightarrow>
         ReadingProgress s' = ReadingProgress s \<and> LastParagraphID s' = LastParagraphID s)
    \<and> (cmd_Action c \<notin> move_actions \<longrightarrow>
         Location s' = Location s \<and> DismissedReason s' = DismissedReason s)
    \<and> (cmd_Action c \<notin> insert ActionReorderLater move_actions \<longrightarrow> LaterPosition s' = LaterPosition s)
    \<and> (cmd_Action c \<notin> read_actions \<longrightarrow> IsRead s' = IsRead s \<and> ReadAt s' = ReadAt s)
    \<and> (cmd_Action c \<notin> snooze_actions \<longrightarrow>
         SnoozedUntil s' = SnoozedUntil s \<and> SnoozedFromLocation s' = SnoozedFromLocation s)"
proof -
  obtain t where "apply_action (cmd_Action c) s c now = Inr t"
    and "s' = t\<lparr>Version := wrap64 (Version s + 1), UpdatedAt := now\<rparr>"
    using assms by (auto simp: Apply_Inr_iff)
  then show ?thesis
    using apply_action_frame [of "cmd_Action c" s c now t] by simp
qed

lemma star_accepted:
  "Apply (DefaultState ''story'' 0) (sample_command ActionStar) clock_2024 =
     Inr (DefaultState ''story'' 0\<lparr>StarredAt := Some clock_2024, Version := 1, UpdatedAt := clock_2024\<rparr>)"
  by (simp add: Apply_Inr_iff sample_command_def DefaultState_def Validate_def wrap64_def)

lemma Apply_frame_witness:
  "Location (DefaultState ''story'' 0\<lparr>StarredAt := Some clock_2024, Version := 1, UpdatedAt := clock_2024\<rparr>)
     = Location (DefaultState ''story'' 0)"
  using Apply_frame [OF star_accepted] by (simp add: sample_command_def move_actions_def)

text \<open>
  The life of a snooze: an accepted snooze leaves the story unread where it was until its return
  time; before that time a return is refused, and from that time on a return succeeds, clears the
  snooze and leaves the story unread in the place it was snoozed from.
\<close>

lemma snooze_lifecycle:
  assumes "state_inv s" and "Version s + 1 < max_int64" and "numeric_command c"
    and "0 \<le> unix_milli now" and "cmd_Action c = ActionSnooze" and "Apply s c now = Inr s1"
    and "cmd_Action r = ActionReturnSnoozed" and "numeric_command r" and "0 \<le> unix_milli later"
  shows "\<exists>until. SnoozedUntil s1 = Some until \<and> now < until \<and> Location s1 = Location s \<and> \<not> IsRead s1
    \<and> (later < until \<longrightarrow> Apply s1 r later = Inl (ErrInvalid ''only snoozed stories can be returned''))
    \<and> (until \<le> later \<longrightarrow> (\<exists>s2. Apply s1 r later = Inr s2 \<and> SnoozedUntil s2 = None
          \<and> SnoozedFromLocation s2 = None \<and> Location s2 = Location s \<and> \<not> IsRead s2))"
proof -
  obtain until where until: "now < until" and v: "Version s1 = wrap64 (Version s + 1)"
    and s1: "SnoozedUntil s1 = Some until" "SnoozedFromLocation s1 = Some (Location s)"
      "Location s1 = Location s" "\<not> IsRead s1"
    using assms(5,6) by (auto simp: Apply_Inr_iff split: action_splits)
  have "0 \<le> Version s" using assms(1) by (simp add: state_inv_def row_checks_def)
  then have v1: "Version s1 < max_int64"
    using v assms(2) by (simp add: wrap64_id int64_range_def max_int64_def)
  have inv1: "state_inv s1" using Apply_inv [OF assms(6,1,3,4)] .
  have early: "Apply s1 r later = Inl (ErrInvalid ''only snoozed stories can be returned'')" if "later < until"
    using that s1 assms(7) by (simp add: Apply_def)
  have act: "apply_action (cmd_Action r) s1 r later = Inr (markUnread (clearSnooze s1))" if "until \<le> later"
    using that s1 assms(7) by simp
  have "Apply s1 r later = Inr (markUnread (clearSnooze s1)\<lparr>Version := Version s1 + 1, UpdatedAt := later\<rparr>)"
    if "until \<le> later"
    using Apply_accepted [OF inv1 v1 assms(8,9) act [OF that]] by simp
  with early until s1 show ?thesis by auto
qed

definition snooze_sample :: command where
  "snooze_sample = (sample_command ActionSnooze)\<lparr>cmd_SnoozedUntil := Some (clock_2024 + hour)\<rparr>"

definition snoozed_sample :: story_state where
  "snoozed_sample = DefaultState ''story'' 0\<lparr>SnoozedUntil := Some (clock_2024 + hour),
     SnoozedFromLocation := Some LocationInbox, Version := 1, UpdatedAt := clock_2024\<rparr>"

lemma snooze_accepted: "Apply (DefaultState ''story'' 0) snooze_sample clock_2024 = Inr snoozed_sample"
  by (simp add: Apply_Inr_iff snooze_sample_def snoozed_sample_def sample_command_def DefaultState_def
        markUnread_def Validate_def wrap64_def)

lemma snooze_lifecycle_witness:
  "SnoozedUntil snoozed_sample = Some (clock_2024 + hour) \<and>
   (\<exists>s2. Apply snoozed_sample (sample_command ActionReturnSnoozed) (clock_2024 + hour) = Inr s2 \<and> \<not> IsRead s2)"
proof -
  have milli: "0 \<le> unix_milli (clock_2024 + hour)"
    by (simp add: unix_milli_def clock_2024_def wrap64_def unix_epoch_seconds_def)
  have "Version (DefaultState ''story'' 0) + 1 < max_int64"
    by (simp add: DefaultState_def max_int64_def)
  from snooze_lifecycle [OF DefaultState_inv this _ _ _ snooze_accepted _ _ milli,
      where r = "sample_command ActionReturnSnoozed"]
  show ?thesis
    by (auto simp: snooze_sample_def sample_command_def numeric_command_def clock_2024_milli snoozed_sample_def)
qed

end
