(* ===== verification/Postgres.thy ===== *)
theory Postgres
  imports Go_Time
begin

text \<open>
  What the stores rely on of the database server and of the UUID package, which are not part of the
  repository: the record \<open>pg\<close> holds their behaviour and is an argument of every store operation,
  \<open>pg_laws\<close> states what is documented about it. Here are also transactions: \<open>run_tx\<close> is \<open>BeginTx\<close>, a
  body, \<open>Commit\<close> and the deferred \<open>Rollback\<close>, and the locale \<open>tx_body\<close> is the contract of a body that
  keeps an invariant of the tables.
\<close>

text \<open>
  Whether \<open>uuid.Parse\<close> accepts a text, the server's cast to \<open>uuid\<close>, the n-th generated primary key,
  name-based UUIDs, the resolution of \<open>timestamptz\<close> and of \<open>numeric(6,5)\<close>, the strings of a \<open>text\<close> column.
\<close>

record pg =
  uuid_ok :: "string \<Rightarrow> bool"
  pg_uuid :: "string \<Rightarrow> string option"
  uuid_v7 :: "nat \<Rightarrow> string"
  uuid_sha1 :: "string \<Rightarrow> string"
  pg_time :: "time \<Rightarrow> time"
  pg_numeric :: "float64 \<Rightarrow> float64"
  pg_text :: "string \<Rightarrow> bool"

text \<open>
  What the server and the UUID package document: a canonical identifier reads as itself, generated
  keys are canonical, storing a stored value changes nothing, and truncation keeps the order of times.
\<close>

definition pg_laws :: "pg \<Rightarrow> bool" where
  "pg_laws E \<longleftrightarrow>
     (\<forall>s u. pg_uuid E s = Some u \<longrightarrow> pg_uuid E u = Some u)
     \<and> (\<forall>n. uuid_ok E (uuid_v7 E n) \<and> pg_uuid E (uuid_v7 E n) = Some (uuid_v7 E n))
     \<and> (\<forall>t. pg_time E (pg_time E t) = pg_time E t)
     \<and> (\<forall>s t. s \<le> t \<longrightarrow> pg_time E s \<le> pg_time E t)
     \<and> (\<forall>x. pg_numeric E (pg_numeric E x) = pg_numeric E x)
     \<and> pg_numeric E (Fin 0) = Fin 0"

definition pg_sample :: pg where
  "pg_sample =
     \<lparr>uuid_ok = (\<lambda>s. s \<noteq> []), pg_uuid = Some, uuid_v7 = (\<lambda>n. CHR ''m'' # nat_digits n),
      uuid_sha1 = (\<lambda>s. CHR ''b'' # s), pg_time = (\<lambda>t. t div 1000 * 1000),
      pg_numeric = (\<lambda>x. case x of Fin q \<Rightarrow> Fin (of_int \<lfloor>q * 100000\<rfloor> / 100000) | y \<Rightarrow> y),
      pg_text = valid_utf8\<rparr>"

lemma pg_sample_laws: "pg_laws pg_sample"
  by (auto simp: pg_laws_def pg_sample_def zdiv_mono1 split: float64.split)

section \<open>Transactions\<close>

text \<open>An error in the body or a failed commit leaves the database as it was.\<close>

datatype tx_fate = BeginFails | CommitFails | Commits

definition run_tx :: "tx_fate \<Rightarrow> 'e \<Rightarrow> ('d \<Rightarrow> 'e + ('d \<times> 'a)) \<Rightarrow> 'd \<Rightarrow> ('e + 'a) \<times> 'd" where
  "run_tx fate err body D =
     (if fate = BeginFails then (Inl err, D)
      else (case body D of
              Inl e \<Rightarrow> (Inl e, D)
            | Inr (D', r) \<Rightarrow> if fate = CommitFails then (Inl err, D) else (Inr r, D')))"

lemma run_tx_Commits: "run_tx Commits err body D = (Inr r, D') \<longleftrightarrow> body D = Inr (D', r)"
  by (auto simp: run_tx_def split: sum.splits)

lemma run_tx_Inr: "run_tx fate err body D = (Inr r, D') \<Longrightarrow> fate = Commits \<and> body D = Inr (D', r)"
  by (auto simp: run_tx_def split: sum.splits if_splits) (metis tx_fate.exhaust)

text \<open>A transaction body that keeps the invariant keeps it through every fate of the transaction.\<close>

locale tx_body =
  fixes inv :: "'d \<Rightarrow> bool" and err :: 'e and body :: "'d \<Rightarrow> 'e + ('d \<times> 'a)"
  assumes body_inv: "inv D \<Longrightarrow> body D = Inr (D', r) \<Longrightarrow> inv D'"
begin

lemma run_inv: "inv D \<Longrightarrow> inv (snd (run_tx fate err body D))"
  by (auto simp: run_tx_def body_inv split: sum.splits)

lemma run_error: "fst (run_tx fate err body D) = Inl e \<Longrightarrow> snd (run_tx fate err body D) = D"
  by (auto simp: run_tx_def split: sum.splits if_splits)

end

end
