(* ===== verification/Reading_Store.thy ===== *)
theory Reading_Store
  imports Reading_State Postgres "HOL-Library.AList" "HOL-Library.Product_Lexorder"
begin

text \<open>
  The PostgreSQL store of the reading state (\<open>src/internal/readingstate/pgstore\<close>, the files
  \<open>store.go\<close>, \<open>snooze.go\<close> and \<open>feedback.go\<close>). The database is a record of tables; every operation
  runs in one serializable transaction, so it is a function from the database to an error (the
  transaction is rolled back) or a new database and a result. What the server and two third-party
  packages do (UUID syntax, the generator of primary keys, the resolution of \<open>timestamptz\<close> and
  \<open>numeric(6,5)\<close>, the strings a \<open>text\<close> column accepts) is the argument \<open>pg\<close> of every operation.
\<close>

named_theorems store_simps \<open>the effect of one statement on the tables\<close>

section \<open>The database\<close>

datatype store_error =
    ErrState rs_error
  | ErrNoRows
  | ErrSQL string
  | ErrEncode
  | ErrTx

record state_row =
  row_location :: location
  row_is_read :: bool
  row_read_at :: "time option"
  row_starred_at :: "time option"
  row_snoozed_until :: "time option"
  row_snoozed_from_location :: "location option"
  row_reading_progress :: float64
  row_last_paragraph_id :: "string option"
  row_later_position :: "int option"
  row_dismissed_reason :: "string option"
  row_version :: int
  row_updated_at :: time

record mutation_row =
  mut_id :: string
  mut_user_id :: string
  mut_item_id :: string
  mut_type :: action
  mut_before_state :: story_state
  mut_after_state :: story_state
  mut_idempotency_key :: string
  mut_bulk_id :: "string option"
  mut_undo_deadline :: time
  mut_undone_at :: "time option"
  mut_created_at :: time

record feedback_row =
  fb_id :: string
  fb_user_id :: string
  fb_target_id :: string
  fb_type :: string
  fb_note :: "string option"
  fb_mutation_id :: "string option"
  fb_idempotency_key :: "string option"
  fb_created_at :: time

record outbox_event =
  evt_aggregate_id :: string
  evt_idempotency_key :: string
  evt_mutation_id :: string
  evt_snoozed_until :: time
  evt_story_id :: string
  evt_user_id :: string
  evt_version :: int
  evt_created_at :: time

text \<open>
  Identifiers are in the database's canonical text form, whose bytewise order is the order of the
  \<open>uuid\<close> type. \<open>db_seq\<close> counts the primary keys generated so far.
\<close>

record db =
  db_users :: "string list"
  db_clusters :: "(string \<times> string) list"
  db_items :: "(string \<times> string) list"
  db_tags :: "(string \<times> string) list"
  db_item_tags :: "(string \<times> string \<times> string) list"
  db_states :: "((string \<times> string) \<times> state_row) list"
  db_mutations :: "mutation_row list"
  db_feedback :: "feedback_row list"
  db_outbox :: "outbox_event list"
  db_seq :: nat

record mutation_result =
  res_MutationID :: string
  res_State :: story_state
  res_UndoDeadline :: time

record bulk_mutation_result =
  bulk_AffectedCount :: nat
  bulk_BulkID :: string
  bulk_Mutations :: "mutation_result list"
  bulk_UndoDeadline :: time

record bulk_item =
  item_StoryID :: string
  item_Version :: int

record bulk_command =
  bc_Action :: action
  bc_DismissedReason :: "string option"
  bc_ExpectedCount :: int
  bc_IdempotencyKey :: string
  bc_Items :: "bulk_item list"
  bc_SnoozedUntil :: "time option"
  bc_TagID :: "string option"
  bc_UserID :: string

record later_order_command =
  lo_ExpectedCount :: int
  lo_IdempotencyKey :: string
  lo_Items :: "bulk_item list"
  lo_UserID :: string

abbreviation invalid :: "string \<Rightarrow> store_error" where
  "invalid msg \<equiv> ErrState (ErrInvalid msg)"

definition undoWindow :: duration where
  "undoWindow = 10 * second"

section \<open>Validation\<close>

definition validateIdentifier :: "pg \<Rightarrow> string \<Rightarrow> string \<Rightarrow> store_error option" where
  "validateIdentifier E v nm = (if uuid_ok E v then None else Some (invalid (nm @ '' must be a UUID'')))"

definition validateIdempotencyKey :: "string \<Rightarrow> nat \<Rightarrow> store_error option" where
  "validateIdempotencyKey v maximum =
     (if length v < 16 \<or> length v > maximum \<or> trim_space v \<noteq> v \<or> list_ex is_control (runes v)
      then Some (invalid ''idempotency key must contain safe characters'')
      else None)"

definition tag_action :: "action \<Rightarrow> bool" where
  "tag_action a \<longleftrightarrow> a = ActionAddTag \<or> a = ActionRemoveTag"

definition validateCommand :: "pg \<Rightarrow> command \<Rightarrow> store_error option" where
  "validateCommand E c =
     or_else (validateIdentifier E (cmd_UserID c) ''user ID'')
    (or_else (validateIdentifier E (cmd_StoryID c) ''story ID'')
    (or_else (if cmd_ExpectedVersion c < 0 then Some (invalid ''state version may not be negative'') else None)
    (or_else (if tag_action (cmd_Action c)
              then (case cmd_TagID c of
                      None \<Rightarrow> Some (invalid ''tag mutation requires a tag ID'')
                    | Some tag \<Rightarrow> validateIdentifier E tag ''tag ID'')
              else None)
      (validateIdempotencyKey (cmd_IdempotencyKey c) 255))))"

section \<open>Statements\<close>

text \<open>\<open>$n::uuid\<close>: the server's own reading of an identifier.\<close>

definition cast_uuid :: "pg \<Rightarrow> string \<Rightarrow> store_error + string" where
  "cast_uuid E s = (case pg_uuid E s of None \<Rightarrow> Inl (ErrSQL ''invalid input syntax for type uuid'') | Some u \<Rightarrow> Inr u)"

definition resolveTarget :: "pg \<Rightarrow> db \<Rightarrow> string \<Rightarrow> string \<Rightarrow> store_error + (string \<times> string)" where
  "resolveTarget E D userID storyID =
     and_then (cast_uuid E userID) (\<lambda>user. and_then (cast_uuid E storyID) (\<lambda>story.
       case map_of (db_clusters D) story of
         None \<Rightarrow> Inl (ErrState ErrNotFound)
       | Some item \<Rightarrow>
           (case map_of (db_items D) item of
              None \<Rightarrow> Inl (ErrState ErrNotFound)
            | Some revision \<Rightarrow>
                if user \<in> set (db_users D) then Inr (item, revision) else Inl (ErrState ErrNotFound))))"

definition scanState :: "state_row \<Rightarrow> string \<Rightarrow> story_state" where
  "scanState row storyID =
     \<lparr>DismissedReason = row_dismissed_reason row, IsRead = row_is_read row,
      LastParagraphID = row_last_paragraph_id row, LaterPosition = row_later_position row,
      Location = row_location row, ReadAt = row_read_at row,
      ReadingProgress = row_reading_progress row,
      SnoozedFromLocation = row_snoozed_from_location row, SnoozedUntil = row_snoozed_until row,
      StarredAt = row_starred_at row, StoryID = storyID, TagIDs = [],
      UpdatedAt = row_updated_at row, Version = row_version row\<rparr>"

definition loadTagIDs :: "db \<Rightarrow> string \<Rightarrow> string \<Rightarrow> string list" where
  "loadTagIDs D user item =
     sort (map (\<lambda>(u, i, tag). tag) (filter (\<lambda>(u, i, tag). u = user \<and> i = item) (db_item_tags D)))"

definition loadState :: "db \<Rightarrow> string \<Rightarrow> string \<Rightarrow> string \<Rightarrow> store_error + story_state" where
  "loadState D user storyID item =
     (case map_of (db_states D) (user, item) of
        None \<Rightarrow> Inl ErrNoRows
      | Some row \<Rightarrow> Inr ((scanState row storyID)\<lparr>TagIDs := loadTagIDs D user item\<rparr>))"

text \<open>The row an insert with only the keys and \<open>updated_at\<close> creates.\<close>

definition default_row :: "pg \<Rightarrow> time \<Rightarrow> state_row" where
  "default_row E now =
     \<lparr>row_location = LocationInbox, row_is_read = False, row_read_at = None, row_starred_at = None,
      row_snoozed_until = None, row_snoozed_from_location = None, row_reading_progress = Fin 0,
      row_last_paragraph_id = None, row_later_position = None, row_dismissed_reason = None,
      row_version = 0, row_updated_at = pg_time E now\<rparr>"

definition ensureState :: "pg \<Rightarrow> db \<Rightarrow> string \<Rightarrow> string \<Rightarrow> time \<Rightarrow> db" where
  "ensureState E D user item now =
     (case map_of (db_states D) (user, item) of
        Some _ \<Rightarrow> D
      | None \<Rightarrow> D\<lparr>db_states := AList.update (user, item) (default_row E now) (db_states D)\<rparr>)"

definition row_of_state :: "pg \<Rightarrow> story_state \<Rightarrow> state_row" where
  "row_of_state E s =
     \<lparr>row_location = Location s, row_is_read = IsRead s,
      row_read_at = map_option (pg_time E) (ReadAt s),
      row_starred_at = map_option (pg_time E) (StarredAt s),
      row_snoozed_until = map_option (pg_time E) (SnoozedUntil s),
      row_snoozed_from_location = SnoozedFromLocation s,
      row_reading_progress = pg_numeric E (ReadingProgress s),
      row_last_paragraph_id = LastParagraphID s, row_later_position = LaterPosition s,
      row_dismissed_reason = DismissedReason s, row_version = Version s,
      row_updated_at = pg_time E (UpdatedAt s)\<rparr>"

definition text_ok :: "pg \<Rightarrow> string option \<Rightarrow> bool" where
  "text_ok E v \<longleftrightarrow> (case v of None \<Rightarrow> True | Some s \<Rightarrow> pg_text E s)"

definition persistState :: "pg \<Rightarrow> db \<Rightarrow> string \<Rightarrow> string \<Rightarrow> story_state \<Rightarrow> store_error + db" where
  "persistState E D user item s =
     (if \<not> text_ok E (LastParagraphID s) \<or> \<not> text_ok E (DismissedReason s)
      then Inl (ErrSQL ''invalid byte sequence'')
      else if map_of (db_states D) (user, item) = None then Inl (ErrState ErrConflict)
      else if \<not> row_checks (scanState (row_of_state E s) [])
      then Inl (ErrSQL ''check constraint'')
      else Inr (D\<lparr>db_states := AList.update (user, item) (row_of_state E s) (db_states D)\<rparr>))"

definition tagBelongsToUser :: "db \<Rightarrow> string \<Rightarrow> string \<Rightarrow> bool" where
  "tagBelongsToUser D user tag = (map_of (db_tags D) tag = Some user)"

definition add_item_tag :: "db \<Rightarrow> string \<Rightarrow> string \<Rightarrow> string \<Rightarrow> db" where
  "add_item_tag D user item tag =
     D\<lparr>db_item_tags := (if (user, item, tag) \<in> set (db_item_tags D) then db_item_tags D
                         else db_item_tags D @ [(user, item, tag)])\<rparr>"

definition persistTagMutation :: "pg \<Rightarrow> db \<Rightarrow> command \<Rightarrow> string \<Rightarrow> string \<Rightarrow> store_error + db" where
  "persistTagMutation E D c user item =
     (case cmd_TagID c of
        None \<Rightarrow> Inr D
      | Some text \<Rightarrow>
          if cmd_Action c = ActionAddTag then
            and_then (cast_uuid E text) (\<lambda>tag.
              if tagBelongsToUser D user tag then Inr (add_item_tag D user item tag)
              else Inl (ErrSQL ''foreign key''))
          else if cmd_Action c = ActionRemoveTag then
            and_then (cast_uuid E text) (\<lambda>tag.
              Inr (D\<lparr>db_item_tags := filter (\<lambda>t. t \<noteq> (user, item, tag)) (db_item_tags D)\<rparr>))
          else Inr D)"

text \<open>
  \<open>json.Marshal\<close> of a state fails on an infinite or undefined progress and on a year outside
  0 through 9999; otherwise decoding gives back the state that was encoded.
\<close>

definition json_time_ok :: "time \<Rightarrow> bool" where
  "json_time_ok t \<longleftrightarrow> days_from_civil 0 1 1 * 86400 * second \<le> t \<and> t < days_from_civil 10000 1 1 * 86400 * second"

definition marshal_ok :: "story_state \<Rightarrow> bool" where
  "marshal_ok s \<longleftrightarrow>
     (case ReadingProgress s of Fin _ \<Rightarrow> True | _ \<Rightarrow> False)
     \<and> list_all (\<lambda>t. case t of None \<Rightarrow> True | Some v \<Rightarrow> json_time_ok v)
         [ReadAt s, SnoozedUntil s, StarredAt s, Some (UpdatedAt s)]"

definition existingMutation ::
    "db \<Rightarrow> string \<Rightarrow> string \<Rightarrow> action \<Rightarrow> string \<Rightarrow> story_state \<Rightarrow> store_error + mutation_result option" where
  "existingMutation D user item a key current =
     (case find (\<lambda>m. mut_user_id m = user \<and> mut_idempotency_key m = key) (db_mutations D) of
        None \<Rightarrow> Inr None
      | Some m \<Rightarrow>
          if mut_item_id m \<noteq> item \<or> mut_type m \<noteq> a then Inl (ErrState ErrConflict)
          else Inr (Some \<lparr>res_MutationID = mut_id m,
                          res_State = (if mut_undone_at m = None then mut_after_state m else current),
                          res_UndoDeadline = mut_undo_deadline m\<rparr>))"

definition key_column_ok :: "pg \<Rightarrow> string \<Rightarrow> bool" where
  "key_column_ok E key \<longleftrightarrow> pg_text E key \<and> 16 \<le> rune_count key \<and> rune_count key \<le> 255"

definition insertMutation ::
    "pg \<Rightarrow> db \<Rightarrow> command \<Rightarrow> string \<Rightarrow> string \<Rightarrow> story_state \<Rightarrow> story_state \<Rightarrow> string option \<Rightarrow> time
      \<Rightarrow> store_error + (db \<times> string)" where
  "insertMutation E D c user item before after bulk now =
     (let mid = uuid_v7 E (db_seq D) in
      and_then (case bulk of None \<Rightarrow> Inr None | Some b \<Rightarrow> and_then (cast_uuid E b) (\<lambda>u. Inr (Some u))) (\<lambda>bulkID.
        if \<not> key_column_ok E (cmd_IdempotencyKey c) then Inl (ErrSQL ''idempotency key'')
        else if mid \<in> mut_id ` set (db_mutations D)
             \<or> (user, cmd_IdempotencyKey c) \<in> (\<lambda>m. (mut_user_id m, mut_idempotency_key m)) ` set (db_mutations D)
        then Inl (ErrSQL ''unique constraint'')
        else Inr (D\<lparr>db_seq := Suc (db_seq D), db_mutations := db_mutations D @
              [\<lparr>mut_id = mid, mut_user_id = user, mut_item_id = item, mut_type = cmd_Action c,
                mut_before_state = before, mut_after_state = after,
                mut_idempotency_key = cmd_IdempotencyKey c, mut_bulk_id = bulkID,
                mut_undo_deadline = pg_time E (now + undoWindow), mut_undone_at = None,
                mut_created_at = pg_time E now\<rparr>]\<rparr>, mid)))"

text \<open>An insert into \<open>app.feedback\<close>: its checks, its foreign key and its unique indexes.\<close>

definition feedback_columns_ok :: "pg \<Rightarrow> feedback_row \<Rightarrow> bool" where
  "feedback_columns_ok E f \<longleftrightarrow>
     (case fb_note f of None \<Rightarrow> True | Some n \<Rightarrow> pg_text E n \<and> rune_count n \<le> 2000)
     \<and> (case fb_idempotency_key f of None \<Rightarrow> True | Some k \<Rightarrow> key_column_ok E k)"

definition insertFeedback :: "pg \<Rightarrow> db \<Rightarrow> feedback_row \<Rightarrow> store_error + db" where
  "insertFeedback E D f =
     (if \<not> feedback_columns_ok E f then Inl (ErrSQL ''check constraint'')
      else if (case fb_mutation_id f of None \<Rightarrow> False | Some m \<Rightarrow> m \<notin> mut_id ` set (db_mutations D))
      then Inl (ErrSQL ''foreign key'')
      else if fb_id f \<in> fb_id ` set (db_feedback D)
           \<or> (fb_idempotency_key f \<noteq> None \<and>
              (fb_user_id f, fb_idempotency_key f) \<in> (\<lambda>g. (fb_user_id g, fb_idempotency_key g)) ` set (db_feedback D))
           \<or> (fb_mutation_id f \<noteq> None \<and> fb_mutation_id f \<in> fb_mutation_id ` set (db_feedback D))
      then Inl (ErrSQL ''unique constraint'')
      else Inr (D\<lparr>db_seq := Suc (db_seq D), db_feedback := db_feedback D @ [f]\<rparr>))"

definition mutation_feedback :: "pg \<Rightarrow> db \<Rightarrow> command \<Rightarrow> string \<Rightarrow> string \<Rightarrow> string \<Rightarrow> time \<Rightarrow> feedback_row" where
  "mutation_feedback E D c user story mid now =
     \<lparr>fb_id = uuid_v7 E (db_seq D), fb_user_id = user, fb_target_id = story,
      fb_type = (if cmd_Action c = ActionAlreadyKnown then ''already_known'' else ''dismissed''),
      fb_note = (if cmd_Action c = ActionAlreadyKnown then None else cmd_DismissedReason c),
      fb_mutation_id = Some mid, fb_idempotency_key = Some (cmd_IdempotencyKey c),
      fb_created_at = pg_time E now\<rparr>"

definition persistFeedback :: "pg \<Rightarrow> db \<Rightarrow> command \<Rightarrow> string \<Rightarrow> string \<Rightarrow> string \<Rightarrow> time \<Rightarrow> store_error + db" where
  "persistFeedback E D c user story mid now =
     (if cmd_Action c = ActionAlreadyKnown \<or> cmd_Action c = ActionDismiss
      then insertFeedback E D (mutation_feedback E D c user story mid now)
      else Inr D)"

section \<open>Mutations\<close>

text \<open>The ownership check of a tag command; \<open>validateCommand\<close> has made sure there is a tag.\<close>

definition check_tag :: "pg \<Rightarrow> db \<Rightarrow> command \<Rightarrow> string \<Rightarrow> store_error option" where
  "check_tag E D c user =
     (if tag_action (cmd_Action c) then
        (case cmd_TagID c of
           None \<Rightarrow> None
         | Some text \<Rightarrow>
             (case cast_uuid E text of
                Inl e \<Rightarrow> Some e
              | Inr tag \<Rightarrow> if tagBelongsToUser D user tag then None else Some (ErrState ErrNotFound)))
      else None)"

definition lift_state :: "rs_error + 'a \<Rightarrow> store_error + 'a" where
  "lift_state r = (case r of Inl e \<Rightarrow> Inl (ErrState e) | Inr a \<Rightarrow> Inr a)"

text \<open>Everything after the idempotency lookup: the version check, the transition and the writes.\<close>

definition apply_and_record ::
    "pg \<Rightarrow> db \<Rightarrow> command \<Rightarrow> string \<Rightarrow> string \<Rightarrow> string \<Rightarrow> story_state \<Rightarrow> string option \<Rightarrow> time
      \<Rightarrow> store_error + (db \<times> mutation_result)" where
  "apply_and_record E D c user story item current bulk now =
     (if Version current \<noteq> cmd_ExpectedVersion c then Inl (ErrState ErrConflict)
      else check (check_tag E D c user)
       (and_then (lift_state (Apply current c now)) (\<lambda>next.
        and_then (persistState E D user item next) (\<lambda>D1.
        and_then (persistTagMutation E D1 c user item) (\<lambda>D2.
        if \<not> marshal_ok current \<or> \<not> marshal_ok next then Inl ErrEncode
        else and_then (insertMutation E D2 c user item current next bulk now) (\<lambda>(D3, mid).
        and_then (persistFeedback E D3 c user story mid now) (\<lambda>D4.
          Inr (D4, \<lparr>res_MutationID = mid, res_State = next, res_UndoDeadline = now + undoWindow\<rparr>))))))))"

definition mutateTx ::
    "pg \<Rightarrow> command \<Rightarrow> string option \<Rightarrow> time \<Rightarrow> db \<Rightarrow> store_error + (db \<times> mutation_result)" where
  "mutateTx E c bulk now D =
     check (validateCommand E c)
      (and_then (resolveTarget E D (cmd_UserID c) (cmd_StoryID c)) (\<lambda>(item, _).
       and_then (cast_uuid E (cmd_UserID c)) (\<lambda>user.
       and_then (cast_uuid E (cmd_StoryID c)) (\<lambda>story.
       let D0 = ensureState E D user item now in
       and_then (loadState D0 user (cmd_StoryID c) item) (\<lambda>current.
       and_then (existingMutation D0 user item (cmd_Action c) (cmd_IdempotencyKey c) current) (\<lambda>existing.
       case existing of
         Some r \<Rightarrow> Inr (D0, r)
       | None \<Rightarrow> apply_and_record E D0 c user story item current bulk now))))))"

definition Mutate :: "pg \<Rightarrow> tx_fate \<Rightarrow> command \<Rightarrow> time \<Rightarrow> db \<Rightarrow> (store_error + mutation_result) \<times> db" where
  "Mutate E fate c now D = run_tx fate ErrTx (mutateTx E c None now) D"

definition state_tx :: "pg \<Rightarrow> string \<Rightarrow> string \<Rightarrow> time \<Rightarrow> db \<Rightarrow> store_error + (db \<times> story_state)" where
  "state_tx E userID storyID now D =
     and_then (resolveTarget E D userID storyID) (\<lambda>(item, _).
     and_then (cast_uuid E userID) (\<lambda>user.
       (case loadState D user storyID item of
          Inr s \<Rightarrow> Inr (D, s)
        | Inl ErrNoRows \<Rightarrow> Inr (D, (DefaultState storyID now)\<lparr>TagIDs := loadTagIDs D user item\<rparr>)
        | Inl e \<Rightarrow> Inl e)))"

definition store_State :: "pg \<Rightarrow> tx_fate \<Rightarrow> string \<Rightarrow> string \<Rightarrow> time \<Rightarrow> db \<Rightarrow> (store_error + story_state) \<times> db" where
  "store_State E fate userID storyID now D =
     (case or_else (validateIdentifier E userID ''user ID'') (validateIdentifier E storyID ''story ID'') of
        Some e \<Rightarrow> (Inl e, D)
      | None \<Rightarrow> run_tx fate ErrTx (state_tx E userID storyID now) D)"

text \<open>The loop of a bulk command: each item in turn, on the database the items before it left.\<close>

fun mutate_all ::
    "pg \<Rightarrow> ('a \<Rightarrow> command) \<Rightarrow> string option \<Rightarrow> time \<Rightarrow> 'a list \<Rightarrow> db \<Rightarrow> store_error + (db \<times> mutation_result list)" where
  "mutate_all E f bulk now [] D = Inr (D, [])"
| "mutate_all E f bulk now (x # xs) D =
     and_then (mutateTx E (f x) bulk now D) (\<lambda>(D1, r).
     and_then (mutate_all E f bulk now xs D1) (\<lambda>(D2, rs). Inr (D2, r # rs)))"

definition validate_items :: "pg \<Rightarrow> string \<Rightarrow> string \<Rightarrow> int \<Rightarrow> bulk_item list \<Rightarrow> store_error option" where
  "validate_items E userID key expected items =
     or_else (validateIdentifier E userID ''user ID'')
    (or_else (validateIdempotencyKey key 200)
    (or_else (if items = [] \<or> length items > 200 \<or> expected \<noteq> int (length items)
              then Some (invalid ''selection must contain the confirmed count of 1 through 200 stories'')
              else None)
      (unique_scan (\<lambda>item. validateIdentifier E (item_StoryID item) ''story ID'') item_StoryID
         (\<lambda>item. invalid ''duplicate story'') [] items)))"

definition bulk_result :: "string \<Rightarrow> nat \<Rightarrow> mutation_result list \<Rightarrow> bulk_mutation_result" where
  "bulk_result bulkID count rs =
     \<lparr>bulk_AffectedCount = count, bulk_BulkID = bulkID, bulk_Mutations = rs,
      bulk_UndoDeadline = (case rs of [] \<Rightarrow> 0 | r # _ \<Rightarrow> res_UndoDeadline r)\<rparr>"

definition bulk_tx ::
    "pg \<Rightarrow> ('a \<Rightarrow> command) \<Rightarrow> string \<Rightarrow> time \<Rightarrow> 'a list \<Rightarrow> db \<Rightarrow> store_error + (db \<times> bulk_mutation_result)" where
  "bulk_tx E f bulkID now xs D =
     and_then (mutate_all E f (Some bulkID) now xs D) (\<lambda>(D', rs). Inr (D', bulk_result bulkID (length xs) rs))"

definition bulk_item_command :: "bulk_command \<Rightarrow> bulk_item \<Rightarrow> command" where
  "bulk_item_command b item =
     \<lparr>cmd_Action = bc_Action b, cmd_DismissedReason = bc_DismissedReason b,
      cmd_ExpectedVersion = item_Version item,
      cmd_IdempotencyKey = bc_IdempotencyKey b @ '':'' @ item_StoryID item, cmd_LastParagraphID = None,
      cmd_LaterPosition = None, cmd_ReadingProgress = None, cmd_SnoozedUntil = bc_SnoozedUntil b,
      cmd_StoryID = item_StoryID item, cmd_TagID = bc_TagID b, cmd_UserID = bc_UserID b\<rparr>"

definition BulkMutate ::
    "pg \<Rightarrow> tx_fate \<Rightarrow> bulk_command \<Rightarrow> time \<Rightarrow> db \<Rightarrow> (store_error + bulk_mutation_result) \<times> db" where
  "BulkMutate E fate b now D =
     (case validate_items E (bc_UserID b) (bc_IdempotencyKey b) (bc_ExpectedCount b) (bc_Items b) of
        Some e \<Rightarrow> (Inl e, D)
      | None \<Rightarrow>
          let bulkID = uuid_sha1 E (bc_UserID b @ '':'' @ bc_IdempotencyKey b) in
          run_tx fate ErrTx (bulk_tx E (bulk_item_command b) bulkID now (bc_Items b)) D)"

definition later_item_command :: "later_order_command \<Rightarrow> nat \<times> bulk_item \<Rightarrow> command" where
  "later_item_command b x =
     \<lparr>cmd_Action = ActionReorderLater, cmd_DismissedReason = None,
      cmd_ExpectedVersion = item_Version (snd x),
      cmd_IdempotencyKey = lo_IdempotencyKey b @ '':'' @ item_StoryID (snd x), cmd_LastParagraphID = None,
      cmd_LaterPosition = Some (wrap64 (int (fst x + 1) * 1024)), cmd_ReadingProgress = None,
      cmd_SnoozedUntil = None, cmd_StoryID = item_StoryID (snd x), cmd_TagID = None,
      cmd_UserID = lo_UserID b\<rparr>"

definition ReorderLater ::
    "pg \<Rightarrow> tx_fate \<Rightarrow> later_order_command \<Rightarrow> time \<Rightarrow> db \<Rightarrow> (store_error + bulk_mutation_result) \<times> db" where
  "ReorderLater E fate b now D =
     (case validate_items E (lo_UserID b) (lo_IdempotencyKey b) (lo_ExpectedCount b) (lo_Items b) of
        Some e \<Rightarrow> (Inl e, D)
      | None \<Rightarrow>
          let bulkID = uuid_sha1 E (lo_UserID b @ '':later-order:'' @ lo_IdempotencyKey b) in
          run_tx fate ErrTx (bulk_tx E (later_item_command b) bulkID now (List.enumerate 0 (lo_Items b))) D)"

section \<open>Undo\<close>

text \<open>
  \<open>restoreTags\<close>: every tag must still belong to the owner (the count is over distinct tags that
  match), then the story's tags are deleted and the old ones inserted one by one.
\<close>

fun insert_item_tags :: "pg \<Rightarrow> db \<Rightarrow> string \<Rightarrow> string \<Rightarrow> string list \<Rightarrow> store_error + db" where
  "insert_item_tags E D user item [] = Inr D"
| "insert_item_tags E D user item (text # rest) =
     and_then (cast_uuid E text) (\<lambda>tag.
       if (user, item, tag) \<in> set (db_item_tags D) then Inl (ErrSQL ''unique constraint'')
       else if \<not> tagBelongsToUser D user tag then Inl (ErrSQL ''foreign key'')
       else insert_item_tags E (D\<lparr>db_item_tags := db_item_tags D @ [(user, item, tag)]\<rparr>) user item rest)"

definition count_owned :: "pg \<Rightarrow> db \<Rightarrow> string \<Rightarrow> string list \<Rightarrow> nat" where
  "count_owned E D user texts =
     length (filter (\<lambda>(tag, owner). owner = user \<and> Some tag \<in> set (map (pg_uuid E) texts)) (db_tags D))"

definition restoreTags :: "pg \<Rightarrow> db \<Rightarrow> string \<Rightarrow> string \<Rightarrow> string list \<Rightarrow> store_error + db" where
  "restoreTags E D user item texts =
     (if texts \<noteq> [] \<and> None \<in> set (map (pg_uuid E) texts) then Inl (ErrSQL ''invalid input syntax for type uuid'')
      else if texts \<noteq> [] \<and> count_owned E D user texts \<noteq> length texts then Inl (ErrState ErrUndoConflict)
      else insert_item_tags E
             (D\<lparr>db_item_tags := filter (\<lambda>(u, i, tag). \<not> (u = user \<and> i = item)) (db_item_tags D)\<rparr>)
             user item texts)"

definition mark_undone :: "pg \<Rightarrow> string \<Rightarrow> time \<Rightarrow> mutation_row \<Rightarrow> mutation_row" where
  "mark_undone E mid now m = (if mut_id m = mid then m\<lparr>mut_undone_at := Some (pg_time E now)\<rparr> else m)"

text \<open>The column check \<open>undone_at >= created_at\<close> of the update.\<close>

definition set_undone :: "pg \<Rightarrow> db \<Rightarrow> string \<Rightarrow> time \<Rightarrow> store_error + db" where
  "set_undone E D mid now =
     (if list_all (\<lambda>m. mut_id m = mid \<longrightarrow> mut_created_at m \<le> pg_time E now) (db_mutations D)
      then Inr (D\<lparr>db_mutations := map (mark_undone E mid now) (db_mutations D)\<rparr>)
      else Inl (ErrSQL ''check constraint''))"

definition delete_feedback :: "db \<Rightarrow> string \<Rightarrow> db" where
  "delete_feedback D mid = D\<lparr>db_feedback := filter (\<lambda>f. fb_mutation_id f \<noteq> Some mid) (db_feedback D)\<rparr>"

definition restored_state :: "mutation_row \<Rightarrow> story_state \<Rightarrow> string \<Rightarrow> time \<Rightarrow> story_state" where
  "restored_state m current storyID now =
     (mut_before_state m)\<lparr>StoryID := storyID, Version := wrap64 (Version current + 1), UpdatedAt := now\<rparr>"

text \<open>The writes both undo operations share: tags, state, the undone mark and the feedback.\<close>

definition write_undo ::
    "pg \<Rightarrow> db \<Rightarrow> string \<Rightarrow> string \<Rightarrow> string \<Rightarrow> story_state \<Rightarrow> time \<Rightarrow> store_error + db" where
  "write_undo E D user item mid restored now =
     check (map_option ErrState (Validate restored))
      (and_then (restoreTags E D user item (TagIDs restored)) (\<lambda>D1.
       and_then (persistState E D1 user item restored) (\<lambda>D2.
       and_then (set_undone E D2 mid now) (\<lambda>D3.
         Inr (delete_feedback D3 mid)))))"

text \<open>The decision once the mutation is found: already undone, too late, overtaken, or undone now.\<close>

definition undo_found ::
    "pg \<Rightarrow> string \<Rightarrow> string \<Rightarrow> string \<Rightarrow> string \<Rightarrow> string \<Rightarrow> story_state \<Rightarrow> time \<Rightarrow> db \<Rightarrow> mutation_row
      \<Rightarrow> store_error + (db \<times> mutation_result)" where
  "undo_found E user item storyID mutationID mid current now D m =
     (if mut_undone_at m \<noteq> None
      then Inr (D, \<lparr>res_MutationID = mutationID, res_State = current, res_UndoDeadline = mut_undo_deadline m\<rparr>)
      else if mut_undo_deadline m < now then Inl (ErrState ErrUndoExpired)
      else if Version current \<noteq> Version (mut_after_state m) then Inl (ErrState ErrUndoConflict)
      else let restored = restored_state m current storyID now in
        and_then (write_undo E D user item mid restored now) (\<lambda>D'.
          Inr (D', \<lparr>res_MutationID = mutationID, res_State = restored, res_UndoDeadline = mut_undo_deadline m\<rparr>)))"

definition undo_tx :: "pg \<Rightarrow> string \<Rightarrow> string \<Rightarrow> string \<Rightarrow> time \<Rightarrow> db \<Rightarrow> store_error + (db \<times> mutation_result)" where
  "undo_tx E userID storyID mutationID now D =
     and_then (resolveTarget E D userID storyID) (\<lambda>(item, _).
     and_then (cast_uuid E userID) (\<lambda>user.
     and_then (loadState D user storyID item) (\<lambda>current.
     and_then (cast_uuid E mutationID) (\<lambda>mid.
       case find (\<lambda>m. mut_id m = mid \<and> mut_user_id m = user \<and> mut_item_id m = item) (db_mutations D) of
         None \<Rightarrow> Inl (ErrState ErrNotFound)
       | Some m \<Rightarrow> undo_found E user item storyID mutationID mid current now D m))))"

definition Undo ::
    "pg \<Rightarrow> tx_fate \<Rightarrow> string \<Rightarrow> string \<Rightarrow> string \<Rightarrow> time \<Rightarrow> db \<Rightarrow> (store_error + mutation_result) \<times> db" where
  "Undo E fate userID storyID mutationID now D =
     (case or_else (validateIdentifier E userID ''user ID'')
            (or_else (validateIdentifier E storyID ''story ID'') (validateIdentifier E mutationID ''mutation ID'')) of
        Some e \<Rightarrow> (Inl e, D)
      | None \<Rightarrow> run_tx fate ErrTx (undo_tx E userID storyID mutationID now) D)"

text \<open>
  One candidate of \<open>UndoBulk\<close>, with \<open>undone_at\<close> read again under the row lock, and the loop over the
  candidates with its flags \<open>allUndone\<close> and \<open>anyUndone\<close>.
\<close>

definition undo_one ::
    "pg \<Rightarrow> string \<Rightarrow> string \<Rightarrow> time \<Rightarrow> mutation_row \<Rightarrow> db \<Rightarrow> store_error + (bool \<times> db \<times> mutation_result)" where
  "undo_one E user bulk now m D =
     and_then (loadState D user (StoryID (mut_after_state m)) (mut_item_id m)) (\<lambda>current.
     case find (\<lambda>x. mut_id x = mut_id m \<and> mut_user_id x = user \<and> mut_bulk_id x = Some bulk) (db_mutations D) of
       None \<Rightarrow> Inl (ErrState ErrUndoUnavailable)
     | Some locked \<Rightarrow>
         if mut_undone_at locked \<noteq> None
         then Inr (True, D, \<lparr>res_MutationID = mut_id m, res_State = current, res_UndoDeadline = mut_undo_deadline m\<rparr>)
         else if mut_undo_deadline m < now then Inl (ErrState ErrUndoExpired)
         else if Version current \<noteq> Version (mut_after_state m) then Inl (ErrState ErrUndoConflict)
         else
           (let restored = restored_state m current (StoryID (mut_after_state m)) now in
            and_then (write_undo E D user (mut_item_id m) (mut_id m) restored now) (\<lambda>D'.
              Inr (False, D', \<lparr>res_MutationID = mut_id m, res_State = restored,
                               res_UndoDeadline = mut_undo_deadline m\<rparr>))))"

fun undo_each ::
    "pg \<Rightarrow> string \<Rightarrow> string \<Rightarrow> time \<Rightarrow> mutation_row list \<Rightarrow> bool \<Rightarrow> bool \<Rightarrow> db
      \<Rightarrow> store_error + (bool \<times> bool \<times> db \<times> mutation_result list)" where
  "undo_each E user bulk now [] allU anyU D = Inr (allU, anyU, D, [])"
| "undo_each E user bulk now (m # ms) allU anyU D =
     and_then (undo_one E user bulk now m D) (\<lambda>(undone, D1, r).
     and_then (undo_each E user bulk now ms (allU \<and> undone) (anyU \<or> undone) D1) (\<lambda>(a, b, D', rs).
       Inr (a, b, D', r # rs)))"

definition bulk_candidates :: "db \<Rightarrow> string \<Rightarrow> string \<Rightarrow> mutation_row list" where
  "bulk_candidates D user bulk =
     sort_key (\<lambda>m. (mut_item_id m, mut_id m))
       (filter (\<lambda>m. mut_user_id m = user \<and> mut_bulk_id m = Some bulk) (db_mutations D))"

definition undo_bulk_tx :: "pg \<Rightarrow> string \<Rightarrow> string \<Rightarrow> time \<Rightarrow> db \<Rightarrow> store_error + (db \<times> bulk_mutation_result)" where
  "undo_bulk_tx E userID bulkID now D =
     and_then (cast_uuid E userID) (\<lambda>user.
     and_then (cast_uuid E bulkID) (\<lambda>bulk.
       let candidates = bulk_candidates D user bulk in
       if candidates = [] then Inl (ErrState ErrNotFound)
       else if length candidates > 200 then Inl (ErrState ErrUndoUnavailable)
       else and_then (undo_each E user bulk now candidates True False D) (\<lambda>(allU, anyU, D', rs).
         if anyU \<and> \<not> allU then Inl (ErrState ErrUndoUnavailable)
         else Inr (D', \<lparr>bulk_AffectedCount = length candidates, bulk_BulkID = bulkID, bulk_Mutations = rs,
                        bulk_UndoDeadline = mut_undo_deadline (hd candidates)\<rparr>))))"

definition UndoBulk ::
    "pg \<Rightarrow> tx_fate \<Rightarrow> string \<Rightarrow> string \<Rightarrow> time \<Rightarrow> db \<Rightarrow> (store_error + bulk_mutation_result) \<times> db" where
  "UndoBulk E fate userID bulkID now D =
     (case or_else (validateIdentifier E userID ''user ID'') (validateIdentifier E bulkID ''bulk ID'') of
        Some e \<Rightarrow> (Inl e, D)
      | None \<Rightarrow> run_tx fate ErrTx (undo_bulk_tx E userID bulkID now) D)"

section \<open>Returning snoozed stories\<close>

record due_snooze =
  due_itemID :: string
  due_snoozedUntil :: time
  due_storyID :: string
  due_userID :: string
  due_version :: int

definition unix_nano :: "time \<Rightarrow> int" where
  "unix_nano t = wrap64 (t - unix_epoch_seconds * second)"

text \<open>The lateral join: the first cluster, by identifier, whose primary item this is.\<close>

definition first_cluster :: "db \<Rightarrow> string \<Rightarrow> string option" where
  "first_cluster D item =
     (case sort (map fst (filter (\<lambda>(story, i). i = item) (db_clusters D))) of
        [] \<Rightarrow> None
      | story # _ \<Rightarrow> Some story)"

definition due_of_row :: "pg \<Rightarrow> db \<Rightarrow> time \<Rightarrow> (string \<times> string) \<times> state_row \<Rightarrow> due_snooze list" where
  "due_of_row E D now entry =
     (case (row_snoozed_until (snd entry), first_cluster D (snd (fst entry))) of
        (Some until, Some story) \<Rightarrow>
          if until \<le> pg_time E now
          then [\<lparr>due_itemID = snd (fst entry), due_snoozedUntil = until, due_storyID = story,
                 due_userID = fst (fst entry), due_version = row_version (snd entry)\<rparr>]
          else []
      | _ \<Rightarrow> [])"

definition due_snoozes :: "pg \<Rightarrow> db \<Rightarrow> time \<Rightarrow> int \<Rightarrow> due_snooze list" where
  "due_snoozes E D now limit =
     take (nat limit)
       (sort_key (\<lambda>d. (due_snoozedUntil d, due_userID d, due_itemID d))
          (concat (map (due_of_row E D now) (db_states D))))"

definition return_key :: "due_snooze \<Rightarrow> string" where
  "return_key d = ''return-snooze:'' @ due_itemID d @ '':'' @ itoa (unix_nano (due_snoozedUntil d))"

definition return_command :: "due_snooze \<Rightarrow> command" where
  "return_command d =
     \<lparr>cmd_Action = ActionReturnSnoozed, cmd_DismissedReason = None, cmd_ExpectedVersion = due_version d,
      cmd_IdempotencyKey = return_key d, cmd_LastParagraphID = None, cmd_LaterPosition = None,
      cmd_ReadingProgress = None, cmd_SnoozedUntil = None, cmd_StoryID = due_storyID d,
      cmd_TagID = None, cmd_UserID = due_userID d\<rparr>"

definition record_return :: "pg \<Rightarrow> db \<Rightarrow> due_snooze \<Rightarrow> mutation_result \<Rightarrow> time \<Rightarrow> db" where
  "record_return E D d r now =
     D\<lparr>db_outbox := db_outbox D @
        [\<lparr>evt_aggregate_id = due_itemID d, evt_idempotency_key = return_key d,
          evt_mutation_id = res_MutationID r, evt_snoozed_until = due_snoozedUntil d,
          evt_story_id = due_storyID d, evt_user_id = due_userID d,
          evt_version = Version (res_State r), evt_created_at = pg_time E now\<rparr>]\<rparr>"

fun return_each :: "pg \<Rightarrow> time \<Rightarrow> due_snooze list \<Rightarrow> db \<Rightarrow> store_error + db" where
  "return_each E now [] D = Inr D"
| "return_each E now (d # ds) D =
     and_then (mutateTx E (return_command d) None now D) (\<lambda>(D1, r).
       return_each E now ds (record_return E D1 d r now))"

definition return_tx :: "pg \<Rightarrow> int \<Rightarrow> time \<Rightarrow> db \<Rightarrow> store_error + (db \<times> nat)" where
  "return_tx E limit now D =
     (let ds = due_snoozes E D now limit in
      and_then (return_each E now ds D) (\<lambda>D'. Inr (D', length ds)))"

definition ReturnDueSnoozes :: "pg \<Rightarrow> tx_fate \<Rightarrow> int \<Rightarrow> time \<Rightarrow> db \<Rightarrow> (store_error + nat) \<times> db" where
  "ReturnDueSnoozes E fate limit now D =
     (if limit < 1 \<or> limit > 500
      then (Inl (invalid ''snooze return limit must be 1 through 500''), D)
      else run_tx fate ErrTx (return_tx E limit now) D)"

section \<open>Feedback\<close>

datatype feedback_type =
    FeedbackUseful | FeedbackKnown | FeedbackIrrelevant | FeedbackShallow | FeedbackVerbose
  | FeedbackIncorrect | FeedbackOther string

fun feedback_text :: "feedback_type \<Rightarrow> string" where
  "feedback_text FeedbackUseful = ''useful''"
| "feedback_text FeedbackKnown = ''already_known''"
| "feedback_text FeedbackIrrelevant = ''irrelevant''"
| "feedback_text FeedbackShallow = ''too_shallow''"
| "feedback_text FeedbackVerbose = ''too_verbose''"
| "feedback_text FeedbackIncorrect = ''incorrect''"
| "feedback_text (FeedbackOther s) = s"

definition feedbackTypes :: "feedback_type list" where
  "feedbackTypes = [FeedbackUseful, FeedbackKnown, FeedbackIrrelevant, FeedbackShallow, FeedbackVerbose, FeedbackIncorrect]"

record feedback_command =
  fc_IdempotencyKey :: string
  fc_Note :: "string option"
  fc_StoryID :: string
  fc_Type :: feedback_type
  fc_UserID :: string

record feedback =
  f_CreatedAt :: time
  f_ID :: string
  f_Note :: "string option"
  f_StoryID :: string
  f_Type :: feedback_type

definition feedback_note :: "string option \<Rightarrow> store_error + string option" where
  "feedback_note note =
     (case note of
        None \<Rightarrow> Inr None
      | Some raw \<Rightarrow>
          if length (trim_space raw) > 2000 then Inl (invalid ''feedback note exceeds 2000 characters'')
          else Inr (if trim_space raw = [] then None else Some (trim_space raw)))"

definition feedback_tx :: "pg \<Rightarrow> feedback_command \<Rightarrow> string option \<Rightarrow> time \<Rightarrow> db \<Rightarrow> store_error + (db \<times> feedback)" where
  "feedback_tx E c note now D =
     and_then (resolveTarget E D (fc_UserID c) (fc_StoryID c)) (\<lambda>_.
     and_then (cast_uuid E (fc_UserID c)) (\<lambda>user.
     and_then (cast_uuid E (fc_StoryID c)) (\<lambda>story.
       let row = \<lparr>fb_id = uuid_v7 E (db_seq D), fb_user_id = user, fb_target_id = story,
              fb_type = feedback_text (fc_Type c), fb_note = note, fb_mutation_id = None,
              fb_idempotency_key = Some (fc_IdempotencyKey c), fb_created_at = pg_time E now\<rparr> in
       if \<not> feedback_columns_ok E row then Inl (ErrSQL ''check constraint'')
       else case find (\<lambda>f. fb_user_id f = user \<and> fb_idempotency_key f = Some (fc_IdempotencyKey c)) (db_feedback D) of
         None \<Rightarrow>
           and_then (insertFeedback E D row) (\<lambda>D'.
             Inr (D', \<lparr>f_CreatedAt = now, f_ID = fb_id row, f_Note = note,
                       f_StoryID = fc_StoryID c, f_Type = fc_Type c\<rparr>))
       | Some f \<Rightarrow>
           if fb_target_id f \<noteq> fc_StoryID c \<or> fb_type f \<noteq> feedback_text (fc_Type c) \<or> fb_note f \<noteq> note
           then Inl (ErrState ErrConflict)
           else Inr (D, \<lparr>f_CreatedAt = fb_created_at f, f_ID = fb_id f, f_Note = fb_note f,
                         f_StoryID = fc_StoryID c, f_Type = fc_Type c\<rparr>))))"

definition RecordFeedback ::
    "pg \<Rightarrow> tx_fate \<Rightarrow> feedback_command \<Rightarrow> time \<Rightarrow> db \<Rightarrow> (store_error + feedback) \<times> db" where
  "RecordFeedback E fate c now D =
     (case or_else (validateIdentifier E (fc_UserID c) ''user ID'')
            (or_else (validateIdentifier E (fc_StoryID c) ''story ID'')
            (or_else (validateIdempotencyKey (fc_IdempotencyKey c) 255)
              (if fc_Type c \<in> set feedbackTypes then None else Some (invalid ''unsupported feedback type'')))) of
        Some e \<Rightarrow> (Inl e, D)
      | None \<Rightarrow>
          (case feedback_note (fc_Note c) of
             Inl e \<Rightarrow> (Inl e, D)
           | Inr note \<Rightarrow> run_tx fate ErrTx (feedback_tx E c note now) D))"

section \<open>What every operation keeps\<close>

definition owned_tags :: "db \<Rightarrow> bool" where
  "owned_tags D \<longleftrightarrow> distinct (db_item_tags D)
     \<and> (\<forall>(u, i, tag) \<in> set (db_item_tags D). map_of (db_tags D) tag = Some u)"

definition mutations_ok :: "db \<Rightarrow> bool" where
  "mutations_ok D \<longleftrightarrow> distinct (map mut_id (db_mutations D))
     \<and> distinct (map (\<lambda>m. (mut_user_id m, mut_idempotency_key m)) (db_mutations D))"

definition feedback_ok :: "db \<Rightarrow> bool" where
  "feedback_ok D \<longleftrightarrow> distinct (map fb_id (db_feedback D))
     \<and> (\<forall>f \<in> set (db_feedback D). \<forall>mid. fb_mutation_id f = Some mid \<longrightarrow> mid \<in> mut_id ` set (db_mutations D))"

text \<open>A row that storing again would not change.\<close>

definition row_canonical :: "pg \<Rightarrow> state_row \<Rightarrow> bool" where
  "row_canonical E row \<longleftrightarrow> row_of_state E (scanState row []) = row
     \<and> text_ok E (row_last_paragraph_id row) \<and> text_ok E (row_dismissed_reason row)"

definition states_ok :: "pg \<Rightarrow> db \<Rightarrow> bool" where
  "states_ok E D \<longleftrightarrow> distinct (map fst (db_states D))
     \<and> (\<forall>(k, row) \<in> set (db_states D). row_checks (scanState row []) \<and> (pg_laws E \<longrightarrow> row_canonical E row))"

definition tags_table_ok :: "pg \<Rightarrow> db \<Rightarrow> bool" where
  "tags_table_ok E D \<longleftrightarrow> distinct (map fst (db_tags D)) \<and> (\<forall>(tag, u) \<in> set (db_tags D). pg_uuid E tag = Some tag)"

definition db_inv :: "pg \<Rightarrow> db \<Rightarrow> bool" where
  "db_inv E D \<longleftrightarrow> states_ok E D \<and> tags_table_ok E D \<and> owned_tags D \<and> mutations_ok D \<and> feedback_ok D"

lemmas db_inv_defs = db_inv_def states_ok_def tags_table_ok_def owned_tags_def mutations_ok_def feedback_ok_def

lemma states_update:
  "(k, v) \<in> set (AList.update key x xs) \<Longrightarrow> (k, v) \<in> set xs \<or> (k = key \<and> v = x)"
  by (induction xs) (auto split: if_splits)

lemma default_row_checks: "row_checks (scanState (default_row E now) [])"
  by (simp add: row_checks_def row_check_defs scanState_def default_row_def)

lemma default_row_canonical: "pg_laws E \<Longrightarrow> row_canonical E (default_row E now)"
  by (simp add: pg_laws_def row_canonical_def row_of_state_def scanState_def default_row_def text_ok_def)

lemma row_of_state_canonical:
  "pg_laws E \<Longrightarrow> text_ok E (LastParagraphID s) \<Longrightarrow> text_ok E (DismissedReason s) \<Longrightarrow> row_canonical E (row_of_state E s)"
  by (simp add: pg_laws_def row_canonical_def row_of_state_def scanState_def option.map_comp comp_def)

lemma update_states_inv:
  "db_inv E D \<Longrightarrow> row_checks (scanState row []) \<Longrightarrow> (pg_laws E \<Longrightarrow> row_canonical E row) \<Longrightarrow>
   db_inv E (D\<lparr>db_states := AList.update k row (db_states D)\<rparr>)"
  by (auto simp: db_inv_defs distinct_update dest: states_update)

lemma ensureState_inv: "db_inv E D \<Longrightarrow> db_inv E (ensureState E D user item now)"
  by (auto simp: ensureState_def update_states_inv default_row_checks default_row_canonical split: option.splits)

lemma persistState_inv: "db_inv E D \<Longrightarrow> persistState E D user item s = Inr D' \<Longrightarrow> db_inv E D'"
  by (auto simp: persistState_def update_states_inv row_of_state_canonical split: if_splits)

lemma persistTagMutation_inv: "db_inv E D \<Longrightarrow> persistTagMutation E D c user item = Inr D' \<Longrightarrow> db_inv E D'"
  by (auto simp: persistTagMutation_def db_inv_defs add_item_tag_def tagBelongsToUser_def go_result
           split: option.splits if_splits)

lemma insertMutation_inv: "db_inv E D \<Longrightarrow> insertMutation E D c user item b a bulk now = Inr (D', mid) \<Longrightarrow> db_inv E D'"
  by (auto simp: insertMutation_def db_inv_defs go_result Let_def split: if_splits)

lemma insertFeedback_inv: "db_inv E D \<Longrightarrow> insertFeedback E D f = Inr D' \<Longrightarrow> db_inv E D'"
  by (auto simp: insertFeedback_def db_inv_defs split: if_splits option.splits)

lemma persistFeedback_inv: "db_inv E D \<Longrightarrow> persistFeedback E D c user story mid now = Inr D' \<Longrightarrow> db_inv E D'"
  by (auto simp: persistFeedback_def insertFeedback_inv split: if_splits)

lemma apply_and_record_inv:
  "db_inv E D \<Longrightarrow> apply_and_record E D c user story item current bulk now = Inr (D', r) \<Longrightarrow> db_inv E D'"
  by (auto simp: apply_and_record_def go_result split: if_splits
           dest!: persistFeedback_inv [rotated] insertMutation_inv [rotated] persistTagMutation_inv [rotated]
             persistState_inv [rotated])

text \<open>The two ways a mutation succeeds: a replay of a recorded one, or a new one.\<close>

lemma mutateTx_Inr:
  assumes "mutateTx E c bulk now D = Inr (D', r)"
  obtains item rv user story current D0 where
    "validateCommand E c = None" "resolveTarget E D (cmd_UserID c) (cmd_StoryID c) = Inr (item, rv)"
    "cast_uuid E (cmd_UserID c) = Inr user" "cast_uuid E (cmd_StoryID c) = Inr story"
    "D0 = ensureState E D user item now" "loadState D0 user (cmd_StoryID c) item = Inr current"
    "existingMutation D0 user item (cmd_Action c) (cmd_IdempotencyKey c) current = Inr (Some r) \<and> D' = D0
     \<or> existingMutation D0 user item (cmd_Action c) (cmd_IdempotencyKey c) current = Inr None
        \<and> apply_and_record E D0 c user story item current bulk now = Inr (D', r)"
proof -
  obtain item rv user story current existing where base:
    "validateCommand E c = None" "resolveTarget E D (cmd_UserID c) (cmd_StoryID c) = Inr (item, rv)"
    "cast_uuid E (cmd_UserID c) = Inr user" "cast_uuid E (cmd_StoryID c) = Inr story"
    "loadState (ensureState E D user item now) user (cmd_StoryID c) item = Inr current"
    "existingMutation (ensureState E D user item now) user item (cmd_Action c) (cmd_IdempotencyKey c) current = Inr existing"
    and res: "(case existing of Some r \<Rightarrow> Inr (ensureState E D user item now, r)
        | None \<Rightarrow> apply_and_record E (ensureState E D user item now) c user story item current bulk now) = Inr (D', r)"
    using assms by (auto simp: mutateTx_def check_Inr_iff and_then_Inr_iff Let_def simp del: option.case_eq_if)
  show ?thesis
    by (rule that [OF base(1-4) refl base(5)], cases existing) (use base(6) res in auto)
qed

lemma mutateTx_inv: "db_inv E D \<Longrightarrow> mutateTx E c bulk now D = Inr (D', r) \<Longrightarrow> db_inv E D'"
  by (erule mutateTx_Inr) (auto simp: ensureState_inv dest: apply_and_record_inv [OF ensureState_inv])

lemma mutate_all_inv: "db_inv E D \<Longrightarrow> mutate_all E f bulk now xs D = Inr (D', rs) \<Longrightarrow> db_inv E D'"
  by (induction xs arbitrary: D rs) (auto simp: go_result dest: mutateTx_inv)

lemma insert_item_tags_inv: "db_inv E D \<Longrightarrow> insert_item_tags E D user item texts = Inr D' \<Longrightarrow> db_inv E D'"
proof (induction texts arbitrary: D)
  case (Cons t texts)
  from Cons.prems(2) obtain tag where tag: "(user, item, tag) \<notin> set (db_item_tags D)" "tagBelongsToUser D user tag"
    and rest: "insert_item_tags E (D\<lparr>db_item_tags := db_item_tags D @ [(user, item, tag)]\<rparr>) user item texts = Inr D'"
    by (auto simp: go_result split: if_splits)
  have "db_inv E (D\<lparr>db_item_tags := db_item_tags D @ [(user, item, tag)]\<rparr>)"
    using Cons.prems(1) tag by (auto simp: db_inv_defs tagBelongsToUser_def)
  then show ?case using rest by (rule Cons.IH)
qed simp

lemma filter_tags_inv: "db_inv E D \<Longrightarrow> db_inv E (D\<lparr>db_item_tags := filter P (db_item_tags D)\<rparr>)"
  by (auto simp: db_inv_defs)

lemma restoreTags_inv: "db_inv E D \<Longrightarrow> restoreTags E D user item texts = Inr D' \<Longrightarrow> db_inv E D'"
  by (rule insert_item_tags_inv [OF filter_tags_inv]) (simp_all add: restoreTags_def split: if_splits)

lemma mark_undone_sel [simp]:
  "mut_id (mark_undone E mid now m) = mut_id m" "mut_user_id (mark_undone E mid now m) = mut_user_id m"
  "mut_idempotency_key (mark_undone E mid now m) = mut_idempotency_key m"
  "mut_item_id (mark_undone E mid now m) = mut_item_id m" "mut_type (mark_undone E mid now m) = mut_type m"
  by (simp_all add: mark_undone_def)

lemma set_undone_inv: "db_inv E D \<Longrightarrow> set_undone E D mid now = Inr D' \<Longrightarrow> db_inv E D'"
  by (auto simp: set_undone_def db_inv_defs comp_def image_image split: if_splits)

lemma delete_feedback_inv: "db_inv E D \<Longrightarrow> db_inv E (delete_feedback D mid)"
  by (auto simp: delete_feedback_def db_inv_defs distinct_map_filter)

lemma write_undo_Inr:
  assumes "write_undo E D user item mid s now = Inr D'"
  obtains D1 D2 D3 where "Validate s = None" "restoreTags E D user item (TagIDs s) = Inr D1"
    "persistState E D1 user item s = Inr D2" "set_undone E D2 mid now = Inr D3" "D' = delete_feedback D3 mid"
  using assms by (auto simp: write_undo_def go_result)

lemma write_undo_inv: "db_inv E D \<Longrightarrow> write_undo E D user item mid s now = Inr D' \<Longrightarrow> db_inv E D'"
  by (erule write_undo_Inr) (metis delete_feedback_inv set_undone_inv persistState_inv restoreTags_inv)

lemma undo_found_inv:
  "db_inv E D \<Longrightarrow> undo_found E user item storyID mutationID mid current now D m = Inr (D', r) \<Longrightarrow> db_inv E D'"
  by (auto simp: undo_found_def go_result Let_def split: if_splits dest: write_undo_inv)

lemma undo_tx_Inr:
  assumes "undo_tx E userID storyID mutationID now D = Inr (D', r)"
  obtains item rv user current mid m where "resolveTarget E D userID storyID = Inr (item, rv)"
    "cast_uuid E userID = Inr user" "loadState D user storyID item = Inr current" "cast_uuid E mutationID = Inr mid"
    "find (\<lambda>m. mut_id m = mid \<and> mut_user_id m = user \<and> mut_item_id m = item) (db_mutations D) = Some m"
    "undo_found E user item storyID mutationID mid current now D m = Inr (D', r)"
  using assms by (auto simp: undo_tx_def go_result split: option.split_asm)

lemma undo_tx_inv: "db_inv E D \<Longrightarrow> undo_tx E userID storyID mid now D = Inr (D', r) \<Longrightarrow> db_inv E D'"
  by (erule undo_tx_Inr) (rule undo_found_inv)

lemma undo_one_inv: "db_inv E D \<Longrightarrow> undo_one E user bulk now m D = Inr (u, D', r) \<Longrightarrow> db_inv E D'"
  by (auto simp: undo_one_def go_result Let_def split: option.split_asm if_splits dest: write_undo_inv)

lemma undo_each_inv: "db_inv E D \<Longrightarrow> undo_each E user bulk now ms a b D = Inr (a', b', D', rs) \<Longrightarrow> db_inv E D'"
  by (induction ms arbitrary: D a b rs) (auto simp: go_result dest: undo_one_inv)

lemma undo_bulk_tx_inv: "db_inv E D \<Longrightarrow> undo_bulk_tx E userID bulkID now D = Inr (D', r) \<Longrightarrow> db_inv E D'"
  by (auto simp: undo_bulk_tx_def go_result Let_def split: if_splits dest: undo_each_inv)

lemma record_return_inv: "db_inv E D \<Longrightarrow> db_inv E (record_return E D d r now)"
  by (simp add: record_return_def db_inv_defs del: map_of_eq_Some_iff)

lemma return_each_inv: "db_inv E D \<Longrightarrow> return_each E now ds D = Inr D' \<Longrightarrow> db_inv E D'"
proof (induction ds arbitrary: D)
  case (Cons d ds)
  then obtain D1 r where "mutateTx E (return_command d) None now D = Inr (D1, r)"
    and "return_each E now ds (record_return E D1 d r now) = Inr D'"
    by (auto simp: go_result)
  then show ?case using Cons.IH Cons.prems(1) mutateTx_inv record_return_inv by blast
qed simp

lemma feedback_tx_inv: "db_inv E D \<Longrightarrow> feedback_tx E c note now D = Inr (D', r) \<Longrightarrow> db_inv E D'"
  by (auto simp: feedback_tx_def go_result Let_def split: option.split_asm if_splits dest: insertFeedback_inv)


lemma state_tx_same: "state_tx E userID storyID now D = Inr (D', s) \<Longrightarrow> D' = D"
  by (auto simp: state_tx_def loadState_def go_result split: option.split_asm)

interpretation mutate: tx_body "db_inv E" ErrTx "mutateTx E c bulkID now" for E c bulkID now
  by unfold_locales (rule mutateTx_inv)

interpretation bulk: tx_body "db_inv E" ErrTx "bulk_tx E f bulkID now xs" for E f bulkID now xs
  by unfold_locales (auto simp: bulk_tx_def go_result dest: mutate_all_inv)

interpretation undo: tx_body "db_inv E" ErrTx "undo_tx E userID storyID mid now" for E userID storyID mid now
  by unfold_locales (rule undo_tx_inv)

interpretation undo_bulk: tx_body "db_inv E" ErrTx "undo_bulk_tx E userID bulkID now" for E userID bulkID now
  by unfold_locales (rule undo_bulk_tx_inv)

interpretation return_due: tx_body "db_inv E" ErrTx "return_tx E limit now" for E limit now
  by unfold_locales (auto simp: return_tx_def go_result Let_def dest: return_each_inv)

interpretation feedback_op: tx_body "db_inv E" ErrTx "feedback_tx E c normalized now" for E c normalized now
  by unfold_locales (rule feedback_tx_inv)

interpretation state_op: tx_body "db_inv E" ErrTx "state_tx E userID storyID now" for E userID storyID now
  by unfold_locales (auto dest: state_tx_same)

text \<open>One call of the store, whatever becomes of its transaction, and runs of calls.\<close>

inductive store_step :: "pg \<Rightarrow> db \<Rightarrow> db \<Rightarrow> bool" for E where
  mutate_step: "store_step E D (snd (Mutate E fate c now D))"
| bulk_step: "store_step E D (snd (BulkMutate E fate b now D))"
| reorder_step: "store_step E D (snd (ReorderLater E fate l now D))"
| undo_step: "store_step E D (snd (Undo E fate userID storyID mid now D))"
| undo_bulk_step: "store_step E D (snd (UndoBulk E fate userID bulkID now D))"
| return_step: "store_step E D (snd (ReturnDueSnoozes E fate limit now D))"
| feedback_step: "store_step E D (snd (RecordFeedback E fate f now D))"
| state_step: "store_step E D (snd (store_State E fate userID storyID now D))"

definition store_run :: "pg \<Rightarrow> db \<Rightarrow> db \<Rightarrow> bool" where
  "store_run E = (store_step E)\<^sup>*\<^sup>*"

lemma store_step_inv: "store_step E D D' \<Longrightarrow> db_inv E D \<Longrightarrow> db_inv E D'"
  by (induction rule: store_step.induct)
    (simp_all add: Mutate_def BulkMutate_def ReorderLater_def Undo_def UndoBulk_def ReturnDueSnoozes_def
       RecordFeedback_def store_State_def Let_def mutate.run_inv bulk.run_inv undo.run_inv undo_bulk.run_inv
       return_due.run_inv feedback_op.run_inv state_op.run_inv
       split: option.split sum.split)

section \<open>A concrete database\<close>

text \<open>A small database, on which the theorems are tried.\<close>

definition db_sample :: db where
  "db_sample =
     \<lparr>db_users = [''owner''], db_clusters = [(''story'', ''item'')], db_items = [(''item'', ''revision'')],
      db_tags = [(''tag'', ''owner'')], db_item_tags = [(''owner'', ''item'', ''tag'')], db_states = [],
      db_mutations = [], db_feedback = [], db_outbox = [], db_seq = 0\<rparr>"

lemma db_sample_inv: "db_inv E db_sample = (pg_uuid E ''tag'' = Some ''tag'')"
  by (auto simp: db_inv_defs db_sample_def)

text \<open>
  Whatever calls the store receives and however their transactions end, the database keeps its
  invariant: every stored row satisfies the CHECK constraints and is a fixed point of storing, tags
  attached to stories belong to their owner, mutation identifiers and idempotency keys are unique,
  and feedback refers to recorded mutations only.
\<close>

lemma store_run_inv:
  assumes "store_run E D D'" and "db_inv E D"
  shows "db_inv E D'"
  using assms unfolding store_run_def by (induction rule: rtranclp_induct) (auto dest: store_step_inv)

definition dismissed_db :: db where
  "dismissed_db = snd (Mutate pg_sample Commits (sample_command ActionDismiss) clock_2024 db_sample)"

definition dismissed_result :: mutation_result where
  "dismissed_result = projr (fst (Mutate pg_sample Commits (sample_command ActionDismiss) clock_2024 db_sample))"

lemma dismissed_ok:
  "\<not> isl (fst (Mutate pg_sample Commits (sample_command ActionDismiss) clock_2024 db_sample))"
  "res_MutationID dismissed_result = ''m0''"
  by code_simp+

lemma dismissed_sample:
  "Mutate pg_sample Commits (sample_command ActionDismiss) clock_2024 db_sample = (Inr dismissed_result, dismissed_db)"
  using dismissed_ok(1) by (simp add: dismissed_result_def dismissed_db_def prod_eq_iff)

lemma store_run_inv_witness: "db_inv pg_sample dismissed_db"
proof -
  have "store_run pg_sample db_sample dismissed_db"
    unfolding store_run_def dismissed_db_def by (rule r_into_rtranclp) (rule mutate_step)
  then show ?thesis by (rule store_run_inv) (simp add: db_sample_inv pg_sample_def)
qed

section \<open>Replays and concurrent commands\<close>

lemma find_append: "find P (xs @ ys) = (case find P xs of None \<Rightarrow> find P ys | Some x \<Rightarrow> Some x)"
  by (induction xs) auto

lemma find_SomeD: "find P xs = Some x \<Longrightarrow> x \<in> set xs \<and> P x"
  by (auto simp: find_Some_iff)

lemma find_fresh: "k \<notin> f ` set xs \<Longrightarrow> find (\<lambda>x. f x = k \<and> P x) xs = None"
  by (induction xs) auto

lemma persistState_Inr:
  "persistState E D user item s = Inr D' \<Longrightarrow>
   D' = D\<lparr>db_states := AList.update (user, item) (row_of_state E s) (db_states D)\<rparr>"
  by (auto simp: persistState_def split: if_splits)

lemma persistTagMutation_Inr:
  "persistTagMutation E D c user item = Inr D' \<Longrightarrow> \<exists>tags. D' = D\<lparr>db_item_tags := tags\<rparr>"
  by (auto simp: persistTagMutation_def add_item_tag_def go_result split: option.split_asm if_splits
           intro: exI [of _ "db_item_tags D"])

lemma insertMutation_Inr:
  assumes "insertMutation E D c user item before after bulk now = Inr (D', mid)"
  obtains bulkID where "mid = uuid_v7 E (db_seq D)" "mid \<notin> mut_id ` set (db_mutations D)"
    "D' = D\<lparr>db_seq := Suc (db_seq D), db_mutations := db_mutations D @
              [\<lparr>mut_id = mid, mut_user_id = user, mut_item_id = item, mut_type = cmd_Action c,
                mut_before_state = before, mut_after_state = after,
                mut_idempotency_key = cmd_IdempotencyKey c, mut_bulk_id = bulkID,
                mut_undo_deadline = pg_time E (now + undoWindow), mut_undone_at = None,
                mut_created_at = pg_time E now\<rparr>]\<rparr>"
  using assms by (auto simp: insertMutation_def go_result Let_def split: if_splits)

lemma insertFeedback_Inr:
  "insertFeedback E D f = Inr D' \<Longrightarrow> D' = D\<lparr>db_seq := Suc (db_seq D), db_feedback := db_feedback D @ [f]\<rparr>"
  by (auto simp: insertFeedback_def split: if_splits)

lemma persistFeedback_Inr:
  assumes "persistFeedback E D c user story mid now = Inr D'"
  obtains n fs where "D' = D\<lparr>db_seq := n, db_feedback := db_feedback D @ fs\<rparr>"
    "\<forall>f\<in>set fs. fb_mutation_id f = Some mid"
proof (cases "cmd_Action c = ActionAlreadyKnown \<or> cmd_Action c = ActionDismiss")
  case True
  then have "insertFeedback E D (mutation_feedback E D c user story mid now) = Inr D'"
    using assms by (simp add: persistFeedback_def)
  then show ?thesis
    by (intro that [where n = "Suc (db_seq D)" and fs = "[mutation_feedback E D c user story mid now]"])
      (auto simp: mutation_feedback_def dest: insertFeedback_Inr)
next
  case False
  then show ?thesis using assms by (intro that [where n = "db_seq D" and fs = "[]"]) (auto simp: persistFeedback_def)
qed

text \<open>What a new mutation leaves in the database.\<close>

lemma apply_and_record_Inr:
  assumes "apply_and_record E D c user story item current bulk now = Inr (D', r)"
  obtains nxt m where "Version current = cmd_ExpectedVersion c" "Apply current c now = Inr nxt"
    "db_mutations D' = db_mutations D @ [m]" "mut_id m = res_MutationID r" "mut_user_id m = user"
    "mut_item_id m = item" "mut_type m = cmd_Action c" "mut_before_state m = current" "mut_after_state m = nxt"
    "mut_idempotency_key m = cmd_IdempotencyKey c" "mut_undone_at m = None"
    "mut_undo_deadline m = pg_time E (now + undoWindow)" "mut_created_at m = pg_time E now"
    "res_State r = nxt" "res_UndoDeadline r = now + undoWindow"
    "res_MutationID r \<notin> mut_id ` set (db_mutations D)" "res_MutationID r = uuid_v7 E (db_seq D)"
    "db_states D' = AList.update (user, item) (row_of_state E nxt) (db_states D)"
    "db_users D' = db_users D" "db_clusters D' = db_clusters D" "db_items D' = db_items D" "db_tags D' = db_tags D"
    "\<exists>fs. db_feedback D' = db_feedback D @ fs \<and> (\<forall>f\<in>set fs. fb_mutation_id f = Some (res_MutationID r))"
    "\<exists>D1. persistTagMutation E (D\<lparr>db_states := db_states D'\<rparr>) c user item = Inr D1 \<and> db_item_tags D' = db_item_tags D1"
proof -
  obtain nxt D1 D2 D3 mid where steps: "Version current = cmd_ExpectedVersion c" "Apply current c now = Inr nxt"
    "persistState E D user item nxt = Inr D1" "persistTagMutation E D1 c user item = Inr D2"
    "insertMutation E D2 c user item current nxt bulk now = Inr (D3, mid)"
    "persistFeedback E D3 c user story mid now = Inr D'"
    "r = \<lparr>res_MutationID = mid, res_State = nxt, res_UndoDeadline = now + undoWindow\<rparr>"
    using assms by (auto simp: apply_and_record_def lift_state_def go_result split: if_splits sum.split_asm)
  obtain tags where D2: "D2 = D1\<lparr>db_item_tags := tags\<rparr>" using persistTagMutation_Inr [OF steps(4)] by blast
  obtain n fs where D': "D' = D3\<lparr>db_seq := n, db_feedback := db_feedback D3 @ fs\<rparr>"
    and fs: "\<forall>f\<in>set fs. fb_mutation_id f = Some mid" using persistFeedback_Inr [OF steps(6)] by blast
  from insertMutation_Inr [OF steps(5)] show ?thesis
  proof cases
    case (1 bulkID)
    then show ?thesis
      using steps(1-4,7) fs D' D2 persistState_Inr [OF steps(3)]
      by (intro that [of nxt "last (db_mutations D3)"]) simp_all
  qed
qed

lemma resolveTarget_cong:
  assumes "db_users D' = db_users D" "db_clusters D' = db_clusters D" "db_items D' = db_items D"
  shows "resolveTarget E D' u s = resolveTarget E D u s"
  unfolding resolveTarget_def assms ..

lemma ensureState_frame [simp]:
  "db_users (ensureState E D u i now) = db_users D" "db_clusters (ensureState E D u i now) = db_clusters D"
  "db_items (ensureState E D u i now) = db_items D" "db_tags (ensureState E D u i now) = db_tags D"
  "db_item_tags (ensureState E D u i now) = db_item_tags D" "db_mutations (ensureState E D u i now) = db_mutations D"
  "db_feedback (ensureState E D u i now) = db_feedback D" "db_outbox (ensureState E D u i now) = db_outbox D"
  "db_seq (ensureState E D u i now) = db_seq D"
  by (simp_all add: ensureState_def split: option.split)

lemma ensureState_row: "\<exists>row. map_of (db_states (ensureState E D u i now)) (u, i) = Some row"
  by (auto simp: ensureState_def update_conv' split: option.split)

lemma ensureState_present: "map_of (db_states D) (u, i) = Some row \<Longrightarrow> ensureState E D u i now = D"
  by (simp add: ensureState_def)

text \<open>A command whose key is recorded for the same story and action is answered from the record.\<close>

lemma mutateTx_found:
  assumes "validateCommand E c = None" and "resolveTarget E D (cmd_UserID c) (cmd_StoryID c) = Inr (item, rv)"
    and "cast_uuid E (cmd_UserID c) = Inr user" and "cast_uuid E (cmd_StoryID c) = Inr story"
    and "map_of (db_states D) (user, item) = Some row"
    and "find (\<lambda>m. mut_user_id m = user \<and> mut_idempotency_key m = cmd_IdempotencyKey c) (db_mutations D) = Some m"
    and "mut_item_id m = item" and "mut_type m = cmd_Action c"
  shows "\<exists>current. loadState D user (cmd_StoryID c) item = Inr current
     \<and> mutateTx E c bulk now D = Inr (D, \<lparr>res_MutationID = mut_id m,
         res_State = (if mut_undone_at m = None then mut_after_state m else current),
         res_UndoDeadline = mut_undo_deadline m\<rparr>)"
  using assms by (simp add: mutateTx_def ensureState_present loadState_def existingMutation_def)

lemma existingMutation_Some:
  assumes "existingMutation D user item a key current = Inr (Some r)"
  obtains m where "find (\<lambda>m. mut_user_id m = user \<and> mut_idempotency_key m = key) (db_mutations D) = Some m"
    "mut_item_id m = item" "mut_type m = a"
    "r = \<lparr>res_MutationID = mut_id m, res_State = (if mut_undone_at m = None then mut_after_state m else current),
          res_UndoDeadline = mut_undo_deadline m\<rparr>"
  using assms by (auto simp: existingMutation_def split: option.split_asm if_splits)

lemma existingMutation_None:
  "existingMutation D user item a key current = Inr None \<longleftrightarrow>
   find (\<lambda>m. mut_user_id m = user \<and> mut_idempotency_key m = key) (db_mutations D) = None"
  by (auto simp: existingMutation_def split: option.split)

text \<open>After a success the command is recorded, whether it was new or a replay.\<close>

lemma mutateTx_recorded:
  assumes "mutateTx E c bulk now D = Inr (D', r)"
  obtains user story item rv row m current where
    "validateCommand E c = None" "resolveTarget E D' (cmd_UserID c) (cmd_StoryID c) = Inr (item, rv)"
    "cast_uuid E (cmd_UserID c) = Inr user" "cast_uuid E (cmd_StoryID c) = Inr story"
    "map_of (db_states D') (user, item) = Some row" "loadState D' user (cmd_StoryID c) item = Inr current"
    "find (\<lambda>m. mut_user_id m = user \<and> mut_idempotency_key m = cmd_IdempotencyKey c) (db_mutations D') = Some m"
    "mut_item_id m = item" "mut_type m = cmd_Action c" "res_MutationID r = mut_id m"
    "res_State r = (if mut_undone_at m = None then mut_after_state m else current)"
    "res_UndoDeadline r = mut_undo_deadline m \<or> pg_time E (res_UndoDeadline r) = mut_undo_deadline m"
  using assms
proof (rule mutateTx_Inr)
  fix item rv user story current D0
  assume base: "validateCommand E c = None" "resolveTarget E D (cmd_UserID c) (cmd_StoryID c) = Inr (item, rv)"
    "cast_uuid E (cmd_UserID c) = Inr user" "cast_uuid E (cmd_StoryID c) = Inr story"
    "D0 = ensureState E D user item now" "loadState D0 user (cmd_StoryID c) item = Inr current"
    and how: "existingMutation D0 user item (cmd_Action c) (cmd_IdempotencyKey c) current = Inr (Some r) \<and> D' = D0
     \<or> existingMutation D0 user item (cmd_Action c) (cmd_IdempotencyKey c) current = Inr None
        \<and> apply_and_record E D0 c user story item current bulk now = Inr (D', r)"
  obtain row where row: "map_of (db_states D0) (user, item) = Some row" using ensureState_row base(5) by blast
  show ?thesis
  proof (cases "D' = D0 \<and> existingMutation D0 user item (cmd_Action c) (cmd_IdempotencyKey c) current = Inr (Some r)")
    case True
    then obtain m where "find (\<lambda>m. mut_user_id m = user \<and> mut_idempotency_key m = cmd_IdempotencyKey c) (db_mutations D0) = Some m"
      "mut_item_id m = item" "mut_type m = cmd_Action c"
      "r = \<lparr>res_MutationID = mut_id m, res_State = (if mut_undone_at m = None then mut_after_state m else current),
          res_UndoDeadline = mut_undo_deadline m\<rparr>"
      using existingMutation_Some by blast
    moreover have "resolveTarget E D' (cmd_UserID c) (cmd_StoryID c) = Inr (item, rv)"
      using base(2,5) True resolveTarget_cong [of D0 D] by simp
    ultimately show ?thesis using base True row by (intro that [of item rv user story row current m]) simp_all
  next
    case False
    with how have none: "existingMutation D0 user item (cmd_Action c) (cmd_IdempotencyKey c) current = Inr None"
      and new: "apply_and_record E D0 c user story item current bulk now = Inr (D', r)" by auto
    from new show ?thesis
    proof (rule apply_and_record_Inr, goal_cases)
      case (1 nxt m)
      have "resolveTarget E D' (cmd_UserID c) (cmd_StoryID c) = Inr (item, rv)"
        using base(2,5) 1 resolveTarget_cong [of D' D] by simp
      then show ?case
        using base 1 none [unfolded existingMutation_None]
        by (intro that [of item rv user story "row_of_state E nxt" _ m])
          (simp_all add: update_conv' find_append loadState_def)
    qed
  qed
qed

lemma mutateTx_replay:
  assumes "mutateTx E c bulk now D = Inr (D', r)"
  shows "\<exists>r'. mutateTx E c bulk' now' D' = Inr (D', r') \<and> res_MutationID r' = res_MutationID r
     \<and> res_State r' = res_State r
     \<and> (res_UndoDeadline r' = res_UndoDeadline r \<or> res_UndoDeadline r' = pg_time E (res_UndoDeadline r))"
  using assms
proof (rule mutateTx_recorded, goal_cases)
  case (1 user story item rv row m current)
  from mutateTx_found [OF 1(1-5) 1(7-9), of bulk' now'] 1(6,10-12) show ?case by auto
qed

text \<open>
  C4. A mutation is idempotent: once a command has been accepted, sending it again (at any time, and
  whether the first acceptance was itself a replay or not) returns the same mutation identifier, the
  same state and the same deadline up to the resolution of the database, and changes nothing.
\<close>

theorem mutate_idempotent:
  assumes "Mutate E fate c now D = (Inr r, D')"
  shows "\<exists>r'. Mutate E Commits c now' D' = (Inr r', D') \<and> res_MutationID r' = res_MutationID r
     \<and> res_State r' = res_State r
     \<and> (res_UndoDeadline r' = res_UndoDeadline r \<or> res_UndoDeadline r' = pg_time E (res_UndoDeadline r))"
  using mutateTx_replay [of E c None now D D' r None now'] run_tx_Inr assms
  unfolding Mutate_def run_tx_Commits by metis

theorem mutate_idempotent_witness:
  "\<exists>r'. Mutate pg_sample Commits (sample_command ActionDismiss) (clock_2024 + hour) dismissed_db = (Inr r', dismissed_db)
     \<and> res_MutationID r' = ''m0''"
  using mutate_idempotent [OF dismissed_sample, of "clock_2024 + hour"] by (auto simp: dismissed_ok)

lemma Apply_version:
  assumes "Apply s c now = Inr s'" and "0 \<le> Version s" and "int64_range (Version s)"
  shows "Version s' = Version s + 1"
proof -
  have "Version s' = wrap64 (Version s + 1)" and "0 \<le> Version s'"
    using assms(1) by (auto simp: Apply_Inr_iff Validate_def split: if_splits)
  then show ?thesis
    using assms(2,3) wrap64_id [of "Version s + 1"] wrap64_max_succ
    by (cases "Version s = max_int64") (auto simp: int64_range_def max_int64_def)
qed

lemma check_tag_or_conflict:
  "Version current \<noteq> cmd_ExpectedVersion c \<Longrightarrow>
   apply_and_record E D c user story item current bulk now = Inl (ErrState ErrConflict)"
  by (simp add: apply_and_record_def)

text \<open>
  C5. No update is lost: a new command succeeds only when the version it expects is the stored one,
  and it stores that version plus one; a second command that expects the same version, under a key
  not used before, is refused as a conflict and leaves the database as the first one left it.
\<close>

theorem mutate_no_lost_update:
  assumes "Mutate E fate c1 now1 D = (Inr r1, D1)" and "res_MutationID r1 \<notin> mut_id ` set (db_mutations D)"
    and "int64_range (cmd_ExpectedVersion c1)"
    and "cmd_UserID c2 = cmd_UserID c1" and "cmd_StoryID c2 = cmd_StoryID c1"
    and "cmd_ExpectedVersion c2 = cmd_ExpectedVersion c1" and "validateCommand E c2 = None"
    and "\<forall>m\<in>set (db_mutations D1). mut_idempotency_key m \<noteq> cmd_IdempotencyKey c2"
  shows "Version (res_State r1) = cmd_ExpectedVersion c1 + 1
    \<and> Mutate E Commits c2 now2 D1 = (Inl (ErrState ErrConflict), D1)"
proof -
  have body: "mutateTx E c1 None now1 D = Inr (D1, r1)"
    using run_tx_Inr assms(1) unfolding Mutate_def by metis
  then show ?thesis
  proof (rule mutateTx_Inr, goal_cases)
    case (1 item rv user story current D0)
    have new: "apply_and_record E D0 c1 user story item current None now1 = Inr (D1, r1)"
      using 1(5,7) assms(2) by (auto elim!: existingMutation_Some dest: find_SomeD)
    from new show ?case
    proof (rule apply_and_record_Inr, goal_cases)
      case (1 nxt m)
      note resolved = \<open>resolveTarget E D (cmd_UserID c1) (cmd_StoryID c1) = Inr (item, rv)\<close>
      have nonneg: "0 \<le> Version current"
        using \<open>validateCommand E c1 = None\<close> 1(1) by (auto simp: validateCommand_def go_result split: if_splits)
      then have v: "Version nxt = Version current + 1" using Apply_version 1(1,2) assms(3) by simp
      have "resolveTarget E D1 (cmd_UserID c2) (cmd_StoryID c2) = Inr (item, rv)"
        using resolved resolveTarget_cong [of D1 D] 1 \<open>D0 = _\<close> assms(4,5) by simp
      moreover have "find (\<lambda>m. mut_user_id m = user \<and> mut_idempotency_key m = cmd_IdempotencyKey c2) (db_mutations D1) = None"
        using assms(8) by (auto simp: find_None_iff)
      moreover have "map_of (db_states D1) (user, item) = Some (row_of_state E nxt)"
        using 1 by (simp add: update_conv')
      ultimately have "mutateTx E c2 None now2 D1 = Inl (ErrState ErrConflict)"
        using assms(4-7) 1 v \<open>cast_uuid E (cmd_UserID c1) = Inr user\<close> \<open>cast_uuid E (cmd_StoryID c1) = Inr story\<close>
        by (simp add: mutateTx_def ensureState_present loadState_def existingMutation_None [THEN iffD2]
              check_tag_or_conflict scanState_def row_of_state_def)
      then show ?case using 1 v by (simp add: Mutate_def run_tx_def)
    qed
  qed
qed

definition second_command :: command where
  "second_command = (sample_command ActionStar)\<lparr>cmd_IdempotencyKey := ''fedcba9876543210''\<rparr>"

theorem mutate_no_lost_update_witness:
  "Mutate pg_sample Commits second_command (clock_2024 + hour) dismissed_db = (Inl (ErrState ErrConflict), dismissed_db)"
proof -
  have "validateCommand pg_sample second_command = None" by code_simp
  moreover have "\<forall>m\<in>set (db_mutations dismissed_db). mut_idempotency_key m \<noteq> cmd_IdempotencyKey second_command"
    by code_simp
  ultimately show ?thesis
    by (intro conjunct2 [OF mutate_no_lost_update [OF dismissed_sample]])
      (simp_all add: db_sample_def second_command_def sample_command_def int64_range_def)
qed

section \<open>Undo gives back the state before\<close>

lemma insert_item_tags_ok:
  "\<forall>t\<in>set ts. pg_uuid E t = Some t \<and> tagBelongsToUser D u t \<and> (u, i, t) \<notin> set (db_item_tags D) \<Longrightarrow> distinct ts \<Longrightarrow>
   insert_item_tags E D u i ts = Inr (D\<lparr>db_item_tags := db_item_tags D @ map (\<lambda>t. (u, i, t)) ts\<rparr>)"
proof (induction ts arbitrary: D)
  case (Cons t ts)
  have "insert_item_tags E (D\<lparr>db_item_tags := db_item_tags D @ [(u, i, t)]\<rparr>) u i ts =
    Inr (D\<lparr>db_item_tags := db_item_tags D @ [(u, i, t)]\<rparr>
           \<lparr>db_item_tags := (db_item_tags D @ [(u, i, t)]) @ map (\<lambda>t. (u, i, t)) ts\<rparr>)"
    using Cons.prems Cons.IH [of "D\<lparr>db_item_tags := db_item_tags D @ [(u, i, t)]\<rparr>"]
    by (auto simp: tagBelongsToUser_def)
  then show ?case using Cons.prems by (simp add: cast_uuid_def)
qed simp

lemma count_owned_all:
  assumes "distinct ts" and "\<forall>t\<in>set ts. pg_uuid E t = Some t \<and> tagBelongsToUser D u t"
    and "distinct (map fst (db_tags D))"
  shows "count_owned E D u ts = length ts"
proof -
  let ?xs = "filter (\<lambda>(tag, owner). owner = u \<and> Some tag \<in> set (map (pg_uuid E) ts)) (db_tags D)"
  have "set ?xs = (\<lambda>t. (t, u)) ` set ts"
    using assms by (auto simp: tagBelongsToUser_def image_iff)
  moreover have "distinct ?xs" using assms(3) by (simp add: distinct_map)
  ultimately have "length ?xs = card ((\<lambda>t. (t, u)) ` set ts)" by (metis distinct_card)
  also have "\<dots> = length ts" using assms(1) by (simp add: card_image inj_on_def distinct_card)
  finally show ?thesis by (simp add: count_owned_def)
qed

lemma set_loadTagIDs: "set (loadTagIDs D u i) = {t. (u, i, t) \<in> set (db_item_tags D)}"
  by (force simp: loadTagIDs_def)

lemma distinct_loadTagIDs: "distinct (db_item_tags D) \<Longrightarrow> distinct (loadTagIDs D u i)"
  by (auto simp: loadTagIDs_def distinct_map inj_on_def)

lemma restoreTags_ok:
  assumes "db_inv E D" and "db_tags D' = db_tags D"
  shows "restoreTags E D' u i (loadTagIDs D u i) =
    Inr (D'\<lparr>db_item_tags := filter (\<lambda>(u', i', tag). \<not> (u' = u \<and> i' = i)) (db_item_tags D')
                @ map (\<lambda>t. (u, i, t)) (loadTagIDs D u i)\<rparr>)"
proof -
  let ?ts = "loadTagIDs D u i"
  have owned: "\<forall>t\<in>set ?ts. pg_uuid E t = Some t \<and> tagBelongsToUser D' u t"
    using assms by (fastforce simp: set_loadTagIDs db_inv_defs tagBelongsToUser_def)
  have dist: "distinct ?ts" using assms(1) by (simp add: distinct_loadTagIDs db_inv_defs)
  have "count_owned E D' u ?ts = length ?ts"
    using count_owned_all [OF dist owned] assms by (simp add: db_inv_defs)
  moreover have "None \<notin> set (map (pg_uuid E) ?ts)" using owned by auto
  ultimately show ?thesis
    unfolding restoreTags_def
    using insert_item_tags_ok [where ts = ?ts and E = E and u = u and i = i and
        D = "D'\<lparr>db_item_tags := filter (\<lambda>(u', i', tag). \<not> (u' = u \<and> i' = i)) (db_item_tags D')\<rparr>"] owned dist
    by (simp add: tagBelongsToUser_def)
qed

text \<open>A tag command touches only the tags of its own story.\<close>

lemma persistTagMutation_other:
  "persistTagMutation E D c u i = Inr D' \<Longrightarrow>
   filter (\<lambda>(u', i', tag). \<not> (u' = u \<and> i' = i)) (db_item_tags D') = filter (\<lambda>(u', i', tag). \<not> (u' = u \<and> i' = i)) (db_item_tags D)"
  by (auto simp: persistTagMutation_def add_item_tag_def go_result split: option.split_asm if_splits
           intro: filter_cong)

lemma restored_row:
  assumes "row_canonical E row"
  shows "row_of_state E (scanState row s\<lparr>TagIDs := ts, StoryID := s', Version := v, UpdatedAt := t\<rparr>)
     = row\<lparr>row_version := v, row_updated_at := pg_time E t\<rparr>"
  using assms by (cases row) (simp add: row_canonical_def row_of_state_def scanState_def)

lemma row_checks_restored:
  "row_checks (scanState row []) \<Longrightarrow> 0 \<le> v \<Longrightarrow>
   row_checks (scanState (row\<lparr>row_version := v, row_updated_at := t\<rparr>) [])
   \<and> Validate (scanState row s\<lparr>TagIDs := ts, StoryID := s', Version := v, UpdatedAt := t'\<rparr>) = None"
  by (intro conjI row_checks_valid) (simp_all add: row_checks_def row_check_defs scanState_def)

lemma loadState_update:
  "db_states D' = AList.update (u, i) row xs \<Longrightarrow> loadState D' u s i = Inr (scanState row s\<lparr>TagIDs := loadTagIDs D' u i\<rparr>)"
  by (simp add: loadState_def update_conv')

text \<open>
  The heart of undo: from the state row and the tags before a mutation, all writes of the undo
  succeed and put the row (with a new version), the tags and the feedback back.
\<close>

lemma write_undo_ok:
  assumes laws: "pg_laws E" and inv: "db_inv E D" and row: "map_of (db_states D) (u, i) = Some row"
    and v: "0 \<le> v" and tags: "db_tags D1 = db_tags D"
    and others: "filter (\<lambda>(u', i', tag). \<not> (u' = u \<and> i' = i)) (db_item_tags D1)
       = filter (\<lambda>(u', i', tag). \<not> (u' = u \<and> i' = i)) (db_item_tags D)"
    and states: "db_states D1 = AList.update (u, i) row1 (db_states D)"
    and muts: "\<forall>m\<in>set (db_mutations D1). mut_id m = mid \<longrightarrow> mut_created_at m \<le> pg_time E now"
    and fb: "db_feedback D1 = db_feedback D @ fs" "\<forall>f\<in>set fs. fb_mutation_id f = Some mid"
    and fresh: "mid \<notin> mut_id ` set (db_mutations D)"
  shows "\<exists>D2. write_undo E D1 u i mid
           (scanState row s\<lparr>TagIDs := loadTagIDs D u i, StoryID := s, Version := v, UpdatedAt := now\<rparr>) now = Inr D2
     \<and> db_states D2 = AList.update (u, i) (row\<lparr>row_version := v, row_updated_at := pg_time E now\<rparr>) (db_states D)
     \<and> set (db_item_tags D2) = set (db_item_tags D) \<and> db_feedback D2 = db_feedback D
     \<and> db_users D2 = db_users D1 \<and> db_clusters D2 = db_clusters D1 \<and> db_items D2 = db_items D1
     \<and> db_mutations D2 = map (mark_undone E mid now) (db_mutations D1)"
proof -
  let ?st = "scanState row s\<lparr>TagIDs := loadTagIDs D u i, StoryID := s, Version := v, UpdatedAt := now\<rparr>"
  have "row_checks (scanState row [])" and canon: "row_canonical E row"
    using inv row laws by (auto simp: db_inv_defs dest!: map_of_SomeD)
  then have checks: "row_checks (scanState (row\<lparr>row_version := v, row_updated_at := pg_time E now\<rparr>) [])"
    and valid: "Validate ?st = None"
    using row_checks_restored v by blast+
  let ?D2 = "D1\<lparr>db_item_tags := filter (\<lambda>(u', i', tag). \<not> (u' = u \<and> i' = i)) (db_item_tags D1)
                @ map (\<lambda>t. (u, i, t)) (loadTagIDs D u i)\<rparr>"
  have restore: "restoreTags E D1 u i (TagIDs ?st) = Inr ?D2"
    using restoreTags_ok [OF inv tags] by simp
  have texts: "text_ok E (LastParagraphID ?st)" "text_ok E (DismissedReason ?st)"
    using canon by (simp_all add: row_canonical_def scanState_def)
  let ?D3 = "?D2\<lparr>db_states := AList.update (u, i) (row\<lparr>row_version := v, row_updated_at := pg_time E now\<rparr>) (db_states D1)\<rparr>"
  have persist: "persistState E ?D2 u i ?st = Inr ?D3"
    using texts checks by (simp add: persistState_def restored_row [OF canon] states update_conv')
  have undone: "set_undone E ?D3 mid now = Inr (?D3\<lparr>db_mutations := map (mark_undone E mid now) (db_mutations D1)\<rparr>)"
    using muts by (simp add: set_undone_def list_all_iff)
  have fb_old: "\<forall>f\<in>set (db_feedback D). fb_mutation_id f \<noteq> Some mid"
    using inv fresh by (auto simp: db_inv_defs)
  have "set (filter (\<lambda>(u', i', tag). \<not> (u' = u \<and> i' = i)) (db_item_tags D)) \<union> (\<lambda>t. (u, i, t)) ` set (loadTagIDs D u i)
      = set (db_item_tags D)"
    by (auto simp: set_loadTagIDs)
  moreover have "filter (\<lambda>f. fb_mutation_id f \<noteq> Some mid) fs = []"
    using fb(2) by (simp add: filter_empty_conv)
  moreover have "filter (\<lambda>f. fb_mutation_id f \<noteq> Some mid) (db_feedback D) = db_feedback D"
    using fb_old by (simp add: filter_id_conv)
  ultimately show ?thesis
    using valid restore persist undone others states fb(1)
    by (simp add: write_undo_def delete_feedback_def)
qed

text \<open>A new mutation followed by its undo, inside the transactions.\<close>

lemma apply_then_undo:
  assumes laws: "pg_laws E" and inv: "db_inv E D" and row: "map_of (db_states D) (u, i) = Some row"
    and cur: "current = scanState row (cmd_StoryID c)\<lparr>TagIDs := loadTagIDs D u i\<rparr>"
    and rec: "apply_and_record E D c u story i current bulk now = Inr (D1, r)"
    and target: "resolveTarget E D (cmd_UserID c) (cmd_StoryID c) = Inr (i, rv)" "cast_uuid E (cmd_UserID c) = Inr u"
    and version: "0 \<le> Version current" "Version current + 1 < max_int64"
    and later: "now \<le> now'" "now' \<le> pg_time E (now + undoWindow)"
  shows "\<exists>r2 D2. undo_tx E (cmd_UserID c) (cmd_StoryID c) (res_MutationID r) now' D1 = Inr (D2, r2)
    \<and> res_State r2 = scanState row (cmd_StoryID c)
        \<lparr>TagIDs := loadTagIDs D u i, StoryID := cmd_StoryID c, Version := Version current + 2, UpdatedAt := now'\<rparr>
    \<and> db_states D2 = AList.update (u, i) (row\<lparr>row_version := Version current + 2, row_updated_at := pg_time E now'\<rparr>) (db_states D)
    \<and> set (db_item_tags D2) = set (db_item_tags D) \<and> db_feedback D2 = db_feedback D
    \<and> db_users D2 = db_users D \<and> db_clusters D2 = db_clusters D \<and> db_items D2 = db_items D"
  using rec
proof (rule apply_and_record_Inr, goal_cases)
  case (1 nxt m)
  let ?old = "scanState row (cmd_StoryID c)
        \<lparr>TagIDs := loadTagIDs D u i, StoryID := cmd_StoryID c, Version := Version current + 2, UpdatedAt := now'\<rparr>"
  have "Version nxt = Version current + 1"
    using Apply_version [OF 1(2)] version by (simp add: int64_range_def max_int64_def)
  then have w: "wrap64 (Version nxt + 1) = Version current + 2"
    using version by (simp add: wrap64_id int64_range_def max_int64_def)
  have mid: "cast_uuid E (res_MutationID r) = Inr (res_MutationID r)"
    using laws 1(17) by (simp add: cast_uuid_def pg_laws_def)
  have found: "find (\<lambda>x. mut_id x = res_MutationID r \<and> mut_user_id x = u \<and> mut_item_id x = i) (db_mutations D1) = Some m"
    using 1(3-6) find_fresh [OF 1(16)] by (simp add: find_append)
  have fresh: "\<forall>x\<in>set (db_mutations D). mut_id x \<noteq> res_MutationID r" using 1(16) by (metis imageI)
  obtain fs where fs: "db_feedback D1 = db_feedback D @ fs" "\<forall>f\<in>set fs. fb_mutation_id f = Some (res_MutationID r)"
    using 1(23) by blast
  have others: "filter (\<lambda>(u', i', tag). \<not> (u' = u \<and> i' = i)) (db_item_tags D1)
      = filter (\<lambda>(u', i', tag). \<not> (u' = u \<and> i' = i)) (db_item_tags D)"
    using 1(24) persistTagMutation_other by fastforce
  have created: "\<forall>x\<in>set (db_mutations D1). mut_id x = res_MutationID r \<longrightarrow> mut_created_at x \<le> pg_time E now'"
    using 1(3,13) laws later(1) fresh by (auto simp: pg_laws_def)
  have v2: "0 \<le> Version current + 2" using version by simp
  obtain D2 where D2: "write_undo E D1 u i (res_MutationID r) ?old now' = Inr D2"
    "db_states D2 = AList.update (u, i) (row\<lparr>row_version := Version current + 2, row_updated_at := pg_time E now'\<rparr>) (db_states D)"
    "set (db_item_tags D2) = set (db_item_tags D)" "db_feedback D2 = db_feedback D"
    "db_users D2 = db_users D1" "db_clusters D2 = db_clusters D1" "db_items D2 = db_items D1"
    using write_undo_ok [OF laws inv row v2 1(22) others 1(18) created fs 1(16), of "cmd_StoryID c"] by blast
  have "resolveTarget E D1 (cmd_UserID c) (cmd_StoryID c) = Inr (i, rv)"
    using target(1) resolveTarget_cong [of D1 D] 1(19-21) by simp
  moreover have "restored_state m (scanState (row_of_state E nxt) s\<lparr>TagIDs := ts\<rparr>) (cmd_StoryID c) now' = ?old" for s ts
    using 1(8) cur w by (simp add: restored_state_def scanState_def row_of_state_def)
  moreover have "Version (scanState (row_of_state E nxt) s) = Version (mut_after_state m)" for s
    using 1(9) by (simp add: scanState_def row_of_state_def)
  ultimately have "\<exists>r2. undo_tx E (cmd_UserID c) (cmd_StoryID c) (res_MutationID r) now' D1 = Inr (D2, r2) \<and> res_State r2 = ?old"
    using target(2) mid found later(2) 1(11,12) D2(1) loadState_update [OF 1(18), of "cmd_StoryID c"]
    by (simp add: undo_tx_def undo_found_def)
  then show ?case using D2(2-7) 1(19-21) by auto
qed

lemma state_tx_ensure:
  assumes "resolveTarget E D userID storyID = Inr (i, rv)" and "cast_uuid E userID = Inr u"
    and "map_of (db_states (ensureState E D u i now)) (u, i) = Some row" and "state_tx E userID storyID now D = Inr (D, s0)"
  shows "scanState row storyID\<lparr>TagIDs := loadTagIDs D u i, StoryID := storyID, Version := v, UpdatedAt := t\<rparr>
     = s0\<lparr>Version := v, UpdatedAt := t\<rparr> \<and> Version s0 = row_version row"
  using assms
  by (cases "map_of (db_states D) (u, i)")
    (auto simp: state_tx_def loadState_def ensureState_def update_conv' scanState_def default_row_def DefaultState_def)

lemma store_State_Inr:
  "fst (store_State E Commits userID storyID now D) = Inr s \<Longrightarrow>
   state_tx E userID storyID now D = Inr (D, s)
   \<and> validateIdentifier E userID ''user ID'' = None \<and> validateIdentifier E storyID ''story ID'' = None"
  by (auto simp: store_State_def run_tx_def go_result dest: state_tx_same split: option.split_asm sum.split_asm prod.split_asm)

lemma loadTagIDs_set_cong:
  assumes "set (db_item_tags D') = set (db_item_tags D)" and "distinct (db_item_tags D')" and "distinct (db_item_tags D)"
  shows "loadTagIDs D' u i = loadTagIDs D u i"
proof (rule sorted_distinct_set_unique)
  show "set (loadTagIDs D' u i) = set (loadTagIDs D u i)" using assms(1) by (simp add: set_loadTagIDs)
qed (use assms in \<open>simp_all add: distinct_loadTagIDs\<close>, simp_all add: loadTagIDs_def)

text \<open>What the database gives back of a state: times and the progress at its resolution.\<close>

definition resolved :: "pg \<Rightarrow> story_state \<Rightarrow> story_state" where
  "resolved E s =
     s\<lparr>ReadAt := map_option (pg_time E) (ReadAt s), StarredAt := map_option (pg_time E) (StarredAt s),
       SnoozedUntil := map_option (pg_time E) (SnoozedUntil s), ReadingProgress := pg_numeric E (ReadingProgress s),
       UpdatedAt := pg_time E (UpdatedAt s)\<rparr>"

lemma scan_resolved: "scanState (row_of_state E s) (StoryID s)\<lparr>TagIDs := TagIDs s\<rparr> = resolved E s"
  by (simp add: resolved_def scanState_def row_of_state_def)

text \<open>The tag table follows the tags of the state.\<close>

lemma persistTagMutation_follows:
  assumes "persistTagMutation E D c u i = Inr D'" "Apply s c now = Inr s'" "TagIDs s = loadTagIDs D u i" "distinct (db_item_tags D)"
    and canonical: "\<And>tag. cmd_TagID c = Some tag \<Longrightarrow> pg_uuid E tag = Some tag"
  shows "loadTagIDs D' u i = TagIDs s'"
proof -
  obtain t where t: "apply_action (cmd_Action c) s c now = Inr t" "TagIDs s' = TagIDs t" using assms(2) by (auto simp: Apply_Inr_iff)
  have ok: "tags_ok s" using assms(3,4) by (simp add: tags_ok_def distinct_loadTagIDs) (simp add: loadTagIDs_def)
  have table: "distinct (db_item_tags D')"
    using assms(1,4) by (auto simp: persistTagMutation_def add_item_tag_def go_result split: option.split_asm if_split_asm)
  have "set (loadTagIDs D' u i) = set (TagIDs t)"
  proof (cases "cmd_Action c = ActionAddTag \<or> cmd_Action c = ActionRemoveTag")
    case True
    then obtain tag where tag: "cmd_TagID c = Some tag" using t(1) by (auto split: option.split_asm)
    then show ?thesis using True t(1) assms(1,3) canonical [OF tag]
      by (auto simp: persistTagMutation_def add_item_tag_def cast_uuid_def go_result set_loadTagIDs split: if_split_asm)
  next
    case False
    then have "TagIDs t = TagIDs s" using apply_action_frame [OF t(1)] by simp
    moreover have "D' = D" using False assms(1) by (auto simp: persistTagMutation_def split: option.split_asm)
    ultimately show ?thesis using assms(3) by simp
  qed
  then show ?thesis using apply_action_tags [OF t(1) ok] table t(2)
    by (intro sorted_distinct_set_unique) (simp_all add: tags_ok_def distinct_loadTagIDs, simp_all add: loadTagIDs_def)
qed

text \<open>What reading shows of a story is what the transaction of a command reads, but for the update time of a story without a row.\<close>

lemma state_read:
  assumes "resolveTarget E D userID storyID = Inr (i, rv)" "cast_uuid E userID = Inr u" "loadState (ensureState E D u i now) u storyID i = Inr current"
    and "validateIdentifier E userID ''user ID'' = None" "validateIdentifier E storyID ''story ID'' = None"
  shows "\<exists>s0 t. fst (store_State E Commits userID storyID now D) = Inr s0 \<and> current = s0\<lparr>UpdatedAt := t\<rparr>"
proof (cases "map_of (db_states D) (u, i)")
  case None
  then have "current = DefaultState storyID now\<lparr>TagIDs := loadTagIDs D u i, UpdatedAt := pg_time E now\<rparr>"
    using assms(3) by (simp add: loadState_def ensureState_def update_conv' loadTagIDs_def scanState_def default_row_def DefaultState_def)
  then show ?thesis using None assms by (auto simp: store_State_def run_tx_def state_tx_def loadState_def)
next
  case (Some row)
  then have "ensureState E D u i now = D" by (simp add: ensureState_present)
  then show ?thesis using Some assms by (intro exI [of _ current] exI [of _ "UpdatedAt current"]) (simp add: store_State_def run_tx_def state_tx_def)
qed

text \<open>
  C3. The store implements the reading state machine. When a command (whose tag, if it has one, is written as the database writes it) is
  accepted and was not recorded before, then the state that reading the story showed just before had the version the command expected, \<open>Apply\<close>
  accepts the command on that state, and from then on reading the story shows the result of \<open>Apply\<close>, tags included, at the
  resolution of the database. Exactly one mutation is recorded, under the command's idempotency key and with that result, and the states and tags of all other
  stories and owners are as they were.
\<close>

theorem mutate_refines:
  assumes inv: "db_inv E D" and mutated: "Mutate E fate c now D = (Inr r, D')"
    and new: "res_MutationID r \<notin> mut_id ` set (db_mutations D)"
    and canonical: "\<And>tag. cmd_TagID c = Some tag \<Longrightarrow> pg_uuid E tag = Some tag"
  shows "\<exists>s0 m u i. fst (store_State E Commits (cmd_UserID c) (cmd_StoryID c) now D) = Inr s0
    \<and> Version s0 = cmd_ExpectedVersion c \<and> Apply s0 c now = Inr (res_State r)
    \<and> fst (store_State E Commits (cmd_UserID c) (cmd_StoryID c) now' D') = Inr (resolved E (res_State r))
    \<and> db_mutations D' = db_mutations D @ [m] \<and> mut_id m = res_MutationID r \<and> mut_type m = cmd_Action c
    \<and> mut_idempotency_key m = cmd_IdempotencyKey c \<and> mut_after_state m = res_State r \<and> mut_undone_at m = None
    \<and> (\<forall>k. k \<noteq> (u, i) \<longrightarrow> map_of (db_states D') k = map_of (db_states D) k)
    \<and> filter (\<lambda>(u', i', tag). \<not> (u' = u \<and> i' = i)) (db_item_tags D') = filter (\<lambda>(u', i', tag). \<not> (u' = u \<and> i' = i)) (db_item_tags D)"
proof -
  have body: "mutateTx E c None now D = Inr (D', r)" using run_tx_Inr mutated unfolding Mutate_def by metis
  then show ?thesis
  proof (rule mutateTx_Inr, goal_cases)
    case (1 i rv u story current D0)
    have rec: "apply_and_record E D0 c u story i current None now = Inr (D', r)"
      using 1(5,7) new by (auto elim!: existingMutation_Some dest: find_SomeD)
    have ids: "validateIdentifier E (cmd_UserID c) ''user ID'' = None" "validateIdentifier E (cmd_StoryID c) ''story ID'' = None"
      using 1(1) by (auto simp: validateCommand_def go_result)
    obtain s0 t where s0: "fst (store_State E Commits (cmd_UserID c) (cmd_StoryID c) now D) = Inr s0" "current = s0\<lparr>UpdatedAt := t\<rparr>"
      using state_read [OF 1(2,3) 1(6) [unfolded 1(5)] ids] by blast
    have tags0: "TagIDs current = loadTagIDs D0 u i" using 1(6) by (auto simp: loadState_def split: option.split_asm)
    have story: "StoryID current = cmd_StoryID c" using 1(6) by (auto simp: loadState_def scanState_def split: option.split_asm)
    have dist: "distinct (db_item_tags D0)" using inv 1(5) by (simp add: db_inv_defs)
    note target = 1(2,3,5)
    from rec show ?thesis
    proof (rule apply_and_record_Inr, goal_cases)
      case (1 nxt m)
      obtain D1 where D1: "persistTagMutation E (D0\<lparr>db_states := db_states D'\<rparr>) c u i = Inr D1" "db_item_tags D' = db_item_tags D1" using 1(24) by blast
      have "loadTagIDs D' u i = TagIDs nxt"
        using persistTagMutation_follows [OF D1(1) 1(2) _ _ canonical] tags0 dist D1(2) by (simp add: loadTagIDs_def)
      then have "loadState D' u (cmd_StoryID c) i = Inr (resolved E nxt)"
        using loadState_update [OF 1(18)] scan_resolved [where E = E and s = nxt] Apply_StoryID [OF 1(2)] story by simp
      then have shown: "fst (store_State E Commits (cmd_UserID c) (cmd_StoryID c) now' D') = Inr (resolved E (res_State r))"
        using ids target 1(14,19-21) resolveTarget_cong [of D' D] by (simp add: store_State_def run_tx_def state_tx_def)
      have others: "map_of (db_states D') k = map_of (db_states D) k" if "k \<noteq> (u, i)" for k
        using that 1(18) target(3) by (simp add: update_conv' ensureState_def split: option.split)
      have "filter (\<lambda>(u', i', tag). \<not> (u' = u \<and> i' = i)) (db_item_tags D') = filter (\<lambda>(u', i', tag). \<not> (u' = u \<and> i' = i)) (db_item_tags D)"
        using persistTagMutation_other [OF D1(1)] D1(2) target(3) by simp
      moreover have "Version s0 = cmd_ExpectedVersion c" "Apply s0 c now = Inr (res_State r)" using 1(1,2,14) s0(2) by (simp_all add: Apply_UpdatedAt)
      ultimately show ?thesis using s0(1) shown others 1(3,4,7,9,10,11,14) target(3)
        by (intro exI [of _ s0] exI [of _ m] exI [of _ u] exI [of _ i]) simp
    qed
  qed
qed

theorem mutate_refines_witness:
  "fst (store_State pg_sample Commits ''owner'' ''story'' (clock_2024 + second) dismissed_db) = Inr (resolved pg_sample (res_State dismissed_result))"
proof -
  have inv: "db_inv pg_sample db_sample" by (simp add: db_sample_inv pg_sample_def)
  have new: "res_MutationID dismissed_result \<notin> mut_id ` set (db_mutations db_sample)" by (simp add: db_sample_def)
  from mutate_refines [OF inv dismissed_sample new, of "clock_2024 + second"] show ?thesis by (auto simp: sample_command_def)
qed

text \<open>
  C6. Undo takes a mutation back: within ten seconds of an accepted new command, with no command in
  between, undoing it succeeds; the story is in the state that reading it before the command showed,
  with the version two higher and a new update time, its tags and the feedback table are what they
  were, and no other story's state has changed.
\<close>

theorem undo_restores:
  assumes laws: "pg_laws E" and inv: "db_inv E D"
    and before: "fst (store_State E Commits (cmd_UserID c) (cmd_StoryID c) now D) = Inr s0"
    and mutated: "Mutate E fate c now D = (Inr r, D1)"
    and new: "res_MutationID r \<notin> mut_id ` set (db_mutations D)"
    and version: "cmd_ExpectedVersion c + 1 < max_int64"
    and later: "now \<le> now'" "now' \<le> pg_time E (now + undoWindow)"
  shows "\<exists>r2 D2 key. Undo E Commits (cmd_UserID c) (cmd_StoryID c) (res_MutationID r) now' D1 = (Inr r2, D2)
    \<and> res_State r2 = s0\<lparr>Version := Version s0 + 2, UpdatedAt := now'\<rparr>
    \<and> fst (store_State E Commits (cmd_UserID c) (cmd_StoryID c) now' D2)
        = Inr (s0\<lparr>Version := Version s0 + 2, UpdatedAt := pg_time E now'\<rparr>)
    \<and> set (db_item_tags D2) = set (db_item_tags D) \<and> db_feedback D2 = db_feedback D
    \<and> (\<forall>k. k \<noteq> key \<longrightarrow> map_of (db_states D2) k = map_of (db_states D) k)"
proof -
  have body: "mutateTx E c None now D = Inr (D1, r)" using run_tx_Inr mutated unfolding Mutate_def by metis
  note read = store_State_Inr [OF before]
  from body show ?thesis
  proof (rule mutateTx_Inr, goal_cases)
    case (1 i rv u story current D0)
    have rec: "apply_and_record E D0 c u story i current None now = Inr (D1, r)"
      using 1(5,7) new by (auto elim!: existingMutation_Some dest: find_SomeD)
    obtain row where row: "map_of (db_states D0) (u, i) = Some row" using ensureState_row 1(5) by blast
    have cur: "current = scanState row (cmd_StoryID c)\<lparr>TagIDs := loadTagIDs D0 u i\<rparr>"
      using 1(6) row by (simp add: loadState_def)
    have tagsD: "loadTagIDs D0 u i = loadTagIDs D u i" using 1(5) by (simp add: loadTagIDs_def)
    note shown = state_tx_ensure [OF 1(2,3) row [unfolded 1(5)] read [THEN conjunct1]]
    have inv0: "db_inv E D0" using inv 1(5) by (simp add: ensureState_inv)
    have target: "resolveTarget E D0 (cmd_UserID c) (cmd_StoryID c) = Inr (i, rv)"
      using 1(2,5) resolveTarget_cong [of D0 D] by simp
    have expected: "Version current = cmd_ExpectedVersion c"
      using rec by (rule apply_and_record_Inr)
    have v: "0 \<le> Version current" "Version current + 1 < max_int64" "Version s0 = Version current"
      using 1(1) version expected cur shown
      by (auto simp: validateCommand_def go_result scanState_def split: if_splits)
    from apply_then_undo [OF laws inv0 row cur rec target 1(3) v(1,2) later]
    obtain r2 D2 where undo: "undo_tx E (cmd_UserID c) (cmd_StoryID c) (res_MutationID r) now' D1 = Inr (D2, r2)"
      "res_State r2 = s0\<lparr>Version := Version s0 + 2, UpdatedAt := now'\<rparr>"
      "db_states D2 = AList.update (u, i) (row\<lparr>row_version := Version s0 + 2, row_updated_at := pg_time E now'\<rparr>) (db_states D0)"
      "set (db_item_tags D2) = set (db_item_tags D)" "db_feedback D2 = db_feedback D"
      "db_users D2 = db_users D" "db_clusters D2 = db_clusters D" "db_items D2 = db_items D"
      using shown tagsD v(3) 1(5) by auto
    have "uuid_ok E (res_MutationID r)"
      using rec by (rule apply_and_record_Inr) (use laws in \<open>simp add: pg_laws_def\<close>)
    then have call: "Undo E Commits (cmd_UserID c) (cmd_StoryID c) (res_MutationID r) now' D1 = (Inr r2, D2)"
      using undo(1) read by (simp add: Undo_def run_tx_def validateIdentifier_def)
    have "db_inv E D2" using undo_tx_inv [OF mutateTx_inv [OF inv body] undo(1)] .
    then have "loadTagIDs D2 u i = loadTagIDs D u i"
      using undo(4) inv by (intro loadTagIDs_set_cong) (simp_all add: db_inv_defs)
    then have "fst (store_State E Commits (cmd_UserID c) (cmd_StoryID c) now' D2)
        = Inr (s0\<lparr>Version := Version s0 + 2, UpdatedAt := pg_time E now'\<rparr>)"
      using read 1(2,3) undo(6-8) loadState_update [OF undo(3)] shown resolveTarget_cong [of D2 D]
      by (simp add: store_State_def run_tx_def state_tx_def) (simp add: scanState_def)
    moreover have "\<forall>k. k \<noteq> (u, i) \<longrightarrow> map_of (db_states D2) k = map_of (db_states D) k"
      using undo(3) 1(5) by (simp add: update_conv' ensureState_def split: option.split)
    ultimately show ?thesis using call undo(2,4,5) by blast
  qed
qed

theorem undo_restores_witness:
  "\<exists>r2 D2. Undo pg_sample Commits ''owner'' ''story'' ''m0'' (clock_2024 + second) dismissed_db = (Inr r2, D2)
     \<and> res_State r2 = DefaultState ''story'' clock_2024
         \<lparr>TagIDs := [''tag''], Version := 2, UpdatedAt := clock_2024 + second\<rparr> \<and> db_feedback D2 = []"
proof -
  have before: "fst (store_State pg_sample Commits (cmd_UserID (sample_command ActionDismiss))
      (cmd_StoryID (sample_command ActionDismiss)) clock_2024 db_sample) = Inr (DefaultState ''story'' clock_2024\<lparr>TagIDs := [''tag'']\<rparr>)"
    by code_simp
  have inv: "db_inv pg_sample db_sample" by (simp add: db_sample_inv pg_sample_def)
  have new: "res_MutationID dismissed_result \<notin> mut_id ` set (db_mutations db_sample)" by (simp add: db_sample_def)
  have version: "cmd_ExpectedVersion (sample_command ActionDismiss) + 1 < max_int64"
    by (simp add: sample_command_def max_int64_def)
  have deadline: "clock_2024 + second \<le> pg_time pg_sample (clock_2024 + undoWindow)" by code_simp
  from undo_restores [OF pg_sample_laws inv before dismissed_sample new version _ deadline]
  obtain r2 D2 where "Undo pg_sample Commits ''owner'' ''story'' ''m0'' (clock_2024 + second) dismissed_db = (Inr r2, D2)"
    and "res_State r2 = DefaultState ''story'' clock_2024\<lparr>TagIDs := [''tag''],
           Version := Version (DefaultState ''story'' clock_2024\<lparr>TagIDs := [''tag'']\<rparr>) + 2, UpdatedAt := clock_2024 + second\<rparr>"
    and "db_feedback D2 = db_feedback db_sample"
    by (auto simp: sample_command_def dismissed_ok)
  then show ?thesis by (auto simp: db_sample_def DefaultState_def)
qed

section \<open>Undoing twice, and bulk commands\<close>

lemma find_map_undone:
  "find (\<lambda>x. mut_id x = mid \<and> mut_user_id x = u \<and> mut_item_id x = i) (map (mark_undone E mid now) ms)
   = map_option (mark_undone E mid now) (find (\<lambda>x. mut_id x = mid \<and> mut_user_id x = u \<and> mut_item_id x = i) ms)"
  by (induction ms) auto

lemma insert_item_tags_frame: "insert_item_tags E D u i ts = Inr D' \<Longrightarrow> \<exists>tags. D' = D\<lparr>db_item_tags := tags\<rparr>"
proof (induction ts arbitrary: D)
  case Nil
  then show ?case by (auto intro: exI [of _ "db_item_tags D"])
next
  case (Cons t ts)
  then show ?case by (fastforce simp: go_result split: if_splits)
qed

lemma restoreTags_frame: "restoreTags E D u i ts = Inr D' \<Longrightarrow> \<exists>tags. D' = D\<lparr>db_item_tags := tags\<rparr>"
  by (fastforce simp: restoreTags_def split: if_splits dest!: insert_item_tags_frame)

lemma write_undo_frame:
  assumes "write_undo E D u i mid s now = Inr D'"
  shows "db_users D' = db_users D" "db_clusters D' = db_clusters D" "db_items D' = db_items D"
    "db_states D' = AList.update (u, i) (row_of_state E s) (db_states D)"
    "db_mutations D' = map (mark_undone E mid now) (db_mutations D)"
  using assms
  by (auto elim!: write_undo_Inr dest!: restoreTags_frame persistState_Inr
        simp: set_undone_def delete_feedback_def split: if_splits)

lemma undo_found_effect:
  "undo_found E user item storyID mutationID mid current now D m = Inr (D', r) \<Longrightarrow>
   (D' = D \<and> mut_undone_at m \<noteq> None \<or> (\<exists>s. write_undo E D user item mid s now = Inr D'))
   \<and> res_UndoDeadline r = mut_undo_deadline m"
  by (auto simp: undo_found_def go_result Let_def split: if_splits)

text \<open>
  Undo is idempotent: after a successful undo, undoing the same mutation again, at any time,
  succeeds with the story's current state and changes nothing.
\<close>

lemma undo_idempotent:
  assumes "Undo E fate userID storyID mutationID now D = (Inr r, D')"
  shows "\<exists>r'. Undo E Commits userID storyID mutationID now' D' = (Inr r', D')
    \<and> res_MutationID r' = mutationID \<and> res_UndoDeadline r' = res_UndoDeadline r"
proof -
  have valid: "or_else (validateIdentifier E userID ''user ID'')
      (or_else (validateIdentifier E storyID ''story ID'') (validateIdentifier E mutationID ''mutation ID'')) = None"
    and body: "undo_tx E userID storyID mutationID now D = Inr (D', r)"
    using assms by (auto simp: Undo_def split: option.split_asm dest: run_tx_Inr)
  from body show ?thesis
  proof (rule undo_tx_Inr, goal_cases)
    case (1 i rv u current mid m)
    note base = 1(1-5)
    have how: "D' = D \<and> mut_undone_at m \<noteq> None \<or> (\<exists>s. write_undo E D u i mid s now = Inr D')"
      and r: "res_UndoDeadline r = mut_undo_deadline m"
      using undo_found_effect [OF 1(6)] by auto
    have "\<exists>cur m'. resolveTarget E D' userID storyID = Inr (i, rv) \<and> loadState D' u storyID i = Inr cur
      \<and> find (\<lambda>x. mut_id x = mid \<and> mut_user_id x = u \<and> mut_item_id x = i) (db_mutations D') = Some m'
      \<and> mut_undone_at m' \<noteq> None \<and> mut_undo_deadline m' = mut_undo_deadline m"
      using how
    proof (elim disjE exE conjE)
      fix s assume w: "write_undo E D u i mid s now = Inr D'"
      note frame = write_undo_frame [OF w]
      have "mut_id m = mid" using find_SomeD [OF base(5)] by simp
      then show ?thesis
        using base frame resolveTarget_cong [of D' D]
        by (intro exI [of _ "scanState (row_of_state E s) storyID\<lparr>TagIDs := loadTagIDs D' u i\<rparr>"] exI [of _ "mark_undone E mid now m"])
          (simp add: find_map_undone loadState_update [OF frame(4)] mark_undone_def)
    qed (use base in auto)
    then have "\<exists>r'. undo_tx E userID storyID mutationID now' D' = Inr (D', r') \<and> res_MutationID r' = mutationID
        \<and> res_UndoDeadline r' = mut_undo_deadline m"
      using base(2,4) by (auto simp: undo_tx_def undo_found_def)
    then show ?thesis using valid r by (auto simp: Undo_def run_tx_def)
  qed
qed

definition undone_db :: db where
  "undone_db = snd (Undo pg_sample Commits ''owner'' ''story'' ''m0'' (clock_2024 + second) dismissed_db)"

lemma undo_idempotent_witness:
  "\<exists>r'. Undo pg_sample Commits ''owner'' ''story'' ''m0'' (clock_2024 + hour) undone_db = (Inr r', undone_db)"
proof -
  have "\<not> isl (fst (Undo pg_sample Commits ''owner'' ''story'' ''m0'' (clock_2024 + second) dismissed_db))"
    by code_simp
  then have "Undo pg_sample Commits ''owner'' ''story'' ''m0'' (clock_2024 + second) dismissed_db =
      (Inr (projr (fst (Undo pg_sample Commits ''owner'' ''story'' ''m0'' (clock_2024 + second) dismissed_db))), undone_db)"
    by (simp add: undone_db_def prod_eq_iff)
  from undo_idempotent [OF this] show ?thesis by blast
qed

text \<open>What later mutations may change: the journal only grows, no state row disappears.\<close>

definition extends :: "db \<Rightarrow> db \<Rightarrow> bool" where
  "extends D D' \<longleftrightarrow> db_users D' = db_users D \<and> db_clusters D' = db_clusters D \<and> db_items D' = db_items D
     \<and> (\<exists>ms. db_mutations D' = db_mutations D @ ms)
     \<and> (\<forall>k row. map_of (db_states D) k = Some row \<longrightarrow> (\<exists>row'. map_of (db_states D') k = Some row'))"

lemma extends_refl: "extends D D"
  by (simp add: extends_def)

lemma extends_trans: "extends D1 D2 \<Longrightarrow> extends D2 D3 \<Longrightarrow> extends D1 D3"
  unfolding extends_def by (metis append.assoc)

lemma ensureState_extends: "extends D (ensureState E D u i now)"
  by (auto simp: extends_def) (auto simp: ensureState_def update_conv' split: option.split)

lemma mutateTx_extends: "mutateTx E c bulk now D = Inr (D', r) \<Longrightarrow> extends D D'"
proof (rule mutateTx_Inr, assumption, goal_cases)
  case (1 item rv user story current D0)
  have "extends D D0" using 1 ensureState_extends by simp
  moreover have "extends D0 D'"
    using 1(8)
  proof (elim disjE conjE)
    assume "apply_and_record E D0 c user story item current bulk now = Inr (D', r)"
    then show ?thesis by (rule apply_and_record_Inr) (auto simp: extends_def update_conv')
  qed (simp add: extends_refl)
  ultimately show ?case by (rule extends_trans)
qed

lemma mutate_all_extends: "mutate_all E f bulk now xs D = Inr (D', rs) \<Longrightarrow> extends D D'"
  by (induction xs arbitrary: D rs)
    (auto simp: go_result extends_refl dest!: mutateTx_extends intro: extends_trans)

lemma mutateTx_replay_later:
  assumes "mutateTx E c bulk now D = Inr (D1, r)" and "extends D1 D'"
  shows "\<exists>r'. mutateTx E c bulk' now' D' = Inr (D', r') \<and> res_MutationID r' = res_MutationID r"
  using assms(1)
proof (rule mutateTx_recorded, goal_cases)
  case (1 user story item rv row m current)
  obtain row' ms where row': "map_of (db_states D') (user, item) = Some row'" and ms: "db_mutations D' = db_mutations D1 @ ms"
    using assms(2) 1(5) unfolding extends_def by blast
  have "resolveTarget E D' (cmd_UserID c) (cmd_StoryID c) = Inr (item, rv)"
    using 1(2) assms(2) resolveTarget_cong [of D' D1] by (simp add: extends_def)
  from mutateTx_found [OF 1(1) this 1(3,4) row' _ 1(8,9), of bulk' now'] 1(7,10) ms show ?case
    by (auto simp: find_append)
qed

lemma mutate_all_replay:
  assumes "mutate_all E f bulk now xs D = Inr (D1, rs)" and "extends D1 D'"
  shows "\<exists>rs'. mutate_all E f bulk' now' xs D' = Inr (D', rs') \<and> map res_MutationID rs' = map res_MutationID rs"
  using assms(1)
proof (induction xs arbitrary: D rs)
  case (Cons x xs)
  then obtain Dx r rs1 where x: "mutateTx E (f x) bulk now D = Inr (Dx, r)"
    and xs: "mutate_all E f bulk now xs Dx = Inr (D1, rs1)" and rs: "rs = r # rs1"
    by (auto simp: go_result)
  have "extends Dx D'" using mutate_all_extends [OF xs] assms(2) by (rule extends_trans)
  from mutateTx_replay_later [OF x this, of bulk' now'] Cons.IH [OF xs] rs show ?case by auto
qed simp

lemma mutate_all_length: "mutate_all E f bulk now xs D = Inr (D', rs) \<Longrightarrow> length rs = length xs"
  by (induction xs arbitrary: D rs) (auto simp: go_result)

text \<open>
  A bulk command is all or nothing: if it fails the database is unchanged; if it succeeds it has
  one result for each of its 1 to 200 distinct stories, in their order, and sending it again returns
  the same mutation identifiers and changes nothing.
\<close>

lemma bulk_atomic:
  "(\<forall>e. fst (BulkMutate E fate b now D) = Inl e \<longrightarrow> snd (BulkMutate E fate b now D) = D)
   \<and> (\<forall>r D'. BulkMutate E fate b now D = (Inr r, D') \<longrightarrow>
        bulk_AffectedCount r = length (bc_Items b) \<and> length (bulk_Mutations r) = length (bc_Items b)
        \<and> 1 \<le> length (bc_Items b) \<and> length (bc_Items b) \<le> 200 \<and> distinct (map item_StoryID (bc_Items b))
        \<and> (\<exists>r'. BulkMutate E Commits b now' D' = (Inr r', D') \<and> bulk_BulkID r' = bulk_BulkID r
              \<and> map res_MutationID (bulk_Mutations r') = map res_MutationID (bulk_Mutations r)))"
proof (cases "validate_items E (bc_UserID b) (bc_IdempotencyKey b) (bc_ExpectedCount b) (bc_Items b)")
  case (Some e)
  then show ?thesis by (simp add: BulkMutate_def)
next
  case None
  let ?id = "uuid_sha1 E (bc_UserID b @ '':'' @ bc_IdempotencyKey b)"
  have items: "1 \<le> length (bc_Items b)" "length (bc_Items b) \<le> 200" "distinct (map item_StoryID (bc_Items b))"
    using None by (auto simp: validate_items_def go_result Suc_le_eq split: if_splits)
  have run: "BulkMutate E ft b t X = run_tx ft ErrTx (bulk_tx E (bulk_item_command b) ?id t (bc_Items b)) X" for ft t X
    using None by (simp add: BulkMutate_def Let_def)
  have ok: "bulk_AffectedCount r = length (bc_Items b) \<and> length (bulk_Mutations r) = length (bc_Items b)
      \<and> (\<exists>r'. BulkMutate E Commits b now' D' = (Inr r', D') \<and> bulk_BulkID r' = bulk_BulkID r
              \<and> map res_MutationID (bulk_Mutations r') = map res_MutationID (bulk_Mutations r))"
    if "BulkMutate E fate b now D = (Inr r, D')" for r D'
  proof -
    have "bulk_tx E (bulk_item_command b) ?id now (bc_Items b) D = Inr (D', r)"
      using that run_tx_Inr unfolding run by metis
    then obtain rs where rs: "mutate_all E (bulk_item_command b) (Some ?id) now (bc_Items b) D = Inr (D', rs)"
      and r: "r = bulk_result ?id (length (bc_Items b)) rs"
      by (auto simp: bulk_tx_def go_result)
    from mutate_all_replay [OF rs extends_refl, of "Some ?id" now'] mutate_all_length [OF rs] r
    show ?thesis by (auto simp: run run_tx_def bulk_tx_def bulk_result_def)
  qed
  then show ?thesis
    using items bulk.run_error [of fate E "bulk_item_command b" ?id now "bc_Items b" D] by (auto simp: run)
qed

definition bulk_sample :: bulk_command where
  "bulk_sample =
     \<lparr>bc_Action = ActionArchive, bc_DismissedReason = None, bc_ExpectedCount = 1,
      bc_IdempotencyKey = ''0123456789abcdef'', bc_Items = [\<lparr>item_StoryID = ''story'', item_Version = 0\<rparr>],
      bc_SnoozedUntil = None, bc_TagID = None, bc_UserID = ''owner''\<rparr>"

definition archived_db :: db where
  "archived_db = snd (BulkMutate pg_sample Commits bulk_sample clock_2024 db_sample)"

lemma bulk_atomic_witness:
  "\<exists>r'. BulkMutate pg_sample Commits bulk_sample (clock_2024 + hour) archived_db = (Inr r', archived_db)"
proof -
  have "\<not> isl (fst (BulkMutate pg_sample Commits bulk_sample clock_2024 db_sample))"
    by code_simp
  then have "BulkMutate pg_sample Commits bulk_sample clock_2024 db_sample =
      (Inr (projr (fst (BulkMutate pg_sample Commits bulk_sample clock_2024 db_sample))), archived_db)"
    by (simp add: archived_db_def prod_eq_iff)
  then show ?thesis
    using bulk_atomic [of pg_sample Commits bulk_sample clock_2024 db_sample "clock_2024 + hour"] by blast
qed

section \<open>A returned snooze that is undone\<close>

text \<open>
  A return that was undone is never repeated: the idempotency key of a return is made of the item
  and the return time alone, so for a story that is due again with a recorded, undone return the job
  finds the old record, reports the story as returned and writes an outbox event, but leaves every
  state row, and so the snooze, as it is.
\<close>

lemma undone_return_stays_snoozed:
  assumes "due_snoozes E D now limit = [d]" and "1 \<le> limit" and "limit \<le> 500"
    and "validateCommand E (return_command d) = None"
    and "resolveTarget E D (due_userID d) (due_storyID d) = Inr (due_itemID d, rv)"
    and "pg_uuid E (due_userID d) = Some (due_userID d)" and "pg_uuid E (due_storyID d) = Some story"
    and "map_of (db_states D) (due_userID d, due_itemID d) = Some row"
    and "find (\<lambda>m. mut_user_id m = due_userID d \<and> mut_idempotency_key m = return_key d) (db_mutations D) = Some m"
    and "mut_item_id m = due_itemID d" and "mut_type m = ActionReturnSnoozed" and "mut_undone_at m \<noteq> None"
  shows "\<exists>D'. ReturnDueSnoozes E Commits limit now D = (Inr 1, D') \<and> db_states D' = db_states D
     \<and> length (db_outbox D') = Suc (length (db_outbox D))"
proof -
  have "\<exists>r. mutateTx E (return_command d) None now D = Inr (D, r)"
    using mutateTx_found [of E "return_command d" D "due_itemID d" rv "due_userID d" story row m None now] assms
    by (auto simp: return_command_def cast_uuid_def)
  then show ?thesis
    using assms(1-3)
    by (auto simp: ReturnDueSnoozes_def run_tx_def return_tx_def record_return_def)
qed

text \<open>A story snoozed for an hour, returned when the hour was over, and the return undone a second later.\<close>

definition db_return_undone :: db where
  "db_return_undone =
     db_sample\<lparr>
       db_states := [((''owner'', ''item''),
         (row_of_state pg_sample snoozed_sample)\<lparr>row_version := 3, row_updated_at := clock_2024 + hour + second\<rparr>)],
       db_mutations :=
         [\<lparr>mut_id = ''m1'', mut_user_id = ''owner'', mut_item_id = ''item'', mut_type = ActionReturnSnoozed,
           mut_before_state = snoozed_sample,
           mut_after_state = DefaultState ''story'' (clock_2024 + hour)\<lparr>Version := 2\<rparr>,
           mut_idempotency_key = ''return-snooze:item:1709168400000000000'', mut_bulk_id = None,
           mut_undo_deadline = clock_2024 + hour + undoWindow,
           mut_undone_at = Some (clock_2024 + hour + second), mut_created_at = clock_2024 + hour\<rparr>],
       db_seq := 2\<rparr>"

lemma undone_return_stays_snoozed_witness:
  "\<exists>D'. ReturnDueSnoozes pg_sample Commits 10 (clock_2024 + 2 * hour) db_return_undone = (Inr 1, D')
     \<and> db_states D' = db_states db_return_undone"
proof -
  let ?ds = "due_snoozes pg_sample db_return_undone (clock_2024 + 2 * hour) 10"
  let ?d = "hd ?ds"
  have len: "length ?ds = 1" by code_simp
  have "map_option (\<lambda>m. (mut_item_id m, mut_type m, Option.is_none (mut_undone_at m)))
      (find (\<lambda>m. mut_user_id m = due_userID ?d \<and> mut_idempotency_key m = return_key ?d) (db_mutations db_return_undone))
    = Some (due_itemID ?d, ActionReturnSnoozed, False)"
    by code_simp
  then obtain m where m: "find (\<lambda>m. mut_user_id m = due_userID ?d \<and> mut_idempotency_key m = return_key ?d)
        (db_mutations db_return_undone) = Some m"
      "mut_item_id m = due_itemID ?d" "mut_type m = ActionReturnSnoozed" "mut_undone_at m \<noteq> None"
    by (auto simp: Option.is_none_def)
  have facts: "validateCommand pg_sample (return_command ?d) = None"
    "resolveTarget pg_sample db_return_undone (due_userID ?d) (due_storyID ?d) = Inr (due_itemID ?d, ''revision'')"
    "pg_uuid pg_sample (due_userID ?d) = Some (due_userID ?d)" "pg_uuid pg_sample (due_storyID ?d) = Some ''story''"
    "\<not> Option.is_none (map_of (db_states db_return_undone) (due_userID ?d, due_itemID ?d))"
    by code_simp+
  obtain row where row: "map_of (db_states db_return_undone) (due_userID ?d, due_itemID ?d) = Some row"
    using facts(5) by (auto simp: Option.is_none_def)
  have one: "?ds = [?d]" using len by (cases ?ds) auto
  from undone_return_stays_snoozed [OF one _ _ facts(1-4) row m] show ?thesis by auto
qed

end
