(* ===== verification/Scheduler.thy ===== *)
theory Scheduler
  imports Postgres "HOL-Library.Product_Lexorder"
begin

text \<open>
  The scheduler (\<open>src/internal/scheduler\<close>). \<open>schedule.go\<close>: when a schedule with a local time, a time
  zone and a set of weekdays is due next. \<open>reconciler.go\<close>: the periodic job that turns due instants
  into occurrences and enqueues them. A loaded location is a function from Unix seconds to the zone
  in force (offset and validity interval), the argument \<open>tz\<close> gives the locations that can be loaded.
  A calendar date is its day number, which the calendar maps one to one to year, month and day.
\<close>

section \<open>Local time\<close>

type_synonym location_db = "string \<Rightarrow> (int \<Rightarrow> int \<times> int \<times> int) option"

definition offset_at :: "(int \<Rightarrow> int \<times> int \<times> int) \<Rightarrow> int \<Rightarrow> int" where
  "offset_at z s = fst (z s)"

text \<open>Seconds since year 1 on the local clock.\<close>

definition local_seconds :: "(int \<Rightarrow> int \<times> int \<times> int) \<Rightarrow> time \<Rightarrow> int" where
  "local_seconds z t = t div second + offset_at z (unix_seconds t)"

definition local_day :: "(int \<Rightarrow> int \<times> int \<times> int) \<Rightarrow> time \<Rightarrow> int" where
  "local_day z t = local_seconds z t div 86400"

definition local_minute :: "(int \<Rightarrow> int \<times> int \<times> int) \<Rightarrow> time \<Rightarrow> int" where
  "local_minute z t = local_seconds z t mod 86400 div 60"

text \<open>\<open>time.Date\<close> in a location: the offset is looked up at the local reading taken as UTC, and again
  where that zone is not in force at the resulting instant.\<close>

definition time_date :: "(int \<Rightarrow> int \<times> int \<times> int) \<Rightarrow> int \<Rightarrow> int \<Rightarrow> time" where
  "time_date z day sec =
     (let unix = day * 86400 + sec - unix_epoch_seconds in
      case z unix of (off, start, stop) \<Rightarrow>
        let utc = unix - off;
            off' = (if off \<noteq> 0 \<and> (utc < start \<or> stop \<le> utc) then offset_at z utc else off)
        in (unix - off' + unix_epoch_seconds) * second)"

section \<open>Schedules\<close>

definition maxScheduleSearchDays :: nat where
  "maxScheduleSearchDays = 370"

record local_time =
  Hour :: int
  Minute :: int

record definition_rec =
  Timezone :: string
  LocalTime :: local_time
  ISOWeekdays :: "int list"

datatype sched_error =
    ErrTimezoneRequired | ErrClockRange | ErrNoWeekday | ErrWeekday int | ErrLocation string
  | ErrResolve | ErrNoOccurrence | ErrLocalClock | ErrEnqueue | ErrOccurrenceKey | ErrSchedTx

definition NewDefinition :: "location_db \<Rightarrow> string \<Rightarrow> local_time \<Rightarrow> int list \<Rightarrow> sched_error + definition_rec" where
  "NewDefinition tz timezone lt weekdays =
     (if timezone = [] then Inl ErrTimezoneRequired
      else if Hour lt < 0 \<or> Hour lt > 23 \<or> Minute lt < 0 \<or> Minute lt > 59 then Inl ErrClockRange
      else if weekdays = [] then Inl ErrNoWeekday
      else check (first_error (\<lambda>w. if w < 1 \<or> w > 7 then Some (ErrWeekday w) else None) weekdays)
        (case tz timezone of
           None \<Rightarrow> Inl (ErrLocation timezone)
         | Some _ \<Rightarrow> Inr \<lparr>Timezone = timezone, LocalTime = lt, ISOWeekdays = remdups weekdays\<rparr>))"

definition isoWeekday :: "int \<Rightarrow> int" where
  "isoWeekday w = (if w = 0 then 7 else w)"

text \<open>
  The minute-by-minute search of a local date: the first candidate on the date that shows the
  requested minute, otherwise the candidate with the smallest later minute.
\<close>

fun resolve_loop ::
    "(int \<Rightarrow> int \<times> int \<times> int) \<Rightarrow> int \<Rightarrow> int \<Rightarrow> time list \<Rightarrow> time \<Rightarrow> int \<Rightarrow> sched_error + time" where
  "resolve_loop z day requested [] firstAfterGap firstMinute =
     (if \<not> is_zero firstAfterGap then Inr firstAfterGap else Inl ErrResolve)"
| "resolve_loop z day requested (c # cs) firstAfterGap firstMinute =
     (if local_day z c \<noteq> day then resolve_loop z day requested cs firstAfterGap firstMinute
      else if local_minute z c = requested then Inr c
      else if local_minute z c > requested \<and> local_minute z c < firstMinute
      then resolve_loop z day requested cs c (local_minute z c)
      else resolve_loop z day requested cs firstAfterGap firstMinute)"

definition search_start :: "int \<Rightarrow> time" where
  "search_start day = day * 86400 * second - 14 * hour"

definition search_candidates :: "int \<Rightarrow> time list" where
  "search_candidates day = map (\<lambda>k. search_start day + int k * minute) [0..<3121]"

definition resolveLocalMinute ::
    "(int \<Rightarrow> int \<times> int \<times> int) \<Rightarrow> time \<Rightarrow> local_time \<Rightarrow> sched_error + time" where
  "resolveLocalMinute z localDate requested =
     (let day = local_day z localDate in
      resolve_loop z day (Hour requested * 60 + Minute requested) (search_candidates day) 0 (24 * 60))"

fun next_loop ::
    "(int \<Rightarrow> int \<times> int \<times> int) \<Rightarrow> definition_rec \<Rightarrow> time \<Rightarrow> int \<Rightarrow> nat list \<Rightarrow> sched_error + time" where
  "next_loop z def after day [] = Inl ErrNoOccurrence"
| "next_loop z def after day (dayOffset # rest) =
     (let localDate = time_date z (day + int dayOffset) (12 * 3600) in
      if isoWeekday (weekday_of_days (local_day z localDate)) \<notin> set (ISOWeekdays def)
      then next_loop z def after day rest
      else and_then (resolveLocalMinute z localDate (LocalTime def)) (\<lambda>candidate.
        if after < candidate then Inr candidate else next_loop z def after day rest))"

definition NextOccurrence :: "location_db \<Rightarrow> time \<Rightarrow> definition_rec \<Rightarrow> sched_error + time" where
  "NextOccurrence tz after def =
     (case tz (Timezone def) of
        None \<Rightarrow> Inl (ErrLocation (Timezone def))
      | Some z \<Rightarrow> next_loop z def after (local_day z after) [0..<maxScheduleSearchDays])"

section \<open>The tables\<close>

record schedule_row =
  sch_id :: string
  sch_timezone :: string
  sch_local_time :: string
  sch_days_of_week :: "int list"
  sch_enabled :: bool
  sch_catchup_policy :: string
  sch_catchup_grace :: int
  sch_next_due_at :: time
  sch_skip_next_at :: "time option"
  sch_paused_at :: "time option"
  sch_paused_until :: "time option"
  sch_version :: int
  sch_updated_at :: time

record occurrence_row =
  occ_id :: string
  occ_schedule_id :: string
  occ_scheduled_for :: time
  occ_local_date :: int
  occ_local_offset_seconds :: int
  occ_state :: string
  occ_trigger_type :: string
  occ_idempotency_key :: "string \<times> time"
  occ_river_job_id :: "int option"

record sched_db =
  sdb_schedules :: "schedule_row list"
  sdb_occurrences :: "occurrence_row list"
  sdb_seq :: nat

record due_schedule =
  ds_id :: string
  ds_timezone :: string
  ds_localTime :: local_time
  ds_weekdays :: "int list"
  ds_catchupPolicy :: string
  ds_catchupGrace :: duration
  ds_nextDueAt :: time
  ds_skipNextAt :: "time option"

record reconcile_result =
  LockAcquired :: bool
  OccurrencesCreated :: int
  JobsEnqueued :: int

section \<open>Reconciliation\<close>

definition parseLocalTime :: "string \<Rightarrow> sched_error + local_time" where
  "parseLocalTime v =
     (case split_byte CHR '':'' v of
        [h, m] \<Rightarrow>
          (case (atoi h, atoi m) of
             (Some hh, Some mm) \<Rightarrow> Inr \<lparr>Hour = hh, Minute = mm\<rparr>
           | _ \<Rightarrow> Inl ErrLocalClock)
      | _ \<Rightarrow> Inl ErrLocalClock)"

text \<open>State, trigger, whether to enqueue, and whether the one-time skip was used.\<close>

definition classifyOccurrence :: "due_schedule \<Rightarrow> time \<Rightarrow> time \<Rightarrow> string \<times> string \<times> bool \<times> bool" where
  "classifyOccurrence s scheduledFor now =
     (if ds_skipNextAt s = Some scheduledFor then (''skipped'', ''scheduled'', False, True)
      else if \<not> scheduledFor < now then (''due'', ''scheduled'', True, False)
      else if ds_catchupPolicy s = ''catch_up'' \<and> time_sub now scheduledFor \<le> ds_catchupGrace s
      then (''due'', ''catch_up'', True, False)
      else (''missed'', ''scheduled'', False, False))"

text \<open>
  The insert with \<open>on conflict (schedule_id, scheduled_for) do nothing\<close>; the row, and whether it is
  new. The idempotency key \<open>id:time\<close> is the pair of its parts.
\<close>

definition new_occurrence :: "pg \<Rightarrow> sched_db \<Rightarrow> due_schedule \<Rightarrow> (int \<Rightarrow> int \<times> int \<times> int) \<Rightarrow> time \<Rightarrow> string \<Rightarrow> string \<Rightarrow> occurrence_row" where
  "new_occurrence E D s z scheduledFor st trigger =
     \<lparr>occ_id = uuid_v7 E (sdb_seq D), occ_schedule_id = ds_id s, occ_scheduled_for = scheduledFor,
      occ_local_date = local_day z scheduledFor,
      occ_local_offset_seconds = offset_at z (unix_seconds scheduledFor), occ_state = st,
      occ_trigger_type = trigger, occ_idempotency_key = (ds_id s, scheduledFor), occ_river_job_id = None\<rparr>"

definition find_occurrence :: "sched_db \<Rightarrow> string \<Rightarrow> time \<Rightarrow> occurrence_row option" where
  "find_occurrence D sid t = find (\<lambda>oc. occ_schedule_id oc = sid \<and> occ_scheduled_for oc = t) (sdb_occurrences D)"

definition update_occurrence :: "string \<Rightarrow> (occurrence_row \<Rightarrow> occurrence_row) \<Rightarrow> sched_db \<Rightarrow> sched_db" where
  "update_occurrence oid f D =
     D\<lparr>sdb_occurrences := map (\<lambda>oc. if occ_id oc = oid \<and> occ_state oc = ''due'' then f oc else oc) (sdb_occurrences D)\<rparr>"

text \<open>
  The enqueuer is an interface of the package; its implementation is the argument \<open>enq\<close>: for an
  occurrence, a failure or the job's identifier and whether the job is new.
\<close>

definition finish_occurrence ::
    "(string \<Rightarrow> (int \<times> bool) option) \<Rightarrow> string \<times> string \<times> bool \<times> bool \<Rightarrow> occurrence_row \<Rightarrow> bool \<Rightarrow> sched_db
      \<Rightarrow> sched_error + (sched_db \<times> bool \<times> bool \<times> bool)" where
  "finish_occurrence enq cls row inserted D =
     (case cls of (st, trigger, shouldEnqueue, skipped) \<Rightarrow>
       if occ_state row \<noteq> ''due'' then Inr (D, inserted, False, skipped)
       else if \<not> shouldEnqueue
       then Inr (update_occurrence (occ_id row) (\<lambda>oc. oc\<lparr>occ_state := st, occ_trigger_type := trigger\<rparr>) D,
                 inserted, False, skipped)
       else (case enq (occ_id row) of
               None \<Rightarrow> Inl ErrEnqueue
             | Some (job, jobInserted) \<Rightarrow>
                 Inr (update_occurrence (occ_id row)
                        (\<lambda>oc. oc\<lparr>occ_state := ''enqueued'', occ_river_job_id := Some job\<rparr>) D,
                      inserted, jobInserted, skipped)))"

definition reconcileOccurrence ::
    "pg \<Rightarrow> location_db \<Rightarrow> (string \<Rightarrow> (int \<times> bool) option) \<Rightarrow> due_schedule \<Rightarrow> time \<Rightarrow> time \<Rightarrow> sched_db
      \<Rightarrow> sched_error + (sched_db \<times> bool \<times> bool \<times> bool)" where
  "reconcileOccurrence E tz enq s scheduledFor now D =
     (case tz (ds_timezone s) of
        None \<Rightarrow> Inl (ErrLocation (ds_timezone s))
      | Some z \<Rightarrow>
          let cls = classifyOccurrence s scheduledFor now in
          (case find_occurrence D (ds_id s) scheduledFor of
             Some row \<Rightarrow> finish_occurrence enq cls row False D
           | None \<Rightarrow>
               let row = new_occurrence E D s z scheduledFor (fst cls) (fst (snd cls)) in
               if occ_id row \<in> occ_id ` set (sdb_occurrences D) then Inl ErrOccurrenceKey
               else finish_occurrence enq cls row True
                 (D\<lparr>sdb_occurrences := sdb_occurrences D @ [row], sdb_seq := Suc (sdb_seq D)\<rparr>)))"

definition maximumOccurrencesPerScheduleRun :: nat where
  "maximumOccurrencesPerScheduleRun = 100"

definition reconciliationBatchSize :: nat where
  "reconciliationBatchSize = 100"

text \<open>The loop over the due instants of one schedule: next due time, created, enqueued, skip used.\<close>

fun schedule_loop ::
    "pg \<Rightarrow> location_db \<Rightarrow> (string \<Rightarrow> (int \<times> bool) option) \<Rightarrow> due_schedule \<Rightarrow> definition_rec \<Rightarrow> time
      \<Rightarrow> nat \<Rightarrow> time \<Rightarrow> sched_db \<Rightarrow> sched_error + (sched_db \<times> time \<times> int \<times> int \<times> bool)" where
  "schedule_loop E tz enq s def now 0 nextDueAt D = Inr (D, nextDueAt, 0, 0, False)"
| "schedule_loop E tz enq s def now (Suc n) nextDueAt D =
     (if now < nextDueAt then Inr (D, nextDueAt, 0, 0, False)
      else and_then (reconcileOccurrence E tz enq s nextDueAt now D) (\<lambda>(D1, created, enqueued, skipped).
           and_then (NextOccurrence tz nextDueAt def) (\<lambda>following.
           and_then (schedule_loop E tz enq s def now n following D1) (\<lambda>(D2, due, c, j, sk).
             Inr (D2, due, (if created then 1 else 0) + c, (if enqueued then 1 else 0) + j, skipped \<or> sk)))))"

definition advance_schedule :: "pg \<Rightarrow> string \<Rightarrow> time \<Rightarrow> time \<Rightarrow> bool \<Rightarrow> sched_db \<Rightarrow> sched_db" where
  "advance_schedule E sid due now clear D =
     D\<lparr>sdb_schedules := map (\<lambda>r. if sch_id r = sid
         then r\<lparr>sch_next_due_at := pg_time E due,
                sch_skip_next_at := (if clear then None else sch_skip_next_at r),
                sch_version := sch_version r + 1, sch_updated_at := pg_time E now\<rparr>
         else r) (sdb_schedules D)\<rparr>"

fun schedules_loop ::
    "pg \<Rightarrow> location_db \<Rightarrow> (string \<Rightarrow> (int \<times> bool) option) \<Rightarrow> time \<Rightarrow> due_schedule list \<Rightarrow> sched_db
      \<Rightarrow> sched_error + (sched_db \<times> int \<times> int)" where
  "schedules_loop E tz enq now [] D = Inr (D, 0, 0)"
| "schedules_loop E tz enq now (s # ss) D =
     and_then (NewDefinition tz (ds_timezone s) (ds_localTime s) (ds_weekdays s)) (\<lambda>def.
     and_then (schedule_loop E tz enq s def now maximumOccurrencesPerScheduleRun (ds_nextDueAt s) D)
       (\<lambda>(D1, due, c, j, sk).
     and_then (schedules_loop E tz enq now ss (advance_schedule E (ds_id s) due now sk D1)) (\<lambda>(D2, c2, j2).
       Inr (D2, c + c2, j + j2))))"

text \<open>Schedules whose pause has elapsed are resumed first.\<close>

definition resume_row :: "pg \<Rightarrow> time \<Rightarrow> schedule_row \<Rightarrow> schedule_row" where
  "resume_row E now r =
     (if sch_enabled r \<and> sch_paused_at r \<noteq> None
         \<and> (case sch_paused_until r of None \<Rightarrow> False | Some u \<Rightarrow> u \<le> pg_time E now)
      then r\<lparr>sch_paused_at := None, sch_paused_until := None, sch_version := sch_version r + 1,
             sch_updated_at := pg_time E now\<rparr>
      else r)"

definition resume_elapsed :: "pg \<Rightarrow> time \<Rightarrow> sched_db \<Rightarrow> sched_db" where
  "resume_elapsed E now D = D\<lparr>sdb_schedules := map (resume_row E now) (sdb_schedules D)\<rparr>"

definition due_rows :: "pg \<Rightarrow> string list \<Rightarrow> time \<Rightarrow> sched_db \<Rightarrow> schedule_row list" where
  "due_rows E scheduleIDs now D =
     take reconciliationBatchSize
       (sort_key (\<lambda>r. (sch_next_due_at r, sch_id r))
          (filter (\<lambda>r. sch_enabled r \<and> sch_paused_at r = None \<and> sch_next_due_at r \<le> pg_time E now
                       \<and> (scheduleIDs = [] \<or> sch_id r \<in> set scheduleIDs)) (sdb_schedules D)))"

definition scan_due :: "schedule_row \<Rightarrow> sched_error + due_schedule" where
  "scan_due r =
     and_then (parseLocalTime (sch_local_time r)) (\<lambda>lt.
       Inr \<lparr>ds_id = sch_id r, ds_timezone = sch_timezone r, ds_localTime = lt, ds_weekdays = sch_days_of_week r,
            ds_catchupPolicy = sch_catchup_policy r, ds_catchupGrace = wrap64 (sch_catchup_grace r * microsecond),
            ds_nextDueAt = sch_next_due_at r, ds_skipNextAt = sch_skip_next_at r\<rparr>)"

fun scan_all :: "schedule_row list \<Rightarrow> sched_error + due_schedule list" where
  "scan_all [] = Inr []"
| "scan_all (r # rs) = and_then (scan_due r) (\<lambda>s. and_then (scan_all rs) (\<lambda>ss. Inr (s # ss)))"

text \<open>The body of one run; without the advisory lock nothing happens.\<close>

definition reconcile_tx ::
    "pg \<Rightarrow> location_db \<Rightarrow> (string \<Rightarrow> (int \<times> bool) option) \<Rightarrow> string list \<Rightarrow> bool \<Rightarrow> time \<Rightarrow> sched_db
      \<Rightarrow> sched_error + (sched_db \<times> reconcile_result)" where
  "reconcile_tx E tz enq scheduleIDs acquired now D =
     (if \<not> acquired then Inr (D, \<lparr>LockAcquired = False, OccurrencesCreated = 0, JobsEnqueued = 0\<rparr>)
      else let D0 = resume_elapsed E now D in
        and_then (scan_all (due_rows E scheduleIDs now D0)) (\<lambda>ss.
        and_then (schedules_loop E tz enq now ss D0) (\<lambda>(D1, c, j).
          Inr (D1, \<lparr>LockAcquired = True, OccurrencesCreated = c, JobsEnqueued = j\<rparr>))))"

text \<open>Without the lock the transaction is rolled back and the call returns an empty result.\<close>

definition Reconcile ::
    "pg \<Rightarrow> location_db \<Rightarrow> (string \<Rightarrow> (int \<times> bool) option) \<Rightarrow> tx_fate \<Rightarrow> string list \<Rightarrow> bool \<Rightarrow> time \<Rightarrow> sched_db
      \<Rightarrow> (sched_error + reconcile_result) \<times> sched_db" where
  "Reconcile E tz enq fate scheduleIDs acquired now D =
     (if fate \<noteq> BeginFails \<and> \<not> acquired
      then (Inr \<lparr>LockAcquired = False, OccurrencesCreated = 0, JobsEnqueued = 0\<rparr>, D)
      else run_tx fate ErrSchedTx (reconcile_tx E tz enq scheduleIDs acquired now) D)"

section \<open>When a schedule is due\<close>

lemma local_minute_range: "0 \<le> local_minute z t \<and> local_minute z t < 1440"
proof -
  have "local_seconds z t mod 86400 < 86400" "0 \<le> local_seconds z t mod 86400" by simp_all
  then show ?thesis by (auto simp: local_minute_def)
qed

text \<open>What the search returns: a hit on the requested minute, or the smallest later minute without one.\<close>

lemma resolve_loop_Inr:
  assumes "resolve_loop z day req cs f fm = Inr t"
  shows "(t \<in> set cs \<and> local_day z t = day \<and> local_minute z t = req)
    \<or> ((\<forall>c\<in>set cs. local_day z c = day \<longrightarrow> local_minute z c \<noteq> req)
        \<and> (\<forall>c\<in>set cs. local_day z c = day \<and> req < local_minute z c \<longrightarrow> min fm (local_minute z t) \<le> local_minute z c)
        \<and> ((t = f \<and> f \<noteq> 0 \<and> (\<forall>c\<in>set cs. local_day z c = day \<and> req < local_minute z c \<longrightarrow> fm \<le> local_minute z c))
            \<or> (t \<in> set cs \<and> local_day z t = day \<and> req < local_minute z t \<and> local_minute z t < fm)))"
  using assms
proof (induction cs arbitrary: f fm)
  case Nil
  then show ?case by (auto simp: is_zero_def split: if_splits)
next
  case (Cons c cs)
  show ?case
  proof (cases "local_day z c = day \<and> local_minute z c = req")
    case True
    then show ?thesis using Cons.prems by auto
  next
    case miss: False
    show ?thesis
    proof (cases "local_day z c = day \<and> req < local_minute z c \<and> local_minute z c < fm")
      case True
      then have "resolve_loop z day req cs c (local_minute z c) = Inr t"
        using Cons.prems by auto
      from Cons.IH [OF this] True miss show ?thesis by auto
    next
      case False
      then have "resolve_loop z day req cs f fm = Inr t"
        using Cons.prems miss by (auto split: if_splits)
      from Cons.IH [OF this] False miss show ?thesis by auto
    qed
  qed
qed

lemma resolve_loop_hit:
  "c \<in> set cs \<Longrightarrow> local_day z c = day \<Longrightarrow> local_minute z c = req \<Longrightarrow>
   \<exists>t\<in>set cs. resolve_loop z day req cs f fm = Inr t \<and> local_day z t = day \<and> local_minute z t = req"
  by (induction cs arbitrary: f fm) auto

text \<open>The offsets the search window is made for: at most fourteen hours either way.\<close>

definition zone_ok :: "(int \<Rightarrow> int \<times> int \<times> int) \<Rightarrow> bool" where
  "zone_ok z \<longleftrightarrow> (\<forall>s. \<bar>offset_at z s\<bar> \<le> 14 * 3600)"

lemma search_window:
  assumes "zone_ok z" and "t mod minute = 0" and "local_day z t = day"
  shows "t \<in> set (search_candidates day)"
proof -
  have "t = t div minute * minute + t mod minute" by simp
  with assms(2) obtain q where q: "t = q * minute" by auto
  have sec: "t div second = q * 60" using q by simp
  have off: "\<bar>offset_at z (unix_seconds t)\<bar> \<le> 50400" using assms(1) by (simp add: zone_ok_def)
  have "local_seconds z t div 86400 = day" using assms(3) by (simp add: local_day_def)
  then have "day * 86400 \<le> local_seconds z t" "local_seconds z t < day * 86400 + 86400" by auto
  then have "day * 86400 - 50400 \<le> q * 60" "q * 60 < day * 86400 + 136800"
    using off by (auto simp: local_seconds_def sec)
  then have lo: "day * 1440 - 840 \<le> q" and hi: "q \<le> day * 1440 + 2280" by linarith+
  let ?k = "nat (q - (day * 1440 - 840))"
  have "t = search_start day + int ?k * minute" "?k < 3121"
    using lo hi by (auto simp: q search_start_def algebra_simps)
  then show ?thesis unfolding search_candidates_def by (auto simp: image_iff intro!: bexI [of _ ?k])
qed

lemma search_candidates_minute: "t \<in> set (search_candidates day) \<Longrightarrow> t mod minute = 0"
proof -
  assume "t \<in> set (search_candidates day)"
  then obtain k :: nat where "t = (day * 1440 - 840 + int k) * minute"
    by (auto simp: search_candidates_def search_start_def algebra_simps)
  then show ?thesis by simp
qed

lemma resolveLocalMinute_Inr:
  assumes "resolveLocalMinute z localDate lt = Inr t"
  shows "t \<in> set (search_candidates (local_day z localDate)) \<and> local_day z t = local_day z localDate
    \<and> (local_minute z t = Hour lt * 60 + Minute lt
       \<or> (Hour lt * 60 + Minute lt < local_minute z t
          \<and> (\<forall>c\<in>set (search_candidates (local_day z localDate)). local_day z c = local_day z localDate \<longrightarrow>
                local_minute z c \<noteq> Hour lt * 60 + Minute lt
                \<and> (Hour lt * 60 + Minute lt < local_minute z c \<longrightarrow> local_minute z t \<le> local_minute z c))))"
  using resolve_loop_Inr [OF assms [unfolded resolveLocalMinute_def Let_def]] local_minute_range [of z t]
  by (auto simp: min_def)

lemma next_loop_Inr:
  "next_loop z def after day offs = Inr t \<Longrightarrow>
   after < t \<and> (\<exists>k\<in>set offs. \<exists>d. d = time_date z (day + int k) (12 * 3600)
      \<and> isoWeekday (weekday_of_days (local_day z d)) \<in> set (ISOWeekdays def)
      \<and> resolveLocalMinute z d (LocalTime def) = Inr t)"
  by (induction offs) (auto simp: go_result Let_def split: if_splits)

text \<open>
  A due time is right: it is after the given instant, on a whole minute, on an enabled weekday of
  the schedule's zone, and its local minute is the requested one, or, when the requested minute is
  not shown on that local date (the clock was put forward), the first later minute that is.
\<close>

lemma NextOccurrence_sound:
  assumes "NextOccurrence tz after def = Inr t" and "tz (Timezone def) = Some z" and "zone_ok z"
  shows "after < t \<and> t mod minute = 0 \<and> isoWeekday (weekday_of_days (local_day z t)) \<in> set (ISOWeekdays def)
    \<and> (local_minute z t = Hour (LocalTime def) * 60 + Minute (LocalTime def)
       \<or> (Hour (LocalTime def) * 60 + Minute (LocalTime def) < local_minute z t
          \<and> (\<forall>c. c mod minute = 0 \<and> local_day z c = local_day z t \<longrightarrow>
                local_minute z c \<noteq> Hour (LocalTime def) * 60 + Minute (LocalTime def)
                \<and> (Hour (LocalTime def) * 60 + Minute (LocalTime def) < local_minute z c \<longrightarrow>
                     local_minute z t \<le> local_minute z c))))"
proof -
  have "next_loop z def after (local_day z after) [0..<maxScheduleSearchDays] = Inr t"
    using assms(1,2) by (simp add: NextOccurrence_def)
  from next_loop_Inr [OF this] obtain d where "after < t"
    and day: "isoWeekday (weekday_of_days (local_day z d)) \<in> set (ISOWeekdays def)"
    and res: "resolveLocalMinute z d (LocalTime def) = Inr t" by blast
  note found = resolveLocalMinute_Inr [OF res]
  then have "t mod minute = 0" and "local_day z d = local_day z t"
    using search_candidates_minute by auto
  then show ?thesis
    using found \<open>after < t\<close> day search_window [OF assms(3)] by metis
qed

section \<open>A zone with one offset\<close>

text \<open>UTC, and every zone over a period without transitions; offsets are whole minutes today.\<close>

definition fixed_zone :: "int \<Rightarrow> int \<Rightarrow> int \<times> int \<times> int" where
  "fixed_zone off = (\<lambda>s. (off, - (2 ^ 63), 2 ^ 63 - 1))"

lemma fixed_offset [simp]: "offset_at (fixed_zone off) s = off"
  by (simp add: offset_at_def fixed_zone_def)

lemma fixed_local: "local_seconds (fixed_zone off) t = t div second + off"
  by (simp add: local_seconds_def)

lemma fixed_date: "time_date (fixed_zone off) day sec = (day * 86400 + sec - off) * second"
  by (simp add: time_date_def Let_def fixed_zone_def offset_at_def)

definition occurrence_on :: "int \<Rightarrow> int \<Rightarrow> int \<Rightarrow> time" where
  "occurrence_on off req day = (day * 86400 + req * 60 - off) * second"

lemma minutes_of_seconds: "(x :: int) * 60 div 86400 = x div 1440" "(x :: int) * 60 mod 86400 div 60 = x mod 1440"
  using mod_mult_mult2 [of x 60 1440] div_mult_mult2 [of 60 x 1440] by simp_all

lemma fixed_occurrence:
  assumes "off mod 60 = 0" and "0 \<le> req" and "req < 1440"
  shows "t mod minute = 0 \<and> local_day (fixed_zone off) t = day \<and> local_minute (fixed_zone off) t = req
    \<longleftrightarrow> t = occurrence_on off req day"
proof -
  obtain p where p: "off = p * 60" using assms(1) by (metis add.right_neutral div_mult_mod_eq)
  show ?thesis
  proof
    assume l: "t mod minute = 0 \<and> local_day (fixed_zone off) t = day \<and> local_minute (fixed_zone off) t = req"
    have "t = t div minute * minute + t mod minute" by simp
    with l obtain q where q: "t = q * minute" by auto
    have sec: "local_seconds (fixed_zone off) t = (q + p) * 60" using q p by (simp add: fixed_local)
    have "(q + p) div 1440 = day" "(q + p) mod 1440 = req"
      using l unfolding local_day_def local_minute_def sec minutes_of_seconds by auto
    then have "q + p = day * 1440 + req" by auto
    then show "t = occurrence_on off req day"
      using q p by (simp add: occurrence_on_def algebra_simps)
  next
    assume t: "t = occurrence_on off req day"
    then have "t = (day * 1440 + req - p) * minute" using p by (simp add: occurrence_on_def algebra_simps)
    moreover have "local_seconds (fixed_zone off) t = day * 86400 + req * 60"
      using t by (simp add: fixed_local occurrence_on_def)
    ultimately show "t mod minute = 0 \<and> local_day (fixed_zone off) t = day \<and> local_minute (fixed_zone off) t = req"
      using assms(2,3) by (auto simp: local_day_def local_minute_def)
  qed
qed

lemma fixed_noon: "local_day (fixed_zone off) (time_date (fixed_zone off) day (12 * 3600)) = day"
  by (simp add: fixed_date local_day_def fixed_local)

lemma fixed_resolve:
  assumes "off mod 60 = 0" and "\<bar>off\<bar> \<le> 14 * 3600" and "0 \<le> Hour lt * 60 + Minute lt" and "Hour lt * 60 + Minute lt < 1440"
    and "local_day (fixed_zone off) d = day"
  shows "resolveLocalMinute (fixed_zone off) d lt = Inr (occurrence_on off (Hour lt * 60 + Minute lt) day)"
proof -
  let ?z = "fixed_zone off" and ?o = "occurrence_on off (Hour lt * 60 + Minute lt) day"
  have o: "?o mod minute = 0" "local_day ?z ?o = day" "local_minute ?z ?o = Hour lt * 60 + Minute lt"
    using fixed_occurrence [OF assms(1,3,4), of ?o day] by auto
  have "zone_ok ?z" using assms(2) by (simp add: zone_ok_def)
  from resolve_loop_hit [OF search_window [OF this o(1,2)] o(2,3)]
  obtain t where "resolveLocalMinute ?z d lt = Inr t" "t \<in> set (search_candidates day)"
     "local_day ?z t = day" "local_minute ?z t = Hour lt * 60 + Minute lt"
    using assms(5) unfolding resolveLocalMinute_def Let_def by metis
  moreover from this have "t = ?o"
    using fixed_occurrence [OF assms(1,3,4), of t day] search_candidates_minute by blast
  ultimately show ?thesis by simp
qed

text \<open>Within a week after the first day every weekday has come.\<close>

lemma weekday_in_week:
  assumes "1 \<le> w" and "w \<le> 7"
  shows "\<exists>k::nat. 1 \<le> k \<and> k \<le> 7 \<and> isoWeekday (weekday_of_days (day + int k)) = w"
proof -
  let ?k = "nat ((w - day - 2) mod 7 + 1)"
  have k: "int ?k = (w - day - 2) mod 7 + 1" by simp
  have "weekday_of_days (day + int ?k) = (day + 2 + (w - day - 2) mod 7) mod 7"
    unfolding weekday_of_days_def k by (simp add: algebra_simps)
  also have "\<dots> = w mod 7" by (simp add: mod_add_right_eq)
  finally have day: "weekday_of_days (day + int ?k) = w mod 7" .
  have "w = 7 \<or> w mod 7 = w" using assms by (cases "w = 7") simp_all
  then have "isoWeekday (w mod 7) = w" using assms by (auto simp: isoWeekday_def)
  moreover have "(w - day - 2) mod 7 < 7" "0 \<le> (w - day - 2) mod 7" by simp_all
  then have "1 \<le> ?k \<and> ?k \<le> 7" by linarith
  ultimately show ?thesis using day by metis
qed

text \<open>In a zone with one offset the day loop returns the first later occurrence.\<close>

lemma fixed_next_loop:
  assumes zone: "off mod 60 = 0" "\<bar>off\<bar> \<le> 14 * 3600"
    and clock: "0 \<le> Hour (LocalTime def) * 60 + Minute (LocalTime def)" "Hour (LocalTime def) * 60 + Minute (LocalTime def) < 1440"
    and hit: "k \<in> set offs" "isoWeekday (weekday_of_days (day + int k)) \<in> set (ISOWeekdays def)"
      "after < occurrence_on off (Hour (LocalTime def) * 60 + Minute (LocalTime def)) (day + int k)"
    and "sorted offs"
  shows "\<exists>j\<in>set offs. j \<le> k \<and> isoWeekday (weekday_of_days (day + int j)) \<in> set (ISOWeekdays def)
     \<and> after < occurrence_on off (Hour (LocalTime def) * 60 + Minute (LocalTime def)) (day + int j)
     \<and> next_loop (fixed_zone off) def after day offs
          = Inr (occurrence_on off (Hour (LocalTime def) * 60 + Minute (LocalTime def)) (day + int j))
     \<and> (\<forall>i\<in>set offs. i < j \<longrightarrow> isoWeekday (weekday_of_days (day + int i)) \<in> set (ISOWeekdays def) \<longrightarrow>
          occurrence_on off (Hour (LocalTime def) * 60 + Minute (LocalTime def)) (day + int i) \<le> after)"
  using hit \<open>sorted offs\<close>
proof (induction offs)
  case (Cons i offs)
  let ?o = "\<lambda>j. occurrence_on off (Hour (LocalTime def) * 60 + Minute (LocalTime def)) (day + int j)"
  note step = fixed_noon [of off "day + int i"] fixed_resolve [OF zone clock fixed_noon, of "day + int i"]
  show ?case
  proof (cases "isoWeekday (weekday_of_days (day + int i)) \<in> set (ISOWeekdays def) \<and> after < ?o i")
    case True
    then have "next_loop (fixed_zone off) def after day (i # offs) = Inr (?o i)" using step by (simp add: Let_def)
    moreover have "i \<le> k" using Cons.prems by auto
    moreover have "\<not> i' < i" if "i' \<in> set (i # offs)" for i' using that Cons.prems(4) by auto
    ultimately show ?thesis using True by (intro bexI [of _ i] conjI) auto
  next
    case False
    then have "k \<in> set offs" using Cons.prems by auto
    from Cons.IH [OF this Cons.prems(2,3)] Cons.prems(4) obtain j where j: "j \<in> set offs" "j \<le> k"
      "isoWeekday (weekday_of_days (day + int j)) \<in> set (ISOWeekdays def)" "after < ?o j"
      "next_loop (fixed_zone off) def after day offs = Inr (?o j)"
      "\<forall>i\<in>set offs. i < j \<longrightarrow> isoWeekday (weekday_of_days (day + int i)) \<in> set (ISOWeekdays def) \<longrightarrow> ?o i \<le> after"
      by auto
    moreover have "next_loop (fixed_zone off) def after day (i # offs) = next_loop (fixed_zone off) def after day offs"
      using False step by (auto simp: Let_def)
    moreover have "isoWeekday (weekday_of_days (day + int i)) \<in> set (ISOWeekdays def) \<longrightarrow> ?o i \<le> after"
      using False by auto
    ultimately show ?thesis by (intro bexI [of _ j] conjI) simp_all
  qed
qed simp

text \<open>The same with the day named: the first enabled day whose occurrence is still to come.\<close>

lemma fixed_next_day:
  assumes "tz (Timezone def) = Some (fixed_zone off)" and "off mod 60 = 0" and "\<bar>off\<bar> \<le> 14 * 3600"
    and "req = Hour (LocalTime def) * 60 + Minute (LocalTime def)" and "0 \<le> req" and "req < 1440" and "k < maxScheduleSearchDays"
    and "local_day (fixed_zone off) after = day"
    and "isoWeekday (weekday_of_days (day + int k)) \<in> set (ISOWeekdays def)" and "after < occurrence_on off req (day + int k)"
    and "\<forall>i::nat. i < k \<longrightarrow> occurrence_on off req (day + int i) \<le> after"
  shows "NextOccurrence tz after def = Inr (occurrence_on off req (day + int k))"
proof -
  have "k \<in> set [0..<maxScheduleSearchDays]" using assms(7) by (simp only: set_upt atLeastLessThan_iff) simp
  from fixed_next_loop [where def = def and offs = "[0..<maxScheduleSearchDays]", folded assms(4), OF assms(2,3,5,6) this assms(9,10) sorted_upt]
  obtain j where "j \<le> k" "after < occurrence_on off req (day + int j)"
    "next_loop (fixed_zone off) def after day [0..<maxScheduleSearchDays] = Inr (occurrence_on off req (day + int j))"
    by blast
  moreover from this have "j = k" using assms(11) by (metis leD le_neq_implies_less)
  ultimately show ?thesis using assms(1,8) by (simp add: NextOccurrence_def)
qed

lemma fixed_day_bounds:
  "local_day (fixed_zone off) t = day \<Longrightarrow> day * 86400 - off \<le> t div second \<and> t div second < (day + 1) * 86400 - off"
  by (auto simp: local_day_def fixed_local)

lemma occurrence_on_mono: "d < d' \<Longrightarrow> occurrence_on off req d < occurrence_on off req d'"
  by (simp add: occurrence_on_def)

lemma occurrence_next_day:
  assumes "0 \<le> req" and "local_day (fixed_zone off) t < day"
  shows "t < occurrence_on off req day"
proof -
  have "t div second < (local_day (fixed_zone off) t + 1) * 86400 - off"
    using fixed_day_bounds [OF refl] by blast
  also have "\<dots> \<le> day * 86400 - off" using assms(2) by simp
  finally have "t div second < day * 86400 + req * 60 - off" using assms(1) by simp
  then show ?thesis unfolding occurrence_on_def by simp
qed

definition clock_ok :: "local_time \<Rightarrow> bool" where
  "clock_ok lt \<longleftrightarrow> 0 \<le> Hour lt \<and> Hour lt \<le> 23 \<and> 0 \<le> Minute lt \<and> Minute lt \<le> 59"

lemma NewDefinition_Inr:
  "NewDefinition tz zone lt ws = Inr def \<longleftrightarrow>
   zone \<noteq> [] \<and> clock_ok lt \<and> ws \<noteq> [] \<and> (\<forall>w\<in>set ws. 1 \<le> w \<and> w \<le> 7) \<and> (\<exists>z. tz zone = Some z)
   \<and> def = \<lparr>Timezone = zone, LocalTime = lt, ISOWeekdays = remdups ws\<rparr>"
  by (auto simp: NewDefinition_def clock_ok_def go_result split: option.splits if_splits)

text \<open>Any instant that shows the requested minute on an enabled day is some day's occurrence.\<close>

lemma fixed_least:
  assumes "off mod 60 = 0" and "0 \<le> req" and "req < 1440"
    and before: "\<forall>i::nat. i < j \<longrightarrow> P (local_day (fixed_zone off) after + int i) \<longrightarrow>
        occurrence_on off req (local_day (fixed_zone off) after + int i) \<le> after"
    and u: "after < u" "u mod minute = 0" "local_minute (fixed_zone off) u = req" "P (local_day (fixed_zone off) u)"
  shows "occurrence_on off req (local_day (fixed_zone off) after + int j) \<le> u"
proof (rule ccontr)
  let ?day = "local_day (fixed_zone off) after" and ?d = "local_day (fixed_zone off) u"
  assume late: "\<not> occurrence_on off req (?day + int j) \<le> u"
  have uo: "occurrence_on off req ?d = u" using fixed_occurrence [OF assms(1-3)] u(2,3) by metis
  have "\<not> ?day + int j < ?d" using occurrence_on_mono [of "?day + int j" ?d off req] late uo by linarith
  moreover have "?day + int j \<noteq> ?d" using late uo by auto
  moreover have "?day \<le> ?d"
    unfolding local_day_def fixed_local using u(1) by (intro zdiv_mono1 add_right_mono) simp_all
  ultimately have "?day + int (nat (?d - ?day)) = ?d" and "nat (?d - ?day) < j" by linarith+
  then have "occurrence_on off req ?d \<le> after" using before u(4) by metis
  then show False using uo u(1) by linarith
qed

lemma NextOccurrence_fixed:
  assumes "NewDefinition tz zone lt ws = Inr def" and "tz zone = Some (fixed_zone off)"
    and "off mod 60 = 0" and "\<bar>off\<bar> \<le> 14 * 3600"
  shows "\<exists>t. NextOccurrence tz after def = Inr t \<and> after < t
    \<and> t mod minute = 0 \<and> local_minute (fixed_zone off) t = Hour lt * 60 + Minute lt
    \<and> isoWeekday (weekday_of_days (local_day (fixed_zone off) t)) \<in> set ws
    \<and> (\<forall>u. after < u \<and> u mod minute = 0 \<and> local_minute (fixed_zone off) u = Hour lt * 60 + Minute lt
          \<and> isoWeekday (weekday_of_days (local_day (fixed_zone off) u)) \<in> set ws \<longrightarrow> t \<le> u)"
proof -
  let ?z = "fixed_zone off" and ?req = "Hour lt * 60 + Minute lt" and ?offs = "[0..<maxScheduleSearchDays]"
  let ?day = "local_day ?z after" and ?o = "occurrence_on off ?req"
  have def: "Timezone def = zone" "LocalTime def = lt" "set (ISOWeekdays def) = set ws"
    and ws: "ws \<noteq> []" "\<forall>w\<in>set ws. 1 \<le> w \<and> w \<le> 7" and req: "0 \<le> ?req" "?req < 1440"
    using assms(1) by (auto simp: NewDefinition_Inr clock_ok_def)
  obtain w where w: "w \<in> set ws" using ws(1) by (cases ws) auto
  then obtain k :: nat where k: "1 \<le> k" "k \<le> 7" "isoWeekday (weekday_of_days (?day + int k)) \<in> set ws"
    using weekday_in_week ws(2) by metis
  have after: "after < ?o (?day + int k)" using occurrence_next_day [OF req(1), of off after "?day + int k"] k(1) by linarith
  have member: "i \<in> set ?offs \<longleftrightarrow> i < 370" for i by (auto simp only: set_upt atLeastLessThan_iff maxScheduleSearchDays_def)
  have "k \<in> set ?offs" using k(2) member by simp
  from fixed_next_loop [where def = def, unfolded def, OF assms(3,4) req this k(3) after sorted_upt]
  obtain j where j: "j \<in> set ?offs" "isoWeekday (weekday_of_days (?day + int j)) \<in> set ws" "after < ?o (?day + int j)"
    "next_loop ?z def after ?day ?offs = Inr (?o (?day + int j))"
    "\<forall>i\<in>set ?offs. i < j \<longrightarrow> isoWeekday (weekday_of_days (?day + int i)) \<in> set ws \<longrightarrow> ?o (?day + int i) \<le> after"
    by blast
  have result: "NextOccurrence tz after def = Inr (?o (?day + int j))" using j(4) assms(2) def(1) by (simp add: NextOccurrence_def)
  have "\<forall>i::nat. i < j \<longrightarrow> isoWeekday (weekday_of_days (?day + int i)) \<in> set ws \<longrightarrow> ?o (?day + int i) \<le> after"
  proof (intro allI impI)
    fix i assume i: "i < j" "isoWeekday (weekday_of_days (?day + int i)) \<in> set ws"
    have "i \<in> set ?offs" using j(1) i(1) unfolding member by linarith
    then show "?o (?day + int i) \<le> after" using j(5) i by blast
  qed
  then have least: "?o (?day + int j) \<le> u" if "after < u" "u mod minute = 0" "local_minute ?z u = ?req"
      "isoWeekday (weekday_of_days (local_day ?z u)) \<in> set ws" for u
    using that by (rule fixed_least [where P = "\<lambda>d. isoWeekday (weekday_of_days d) \<in> set ws", OF assms(3) req])
  have "?o (?day + int j) mod minute = 0 \<and> local_day ?z (?o (?day + int j)) = ?day + int j
      \<and> local_minute ?z (?o (?day + int j)) = ?req"
    using fixed_occurrence [OF assms(3) req] by blast
  with result j(2,3) least show ?thesis by metis
qed

text \<open>
  C7. In a zone with one offset every schedule that \<open>NewDefinition\<close> accepts has a next occurrence, and
  it is exactly the least instant after the given one that shows the requested minute on an enabled
  weekday.
\<close>

theorem NextOccurrence_least:
  assumes "NewDefinition tz zone lt ws = Inr def" and "tz zone = Some (fixed_zone off)"
    and "off mod 60 = 0" and "\<bar>off\<bar> \<le> 14 * 3600"
  shows "\<exists>t. NextOccurrence tz after def = Inr t \<and> after < t
    \<and> t mod minute = 0 \<and> local_minute (fixed_zone off) t = Hour lt * 60 + Minute lt
    \<and> isoWeekday (weekday_of_days (local_day (fixed_zone off) t)) \<in> set ws
    \<and> (\<forall>u. after < u \<and> u mod minute = 0 \<and> local_minute (fixed_zone off) u = Hour lt * 60 + Minute lt
          \<and> isoWeekday (weekday_of_days (local_day (fixed_zone off) u)) \<in> set ws \<longrightarrow> t \<le> u)"
  by (rule NextOccurrence_fixed [OF assms])

section \<open>A sample schedule\<close>

definition tz_sample :: location_db where
  "tz_sample = (\<lambda>s. if s = ''UTC'' then Some (fixed_zone 0) else None)"

definition def_sample :: definition_rec where
  "def_sample = \<lparr>Timezone = ''UTC'', LocalTime = \<lparr>Hour = 6, Minute = 30\<rparr>, ISOWeekdays = [1, 2, 3, 4, 5, 6, 7]\<rparr>"

definition leap_day :: int where
  "leap_day = 738944"

lemma def_sample_new: "NewDefinition tz_sample ''UTC'' \<lparr>Hour = 6, Minute = 30\<rparr> [1, 2, 3, 4, 5, 6, 7] = Inr def_sample"
  by (simp add: NewDefinition_def tz_sample_def def_sample_def)

lemma next_sample: "NextOccurrence tz_sample (occurrence_on 0 390 leap_day) def_sample = Inr (occurrence_on 0 390 (leap_day + 1))"
  using fixed_next_day [where tz = tz_sample and def = def_sample and off = 0 and req = 390 and k = 1
      and day = leap_day and after = "occurrence_on 0 390 leap_day"]
  by (simp add: tz_sample_def def_sample_def maxScheduleSearchDays_def local_day_def fixed_local occurrence_on_def
        leap_day_def isoWeekday_def weekday_of_days_def)

lemma NextOccurrence_sound_witness:
  "local_minute (fixed_zone 0) (occurrence_on 0 390 (leap_day + 1)) = 390"
  using NextOccurrence_sound [OF next_sample, of "fixed_zone 0"]
  by (simp add: tz_sample_def def_sample_def zone_ok_def) (simp add: local_minute_def fixed_local occurrence_on_def leap_day_def)

theorem NextOccurrence_least_witness:
  "\<exists>t. NextOccurrence tz_sample 0 def_sample = Inr t \<and> 0 < t"
  using NextOccurrence_least [OF def_sample_new, of 0 0] by (auto simp: tz_sample_def)

section \<open>Occurrences\<close>

definition occurrence_key :: "occurrence_row \<Rightarrow> string \<times> time" where
  "occurrence_key oc = (occ_schedule_id oc, occ_scheduled_for oc)"

text \<open>At most one occurrence for a schedule and an instant, and unique identifiers.\<close>

definition sched_inv :: "sched_db \<Rightarrow> bool" where
  "sched_inv D \<longleftrightarrow> distinct (map occurrence_key (sdb_occurrences D)) \<and> distinct (map occ_id (sdb_occurrences D))"

text \<open>An occurrence that is no longer due: enqueued, skipped or missed.\<close>

definition settled :: "sched_db \<Rightarrow> string \<Rightarrow> time \<Rightarrow> bool" where
  "settled D sid t \<longleftrightarrow> (\<exists>row\<in>set (sdb_occurrences D). occurrence_key row = (sid, t) \<and> occ_state row \<noteq> ''due'')"

text \<open>What one run may do to the occurrences: settled rows stay as they are.\<close>

definition keeps_settled :: "sched_db \<Rightarrow> sched_db \<Rightarrow> bool" where
  "keeps_settled D D' \<longleftrightarrow> (\<forall>row\<in>set (sdb_occurrences D). occ_state row \<noteq> ''due'' \<longrightarrow> row \<in> set (sdb_occurrences D'))"

lemma keeps_settled_refl: "keeps_settled D D"
  by (simp add: keeps_settled_def)

lemma keeps_settled_trans: "keeps_settled D1 D2 \<Longrightarrow> keeps_settled D2 D3 \<Longrightarrow> keeps_settled D1 D3"
  unfolding keeps_settled_def by blast

lemma keeps_settled_settled: "keeps_settled D D' \<Longrightarrow> settled D sid t \<Longrightarrow> settled D' sid t"
  unfolding keeps_settled_def settled_def by blast

lemma update_occurrence_key:
  assumes "\<And>oc. occurrence_key (f oc) = occurrence_key oc" and "\<And>oc. occ_id (f oc) = occ_id oc"
  shows "sched_inv D \<Longrightarrow> sched_inv (update_occurrence oid f D)" and "keeps_settled D (update_occurrence oid f D)"
proof -
  have "map occurrence_key (sdb_occurrences (update_occurrence oid f D)) = map occurrence_key (sdb_occurrences D)"
    and "map occ_id (sdb_occurrences (update_occurrence oid f D)) = map occ_id (sdb_occurrences D)"
    using assms by (simp_all add: update_occurrence_def)
  then show "sched_inv D \<Longrightarrow> sched_inv (update_occurrence oid f D)" by (simp add: sched_inv_def)
  show "keeps_settled D (update_occurrence oid f D)"
    by (force simp: keeps_settled_def update_occurrence_def image_iff)
qed

lemma update_settles:
  assumes "row \<in> set (sdb_occurrences D)" and "occ_state row = ''due''" and "occurrence_key (f row) = occurrence_key row"
    and "occ_state (f row) \<noteq> ''due''"
  shows "settled (update_occurrence (occ_id row) f D) (occ_schedule_id row) (occ_scheduled_for row)"
  using assms by (auto simp: settled_def update_occurrence_def occurrence_key_def intro!: bexI [of _ "f row"])

lemma update_occurrence_schedules [simp]: "sdb_schedules (update_occurrence oid f D) = sdb_schedules D"
  by (simp add: update_occurrence_def)

lemma classify_due: "classifyOccurrence s t now = (st, trigger, enqueue, skipped) \<Longrightarrow> \<not> enqueue \<Longrightarrow> st \<noteq> ''due''"
  by (auto simp: classifyOccurrence_def split: if_splits)

lemma finish_occurrence_ok:
  assumes "finish_occurrence enq (classifyOccurrence s t now) row ins D = Inr (D', created, enqueued, skipped)"
    and "row \<in> set (sdb_occurrences D)" and "sched_inv D"
  shows "sched_inv D' \<and> keeps_settled D D' \<and> settled D' (occ_schedule_id row) (occ_scheduled_for row)
    \<and> sdb_schedules D' = sdb_schedules D"
proof -
  obtain st trigger enqueue sk where cls: "classifyOccurrence s t now = (st, trigger, enqueue, sk)"
    using prod_cases4 by blast
  consider (kept) "occ_state row \<noteq> ''due''" "D' = D"
    | (closed) "occ_state row = ''due''" "\<not> enqueue"
        "D' = update_occurrence (occ_id row) (\<lambda>oc. oc\<lparr>occ_state := st, occ_trigger_type := trigger\<rparr>) D"
    | (queued) job where "occ_state row = ''due''"
        "D' = update_occurrence (occ_id row) (\<lambda>oc. oc\<lparr>occ_state := ''enqueued'', occ_river_job_id := Some job\<rparr>) D"
    using assms(1) unfolding cls by (auto simp: finish_occurrence_def split: if_splits option.splits)
  then show ?thesis
  proof cases
    case kept
    then show ?thesis using assms(2,3) by (auto simp: keeps_settled_refl settled_def occurrence_key_def)
  next
    case closed
    then show ?thesis
      using assms(2,3) classify_due [OF cls]
      by (auto simp: occurrence_key_def intro!: update_occurrence_key update_settles)
  next
    case queued
    then show ?thesis
      using assms(2,3)
      by (auto simp: occurrence_key_def intro!: update_occurrence_key update_settles)
  qed
qed

lemma reconcileOccurrence_ok:
  assumes "reconcileOccurrence E tz enq s t now D = Inr (D', created, enqueued, skipped)" and inv: "sched_inv D"
  shows "sched_inv D' \<and> keeps_settled D D' \<and> settled D' (ds_id s) t \<and> sdb_schedules D' = sdb_schedules D"
proof -
  obtain z where z: "tz (ds_timezone s) = Some z"
    using assms(1) by (auto simp: reconcileOccurrence_def split: option.splits)
  show ?thesis
  proof (cases "find_occurrence D (ds_id s) t")
    case (Some row)
    then have "row \<in> set (sdb_occurrences D)" and key: "occ_schedule_id row = ds_id s" "occ_scheduled_for row = t"
      by (auto simp: find_occurrence_def find_Some_iff)
    moreover have "finish_occurrence enq (classifyOccurrence s t now) row False D = Inr (D', created, enqueued, skipped)"
      using assms(1) z Some by (simp add: reconcileOccurrence_def Let_def)
    ultimately show ?thesis using finish_occurrence_ok inv by metis
  next
    case None
    let ?row = "new_occurrence E D s z t (fst (classifyOccurrence s t now)) (fst (snd (classifyOccurrence s t now)))"
    let ?D = "D\<lparr>sdb_occurrences := sdb_occurrences D @ [?row], sdb_seq := Suc (sdb_seq D)\<rparr>"
    have fresh: "occ_id ?row \<notin> occ_id ` set (sdb_occurrences D)"
      and fin: "finish_occurrence enq (classifyOccurrence s t now) ?row True ?D = Inr (D', created, enqueued, skipped)"
      using assms(1) z None by (auto simp: reconcileOccurrence_def Let_def split: if_splits)
    have row: "occ_schedule_id ?row = ds_id s" "occ_scheduled_for ?row = t" by (simp_all add: new_occurrence_def)
    have "occurrence_key ?row \<notin> occurrence_key ` set (sdb_occurrences D)"
      using None row by (auto simp: find_occurrence_def find_None_iff occurrence_key_def)
    then have "sched_inv ?D" using inv fresh by (auto simp: sched_inv_def)
    from finish_occurrence_ok [OF fin _ this] row show ?thesis
      by (auto simp: keeps_settled_def)
  qed
qed

text \<open>The due instants of a schedule up to now, at most n of them.\<close>

fun due_chain :: "location_db \<Rightarrow> definition_rec \<Rightarrow> time \<Rightarrow> nat \<Rightarrow> time \<Rightarrow> time list" where
  "due_chain tz def now 0 t = []"
| "due_chain tz def now (Suc n) t =
     (if now < t then []
      else t # (case NextOccurrence tz t def of Inl _ \<Rightarrow> [] | Inr u \<Rightarrow> due_chain tz def now n u))"

lemma schedule_loop_ok:
  assumes "schedule_loop E tz enq s def now n t D = Inr (D', due, c, j, sk)" and "sched_inv D"
  shows "sched_inv D' \<and> keeps_settled D D' \<and> sdb_schedules D' = sdb_schedules D
    \<and> (\<forall>u\<in>set (due_chain tz def now n t). settled D' (ds_id s) u)
    \<and> (length (due_chain tz def now n t) < n \<longrightarrow> now < due) \<and> c \<le> int (length (due_chain tz def now n t)) \<and> 0 \<le> j \<and> j \<le> int (length (due_chain tz def now n t))"
  using assms
proof (induction n arbitrary: t D c j sk)
  case 0
  then show ?case by (simp add: keeps_settled_refl)
next
  case (Suc n)
  show ?case
  proof (cases "now < t")
    case True
    then show ?thesis using Suc.prems by (simp add: keeps_settled_refl)
  next
    case False
    then have loop: "and_then (reconcileOccurrence E tz enq s t now D) (\<lambda>(D1, created, enqueued, skipped).
         and_then (NextOccurrence tz t def) (\<lambda>u.
         and_then (schedule_loop E tz enq s def now n u D1) (\<lambda>(D2, due, c, j, sk).
           Inr (D2, due, (if created then 1 else 0) + c, (if enqueued then 1 else 0) + j, skipped \<or> sk))))
       = Inr (D', due, c, j, sk)"
      using Suc.prems(1) by simp
    then obtain D1 created enqueued skipped where
      one: "reconcileOccurrence E tz enq s t now D = Inr (D1, created, enqueued, skipped)"
      by (cases "reconcileOccurrence E tz enq s t now D") auto
    with loop obtain u where following: "NextOccurrence tz t def = Inr u"
      by (cases "NextOccurrence tz t def") auto
    with loop one obtain c1 j1 sk1 where rest: "schedule_loop E tz enq s def now n u D1 = Inr (D', due, c1, j1, sk1)"
      and sums: "c = (if created then 1 else 0) + c1" "j = (if enqueued then 1 else 0) + j1"
      by (cases "schedule_loop E tz enq s def now n u D1") auto
    note ok = reconcileOccurrence_ok [OF one Suc.prems(2)]
    note ih = Suc.IH [OF rest ok [THEN conjunct1]]
    have "settled D' (ds_id s) t" using ok ih keeps_settled_settled by blast
    then show ?thesis
      using False following ok ih sums keeps_settled_trans by (auto split: if_splits)
  qed
qed

lemma advance_schedule_frame [simp]:
  "sdb_occurrences (advance_schedule E sid due now clear D) = sdb_occurrences D"
  by (simp add: advance_schedule_def)

lemma frame_occurrences:
  assumes "sdb_occurrences D' = sdb_occurrences D"
  shows "sched_inv D' = sched_inv D" "keeps_settled D' D2 = keeps_settled D D2" "keeps_settled D2 D' = keeps_settled D2 D"
  using assms by (simp_all add: sched_inv_def keeps_settled_def)

lemma schedules_loop_ok:
  assumes "schedules_loop E tz enq now ss D = Inr (D', c, j)" and "sched_inv D"
  shows "sched_inv D' \<and> keeps_settled D D'
    \<and> (\<forall>s\<in>set ss. \<exists>def. NewDefinition tz (ds_timezone s) (ds_localTime s) (ds_weekdays s) = Inr def
         \<and> (\<forall>u\<in>set (due_chain tz def now maximumOccurrencesPerScheduleRun (ds_nextDueAt s)). settled D' (ds_id s) u))"
  using assms
proof (induction ss arbitrary: D c j)
  case Nil
  then show ?case by (simp add: keeps_settled_refl)
next
  case (Cons s ss)
  then obtain def where def: "NewDefinition tz (ds_timezone s) (ds_localTime s) (ds_weekdays s) = Inr def"
    by (cases "NewDefinition tz (ds_timezone s) (ds_localTime s) (ds_weekdays s)") auto
  with Cons.prems(1) obtain D1 due c1 j1 sk where
    one: "schedule_loop E tz enq s def now maximumOccurrencesPerScheduleRun (ds_nextDueAt s) D = Inr (D1, due, c1, j1, sk)"
    by (cases "schedule_loop E tz enq s def now maximumOccurrencesPerScheduleRun (ds_nextDueAt s) D") auto
  let ?D2 = "advance_schedule E (ds_id s) due now sk D1"
  from Cons.prems(1) def one obtain c2 j2 where rest: "schedules_loop E tz enq now ss ?D2 = Inr (D', c2, j2)"
    by (cases "schedules_loop E tz enq now ss ?D2") auto
  note ok = schedule_loop_ok [OF one Cons.prems(2)]
  have "sched_inv ?D2" and "keeps_settled D1 ?D2"
    using ok by (simp_all add: frame_occurrences [of ?D2 D1] keeps_settled_refl)
  note ih = Cons.IH [OF rest this(1)]
  have keep: "keeps_settled D1 D'" using ih \<open>keeps_settled D1 ?D2\<close> keeps_settled_trans by blast
  then show ?case
    using ok ih def keeps_settled_trans keeps_settled_settled by auto
qed

lemma reconcile_tx_ok:
  assumes "reconcile_tx E tz enq ids acquired now D = Inr (D', r)" and "sched_inv D"
  shows "sched_inv D' \<and> keeps_settled D D'"
proof (cases acquired)
  case False
  then show ?thesis using assms by (simp add: reconcile_tx_def keeps_settled_refl)
next
  case True
  have frame: "sdb_occurrences (resume_elapsed E now D) = sdb_occurrences D" by (simp add: resume_elapsed_def)
  obtain ss c j where "schedules_loop E tz enq now ss (resume_elapsed E now D) = Inr (D', c, j)"
    using assms(1) True by (auto simp: reconcile_tx_def Let_def go_result)
  from schedules_loop_ok [OF this] assms(2) show ?thesis by (simp add: frame_occurrences [OF frame])
qed

interpretation reconcile: tx_body sched_inv ErrSchedTx "reconcile_tx E tz enq ids acquired now" for E tz enq ids acquired now
  by unfold_locales (auto dest: reconcile_tx_ok)

text \<open>
  C8. A reconciliation run, whatever becomes of it, leaves at most one occurrence per schedule and
  instant, never changes an occurrence that is already enqueued, skipped, missed or further along
  (so no occurrence is enqueued twice), and changes nothing when it fails.
\<close>

theorem Reconcile_safe:
  assumes "sched_inv D"
  shows "sched_inv (snd (Reconcile E tz enq fate ids acquired now D))
    \<and> keeps_settled D (snd (Reconcile E tz enq fate ids acquired now D))
    \<and> (\<forall>e. fst (Reconcile E tz enq fate ids acquired now D) = Inl e \<longrightarrow>
           snd (Reconcile E tz enq fate ids acquired now D) = D)"
proof (cases "fate \<noteq> BeginFails \<and> \<not> acquired")
  case True
  then show ?thesis using assms by (simp add: Reconcile_def keeps_settled_refl)
next
  case False
  have "keeps_settled D (snd (run_tx fate ErrSchedTx (reconcile_tx E tz enq ids acquired now) D))"
    using assms by (auto simp: run_tx_def keeps_settled_refl dest: reconcile_tx_ok split: sum.split)
  then show ?thesis
    using False assms reconcile.run_inv reconcile.run_error by (auto simp: Reconcile_def)
qed

lemma scan_all_Inr: "scan_all rs = Inr ss \<Longrightarrow> r \<in> set rs \<Longrightarrow> \<exists>s\<in>set ss. scan_due r = Inr s"
  by (induction rs arbitrary: ss) (auto simp: go_result)

text \<open>
  C9. A run that succeeds with the lock settles what was due: for every schedule it selected, each of
  its due instants from the stored next due time up to now, up to one hundred of them, has an
  occurrence that is enqueued, skipped or missed.
\<close>

theorem Reconcile_settles:
  assumes "Reconcile E tz enq fate ids True now D = (Inr r, D')" and "sched_inv D"
    and "row \<in> set (due_rows E ids now (resume_elapsed E now D))"
  shows "\<exists>s def. scan_due row = Inr s \<and> NewDefinition tz (sch_timezone row) (ds_localTime s) (sch_days_of_week row) = Inr def
    \<and> (\<forall>u\<in>set (due_chain tz def now maximumOccurrencesPerScheduleRun (sch_next_due_at row)). settled D' (sch_id row) u)"
proof -
  have "reconcile_tx E tz enq ids True now D = Inr (D', r)"
    using assms(1) run_tx_Inr unfolding Reconcile_def by (auto dest: run_tx_Inr)
  then obtain ss c j where scan: "scan_all (due_rows E ids now (resume_elapsed E now D)) = Inr ss"
    and loop: "schedules_loop E tz enq now ss (resume_elapsed E now D) = Inr (D', c, j)"
    by (auto simp: reconcile_tx_def Let_def go_result)
  obtain s where s: "s \<in> set ss" "scan_due row = Inr s" using scan_all_Inr [OF scan assms(3)] by blast
  then have "ds_timezone s = sch_timezone row" "ds_weekdays s = sch_days_of_week row" "ds_id s = sch_id row" "ds_nextDueAt s = sch_next_due_at row"
    by (auto simp: scan_due_def go_result)
  moreover have "sched_inv (resume_elapsed E now D)"
    using assms(2) by (simp add: sched_inv_def resume_elapsed_def)
  ultimately show ?thesis using schedules_loop_ok [OF loop] s by metis
qed

text \<open>
  A schedule whose catch-up policy is not \<open>catch_up\<close> never runs when the job looks at it even one
  nanosecond after the due time: its new occurrence is recorded as missed or skipped and nothing is
  enqueued.
\<close>

lemma skip_policy_never_runs:
  assumes "reconcileOccurrence E tz enq s t now D = Inr (D', created, enqueued, skipped)"
    and "ds_catchupPolicy s \<noteq> ''catch_up''" and "t < now"
    and "\<forall>oc\<in>set (sdb_occurrences D). occurrence_key oc \<noteq> (ds_id s, t)"
  shows "\<not> enqueued \<and> created \<and> (\<exists>oc\<in>set (sdb_occurrences D'). occurrence_key oc = (ds_id s, t)
    \<and> occ_state oc \<in> {''missed'', ''skipped''} \<and> occ_river_job_id oc = None)"
proof -
  have cls: "\<exists>sk. classifyOccurrence s t now = (if sk then ''skipped'' else ''missed'', ''scheduled'', False, sk)"
    using assms(2,3) by (auto simp: classifyOccurrence_def)
  moreover have "find_occurrence D (ds_id s) t = None"
    using assms(4) by (auto simp: find_occurrence_def find_None_iff occurrence_key_def)
  ultimately show ?thesis
    using assms(1)
    by (auto simp: reconcileOccurrence_def Let_def finish_occurrence_def new_occurrence_def occurrence_key_def
             split: option.splits if_splits)
qed

definition sched_sample :: sched_db where
  "sched_sample =
     \<lparr>sdb_schedules =
        [\<lparr>sch_id = ''digest'', sch_timezone = ''UTC'', sch_local_time = ''06:30'', sch_days_of_week = [1, 2, 3, 4, 5, 6, 7],
          sch_enabled = True, sch_catchup_policy = ''skip'', sch_catchup_grace = 0,
          sch_next_due_at = occurrence_on 0 390 leap_day, sch_skip_next_at = None, sch_paused_at = None,
          sch_paused_until = None, sch_version = 1, sch_updated_at = 0\<rparr>],
      sdb_occurrences = [], sdb_seq = 0\<rparr>"

theorem Reconcile_safe_witness:
  "sched_inv (snd (Reconcile pg_sample tz_sample (\<lambda>_. Some (1, True)) Commits [] True (occurrence_on 0 390 leap_day) sched_sample))"
  by (rule conjunct1 [OF Reconcile_safe]) (simp add: sched_inv_def sched_sample_def)

lemma schedule_loop_stop: "now < t \<Longrightarrow> schedule_loop E tz enq s def now n t D = Inr (D, t, 0, 0, False)"
  by (cases n) simp_all

lemma parse_sample: "parseLocalTime ''06:30'' = Inr \<lparr>Hour = 6, Minute = 30\<rparr>"
  by code_simp

definition due_sample :: due_schedule where
  "due_sample = \<lparr>ds_id = ''digest'', ds_timezone = ''UTC'', ds_localTime = \<lparr>Hour = 6, Minute = 30\<rparr>,
     ds_weekdays = [1, 2, 3, 4, 5, 6, 7], ds_catchupPolicy = ''skip'', ds_catchupGrace = 0,
     ds_nextDueAt = occurrence_on 0 390 leap_day, ds_skipNextAt = None\<rparr>"

lemma late_sample:
  "reconcileOccurrence pg_sample tz_sample (\<lambda>_. Some (1, True)) due_sample (occurrence_on 0 390 leap_day)
     (occurrence_on 0 390 leap_day + 1) sched_sample
   = Inr (sched_sample\<lparr>sdb_occurrences := [new_occurrence pg_sample sched_sample due_sample (fixed_zone 0)
       (occurrence_on 0 390 leap_day) ''missed'' ''scheduled''], sdb_seq := 1\<rparr>, True, False, False)"
  by (simp add: reconcileOccurrence_def due_sample_def tz_sample_def sched_sample_def find_occurrence_def
        classifyOccurrence_def finish_occurrence_def new_occurrence_def)

lemma skip_policy_never_runs_witness:
  "\<exists>oc\<in>set [new_occurrence pg_sample sched_sample due_sample (fixed_zone 0) (occurrence_on 0 390 leap_day) ''missed'' ''scheduled''].
     occ_state oc \<in> {''missed'', ''skipped''} \<and> occ_river_job_id oc = None"
  using skip_policy_never_runs [OF late_sample] by (auto simp: due_sample_def sched_sample_def)

lemma reconcile_sample:
  "\<exists>r D'. Reconcile pg_sample tz_sample (\<lambda>_. Some (1, True)) Commits [] True (occurrence_on 0 390 leap_day + 1) sched_sample = (Inr r, D')"
proof -
  let ?now = "occurrence_on 0 390 leap_day + 1"
  have due: "due_rows pg_sample [] ?now (resume_elapsed pg_sample ?now sched_sample) = sdb_schedules sched_sample"
    by (simp add: due_rows_def resume_elapsed_def resume_row_def sched_sample_def reconciliationBatchSize_def pg_sample_def
          occurrence_on_def leap_day_def)
  have scan: "scan_all (sdb_schedules sched_sample) = Inr [due_sample]"
    by (simp add: sched_sample_def scan_due_def parse_sample due_sample_def wrap64_def)
  have resume: "resume_elapsed pg_sample ?now sched_sample = sched_sample"
    by (simp add: resume_elapsed_def resume_row_def sched_sample_def)
  have max: "maximumOccurrencesPerScheduleRun = Suc 99" by (simp add: maximumOccurrencesPerScheduleRun_def)
  have "?now < occurrence_on 0 390 (leap_day + 1)" by (simp add: occurrence_on_def)
  then have loop: "\<exists>D1. schedule_loop pg_sample tz_sample (\<lambda>_. Some (1, True)) due_sample def_sample ?now
      maximumOccurrencesPerScheduleRun (ds_nextDueAt due_sample) sched_sample = Inr (D1, occurrence_on 0 390 (leap_day + 1), 1, 0, False)"
    unfolding max schedule_loop.simps by (simp add: due_sample_def [THEN arg_cong, of ds_nextDueAt] late_sample next_sample schedule_loop_stop)
  have new: "NewDefinition tz_sample (ds_timezone due_sample) (ds_localTime due_sample) (ds_weekdays due_sample) = Inr def_sample"
    using def_sample_new by (simp add: due_sample_def)
  show ?thesis
    using loop by (auto simp: Reconcile_def run_tx_def reconcile_tx_def due [unfolded resume] scan new resume)
qed

theorem Reconcile_settles_witness:
  "settled (snd (Reconcile pg_sample tz_sample (\<lambda>_. Some (1, True)) Commits [] True (occurrence_on 0 390 leap_day + 1) sched_sample))
     ''digest'' (occurrence_on 0 390 leap_day)"
proof -
  let ?now = "occurrence_on 0 390 leap_day + 1"
  obtain r D' where run: "Reconcile pg_sample tz_sample (\<lambda>_. Some (1, True)) Commits [] True ?now sched_sample = (Inr r, D')"
    using reconcile_sample by blast
  have inv: "sched_inv sched_sample" by (simp add: sched_inv_def sched_sample_def)
  have "hd (sdb_schedules sched_sample) \<in> set (due_rows pg_sample [] ?now (resume_elapsed pg_sample ?now sched_sample))"
    by (simp add: due_rows_def resume_elapsed_def resume_row_def sched_sample_def reconciliationBatchSize_def pg_sample_def
          occurrence_on_def leap_day_def)
  from Reconcile_settles [OF run inv this] obtain def where
    "\<forall>u\<in>set (due_chain tz_sample def ?now maximumOccurrencesPerScheduleRun (occurrence_on 0 390 leap_day)). settled D' ''digest'' u"
    by (auto simp: sched_sample_def)
  then have "settled D' ''digest'' (occurrence_on 0 390 leap_day)"
    by (auto simp: maximumOccurrencesPerScheduleRun_def numeral_eq_Suc)
  then show ?thesis by (simp add: run)
qed

end
