(* ===== verification/Evidence_Spans.thy ===== *)
theory Evidence_Spans
  imports Go_Strings
begin

text \<open>
  Evidence spans (\<open>src/internal/extraction/spans.go\<close>): the normalized text of a revision is cut into at
  most 200 numbered pieces of at most 1600 bytes that the model may cite. The outline is JSON; the
  decoded list of blocks (nothing when decoding fails) is the argument.
\<close>

section \<open>Slices and identifiers\<close>

text \<open>\<open>s[a:b]\<close> for indices in range.\<close>

definition slice :: "string \<Rightarrow> int \<Rightarrow> int \<Rightarrow> string" where
  "slice s a b = take (nat (b - a)) (drop (nat a) s)"

text \<open>\<open>%04d\<close>.\<close>

definition pad4 :: "nat \<Rightarrow> string" where
  "pad4 n = replicate (4 - length (nat_digits n)) CHR ''0'' @ nat_digits n"

record outline_block =
  blk_Kind :: string
  blk_Anchor :: string
  blk_NormalizedStart :: int
  blk_NormalizedEnd :: int

record evidence_span =
  span_ID :: string
  span_SectionPath :: string
  span_StartOffset :: int
  span_EndOffset :: int
  span_Text :: string

definition MaximumNormalizedBytes :: int where "MaximumNormalizedBytes = 100000"
definition MaximumEvidenceSpanBytes :: int where "MaximumEvidenceSpanBytes = 1600"
definition MaximumEvidenceSpans :: nat where "MaximumEvidenceSpans = 200"

section \<open>Cutting\<close>

text \<open>The first loop of \<open>boundedSpanEnd\<close>: shorten until the piece is valid UTF-8.\<close>

function shorten :: "string \<Rightarrow> int \<Rightarrow> int \<Rightarrow> int" where
  "shorten v start stop =
     (if start < stop \<and> \<not> valid_utf8 (slice v start stop) then shorten v start (stop - 1) else stop)"
  by pat_completeness auto
termination by (relation "measure (\<lambda>(v, start, stop). nat (stop - start))") auto

declare shorten.simps [simp del]

text \<open>The second loop: look back for a byte that, read as a code point, is a space.\<close>

function look_back :: "string \<Rightarrow> int \<Rightarrow> int \<Rightarrow> int option" where
  "look_back v limit cursor =
     (if limit < cursor then
        (if is_space (byte (v ! nat (cursor - 1))) then Some cursor else look_back v limit (cursor - 1))
      else None)"
  by pat_completeness auto
termination by (relation "measure (\<lambda>(v, limit, cursor). nat (cursor - limit))") auto

declare look_back.simps [simp del]

definition boundedSpanEnd :: "string \<Rightarrow> int \<Rightarrow> int \<Rightarrow> int" where
  "boundedSpanEnd v start blockEnd =
     (if blockEnd - start \<le> MaximumEvidenceSpanBytes then blockEnd
      else let stop = shorten v start (start + MaximumEvidenceSpanBytes) in
        (case look_back v (start + MaximumEvidenceSpanBytes div 2) stop of
           Some cursor \<Rightarrow> cursor
         | None \<Rightarrow> stop))"

definition sectionPath :: "outline_block \<Rightarrow> string" where
  "sectionPath b =
     (let p = trim_space (blk_Anchor b);
          q = (if p = [] then ''/'' @ trim_space (blk_Kind b) else p)
      in if q = ''/'' then ''/document'' else q)"

definition span_name :: "nat \<Rightarrow> string" where
  "span_name n = ''span_'' @ pad4 (n + 1)"

definition make_span :: "string \<Rightarrow> string \<Rightarrow> nat \<Rightarrow> int \<Rightarrow> int \<Rightarrow> evidence_span" where
  "make_span v path n start stop =
     \<lparr>span_ID = span_name n, span_SectionPath = path, span_StartOffset = start,
      span_EndOffset = stop, span_Text = slice v start stop\<rparr>"

text \<open>The inner loop over one block; it ends because every round adds a span and more than 200 is an error.\<close>

function cut_block :: "string \<Rightarrow> string \<Rightarrow> int \<Rightarrow> int \<Rightarrow> evidence_span list \<Rightarrow> string + evidence_span list" where
  "cut_block v path start blockEnd spans =
     (if start < blockEnd then
        (let stop = boundedSpanEnd v start blockEnd;
             spans' = spans @ [make_span v path (length spans) start stop]
         in if length spans' > MaximumEvidenceSpans then Inl ''normalized evidence exceeds 200 spans''
            else cut_block v path stop blockEnd spans')
      else Inr spans)"
  by pat_completeness auto
termination
  by (relation "measure (\<lambda>(v, path, start, blockEnd, spans). MaximumEvidenceSpans - length spans)") auto

declare cut_block.simps [simp del]

fun cut_blocks :: "string \<Rightarrow> int \<Rightarrow> outline_block list \<Rightarrow> evidence_span list \<Rightarrow> string + evidence_span list" where
  "cut_blocks v previousEnd [] spans = Inr spans"
| "cut_blocks v previousEnd (b # bs) spans =
     (if blk_NormalizedStart b < previousEnd \<or> blk_NormalizedStart b < 0
         \<or> blk_NormalizedEnd b \<le> blk_NormalizedStart b \<or> blk_NormalizedEnd b > int (length v)
      then Inl ''normalized outline contains invalid or overlapping offsets''
      else if \<not> valid_utf8 (slice v (blk_NormalizedStart b) (blk_NormalizedEnd b))
      then Inl ''normalized outline splits a UTF-8 sequence''
      else and_then (cut_block v (sectionPath b) (blk_NormalizedStart b) (blk_NormalizedEnd b) spans) (\<lambda>spans'.
        cut_blocks v (blk_NormalizedEnd b) bs spans'))"

definition document_block :: "string \<Rightarrow> outline_block" where
  "document_block v =
     \<lparr>blk_Kind = ''document'', blk_Anchor = ''/document'', blk_NormalizedStart = 0,
      blk_NormalizedEnd = int (length v)\<rparr>"

definition BuildEvidenceSpans :: "string \<Rightarrow> outline_block list option \<Rightarrow> string + evidence_span list" where
  "BuildEvidenceSpans normalized outline =
     (if normalized = [] \<or> int (length normalized) > MaximumNormalizedBytes \<or> \<not> valid_utf8 normalized
      then Inl ''normalized evidence must contain valid UTF-8 bytes''
      else (case outline of
        None \<Rightarrow> Inl ''decode normalized outline''
      | Some decoded \<Rightarrow>
          let blocks = (if decoded = [] then [document_block normalized] else decoded) in
          and_then (cut_blocks normalized 0 blocks []) (\<lambda>spans.
            if spans = [] then Inl ''normalized evidence contains no addressable spans'' else Inr spans)))"

definition blocks_of :: "string \<Rightarrow> outline_block list \<Rightarrow> outline_block list" where
  "blocks_of v decoded = (if decoded = [] then [document_block v] else decoded)"

section \<open>Prefixes of valid UTF-8\<close>

lemma decode_wf_append: "decode_wf p = Some (r, w) \<Longrightarrow> decode_wf (p @ q) = Some (r, w)"
  by (cases p) (auto simp: Let_def split: if_splits list.splits)

lemma decode_wf_take: "decode_wf s = Some (r, w) \<Longrightarrow> decode_wf (take w s) = Some (r, w)"
  by (cases s) (auto simp: Let_def take_Cons' split: if_splits list.splits)

lemma valid_utf8_step:
  "decode_wf s = Some (r, w) \<Longrightarrow> valid_utf8 s = valid_utf8 (drop w s)"
  by (subst valid_utf8.simps) (auto simp: split: option.splits)

lemma valid_utf8_suffix: "valid_utf8 (p @ q) \<Longrightarrow> valid_utf8 p \<Longrightarrow> valid_utf8 q"
proof (induction p rule: valid_utf8.induct)
  case (1 p)
  show ?case
  proof (cases "p = []")
    case False
    then obtain r w where d: "decode_wf p = Some (r, w)" and rest: "valid_utf8 (drop w p)"
      using 1(3) by (subst (asm) valid_utf8.simps) (auto split: option.splits)
    have "w \<le> length p" using decode_wf_width [OF d] by simp
    then have "valid_utf8 (drop w p @ q)"
      using 1(2) valid_utf8_step [OF decode_wf_append [OF d]] by simp
    then show ?thesis using 1(1) False d rest by auto
  qed (use 1 in simp)
qed

text \<open>An ASCII byte never lies inside a longer sequence.\<close>

lemma decode_wf_ascii:
  assumes "decode_wf (p @ c # q) = Some (r, w)" and "byte c < 128" and "length p < w"
  shows "p = [] \<and> w = 1"
proof (cases p)
  case Nil
  then show ?thesis using assms by (simp add: lead_width_def)
next
  case (Cons b bs)
  have "w \<le> 4" using decode_wf_width [OF assms(1)] by simp
  then show ?thesis
    using assms Cons
    by (cases bs; cases "tl bs"; cases "tl (tl bs)")
      (auto simp: Let_def second_ok_def is_cont_def split: if_splits list.splits)
qed

lemma valid_utf8_prefix_ascii: "valid_utf8 (p @ c # q) \<Longrightarrow> byte c < 128 \<Longrightarrow> valid_utf8 (p @ [c])"
proof (induction "length p" arbitrary: p rule: less_induct)
  case less
  obtain r w where d: "decode_wf (p @ c # q) = Some (r, w)" and rest: "valid_utf8 (drop w (p @ c # q))"
    using less.prems(1) by (subst (asm) valid_utf8.simps) (auto split: option.splits)
  show ?case
  proof (cases "length p < w")
    case True
    then have "p = []" using decode_wf_ascii [OF d less.prems(2)] by simp
    then show ?thesis using less.prems(2) by (simp add: valid_utf8_Cons lead_width_def)
  next
    case False
    have w: "1 \<le> w" using decode_wf_width [OF d] by simp
    have pre: "decode_wf (p @ [c]) = Some (r, w)"
      using decode_wf_append [OF decode_wf_take [OF d], of "drop w p @ [c]"] False by (simp flip: append_assoc)
    have "valid_utf8 (drop w p @ [c])"
      using less.hyps [of "drop w p"] rest False w less.prems(2) by auto
    then show ?thesis using valid_utf8_step [OF pre] False by simp
  qed
qed

section \<open>Where a piece ends\<close>

lemma slice_length: "0 \<le> a \<Longrightarrow> a \<le> b \<Longrightarrow> b \<le> int (length s) \<Longrightarrow> int (length (slice s a b)) = b - a"
  by (simp add: slice_def)

lemma slice_split:
  "0 \<le> a \<Longrightarrow> a \<le> m \<Longrightarrow> m \<le> b \<Longrightarrow> slice s a b = slice s a m @ slice s m b"
proof -
  assume a: "0 \<le> a" "a \<le> m" "m \<le> b"
  then have "nat (b - a) = nat (m - a) + nat (b - m)" "nat m = nat (m - a) + nat a" by auto
  then show ?thesis by (simp add: slice_def take_add)
qed

lemma slice_empty [simp]: "slice s a a = []"
  by (simp add: slice_def)

lemma shorten_bounds: "start \<le> stop \<Longrightarrow> start \<le> shorten v start stop \<and> shorten v start stop \<le> stop"
  by (induction v start stop rule: shorten.induct) (subst (1 2) shorten.simps, auto)

lemma shorten_valid: "start \<le> stop \<Longrightarrow> valid_utf8 (slice v start (shorten v start stop))"
proof (induction v start stop rule: shorten.induct)
  case (1 v start stop)
  then show ?case by (subst shorten.simps) auto
qed

lemma look_back_Some:
  "look_back v limit cursor = Some k \<Longrightarrow> limit < k \<and> k \<le> cursor \<and> is_space (byte (v ! nat (k - 1)))"
proof (induction v limit cursor rule: look_back.induct)
  case (1 v limit cursor)
  then show ?case by (subst (asm) look_back.simps) (fastforce split: if_splits)
qed

lemma boundedSpanEnd_bounds:
  assumes "start < blockEnd"
  shows "start \<le> boundedSpanEnd v start blockEnd \<and> boundedSpanEnd v start blockEnd \<le> blockEnd
    \<and> boundedSpanEnd v start blockEnd \<le> start + 1600"
proof (cases "blockEnd - start \<le> 1600")
  case True
  then show ?thesis using assms by (simp add: boundedSpanEnd_def MaximumEvidenceSpanBytes_def)
next
  case False
  let ?stop = "shorten v start (start + 1600)"
  have stop: "start \<le> ?stop" "?stop \<le> start + 1600" using shorten_bounds [of start "start + 1600" v] by auto
  then show ?thesis
    using False look_back_Some [of v "start + 800" ?stop]
    by (auto simp: boundedSpanEnd_def MaximumEvidenceSpanBytes_def Let_def split: option.split)
qed

section \<open>The spans of a document\<close>

text \<open>A round that does not advance never will; such a run ends in the error.\<close>

lemma cut_block_stuck:
  "start < blockEnd \<Longrightarrow> boundedSpanEnd v start blockEnd = start \<Longrightarrow> \<exists>e. cut_block v path start blockEnd spans = Inl e"
proof (induction v path start blockEnd spans rule: cut_block.induct)
  case (1 v path start blockEnd spans)
  then show ?case by (subst cut_block.simps) (auto simp: Let_def)
qed

text \<open>What the pieces of one block are.\<close>

fun pieces_ok :: "string \<Rightarrow> int \<Rightarrow> int \<Rightarrow> nat \<Rightarrow> evidence_span list \<Rightarrow> bool" where
  "pieces_ok v start stop n [] = (start = stop)"
| "pieces_ok v start stop n (p # ps) =
     (span_ID p = span_name n \<and> span_StartOffset p = start \<and> start < span_EndOffset p
      \<and> span_EndOffset p \<le> start + 1600 \<and> span_EndOffset p \<le> stop \<and> span_Text p = slice v start (span_EndOffset p)
      \<and> pieces_ok v (span_EndOffset p) stop (n + 1) ps)"

lemma cut_block_Inr:
  assumes "cut_block v path start blockEnd spans = Inr r" and "start \<le> blockEnd" and "length spans \<le> 200"
  shows "\<exists>ps. r = spans @ ps \<and> length r \<le> 200 \<and> pieces_ok v start blockEnd (length spans) ps"
  using assms
proof (induction v path start blockEnd spans arbitrary: r rule: cut_block.induct)
  case (1 v path start blockEnd spans)
  show ?case
  proof (cases "start < blockEnd")
    case False
    then show ?thesis using 1(2-4) by (subst (asm) cut_block.simps) auto
  next
    case True
    let ?stop = "boundedSpanEnd v start blockEnd"
    let ?p = "make_span v path (length spans) start ?stop"
    have len: "length (spans @ [?p]) \<le> 200" and rec: "cut_block v path ?stop blockEnd (spans @ [?p]) = Inr r"
      using 1(2) True by (subst (asm) cut_block.simps, auto simp: Let_def MaximumEvidenceSpans_def split: if_splits)+
    note bounds = boundedSpanEnd_bounds [OF True, of v]
    have "?stop \<noteq> start" using cut_block_stuck [OF True, of v path spans] 1(2) by auto
    with bounds have adv: "start < ?stop" by simp
    obtain ps where "r = (spans @ [?p]) @ ps" "length r \<le> 200" "pieces_ok v ?stop blockEnd (length (spans @ [?p])) ps"
      using 1(1) [OF True refl refl _ rec] len bounds by (auto simp: MaximumEvidenceSpans_def)
    then show ?thesis
      using adv bounds by (intro exI [of _ "?p # ps"]) (simp add: make_span_def)
  qed
qed

text \<open>The identifiers number the spans, so they differ.\<close>

lemma pad4_inj: "pad4 m = pad4 n \<Longrightarrow> m = n"
  by (metis pad4_def digits_val_zeros digits_val_nat_digits)

lemma pieces_ok_ids: "pieces_ok v start stop n ps \<Longrightarrow> map span_ID ps = map span_name [n..<n + length ps]"
proof (induction ps arbitrary: start n)
  case (Cons p ps)
  have "[n..<n + length (p # ps)] = n # [Suc n..<Suc n + length ps]"
    by (subst upt_conv_Cons) (simp_all del: upt_Suc)
  then show ?case using Cons.IH [of "span_EndOffset p" "n + 1"] Cons.prems by (simp del: upt_Suc)
qed simp

lemma pieces_ok_text:
  "pieces_ok v start stop n ps \<Longrightarrow> 0 \<le> start \<Longrightarrow> concat (map span_Text ps) = slice v start stop \<and> start \<le> stop"
proof (induction ps arbitrary: start n)
  case (Cons p ps)
  then show ?case using slice_split [of start "span_EndOffset p" stop v] by auto
qed simp

lemma pieces_ok_each:
  "pieces_ok v start stop n ps \<Longrightarrow> 0 \<le> start \<Longrightarrow> p \<in> set ps \<Longrightarrow>
   start \<le> span_StartOffset p \<and> span_StartOffset p < span_EndOffset p \<and> span_EndOffset p \<le> stop
   \<and> span_EndOffset p - span_StartOffset p \<le> 1600 \<and> span_Text p = slice v (span_StartOffset p) (span_EndOffset p)"
  by (induction ps arbitrary: start n) fastforce+

definition block_ok :: "string \<Rightarrow> outline_block \<Rightarrow> bool" where
  "block_ok v b \<longleftrightarrow> 0 \<le> blk_NormalizedStart b \<and> blk_NormalizedStart b < blk_NormalizedEnd b
     \<and> blk_NormalizedEnd b \<le> int (length v) \<and> valid_utf8 (slice v (blk_NormalizedStart b) (blk_NormalizedEnd b))"

definition span_ok :: "string \<Rightarrow> evidence_span \<Rightarrow> bool" where
  "span_ok v p \<longleftrightarrow> 0 \<le> span_StartOffset p \<and> span_StartOffset p < span_EndOffset p
     \<and> span_EndOffset p \<le> int (length v) \<and> span_EndOffset p - span_StartOffset p \<le> 1600
     \<and> span_Text p = slice v (span_StartOffset p) (span_EndOffset p)"

lemma cut_blocks_Inr:
  assumes "cut_blocks v prev bs spans = Inr r" and "length spans \<le> 200" and "\<forall>p\<in>set spans. span_ok v p"
    and "map span_ID spans = map span_name [0..<length spans]"
  shows "length r \<le> 200 \<and> (\<forall>p\<in>set r. span_ok v p) \<and> (\<forall>b\<in>set bs. block_ok v b)
    \<and> map span_ID r = map span_name [0..<length r]
    \<and> concat (map span_Text r) = concat (map span_Text spans)
        @ concat (map (\<lambda>b. slice v (blk_NormalizedStart b) (blk_NormalizedEnd b)) bs)"
  using assms
proof (induction bs arbitrary: prev spans)
  case (Cons b bs)
  obtain spans1 where block: "block_ok v b"
    and cut: "cut_block v (sectionPath b) (blk_NormalizedStart b) (blk_NormalizedEnd b) spans = Inr spans1"
    and rest: "cut_blocks v (blk_NormalizedEnd b) bs spans1 = Inr r"
    using Cons.prems(1) by (auto simp: go_result block_ok_def split: if_splits)
  obtain ps where ps: "spans1 = spans @ ps" "length spans1 \<le> 200"
    "pieces_ok v (blk_NormalizedStart b) (blk_NormalizedEnd b) (length spans) ps"
    using cut_block_Inr [OF cut _ Cons.prems(2)] block by (auto simp: block_ok_def)
  have start: "0 \<le> blk_NormalizedStart b" using block by (simp add: block_ok_def)
  have "\<forall>p\<in>set spans1. span_ok v p"
    using Cons.prems(3) ps(1) pieces_ok_each [OF ps(3) start] block by (fastforce simp: span_ok_def block_ok_def)
  moreover have "map span_ID spans1 = map span_name [0..<length spans1]"
    using Cons.prems(4) ps(1) pieces_ok_ids [OF ps(3)] upt_add_eq_append [of 0 "length spans" "length ps"] by simp
  ultimately show ?case
    using Cons.IH [OF rest ps(2)] ps(1) block pieces_ok_text [OF ps(3) start] by simp
qed simp

lemma BuildEvidenceSpans_Inr:
  "BuildEvidenceSpans v outline = Inr spans \<longleftrightarrow>
   v \<noteq> [] \<and> int (length v) \<le> MaximumNormalizedBytes \<and> valid_utf8 v \<and> spans \<noteq> []
   \<and> (\<exists>decoded. outline = Some decoded \<and> cut_blocks v 0 (blocks_of v decoded) [] = Inr spans)"
  by (auto simp: BuildEvidenceSpans_def blocks_of_def Let_def go_result split: option.splits if_splits)

text \<open>
  Evidence spans cover the outline exactly: when spans are built, there are between 1 and 200 of
  them with distinct identifiers, each is a non-empty slice of the text of at most 1600 bytes, and
  their texts joined together are the texts of the outline's blocks joined together (the whole text
  when the outline is empty).
\<close>

lemma spans_cover:
  assumes "BuildEvidenceSpans v (Some decoded) = Inr spans"
  shows "1 \<le> length spans \<and> length spans \<le> 200 \<and> distinct (map span_ID spans) \<and> (\<forall>p\<in>set spans. span_ok v p)
    \<and> concat (map span_Text spans)
        = concat (map (\<lambda>b. slice v (blk_NormalizedStart b) (blk_NormalizedEnd b)) (blocks_of v decoded))
    \<and> (decoded = [] \<longrightarrow> concat (map span_Text spans) = v)"
proof -
  have cut: "cut_blocks v 0 (blocks_of v decoded) [] = Inr spans" and "spans \<noteq> []"
    using assms by (auto simp: BuildEvidenceSpans_Inr)
  note all = cut_blocks_Inr [OF cut]
  have "inj_on span_name (set [0..<length spans])"
    by (auto simp: inj_on_def span_name_def dest: pad4_inj)
  then have "distinct (map span_ID spans)" using all by (simp add: distinct_map)
  then show ?thesis
    using all \<open>spans \<noteq> []\<close> by (auto simp: Suc_le_eq blocks_of_def document_block_def slice_def)
qed

definition span_sample :: string where
  "span_sample = ''Go 1.26 is out.''"

lemma spans_cover_witness:
  "\<exists>spans. BuildEvidenceSpans span_sample (Some []) = Inr spans \<and> concat (map span_Text spans) = span_sample"
proof -
  have "\<not> isl (BuildEvidenceSpans span_sample (Some []))" by code_simp
  then obtain spans where "BuildEvidenceSpans span_sample (Some []) = Inr spans"
    by (cases "BuildEvidenceSpans span_sample (Some [])") auto
  from spans_cover [OF this] this show ?thesis by auto
qed

section \<open>Spans and UTF-8 sequences\<close>

text \<open>The two bytes above the ASCII range that the look-back takes for spaces.\<close>

definition latin_spaces :: "string \<Rightarrow> bool" where
  "latin_spaces v \<longleftrightarrow> list_ex (\<lambda>c. byte c = (133 :: nat) \<or> byte c = (160 :: nat)) v"

lemma byte_space: "is_space (byte c) \<Longrightarrow> byte c < (128 :: nat) \<or> byte c = (133 :: nat) \<or> byte c = (160 :: nat)"
proof -
  have "byte c < (256 :: nat)" using nat_of_char_less_256 .
  then show "is_space (byte c) \<Longrightarrow> byte c < (128 :: nat) \<or> byte c = (133 :: nat) \<or> byte c = (160 :: nat)"
    by (auto simp: is_space_def)
qed

lemma slice_last:
  assumes "0 \<le> start" and "start < k" and "k \<le> int (length v)"
  shows "slice v start k = slice v start (k - 1) @ [v ! nat (k - 1)]"
proof -
  have "slice v (k - 1) k = [v ! nat (k - 1)]"
    using assms by (simp add: slice_def take_Suc_conv_app_nth Cons_nth_drop_Suc [symmetric])
  then show ?thesis using slice_split [of start "k - 1" k v] assms by simp
qed

lemma boundedSpanEnd_valid:
  assumes "0 \<le> start" and "start < blockEnd" and "blockEnd \<le> int (length v)" and "\<not> latin_spaces v"
    and "valid_utf8 (slice v start blockEnd)"
  shows "valid_utf8 (slice v start (boundedSpanEnd v start blockEnd))"
proof (cases "blockEnd - start \<le> 1600")
  case True
  then show ?thesis using assms(5) by (simp add: boundedSpanEnd_def MaximumEvidenceSpanBytes_def)
next
  case False
  let ?stop = "shorten v start (start + 1600)"
  have valid: "valid_utf8 (slice v start ?stop)" by (rule shorten_valid) simp
  have bound: "?stop \<le> start + 1600" using shorten_bounds [of start "start + 1600" v] by simp
  show ?thesis
  proof (cases "look_back v (start + 800) ?stop")
    case None
    then show ?thesis using False valid by (simp add: boundedSpanEnd_def MaximumEvidenceSpanBytes_def Let_def)
  next
    case (Some k)
    note k = look_back_Some [OF Some]
    have range: "0 \<le> k - 1" "k \<le> int (length v)" using k bound False assms(1,3) by auto
    then have "v ! nat (k - 1) \<in> set v" by (intro nth_mem) auto
    then have ascii: "byte (v ! nat (k - 1)) < (128 :: nat)"
      using k byte_space assms(4) by (fastforce simp: latin_spaces_def list_ex_iff)
    have last: "slice v start k = slice v start (k - 1) @ [v ! nat (k - 1)]"
      using slice_last [of start k v] assms(1) k range by auto
    have "slice v start ?stop = slice v start k @ slice v k ?stop"
      using slice_split [of start k ?stop v] k assms(1) by auto
    then have "valid_utf8 (slice v start (k - 1) @ v ! nat (k - 1) # slice v k ?stop)" using valid last by simp
    then have "valid_utf8 (slice v start k)" using valid_utf8_prefix_ascii ascii last by metis
    then show ?thesis using False Some by (simp add: boundedSpanEnd_def MaximumEvidenceSpanBytes_def Let_def)
  qed
qed

lemma cut_block_valid:
  assumes "cut_block v path start blockEnd spans = Inr r" and "0 \<le> start" and "blockEnd \<le> int (length v)"
    and "\<not> latin_spaces v" and "valid_utf8 (slice v start blockEnd)" and "\<forall>p\<in>set spans. valid_utf8 (span_Text p)"
  shows "\<forall>p\<in>set r. valid_utf8 (span_Text p)"
  using assms
proof (induction v path start blockEnd spans arbitrary: r rule: cut_block.induct)
  case (1 v path start blockEnd spans)
  show ?case
  proof (cases "start < blockEnd")
    case False
    then show ?thesis using 1(2,7) by (subst (asm) cut_block.simps) auto
  next
    case True
    let ?stop = "boundedSpanEnd v start blockEnd"
    let ?p = "make_span v path (length spans) start ?stop"
    have len: "\<not> length (spans @ [?p]) > MaximumEvidenceSpans" and rec: "cut_block v path ?stop blockEnd (spans @ [?p]) = Inr r"
      using 1(2) True by (subst (asm) cut_block.simps, auto simp: Let_def split: if_splits)+
    note bounds = boundedSpanEnd_bounds [OF True, of v]
    have valid: "valid_utf8 (slice v start ?stop)" using boundedSpanEnd_valid True 1(3-6) by blast
    moreover have "valid_utf8 (slice v ?stop blockEnd)"
      using valid_utf8_suffix [OF _ valid] slice_split [of start ?stop blockEnd v] 1(3,6) bounds by simp
    ultimately show ?thesis
      using 1(1) [OF True refl refl len rec] 1(3-5,7) bounds by (auto simp: make_span_def)
  qed
qed

lemma cut_blocks_valid:
  "cut_blocks v prev bs spans = Inr r \<Longrightarrow> \<not> latin_spaces v \<Longrightarrow> \<forall>p\<in>set spans. valid_utf8 (span_Text p) \<Longrightarrow>
   \<forall>p\<in>set r. valid_utf8 (span_Text p)"
proof (induction bs arbitrary: prev spans)
  case (Cons b bs)
  then obtain spans1 where "0 \<le> blk_NormalizedStart b" "blk_NormalizedEnd b \<le> int (length v)"
    "valid_utf8 (slice v (blk_NormalizedStart b) (blk_NormalizedEnd b))"
    and cut: "cut_block v (sectionPath b) (blk_NormalizedStart b) (blk_NormalizedEnd b) spans = Inr spans1"
    and rest: "cut_blocks v (blk_NormalizedEnd b) bs spans1 = Inr r"
    by (auto simp: go_result split: if_splits)
  then have "\<forall>p\<in>set spans1. valid_utf8 (span_Text p)" using cut_block_valid Cons.prems(2,3) by blast
  then show ?case using Cons.IH [OF rest Cons.prems(2)] by blast
qed simp

text \<open>
  A text without the bytes 0x85 and 0xA0 is cut between characters: every span is valid UTF-8.
\<close>

lemma spans_valid_utf8:
  assumes "BuildEvidenceSpans v (Some decoded) = Inr spans" and "\<not> latin_spaces v"
  shows "\<forall>p\<in>set spans. valid_utf8 (span_Text p)"
  using assms cut_blocks_valid [of v 0 "blocks_of v decoded" "[]" spans] by (auto simp: BuildEvidenceSpans_Inr)

lemma spans_valid_utf8_witness:
  "\<exists>spans. BuildEvidenceSpans span_sample (Some []) = Inr spans \<and> (\<forall>p\<in>set spans. valid_utf8 (span_Text p))"
proof -
  have "\<not> isl (BuildEvidenceSpans span_sample (Some []))" by code_simp
  then obtain spans where spans: "BuildEvidenceSpans span_sample (Some []) = Inr spans"
    by (cases "BuildEvidenceSpans span_sample (Some [])") auto
  moreover have "\<not> latin_spaces span_sample" by code_simp
  ultimately show ?thesis using spans_valid_utf8 by blast
qed

text \<open>1597 letters, the character U+5168 (bytes E5 85 A8) and one more letter.\<close>

definition split_sample :: string where
  "split_sample = replicate 1597 CHR ''a'' @ [CHR 0xE5, CHR 0x85, CHR 0xA8] @ ''a''"

lemma valid_letters: "valid_utf8 (replicate n CHR ''a'' @ t) = valid_utf8 t"
proof (induction n)
  case (Suc n)
  then show ?case
    using valid_utf8_step [of "replicate (Suc n) CHR ''a'' @ t" 97 1] by (simp add: lead_width_def)
qed simp

lemma split_sample_slices:
  "slice split_sample 0 1600 = replicate 1597 CHR ''a'' @ [CHR 0xE5, CHR 0x85, CHR 0xA8]"
  "slice split_sample 0 1599 = replicate 1597 CHR ''a'' @ [CHR 0xE5, CHR 0x85]"
  "slice split_sample 1599 1601 = [CHR 0xA8, CHR ''a'']"
  "split_sample ! 1599 = CHR 0xA8" "split_sample ! 1598 = CHR 0x85" "length split_sample = 1601"
  by (simp_all add: split_sample_def slice_def nth_append)

lemma split_bytes:
  "valid_utf8 [CHR 0xE5, CHR 0x85, CHR 0xA8]" "valid_utf8 [CHR 0xE5, CHR 0x85, CHR 0xA8, CHR ''a'']"
  "\<not> valid_utf8 [CHR 0xE5, CHR 0x85]" "\<not> valid_utf8 [CHR 0xA8, CHR ''a'']"
  "\<not> is_space (byte (CHR 0xA8))" "is_space (byte (CHR 0x85))"
  by code_simp+

lemma split_sample_end: "boundedSpanEnd split_sample 0 1601 = 1599"
proof -
  have "shorten split_sample 0 1600 = 1600"
    by (subst shorten.simps) (simp add: split_sample_slices valid_letters split_bytes)
  moreover have "look_back split_sample 800 1600 = Some 1599"
    by (subst look_back.simps, subst look_back.simps) (simp add: split_sample_slices is_space_def)
  ultimately show ?thesis by (simp add: boundedSpanEnd_def MaximumEvidenceSpanBytes_def)
qed

lemma split_sample_cut:
  "cut_block split_sample path 0 1601 [] =
   Inr [make_span split_sample path 0 0 1599, make_span split_sample path 1 1599 1601]"
proof -
  have "boundedSpanEnd split_sample 1599 1601 = 1601"
    by (simp add: boundedSpanEnd_def MaximumEvidenceSpanBytes_def)
  then show ?thesis
    by (subst cut_block.simps, simp add: split_sample_end MaximumEvidenceSpans_def)
      (subst cut_block.simps, simp add: MaximumEvidenceSpans_def, subst cut_block.simps, simp)
qed

text \<open>
  With those bytes a span can end inside a character: this text is valid UTF-8, its spans are
  built without an error, and no span of it is valid UTF-8.
\<close>

lemma spans_split_character:
  "valid_utf8 split_sample \<and> (case BuildEvidenceSpans split_sample (Some []) of
     Inl _ \<Rightarrow> False | Inr spans \<Rightarrow> spans \<noteq> [] \<and> list_all (\<lambda>p. \<not> valid_utf8 (span_Text p)) spans)"
proof -
  have whole: "valid_utf8 split_sample" by (simp add: split_sample_def valid_letters split_bytes)
  have slice_all: "slice split_sample 0 1601 = split_sample" by (simp add: slice_def split_sample_slices)
  have "BuildEvidenceSpans split_sample (Some []) = Inr [make_span split_sample (sectionPath (document_block split_sample)) 0 0 1599,
      make_span split_sample (sectionPath (document_block split_sample)) 1 1599 1601]"
    using whole split_sample_cut [of "sectionPath (document_block split_sample)"] split_sample_slices(6)
    by (auto simp: BuildEvidenceSpans_def MaximumNormalizedBytes_def document_block_def slice_all)
  then show ?thesis
    using whole by (simp add: make_span_def split_sample_slices valid_letters split_bytes)
qed

end
