(* ===== verification/Claim_Extraction.thy ===== *)
theory Claim_Extraction
  imports Evidence_Spans Go_Time
begin

text \<open>
  Structured extraction (\<open>src/internal/extraction\<close>): the budget amounts (\<open>budget.go\<close>), the validation
  of what the model returns (\<open>validate.go\<close>) and the processor (\<open>processor.go\<close>) that prepares a run,
  cuts the evidence, asks the provider at most twice and stores a validated result. The run repository,
  the object store, the provider, the JSON codec, SHA-256 and the registered prompt and schema are the
  fields of the argument \<open>world\<close>; the calls the processor makes are its trace.
\<close>

section \<open>Budget amounts\<close>

text \<open>\<open>^(?:0|[1-9][0-9]{0,7})(?:\.[0-9]{1,8})?$\<close>\<close>

definition usd_whole :: "string \<Rightarrow> bool" where
  "usd_whole s \<longleftrightarrow> s = ''0'' \<or> (s \<noteq> [] \<and> list_all is_digit s \<and> hd s \<noteq> CHR ''0'' \<and> length s \<le> 8)"

definition usd_fraction :: "string \<Rightarrow> bool" where
  "usd_fraction s \<longleftrightarrow> s \<noteq> [] \<and> list_all is_digit s \<and> length s \<le> 8"

definition usdPattern :: "string \<Rightarrow> bool" where
  "usdPattern s \<longleftrightarrow>
     (case split_byte CHR ''.'' s of
        [w] \<Rightarrow> usd_whole w
      | [w, f] \<Rightarrow> usd_whole w \<and> usd_fraction f
      | _ \<Rightarrow> False)"

text \<open>\<open>big.Rat.SetString\<close> on the values of the type \<open>USD\<close>, which \<open>ParseUSD\<close> makes of the decimals of the
  pattern.\<close>

definition usd_amount :: "string \<Rightarrow> rat option" where
  "usd_amount s =
     (if \<not> usdPattern s then None
      else (case split_byte CHR ''.'' s of
              [w] \<Rightarrow> Some (of_nat (digits_val 0 w))
            | [w, f] \<Rightarrow> Some (of_nat (digits_val 0 w) + of_nat (digits_val 0 f) / 10 ^ length f)
            | _ \<Rightarrow> None))"

definition ParseUSD :: "string \<Rightarrow> string + string" where
  "ParseUSD v =
     (if \<not> usdPattern v
      then Inl ''USD amount must be a non-negative decimal with at most eight fractional digits''
      else (case usd_amount v of
              None \<Rightarrow> Inl ''USD amount must be a valid non-negative decimal''
            | Some a \<Rightarrow> if a < 0 then Inl ''USD amount must be a valid non-negative decimal'' else Inr v))"

definition ValidateBudgetRange :: "string \<Rightarrow> string \<Rightarrow> string option" where
  "ValidateBudgetRange soft hard =
     (case usd_amount soft of
        None \<Rightarrow> Some ''monthly soft USD budget must be positive''
      | Some s \<Rightarrow>
          if s \<le> 0 then Some ''monthly soft USD budget must be positive''
          else (case usd_amount hard of
                  None \<Rightarrow> Some ''monthly hard USD budget must be greater than or equal to the soft budget''
                | Some h \<Rightarrow>
                    if h < s then Some ''monthly hard USD budget must be greater than or equal to the soft budget''
                    else None))"

section \<open>The model's output\<close>

definition MaximumClaims :: nat where "MaximumClaims = 50"
definition MaximumSchemaAttempts :: nat where "MaximumSchemaAttempts = 2"

record claim =
  ClaimType :: string
  ClaimText :: string
  NormalizedValue :: string
  Confidence :: string
  Material :: bool
  EvidenceSpanIDs :: "string list"

record extraction_output =
  TopicIDs :: "string list"
  EventType :: string
  LifecycleState :: string
  DeepExtractionJustified :: bool
  Claims :: "claim list"
  Uncertainties :: "string list"

definition allowedEventTypes :: "string list" where
  "allowedEventTypes = [''release'', ''security'', ''breaking_change'', ''deprecation'', ''migration'',
     ''preview'', ''proposal'', ''general'', ''unknown'']"

definition allowedLifecycleStates :: "string list" where
  "allowedLifecycleStates = [''stable'', ''preview'', ''release_candidate'', ''deprecated'', ''end_of_life'', ''unknown'']"

definition allowedClaimTypes :: "string list" where
  "allowedClaimTypes = [''release'', ''version'', ''date'', ''breaking_change'', ''deprecation'', ''security'',
     ''migration_prerequisite'', ''example'', ''compatibility'', ''general'']"

definition allowedConfidence :: "string list" where
  "allowedConfidence = [''high'', ''medium'', ''low'', ''unknown'']"

definition is_lower_alnum :: "char \<Rightarrow> bool" where
  "is_lower_alnum c \<longleftrightarrow> is_digit c \<or> (97 \<le> byte c \<and> byte c \<le> (122 :: nat))"

text \<open>\<open>^[a-z0-9]+(?:[._-][a-z0-9]+)*$\<close>, read from the left; the flag says that a letter or digit is due.\<close>

fun topic_match :: "bool \<Rightarrow> string \<Rightarrow> bool" where
  "topic_match due [] = (\<not> due)"
| "topic_match due (c # cs) =
     (if is_lower_alnum c then topic_match False cs
      else \<not> due \<and> (c = CHR ''.'' \<or> c = CHR ''_'' \<or> c = CHR ''-'') \<and> topic_match True cs)"

definition topicIDPattern :: "string \<Rightarrow> bool" where
  "topicIDPattern s = topic_match True s"

text \<open>\<open>time.Parse("2006-01-02", s)\<close>; formatting the result gives \<open>s\<close> back.\<close>

definition date_only :: "string \<Rightarrow> bool" where
  "date_only s \<longleftrightarrow>
     (case year_digits s of
        None \<Rightarrow> False
      | Some (y, s1) \<Rightarrow>
          (case Option.bind (expect CHR ''-'' s1) two_digits of
             None \<Rightarrow> False
           | Some (mo, s2) \<Rightarrow>
               (case Option.bind (expect CHR ''-'' s2) two_digits of
                  None \<Rightarrow> False
                | Some (d, s3) \<Rightarrow> s3 = [] \<and> 1 \<le> mo \<and> mo \<le> 12 \<and> 1 \<le> d \<and> d \<le> days_in_month y mo)))"

definition trimmed_length :: "string \<Rightarrow> nat" where
  "trimmed_length s = rune_count (trim_space s)"

definition validateClaim :: "claim \<Rightarrow> string list \<Rightarrow> string option" where
  "validateClaim c spanIDs =
     (if ClaimType c \<notin> set allowedClaimTypes then Some ''unsupported claim type''
      else if trimmed_length (ClaimText c) < 1 \<or> trimmed_length (ClaimText c) > 1000
      then Some ''claim text must contain 1 through 1000 characters''
      else if rune_count (NormalizedValue c) > 500 then Some ''normalized value exceeds 500 characters''
      else if Confidence c \<notin> set allowedConfidence then Some ''unsupported confidence''
      else if length (EvidenceSpanIDs c) < 1 \<or> length (EvidenceSpanIDs c) > 8
      then Some ''every claim requires 1 through 8 evidence spans''
      else or_else
        (unique_scan (\<lambda>i. if i \<notin> set spanIDs then Some ''claim references unknown evidence span'' else None)
           (\<lambda>i. i) (\<lambda>i. ''claim repeats evidence span'') [] (EvidenceSpanIDs c))
        (if ClaimType c = ''date'' \<and> NormalizedValue c \<noteq> [] \<and> \<not> date_only (NormalizedValue c)
         then Some ''date normalized values must use YYYY-MM-DD'' else None))"

definition claim_key :: "claim \<Rightarrow> string" where
  "claim_key c = ClaimType c @ [CHR 0x00] @ ClaimText c @ [CHR 0x00] @ NormalizedValue c"

definition ValidateOutput :: "extraction_output \<Rightarrow> evidence_span list \<Rightarrow> string option" where
  "ValidateOutput out spans =
     (if length (TopicIDs out) > 20 \<or> length (Claims out) > MaximumClaims \<or> length (Uncertainties out) > 20
      then Some ''structured extraction exceeds an array bound''
      else if EventType out \<notin> set allowedEventTypes then Some ''unsupported event type''
      else if LifecycleState out \<notin> set allowedLifecycleStates then Some ''unsupported lifecycle state''
      else or_else
        (unique_scan (\<lambda>t. if t = [] \<or> length t > 64 \<or> \<not> topicIDPattern t then Some ''invalid topic ID'' else None)
           (\<lambda>t. t) (\<lambda>t. ''duplicate topic ID'') [] (TopicIDs out))
       (or_else (unique_scan (\<lambda>p. None) span_ID (\<lambda>p. ''duplicate supplied evidence span'') [] spans)
       (or_else (unique_scan (\<lambda>c. validateClaim c (map span_ID spans)) claim_key
                  (\<lambda>c. ''claim duplicates an earlier claim'') [] (Claims out))
         (first_error (\<lambda>u. if trimmed_length u < 1 \<or> trimmed_length u > 500
                            then Some ''uncertainty must contain 1 through 500 characters'' else None)
            (Uncertainties out)))))"

definition DecodeAndValidate :: "(string \<Rightarrow> extraction_output option) \<Rightarrow> string \<Rightarrow> evidence_span list \<Rightarrow> string + extraction_output" where
  "DecodeAndValidate decode raw spans =
     (case decode raw of
        None \<Rightarrow> Inl ''decode structured extraction output''
      | Some out \<Rightarrow> check (ValidateOutput out spans) (Inr out))"

section \<open>The processor\<close>

text \<open>An error is the list of sentinel errors \<open>errors.Is\<close> finds in it.\<close>

datatype sentinel =
    ErrInvalidTarget | ErrBudgetExceeded | ErrRevisionIntegrity | ErrConfigurationDrift
  | ErrSchemaInvalid | ErrOther

type_synonym proc_error = "sentinel list"

record process_request =
  req_ItemID :: string
  req_RevisionID :: string

record process_result =
  out_RunID :: string
  out_ClaimCount :: int
  out_AlreadyCompleted :: bool
  out_NeedsReview :: bool
  out_Obsolete :: bool

record model_config =
  mc_ModelID :: string
  mc_Reasoning :: string
  mc_Verbosity :: string
  mc_EnabledTools :: "string list"
  mc_MaxOutputTokens :: int

record prompt_version =
  pv_SemanticVersion :: string
  pv_PromptSHA256 :: string
  pv_SchemaVersion :: string
  pv_SchemaSHA256 :: string

record prepared_run =
  run_RunID :: string
  run_SourceID :: string
  run_SourceTier :: string
  run_Title :: string
  run_ObjectKey :: string
  run_NormalizedHash :: string
  run_NormalizedBytes :: int
  run_Outline :: "outline_block list option"
  run_FirstSeenAt :: time
  run_Model :: model_config
  run_Prompt :: prompt_version
  run_State :: string
  run_Obsolete :: bool

record provider_response =
  resp_ID :: string
  resp_Output :: string

record completion =
  comp_Output :: extraction_output
  comp_Spans :: "evidence_span list"
  comp_ProviderID :: string
  comp_NeedsReview :: bool
  comp_CompletedState :: string

record config =
  cfg_ExpectedModelID :: string
  cfg_ExpectedReasoning :: string
  cfg_ExpectedVerbosity :: string
  cfg_ExpectedMaxOutputTokens :: int
  cfg_MonthlySoftUSD :: string
  cfg_MonthlyHardUSD :: string
  cfg_MaximumAge :: duration

record world =
  w_uuid_ok :: "string \<Rightarrow> bool"
  w_now :: time
  w_prepare :: "process_request \<Rightarrow> proc_error + prepared_run"
  w_read :: "string \<Rightarrow> proc_error + string"
  w_sha256 :: "string \<Rightarrow> string"
  w_encode :: "prepared_run \<Rightarrow> evidence_span list \<Rightarrow> proc_error + string"
  w_prompt :: string
  w_prompt_version :: string
  w_schema :: string
  w_schema_version :: string
  w_reserve :: "nat \<Rightarrow> int \<Rightarrow> proc_error option"
  w_extract :: "nat \<Rightarrow> string \<Rightarrow> proc_error + provider_response"
  w_decode :: "string \<Rightarrow> extraction_output option"
  w_record :: "nat \<Rightarrow> string \<Rightarrow> proc_error option"
  w_complete :: "completion \<Rightarrow> proc_error + process_result"
  w_fail :: "string \<Rightarrow> proc_error option"

datatype event =
    EvReserve nat
  | EvExtract nat
  | EvRecord nat string
  | EvComplete completion
  | EvFail string

definition NewProcessor :: "config \<Rightarrow> string option" where
  "NewProcessor cfg =
     or_else (ValidateBudgetRange (cfg_MonthlySoftUSD cfg) (cfg_MonthlyHardUSD cfg))
    (or_else (if cfg_MaximumAge cfg \<le> 0 \<or> cfg_MaximumAge cfg > 365 * 24 * hour
              then Some ''structured extraction maximum age must be positive and at most one year'' else None)
      (if cfg_ExpectedModelID cfg = [] \<or> cfg_ExpectedReasoning cfg = [] \<or> cfg_ExpectedVerbosity cfg = []
          \<or> cfg_ExpectedMaxOutputTokens cfg < 256
       then Some ''structured extraction requires complete expected model configuration'' else None))"

text \<open>\<open>fail\<close>: the failure is persisted; when that fails too, both errors are joined.\<close>

definition proc_fail :: "world \<Rightarrow> string \<Rightarrow> proc_error \<Rightarrow> event list \<Rightarrow> (proc_error + process_result) \<times> event list" where
  "proc_fail W code cause trace =
     (case w_fail W code of
        None \<Rightarrow> (Inl cause, trace @ [EvFail code])
      | Some e \<Rightarrow> (Inl (cause @ e), trace @ [EvFail code]))"

definition validateRegistry :: "world \<Rightarrow> prepared_run \<Rightarrow> config \<Rightarrow> proc_error option" where
  "validateRegistry W p cfg =
     (if pv_SemanticVersion (run_Prompt p) \<noteq> w_prompt_version W \<or> pv_SchemaVersion (run_Prompt p) \<noteq> w_schema_version W
         \<or> pv_PromptSHA256 (run_Prompt p) \<noteq> w_sha256 W (w_prompt W)
         \<or> pv_SchemaSHA256 (run_Prompt p) \<noteq> w_sha256 W (w_schema W)
         \<or> mc_ModelID (run_Model p) \<noteq> cfg_ExpectedModelID cfg \<or> mc_Reasoning (run_Model p) \<noteq> cfg_ExpectedReasoning cfg
         \<or> mc_Verbosity (run_Model p) \<noteq> cfg_ExpectedVerbosity cfg \<or> mc_EnabledTools (run_Model p) \<noteq> []
         \<or> mc_MaxOutputTokens (run_Model p) \<noteq> cfg_ExpectedMaxOutputTokens cfg
      then Some [ErrConfigurationDrift] else None)"

definition estimateInputTokens :: "string \<Rightarrow> string \<Rightarrow> string \<Rightarrow> int" where
  "estimateInputTokens prompt input schema = (int (length prompt + length input + length schema) + 3) div 4"

definition needsHumanReview :: "extraction_output \<Rightarrow> string \<Rightarrow> bool" where
  "needsHumanReview out tier =
     (if Claims out = [] then True
      else if tier = ''T0'' \<or> tier = ''T1'' then False
      else list_ex Material (Claims out))"

text \<open>The attempts from \<open>n\<close> on, with the number of attempts still allowed.\<close>

fun attempts ::
    "world \<Rightarrow> prepared_run \<Rightarrow> evidence_span list \<Rightarrow> string \<Rightarrow> nat \<Rightarrow> nat \<Rightarrow> event list
      \<Rightarrow> (proc_error + process_result) \<times> event list" where
  "attempts W p spans input n 0 trace = (Inl [ErrSchemaInvalid], trace)"
| "attempts W p spans input n (Suc left) trace =
     (case w_reserve W n (estimateInputTokens (w_prompt W) input (w_schema W)) of
        Some e \<Rightarrow> (Inl e, trace @ [EvReserve n])
      | None \<Rightarrow>
        (let trace = trace @ [EvReserve n, EvExtract n] in
         case w_extract W n input of
           Inl e \<Rightarrow>
             proc_fail W ''provider_error''
               (case w_record W n ''provider_error'' of None \<Rightarrow> e | Some e2 \<Rightarrow> e @ e2)
               (trace @ [EvRecord n ''provider_error''])
         | Inr response \<Rightarrow>
             (let validated = DecodeAndValidate (w_decode W) (resp_Output response) spans;
                  code = (if isl validated then ''schema_invalid'' else []);
                  trace = trace @ [EvRecord n code] in
              case w_record W n code of
                Some e \<Rightarrow> proc_fail W ''provider_error'' e trace
              | None \<Rightarrow>
                  (case validated of
                     Inl _ \<Rightarrow>
                       if 0 < left then attempts W p spans input (Suc n) left trace
                       else proc_fail W ''schema_invalid'' [ErrSchemaInvalid] trace
                   | Inr out \<Rightarrow>
                       (let review = needsHumanReview out (run_SourceTier p);
                            c = \<lparr>comp_Output = out, comp_Spans = spans, comp_ProviderID = resp_ID response,
                                 comp_NeedsReview = review,
                                 comp_CompletedState = (if review then ''needs_review'' else ''completed'')\<rparr>
                        in (w_complete W c, trace @ [EvComplete c]))))))"

definition run_prepared :: "world \<Rightarrow> config \<Rightarrow> prepared_run \<Rightarrow> (proc_error + process_result) \<times> event list" where
  "run_prepared W cfg p =
     (if time_sub (w_now W) (run_FirstSeenAt p) > cfg_MaximumAge cfg
      then proc_fail W ''document_too_old'' [ErrInvalidTarget] []
      else if run_NormalizedBytes p < 1 \<or> run_NormalizedBytes p > MaximumNormalizedBytes
      then proc_fail W ''input_too_large'' [ErrInvalidTarget] []
      else (case validateRegistry W p cfg of
        Some e \<Rightarrow> proc_fail W ''configuration_drift'' e []
      | None \<Rightarrow>
        (case w_read W (run_ObjectKey p) of
           Inl e \<Rightarrow> (Inl e, [])
         | Inr payload \<Rightarrow>
           if length (run_NormalizedHash p) \<noteq> 32 \<or> w_sha256 W payload \<noteq> run_NormalizedHash p \<or> \<not> valid_utf8 payload
           then proc_fail W ''revision_integrity'' [ErrRevisionIntegrity] []
           else (case BuildEvidenceSpans payload (run_Outline p) of
              Inl _ \<Rightarrow> proc_fail W ''invalid_evidence_spans'' [ErrRevisionIntegrity] []
            | Inr spans \<Rightarrow>
                (case w_encode W p spans of
                   Inl e \<Rightarrow> (Inl e, [])
                 | Inr json \<Rightarrow>
                     attempts W p spans (''UNTRUSTED_EVIDENCE'' @ [CHR 0x0A] @ json) 1 MaximumSchemaAttempts [])))))"

definition Process :: "world \<Rightarrow> config \<Rightarrow> process_request \<Rightarrow> (proc_error + process_result) \<times> event list" where
  "Process W cfg request =
     (if \<not> w_uuid_ok W (req_ItemID request) \<or> \<not> w_uuid_ok W (req_RevisionID request)
      then (Inl [ErrInvalidTarget], [])
      else (case w_prepare W request of
        Inl e \<Rightarrow> (Inl e, [])
      | Inr p \<Rightarrow>
          if run_Obsolete p \<or> run_State p = ''obsolete''
          then (Inr \<lparr>out_RunID = run_RunID p, out_ClaimCount = 0, out_AlreadyCompleted = False,
                      out_NeedsReview = False, out_Obsolete = True\<rparr>, [])
          else if run_State p = ''completed'' \<or> run_State p = ''needs_review''
          then (Inr \<lparr>out_RunID = run_RunID p, out_ClaimCount = 0, out_AlreadyCompleted = True,
                      out_NeedsReview = (run_State p = ''needs_review''), out_Obsolete = False\<rparr>, [])
          else run_prepared W cfg p))"

definition Permanent :: "proc_error \<Rightarrow> bool" where
  "Permanent e \<longleftrightarrow>
     list_ex (\<lambda>s. s \<in> {ErrInvalidTarget, ErrRevisionIntegrity, ErrConfigurationDrift, ErrSchemaInvalid, ErrBudgetExceeded}) e"

definition ErrorCode :: "proc_error \<Rightarrow> string" where
  "ErrorCode e =
     (if ErrBudgetExceeded \<in> set e then ''budget_exceeded''
      else if ErrRevisionIntegrity \<in> set e then ''revision_integrity''
      else if ErrConfigurationDrift \<in> set e then ''configuration_drift''
      else if ErrSchemaInvalid \<in> set e then ''schema_invalid''
      else if ErrInvalidTarget \<in> set e then ''invalid_target''
      else ''provider_error'')"

section \<open>A concrete run\<close>

definition sample_claim :: claim where
  "sample_claim = \<lparr>ClaimType = ''release'', ClaimText = ''Go 1.26 is out.'', NormalizedValue = ''1.26'',
     Confidence = ''high'', Material = True, EvidenceSpanIDs = [''span_0001'']\<rparr>"

definition sample_output :: extraction_output where
  "sample_output = \<lparr>TopicIDs = [''go''], EventType = ''release'', LifecycleState = ''stable'',
     DeepExtractionJustified = False, Claims = [sample_claim], Uncertainties = []\<rparr>"

definition sample_digest :: "string \<Rightarrow> string" where
  "sample_digest s = replicate 32 (CHR ''h'')"

definition sample_run :: prepared_run where
  "sample_run = \<lparr>run_RunID = ''run'', run_SourceID = ''go-blog'', run_SourceTier = ''T2'', run_Title = ''Go 1.26'',
     run_ObjectKey = ''object'', run_NormalizedHash = sample_digest [], run_NormalizedBytes = 15, run_Outline = Some [],
     run_FirstSeenAt = 0,
     run_Model = \<lparr>mc_ModelID = ''m'', mc_Reasoning = ''low'', mc_Verbosity = ''low'', mc_EnabledTools = [], mc_MaxOutputTokens = 4096\<rparr>,
     run_Prompt = \<lparr>pv_SemanticVersion = ''1.0.0'', pv_PromptSHA256 = sample_digest [], pv_SchemaVersion = ''1.0.0'',
       pv_SchemaSHA256 = sample_digest []\<rparr>,
     run_State = ''running'', run_Obsolete = False\<rparr>"

text \<open>The first response does not decode, the second is the sample output.\<close>

definition sample_world :: world where
  "sample_world = \<lparr>w_uuid_ok = (\<lambda>s. s \<noteq> []), w_now = hour, w_prepare = (\<lambda>r. Inr sample_run), w_read = (\<lambda>k. Inr span_sample),
     w_sha256 = sample_digest, w_encode = (\<lambda>p spans. Inr ''{}''), w_prompt = ''Extract.'', w_prompt_version = ''1.0.0'',
     w_schema = ''{}'', w_schema_version = ''1.0.0'', w_reserve = (\<lambda>n t. None),
     w_extract = (\<lambda>n input. Inr \<lparr>resp_ID = ''resp'', resp_Output = (if n = 1 then ''?'' else ''ok'')\<rparr>),
     w_decode = (\<lambda>raw. if raw = ''ok'' then Some sample_output else None), w_record = (\<lambda>n code. None),
     w_complete = (\<lambda>c. Inr \<lparr>out_RunID = ''run'', out_ClaimCount = 1, out_AlreadyCompleted = False,
       out_NeedsReview = comp_NeedsReview c, out_Obsolete = False\<rparr>),
     w_fail = (\<lambda>code. None)\<rparr>"

definition sample_config :: config where
  "sample_config = \<lparr>cfg_ExpectedModelID = ''m'', cfg_ExpectedReasoning = ''low'', cfg_ExpectedVerbosity = ''low'',
     cfg_ExpectedMaxOutputTokens = 4096, cfg_MonthlySoftUSD = ''5'', cfg_MonthlyHardUSD = ''10.50'', cfg_MaximumAge = 24 * hour\<rparr>"

definition sample_request :: process_request where
  "sample_request = \<lparr>req_ItemID = ''item'', req_RevisionID = ''revision''\<rparr>"

definition sample_span :: evidence_span where
  "sample_span = \<lparr>span_ID = ''span_0001'', span_SectionPath = [], span_StartOffset = 0, span_EndOffset = 15,
     span_Text = span_sample\<rparr>"

section \<open>What is accepted\<close>

definition claim_ok :: "string list \<Rightarrow> claim \<Rightarrow> bool" where
  "claim_ok ids c \<longleftrightarrow> ClaimType c \<in> set allowedClaimTypes \<and> Confidence c \<in> set allowedConfidence
     \<and> 1 \<le> trimmed_length (ClaimText c) \<and> trimmed_length (ClaimText c) \<le> 1000 \<and> rune_count (NormalizedValue c) \<le> 500
     \<and> 1 \<le> length (EvidenceSpanIDs c) \<and> length (EvidenceSpanIDs c) \<le> 8 \<and> distinct (EvidenceSpanIDs c)
     \<and> set (EvidenceSpanIDs c) \<subseteq> set ids
     \<and> (ClaimType c = ''date'' \<longrightarrow> NormalizedValue c = [] \<or> date_only (NormalizedValue c))"

lemma validateClaim_None: "validateClaim c ids = None \<longleftrightarrow> claim_ok ids c"
  by (auto simp: validateClaim_def claim_ok_def go_result Suc_le_eq not_less)

lemma topic_None: "(if t = [] \<or> length t > 64 \<or> \<not> topicIDPattern t then Some x else None) = None
   \<longleftrightarrow> t \<noteq> [] \<and> length t \<le> 64 \<and> topicIDPattern t"
  by auto

text \<open>
  An output is accepted exactly when it is within its bounds, its classification is known, its
  topics are well-formed and distinct, the supplied span identifiers are distinct, its claims are
  pairwise different, and every claim has a known type and confidence, a text of bounded length and
  one to eight different evidence spans, all of them supplied ones.
\<close>

lemma ValidateOutput_None_iff:
  "ValidateOutput out spans = None \<longleftrightarrow>
     length (TopicIDs out) \<le> 20 \<and> length (Claims out) \<le> 50 \<and> length (Uncertainties out) \<le> 20
     \<and> EventType out \<in> set allowedEventTypes \<and> LifecycleState out \<in> set allowedLifecycleStates
     \<and> (\<forall>t\<in>set (TopicIDs out). t \<noteq> [] \<and> length t \<le> 64 \<and> topicIDPattern t) \<and> distinct (TopicIDs out)
     \<and> distinct (map span_ID spans)
     \<and> (\<forall>c\<in>set (Claims out). claim_ok (map span_ID spans) c) \<and> distinct (map claim_key (Claims out))
     \<and> (\<forall>u\<in>set (Uncertainties out). 1 \<le> trimmed_length u \<and> trimmed_length u \<le> 500)"
proof -
  have "ValidateOutput out spans = None \<longleftrightarrow>
     (length (TopicIDs out) \<le> 20 \<and> length (Claims out) \<le> MaximumClaims \<and> length (Uncertainties out) \<le> 20)
     \<and> EventType out \<in> set allowedEventTypes \<and> LifecycleState out \<in> set allowedLifecycleStates
     \<and> ((\<forall>t\<in>set (TopicIDs out). t \<noteq> [] \<and> length t \<le> 64 \<and> topicIDPattern t) \<and> distinct (TopicIDs out))
     \<and> distinct (map span_ID spans)
     \<and> ((\<forall>c\<in>set (Claims out). validateClaim c (map span_ID spans) = None) \<and> distinct (map claim_key (Claims out)))
     \<and> (\<forall>u\<in>set (Uncertainties out). 1 \<le> trimmed_length u \<and> trimmed_length u \<le> 500)"
    by (simp add: ValidateOutput_def go_result topic_None del: set_map) (auto simp: not_less Suc_le_eq)
  then show ?thesis by (simp add: validateClaim_None MaximumClaims_def)
qed

lemma ValidateOutput_None_iff_witness: "ValidateOutput sample_output [sample_span] = None"
  unfolding ValidateOutput_None_iff by code_simp

section \<open>What a run does\<close>

definition extracts :: "event list \<Rightarrow> nat" where
  "extracts trace = length (filter (\<lambda>e. case e of EvExtract _ \<Rightarrow> True | _ \<Rightarrow> False) trace)"

definition completions :: "event list \<Rightarrow> completion list" where
  "completions trace = concat (map (\<lambda>e. case e of EvComplete c \<Rightarrow> [c] | _ \<Rightarrow> []) trace)"

definition failures :: "event list \<Rightarrow> string list" where
  "failures trace = concat (map (\<lambda>e. case e of EvFail c \<Rightarrow> [c] | _ \<Rightarrow> []) trace)"

lemma trace_simps [simp]:
  "extracts (t @ u) = extracts t + extracts u" "completions (t @ u) = completions t @ completions u"
  "failures (t @ u) = failures t @ failures u"
  "extracts [] = 0" "completions [] = []" "failures [] = []"
  "extracts (e # t) = (case e of EvExtract _ \<Rightarrow> 1 | _ \<Rightarrow> 0) + extracts t"
  "completions (e # t) = (case e of EvComplete c \<Rightarrow> [c] | _ \<Rightarrow> []) @ completions t"
  "failures (e # t) = (case e of EvFail c \<Rightarrow> [c] | _ \<Rightarrow> []) @ failures t"
  by (auto simp: extracts_def completions_def failures_def split: event.split)

lemma proc_fail_trace [simp]: "snd (proc_fail W code cause trace) = trace @ [EvFail code]"
  by (simp add: proc_fail_def split: option.split)

lemma DecodeAndValidate_Inr: "DecodeAndValidate decode raw spans = Inr out \<Longrightarrow> ValidateOutput out spans = None"
  by (auto simp: DecodeAndValidate_def go_result split: option.splits)

text \<open>Every continuation of a trace by the attempts is one of these.\<close>

definition attempt_events :: "prepared_run \<Rightarrow> evidence_span list \<Rightarrow> nat \<Rightarrow> event list \<Rightarrow> bool" where
  "attempt_events p spans left ev \<longleftrightarrow> extracts ev \<le> left \<and> length (completions ev) + length (failures ev) \<le> 1
     \<and> (\<forall>c\<in>set (completions ev). ValidateOutput (comp_Output c) (comp_Spans c) = None \<and> comp_Spans c = spans
          \<and> comp_NeedsReview c = needsHumanReview (comp_Output c) (run_SourceTier p)
          \<and> comp_CompletedState c = (if comp_NeedsReview c then ''needs_review'' else ''completed''))"

lemma attempts_trace: "\<exists>ev. snd (attempts W p spans input n left trace) = trace @ ev \<and> attempt_events p spans left ev"
proof (induction left arbitrary: n trace)
  case 0
  then show ?case by (simp add: attempt_events_def)
next
  case (Suc left)
  show ?case
  proof (cases "w_reserve W n (estimateInputTokens (w_prompt W) input (w_schema W))")
    case (Some e)
    then show ?thesis by (simp add: attempt_events_def)
  next
    case reserved: None
    show ?thesis
    proof (cases "w_extract W n input")
      case (Inl e)
      then show ?thesis using reserved by (simp add: attempt_events_def)
    next
      case (Inr response)
      let ?v = "DecodeAndValidate (w_decode W) (resp_Output response) spans"
      let ?code = "if isl ?v then ''schema_invalid'' else []"
      let ?ev = "[EvReserve n, EvExtract n, EvRecord n ?code]"
      show ?thesis
      proof (cases "w_record W n ?code")
        case (Some e)
        then show ?thesis using reserved Inr by (simp add: attempt_events_def)
      next
        case None
        show ?thesis
        proof (cases ?v)
          case bad: (Inl err)
          obtain ev where "snd (attempts W p spans input (Suc n) left (trace @ ?ev)) = (trace @ ?ev) @ ev"
            "attempt_events p spans left ev" using Suc.IH by blast
          moreover have "attempts W p spans input n (Suc left) trace =
              (if 0 < left then attempts W p spans input (Suc n) left (trace @ ?ev)
               else proc_fail W ''schema_invalid'' [ErrSchemaInvalid] (trace @ ?ev))"
            using reserved Inr None bad by (subst attempts.simps) (simp add: Let_def del: attempts.simps)
          ultimately show ?thesis
            by (cases "0 < left") (auto simp: attempt_events_def simp del: attempts.simps)
        next
          case good: (Inr out)
          then show ?thesis
            using reserved Inr None DecodeAndValidate_Inr [OF good] by (simp add: attempt_events_def Let_def)
        qed
      qed
    qed
  qed
qed

lemma run_prepared_trace:
  "(\<exists>code. snd (run_prepared W cfg p) \<in> {[], [EvFail code]})
   \<or> (\<exists>payload spans. w_read W (run_ObjectKey p) = Inr payload \<and> w_sha256 W payload = run_NormalizedHash p
       \<and> BuildEvidenceSpans payload (run_Outline p) = Inr spans
       \<and> attempt_events p spans MaximumSchemaAttempts (snd (run_prepared W cfg p)))"
proof (cases "\<exists>payload spans json. w_read W (run_ObjectKey p) = Inr payload \<and> w_sha256 W payload = run_NormalizedHash p
    \<and> BuildEvidenceSpans payload (run_Outline p) = Inr spans
    \<and> run_prepared W cfg p = attempts W p spans (''UNTRUSTED_EVIDENCE'' @ [CHR 0x0A] @ json) 1 MaximumSchemaAttempts []")
  case True
  then show ?thesis using attempts_trace [of W p _ _ 1 MaximumSchemaAttempts "[]"] by fastforce
next
  case False
  then show ?thesis
    by (auto simp: run_prepared_def split: option.split_asm sum.split_asm if_split_asm option.split sum.split)
qed

lemma needsHumanReview_iff:
  "needsHumanReview out tier \<longleftrightarrow>
   Claims out = [] \<or> (tier \<noteq> ''T0'' \<and> tier \<noteq> ''T1'' \<and> (\<exists>c\<in>set (Claims out). Material c))"
  by (auto simp: needsHumanReview_def list_ex_iff)

lemma span_by_id:
  "BuildEvidenceSpans v outline = Inr spans \<Longrightarrow> i \<in> set (map span_ID spans) \<Longrightarrow> \<exists>s\<in>set spans. span_ID s = i \<and> span_ok v s"
  using cut_blocks_Inr [of v 0 _ "[]" spans] by (auto simp: BuildEvidenceSpans_Inr)

text \<open>
  C10. A run asks the provider at most twice and either completes once, fails once or does neither.
  What it completes with is grounded: the output passed validation, the spans were built from a
  stored text whose digest is the recorded one, every span a claim cites is a non-empty slice of that
  text, and the run goes to human review exactly when there is no claim or a material claim from a
  source below the two trusted tiers.
\<close>

theorem Process_grounded:
  "extracts (snd (Process W cfg req)) \<le> 2
   \<and> length (completions (snd (Process W cfg req))) + length (failures (snd (Process W cfg req))) \<le> 1
   \<and> (\<forall>c\<in>set (completions (snd (Process W cfg req))).
        \<exists>p payload. w_prepare W req = Inr p \<and> w_read W (run_ObjectKey p) = Inr payload
          \<and> w_sha256 W payload = run_NormalizedHash p \<and> ValidateOutput (comp_Output c) (comp_Spans c) = None
          \<and> (\<forall>cl\<in>set (Claims (comp_Output c)). EvidenceSpanIDs cl \<noteq> []
                \<and> (\<forall>i\<in>set (EvidenceSpanIDs cl). \<exists>s\<in>set (comp_Spans c). span_ID s = i \<and> span_ok payload s))
          \<and> (comp_NeedsReview c \<longleftrightarrow> Claims (comp_Output c) = []
               \<or> (run_SourceTier p \<noteq> ''T0'' \<and> run_SourceTier p \<noteq> ''T1'' \<and> (\<exists>cl\<in>set (Claims (comp_Output c)). Material cl)))
          \<and> comp_CompletedState c = (if comp_NeedsReview c then ''needs_review'' else ''completed''))"
proof (cases "\<exists>p. w_prepare W req = Inr p \<and> Process W cfg req = run_prepared W cfg p")
  case False
  then have "snd (Process W cfg req) = []" by (auto simp: Process_def split: sum.split_asm sum.split if_split_asm)
  then show ?thesis by simp
next
  case True
  then obtain p where p: "w_prepare W req = Inr p" "Process W cfg req = run_prepared W cfg p" by blast
  show ?thesis
  proof (cases "\<exists>code. snd (run_prepared W cfg p) \<in> {[], [EvFail code]}")
    case True
    then show ?thesis using p(2) by auto
  next
    case False
    then obtain payload spans where run: "w_read W (run_ObjectKey p) = Inr payload" "w_sha256 W payload = run_NormalizedHash p"
      "BuildEvidenceSpans payload (run_Outline p) = Inr spans"
      "attempt_events p spans MaximumSchemaAttempts (snd (run_prepared W cfg p))"
      using run_prepared_trace by blast
    have grounded: "EvidenceSpanIDs cl \<noteq> [] \<and> (\<forall>i\<in>set (EvidenceSpanIDs cl). \<exists>s\<in>set spans. span_ID s = i \<and> span_ok payload s)"
      if "ValidateOutput out spans = None" "cl \<in> set (Claims out)" for out cl
    proof -
      have "claim_ok (map span_ID spans) cl"
        using that by (auto simp: ValidateOutput_def go_result validateClaim_None split: if_splits)
      then show ?thesis using span_by_id [OF run(3)] by (auto simp: claim_ok_def)
    qed
    let ?ev = "snd (run_prepared W cfg p)"
    have completed: "\<forall>c\<in>set (completions ?ev). ValidateOutput (comp_Output c) (comp_Spans c) = None \<and> comp_Spans c = spans
        \<and> comp_NeedsReview c = needsHumanReview (comp_Output c) (run_SourceTier p)
        \<and> comp_CompletedState c = (if comp_NeedsReview c then ''needs_review'' else ''completed'')"
      and counts: "extracts ?ev \<le> 2" "length (completions ?ev) + length (failures ?ev) \<le> 1"
      using run(4) by (auto simp: attempt_events_def MaximumSchemaAttempts_def)
    show ?thesis
      unfolding p(2)
    proof (intro conjI ballI, goal_cases)
      case (3 c)
      then have c: "ValidateOutput (comp_Output c) (comp_Spans c) = None" "comp_Spans c = spans"
        "comp_NeedsReview c = needsHumanReview (comp_Output c) (run_SourceTier p)"
        "comp_CompletedState c = (if comp_NeedsReview c then ''needs_review'' else ''completed'')"
        using completed by auto
      show ?case
        using p(1) run(1,2) c(1,4) c(3) [unfolded needsHumanReview_iff]
          grounded [OF c(1) [unfolded c(2)], folded c(2)] by blast
    qed (rule counts)+
  qed
qed

theorem Process_grounded_witness:
  "NewProcessor sample_config = None
   \<and> extracts (snd (Process sample_world sample_config sample_request)) = 2
   \<and> (\<exists>c\<in>set (completions (snd (Process sample_world sample_config sample_request))).
        comp_NeedsReview c \<and> comp_CompletedState c = ''needs_review''
        \<and> (\<forall>cl\<in>set (Claims (comp_Output c)). EvidenceSpanIDs cl \<noteq> []))"
proof -
  let ?t = "snd (Process sample_world sample_config sample_request)"
  have eval: "NewProcessor sample_config = None" "extracts ?t = 2" "completions ?t \<noteq> []"
    "list_all comp_NeedsReview (completions ?t)" by code_simp+
  then obtain c where c: "c \<in> set (completions ?t)" "comp_NeedsReview c"
    by (cases "completions ?t") auto
  with eval Process_grounded [of sample_world sample_config sample_request] show ?thesis by fastforce
qed

end
