(* ===== verification/Alert.thy ===== *)
theory Alert
  imports Scheduler
begin

text \<open>
  Critical alerts (\<open>src/internal/alert\<close>): which watched packages an advisory affects (\<open>match.go\<close>) and when an
  alert may leave through the external channels (\<open>policy.go\<close>). The time-zone database is an argument.
\<close>

section \<open>Versions\<close>

text \<open>\<open>numericVersion\<close>: three \<open>uint32\<close> components, compared in order.\<close>

type_synonym numericVersion = "nat \<times> nat \<times> nat"

definition version_part :: "string \<Rightarrow> nat option" where
  "version_part part =
     (if part = [] \<or> (length part > 1 \<and> hd part = CHR ''0'') then None
      else if \<not> list_all is_digit part then None
      else if digits_val 0 part \<ge> 2 ^ 32 then None
      else Some (digits_val 0 part))"

fun version_parts :: "string list \<Rightarrow> nat list option" where
  "version_parts [] = Some []"
| "version_parts (p # ps) =
     (case version_part p of
        None \<Rightarrow> None
      | Some n \<Rightarrow> (case version_parts ps of None \<Rightarrow> None | Some ns \<Rightarrow> Some (n # ns)))"

definition pad_version :: "nat list \<Rightarrow> numericVersion" where
  "pad_version ns =
     (case ns of
        [] \<Rightarrow> (0, 0, 0)
      | [a] \<Rightarrow> (a, 0, 0)
      | [a, b] \<Rightarrow> (a, b, 0)
      | a # b # c # _ \<Rightarrow> (a, b, c))"

definition parseNumericVersion :: "string \<Rightarrow> numericVersion option" where
  "parseNumericVersion raw =
     (let v = trim_prefix (trim_space raw) ''v'' in
      if v = [] \<or> length v > 32 then None
      else let parts = split_byte CHR ''.'' v in
        if length parts > 3 then None else map_option pad_version (version_parts parts))"

definition compareVersion :: "numericVersion \<Rightarrow> numericVersion \<Rightarrow> int" where
  "compareVersion l r =
     (case (l, r) of ((l0, l1, l2), (r0, r1, r2)) \<Rightarrow>
        if l0 < r0 then - 1 else if l0 > r0 then 1
        else if l1 < r1 then - 1 else if l1 > r1 then 1
        else if l2 < r2 then - 1 else if l2 > r2 then 1 else 0)"

datatype operator = OpGe | OpLe | OpGt | OpLt | OpEq

text \<open>The operators in the order they are tried, and the rest of the clause.\<close>

definition clause_operator :: "string \<Rightarrow> (operator \<times> string) option" where
  "clause_operator clause =
     (if has_prefix clause ''>='' then Some (OpGe, drop 2 clause)
      else if has_prefix clause ''<='' then Some (OpLe, drop 2 clause)
      else if has_prefix clause ''>'' then Some (OpGt, drop 1 clause)
      else if has_prefix clause ''<'' then Some (OpLt, drop 1 clause)
      else if has_prefix clause ''='' then Some (OpEq, drop 1 clause)
      else None)"

definition parse_clause :: "string \<Rightarrow> (operator \<times> numericVersion) option" where
  "parse_clause raw =
     (case clause_operator (trim_space raw) of
        None \<Rightarrow> None
      | Some (operator, rest) \<Rightarrow> map_option (\<lambda>bound. (operator, bound)) (parseNumericVersion (trim_space rest)))"

definition clause_holds :: "numericVersion \<Rightarrow> operator \<times> numericVersion \<Rightarrow> bool" where
  "clause_holds installed cl =
     (let comparison = compareVersion installed (snd cl) in
      case fst cl of OpGe \<Rightarrow> comparison \<ge> 0 | OpLe \<Rightarrow> comparison \<le> 0 | OpGt \<Rightarrow> comparison > 0
      | OpLt \<Rightarrow> comparison < 0 | OpEq \<Rightarrow> comparison = 0)"

fun clauses_loop :: "numericVersion \<Rightarrow> bool \<Rightarrow> string list \<Rightarrow> bool \<times> bool" where
  "clauses_loop installed affected [] = (affected, True)"
| "clauses_loop installed affected (raw # raws) =
     (case parse_clause raw of
        None \<Rightarrow> (False, False)
      | Some cl \<Rightarrow> clauses_loop installed (affected \<and> clause_holds installed cl) raws)"

definition versionInRange :: "string \<Rightarrow> string \<Rightarrow> bool \<times> bool" where
  "versionInRange version rawRange =
     (case parseNumericVersion version of
        None \<Rightarrow> (False, False)
      | Some installed \<Rightarrow>
          if rawRange = [] \<or> length rawRange > 200 then (False, False)
          else let clauses = split_byte CHR '','' rawRange in
            if clauses = [] \<or> length clauses > 8 then (False, False)
            else clauses_loop installed True clauses)"

section \<open>Matching\<close>

record vulnerability =
  vul_Ecosystem :: string
  vul_PackageName :: string
  vul_VersionRange :: string
  vul_PatchedVersion :: string

record advisory =
  adv_ID :: string
  adv_Kind :: string
  adv_State :: string
  adv_Severity :: string
  adv_PublishedAt :: string
  adv_ReviewedAt :: string
  adv_WithdrawnAt :: string
  adv_Vulnerabilities :: "vulnerability list"

record watch =
  wat_ID :: string
  wat_Ecosystem :: string
  wat_PackageName :: string
  wat_CurrentVersion :: string
  wat_Status :: string

record match_result =
  res_Watch :: watch
  res_Vulnerability :: vulnerability

definition supportedEcosystem :: "string \<Rightarrow> bool" where
  "supportedEcosystem v \<longleftrightarrow> v = ''go'' \<or> v = ''npm'' \<or> v = ''rust'' \<or> v = ''pub''"

definition validTimestamp :: "string \<Rightarrow> bool" where
  "validTimestamp v = (case parse_rfc3339 v of None \<Rightarrow> False | Some t \<Rightarrow> \<not> is_zero t)"

text \<open>The characters after the prefix; an index that is not a separator holds a lower-case letter or digit.\<close>

fun ghsa_chars :: "nat \<Rightarrow> string \<Rightarrow> bool" where
  "ghsa_chars i [] = True"
| "ghsa_chars i (c # cs) =
     ((if i = 4 \<or> i = 9 then c = CHR ''-''
       else (97 \<le> byte c \<and> byte c \<le> (122 :: nat)) \<or> is_digit c)
      \<and> ghsa_chars (Suc i) cs)"

definition validGHSAID :: "string \<Rightarrow> bool" where
  "validGHSAID v \<longleftrightarrow> length v = 19 \<and> has_prefix v ''GHSA-'' \<and> ghsa_chars 0 (drop 5 v)"

definition confirmed :: "advisory \<Rightarrow> bool" where
  "confirmed a =
     (if \<not> validGHSAID (adv_ID a) \<or> adv_Severity a \<noteq> ''critical'' \<or> adv_WithdrawnAt a \<noteq> []
         \<or> adv_Vulnerabilities a = [] \<or> length (adv_Vulnerabilities a) > 100 \<or> \<not> validTimestamp (adv_PublishedAt a)
         \<or> (adv_State a \<noteq> [] \<and> adv_State a \<noteq> ''published'')
      then False
      else (adv_Kind a = ''reviewed'' \<and> validTimestamp (adv_ReviewedAt a))
         \<or> (adv_Kind a = [] \<and> adv_State a = ''published''))"

definition usable_vulnerability :: "vulnerability \<Rightarrow> bool" where
  "usable_vulnerability v \<longleftrightarrow> supportedEcosystem (vul_Ecosystem v) \<and> vul_PackageName v \<noteq> []
     \<and> length (vul_PackageName v) \<le> 255 \<and> length (vul_PatchedVersion v) \<le> 100"

definition watch_matches :: "vulnerability \<Rightarrow> watch \<Rightarrow> bool" where
  "watch_matches v w \<longleftrightarrow> wat_ID w \<noteq> [] \<and> wat_Status w = ''active'' \<and> wat_Ecosystem w = vul_Ecosystem v
     \<and> wat_PackageName w = vul_PackageName v \<and> versionInRange (wat_CurrentVersion w) (vul_VersionRange v) = (True, True)"

text \<open>The inner loop over the watches and the outer loop over the vulnerabilities; \<open>results\<close> carries the
  results so far, whose watches are the ones already seen.\<close>

fun watches_loop :: "vulnerability \<Rightarrow> match_result list \<Rightarrow> watch list \<Rightarrow> match_result list" where
  "watches_loop v results [] = results"
| "watches_loop v results (w # ws) =
     (if watch_matches v w \<and> wat_ID w \<notin> set (map (\<lambda>r. wat_ID (res_Watch r)) results)
      then watches_loop v (results @ [\<lparr>res_Watch = w, res_Vulnerability = v\<rparr>]) ws
      else watches_loop v results ws)"

fun vulnerabilities_loop :: "watch list \<Rightarrow> match_result list \<Rightarrow> vulnerability list \<Rightarrow> match_result list" where
  "vulnerabilities_loop ws results [] = results"
| "vulnerabilities_loop ws results (v # vs) =
     vulnerabilities_loop ws (if usable_vulnerability v then watches_loop v results ws else results) vs"

definition Match :: "advisory \<Rightarrow> watch list \<Rightarrow> match_result list" where
  "Match a ws = (if \<not> confirmed a then [] else vulnerabilities_loop ws [] (adv_Vulnerabilities a))"

section \<open>Quiet hours\<close>

record quiet_hours =
  qh_Timezone :: string
  qh_Start :: string
  qh_End :: string
  qh_Bypass :: bool

datatype alert_error = ErrRequired | ErrStart string | ErrEnd string | ErrLoad | ErrSchedule sched_error

definition parseClock :: "string \<Rightarrow> int option" where
  "parseClock v =
     (case split_byte CHR '':'' v of
        [h, m] \<Rightarrow>
          if length v \<noteq> 5 \<or> length h \<noteq> 2 \<or> length m \<noteq> 2 then None
          else (case (atoi h, atoi m) of
                  (Some hh, Some mm) \<Rightarrow> if hh < 0 \<or> hh > 23 \<or> mm < 0 \<or> mm > 59 then None else Some (hh * 60 + mm)
                | _ \<Rightarrow> None)
      | _ \<Rightarrow> None)"

definition in_quiet_hours :: "int \<Rightarrow> int \<Rightarrow> int \<Rightarrow> bool" where
  "in_quiet_hours start stop m = (if start < stop then m \<ge> start \<and> m < stop else m \<ge> start \<or> m < stop)"

definition map_error :: "('e \<Rightarrow> 'f) \<Rightarrow> 'e + 'a \<Rightarrow> 'f + 'a" where
  "map_error f r = (case r of Inl e \<Rightarrow> Inl (f e) | Inr a \<Rightarrow> Inr a)"

definition DeliveryAt :: "location_db \<Rightarrow> time \<Rightarrow> quiet_hours \<Rightarrow> alert_error + time" where
  "DeliveryAt tz now q =
     (if is_zero now \<or> qh_Timezone q = [] then Inl ErrRequired
      else (case parseClock (qh_Start q) of
        None \<Rightarrow> Inl (ErrStart (qh_Start q))
      | Some start \<Rightarrow>
          (case parseClock (qh_End q) of
             None \<Rightarrow> Inl (ErrEnd (qh_End q))
           | Some stop \<Rightarrow>
               if start = stop then Inl (ErrEnd (qh_End q))
               else (case tz (qh_Timezone q) of
                  None \<Rightarrow> Inl ErrLoad
                | Some z \<Rightarrow>
                    if qh_Bypass q \<or> \<not> in_quiet_hours start stop (local_minute z now) then Inr now
                    else map_error ErrSchedule
                      (and_then (NewDefinition tz (qh_Timezone q) \<lparr>Hour = stop div 60, Minute = stop mod 60\<rparr> [1, 2, 3, 4, 5, 6, 7])
                        (\<lambda>def. NextOccurrence tz now def))))))"

section \<open>The delivery payload\<close>

record delivery =
  del_AlertID :: string
  del_Channel :: string
  del_IdempotencyKey :: string
  del_Attempt :: int
  del_Title :: string
  del_SourceURL :: string
  del_PackageName :: string
  del_Ecosystem :: string
  del_CurrentVersion :: string
  del_VersionRange :: string
  del_PatchedVersion :: string

text \<open>The JSON encoder and SHA-256 are arguments.\<close>

definition DeliverySHA256 :: "(delivery \<Rightarrow> string) \<Rightarrow> (string \<Rightarrow> string) \<Rightarrow> delivery \<Rightarrow> string" where
  "DeliverySHA256 marshal sha256 d = sha256 (marshal (d\<lparr>del_Attempt := 0\<rparr>))"

section \<open>Versions are ordered\<close>

lemma compareVersion_less: "compareVersion l r < 0 \<longleftrightarrow> l < r"
  by (cases l; cases r) (auto simp: compareVersion_def)

lemma compareVersion_eq: "compareVersion l r = 0 \<longleftrightarrow> l = r"
  by (cases l; cases r) (auto simp: compareVersion_def)

lemma compareVersion_greater: "compareVersion l r > 0 \<longleftrightarrow> r < l"
  by (cases l; cases r) (auto simp: compareVersion_def)

lemmas compareVersion_iff = compareVersion_less compareVersion_eq compareVersion_greater

definition clause_set :: "operator \<times> numericVersion \<Rightarrow> numericVersion set" where
  "clause_set cl = (case fst cl of OpGe \<Rightarrow> {snd cl..} | OpLe \<Rightarrow> {..snd cl} | OpGt \<Rightarrow> {snd cl<..} | OpLt \<Rightarrow> {..<snd cl} | OpEq \<Rightarrow> {snd cl})"

lemma clause_holds_iff: "clause_holds v cl \<longleftrightarrow> v \<in> clause_set cl"
  using compareVersion_iff [of v "snd cl"] by (auto simp: clause_holds_def clause_set_def Let_def split: operator.split)

lemma clauses_loop_supported:
  "snd (clauses_loop installed affected raws) \<longleftrightarrow> (\<forall>raw\<in>set raws. parse_clause raw \<noteq> None)"
  by (induction raws arbitrary: affected) (auto split: option.split)

lemma clauses_loop_affected:
  "snd (clauses_loop installed affected raws) \<Longrightarrow>
   fst (clauses_loop installed affected raws) \<longleftrightarrow> affected \<and> (\<forall>raw\<in>set raws. installed \<in> clause_set (the (parse_clause raw)))"
  by (induction raws arbitrary: affected) (auto simp: clause_holds_iff split: option.splits)

lemma clauses_loop_unsupported: "\<not> snd (clauses_loop i b raws) \<Longrightarrow> \<not> fst (clauses_loop i b raws)"
  by (induction raws arbitrary: b) (auto split: option.splits)

definition range_set :: "string \<Rightarrow> numericVersion set" where
  "range_set rawRange = {v. \<forall>raw\<in>set (split_byte CHR '','' rawRange). v \<in> clause_set (the (parse_clause raw))}"

text \<open>
  A version range is its clauses' intersection: when a version and a range are supported, the
  version is affected exactly when it lies in every clause's set of versions under the
  component-wise order. The affected versions form an interval, and whether a range is supported does
  not depend on which version is tested.
\<close>

lemma versionInRange_interval:
  assumes "parseNumericVersion version = Some v"
  shows "(snd (versionInRange version rawRange) \<longrightarrow> (fst (versionInRange version rawRange) \<longleftrightarrow> v \<in> range_set rawRange))
    \<and> (\<not> snd (versionInRange version rawRange) \<longrightarrow> \<not> fst (versionInRange version rawRange))
    \<and> (\<forall>a b c. a \<in> range_set rawRange \<longrightarrow> c \<in> range_set rawRange \<longrightarrow> a \<le> b \<longrightarrow> b \<le> c \<longrightarrow> b \<in> range_set rawRange)
    \<and> (\<forall>other w. parseNumericVersion other = Some w \<longrightarrow> snd (versionInRange other rawRange) = snd (versionInRange version rawRange))"
proof (intro conjI allI impI)
  show "fst (versionInRange version rawRange) \<longleftrightarrow> v \<in> range_set rawRange" if "snd (versionInRange version rawRange)"
    using that assms clauses_loop_affected [of v True] by (auto simp: versionInRange_def range_set_def Let_def split: if_splits)
  show "\<not> fst (versionInRange version rawRange)" if "\<not> snd (versionInRange version rawRange)"
    using that assms clauses_loop_unsupported [of v True] by (auto simp: versionInRange_def Let_def)
  show "b \<in> range_set rawRange" if "a \<in> range_set rawRange" "c \<in> range_set rawRange" "a \<le> b" "b \<le> c" for a b c
  proof -
    have "b \<in> clause_set cl" if "a \<in> clause_set cl" "c \<in> clause_set cl" for cl
      using that \<open>a \<le> b\<close> \<open>b \<le> c\<close> by (auto simp: clause_set_def split: operator.splits)
    then show ?thesis using that by (auto simp: range_set_def)
  qed
  show "snd (versionInRange other rawRange) = snd (versionInRange version rawRange)" if "parseNumericVersion other = Some w" for other w
    using that assms by (simp add: versionInRange_def Let_def clauses_loop_supported)
qed

lemma versionInRange_interval_witness:
  "versionInRange ''1.4.2'' ''>= 1.0, < 1.5'' = (True, True) \<and> (1, 4, 2) \<in> range_set ''>= 1.0, < 1.5''"
proof -
  have "parseNumericVersion ''1.4.2'' = Some (1, 4, 2)" and eval: "versionInRange ''1.4.2'' ''>= 1.0, < 1.5'' = (True, True)" by code_simp+
  from versionInRange_interval [OF this(1), of "''>= 1.0, < 1.5''"] eval show ?thesis by simp
qed

section \<open>Who is alerted\<close>

definition result_ok :: "advisory \<Rightarrow> watch list \<Rightarrow> match_result \<Rightarrow> bool" where
  "result_ok a ws r \<longleftrightarrow> res_Watch r \<in> set ws \<and> res_Vulnerability r \<in> set (adv_Vulnerabilities a)
     \<and> usable_vulnerability (res_Vulnerability r) \<and> watch_matches (res_Vulnerability r) (res_Watch r)"

abbreviation result_ids :: "match_result list \<Rightarrow> string list" where
  "result_ids rs \<equiv> map (\<lambda>r. wat_ID (res_Watch r)) rs"

lemma watches_loop_spec:
  "distinct (result_ids results) \<Longrightarrow> distinct (result_ids (watches_loop v results ws))
     \<and> set results \<subseteq> set (watches_loop v results ws)
     \<and> (\<forall>r\<in>set (watches_loop v results ws). r \<in> set results
          \<or> (res_Vulnerability r = v \<and> res_Watch r \<in> set ws \<and> watch_matches v (res_Watch r)))
     \<and> (\<forall>w\<in>set ws. watch_matches v w \<longrightarrow> wat_ID w \<in> set (result_ids (watches_loop v results ws)))"
proof (induction ws arbitrary: results)
  case (Cons w ws)
  show ?case
  proof (cases "watch_matches v w \<and> wat_ID w \<notin> set (result_ids results)")
    case True
    let ?r = "results @ [\<lparr>res_Watch = w, res_Vulnerability = v\<rparr>]"
    have d: "distinct (result_ids ?r)" using True Cons.prems by simp
    have eq: "watches_loop v results (w # ws) = watches_loop v ?r ws" using True by simp
    have "\<lparr>res_Watch = w, res_Vulnerability = v\<rparr> \<in> set (watches_loop v ?r ws)" using Cons.IH [OF d] by auto
    then have "wat_ID w \<in> set (result_ids (watches_loop v ?r ws))" by force
    with Cons.IH [OF d] True show ?thesis unfolding eq by auto
  next
    case False
    then have eq: "watches_loop v results (w # ws) = watches_loop v results ws" by auto
    have "watch_matches v w \<Longrightarrow> wat_ID w \<in> set (result_ids (watches_loop v results ws))"
      using False Cons.IH [OF Cons.prems] by fastforce
    with Cons.IH [OF Cons.prems] show ?thesis unfolding eq by auto
  qed
qed simp

lemma vulnerabilities_loop_spec:
  "distinct (result_ids results) \<Longrightarrow> distinct (result_ids (vulnerabilities_loop ws results vs))
     \<and> set results \<subseteq> set (vulnerabilities_loop ws results vs)
     \<and> (\<forall>r\<in>set (vulnerabilities_loop ws results vs). r \<in> set results
          \<or> (res_Vulnerability r \<in> set vs \<and> usable_vulnerability (res_Vulnerability r) \<and> res_Watch r \<in> set ws
             \<and> watch_matches (res_Vulnerability r) (res_Watch r)))
     \<and> (\<forall>v\<in>set vs. \<forall>w\<in>set ws. usable_vulnerability v \<longrightarrow> watch_matches v w
          \<longrightarrow> wat_ID w \<in> set (result_ids (vulnerabilities_loop ws results vs)))"
proof (induction vs arbitrary: results)
  case (Cons v vs)
  let ?r = "if usable_vulnerability v then watches_loop v results ws else results"
  have step: "distinct (result_ids ?r)" "set results \<subseteq> set ?r"
    "\<forall>r\<in>set ?r. r \<in> set results \<or> (res_Vulnerability r = v \<and> usable_vulnerability v \<and> res_Watch r \<in> set ws \<and> watch_matches v (res_Watch r))"
    "usable_vulnerability v \<Longrightarrow> w \<in> set ws \<Longrightarrow> watch_matches v w \<Longrightarrow> wat_ID w \<in> set (result_ids ?r)" for w
    using watches_loop_spec [OF Cons.prems, of v ws] Cons.prems by auto
  have eq: "vulnerabilities_loop ws results (v # vs) = vulnerabilities_loop ws ?r vs" by simp
  have mono: "set (result_ids ?r) \<subseteq> set (result_ids (vulnerabilities_loop ws ?r vs))"
    using Cons.IH [OF step(1)] by auto
  show ?case
    unfolding eq using Cons.IH [OF step(1)] step(2,3) mono step(4) by (auto 0 4)
qed simp


definition sample_vulnerability :: vulnerability where
  "sample_vulnerability = \<lparr>vul_Ecosystem = ''go'', vul_PackageName = ''example.org/m'', vul_VersionRange = ''>= 1.0, < 1.5'',
     vul_PatchedVersion = ''1.5.0''\<rparr>"

definition sample_advisory :: advisory where
  "sample_advisory = \<lparr>adv_ID = ''GHSA-ab12-cd34-ef56'', adv_Kind = ''reviewed'', adv_State = [], adv_Severity = ''critical'',
     adv_PublishedAt = ''2026-01-02T03:04:05Z'', adv_ReviewedAt = ''2026-01-02T04:04:05Z'', adv_WithdrawnAt = [],
     adv_Vulnerabilities = [sample_vulnerability]\<rparr>"

definition sample_watch :: watch where
  "sample_watch = \<lparr>wat_ID = ''w1'', wat_Ecosystem = ''go'', wat_PackageName = ''example.org/m'', wat_CurrentVersion = ''v1.4.2'',
     wat_Status = ''active''\<rparr>"


section \<open>When an alert may leave\<close>

lemma parseClock_range: "parseClock v = Some m \<Longrightarrow> 0 \<le> m \<and> m < 1440"
  by (auto simp: parseClock_def split: list.splits option.splits if_splits)

definition quiet_at :: "int \<Rightarrow> quiet_hours \<Rightarrow> time \<Rightarrow> bool" where
  "quiet_at off q t =
     (case (parseClock (qh_Start q), parseClock (qh_End q)) of
        (Some start, Some stop) \<Rightarrow> in_quiet_hours start stop (local_minute (fixed_zone off) t)
      | _ \<Rightarrow> False)"

text \<open>Minutes of the local clock, counted from year 1.\<close>

definition abs_minute :: "int \<Rightarrow> time \<Rightarrow> int" where
  "abs_minute off t = (t div second + off) div 60"

lemma local_minute_abs: "local_minute (fixed_zone off) t = abs_minute off t mod 1440"
  using zmod_zmult2_eq [of 1440 "t div second + off" 60]
  by (simp add: local_minute_def fixed_local abs_minute_def)

lemma abs_minute_mono: "t \<le> u \<Longrightarrow> abs_minute off t \<le> abs_minute off u"
  by (simp add: abs_minute_def zdiv_mono1)

definition minute_start :: "int \<Rightarrow> int \<Rightarrow> time" where
  "minute_start off k = (k * 60 - off) * second"

lemma minute_start_props:
  assumes "off mod 60 = 0"
  shows "abs_minute off (minute_start off k) = k" "minute_start off k mod minute = 0"
    "abs_minute off t < k \<longleftrightarrow> t < minute_start off k"
proof -
  obtain p where p: "off = p * 60" using assms by (metis add.right_neutral div_mult_mod_eq)
  show "abs_minute off (minute_start off k) = k" by (simp add: abs_minute_def minute_start_def)
  have "minute_start off k = (k - p) * minute" by (simp add: minute_start_def p algebra_simps)
  then show "minute_start off k mod minute = 0" by simp
  show "abs_minute off t < k \<longleftrightarrow> t < minute_start off k"
    unfolding abs_minute_def minute_start_def by (simp add: div_less_iff_less_mult) linarith
qed

lemma minute_start_whole:
  assumes "off mod 60 = 0" and "t mod minute = 0"
  shows "t = minute_start off (abs_minute off t)"
proof -
  obtain p where p: "off = p * 60" using assms(1) by (metis add.right_neutral div_mult_mod_eq)
  obtain q where q: "t = q * minute" using assms(2) by (metis add.right_neutral div_mult_mod_eq)
  have "t div second = q * 60" by (simp add: q)
  then have "t div second + off = (q + p) * 60" by (simp add: p)
  then have "abs_minute off t = q + p" by (simp add: abs_minute_def)
  then show ?thesis by (simp add: minute_start_def p q)
qed

lemma quiet_step:
  "in_quiet_hours start stop (k mod 1440) \<Longrightarrow> (k + 1) mod 1440 \<noteq> stop \<Longrightarrow> 0 \<le> stop \<Longrightarrow> stop < 1440 \<Longrightarrow> 0 \<le> start \<Longrightarrow>
   start < 1440 \<Longrightarrow> in_quiet_hours start stop ((k + 1) mod 1440)"
proof -
  have range: "0 \<le> k mod 1440" "k mod 1440 < 1440" by simp_all
  have "(k + 1) mod 1440 = (k mod 1440 + 1) mod 1440" by (simp add: mod_simps)
  also have "\<dots> = (if k mod 1440 = 1439 then 0 else k mod 1440 + 1)"
    using range by (auto intro: mod_pos_pos_trivial)
  finally have "(k + 1) mod 1440 = (if k mod 1440 = 1439 then 0 else k mod 1440 + 1)" .
  moreover note range
  ultimately show "in_quiet_hours start stop (k mod 1440) \<Longrightarrow> (k + 1) mod 1440 \<noteq> stop \<Longrightarrow> 0 \<le> stop \<Longrightarrow> stop < 1440 \<Longrightarrow> 0 \<le> start \<Longrightarrow>
   start < 1440 \<Longrightarrow> in_quiet_hours start stop ((k + 1) mod 1440)"
    by (auto simp: in_quiet_hours_def split: if_splits)
qed

lemma quiet_until:
  assumes "in_quiet_hours start stop (a mod 1440)" "0 \<le> stop" "stop < 1440" "0 \<le> start" "start < 1440"
    and "\<And>k. a < k \<Longrightarrow> k < b \<Longrightarrow> k mod 1440 \<noteq> stop"
  shows "a \<le> k \<Longrightarrow> k < b \<Longrightarrow> in_quiet_hours start stop (k mod 1440)"
proof (induction k rule: int_ge_induct)
  case base
  then show ?case using assms(1) by simp
next
  case (step i)
  then show ?case using quiet_step [of start stop i] assms(2-5) assms(6) [of "i + 1"] by simp
qed

lemma every_weekday: "isoWeekday (weekday_of_days d) \<in> set [1, 2, 3, 4, 5, 6, 7]"
proof -
  have "0 \<le> weekday_of_days d" "weekday_of_days d < 7" by (simp_all add: weekday_of_days_def)
  then show ?thesis by (auto simp: isoWeekday_def)
qed

text \<open>
  C13. With valid quiet hours in a zone with one offset every alert gets a delivery time, and it is
  exactly the first instant, from now on, outside the quiet hours: now itself when the owner
  lets alerts through or it is not quiet, otherwise an instant that is not quiet while everything
  between now and then is.
\<close>

theorem DeliveryAt_first:
  assumes "now \<noteq> 0" and "tz (qh_Timezone q) = Some (fixed_zone off)" and "qh_Timezone q \<noteq> []"
    and "off mod 60 = 0" and "\<bar>off\<bar> \<le> 14 * 3600"
    and "parseClock (qh_Start q) = Some start" and "parseClock (qh_End q) = Some stop" and "start \<noteq> stop"
  shows "\<exists>t. DeliveryAt tz now q = Inr t \<and> now \<le> t \<and> (qh_Bypass q \<longrightarrow> t = now)
    \<and> (\<not> qh_Bypass q \<longrightarrow> \<not> quiet_at off q t \<and> (\<forall>u. now \<le> u \<and> u < t \<longrightarrow> quiet_at off q u))"
proof (cases "qh_Bypass q \<or> \<not> quiet_at off q now")
  case True
  then have "DeliveryAt tz now q = Inr now" using assms by (auto simp: DeliveryAt_def is_zero_def quiet_at_def)
  then show ?thesis using True by auto
next
  case False
  let ?z = "fixed_zone off" and ?lt = "\<lparr>Hour = stop div 60, Minute = stop mod 60\<rparr>" and ?week = "[1, 2, 3, 4, 5, 6, 7]"
  have range: "0 \<le> stop" "stop < 1440" "0 \<le> start" "start < 1440" using parseClock_range assms(6,7) by auto
  have quiet: "quiet_at off q u \<longleftrightarrow> in_quiet_hours start stop (abs_minute off u mod 1440)" for u
    using assms(6,7) by (simp add: quiet_at_def local_minute_abs)
  define def where "def = \<lparr>Timezone = qh_Timezone q, LocalTime = ?lt, ISOWeekdays = remdups ?week\<rparr>"
  have new: "NewDefinition tz (qh_Timezone q) ?lt ?week = Inr def"
  proof -
    have "0 \<le> stop div 60" "stop div 60 \<le> 23" "0 \<le> stop mod 60" "stop mod 60 \<le> 59"
      using range zdiv_mono1 [of stop 1439 60] by (simp_all add: pos_imp_zdiv_nonneg_iff)
    then show ?thesis using assms(2,3) by (simp add: NewDefinition_def def_def)
  qed
  from NextOccurrence_fixed [OF this assms(2,4,5), of now]
  obtain t where t: "NextOccurrence tz now def = Inr t" "now < t" "t mod minute = 0" "local_minute ?z t = stop"
    and least: "\<And>u. now < u \<Longrightarrow> u mod minute = 0 \<Longrightarrow> local_minute ?z u = stop \<Longrightarrow> t \<le> u"
    using every_weekday by fastforce
  have result: "DeliveryAt tz now q = Inr t"
    using assms False new t(1) by (auto simp: DeliveryAt_def is_zero_def quiet_at_def map_error_def)
  have "k mod 1440 \<noteq> stop" if "abs_minute off now < k" "k < abs_minute off t" for k
  proof
    assume "k mod 1440 = stop"
    then have "t \<le> minute_start off k"
      using least [of "minute_start off k"] minute_start_props [OF assms(4)] that(1) by (simp add: local_minute_abs)
    then show False using that(2) abs_minute_mono [of t "minute_start off k" off] minute_start_props(1) [OF assms(4), of k] by simp
  qed
  then have until: "in_quiet_hours start stop (k mod 1440)" if "abs_minute off now \<le> k" "k < abs_minute off t" for k
    using quiet_until [OF _ range, of "abs_minute off now" "abs_minute off t"] that False quiet by auto
  have "abs_minute off u < abs_minute off t" if "u < t" for u
  proof -
    have "t = minute_start off (abs_minute off t)"
      using minute_start_whole [OF assms(4) t(3)] .
    then show ?thesis using that minute_start_props(3) [OF assms(4), of u "abs_minute off t"] by simp
  qed
  then have "quiet_at off q u" if "now \<le> u" "u < t" for u
    using until [of "abs_minute off u"] abs_minute_mono [OF that(1)] that(2) quiet by blast
  moreover have "\<not> quiet_at off q t"
    using t(4) assms(8) by (auto simp: quiet local_minute_abs in_quiet_hours_def)
  ultimately show ?thesis using result t(2) False by auto
qed

definition sample_quiet :: quiet_hours where
  "sample_quiet = \<lparr>qh_Timezone = ''Europe/Vienna'', qh_Start = ''22:00'', qh_End = ''07:00'', qh_Bypass = False\<rparr>"

theorem DeliveryAt_first_witness:
  "\<exists>t. DeliveryAt (\<lambda>zone. Some (fixed_zone 3600)) 1 sample_quiet = Inr t \<and> 1 < t \<and> \<not> quiet_at 3600 sample_quiet t"
proof -
  have clocks: "parseClock (qh_Start sample_quiet) = Some 1320" "parseClock (qh_End sample_quiet) = Some 420" by code_simp+
  have "\<exists>t. DeliveryAt (\<lambda>zone. Some (fixed_zone 3600)) 1 sample_quiet = Inr t \<and> 1 \<le> t
      \<and> (\<not> qh_Bypass sample_quiet \<longrightarrow> \<not> quiet_at 3600 sample_quiet t)"
    using DeliveryAt_first [of 1 "\<lambda>zone. Some (fixed_zone 3600)" sample_quiet 3600, OF _ _ _ _ _ clocks]
    by (auto simp: sample_quiet_def)
  moreover have "quiet_at 3600 sample_quiet 1"
    using clocks by (simp add: quiet_at_def local_minute_abs abs_minute_def in_quiet_hours_def)
  ultimately show ?thesis by (metis order_le_imp_less_or_eq sample_quiet_def quiet_hours.select_convs(4))
qed

end
