(* ===== verification/Advisory_Evidence.thy ===== *)
theory Advisory_Evidence
  imports Alert
begin

text \<open>
  The evidence of a critical alert: the object keys of stored documents (\<open>src/internal/storage/storage.go\<close>),
  which addresses belong to the official advisory feed (\<open>src/internal/sources/global_advisories.go\<close>,
  \<open>src/internal/alert/pgstore/store.go\<close>) and the reading of one stored advisory (\<open>readAdvisory\<close>). The URL parser, the
  query parser, the case folding, the media-type parser, the object store, SHA-256, the JSON decoder and the
  check of a source entry (\<open>src/internal/parsing/entries.go\<close>) are the fields of the argument \<open>evidence_lib\<close>.
\<close>

section \<open>What the code reads of libraries\<close>

record parsed_url =
  pu_Scheme :: string
  pu_Host :: string
  pu_HasUser :: bool
  pu_Opaque :: string
  pu_Path :: string
  pu_RawPath :: string
  pu_RawQuery :: string
  pu_Fragment :: string
  pu_RawFragment :: string
  pu_ForceQuery :: bool

record advisory_entry =
  ae_ID :: string
  ae_URL :: string
  ae_ExternalURL :: string
  ae_Advisory :: advisory

record evidence_lib =
  lib_url :: "string \<Rightarrow> parsed_url option"
  lib_query :: "string \<Rightarrow> (string \<times> string list) list option"
  lib_equal_fold :: "string \<Rightarrow> string \<Rightarrow> bool"
  lib_media_type :: "string \<Rightarrow> string option"
  lib_object :: "string \<Rightarrow> int \<Rightarrow> string option"
  lib_sha256 :: "string \<Rightarrow> string"
  lib_decode :: "string \<Rightarrow> advisory_entry option"
  lib_valid_entry :: "string \<Rightarrow> string \<Rightarrow> string \<Rightarrow> string \<Rightarrow> bool"

section \<open>Object keys\<close>

definition hex_char :: "nat \<Rightarrow> char" where
  "hex_char n = (if n < 10 then char_of (48 + n) else char_of (87 + n))"

definition hex_encode :: "string \<Rightarrow> string" where
  "hex_encode s = concat (map (\<lambda>c. [hex_char (byte c div 16), hex_char (byte c mod 16)]) s)"

definition lower_hex :: "char \<Rightarrow> bool" where
  "lower_hex c \<longleftrightarrow> is_digit c \<or> (97 \<le> byte c \<and> byte c \<le> (102 :: nat))"

definition lower_alnum :: "char \<Rightarrow> bool" where
  "lower_alnum c \<longleftrightarrow> is_digit c \<or> (97 \<le> byte c \<and> byte c \<le> (122 :: nat))"

text \<open>\<open>^[a-z0-9]+(?:-[a-z0-9]+)*$\<close>\<close>

definition sourceIDPattern :: "string \<Rightarrow> bool" where
  "sourceIDPattern s \<longleftrightarrow> list_all (\<lambda>p. p \<noteq> [] \<and> list_all lower_alnum p) (split_byte CHR ''-'' s)"

definition extensionFor :: "evidence_lib \<Rightarrow> string \<Rightarrow> string" where
  "extensionFor L contentType =
     (case lib_media_type L contentType of
        None \<Rightarrow> ''bin''
      | Some m \<Rightarrow>
          if m \<in> {''application/atom+xml'', ''application/rss+xml'', ''application/xml'', ''text/xml''} then ''xml''
          else if m \<in> {''application/feed+json'', ''application/json'', ''application/ld+json'', ''application/vnd.github+json''} then ''json''
          else if m \<in> {''text/html'', ''application/xhtml+xml''} then ''html''
          else if m \<in> {''text/plain'', ''text/markdown''} then ''txt''
          else ''bin'')"

definition utc_date :: "time \<Rightarrow> int \<times> int \<times> int" where
  "utc_date t = civil_from_days (t div (24 * hour))"

text \<open>\<open>%04d\<close> and \<open>%02d\<close>; a sign counts as a character of the width.\<close>

definition format_padded :: "nat \<Rightarrow> int \<Rightarrow> string" where
  "format_padded n x = (if x < 0 then CHR ''-'' # zero_pad (n - 1) (nat (- x)) else zero_pad n (nat x))"

definition RawObjectKey :: "evidence_lib \<Rightarrow> string \<Rightarrow> time \<Rightarrow> string \<Rightarrow> string \<Rightarrow> string option" where
  "RawObjectKey L sourceID observedAt digest contentType =
     (if \<not> sourceIDPattern sourceID \<or> is_zero observedAt then None
      else (case utc_date observedAt of (y, m, d) \<Rightarrow>
        Some (''raw/'' @ sourceID @ ''/'' @ format_padded 4 y @ ''/'' @ format_padded 2 m @ ''/'' @ format_padded 2 d @ ''/''
              @ hex_encode digest @ ''.'' @ extensionFor L contentType)))"

definition RawFetchObjectKey ::
    "evidence_lib \<Rightarrow> string \<Rightarrow> string \<Rightarrow> string \<Rightarrow> time \<Rightarrow> string \<Rightarrow> string \<Rightarrow> string option" where
  "RawFetchObjectKey L sourceID registryID canonicalURL observedAt digest contentType =
     (if registryID = [] \<or> canonicalURL = [] then None
      else RawObjectKey L (sourceID @ ''-fetch-'' @ hex_encode (lib_sha256 L (registryID @ [CHR 0x00] @ canonicalURL))) observedAt digest contentType)"

definition NormalizedObjectKey :: "string \<Rightarrow> string \<Rightarrow> string option" where
  "NormalizedObjectKey sourceID digest =
     (if \<not> sourceIDPattern sourceID then None else Some (''normalized/'' @ sourceID @ ''/'' @ hex_encode digest @ ''.txt''))"

definition extensions :: "string list" where
  "extensions = [''bin'', ''html'', ''json'', ''txt'', ''xml'']"

text \<open>\<open>[a-f0-9]{64}\.(?:...)\<close> for a list of extensions.\<close>

definition digest_file :: "string list \<Rightarrow> string \<Rightarrow> bool" where
  "digest_file exts f \<longleftrightarrow> length (take 64 f) = 64 \<and> list_all lower_hex (take 64 f) \<and> drop 64 f \<in> set (map (\<lambda>e. CHR ''.'' # e) exts)"

text \<open>\<open>time.Parse("2006/01/02", s)\<close> on three fields of four, two and two digits.\<close>

definition date_fields_ok :: "string \<Rightarrow> string \<Rightarrow> string \<Rightarrow> bool" where
  "date_fields_ok y m d \<longleftrightarrow>
     length y = 4 \<and> length m = 2 \<and> length d = 2 \<and> list_all is_digit (y @ m @ d)
     \<and> (let yy = int (digits_val 0 y); mm = int (digits_val 0 m); dd = int (digits_val 0 d)
        in 1 \<le> mm \<and> mm \<le> 12 \<and> 1 \<le> dd \<and> dd \<le> days_in_month yy mm)"

definition ValidateObjectKey :: "string \<Rightarrow> bool" where
  "ValidateObjectKey key =
     (case split_byte CHR ''/'' key of
        [p, src, f] \<Rightarrow> p = ''normalized'' \<and> sourceIDPattern src \<and> digest_file [''txt''] f
      | [p, src, y, m, d, f] \<Rightarrow> p = ''raw'' \<and> sourceIDPattern src \<and> date_fields_ok y m d \<and> digest_file extensions f
      | _ \<Rightarrow> False)"

section \<open>The official feed\<close>

definition GlobalReviewedAdvisoriesURL :: string where
  "GlobalReviewedAdvisoriesURL = ''https://api.github.com/advisories?direction=desc&per_page=100&sort=updated&type=reviewed''"

definition globalAdvisoryQueryKey :: "string \<Rightarrow> bool" where
  "globalAdvisoryQueryKey key \<longleftrightarrow> key \<in> set [''type'', ''sort'', ''direction'', ''per_page'', ''after'']"

definition query_values :: "(string \<times> string list) list \<Rightarrow> string \<Rightarrow> string list" where
  "query_values q key = (case map_of q key of None \<Rightarrow> [] | Some vs \<Rightarrow> vs)"

definition singleQueryValue :: "(string \<times> string list) list \<Rightarrow> string \<Rightarrow> string \<Rightarrow> bool" where
  "singleQueryValue q key want \<longleftrightarrow> query_values q key = [want]"

text \<open>\<open>strings.Cut(pair, "=")\<close> finds a separator and the name before it is known.\<close>

definition query_pair_ok :: "string \<Rightarrow> bool" where
  "query_pair_ok pair \<longleftrightarrow> CHR ''='' \<in> set pair \<and> globalAdvisoryQueryKey (takeWhile (\<lambda>c. c \<noteq> CHR ''='') pair)"

definition cursor_ok :: "string \<Rightarrow> bool" where
  "cursor_ok cursor \<longleftrightarrow> cursor \<noteq> [] \<and> length cursor \<le> 1024 \<and> list_all (\<lambda>c. 33 \<le> byte c \<and> byte c \<le> (126 :: nat)) cursor"

definition IsGlobalAdvisoryPageURL :: "evidence_lib \<Rightarrow> string \<Rightarrow> bool" where
  "IsGlobalAdvisoryPageURL L raw =
     (if raw = GlobalReviewedAdvisoriesURL then True
      else if length raw > 2048 \<or> contains raw ''#'' then False
      else (case lib_url L raw of
        None \<Rightarrow> False
      | Some u \<Rightarrow>
          if pu_Scheme u \<noteq> ''https'' \<or> pu_Host u \<noteq> ''api.github.com'' \<or> pu_HasUser u \<or> pu_Opaque u \<noteq> [] \<or> pu_Path u \<noteq> ''/advisories''
             \<or> pu_RawPath u \<noteq> [] \<or> pu_RawFragment u \<noteq> [] \<or> pu_ForceQuery u
          then False
          else if \<not> list_all query_pair_ok (split_byte CHR ''&'' (pu_RawQuery u)) then False
          else (case lib_query L (pu_RawQuery u) of
            None \<Rightarrow> False
          | Some q \<Rightarrow>
              length q = 5 \<and> singleQueryValue q ''type'' ''reviewed'' \<and> singleQueryValue q ''sort'' ''updated''
              \<and> singleQueryValue q ''direction'' ''desc'' \<and> singleQueryValue q ''per_page'' ''100''
              \<and> (case query_values q ''after'' of [cursor] \<Rightarrow> cursor_ok cursor | _ \<Rightarrow> False))))"

definition officialAdvisoryParent :: "evidence_lib \<Rightarrow> string \<Rightarrow> string \<Rightarrow> bool" where
  "officialAdvisoryParent L endpointURL parentURL =
     (if parentURL = endpointURL then True
      else endpointURL = GlobalReviewedAdvisoriesURL \<and> IsGlobalAdvisoryPageURL L parentURL)"

definition officialAdvisoryEndpoint :: "evidence_lib \<Rightarrow> string \<Rightarrow> bool" where
  "officialAdvisoryEndpoint L raw =
     (if raw = GlobalReviewedAdvisoriesURL then True
      else (case lib_url L raw of
        None \<Rightarrow> False
      | Some u \<Rightarrow>
          if pu_Scheme u \<noteq> ''https'' \<or> pu_Host u \<noteq> ''api.github.com'' \<or> pu_HasUser u \<or> pu_RawQuery u \<noteq> []
             \<or> pu_Fragment u \<noteq> [] \<or> pu_RawPath u \<noteq> []
          then False
          else (case split_byte CHR ''/'' (pu_Path u) of
            [p0, p1, p2, p3, p4] \<Rightarrow>
              p0 = [] \<and> p1 = ''repos'' \<and> p2 \<noteq> [] \<and> p3 \<noteq> [] \<and> p4 = ''security-advisories''
              \<and> p2 \<noteq> ''.'' \<and> p2 \<noteq> ''..'' \<and> p3 \<noteq> ''.'' \<and> p3 \<noteq> ''..''
          | _ \<Rightarrow> False)))"

definition officialAdvisoryURL :: "evidence_lib \<Rightarrow> string \<Rightarrow> string \<Rightarrow> string \<Rightarrow> bool" where
  "officialAdvisoryURL L endpoint rawURL advisoryID =
     (case lib_url L rawURL of
        None \<Rightarrow> False
      | Some public \<Rightarrow>
          if pu_Scheme public \<noteq> ''https'' \<or> pu_Host public \<noteq> ''github.com'' \<or> pu_HasUser public \<or> pu_RawQuery public \<noteq> []
             \<or> pu_Fragment public \<noteq> [] \<or> pu_RawPath public \<noteq> [] \<or> advisoryID = []
          then False
          else (case lib_url L endpoint of
            None \<Rightarrow> False
          | Some api \<Rightarrow>
              if \<not> officialAdvisoryEndpoint L endpoint then False
              else
                (let parts = split_byte CHR ''/'' (pu_Path public) in
                 if pu_Path api = ''/advisories''
                 then parts = [[], ''advisories'', advisoryID]
                 else (case (parts, split_byte CHR ''/'' (pu_Path api)) of
                   ([q0, q1, q2, q3, q4, q5], _ # _ # a2 # a3 # _) \<Rightarrow>
                     q0 = [] \<and> lib_equal_fold L q1 a2 \<and> lib_equal_fold L q2 a3 \<and> q3 = ''security'' \<and> q4 = ''advisories'' \<and> q5 = advisoryID
                 | _ \<Rightarrow> False))))"

section \<open>Reading an advisory\<close>

record evidence =
  ev_objectKey :: string
  ev_rawSHA256 :: string
  ev_sourceID :: string
  ev_canonicalURL :: string
  ev_entryRowID :: string
  ev_entryID :: string
  ev_entryFirstSeenAt :: time
  ev_endpointURL :: string
  ev_parentURL :: string
  ev_title :: string
  ev_observedAt :: time
  ev_itemID :: string
  ev_itemStatus :: string

definition maximumAdvisoryEntryBytes :: int where
  "maximumAdvisoryEntryBytes = 1048576"

definition readAdvisory :: "evidence_lib \<Rightarrow> evidence \<Rightarrow> string + (advisory \<times> string)" where
  "readAdvisory L found =
     (if \<not> officialAdvisoryEndpoint L (ev_endpointURL found) then Inl ''source endpoint is outside official GitHub advisory API''
      else if \<not> ValidateObjectKey (ev_objectKey found) then Inl ''object key is outside approved content-addressed namespaces''
      else if length (ev_rawSHA256 found) \<noteq> 32 then Inl ''advisory raw digest has invalid length''
      else
        (let keySourceID = ev_sourceID found @ ''-entry-'' @ hex_encode (lib_sha256 L (ev_entryID found)) in
         if RawObjectKey L keySourceID (ev_entryFirstSeenAt found) (ev_rawSHA256 found) ''application/json'' \<noteq> Some (ev_objectKey found)
         then Inl ''advisory object key differs from recorded entry and digest''
         else (case lib_object L (ev_objectKey found) maximumAdvisoryEntryBytes of
           None \<Rightarrow> Inl ''read advisory child object''
         | Some payload \<Rightarrow>
             if payload = [] \<or> int (length payload) > maximumAdvisoryEntryBytes \<or> lib_sha256 L payload \<noteq> ev_rawSHA256 found
             then Inl ''advisory child object digest or size differs from record''
             else if \<not> lib_valid_entry L (ev_endpointURL found) (ev_entryID found) (ev_canonicalURL found) payload
             then Inl ''validate advisory child''
             else (case lib_decode L payload of
               None \<Rightarrow> Inl ''decode advisory metadata''
             | Some entry \<Rightarrow>
                 if ae_ID entry \<noteq> ev_entryID found \<or> ae_URL entry \<noteq> ev_canonicalURL found
                    \<or> \<not> has_prefix (ae_ID entry) ''github_advisories:'' \<or> adv_ID (ae_Advisory entry) = []
                 then Inl ''advisory child identity is missing or inconsistent''
                 else
                   (let sourceURL = (if ae_ExternalURL entry \<noteq> [] then ae_ExternalURL entry else ae_URL entry) in
                    if \<not> officialAdvisoryURL L (ev_endpointURL found) sourceURL (adv_ID (ae_Advisory entry))
                    then Inl ''advisory public URL is not the matching official GitHub advisory''
                    else Inr (ae_Advisory entry, sourceURL))))))"

section \<open>Keys are content addresses\<close>

lemma hex_char_lower: "n < 16 \<Longrightarrow> lower_hex (hex_char n)"
  by (auto simp: hex_char_def lower_hex_def is_digit_def)

lemma hex_char_byte: "n < 16 \<Longrightarrow> byte (hex_char n) = (if n < 10 then 48 + n else 87 + n)"
  by (simp add: hex_char_def)

lemma hex_char_inj:
  assumes "m < 16" "n < 16" "hex_char m = hex_char n"
  shows "m = n"
proof -
  have "(if m < 10 then 48 + m else 87 + m) = (if n < 10 then 48 + n else 87 + n)"
    unfolding hex_char_byte [OF assms(1), symmetric] hex_char_byte [OF assms(2), symmetric] by (simp only: assms(3))
  then show ?thesis using assms(1,2) by presburger
qed

lemma byte_div: "byte c div 16 < (16 :: nat)"
  by (rule less_mult_imp_div_less) (use nat_of_char_less_256 [of c] in simp)

lemma hex_encode_length [simp]: "length (hex_encode s) = 2 * length s"
  by (induction s) (simp_all add: hex_encode_def)

lemma hex_byte: "lower_hex (hex_char (byte c div 16)) \<and> lower_hex (hex_char (byte c mod 16))"
  using hex_char_lower [of "byte c div 16"] hex_char_lower [of "byte c mod 16"] byte_div [of c] by simp

lemma hex_encode_lower: "list_all lower_hex (hex_encode s)"
  using hex_byte by (induction s) (simp_all add: hex_encode_def)

lemma hex_encode_inj: "hex_encode s = hex_encode t \<Longrightarrow> s = t"
proof (induction s arbitrary: t)
  case Nil
  then show ?case by (cases t) (auto simp: hex_encode_def)
next
  case (Cons c s)
  then obtain d t' where t: "t = d # t'" by (cases t) (auto simp: hex_encode_def)
  have b: "byte c div 16 < 16" "byte d div 16 < 16" "byte c mod 16 < 16" "byte d mod 16 < (16 :: nat)"
    using byte_div [of c] byte_div [of d] by simp_all
  have "hex_char (byte c div 16) = hex_char (byte d div 16)" "hex_char (byte c mod 16) = hex_char (byte d mod 16)"
    using Cons.prems t by (auto simp: hex_encode_def)
  then have "byte c div 16 = (byte d div 16 :: nat)" "byte c mod 16 = (byte d mod 16 :: nat)" using hex_char_inj b by blast+
  then have "byte c = (byte d :: nat)" by (metis div_mult_mod_eq)
  moreover have "s = t'" using Cons t by (simp add: hex_encode_def)
  ultimately show ?case using t by simp
qed

lemma not_slash:
  "lower_hex c \<Longrightarrow> c \<noteq> CHR ''/''" "lower_alnum c \<Longrightarrow> c \<noteq> CHR ''/''" "is_digit c \<Longrightarrow> c \<noteq> CHR ''/''"
  by (auto simp: lower_hex_def lower_alnum_def is_digit_def)

lemma sourceIDPattern_slash: "sourceIDPattern s \<Longrightarrow> CHR ''/'' \<notin> set s"
proof
  assume p: "sourceIDPattern s" and "CHR ''/'' \<in> set s"
  then have "CHR ''/'' \<in> set (join [CHR ''-''] (split_byte CHR ''-'' s))" by (simp add: split_byte_join)
  moreover have "set (join [CHR ''-''] ps) \<subseteq> insert CHR ''-'' (\<Union> (set ` set ps))" for ps by (induction "[CHR ''-'']" ps rule: join.induct) auto
  ultimately show False using p not_slash(2) by (fastforce simp: sourceIDPattern_def list_all_iff)
qed

lemma digest_file_hex: "length d = 32 \<Longrightarrow> e \<in> set exts \<Longrightarrow> digest_file exts (hex_encode d @ ''.'' @ e)"
  by (auto simp: digest_file_def hex_encode_lower)

lemma extensionFor_range: "extensionFor L c \<in> set extensions"
  by (auto simp: extensionFor_def extensions_def split: option.split)

lemma join_slash: "join ''/'' [a, b, c, d, e, f] = a @ ''/'' @ b @ ''/'' @ c @ ''/'' @ d @ ''/'' @ e @ ''/'' @ f" "join ''/'' [a, b, c] = a @ ''/'' @ b @ ''/'' @ c"
  by simp_all

lemma split_slash:
  "list_all (\<lambda>p. CHR ''/'' \<notin> set p) ps \<Longrightarrow> ps \<noteq> [] \<Longrightarrow> split_byte CHR ''/'' (join ''/'' ps) = ps"
  using split_byte_join_inverse [of ps "CHR ''/''"] by (simp add: list_all_iff)

lemma file_slash: "CHR ''/'' \<notin> set (hex_encode d @ ''.'' @ extensionFor L c)" "CHR ''/'' \<notin> set (hex_encode d @ ''.txt'')"
proof -
  have hex: "CHR ''/'' \<notin> set (hex_encode d)" using hex_encode_lower [of d] not_slash(1) unfolding list_all_iff by blast
  have "\<forall>e\<in>set extensions. CHR ''/'' \<notin> set e" by (simp add: extensions_def)
  then have "CHR ''/'' \<notin> set (extensionFor L c)" using extensionFor_range by blast
  then show "CHR ''/'' \<notin> set (hex_encode d @ ''.'' @ extensionFor L c)" using hex by simp
  show "CHR ''/'' \<notin> set (hex_encode d @ ''.txt'')" using hex by simp
qed

definition four_digit_year :: "time \<Rightarrow> bool" where
  "four_digit_year t \<longleftrightarrow> 0 \<le> fst (utc_date t) \<and> fst (utc_date t) \<le> 9999"

lemma utc_date_valid:
  assumes "four_digit_year t"
  obtains y m d where "utc_date t = (int y, int m, int d)" "y < 10 ^ 4" "m < 10 ^ 2" "d < 10 ^ 2"
    "1 \<le> m" "m \<le> 12" "1 \<le> d" "int d \<le> days_in_month (int y) (int m)"
proof -
  obtain y m d where u: "utc_date t = (y, m, d)" by (cases "utc_date t") auto
  note valid = civil_from_days_valid [OF u [unfolded utc_date_def]]
  have y: "0 \<le> y" "y \<le> 9999" using assms u by (simp_all add: four_digit_year_def)
  have "days_in_month y m \<le> 31" by (simp add: days_in_month_def)
  then have n: "0 \<le> m" "0 \<le> d" "nat y < 10 ^ 4" "nat m < 10 ^ 2" "nat d < 10 ^ 2" "1 \<le> nat m" "nat m \<le> 12" "1 \<le> nat d"
    using valid y by auto
  show ?thesis using that [of "nat y" "nat m" "nat d"] n valid y u by simp
qed

lemma raw_key_parts:
  assumes "RawObjectKey L sourceID t d c = Some key" "length d = 32" "four_digit_year t"
  shows "\<exists>y m day. date_fields_ok y m day \<and> split_byte CHR ''/'' key = [''raw'', sourceID, y, m, day, hex_encode d @ ''.'' @ extensionFor L c]
    \<and> sourceIDPattern sourceID"
proof -
  obtain y m day where u: "utc_date t = (int y, int m, int day)" and b: "y < 10 ^ 4" "m < 10 ^ 2" "day < 10 ^ 2"
      and valid: "1 \<le> m" "m \<le> 12" "1 \<le> day" "int day \<le> days_in_month (int y) (int m)"
    by (rule utc_date_valid [OF assms(3)])
  have pos: "0 < (4 :: nat)" "0 < (2 :: nat)" by simp_all
  note z = zero_pad_digits [OF b(1) pos(1)] zero_pad_digits [OF b(2) pos(2)] zero_pad_digits [OF b(3) pos(2)]
  define fs where "fs = [zero_pad 4 y, zero_pad 2 m, zero_pad 2 day]"
  have fields: "date_fields_ok (zero_pad 4 y) (zero_pad 2 m) (zero_pad 2 day)"
    unfolding date_fields_ok_def Let_def z using valid z by (simp add: list_all_append)
  have key: "key = join ''/'' [''raw'', sourceID, zero_pad 4 y, zero_pad 2 m, zero_pad 2 day, hex_encode d @ ''.'' @ extensionFor L c]"
    and src: "sourceIDPattern sourceID"
    using assms(1) by (simp_all add: RawObjectKey_def u format_padded_def split: if_split_asm)
  have "CHR ''/'' \<notin> set s" if "list_all is_digit s" for s using that not_slash(3) by (auto simp: list_all_iff)
  then have "list_all (\<lambda>p. CHR ''/'' \<notin> set p) [''raw'', sourceID, zero_pad 4 y, zero_pad 2 m, zero_pad 2 day, hex_encode d @ ''.'' @ extensionFor L c]"
    using z sourceIDPattern_slash [OF src] file_slash(1) [of d L c] by simp
  from split_slash [OF this] show ?thesis unfolding key using fields src by blast
qed

text \<open>
  Object keys are content addresses: every key the constructors build from a 32-byte digest is in an
  approved namespace, and a key determines the source it was built for and the digest.
\<close>

lemma object_keys_valid:
  assumes "RawObjectKey L sourceID t d c = Some key" "length d = 32" "four_digit_year t"
  shows "ValidateObjectKey key
    \<and> (\<forall>sourceID' t' d' c'. RawObjectKey L sourceID' t' d' c' = Some key \<longrightarrow> length d' = 32 \<longrightarrow> four_digit_year t'
          \<longrightarrow> sourceID' = sourceID \<and> d' = d)
    \<and> (\<exists>n. NormalizedObjectKey sourceID d = Some n \<and> ValidateObjectKey n \<and> n \<noteq> key)"
proof (intro conjI allI impI)
  obtain y m day where parts: "date_fields_ok y m day" "sourceIDPattern sourceID"
      "split_byte CHR ''/'' key = [''raw'', sourceID, y, m, day, hex_encode d @ ''.'' @ extensionFor L c]"
    using raw_key_parts [OF assms] by blast
  show "ValidateObjectKey key"
    using parts digest_file_hex [OF assms(2) extensionFor_range] by (simp add: ValidateObjectKey_def)
  have src: "CHR ''/'' \<notin> set sourceID" by (rule sourceIDPattern_slash [OF parts(2)])
  have "split_byte CHR ''/'' (join ''/'' [''normalized'', sourceID, hex_encode d @ ''.txt'']) = [''normalized'', sourceID, hex_encode d @ ''.txt'']"
    using src file_slash(2) [of d] by (intro split_slash) auto
  then have n: "split_byte CHR ''/'' (''normalized/'' @ sourceID @ ''/'' @ hex_encode d @ ''.txt'') = [''normalized'', sourceID, hex_encode d @ ''.txt'']"
    by simp
  show "\<exists>n. NormalizedObjectKey sourceID d = Some n \<and> ValidateObjectKey n \<and> n \<noteq> key"
    using parts n digest_file_hex [OF assms(2), of "''txt''" "[''txt'']"] by (auto simp: NormalizedObjectKey_def ValidateObjectKey_def)
  fix sourceID' t' d' c' assume other: "RawObjectKey L sourceID' t' d' c' = Some key" "length d' = 32" "four_digit_year t'"
  obtain y' m' day' where "split_byte CHR ''/'' key = [''raw'', sourceID', y', m', day', hex_encode d' @ ''.'' @ extensionFor L c']"
    using raw_key_parts [OF other] by blast
  then show "sourceID' = sourceID" and "d' = d"
    using parts(3) assms(2) other(2) hex_encode_inj by auto
qed

definition sample_lib :: evidence_lib where
  "sample_lib =
     \<lparr>lib_url = (\<lambda>s. None), lib_query = (\<lambda>s. None), lib_equal_fold = (\<lambda>a b. a = b), lib_media_type = Some,
      lib_object = (\<lambda>k n. None), lib_sha256 = (\<lambda>s. replicate 32 (CHR 0x07)), lib_decode = (\<lambda>s. None), lib_valid_entry = (\<lambda>a b c d. True)\<rparr>"

definition sample_digest_bytes :: string where
  "sample_digest_bytes = replicate 32 (CHR 0xAB)"

lemma object_keys_valid_witness:
  "\<exists>key. RawObjectKey sample_lib ''go-blog'' (738944 * (24 * hour)) sample_digest_bytes ''text/html'' = Some key \<and> ValidateObjectKey key"
proof -
  have key: "RawObjectKey sample_lib ''go-blog'' (738944 * (24 * hour)) sample_digest_bytes ''text/html'' \<noteq> None" by code_simp
  then obtain key where "RawObjectKey sample_lib ''go-blog'' (738944 * (24 * hour)) sample_digest_bytes ''text/html'' = Some key" by blast
  moreover have "length sample_digest_bytes = 32" by (simp add: sample_digest_bytes_def)
  moreover have "four_digit_year (738944 * (24 * hour))" by code_simp
  ultimately show ?thesis using object_keys_valid by blast
qed

section \<open>What is read\<close>

text \<open>An advisory is only read from bytes with the recorded digest, under the key of that digest, with a public address on the official host.\<close>

lemma readAdvisory_grounded:
  assumes "readAdvisory L found = Inr (a, sourceURL)"
  shows "officialAdvisoryEndpoint L (ev_endpointURL found)
    \<and> (\<exists>payload. lib_object L (ev_objectKey found) maximumAdvisoryEntryBytes = Some payload \<and> payload \<noteq> []
          \<and> lib_sha256 L payload = ev_rawSHA256 found \<and> length (ev_rawSHA256 found) = 32
          \<and> (\<exists>entry. lib_decode L payload = Some entry \<and> ae_Advisory entry = a \<and> ae_ID entry = ev_entryID found))
    \<and> (\<exists>u. lib_url L sourceURL = Some u \<and> pu_Scheme u = ''https'' \<and> pu_Host u = ''github.com'') \<and> adv_ID a \<noteq> []"
proof -
  from assms obtain payload entry where "officialAdvisoryEndpoint L (ev_endpointURL found)" "length (ev_rawSHA256 found) = 32"
      "lib_object L (ev_objectKey found) maximumAdvisoryEntryBytes = Some payload" "payload \<noteq> []" "lib_sha256 L payload = ev_rawSHA256 found"
      "lib_decode L payload = Some entry" "ae_ID entry = ev_entryID found" "adv_ID (ae_Advisory entry) \<noteq> []" "a = ae_Advisory entry"
      and url: "officialAdvisoryURL L (ev_endpointURL found) sourceURL (adv_ID (ae_Advisory entry))"
    by (auto simp: readAdvisory_def Let_def split: if_split_asm option.split_asm)
  moreover from url obtain u where "lib_url L sourceURL = Some u" "pu_Scheme u = ''https''" "pu_Host u = ''github.com''"
    by (auto simp: officialAdvisoryURL_def split: if_split_asm option.split_asm)
  ultimately show ?thesis by blast
qed

end
