(* ===== verification/Source_Registry.thy ===== *)
theory Source_Registry
  imports Advisory_Evidence
begin

text \<open>
  The reviewed source registry (\<open>src/internal/sources\<close>, the files \<open>types.go\<close> and \<open>validate.go\<close>): the entries, the endpoints they
  stand for, and the validation of registry and fixtures, which collects every problem. A validated registry
  only has endpoints that the fetcher and the alert assessor accept. The decoded documents are the
  values of the records; URL and media-type parsers, lower-casing and the base64 decoder are arguments.
\<close>

section \<open>Data\<close>

datatype connector =
    ConnectorAtom | ConnectorRSS | ConnectorJSONFeed | ConnectorPage | ConnectorGitHubReleases | ConnectorGitHubAdvisories
  | ConnectorRegistry | ConnectorStructuredAPI | ConnectorSourceEntry | ConnectorOther string

datatype repository_event = RepositoryEventReleases | RepositoryEventSecurityAdvisories | RepositoryEventOther string

record reg_source =
  so_ID :: string
  so_Name :: string
  so_TrustTier :: string
  so_Connector :: connector
  so_URL :: string
  so_Topics :: "string list"
  so_PollInterval :: duration
  so_Priority :: string
  so_RobotsPolicy :: string
  so_ContentLicense :: string
  so_Enabled :: bool
  so_Owner :: string
  so_Origin :: string
  so_ReviewedAt :: time
  so_ExpectedContentTypes :: "string list"
  so_MaxResponseBytes :: int
  so_FixtureSuite :: string

record reg_repository =
  rp_ID :: string
  rp_Name :: string
  rp_TrustTier :: string
  rp_URL :: string
  rp_NodeID :: string
  rp_RepositoryOwner :: string
  rp_RepositoryName :: string
  rp_Topics :: "string list"
  rp_PollInterval :: duration
  rp_AdvisoryPollInterval :: duration
  rp_Priority :: string
  rp_ContentLicense :: string
  rp_Enabled :: bool
  rp_Owner :: string
  rp_Origin :: string
  rp_ReviewedAt :: time
  rp_MaxResponseBytes :: int
  rp_EnabledEvents :: "repository_event list"
  rp_FixtureSuites :: "repository_event \<Rightarrow> string option"

record registry =
  rg_Version :: int
  rg_Enabled :: bool
  rg_Contact :: string
  rg_Sources :: "reg_source list"
  rg_Repositories :: "reg_repository list"

record endpoint =
  ep_ID :: string
  ep_SourceID :: string
  ep_Name :: string
  ep_TrustTier :: string
  ep_Connector :: connector
  ep_URL :: string
  ep_Topics :: "string list"
  ep_PollInterval :: duration
  ep_Priority :: string
  ep_RobotsPolicy :: string
  ep_ContentLicense :: string
  ep_Enabled :: bool
  ep_Owner :: string
  ep_Origin :: string
  ep_ReviewedAt :: time
  ep_ExpectedContentTypes :: "string list"
  ep_MaxResponseBytes :: int
  ep_FixtureSuite :: string
  ep_RepositoryNodeID :: string
  ep_RepositoryOwner :: string
  ep_RepositoryName :: string
  ep_RepositoryEvent :: "repository_event option"

record body_generator =
  bg_Kind :: string
  bg_Byte :: string
  bg_Repeat :: int
  bg_Compression :: string

record fixture_case =
  fc_ID :: string
  fc_Status :: int
  fc_Headers :: "string \<Rightarrow> string option"
  fc_Payload :: string
  fc_Generator :: "body_generator option"
  fc_Outcome :: string

record fixture_profile =
  fp_ID :: string
  fp_Cases :: "fixture_case list"

record fixture_payload =
  fy_Body :: "string option"
  fy_BodyBase64 :: "string option"
  fy_ContentType :: string

record fixture_suite =
  fs_ID :: string
  fs_Connector :: connector
  fs_Profile :: string
  fs_ContentType :: string
  fs_Payloads :: "string \<Rightarrow> fixture_payload option"

record fixture_catalog =
  ct_Version :: int
  ct_Profiles :: "fixture_profile list"
  ct_Suites :: "fixture_suite list"

record registry_lib =
  rl_lib :: evidence_lib
  rl_to_lower :: "string \<Rightarrow> string"
  rl_base64 :: "string \<Rightarrow> string option"

text \<open>A problem: where it was found and what is wrong.\<close>

datatype place = AtRegistry | AtSource nat string | AtRepository nat string | AtEndpoint string | AtCatalog | AtSuite string | AtCase string

type_synonym reg_problem = "place \<times> string"

section \<open>Loops over named things\<close>

text \<open>A loop that keeps the names it has seen and tells the body whether the current one is among them.\<close>

fun scan_seen :: "('a \<Rightarrow> 'k) \<Rightarrow> ('a \<Rightarrow> bool \<Rightarrow> 'e list) \<Rightarrow> 'k list \<Rightarrow> 'a list \<Rightarrow> 'e list" where
  "scan_seen key body seen [] = []"
| "scan_seen key body seen (x # xs) = body x (key x \<in> set seen) @ scan_seen key body (key x # seen) xs"

lemma scan_seen_Nil:
  assumes "\<And>x dup. body x dup = [] \<longleftrightarrow> P x \<and> \<not> dup"
  shows "scan_seen key body seen xs = [] \<longleftrightarrow> (\<forall>x\<in>set xs. P x) \<and> distinct (map key xs) \<and> key ` set xs \<inter> set seen = {}"
  using assms by (induction xs arbitrary: seen) auto

text \<open>A map filled in a loop: the last entry of a name wins.\<close>

definition table :: "('a \<Rightarrow> 'k) \<Rightarrow> ('a \<Rightarrow> 'v) \<Rightarrow> 'a list \<Rightarrow> 'k \<Rightarrow> 'v option" where
  "table key val xs = map_of (rev (map (\<lambda>x. (key x, val x)) xs))"

lemma table_Some: "table key val xs k = Some v \<Longrightarrow> \<exists>x\<in>set xs. key x = k \<and> val x = v"
  by (auto simp: table_def dest!: map_of_SomeD)

section \<open>Endpoints\<close>

definition approvedConnectors :: "connector list" where
  "approvedConnectors = [ConnectorAtom, ConnectorRSS, ConnectorJSONFeed, ConnectorPage, ConnectorGitHubReleases, ConnectorGitHubAdvisories,
     ConnectorRegistry, ConnectorStructuredAPI]"

definition source_endpoint :: "reg_source \<Rightarrow> endpoint" where
  "source_endpoint s =
     \<lparr>ep_ID = so_ID s, ep_SourceID = so_ID s, ep_Name = so_Name s, ep_TrustTier = so_TrustTier s, ep_Connector = so_Connector s, ep_URL = so_URL s,
      ep_Topics = so_Topics s, ep_PollInterval = so_PollInterval s, ep_Priority = so_Priority s, ep_RobotsPolicy = so_RobotsPolicy s,
      ep_ContentLicense = so_ContentLicense s, ep_Enabled = so_Enabled s, ep_Owner = so_Owner s, ep_Origin = so_Origin s,
      ep_ReviewedAt = so_ReviewedAt s, ep_ExpectedContentTypes = so_ExpectedContentTypes s, ep_MaxResponseBytes = so_MaxResponseBytes s,
      ep_FixtureSuite = so_FixtureSuite s, ep_RepositoryNodeID = [], ep_RepositoryOwner = [], ep_RepositoryName = [], ep_RepositoryEvent = None\<rparr>"

definition connectorForEvent :: "repository_event \<Rightarrow> connector \<times> string" where
  "connectorForEvent ev =
     (case ev of
        RepositoryEventReleases \<Rightarrow> (ConnectorGitHubReleases, ''/releases'')
      | RepositoryEventSecurityAdvisories \<Rightarrow> (ConnectorGitHubAdvisories, ''/security-advisories'')
      | RepositoryEventOther _ \<Rightarrow> (ConnectorOther [], []))"

definition event_text :: "repository_event \<Rightarrow> string" where
  "event_text ev =
     (case ev of RepositoryEventReleases \<Rightarrow> ''releases'' | RepositoryEventSecurityAdvisories \<Rightarrow> ''security_advisories'' | RepositoryEventOther s \<Rightarrow> s)"

definition eventLabel :: "repository_event \<Rightarrow> string" where
  "eventLabel ev = (if ev = RepositoryEventSecurityAdvisories then ''security advisories'' else event_text ev)"

definition repository_endpoint :: "reg_repository \<Rightarrow> repository_event \<Rightarrow> endpoint" where
  "repository_endpoint r ev =
     (let advisories = (ev = RepositoryEventSecurityAdvisories) in
      \<lparr>ep_ID = rp_ID r @ ''-'' @ map (\<lambda>c. if c = CHR ''_'' then CHR ''-'' else c) (event_text ev), ep_SourceID = rp_ID r,
       ep_Name = rp_Name r @ '' '' @ eventLabel ev, ep_TrustTier = rp_TrustTier r, ep_Connector = fst (connectorForEvent ev),
       ep_URL = trim_suffix (rp_URL r) ''/'' @ snd (connectorForEvent ev), ep_Topics = rp_Topics r,
       ep_PollInterval = (if advisories then rp_AdvisoryPollInterval r else rp_PollInterval r), ep_Priority = rp_Priority r, ep_RobotsPolicy = ''api'',
       ep_ContentLicense = (if advisories then ''link-and-excerpt'' else rp_ContentLicense r), ep_Enabled = rp_Enabled r, ep_Owner = rp_Owner r,
       ep_Origin = rp_Origin r, ep_ReviewedAt = rp_ReviewedAt r, ep_ExpectedContentTypes = [''application/vnd.github+json'', ''application/json''],
       ep_MaxResponseBytes = rp_MaxResponseBytes r, ep_FixtureSuite = (case rp_FixtureSuites r ev of None \<Rightarrow> [] | Some s \<Rightarrow> s),
       ep_RepositoryNodeID = rp_NodeID r, ep_RepositoryOwner = rp_RepositoryOwner r, ep_RepositoryName = rp_RepositoryName r, ep_RepositoryEvent = Some ev\<rparr>)"

definition Endpoints :: "registry \<Rightarrow> endpoint list" where
  "Endpoints reg = map source_endpoint (rg_Sources reg) @ concat (map (\<lambda>r. map (repository_endpoint r) (rp_EnabledEvents r)) (rg_Repositories reg))"

section \<open>Validation of entries\<close>

definition idPattern :: "string \<Rightarrow> bool" where
  "idPattern s \<longleftrightarrow> sourceIDPattern s"

text \<open>\<open>^[A-Za-z0-9_.-]+$\<close>\<close>

definition repositoryPattern :: "string \<Rightarrow> bool" where
  "repositoryPattern s \<longleftrightarrow> s \<noteq> [] \<and> list_all (\<lambda>c. is_digit c \<or> (65 \<le> byte c \<and> byte c \<le> (90 :: nat)) \<or> (97 \<le> byte c \<and> byte c \<le> (122 :: nat))
     \<or> c = CHR ''_'' \<or> c = CHR ''.'' \<or> c = CHR ''-'') s"

text \<open>\<open>URL.Hostname\<close> and \<open>URL.Port\<close> split the host at its last colon when a number, or nothing, follows.\<close>

definition last_colon :: "string \<Rightarrow> (string \<times> string) option" where
  "last_colon h = (if CHR '':'' \<in> set h then Some (rev (tl (dropWhile (\<lambda>c. c \<noteq> CHR '':'') (rev h))), rev (takeWhile (\<lambda>c. c \<noteq> CHR '':'') (rev h))) else None)"

definition split_host_port :: "string \<Rightarrow> string \<times> string" where
  "split_host_port h =
     (let (host, port) = (case last_colon h of Some (a, b) \<Rightarrow> if list_all is_digit b then (a, b) else (h, []) | None \<Rightarrow> (h, [])) in
      if has_prefix host ''['' \<and> has_suffix host '']'' then (butlast (tl host), port) else (host, port))"

definition validateHTTPSURL :: "registry_lib \<Rightarrow> string \<Rightarrow> string option" where
  "validateHTTPSURL L raw =
     (case lib_url (rl_lib L) raw of
        None \<Rightarrow> Some ''invalid URL''
      | Some u \<Rightarrow>
          if pu_Scheme u \<noteq> ''https'' \<or> fst (split_host_port (pu_Host u)) = [] then Some ''URL must be absolute HTTPS''
          else if pu_HasUser u then Some ''URL must not contain user information''
          else if snd (split_host_port (pu_Host u)) \<noteq> [] \<and> snd (split_host_port (pu_Host u)) \<noteq> ''443'' then Some ''URL may use only the default HTTPS port''
          else if pu_Fragment u \<noteq> [] then Some ''URL must not contain a fragment''
          else None)"

definition validateTopics :: "place \<Rightarrow> string list \<Rightarrow> reg_problem list" where
  "validateTopics ctx topics =
     (if topics = [] then [(ctx, ''at least one topic is required'')]
      else scan_seen (\<lambda>t. t) (\<lambda>t dup. problem (\<not> idPattern t) (ctx, ''invalid topic'') @ problem dup (ctx, ''duplicate topic'')) [] topics)"

definition media_ok :: "registry_lib \<Rightarrow> string \<Rightarrow> bool" where
  "media_ok L t \<longleftrightarrow> lib_media_type (rl_lib L) t \<noteq> None"

definition validateContentTypes :: "registry_lib \<Rightarrow> place \<Rightarrow> string list \<Rightarrow> reg_problem list" where
  "validateContentTypes L ctx types =
     (if types = [] then [(ctx, ''expected_content_types is required'')]
      else concat (map (\<lambda>t. problem (\<not> media_ok L t) (ctx, ''invalid content type'')) types))"

definition maximumFeedBytes :: int where "maximumFeedBytes = 5 * 2 ^ 20"

definition maximumPageBytes :: int where "maximumPageBytes = 15 * 2 ^ 20"

definition maximumJSONBytes :: int where "maximumJSONBytes = 10 * 2 ^ 20"

definition maximumBytesFor :: "connector \<Rightarrow> int" where
  "maximumBytesFor c =
     (case c of ConnectorAtom \<Rightarrow> maximumFeedBytes | ConnectorRSS \<Rightarrow> maximumFeedBytes | ConnectorPage \<Rightarrow> maximumPageBytes | _ \<Rightarrow> maximumJSONBytes)"

definition poll_ok :: "duration \<Rightarrow> bool" where
  "poll_ok d \<longleftrightarrow> \<not> (d < 5 * minute \<or> d > 7 * (24 * hour))"

definition maximumReviewAge :: duration where
  "maximumReviewAge = 90 * (24 * hour)"

definition reviewed_problems :: "place \<Rightarrow> time \<Rightarrow> time \<Rightarrow> reg_problem list" where
  "reviewed_problems ctx reviewedAt now =
     (if is_zero reviewedAt then [(ctx, ''reviewed_at is required'')]
      else problem (now + 24 * hour < reviewedAt) (ctx, ''reviewed_at is in the future'')
        @ problem (time_sub now reviewedAt > maximumReviewAge) (ctx, ''review is older than 90 days''))"

definition validateCommon ::
    "registry_lib \<Rightarrow> place \<Rightarrow> string \<Rightarrow> string \<Rightarrow> string \<Rightarrow> string \<Rightarrow> string list \<Rightarrow> duration \<Rightarrow> string \<Rightarrow> string \<Rightarrow> string \<Rightarrow> string \<Rightarrow> time \<Rightarrow> int \<Rightarrow> time
      \<Rightarrow> reg_problem list" where
  "validateCommon L ctx i name trustTier rawURL topics pollInterval priority contentLicense owner origin reviewedAt maxResponseBytes now =
     problem (\<not> idPattern i) (ctx, ''invalid id'')
     @ problem (trim_space name = []) (ctx, ''name is required'')
     @ problem (trustTier \<noteq> ''T0'' \<and> trustTier \<noteq> ''T1'') (ctx, ''trust tier must be T0 or T1'')
     @ (case validateHTTPSURL L rawURL of None \<Rightarrow> [] | Some e \<Rightarrow> [(ctx, e)])
     @ validateTopics ctx topics
     @ problem (\<not> poll_ok pollInterval) (ctx, ''poll interval must be from 5m through 168h'')
     @ problem (priority \<noteq> ''critical'' \<and> priority \<noteq> ''high'' \<and> priority \<noteq> ''normal'') (ctx, ''invalid priority'')
     @ problem (contentLicense \<noteq> ''link-and-excerpt'' \<and> contentLicense \<noteq> ''metadata-only'') (ctx, ''invalid content license'')
     @ problem (owner \<noteq> ''system'' \<or> origin \<noteq> ''system'') (ctx, ''built-in entries must be owned and originated by system'')
     @ reviewed_problems ctx reviewedAt now
     @ problem (maxResponseBytes \<le> 0) (ctx, ''max_response_bytes must be positive'')"

definition advisory_source_problems :: "place \<Rightarrow> reg_source \<Rightarrow> reg_problem list" where
  "advisory_source_problems ctx s =
     (if so_Connector s \<noteq> ConnectorGitHubAdvisories then []
      else problem (so_URL s \<noteq> GlobalReviewedAdvisoriesURL) (ctx, ''GitHub advisories require the exact reviewed global endpoint'')
        @ problem (so_PollInterval s \<noteq> 5 * minute) (ctx, ''reviewed global advisories must poll every 5m'')
        @ problem (so_ContentLicense s \<noteq> ''link-and-excerpt'') (ctx, ''reviewed global advisories require retained parsing evidence''))"

definition validateSource :: "registry_lib \<Rightarrow> reg_source \<Rightarrow> place \<Rightarrow> (string \<Rightarrow> connector option) \<Rightarrow> time \<Rightarrow> reg_problem list" where
  "validateSource L s ctx suites now =
     validateCommon L ctx (so_ID s) (so_Name s) (so_TrustTier s) (so_URL s) (so_Topics s) (so_PollInterval s) (so_Priority s) (so_ContentLicense s)
       (so_Owner s) (so_Origin s) (so_ReviewedAt s) (so_MaxResponseBytes s) now
     @ problem (so_Connector s \<notin> set approvedConnectors) (ctx, ''unsupported connector'')
     @ problem (so_Connector s = ConnectorGitHubReleases) (ctx, ''GitHub connectors require a repository watch'')
     @ advisory_source_problems ctx s
     @ problem (so_RobotsPolicy s \<noteq> ''feed'' \<and> so_RobotsPolicy s \<noteq> ''page'' \<and> so_RobotsPolicy s \<noteq> ''api'') (ctx, ''invalid robots policy'')
     @ validateContentTypes L ctx (so_ExpectedContentTypes s)
     @ problem (so_MaxResponseBytes s > maximumBytesFor (so_Connector s)) (ctx, ''max_response_bytes exceeds connector limit'')
     @ (case suites (so_FixtureSuite s) of
          None \<Rightarrow> [(ctx, ''fixture suite does not exist'')]
        | Some c \<Rightarrow> problem (c \<noteq> so_Connector s) (ctx, ''fixture suite is for another connector''))"

definition supported_event :: "repository_event \<Rightarrow> bool" where
  "supported_event ev \<longleftrightarrow> fst (connectorForEvent ev) \<noteq> ConnectorOther []"

text \<open>The loop over the events; an unsupported one is reported and not remembered.\<close>

fun events_loop :: "place \<Rightarrow> reg_repository \<Rightarrow> (string \<Rightarrow> connector option) \<Rightarrow> repository_event list \<Rightarrow> repository_event list \<Rightarrow> reg_problem list" where
  "events_loop ctx r suites seen [] = []"
| "events_loop ctx r suites seen (ev # evs) =
     (if \<not> supported_event ev then (ctx, ''unsupported event'') # events_loop ctx r suites seen evs
      else problem (ev \<in> set seen) (ctx, ''duplicate event'')
        @ (case rp_FixtureSuites r ev of
             None \<Rightarrow> [(ctx, ''event requires a fixture suite'')]
           | Some suiteID \<Rightarrow>
               if suiteID = [] then [(ctx, ''event requires a fixture suite'')]
               else problem (suites suiteID \<noteq> Some (fst (connectorForEvent ev))) (ctx, ''fixture suite does not match event''))
        @ events_loop ctx r suites (ev # seen) evs)"

definition repository_url :: "reg_repository \<Rightarrow> string" where
  "repository_url r = ''https://api.github.com/repos/'' @ rp_RepositoryOwner r @ ''/'' @ rp_RepositoryName r"

definition advisory_interval_problems :: "place \<Rightarrow> reg_repository \<Rightarrow> reg_problem list" where
  "advisory_interval_problems ctx r =
     (if RepositoryEventSecurityAdvisories \<in> set (rp_EnabledEvents r)
      then problem (\<not> poll_ok (rp_AdvisoryPollInterval r)) (ctx, ''advisory_poll_interval must be from 5m through 168h'')
      else problem (rp_AdvisoryPollInterval r \<noteq> 0) (ctx, ''advisory_poll_interval requires security_advisories''))"

definition critical_problems :: "place \<Rightarrow> reg_repository \<Rightarrow> reg_problem list" where
  "critical_problems ctx r =
     (if rp_Priority r \<noteq> ''critical'' then []
      else problem (RepositoryEventReleases \<notin> set (rp_EnabledEvents r)) (ctx, ''critical repository requires releases'')
        @ problem (RepositoryEventSecurityAdvisories \<notin> set (rp_EnabledEvents r)) (ctx, ''critical repository requires security advisories''))"

definition validateRepository :: "registry_lib \<Rightarrow> reg_repository \<Rightarrow> place \<Rightarrow> (string \<Rightarrow> connector option) \<Rightarrow> time \<Rightarrow> reg_problem list" where
  "validateRepository L r ctx suites now =
     validateCommon L ctx (rp_ID r) (rp_Name r) (rp_TrustTier r) (rp_URL r) (rp_Topics r) (rp_PollInterval r) (rp_Priority r) (rp_ContentLicense r)
       (rp_Owner r) (rp_Origin r) (rp_ReviewedAt r) (rp_MaxResponseBytes r) now
     @ problem (rp_NodeID r = []) (ctx, ''node_id is required'')
     @ problem (\<not> repositoryPattern (rp_RepositoryOwner r) \<or> \<not> repositoryPattern (rp_RepositoryName r)) (ctx, ''invalid repository owner or name'')
     @ problem (rp_URL r \<noteq> repository_url r) (ctx, ''URL must be the repository'')
     @ problem (rp_MaxResponseBytes r > maximumJSONBytes) (ctx, ''max_response_bytes exceeds GitHub API limit'')
     @ problem (rp_ContentLicense r \<noteq> ''metadata-only'') (ctx, ''repository release baseline must be metadata-only'')
     @ problem (rp_EnabledEvents r = []) (ctx, ''enabled_events is required'')
     @ events_loop ctx r suites [] (rp_EnabledEvents r)
     @ advisory_interval_problems ctx r
     @ critical_problems ctx r"

section \<open>Validation of the registry\<close>

text \<open>The loop over the sources; it also returns the identifiers it has seen.\<close>

fun sources_loop :: "registry_lib \<Rightarrow> (string \<Rightarrow> connector option) \<Rightarrow> time \<Rightarrow> nat \<Rightarrow> string list \<Rightarrow> reg_source list \<Rightarrow> reg_problem list \<times> string list" where
  "sources_loop L suites now index identifiers [] = ([], identifiers)"
| "sources_loop L suites now index identifiers (s # ss) =
     (let ctx = AtSource index (so_ID s);
          (ps, ids) = sources_loop L suites now (index + 1) (so_ID s # identifiers) ss in
      (validateSource L s ctx suites now @ problem (so_ID s \<in> set identifiers) (ctx, ''duplicate id'') @ ps, ids))"

definition full_name :: "registry_lib \<Rightarrow> reg_repository \<Rightarrow> string" where
  "full_name L r = rl_to_lower L (rp_RepositoryOwner r @ ''/'' @ rp_RepositoryName r)"

fun repositories_loop ::
    "registry_lib \<Rightarrow> (string \<Rightarrow> connector option) \<Rightarrow> time \<Rightarrow> nat \<Rightarrow> string list \<Rightarrow> string list \<Rightarrow> string list \<Rightarrow> reg_repository list \<Rightarrow> reg_problem list" where
  "repositories_loop L suites now index identifiers nodeIDs repositoryNames [] = []"
| "repositories_loop L suites now index identifiers nodeIDs repositoryNames (r # rs) =
     (let ctx = AtRepository index (rp_ID r) in
      validateRepository L r ctx suites now
      @ problem (rp_ID r \<in> set identifiers) (ctx, ''duplicate id'')
      @ problem (rp_NodeID r \<in> set nodeIDs) (ctx, ''duplicate repository node id'')
      @ problem (full_name L r \<in> set repositoryNames) (ctx, ''duplicate repository'')
      @ repositories_loop L suites now (index + 1) (rp_ID r # identifiers) (rp_NodeID r # nodeIDs) (full_name L r # repositoryNames) rs)"

fun endpoints_loop :: "string list \<Rightarrow> string list \<Rightarrow> endpoint list \<Rightarrow> reg_problem list" where
  "endpoints_loop endpointIDs endpointURLs [] = []"
| "endpoints_loop endpointIDs endpointURLs (e # es) =
     problem (ep_ID e \<in> set endpointIDs) (AtEndpoint (ep_ID e), ''duplicate id'')
     @ problem (ep_URL e \<in> set endpointURLs) (AtEndpoint (ep_ID e), ''duplicate URL'')
     @ endpoints_loop (ep_ID e # endpointIDs) (ep_URL e # endpointURLs) es"

definition minimumEndpoints :: nat where "minimumEndpoints = 60"

definition suite_table :: "fixture_catalog \<Rightarrow> string \<Rightarrow> connector option" where
  "suite_table catalog = table fs_ID fs_Connector (ct_Suites catalog)"

definition validateRegistry :: "registry_lib \<Rightarrow> registry \<Rightarrow> fixture_catalog \<Rightarrow> time \<Rightarrow> reg_problem list" where
  "validateRegistry L reg catalog now =
     (let suites = suite_table catalog;
          (sourceProblems, identifiers) = sources_loop L suites now 0 [] (rg_Sources reg);
          endpoints = Endpoints reg in
      problem (rg_Version reg \<noteq> 1) (AtRegistry, ''registry version must be 1'')
      @ problem (rg_Enabled reg) (AtRegistry, ''live source fetching requires a separately reviewed owner rollout'')
      @ (case validateHTTPSURL L (rg_Contact reg) of None \<Rightarrow> [] | Some e \<Rightarrow> [(AtRegistry, e)])
      @ problem (rg_Sources reg = []) (AtRegistry, ''registry requires official sources'')
      @ problem (rg_Repositories reg = []) (AtRegistry, ''registry requires repository watches'')
      @ sourceProblems
      @ repositories_loop L suites now 0 identifiers [] [] (rg_Repositories reg)
      @ problem (length endpoints < minimumEndpoints) (AtRegistry, ''too few endpoints'')
      @ endpoints_loop [] [] endpoints)"

section \<open>Validation of the fixtures\<close>

definition requiredCaseStatuses :: "(string \<times> int) list" where
  "requiredCaseStatuses =
     [(''normal'', 200), (''empty'', 200), (''malformed'', 200), (''redirect'', 302), (''not_modified'', 304), (''rate_limited'', 429),
      (''server_error'', 500), (''oversized'', 200), (''compression_bomb'', 200), (''changed_revision'', 200), (''duplicate_story'', 200),
      (''prompt_injection'', 200), (''character_encoding'', 200)]"

definition requiredCases :: "string list" where
  "requiredCases =
     [''normal'', ''empty'', ''malformed'', ''redirect'', ''not_modified'', ''rate_limited'', ''server_error'', ''oversized'', ''compression_bomb'',
      ''changed_revision'', ''duplicate_story'', ''prompt_injection'', ''character_encoding'']"

definition payloadCases :: "string list" where
  "payloadCases = [''normal'', ''empty'', ''malformed'', ''changed_revision'', ''duplicate_story'', ''prompt_injection'', ''character_encoding'']"

definition validateGenerator :: "string \<Rightarrow> body_generator \<Rightarrow> reg_problem list" where
  "validateGenerator caseID g =
     problem (bg_Kind g \<noteq> ''repeated-byte'' \<or> length (bg_Byte g) \<noteq> 1 \<or> bg_Repeat g \<le> 0) (AtCase caseID, ''invalid body generator'')
     @ problem (bg_Compression g \<noteq> [] \<and> bg_Compression g \<noteq> ''gzip'') (AtCase caseID, ''unsupported compression'')"

definition case_problems :: "fixture_case \<Rightarrow> bool \<Rightarrow> reg_problem list" where
  "case_problems c dup =
     problem dup (AtCase (fc_ID c), ''duplicate case'')
     @ problem (fc_Status c < 100 \<or> fc_Status c > 599) (AtCase (fc_ID c), ''invalid status'')
     @ problem (fc_Outcome c = []) (AtCase (fc_ID c), ''requires an outcome'')
     @ problem (fc_Payload c \<noteq> [] \<and> fc_Generator c \<noteq> None) (AtCase (fc_ID c), ''cannot have payload and generator'')
     @ (case fc_Generator c of None \<Rightarrow> [] | Some g \<Rightarrow> validateGenerator (fc_ID c) g)"

definition required_problems :: "(string \<Rightarrow> fixture_case option) \<Rightarrow> string \<Rightarrow> reg_problem list" where
  "required_problems cases required =
     (case cases required of
        None \<Rightarrow> [(AtCase required, ''missing case'')]
      | Some c \<Rightarrow> problem (map_of requiredCaseStatuses required \<noteq> Some (fc_Status c)) (AtCase required, ''must use another status''))"

definition payload_case_problems :: "(string \<Rightarrow> fixture_case option) \<Rightarrow> string \<Rightarrow> reg_problem list" where
  "payload_case_problems cases caseID =
     (case cases caseID of None \<Rightarrow> [] | Some c \<Rightarrow> problem (fc_Payload c \<noteq> caseID) (AtCase caseID, ''must reference its payload''))"

definition oversized_ok :: "fixture_case \<Rightarrow> bool" where
  "oversized_ok c = (case fc_Generator c of None \<Rightarrow> False | Some g \<Rightarrow> \<not> (bg_Repeat g \<le> maximumPageBytes) \<and> bg_Compression g = [])"

definition compression_bomb_ok :: "fixture_case \<Rightarrow> bool" where
  "compression_bomb_ok c = (case fc_Generator c of None \<Rightarrow> False | Some g \<Rightarrow> \<not> (bg_Repeat g < maximumPageBytes) \<and> bg_Compression g = ''gzip'')"

definition generator_problems :: "(string \<Rightarrow> fixture_case option) \<Rightarrow> string \<Rightarrow> (fixture_case \<Rightarrow> bool) \<Rightarrow> reg_problem list" where
  "generator_problems cases caseID ok =
     (case cases caseID of None \<Rightarrow> [] | Some c \<Rightarrow> problem (\<not> ok c) (AtCase caseID, ''requires a larger generator''))"

text \<open>A missing case reads as the zero value, whose headers are empty.\<close>

definition case_header_problems :: "(string \<Rightarrow> fixture_case option) \<Rightarrow> string \<Rightarrow> string \<Rightarrow> reg_problem list" where
  "case_header_problems cases caseID header =
     problem ((case cases caseID of None \<Rightarrow> [] | Some c \<Rightarrow> (case fc_Headers c header of None \<Rightarrow> [] | Some v \<Rightarrow> v)) = []) (AtCase caseID, ''requires a header'')"

definition case_table :: "fixture_profile \<Rightarrow> string \<Rightarrow> fixture_case option" where
  "case_table p = table fc_ID (\<lambda>c. c) (fp_Cases p)"

definition validateFixtureProfile :: "fixture_profile \<Rightarrow> reg_problem list" where
  "validateFixtureProfile p =
     (let cases = case_table p in
      scan_seen fc_ID case_problems [] (fp_Cases p)
      @ concat (map (required_problems cases) requiredCases)
      @ concat (map (payload_case_problems cases) payloadCases)
      @ generator_problems cases ''oversized'' oversized_ok
      @ generator_problems cases ''compression_bomb'' compression_bomb_ok
      @ case_header_problems cases ''redirect'' ''Location''
      @ case_header_problems cases ''rate_limited'' ''Retry-After'')"

definition fixturePayloadLength :: "registry_lib \<Rightarrow> fixture_payload \<Rightarrow> nat" where
  "fixturePayloadLength L p =
     (case fy_Body p of
        Some b \<Rightarrow> length b
      | None \<Rightarrow> (case fy_BodyBase64 p of None \<Rightarrow> 0 | Some e \<Rightarrow> (case rl_base64 L e of None \<Rightarrow> 0 | Some decoded \<Rightarrow> length decoded)))"

definition equalPayloads :: "fixture_payload \<Rightarrow> fixture_payload \<Rightarrow> bool" where
  "equalPayloads p q =
     (if fy_Body p \<noteq> None \<and> fy_Body q \<noteq> None then fy_Body p = fy_Body q
      else if fy_BodyBase64 p \<noteq> None \<and> fy_BodyBase64 q \<noteq> None then fy_BodyBase64 p = fy_BodyBase64 q
      else False)"

definition payload_problems :: "registry_lib \<Rightarrow> fixture_suite \<Rightarrow> fixture_case \<Rightarrow> reg_problem list" where
  "payload_problems L suite c =
     (if fc_Payload c = [] then []
      else (case fs_Payloads suite (fc_Payload c) of
        None \<Rightarrow> [(AtSuite (fs_ID suite), ''lacks payload'')]
      | Some p \<Rightarrow>
          problem ((fy_Body p = None) = (fy_BodyBase64 p = None)) (AtSuite (fs_ID suite), ''requires exactly one body encoding'')
          @ (case fy_BodyBase64 p of None \<Rightarrow> [] | Some e \<Rightarrow> problem (rl_base64 L e = None) (AtSuite (fs_ID suite), ''is not valid base64''))
          @ problem (fc_ID c \<noteq> ''empty'' \<and> fixturePayloadLength L p = 0) (AtSuite (fs_ID suite), ''must not be empty'')
          @ problem (\<not> media_ok L (if fy_ContentType p = [] then fs_ContentType suite else fy_ContentType p)) (AtSuite (fs_ID suite), ''has invalid content type'')))"

definition revision_problems :: "fixture_suite \<Rightarrow> reg_problem list" where
  "revision_problems suite =
     (case (fs_Payloads suite ''normal'', fs_Payloads suite ''changed_revision'') of
        (Some normal, Some changed) \<Rightarrow> problem (equalPayloads normal changed) (AtSuite (fs_ID suite), ''changed revision matches normal'')
      | _ \<Rightarrow> [])"

definition validateFixturePayloads :: "registry_lib \<Rightarrow> fixture_suite \<Rightarrow> fixture_profile \<Rightarrow> reg_problem list" where
  "validateFixturePayloads L suite p = concat (map (payload_problems L suite) (fp_Cases p)) @ revision_problems suite"

definition suite_problems :: "registry_lib \<Rightarrow> (string \<Rightarrow> fixture_profile option) \<Rightarrow> fixture_suite \<Rightarrow> bool \<Rightarrow> reg_problem list" where
  "suite_problems L profiles suite dup =
     problem (\<not> idPattern (fs_ID suite)) (AtSuite (fs_ID suite), ''invalid id'')
     @ problem dup (AtSuite (fs_ID suite), ''duplicate fixture suite'')
     @ problem (fs_Connector suite \<notin> set approvedConnectors) (AtSuite (fs_ID suite), ''unsupported connector'')
     @ (case profiles (fs_Profile suite) of
          None \<Rightarrow> [(AtSuite (fs_ID suite), ''references unknown profile'')]
        | Some p \<Rightarrow> problem (\<not> media_ok L (fs_ContentType suite)) (AtSuite (fs_ID suite), ''invalid content type'') @ validateFixturePayloads L suite p)"

definition profile_problems :: "fixture_profile \<Rightarrow> bool \<Rightarrow> reg_problem list" where
  "profile_problems p dup =
     problem (fp_ID p = []) (AtCatalog, ''fixture profile id is required'')
     @ problem dup (AtCatalog, ''duplicate fixture profile'')
     @ validateFixtureProfile p"

definition validateFixtures :: "registry_lib \<Rightarrow> fixture_catalog \<Rightarrow> reg_problem list" where
  "validateFixtures L catalog =
     problem (ct_Version catalog \<noteq> 1) (AtCatalog, ''fixture version must be 1'')
     @ problem (length (ct_Profiles catalog) \<noteq> 1) (AtCatalog, ''fixtures require exactly one HTTP scenario profile'')
     @ scan_seen fp_ID profile_problems [] (ct_Profiles catalog)
     @ scan_seen fs_ID (suite_problems L (table fp_ID (\<lambda>p. p) (ct_Profiles catalog))) [] (ct_Suites catalog)
     @ concat (map (\<lambda>c. problem (c \<notin> fs_Connector ` set (ct_Suites catalog)) (AtCatalog, ''connector lacks a fixture suite'')) approvedConnectors)"

definition registry_Validate :: "registry_lib \<Rightarrow> registry \<Rightarrow> fixture_catalog \<Rightarrow> time \<Rightarrow> reg_problem list" where
  "registry_Validate L reg catalog now = validateFixtures L catalog @ validateRegistry L reg catalog now"

section \<open>What validation establishes\<close>

text \<open>What is relied on of the URL and media-type parsers: a repository address of the API is split where one expects, and the two JSON types are media types.\<close>

definition github_url :: "string \<Rightarrow> parsed_url" where
  "github_url path = \<lparr>pu_Scheme = ''https'', pu_Host = ''api.github.com'', pu_HasUser = False, pu_Opaque = [], pu_Path = path, pu_RawPath = [],
     pu_RawQuery = [], pu_Fragment = [], pu_RawFragment = [], pu_ForceQuery = False\<rparr>"

definition parses_github :: "registry_lib \<Rightarrow> bool" where
  "parses_github L \<longleftrightarrow>
     (\<forall>owner name suffix. repositoryPattern owner \<and> repositoryPattern name \<and> suffix \<in> {''/releases'', ''/security-advisories''} \<longrightarrow>
        lib_url (rl_lib L) (''https://api.github.com/repos/'' @ owner @ ''/'' @ name @ suffix) = Some (github_url (''/repos/'' @ owner @ ''/'' @ name @ suffix)))
     \<and> media_ok L ''application/vnd.github+json'' \<and> media_ok L ''application/json''"

text \<open>Words of lower-case letters and digits with a hyphen between them.\<close>

definition hyphenated :: "string \<Rightarrow> bool" where
  "hyphenated s \<longleftrightarrow>
     (\<exists>ws. ws \<noteq> [] \<and> s = join ''-'' ws \<and> (\<forall>w\<in>set ws. w \<noteq> [] \<and> set w \<subseteq> set ''abcdefghijklmnopqrstuvwxyz0123456789''))"

text \<open>An absolute HTTPS address with a host, on the default port, without credentials and without a fragment.\<close>

definition plain_https :: "registry_lib \<Rightarrow> string \<Rightarrow> bool" where
  "plain_https L raw \<longleftrightarrow>
     (\<exists>u host port. lib_url (rl_lib L) raw = Some u \<and> split_host_port (pu_Host u) = (host, port)
        \<and> pu_Scheme u = ''https'' \<and> host \<noteq> [] \<and> (port = [] \<or> port = ''443'') \<and> \<not> pu_HasUser u \<and> pu_Fragment u = [])"

text \<open>A well-formed endpoint. The limits are 5 MiB for feeds in Atom or RSS, 15 MiB for pages and 10 MiB for everything else.\<close>

definition endpoint_wf :: "registry_lib \<Rightarrow> fixture_catalog \<Rightarrow> time \<Rightarrow> endpoint \<Rightarrow> bool" where
  "endpoint_wf L catalog now e \<longleftrightarrow>
     hyphenated (ep_ID e) \<and> ep_TrustTier e \<in> {''T0'', ''T1''}
     \<and> ep_Connector e \<in> {ConnectorAtom, ConnectorRSS, ConnectorJSONFeed, ConnectorPage, ConnectorGitHubReleases, ConnectorGitHubAdvisories,
           ConnectorRegistry, ConnectorStructuredAPI}
     \<and> plain_https L (ep_URL e)
     \<and> ep_Topics e \<noteq> [] \<and> distinct (ep_Topics e) \<and> (\<forall>t\<in>set (ep_Topics e). hyphenated t)
     \<and> 5 * minute \<le> ep_PollInterval e \<and> ep_PollInterval e \<le> 168 * hour
     \<and> ep_Priority e \<in> {''critical'', ''high'', ''normal''} \<and> ep_RobotsPolicy e \<in> {''feed'', ''page'', ''api''}
     \<and> ep_ContentLicense e \<in> {''link-and-excerpt'', ''metadata-only''} \<and> ep_Owner e = ''system'' \<and> ep_Origin e = ''system''
     \<and> \<not> is_zero (ep_ReviewedAt e) \<and> ep_ReviewedAt e \<le> now + 24 * hour \<and> time_sub now (ep_ReviewedAt e) \<le> 90 * (24 * hour)
     \<and> ep_ExpectedContentTypes e \<noteq> [] \<and> (\<forall>t\<in>set (ep_ExpectedContentTypes e). lib_media_type (rl_lib L) t \<noteq> None)
     \<and> 0 < ep_MaxResponseBytes e
     \<and> ep_MaxResponseBytes e \<le> (if ep_Connector e = ConnectorAtom \<or> ep_Connector e = ConnectorRSS then 5242880
           else if ep_Connector e = ConnectorPage then 15728640 else 10485760)
     \<and> suite_table catalog (ep_FixtureSuite e) = Some (ep_Connector e)"

subsection \<open>Identifiers\<close>

lemma split_byte_append: "sep \<notin> set b \<Longrightarrow> split_byte sep (a @ [sep] @ b) = split_byte sep a @ [b]"
proof (induction a)
  case Nil
  then have "split_byte sep b = [b]" using split_byte_join_inverse [of "[b]" sep] by simp
  then show ?case by simp
next
  case (Cons c a)
  then show ?case by (cases "split_byte sep a") auto
qed

lemma split_byte_one: "sep \<notin> set b \<Longrightarrow> split_byte sep b = [b]"
  using split_byte_join_inverse [of "[b]" sep] by simp

lemma idPattern_extend:
  assumes "idPattern a" "b \<noteq> []" "list_all lower_alnum b"
  shows "idPattern (a @ [CHR ''-''] @ b)"
proof -
  have "CHR ''-'' \<notin> set b" using assms(3) by (auto simp: list_all_iff lower_alnum_def is_digit_def)
  then show ?thesis using assms unfolding idPattern_def sourceIDPattern_def by (simp add: split_byte_append [simplified])
qed

lemma lower_alnum_listed: "\<forall>c. lower_alnum c \<longrightarrow> c \<in> set ''abcdefghijklmnopqrstuvwxyz0123456789''"
  by code_simp

lemma idPattern_hyphenated: "idPattern s \<Longrightarrow> hyphenated s"
proof -
  assume s: "idPattern s"
  have "split_byte CHR ''-'' s \<noteq> []" by (cases s) (auto split: list.split)
  moreover have "s = join ''-'' (split_byte CHR ''-'' s)" by (simp add: split_byte_join)
  moreover have "\<forall>w\<in>set (split_byte CHR ''-'' s). w \<noteq> [] \<and> set w \<subseteq> set ''abcdefghijklmnopqrstuvwxyz0123456789''"
    using s lower_alnum_listed unfolding idPattern_def sourceIDPattern_def list_all_iff by blast
  ultimately show ?thesis unfolding hyphenated_def by blast
qed

lemma validateHTTPSURL_plain: "validateHTTPSURL L raw = None \<Longrightarrow> plain_https L raw"
  by (auto simp: validateHTTPSURL_def plain_https_def split: option.split_asm if_split_asm prod.split_asm) (metis prod.collapse)+

lemma maximumBytesFor_limit:
  "maximumBytesFor c = (if c = ConnectorAtom \<or> c = ConnectorRSS then 5242880 else if c = ConnectorPage then 15728640 else 10485760)"
  by (cases c) (simp_all add: maximumBytesFor_def maximumFeedBytes_def maximumPageBytes_def maximumJSONBytes_def)

text \<open>The checks of the code, for one endpoint, give a well-formed one.\<close>

lemma endpoint_wfI:
  assumes "idPattern (ep_ID e)" "ep_TrustTier e \<in> {''T0'', ''T1''}" "ep_Connector e \<in> set approvedConnectors" "validateHTTPSURL L (ep_URL e) = None"
    "ep_Topics e \<noteq> []" "distinct (ep_Topics e)" "list_all idPattern (ep_Topics e)" "5 * minute \<le> ep_PollInterval e" "ep_PollInterval e \<le> 168 * hour"
    "ep_Priority e \<in> {''critical'', ''high'', ''normal''}" "ep_RobotsPolicy e \<in> {''feed'', ''page'', ''api''}"
    "ep_ContentLicense e \<in> {''link-and-excerpt'', ''metadata-only''}" "ep_Owner e = ''system''" "ep_Origin e = ''system''"
    "\<not> is_zero (ep_ReviewedAt e)" "ep_ReviewedAt e \<le> now + 24 * hour" "time_sub now (ep_ReviewedAt e) \<le> 90 * (24 * hour)"
    "ep_ExpectedContentTypes e \<noteq> []" "list_all (media_ok L) (ep_ExpectedContentTypes e)" "0 < ep_MaxResponseBytes e"
    "ep_MaxResponseBytes e \<le> maximumBytesFor (ep_Connector e)" "suite_table catalog (ep_FixtureSuite e) = Some (ep_Connector e)"
  shows "endpoint_wf L catalog now e"
proof -
  have "hyphenated (ep_ID e)" "plain_https L (ep_URL e)" "\<forall>t\<in>set (ep_Topics e). hyphenated t"
    "\<forall>t\<in>set (ep_ExpectedContentTypes e). lib_media_type (rl_lib L) t \<noteq> None"
    using assms(1,4,7,19) idPattern_hyphenated validateHTTPSURL_plain by (auto simp: list_all_iff media_ok_def)
  moreover have "ep_Connector e \<in> {ConnectorAtom, ConnectorRSS, ConnectorJSONFeed, ConnectorPage, ConnectorGitHubReleases, ConnectorGitHubAdvisories,
      ConnectorRegistry, ConnectorStructuredAPI}" using assms(3) by (simp add: approvedConnectors_def)
  ultimately show ?thesis unfolding endpoint_wf_def using assms(2,5,6,8-18,20-22) unfolding maximumBytesFor_limit by blast
qed

lemma idPattern_event:
  assumes "idPattern i" "ev \<in> {RepositoryEventReleases, RepositoryEventSecurityAdvisories}"
  shows "idPattern (i @ ''-'' @ map (\<lambda>c. if c = CHR ''_'' then CHR ''-'' else c) (event_text ev))"
proof -
  have "list_all lower_alnum ''releases''" "list_all lower_alnum ''security''" "list_all lower_alnum ''advisories''" by code_simp+
  note parts = this
  have "idPattern (i @ ''-releases'')" using idPattern_extend [OF assms(1) _ parts(1)] by simp
  moreover have "idPattern (i @ ''-security-advisories'')"
    using idPattern_extend [OF idPattern_extend [OF assms(1) _ parts(2)] _ parts(3)] by simp
  ultimately show ?thesis using assms(2) by (auto simp: event_text_def)
qed

subsection \<open>The loops\<close>

lemma sources_loop_ok:
  assumes "fst (sources_loop L suites now index identifiers ss) = []" "s \<in> set ss"
  shows "\<exists>ctx. validateSource L s ctx suites now = []"
  using assms by (induction ss arbitrary: index identifiers) (auto simp: Let_def split: prod.splits, metis fst_conv)

lemma repositories_loop_ok:
  assumes "repositories_loop L suites now index identifiers nodeIDs names rs = []" "r \<in> set rs"
  shows "\<exists>ctx. validateRepository L r ctx suites now = []"
  using assms by (induction rs arbitrary: index identifiers nodeIDs names) (auto simp: Let_def)

lemma endpoints_loop_Nil:
  "endpoints_loop ids urls es = [] \<longleftrightarrow>
     distinct (map ep_ID es) \<and> distinct (map ep_URL es) \<and> ep_ID ` set es \<inter> set ids = {} \<and> ep_URL ` set es \<inter> set urls = {}"
  by (induction es arbitrary: ids urls) (auto simp: problem_Nil_iff)

lemma events_loop_ok:
  assumes "events_loop ctx r suites seen evs = []" "ev \<in> set evs"
  shows "ev \<in> {RepositoryEventReleases, RepositoryEventSecurityAdvisories} \<and> (\<exists>suite. rp_FixtureSuites r ev = Some suite \<and> suites suite = Some (fst (connectorForEvent ev)))"
  using assms
proof (induction ctx r suites seen evs rule: events_loop.induct)
  case (2 ctx r suites seen x evs)
  then show ?case
    by (cases x) (auto simp: supported_event_def connectorForEvent_def problem_Nil_iff split: option.split_asm if_split_asm)
qed simp

lemma validateTopics_Nil: "validateTopics ctx topics = [] \<longleftrightarrow> topics \<noteq> [] \<and> distinct topics \<and> list_all idPattern topics"
proof -
  have "scan_seen (\<lambda>t. t) (\<lambda>t dup. problem (\<not> idPattern t) (ctx, ''invalid topic'') @ problem dup (ctx, ''duplicate topic'')) [] topics = []
      \<longleftrightarrow> (\<forall>t\<in>set topics. idPattern t) \<and> distinct (map (\<lambda>t. t) topics) \<and> (\<lambda>t. t) ` set topics \<inter> set [] = {}"
    by (rule scan_seen_Nil) (auto simp: problem_Nil_iff)
  then show ?thesis by (auto simp: validateTopics_def list_all_iff)
qed

lemma validateContentTypes_Nil: "validateContentTypes L ctx types = [] \<longleftrightarrow> types \<noteq> [] \<and> list_all (media_ok L) types"
  by (auto simp: validateContentTypes_def problem_Nil_iff list_all_iff)

lemma reviewed_problems_Nil:
  "reviewed_problems ctx reviewedAt now = [] \<longleftrightarrow> \<not> is_zero reviewedAt \<and> reviewedAt \<le> now + 24 * hour \<and> time_sub now reviewedAt \<le> 90 * (24 * hour)"
  by (auto simp: reviewed_problems_def problem_Nil_iff maximumReviewAge_def)

lemmas registry_Nil = problem_Nil_iff validateTopics_Nil validateContentTypes_Nil reviewed_problems_Nil append_is_Nil_conv

lemma validateSource_wf:
  assumes "validateSource L s ctx (suite_table catalog) now = []"
  shows "endpoint_wf L catalog now (source_endpoint s)"
proof -
  from assms have "validateCommon L ctx (so_ID s) (so_Name s) (so_TrustTier s) (so_URL s) (so_Topics s) (so_PollInterval s) (so_Priority s) (so_ContentLicense s)
       (so_Owner s) (so_Origin s) (so_ReviewedAt s) (so_MaxResponseBytes s) now = []"
    and own: "so_Connector s \<in> set approvedConnectors" "so_RobotsPolicy s \<in> {''feed'', ''page'', ''api''}"
      "so_ExpectedContentTypes s \<noteq> []" "list_all (media_ok L) (so_ExpectedContentTypes s)" "so_MaxResponseBytes s \<le> maximumBytesFor (so_Connector s)"
      "suite_table catalog (so_FixtureSuite s) = Some (so_Connector s)"
    by (auto simp: validateSource_def registry_Nil split: option.split_asm)
  then show ?thesis
    by (intro endpoint_wfI) (auto simp: source_endpoint_def validateCommon_def registry_Nil poll_ok_def split: option.split_asm)
qed

subsection \<open>Repository endpoints\<close>

lemma repositoryPattern_bytes: "repositoryPattern s \<Longrightarrow> s \<noteq> [] \<and> CHR ''/'' \<notin> set s \<and> CHR ''?'' \<notin> set s \<and> CHR ''#'' \<notin> set s"
  by (auto simp: repositoryPattern_def list_all_iff is_digit_def)

lemma repository_endpoint_url:
  assumes "rp_URL r = repository_url r" "repositoryPattern (rp_RepositoryName r)"
  shows "ep_URL (repository_endpoint r ev)
    = ''https://api.github.com/repos/'' @ rp_RepositoryOwner r @ ''/'' @ rp_RepositoryName r @ snd (connectorForEvent ev)"
proof -
  have "rp_RepositoryName r \<noteq> []" "CHR ''/'' \<notin> set (rp_RepositoryName r)" using repositoryPattern_bytes [OF assms(2)] by auto
  then obtain xs x where "rp_RepositoryName r = xs @ [x]" "x \<noteq> CHR ''/''" by (cases "rp_RepositoryName r" rule: rev_cases) auto
  then have "\<not> has_suffix (repository_url r) ''/''" by (auto simp: has_suffix_def repository_url_def)
  then show ?thesis using assms(1) by (simp add: repository_endpoint_def Let_def trim_suffix_def repository_url_def)
qed

lemma validateHTTPSURL_github: "lib_url (rl_lib L) raw = Some (github_url path) \<Longrightarrow> validateHTTPSURL L raw = None"
proof -
  have "split_host_port ''api.github.com'' = (''api.github.com'', [])" by code_simp
  then show "lib_url (rl_lib L) raw = Some (github_url path) \<Longrightarrow> validateHTTPSURL L raw = None"
    by (simp add: validateHTTPSURL_def github_url_def)
qed

text \<open>The facts the checks of one repository give.\<close>

lemma validateRepository_facts:
  assumes "validateRepository L r ctx suites now = []"
  shows "validateCommon L ctx (rp_ID r) (rp_Name r) (rp_TrustTier r) (rp_URL r) (rp_Topics r) (rp_PollInterval r) (rp_Priority r) (rp_ContentLicense r)
       (rp_Owner r) (rp_Origin r) (rp_ReviewedAt r) (rp_MaxResponseBytes r) now = []"
    "repositoryPattern (rp_RepositoryOwner r)" "repositoryPattern (rp_RepositoryName r)" "rp_URL r = repository_url r"
    "rp_MaxResponseBytes r \<le> maximumJSONBytes" "rp_ContentLicense r = ''metadata-only''"
    "events_loop ctx r suites [] (rp_EnabledEvents r) = []" "advisory_interval_problems ctx r = []"
  using assms by (auto simp: validateRepository_def registry_Nil)

lemma repository_event_url:
  assumes "validateRepository L r ctx suites now = []" "ev \<in> set (rp_EnabledEvents r)" "parses_github L"
  shows "lib_url (rl_lib L) (ep_URL (repository_endpoint r ev))
    = Some (github_url (''/repos/'' @ rp_RepositoryOwner r @ ''/'' @ rp_RepositoryName r @ snd (connectorForEvent ev)))"
proof -
  note facts = validateRepository_facts [OF assms(1)]
  have "ev \<in> {RepositoryEventReleases, RepositoryEventSecurityAdvisories}" using events_loop_ok [OF facts(7) assms(2)] by blast
  then have "snd (connectorForEvent ev) \<in> {''/releases'', ''/security-advisories''}" by (auto simp: connectorForEvent_def)
  then show ?thesis using facts(2,3) assms(3) unfolding repository_endpoint_url [OF facts(4,3)] parses_github_def by blast
qed

lemma validateRepository_wf:
  assumes "validateRepository L r ctx (suite_table catalog) now = []" "ev \<in> set (rp_EnabledEvents r)" "parses_github L"
  shows "endpoint_wf L catalog now (repository_endpoint r ev)"
proof -
  note facts = validateRepository_facts [OF assms(1)]
  from events_loop_ok [OF facts(7) assms(2)] obtain suite where ev: "ev \<in> {RepositoryEventReleases, RepositoryEventSecurityAdvisories}"
      and suite: "rp_FixtureSuites r ev = Some suite" "suite_table catalog suite = Some (fst (connectorForEvent ev))" by blast
  have common: "idPattern (rp_ID r)" "rp_TrustTier r \<in> {''T0'', ''T1''}" "rp_Topics r \<noteq> []" "distinct (rp_Topics r)" "list_all idPattern (rp_Topics r)"
      "5 * minute \<le> rp_PollInterval r" "rp_PollInterval r \<le> 168 * hour" "rp_Priority r \<in> {''critical'', ''high'', ''normal''}"
      "rp_Owner r = ''system''" "rp_Origin r = ''system''" "\<not> is_zero (rp_ReviewedAt r)" "rp_ReviewedAt r \<le> now + 24 * hour"
      "time_sub now (rp_ReviewedAt r) \<le> 90 * (24 * hour)" "0 < rp_MaxResponseBytes r"
    using facts(1) by (auto simp: validateCommon_def registry_Nil poll_ok_def)
  have url: "validateHTTPSURL L (ep_URL (repository_endpoint r ev)) = None"
    by (rule validateHTTPSURL_github) (rule repository_event_url [OF assms])
  have media: "media_ok L ''application/vnd.github+json''" "media_ok L ''application/json''" using assms(3) by (auto simp: parses_github_def)
  have interval: "5 * minute \<le> ep_PollInterval (repository_endpoint r ev) \<and> ep_PollInterval (repository_endpoint r ev) \<le> 168 * hour"
    using common(6,7) facts(8) assms(2)
    by (cases "ev = RepositoryEventSecurityAdvisories") (auto simp: repository_endpoint_def Let_def advisory_interval_problems_def problem_Nil_iff poll_ok_def)
  have connector: "fst (connectorForEvent ev) \<in> set approvedConnectors" "maximumBytesFor (fst (connectorForEvent ev)) = maximumJSONBytes"
    using ev by (auto simp: connectorForEvent_def approvedConnectors_def maximumBytesFor_def)
  show ?thesis
    using common url media interval connector suite facts(5,6) idPattern_event [OF common(1) ev]
    by (intro endpoint_wfI) (simp_all add: repository_endpoint_def Let_def)
qed

subsection \<open>The registry\<close>

lemma validateRegistry_facts:
  assumes "validateRegistry L reg catalog now = []"
  shows "\<not> rg_Enabled reg" "fst (sources_loop L (suite_table catalog) now 0 [] (rg_Sources reg)) = []"
    "\<exists>ids. repositories_loop L (suite_table catalog) now 0 ids [] [] (rg_Repositories reg) = []"
    "60 \<le> length (Endpoints reg)" "endpoints_loop [] [] (Endpoints reg) = []"
  using assms by (auto simp: validateRegistry_def Let_def registry_Nil minimumEndpoints_def split: prod.splits)

lemma Endpoints_cases:
  assumes "validateRegistry L reg catalog now = []" "e \<in> set (Endpoints reg)"
  obtains (source) s ctx where "s \<in> set (rg_Sources reg)" "e = source_endpoint s" "validateSource L s ctx (suite_table catalog) now = []"
    | (repository) r ev ctx where "r \<in> set (rg_Repositories reg)" "ev \<in> set (rp_EnabledEvents r)" "e = repository_endpoint r ev"
        "validateRepository L r ctx (suite_table catalog) now = []"
proof -
  note facts = validateRegistry_facts [OF assms(1)]
  from assms(2) consider (s) s where "s \<in> set (rg_Sources reg)" "e = source_endpoint s"
    | (r) r ev where "r \<in> set (rg_Repositories reg)" "ev \<in> set (rp_EnabledEvents r)" "e = repository_endpoint r ev"
    by (auto simp: Endpoints_def)
  then show ?thesis
  proof cases
    case s
    then show ?thesis using source sources_loop_ok [OF facts(2) s(1)] by blast
  next
    case r
    from facts(3) obtain ids where "repositories_loop L (suite_table catalog) now 0 ids [] [] (rg_Repositories reg) = []" by blast
    from repositories_loop_ok [OF this r(1)] obtain ctx where "validateRepository L r ctx (suite_table catalog) now = []" by blast
    then show ?thesis using repository [OF r] by blast
  qed
qed

text \<open>
  C29. Whatever the validation accepts is a well-typed registry: live fetching is off, there are at least sixty endpoints with different identifiers and
  URLs, and every endpoint has a well-formed identifier, an approved connector, an HTTPS URL on the default port without credentials or fragment,
  distinct topics, a poll interval from five minutes to a week, a review that is at most ninety days old, a response limit within its connector's
  and a fixture suite for exactly its connector.
\<close>

theorem validated_registry_typed:
  assumes "registry_Validate L reg catalog now = []" "parses_github L"
  shows "\<not> rg_Enabled reg \<and> 60 \<le> length (Endpoints reg) \<and> distinct (map ep_ID (Endpoints reg)) \<and> distinct (map ep_URL (Endpoints reg))
    \<and> list_all (endpoint_wf L catalog now) (Endpoints reg)"
proof -
  have valid: "validateRegistry L reg catalog now = []" using assms(1) by (simp add: registry_Validate_def)
  have "endpoint_wf L catalog now e" if "e \<in> set (Endpoints reg)" for e
    using valid that
  proof (cases rule: Endpoints_cases)
    case (source s ctx)
    then show ?thesis using validateSource_wf by simp
  next
    case (repository r ev ctx)
    then show ?thesis using validateRepository_wf assms(2) by simp
  qed
  then show ?thesis using validateRegistry_facts [OF valid] by (simp add: endpoints_loop_Nil list_all_iff)
qed

text \<open>
  C30. The alert assessor reads every advisory endpoint of a validated registry: its URL is one of the official advisory endpoints and its content is
  retained as evidence; the global collection is polled every five minutes. The exception are repositories whose owner or name is a dot segment,
  which the validation accepts and the assessor does not.
\<close>

theorem validated_advisories_official:
  assumes "registry_Validate L reg catalog now = []" "parses_github L" "e \<in> set (Endpoints reg)" "ep_Connector e = ConnectorGitHubAdvisories"
    and "ep_RepositoryOwner e \<notin> {''.'', ''..''}" "ep_RepositoryName e \<notin> {''.'', ''..''}"
  shows "officialAdvisoryEndpoint (rl_lib L) (ep_URL e) \<and> ep_ContentLicense e = ''link-and-excerpt''
    \<and> (ep_URL e = GlobalReviewedAdvisoriesURL \<and> ep_PollInterval e = 5 * minute \<or> ep_RepositoryEvent e = Some RepositoryEventSecurityAdvisories)"
proof -
  have "validateRegistry L reg catalog now = []" using assms(1) by (simp add: registry_Validate_def)
  then show ?thesis using assms(3)
  proof (cases rule: Endpoints_cases)
    case (source s ctx)
    then have "advisory_source_problems ctx s = []" by (simp add: validateSource_def registry_Nil)
    then show ?thesis using source(2) assms(4)
      by (simp add: advisory_source_problems_def registry_Nil source_endpoint_def officialAdvisoryEndpoint_def)
  next
    case (repository r ev ctx)
    note facts = validateRepository_facts [OF repository(4)]
    have ev: "ev = RepositoryEventSecurityAdvisories"
      using assms(4) repository(3) by (cases ev) (auto simp: repository_endpoint_def Let_def connectorForEvent_def)
    have "split_byte CHR ''/'' (''/repos/'' @ rp_RepositoryOwner r @ ''/'' @ rp_RepositoryName r @ ''/security-advisories'')
        = [[], ''repos'', rp_RepositoryOwner r, rp_RepositoryName r, ''security-advisories'']"
      using split_byte_join_inverse [of "[[], ''repos'', rp_RepositoryOwner r, rp_RepositoryName r, ''security-advisories'']" "CHR ''/''"]
        repositoryPattern_bytes [OF facts(2)] repositoryPattern_bytes [OF facts(3)] by simp
    then show ?thesis
      using repository_event_url [OF repository(4,2) assms(2)] repositoryPattern_bytes [OF facts(2)] repositoryPattern_bytes [OF facts(3)] assms(5,6) repository(3) ev
      by (simp add: officialAdvisoryEndpoint_def github_url_def connectorForEvent_def repository_endpoint_def Let_def)
  qed
qed

subsection \<open>The fixtures\<close>

lemma scan_seen_body:
  assumes "scan_seen key body seen xs = []" "x \<in> set xs"
  shows "\<exists>dup. body x dup = []"
  using assms by (induction xs arbitrary: seen) auto

lemma profile_case:
  assumes "validateFixtureProfile p = []" "i \<in> set requiredCases"
  shows "\<exists>c\<in>set (fp_Cases p). fc_ID c = i \<and> case_table p i = Some c \<and> map_of requiredCaseStatuses i = Some (fc_Status c)"
proof -
  have "concat (map (required_problems (case_table p)) requiredCases) = []" using assms(1) by (simp add: validateFixtureProfile_def Let_def)
  then have "required_problems (case_table p) i = []" using assms(2) by simp
  then obtain c where c: "case_table p i = Some c" "map_of requiredCaseStatuses i = Some (fc_Status c)"
    by (auto simp: required_problems_def problem_Nil_iff split: option.split_asm)
  moreover have "\<exists>x\<in>set (fp_Cases p). fc_ID x = i \<and> x = c" using c(1) table_Some unfolding case_table_def by fastforce
  ultimately show ?thesis by blast
qed

lemma profile_generators:
  assumes "validateFixtureProfile p = []"
  shows "case_table p ''oversized'' = Some c \<Longrightarrow> oversized_ok c" "case_table p ''compression_bomb'' = Some c \<Longrightarrow> compression_bomb_ok c"
  using assms by (simp_all add: validateFixtureProfile_def Let_def generator_problems_def problem_Nil_iff)

lemma endpoint_limits:
  assumes "validateRegistry L reg catalog now = []" "e \<in> set (Endpoints reg)"
  shows "ep_MaxResponseBytes e \<le> maximumPageBytes \<and> suite_table catalog (ep_FixtureSuite e) = Some (ep_Connector e)"
  using assms
proof (cases rule: Endpoints_cases)
  case (source s ctx)
  then have "endpoint_wf L catalog now e" using validateSource_wf by simp
  then show ?thesis by (auto simp: endpoint_wf_def maximumPageBytes_def split: if_split_asm)
next
  case (repository r ev ctx)
  note facts = validateRepository_facts [OF repository(4)]
  from events_loop_ok [OF facts(7) repository(2)] obtain suite where
      "rp_FixtureSuites r ev = Some suite" "suite_table catalog suite = Some (fst (connectorForEvent ev))" by blast
  then show ?thesis using facts(5) repository(3)
    by (simp add: repository_endpoint_def Let_def maximumPageBytes_def maximumJSONBytes_def)
qed

lemma suite_profile:
  assumes "validateFixtures L catalog = []" "suite \<in> set (ct_Suites catalog)"
  shows "\<exists>p\<in>set (ct_Profiles catalog). fp_ID p = fs_Profile suite \<and> validateFixtureProfile p = [] \<and> validateFixturePayloads L suite p = []"
proof -
  let ?profiles = "table fp_ID (\<lambda>p. p) (ct_Profiles catalog)"
  have scans: "scan_seen fp_ID profile_problems [] (ct_Profiles catalog) = []" "scan_seen fs_ID (suite_problems L ?profiles) [] (ct_Suites catalog) = []"
    using assms(1) by (simp_all add: validateFixtures_def)
  from scan_seen_body [OF scans(2) assms(2)] obtain p where p: "?profiles (fs_Profile suite) = Some p" "validateFixturePayloads L suite p = []"
    by (auto simp: suite_problems_def split: option.split_asm)
  from table_Some [OF p(1)] have "p \<in> set (ct_Profiles catalog)" "fp_ID p = fs_Profile suite" by auto
  moreover from scan_seen_body [OF scans(1) this(1)] have "validateFixtureProfile p = []" by (auto simp: profile_problems_def)
  ultimately show ?thesis using p(2) by blast
qed

text \<open>
  The fixtures of a validated registry exercise every endpoint's limit: the suite an endpoint names exists, is for its connector and replays a profile
  with all thirteen required cases at their required status; its oversized body is larger than what the endpoint may read, its compression bomb at
  least as large, and its changed revision is not the normal body in the same encoding.
\<close>

lemma validated_fixtures_exercise_limits:
  assumes "registry_Validate L reg catalog now = []" "e \<in> set (Endpoints reg)"
  shows "\<exists>suite\<in>set (ct_Suites catalog). \<exists>p\<in>set (ct_Profiles catalog).
      fs_ID suite = ep_FixtureSuite e \<and> fs_Connector suite = ep_Connector e \<and> fs_Profile suite = fp_ID p
      \<and> (\<forall>i\<in>set requiredCases. \<exists>c\<in>set (fp_Cases p). fc_ID c = i \<and> map_of requiredCaseStatuses i = Some (fc_Status c))
      \<and> (\<exists>c\<in>set (fp_Cases p). \<exists>g. fc_ID c = ''oversized'' \<and> fc_Generator c = Some g \<and> ep_MaxResponseBytes e < bg_Repeat g \<and> bg_Compression g = [])
      \<and> (\<exists>c\<in>set (fp_Cases p). \<exists>g. fc_ID c = ''compression_bomb'' \<and> fc_Generator c = Some g \<and> ep_MaxResponseBytes e \<le> bg_Repeat g \<and> bg_Compression g = ''gzip'')
      \<and> (\<forall>a b. fs_Payloads suite ''normal'' = Some a \<and> fs_Payloads suite ''changed_revision'' = Some b \<longrightarrow> \<not> equalPayloads a b)"
proof -
  have valid: "validateFixtures L catalog = []" "validateRegistry L reg catalog now = []" using assms(1) by (simp_all add: registry_Validate_def)
  note limits = endpoint_limits [OF valid(2) assms(2)]
  then obtain suite where suite: "suite \<in> set (ct_Suites catalog)" "fs_ID suite = ep_FixtureSuite e" "fs_Connector suite = ep_Connector e"
    unfolding suite_table_def using table_Some by metis
  from suite_profile [OF valid(1) suite(1)] obtain p where p: "p \<in> set (ct_Profiles catalog)" "fp_ID p = fs_Profile suite"
      "validateFixtureProfile p = []" "validateFixturePayloads L suite p = []" by blast
  have required: "''oversized'' \<in> set requiredCases" "''compression_bomb'' \<in> set requiredCases" by (simp_all add: requiredCases_def)
  from profile_case [OF p(3) required(1)] profile_generators(1) [OF p(3)] limits
  have "\<exists>c\<in>set (fp_Cases p). \<exists>g. fc_ID c = ''oversized'' \<and> fc_Generator c = Some g \<and> ep_MaxResponseBytes e < bg_Repeat g \<and> bg_Compression g = []"
    by (fastforce simp: oversized_ok_def split: option.split_asm)
  moreover from profile_case [OF p(3) required(2)] profile_generators(2) [OF p(3)] limits
  have "\<exists>c\<in>set (fp_Cases p). \<exists>g. fc_ID c = ''compression_bomb'' \<and> fc_Generator c = Some g \<and> ep_MaxResponseBytes e \<le> bg_Repeat g \<and> bg_Compression g = ''gzip''"
    by (fastforce simp: compression_bomb_ok_def split: option.split_asm)
  moreover have "\<not> equalPayloads a b" if "fs_Payloads suite ''normal'' = Some a" "fs_Payloads suite ''changed_revision'' = Some b" for a b
    using p(4) that by (simp add: validateFixturePayloads_def revision_problems_def problem_Nil_iff)
  moreover have "\<forall>i\<in>set requiredCases. \<exists>c\<in>set (fp_Cases p). fc_ID c = i \<and> map_of requiredCaseStatuses i = Some (fc_Status c)"
    using profile_case [OF p(3)] by blast
  moreover have "fs_Profile suite = fp_ID p" using p(2) by simp
  ultimately show ?thesis using suite(2,3) by (intro bexI [OF _ suite(1)] bexI [OF _ p(1)] conjI) simp_all
qed

section \<open>Instances\<close>

text \<open>A parser of plain HTTPS URLs, and a registry of fifty-eight sources, the global advisories among them, and one repository watch.\<close>

definition sample_parser :: "string \<Rightarrow> parsed_url option" where
  "sample_parser s =
     (if \<not> has_prefix s ''https://'' then None
      else (let rest = drop 8 s; path = dropWhile (\<lambda>c. c \<noteq> CHR ''/'') rest in
        Some ((github_url (takeWhile (\<lambda>c. c \<noteq> CHR ''?'') path))
          \<lparr>pu_Host := takeWhile (\<lambda>c. c \<noteq> CHR ''/'') rest, pu_RawQuery := tl (dropWhile (\<lambda>c. c \<noteq> CHR ''?'') path)\<rparr>)))"

definition sample_registry_lib :: registry_lib where
  "sample_registry_lib = \<lparr>rl_lib = sample_lib\<lparr>lib_url := sample_parser\<rparr>, rl_to_lower = (\<lambda>s. s), rl_base64 = Some\<rparr>"

lemma sample_parses: "parses_github sample_registry_lib"
proof -
  have "sample_parser (''https://api.github.com/repos/'' @ owner @ ''/'' @ name @ suffix) = Some (github_url (''/repos/'' @ owner @ ''/'' @ name @ suffix))"
    if "repositoryPattern owner" "repositoryPattern name" "suffix \<in> {''/releases'', ''/security-advisories''}" for owner name suffix
  proof -
    define path where "path = ''repos/'' @ owner @ ''/'' @ name @ suffix"
    have "\<forall>c\<in>set path. c \<noteq> CHR ''?''"
      using repositoryPattern_bytes [OF that(1)] repositoryPattern_bytes [OF that(2)] that(3) by (auto simp: path_def)
    then have "takeWhile (\<lambda>c. c \<noteq> CHR ''?'') path = path" "dropWhile (\<lambda>c. c \<noteq> CHR ''?'') path = []"
      unfolding takeWhile_eq_all_conv dropWhile_eq_Nil_conv by blast+
    then have "sample_parser (''https://api.github.com/'' @ path) = Some (github_url (CHR ''/'' # path))" by (simp add: sample_parser_def github_url_def del: dropWhile_eq_Nil_conv takeWhile_eq_all_conv)
    then show ?thesis by (simp add: path_def)
  qed
  then show ?thesis by (auto simp: parses_github_def sample_registry_lib_def media_ok_def sample_lib_def)
qed

definition sample_instant :: time where "sample_instant = 739000 * (24 * hour)"

definition sample_source :: "nat \<Rightarrow> reg_source" where
  "sample_source n =
     \<lparr>so_ID = nat_digits n @ ''-go'', so_Name = ''Go'', so_TrustTier = ''T0'', so_Connector = ConnectorAtom,
      so_URL = ''https://'' @ nat_digits n @ ''.example/'', so_Topics = [''go''], so_PollInterval = hour, so_Priority = ''normal'', so_RobotsPolicy = ''feed'',
      so_ContentLicense = ''metadata-only'', so_Enabled = False, so_Owner = ''system'', so_Origin = ''system'', so_ReviewedAt = sample_instant,
      so_ExpectedContentTypes = [''application/atom+xml''], so_MaxResponseBytes = maximumFeedBytes, so_FixtureSuite = ''suite-0''\<rparr>"

definition sample_global :: reg_source where
  "sample_global = (sample_source 0)
     \<lparr>so_ID := ''github-advisories'', so_Connector := ConnectorGitHubAdvisories, so_URL := GlobalReviewedAdvisoriesURL, so_PollInterval := 5 * minute,
      so_RobotsPolicy := ''api'', so_ContentLicense := ''link-and-excerpt'', so_FixtureSuite := ''suite-5''\<rparr>"

definition sample_repository :: reg_repository where
  "sample_repository =
     \<lparr>rp_ID = ''go'', rp_Name = ''Go'', rp_TrustTier = ''T0'', rp_URL = ''https://api.github.com/repos/golang/go'', rp_NodeID = ''R_1'',
      rp_RepositoryOwner = ''golang'', rp_RepositoryName = ''go'', rp_Topics = [''go''], rp_PollInterval = hour, rp_AdvisoryPollInterval = 10 * minute,
      rp_Priority = ''critical'', rp_ContentLicense = ''metadata-only'', rp_Enabled = False, rp_Owner = ''system'', rp_Origin = ''system'',
      rp_ReviewedAt = sample_instant, rp_MaxResponseBytes = maximumJSONBytes,
      rp_EnabledEvents = [RepositoryEventReleases, RepositoryEventSecurityAdvisories],
      rp_FixtureSuites = [RepositoryEventReleases \<mapsto> ''suite-4'', RepositoryEventSecurityAdvisories \<mapsto> ''suite-5'']\<rparr>"

definition sample_registry :: registry where
  "sample_registry =
     \<lparr>rg_Version = 1, rg_Enabled = False, rg_Contact = ''https://relantern.example/'', rg_Sources = sample_global # map sample_source [1 ..< 58],
      rg_Repositories = [sample_repository]\<rparr>"

definition sample_case :: "string \<Rightarrow> fixture_case" where
  "sample_case i =
     \<lparr>fc_ID = i, fc_Status = the (map_of requiredCaseStatuses i), fc_Headers = (\<lambda>h. Some ''1''),
      fc_Payload = (if i \<in> set payloadCases then i else []),
      fc_Generator = (if i = ''oversized'' then Some \<lparr>bg_Kind = ''repeated-byte'', bg_Byte = ''a'', bg_Repeat = maximumPageBytes + 1, bg_Compression = []\<rparr>
        else if i = ''compression_bomb'' then Some \<lparr>bg_Kind = ''repeated-byte'', bg_Byte = ''a'', bg_Repeat = maximumPageBytes, bg_Compression = ''gzip''\<rparr>
        else None),
      fc_Outcome = ''accepted''\<rparr>"

definition sample_catalog :: fixture_catalog where
  "sample_catalog =
     \<lparr>ct_Version = 1, ct_Profiles = [\<lparr>fp_ID = ''http'', fp_Cases = map sample_case requiredCases\<rparr>],
      ct_Suites = map (\<lambda>(n, c). \<lparr>fs_ID = ''suite-'' @ nat_digits n, fs_Connector = c, fs_Profile = ''http'', fs_ContentType = ''text/plain'',
          fs_Payloads = (\<lambda>k. Some \<lparr>fy_Body = Some k, fy_BodyBase64 = None, fy_ContentType = []\<rparr>)\<rparr>) (zip [0 ..< 8] approvedConnectors)\<rparr>"

lemma sample_fixtures_valid: "validateFixtures sample_registry_lib sample_catalog = []"
  by code_simp

lemma sample_registry_valid: "validateRegistry sample_registry_lib sample_registry sample_catalog sample_instant = []"
  by code_simp

lemma sample_registry_accepted: "registry_Validate sample_registry_lib sample_registry sample_catalog sample_instant = []"
  by (simp add: registry_Validate_def sample_fixtures_valid sample_registry_valid)

lemma sample_endpoint: "repository_endpoint sample_repository RepositoryEventSecurityAdvisories \<in> set (Endpoints sample_registry)"
  by (simp add: Endpoints_def sample_registry_def sample_repository_def)

theorem validated_registry_typed_witness:
  "60 \<le> length (Endpoints sample_registry) \<and> distinct (map ep_URL (Endpoints sample_registry))
   \<and> endpoint_wf sample_registry_lib sample_catalog sample_instant (repository_endpoint sample_repository RepositoryEventSecurityAdvisories)"
  using validated_registry_typed [OF sample_registry_accepted sample_parses] sample_endpoint by (simp add: list_all_iff)

theorem validated_advisories_official_witness:
  "officialAdvisoryEndpoint (rl_lib sample_registry_lib) (ep_URL (repository_endpoint sample_repository RepositoryEventSecurityAdvisories))"
  using validated_advisories_official [OF sample_registry_accepted sample_parses sample_endpoint]
  by (simp add: repository_endpoint_def Let_def connectorForEvent_def sample_repository_def)

lemma validated_fixtures_exercise_limits_witness:
  "\<exists>p\<in>set (ct_Profiles sample_catalog). \<exists>c\<in>set (fp_Cases p). \<exists>g. fc_ID c = ''oversized'' \<and> fc_Generator c = Some g \<and> maximumJSONBytes < bg_Repeat g"
proof -
  have "ep_MaxResponseBytes (repository_endpoint sample_repository RepositoryEventSecurityAdvisories) = maximumJSONBytes"
    by (simp add: repository_endpoint_def Let_def sample_repository_def)
  then show ?thesis using validated_fixtures_exercise_limits [OF sample_registry_accepted sample_endpoint] by fastforce
qed

end
