(* ===== verification/Go_Sort.thy ===== *)
theory Go_Sort
  imports Go_Base "HOL-Library.Multiset"
begin

text \<open>
  Prelude, part four: the sorting functions of package \<open>sort\<close>. A call takes a comparison and a slice; the
  contract of the library is a locale, and the insertion sort the library runs on short slices
  is an instance of it.
\<close>

text \<open>\<open>sort.SliceStable\<close> on a slice of at most twenty elements: an insertion sort that moves each element left while it
  is less than its neighbour. The sorted part is kept in reverse.\<close>

fun sift_left :: "('a \<Rightarrow> 'a \<Rightarrow> bool) \<Rightarrow> 'a \<Rightarrow> 'a list \<Rightarrow> 'a list" where
  "sift_left lt x [] = [x]"
| "sift_left lt x (y # ys) = (if lt x y then y # sift_left lt x ys else x # y # ys)"

definition insertionSort :: "('a \<Rightarrow> 'a \<Rightarrow> bool) \<Rightarrow> 'a list \<Rightarrow> 'a list" where
  "insertionSort lt xs = rev (fold (sift_left lt) xs [])"

definition strict_weak :: "('a \<Rightarrow> 'a \<Rightarrow> bool) \<Rightarrow> 'a set \<Rightarrow> bool" where
  "strict_weak lt S \<longleftrightarrow> (\<forall>x\<in>S. \<not> lt x x) \<and> (\<forall>x\<in>S. \<forall>y\<in>S. \<forall>z\<in>S. lt x y \<longrightarrow> lt y z \<longrightarrow> lt x z)
     \<and> (\<forall>x\<in>S. \<forall>y\<in>S. \<forall>z\<in>S. lt x z \<longrightarrow> lt x y \<or> lt y z)"

lemma strict_weak_asym: "strict_weak lt S \<Longrightarrow> x \<in> S \<Longrightarrow> y \<in> S \<Longrightarrow> lt x y \<Longrightarrow> \<not> lt y x"
  unfolding strict_weak_def by blast

lemma strict_weak_trans_not:
  "strict_weak lt S \<Longrightarrow> x \<in> S \<Longrightarrow> y \<in> S \<Longrightarrow> z \<in> S \<Longrightarrow> \<not> lt x y \<Longrightarrow> \<not> lt y z \<Longrightarrow> \<not> lt x z"
  unfolding strict_weak_def by blast

lemma strict_weak_key:
  fixes key :: "'a \<Rightarrow> 'k :: linorder"
  assumes "\<And>x y. x \<in> S \<Longrightarrow> y \<in> S \<Longrightarrow> lt x y \<longleftrightarrow> key x < key y"
  shows "strict_weak lt S"
  unfolding strict_weak_def using assms by (auto dest: less_trans)

text \<open>What \<open>sort.Slice\<close> and \<open>sort.SliceStable\<close> promise: a permutation, sorted when the comparison is a strict
  weak order.\<close>

locale slice_sort =
  fixes slice_stable :: "('a \<Rightarrow> 'a \<Rightarrow> bool) \<Rightarrow> 'a list \<Rightarrow> 'a list"
  assumes permutes: "mset (slice_stable lt xs) = mset xs"
    and sorts: "strict_weak lt (set xs) \<Longrightarrow> sorted_wrt (\<lambda>x y. \<not> lt y x) (slice_stable lt xs)"
begin

lemma set_slice [simp]: "set (slice_stable lt xs) = set xs"
  by (metis permutes set_mset_mset)

lemma empty_iff: "slice_stable lt xs = [] \<longleftrightarrow> xs = []"
  by (metis mset_zero_iff permutes)

lemma head_least:
  assumes "strict_weak lt (set xs)" and "slice_stable lt xs = y # ys"
  shows "y \<in> set xs \<and> (\<forall>x\<in>set xs. \<not> lt x y)"
proof -
  have "set xs = set (y # ys)" using permutes [of lt xs] assms(2) by (metis set_mset_mset)
  moreover have "\<forall>x\<in>set ys. \<not> lt x y" using sorts [OF assms(1)] assms(2) by simp
  ultimately show ?thesis using assms(1) by (auto simp: strict_weak_def)
qed

text \<open>With a strict linear comparison there is one sorted arrangement, whatever the algorithm and the order of
  the input.\<close>

lemma sorted_unique:
  fixes key :: "'a \<Rightarrow> 'k :: linorder"
  assumes "\<And>x y. x \<in> set xs \<Longrightarrow> y \<in> set xs \<Longrightarrow> lt x y \<longleftrightarrow> key x < key y" and "inj_on key (set xs)" and "mset ys = mset xs"
  shows "slice_stable lt ys = sort_key key xs"
proof -
  have sets: "set ys = set xs" using assms(3) by (metis set_mset_mset)
  have "strict_weak lt (set ys)" using assms(1) by (intro strict_weak_key [where key = key]) (auto simp: sets)
  then have "sorted_wrt (\<lambda>x y. \<not> lt y x) (slice_stable lt ys)" by (rule sorts)
  then have "sorted_wrt (\<lambda>x y. key x \<le> key y) (slice_stable lt ys)"
    by (rule sorted_wrt_mono_rel [rotated]) (use assms(1) sets in \<open>auto simp: not_less\<close>)
  then have sorted: "sorted (map key (slice_stable lt ys))" by (simp add: sorted_map)
  moreover have "mset (slice_stable lt ys) = mset xs" using permutes assms(3) by simp
  moreover have "filter (\<lambda>x. key k = key x) zs = replicate (count (mset zs) k) k" if "set zs = set xs" "k \<in> set xs" for zs k
  proof -
    have "filter (\<lambda>x. key k = key x) zs = filter (\<lambda>x. k = x) zs"
      using that assms(2) by (intro filter_cong) (auto dest: inj_onD)
    moreover have "filter (\<lambda>x. k = x) zs = replicate (count (mset zs) k) k" by (induction zs) auto
    ultimately show ?thesis by simp
  qed
  ultimately show ?thesis
    using sets by (intro properties_for_sort_key [symmetric]) auto
qed

end

lemma mset_sift_left: "mset (sift_left lt x ys) = add_mset x (mset ys)"
  by (induction ys) auto

lemma set_sift_left: "set (sift_left lt x ys) = insert x (set ys)"
  by (metis mset_sift_left set_mset_add_mset_insert set_mset_mset)

lemma sorted_sift_left:
  "strict_weak lt S \<Longrightarrow> x \<in> S \<Longrightarrow> set ys \<subseteq> S \<Longrightarrow> sorted_wrt (\<lambda>a b. \<not> lt a b) ys \<Longrightarrow> sorted_wrt (\<lambda>a b. \<not> lt a b) (sift_left lt x ys)"
proof (induction ys)
  case (Cons y ys)
  show ?case
  proof (cases "lt x y")
    case True
    then have "\<not> lt y x" using strict_weak_asym [OF Cons.prems(1)] Cons.prems(2,3) by simp
    then show ?thesis using True Cons by (simp add: set_sift_left)
  next
    case False
    have "\<not> lt x z" if "z \<in> set ys" for z
      using strict_weak_trans_not [OF Cons.prems(1,2), of y z] False Cons.prems(3,4) that by auto
    then show ?thesis using False Cons.prems(4) by simp
  qed
qed simp

lemma fold_sift_left:
  "strict_weak lt S \<Longrightarrow> set xs \<subseteq> S \<Longrightarrow> set ys \<subseteq> S \<Longrightarrow> sorted_wrt (\<lambda>a b. \<not> lt a b) ys
   \<Longrightarrow> sorted_wrt (\<lambda>a b. \<not> lt a b) (fold (sift_left lt) xs ys)"
  by (induction xs arbitrary: ys) (simp_all add: set_sift_left sorted_sift_left)

lemma mset_fold_sift_left: "mset (fold (sift_left lt) xs ys) = mset xs + mset ys"
  by (induction xs arbitrary: ys) (auto simp: mset_sift_left)

interpretation insertion: slice_sort insertionSort
proof
  show "mset (insertionSort lt xs) = mset xs" for lt :: "'a \<Rightarrow> 'a \<Rightarrow> bool" and xs
    by (simp add: insertionSort_def mset_fold_sift_left)
  show "sorted_wrt (\<lambda>x y. \<not> lt y x) (insertionSort lt xs)" if "strict_weak lt (set xs)" for lt :: "'a \<Rightarrow> 'a \<Rightarrow> bool" and xs
    using fold_sift_left [OF that, of xs "[]"] by (simp add: insertionSort_def sorted_wrt_rev)
qed

end
