(* ===== verification/Research.thy ===== *)
theory Research
  imports Claim_Extraction Source_Registry Go_Sort "HOL-Library.List_Lexorder" "HOL-Library.Char_ord"
begin

text \<open>
  Research briefs: \<open>src/internal/research\<close> (\<open>types.go\<close>, \<open>validate.go\<close>, \<open>processor.go\<close> and the checks of \<open>client.go\<close>).
  A job sends validated claims to the provider as a background response, polls it, and completes a run only with a brief that passes
  \<open>ValidateOutput\<close>. The repository, the provider's service, the JSON codec, SHA-256, the URL, address and UUID parsers and
  the library sort are arguments; every repository call and provider call is an event of the trace.
\<close>

section \<open>Data\<close>

record claim_fact =
  fact_ID :: string
  fact_ItemID :: string
  fact_RevisionID :: string
  fact_ClaimType :: string
  fact_ClaimText :: string
  fact_NormalizedValue :: string
  fact_Confidence :: string
  fact_Material :: bool
  fact_VerificationState :: string
  fact_SourceURL :: string
  fact_SourceTier :: string

record assertion =
  as_Text :: string
  as_Material :: bool
  as_ClaimIDs :: "string list"
  as_SourceURLs :: "string list"

record research_output =
  br_Headline :: string
  br_Summary :: string
  br_WhyItMatters :: string
  br_RecommendedAction :: string
  br_Confidence :: string
  br_Assertions :: "assertion list"
  br_Uncertainties :: "string list"

record research_source =
  src_URL :: string
  src_Domain :: string

record research_usage =
  us_InputTokens :: int
  us_CachedInputTokens :: int
  us_OutputTokens :: int
  us_ToolCalls :: int

record research_request =
  rq_ModelID :: string
  rq_Reasoning :: string
  rq_Verbosity :: string
  rq_MaxOutputTokens :: int
  rq_MaxToolCalls :: int
  rq_Prompt :: string
  rq_Input :: string
  rq_AllowedDomains :: "string list"
  rq_BlockedDomains :: "string list"
  rq_Background :: bool

record research_response =
  rp_ID :: string
  rp_Status :: string
  rp_Output :: string
  rp_Sources :: "research_source list"
  rp_Usage :: research_usage

record research_target =
  rt_ClusterID :: string
  rt_RevisionID :: string
  rt_InputSHA256 :: string

record poll_request =
  po_RunID :: string
  po_ResponseID :: string

record research_result =
  rz_RunID :: string
  rz_ProviderID :: string
  rz_AssertionCount :: int
  rz_AlreadyCompleted :: bool
  rz_Pending :: bool
  rz_NeedsReview :: bool
  rz_Obsolete :: bool

record reservation =
  rv_ID :: int
  rv_Number :: int
  rv_MaximumToolCalls :: int
  rv_BudgetSoftExceeded :: bool

record research_run =
  rr_RunID :: string
  rr_ClusterID :: string
  rr_ItemID :: string
  rr_RevisionID :: string
  rr_Title :: string
  rr_InputHash :: string
  rr_Claims :: "claim_fact list"
  rr_Model :: model_config
  rr_Prompt :: prompt_version
  rr_State :: string
  rr_ErrorCode :: string
  rr_ProviderResponseID :: string
  rr_Reservation :: reservation
  rr_SchemaFailures :: int
  rr_Obsolete :: bool

record research_completion =
  rc_Output :: research_output
  rc_ProviderID :: string
  rc_Sources :: "research_source list"
  rc_Usage :: research_usage

record research_config =
  rf_ExpectedModelID :: string
  rf_ExpectedReasoning :: string
  rf_ExpectedVerbosity :: string
  rf_ExpectedMaxOutputTokens :: int
  rf_MaximumToolCalls :: int
  rf_AllowedDomains :: "string list"
  rf_BlockedDomains :: "string list"
  rf_Background :: bool
  rf_DailyWebSearchLimit :: int
  rf_MonthlySoftUSD :: string
  rf_MonthlyHardUSD :: string

text \<open>An error is the list of sentinel errors \<open>errors.Is\<close> finds in it.\<close>

datatype research_sentinel =
    ResInvalidTarget | ResConfigurationDrift | ResSchemaInvalid | ResSchemaRetry | ResProviderTerminal
  | ResWebSearchLimit | ResAttemptsExhausted | ResBudgetExceeded | ResOther

type_synonym research_error = "research_sentinel list"

text \<open>What the decoder finds after the first JSON value.\<close>

datatype json_rest = RestEOF | RestError | RestValue string

record research_env =
  re_url :: "string \<Rightarrow> parsed_url option"
  re_lower :: "string \<Rightarrow> string"
  re_is_ip :: "string \<Rightarrow> bool"
  re_loopback :: "string \<Rightarrow> bool"
  re_uuid_ok :: "string \<Rightarrow> bool"
  re_sha256 :: "string \<Rightarrow> string"
  re_sort :: "(claim_fact \<Rightarrow> claim_fact \<Rightarrow> bool) \<Rightarrow> claim_fact list \<Rightarrow> claim_fact list"
  re_marshal :: "string \<Rightarrow> string \<Rightarrow> claim_fact list \<Rightarrow> string option"
  re_decode :: "string \<Rightarrow> (research_output \<times> json_rest) option"
  re_prompt :: string
  re_prompt_version :: string
  re_schema :: string
  re_schema_version :: string
  re_prepare :: "research_target \<Rightarrow> research_error + research_run"
  re_load :: "poll_request \<Rightarrow> research_error + research_run"
  re_reserve :: "int \<Rightarrow> research_error + reservation"
  re_start :: "research_request \<Rightarrow> research_error + research_response"
  re_get :: "string \<Rightarrow> research_error + research_response"
  re_attach :: "research_response \<Rightarrow> research_error option"
  re_record :: "string \<Rightarrow> research_error option"
  re_complete :: "research_completion \<Rightarrow> research_error + research_result"
  re_fail :: "string \<Rightarrow> research_error option"

section \<open>Validation\<close>

definition research_MaximumClaims :: nat where "research_MaximumClaims = 100"

definition MaximumInputBytes :: nat where "MaximumInputBytes = 200000"

definition research_SchemaAttempts :: int where "research_SchemaAttempts = 2"

definition allowedValue :: "string \<Rightarrow> string list \<Rightarrow> bool" where
  "allowedValue v allowed = list_ex (\<lambda>c. v = c) allowed"

definition research_boundedText :: "string \<Rightarrow> nat \<Rightarrow> bool" where
  "research_boundedText v maximum \<longleftrightarrow> trim_space v \<noteq> [] \<and> valid_utf8 v \<and> rune_count v \<le> maximum"

text \<open>\<open>hex.DecodeString\<close>: both cases of the digits, an even number of them.\<close>

definition hex_val :: "char \<Rightarrow> nat option" where
  "hex_val c =
     (if is_digit c then Some (byte c - 48)
      else if 97 \<le> byte c \<and> byte c \<le> (102 :: nat) then Some (byte c - 87)
      else if 65 \<le> byte c \<and> byte c \<le> (70 :: nat) then Some (byte c - 55)
      else None)"

fun hex_decode :: "string \<Rightarrow> string option" where
  "hex_decode [] = Some []"
| "hex_decode [c] = None"
| "hex_decode (a # b # s) =
     (case (hex_val a, hex_val b, hex_decode s) of
        (Some m, Some n, Some t) \<Rightarrow> Some (char_of (16 * m + n) # t)
      | _ \<Rightarrow> None)"

definition ValidateInputSHA256 :: "string \<Rightarrow> research_error option" where
  "ValidateInputSHA256 v =
     (if v = [] then None
      else (case hex_decode v of
              None \<Rightarrow> Some [ResInvalidTarget]
            | Some decoded \<Rightarrow> if length decoded \<noteq> 32 \<or> hex_encode decoded \<noteq> v then Some [ResInvalidTarget] else None))"

definition validateClaimFact :: "research_env \<Rightarrow> claim_fact \<Rightarrow> string option" where
  "validateClaimFact E c =
     (if trim_space (fact_ID c) = [] \<or> trim_space (fact_ItemID c) = [] \<or> trim_space (fact_RevisionID c) = []
         \<or> \<not> research_boundedText (fact_ClaimText c) 1000 \<or> length (fact_NormalizedValue c) > 500
      then Some ''validated research claim is incomplete or outside bounds''
      else if fact_VerificationState c \<noteq> ''verified_span'' then Some ''claim is not evidence-verified''
      else if \<not> allowedValue (fact_SourceTier c) [''T0'', ''T1''] then Some ''claim is not from an authoritative source tier''
      else (case re_url E (fact_SourceURL c) of
              None \<Rightarrow> Some ''claim has an invalid source URL''
            | Some u \<Rightarrow> if pu_Scheme u \<noteq> ''https'' \<or> pu_Host u = [] \<or> pu_HasUser u then Some ''claim has an invalid source URL'' else None))"

definition order_claims :: "research_env \<Rightarrow> claim_fact list \<Rightarrow> claim_fact list" where
  "order_claims E claims = re_sort E (\<lambda>a b. fact_ID a < fact_ID b) claims"

definition facts_prefix :: string where
  "facts_prefix = ''VALIDATED_FACTS'' @ [CHR 0x0A]"

definition EncodeValidatedFacts :: "research_env \<Rightarrow> string \<Rightarrow> string \<Rightarrow> claim_fact list \<Rightarrow> string + string \<times> string" where
  "EncodeValidatedFacts E title clusterID claims =
     (if trim_space title = [] \<or> trim_space clusterID = [] then Inl ''research input requires a title and cluster ID''
      else if claims = [] \<or> length claims > research_MaximumClaims then Inl ''research input must contain 1 through 100 claims''
      else check (unique_scan (validateClaimFact E) fact_ID (\<lambda>c. ''duplicate validated claim ID'') [] (order_claims E claims))
        (case re_marshal E clusterID title (order_claims E claims) of
           None \<Rightarrow> Inl ''encode validated research facts''
         | Some encoded \<Rightarrow>
             (let input = facts_prefix @ encoded in
              if length input > MaximumInputBytes then Inl ''research input exceeds 200000 bytes''
              else Inr (input, re_sha256 E input))))"

definition trim_dots :: "string \<Rightarrow> string" where
  "trim_dots s = rev (dropWhile (\<lambda>c. c = CHR ''.'') (rev (dropWhile (\<lambda>c. c = CHR ''.'') s)))"

definition normalized_domain :: "research_env \<Rightarrow> string \<Rightarrow> string" where
  "normalized_domain E configured = re_lower E (trim_dots (trim_space configured))"

definition domainMatches :: "research_env \<Rightarrow> string \<Rightarrow> string \<Rightarrow> bool" where
  "domainMatches E domain configured =
     (let candidate = normalized_domain E configured in
      candidate \<noteq> [] \<and> (domain = candidate \<or> has_suffix domain (''.'' @ candidate)))"

definition source_domain :: "research_env \<Rightarrow> parsed_url \<Rightarrow> string" where
  "source_domain E u = re_lower E (trim_suffix (fst (split_host_port (pu_Host u))) ''.'')"

definition source_url_ok :: "parsed_url \<Rightarrow> bool" where
  "source_url_ok u \<longleftrightarrow> pu_Scheme u = ''https'' \<and> pu_Host u \<noteq> [] \<and> \<not> pu_HasUser u \<and> pu_Fragment u = []"

definition ValidateSourceURL :: "research_env \<Rightarrow> string \<Rightarrow> string list \<Rightarrow> string list \<Rightarrow> string + research_source" where
  "ValidateSourceURL E raw allowed blocked =
     (case re_url E raw of
        None \<Rightarrow> Inl ''research source must be an absolute HTTPS URL''
      | Some u \<Rightarrow>
          if \<not> source_url_ok u then Inl ''research source must be an absolute HTTPS URL''
          else
            (let domain = source_domain E u in
             if domain = [] \<or> length domain > 253 then Inl ''research source has an invalid domain''
             else if list_ex (domainMatches E domain) blocked then Inl ''research source domain is blocked''
             else if \<not> list_ex (domainMatches E domain) allowed then Inl ''research source domain is not approved''
             else Inr \<lparr>src_URL = raw, src_Domain = domain\<rparr>))"

definition validateReferences :: "assertion \<Rightarrow> string list \<Rightarrow> string list \<Rightarrow> string option" where
  "validateReferences a claimIDs sourceURLs =
     or_else (unique_scan (\<lambda>c. if c \<notin> set claimIDs then Some ''claim ID was not supplied'' else None) (\<lambda>c. c) (\<lambda>c. ''claim ID is duplicated'') [] (as_ClaimIDs a))
       (unique_scan (\<lambda>u. if u \<notin> set sourceURLs then Some ''source URL was not returned by web search'' else None) (\<lambda>u. u) (\<lambda>u. ''source URL is duplicated'') [] (as_SourceURLs a))"

definition validateAssertion :: "string list \<Rightarrow> string list \<Rightarrow> assertion \<Rightarrow> string option" where
  "validateAssertion claimIDs sourceURLs a =
     (if \<not> research_boundedText (as_Text a) 1000 \<or> as_ClaimIDs a = [] \<or> length (as_ClaimIDs a) > 12 \<or> length (as_SourceURLs a) > 12
      then Some ''research assertion is outside bounds''
      else validateReferences a claimIDs sourceURLs)"

definition validateReturnedSource :: "research_env \<Rightarrow> string list \<Rightarrow> string list \<Rightarrow> research_source \<Rightarrow> string option" where
  "validateReturnedSource E allowed blocked s =
     (case ValidateSourceURL E (src_URL s) allowed blocked of
        Inl err \<Rightarrow> Some err
      | Inr validated \<Rightarrow> if src_Domain validated \<noteq> src_Domain s then Some ''research source domain mismatch'' else None)"

definition research_ValidateOutput ::
    "research_env \<Rightarrow> research_output \<Rightarrow> claim_fact list \<Rightarrow> research_source list \<Rightarrow> string list \<Rightarrow> string list \<Rightarrow> string option" where
  "research_ValidateOutput E out claims sources allowed blocked =
     (if \<not> research_boundedText (br_Headline out) 180 \<or> \<not> research_boundedText (br_Summary out) 2000
         \<or> \<not> research_boundedText (br_WhyItMatters out) 2000 \<or> \<not> research_boundedText (br_RecommendedAction out) 1500
      then Some ''research brief text is empty, invalid UTF-8, or exceeds its bound''
      else if \<not> allowedValue (br_Confidence out) [''high'', ''medium'', ''low'', ''unknown''] then Some ''unsupported research confidence''
      else if br_Assertions out = [] \<or> length (br_Assertions out) > 25 \<or> length (br_Uncertainties out) > 20
      then Some ''research output assertion or uncertainty count is outside bounds''
      else or_else (first_error (validateReturnedSource E allowed blocked) sources)
          (or_else (first_error (validateAssertion (map fact_ID claims) (map src_URL sources)) (br_Assertions out))
            (first_error (\<lambda>u. if \<not> research_boundedText u 500 then Some ''research uncertainty is outside bounds'' else None) (br_Uncertainties out))))"

definition ensureJSONEOF :: "json_rest \<Rightarrow> string option" where
  "ensureJSONEOF r =
     (case r of
        RestEOF \<Rightarrow> None
      | RestError \<Rightarrow> Some ''decode trailing research output''
      | RestValue v \<Rightarrow> if trim_space v \<noteq> [] then Some ''research output contains trailing JSON'' else None)"

definition research_DecodeAndValidate ::
    "research_env \<Rightarrow> string \<Rightarrow> claim_fact list \<Rightarrow> research_source list \<Rightarrow> string list \<Rightarrow> string list \<Rightarrow> string + research_output" where
  "research_DecodeAndValidate E raw claims sources allowed blocked =
     (case re_decode E raw of
        None \<Rightarrow> Inl ''decode research output''
      | Some (out, rest) \<Rightarrow> check (ensureJSONEOF rest) (check (research_ValidateOutput E out claims sources allowed blocked) (Inr out)))"

definition filter_error :: "research_env \<Rightarrow> string list \<Rightarrow> string option" where
  "filter_error E vs =
     unique_scan
       (\<lambda>v. let n = normalized_domain E v in
            if n = [] \<or> length n > 253 \<or> list_ex (\<lambda>c. c \<in> set ''/:@?#'') n \<or> re_is_ip E n then Some ''research domain is invalid'' else None)
       (normalized_domain E) (\<lambda>v. ''research domain is duplicated'') [] vs"

text \<open>The two lists are visited in the order of a map, so which of two problems is reported is left open.\<close>

definition validateDomainFilters :: "research_env \<Rightarrow> string list \<Rightarrow> string list \<Rightarrow> string option" where
  "validateDomainFilters E allowed blocked =
     (if allowed = [] \<or> length allowed > 100 \<or> length blocked > 100
      then Some ''research requires 1 through 100 allowed domains and at most 100 blocked domains''
      else or_else (filter_error E allowed) (filter_error E blocked))"

section \<open>The provider client\<close>

definition validateProviderRequest :: "research_env \<Rightarrow> research_request \<Rightarrow> string option" where
  "validateProviderRequest E q =
     (if trim_space (rq_ModelID q) = [] \<or> length (rq_ModelID q) > 255 then Some ''research requires a bounded model ID''
      else if \<not> allowedValue (rq_Reasoning q) [''none'', ''low'', ''medium'', ''high'', ''xhigh'', ''max''] then Some ''unsupported research reasoning effort''
      else if \<not> allowedValue (rq_Verbosity q) [''low'', ''medium'', ''high''] then Some ''unsupported research verbosity''
      else if rq_MaxOutputTokens q < 256 \<or> rq_MaxOutputTokens q > 128000 then Some ''research max output tokens must be between 256 and 128000''
      else if rq_MaxToolCalls q < 1 \<or> rq_MaxToolCalls q > 10 then Some ''research max tool calls must be between 1 and 10''
      else if rq_Prompt q \<noteq> re_prompt E then Some ''research requires the registered prompt version''
      else if \<not> has_prefix (rq_Input q) (facts_prefix @ ''{'') \<or> length (rq_Input q) > MaximumInputBytes
      then Some ''research input must use the bounded validated-facts envelope''
      else if \<not> rq_Background q then Some ''research must use background mode''
      else validateDomainFilters E (rq_AllowedDomains q) (rq_BlockedDomains q))"

text \<open>The response of the service: its output items, a web search with whether it failed and the URLs of its sources.\<close>

datatype output_item = MessageItem | ReasoningItem | WebSearchCall bool "string list" | OtherItem string

record service_response =
  sv_ID :: string
  sv_Status :: string
  sv_Usage :: research_usage
  sv_Items :: "output_item list"
  sv_OutputText :: string

definition web_source_bad :: "research_env \<Rightarrow> string \<Rightarrow> bool" where
  "web_source_bad E raw = (case re_url E raw of None \<Rightarrow> True | Some u \<Rightarrow> \<not> source_url_ok u)"

text \<open>The loop over the items: the number of searches and the URLs of the sources so far.\<close>

definition read_item :: "research_env \<Rightarrow> output_item \<Rightarrow> int \<times> string list \<Rightarrow> string + int \<times> string list" where
  "read_item E item st =
     (case item of
        MessageItem \<Rightarrow> Inr st
      | ReasoningItem \<Rightarrow> Inr st
      | OtherItem t \<Rightarrow> Inl ''OpenAI research response used forbidden output tool type''
      | WebSearchCall failed urls \<Rightarrow>
          if failed then Inl ''OpenAI web search tool call failed''
          else if list_ex (web_source_bad E) urls then Inl ''OpenAI returned invalid web source''
          else Inr (fst st + 1, snd st @ urls))"

fun read_items :: "research_env \<Rightarrow> output_item list \<Rightarrow> int \<times> string list \<Rightarrow> string + int \<times> string list" where
  "read_items E [] st = Inr st"
| "read_items E (i # is) st = and_then (read_item E i st) (read_items E is)"

definition returned_source :: "research_env \<Rightarrow> string \<Rightarrow> research_source" where
  "returned_source E raw = \<lparr>src_URL = raw, src_Domain = (case re_url E raw of None \<Rightarrow> [] | Some u \<Rightarrow> source_domain E u)\<rparr>"

definition usage_invalid :: "research_usage \<Rightarrow> bool" where
  "usage_invalid u \<longleftrightarrow> us_InputTokens u < 0 \<or> us_CachedInputTokens u < 0 \<or> us_CachedInputTokens u > us_InputTokens u \<or> us_OutputTokens u < 0"

definition empty_usage :: research_usage where
  "empty_usage = \<lparr>us_InputTokens = 0, us_CachedInputTokens = 0, us_OutputTokens = 0, us_ToolCalls = 0\<rparr>"

text \<open>The sources are the distinct URLs in order, whichever way the map is walked.\<close>

definition decodeProviderResponse :: "research_env \<Rightarrow> service_response option \<Rightarrow> string + research_response" where
  "decodeProviderResponse E answer =
     (case answer of
        None \<Rightarrow> Inl ''OpenAI returned a missing or invalid research response ID''
      | Some r \<Rightarrow>
          if trim_space (sv_ID r) = [] \<or> length (sv_ID r) > 255 then Inl ''OpenAI returned a missing or invalid research response ID''
          else if \<not> allowedValue (sv_Status r) [''queued'', ''in_progress'', ''completed'', ''failed'', ''incomplete'', ''cancelled'']
          then Inl ''OpenAI research response has unknown state''
          else if sv_Status r = ''queued'' \<or> sv_Status r = ''in_progress''
          then Inr \<lparr>rp_ID = sv_ID r, rp_Status = sv_Status r, rp_Output = [], rp_Sources = [], rp_Usage = empty_usage\<rparr>
          else if usage_invalid (sv_Usage r) then Inl ''OpenAI research response contains invalid usage counters''
          else and_then (read_items E (sv_Items r) (0, [])) (\<lambda>(calls, urls).
            if calls > 10 then Inl ''OpenAI research response exceeded the absolute tool-call bound''
            else if sv_Status r = ''completed'' \<and> trim_space (sv_OutputText r) = []
            then Inl ''completed OpenAI research response contains no structured output''
            else Inr \<lparr>rp_ID = sv_ID r, rp_Status = sv_Status r, rp_Output = (if sv_Status r = ''completed'' then sv_OutputText r else []),
                      rp_Sources = map (returned_source E) (sort (remdups urls)), rp_Usage = (sv_Usage r)\<lparr>us_ToolCalls := calls\<rparr>\<rparr>))"

text \<open>The service is an argument; its own errors carry none of the sentinels.\<close>

definition client_Start :: "research_env \<Rightarrow> bool \<Rightarrow> (research_request \<Rightarrow> service_response option option) \<Rightarrow> research_request \<Rightarrow> string + research_response" where
  "client_Start E schemaOK new q =
     (case validateProviderRequest E q of
        Some err \<Rightarrow> Inl err
      | None \<Rightarrow>
          if \<not> schemaOK then Inl ''decode embedded research schema''
          else (case new q of None \<Rightarrow> Inl ''create background OpenAI research response'' | Some answer \<Rightarrow> decodeProviderResponse E answer))"

definition client_Get :: "research_env \<Rightarrow> (string \<Rightarrow> service_response option option) \<Rightarrow> string \<Rightarrow> string + research_response" where
  "client_Get E get responseID =
     (if trim_space responseID = [] \<or> length responseID > 255 then Inl ''OpenAI research response ID is required and bounded''
      else (case get responseID of None \<Rightarrow> Inl ''retrieve background OpenAI research response'' | Some answer \<Rightarrow> decodeProviderResponse E answer))"

definition validatedBaseURL :: "research_env \<Rightarrow> (parsed_url \<Rightarrow> string) \<Rightarrow> string \<Rightarrow> parsed_url option" where
  "validatedBaseURL E escapedPath v =
     (case re_url E (trim_space v) of
        None \<Rightarrow> None
      | Some u \<Rightarrow>
          if pu_Host u = [] \<or> pu_HasUser u \<or> pu_RawQuery u \<noteq> [] \<or> pu_Fragment u \<noteq> [] then None
          else
            (let hostname = re_lower E (fst (split_host_port (pu_Host u)));
                 local = (hostname = ''fake-openai'' \<or> hostname = ''localhost'' \<or> re_is_ip E hostname \<and> re_loopback E hostname);
                 official = (pu_Scheme u = ''https'' \<and> hostname = ''api.openai.com'');
                 path = trim_suffix (escapedPath u) ''/'' in
             if \<not> (local \<and> pu_Scheme u = ''http'') \<and> \<not> official then None
             else if path \<noteq> [] \<and> path \<noteq> ''/v1'' then None
             else Some (u\<lparr>pu_Path := ''/v1/'', pu_RawPath := []\<rparr>)))"

section \<open>The processor\<close>

datatype research_event =
    RvReserve int | RvStart research_request | RvGet string | RvAttach research_response
  | RvRecord string | RvComplete research_completion | RvFail string

definition research_NewProcessor :: "research_env \<Rightarrow> research_config \<Rightarrow> string option" where
  "research_NewProcessor E cfg =
     or_else (ValidateBudgetRange (rf_MonthlySoftUSD cfg) (rf_MonthlyHardUSD cfg))
    (or_else (if rf_ExpectedModelID cfg = [] \<or> rf_ExpectedReasoning cfg = [] \<or> rf_ExpectedVerbosity cfg = []
                 \<or> rf_ExpectedMaxOutputTokens cfg < 256 \<or> rf_MaximumToolCalls cfg < 1 \<or> rf_MaximumToolCalls cfg > 10
                 \<or> rf_DailyWebSearchLimit cfg < rf_MaximumToolCalls cfg \<or> \<not> rf_Background cfg
              then Some ''research requires complete bounded background model and tool configuration'' else None)
      (validateDomainFilters E (rf_AllowedDomains cfg) (rf_BlockedDomains cfg)))"

definition research_validateRegistry :: "research_env \<Rightarrow> research_run \<Rightarrow> research_config \<Rightarrow> research_error option" where
  "research_validateRegistry E p cfg =
     (if pv_SemanticVersion (rr_Prompt p) \<noteq> re_prompt_version E \<or> pv_SchemaVersion (rr_Prompt p) \<noteq> re_schema_version E
         \<or> pv_PromptSHA256 (rr_Prompt p) \<noteq> re_sha256 E (re_prompt E) \<or> pv_SchemaSHA256 (rr_Prompt p) \<noteq> re_sha256 E (re_schema E)
         \<or> mc_ModelID (rr_Model p) \<noteq> rf_ExpectedModelID cfg \<or> mc_Reasoning (rr_Model p) \<noteq> rf_ExpectedReasoning cfg
         \<or> mc_Verbosity (rr_Model p) \<noteq> rf_ExpectedVerbosity cfg \<or> mc_EnabledTools (rr_Model p) \<noteq> [''web_search'']
         \<or> mc_MaxOutputTokens (rr_Model p) \<noteq> rf_ExpectedMaxOutputTokens cfg
      then Some [ResConfigurationDrift] else None)"

type_synonym research_answer = "(research_error + research_result) \<times> research_event list"

definition joined :: "research_error \<Rightarrow> research_error option \<Rightarrow> research_error" where
  "joined cause err = cause @ (case err of None \<Rightarrow> [] | Some e \<Rightarrow> e)"

definition research_fail :: "research_env \<Rightarrow> string \<Rightarrow> research_error \<Rightarrow> research_event list \<Rightarrow> research_answer" where
  "research_fail E code cause tr = (Inl (joined cause (re_fail E code)), tr @ [RvFail code])"

definition providerFailure :: "research_env \<Rightarrow> research_error \<Rightarrow> research_event list \<Rightarrow> research_answer" where
  "providerFailure E cause tr =
     research_fail E ''provider_error'' (joined cause (re_record E ''provider_error'')) (tr @ [RvRecord ''provider_error''])"

definition validated_answer :: "research_env \<Rightarrow> research_config \<Rightarrow> research_run \<Rightarrow> reservation \<Rightarrow> research_response \<Rightarrow> string + research_output" where
  "validated_answer E cfg p rv r =
     (if us_ToolCalls (rp_Usage r) > rv_MaximumToolCalls rv then Inl ''web-search calls exceed reserved maximum''
      else research_DecodeAndValidate E (rp_Output r) (rr_Claims p) (rp_Sources r) (rf_AllowedDomains cfg) (rf_BlockedDomains cfg))"

definition research_finalize :: "research_env \<Rightarrow> research_config \<Rightarrow> research_run \<Rightarrow> reservation \<Rightarrow> research_response \<Rightarrow> research_event list \<Rightarrow> research_answer" where
  "research_finalize E cfg p rv r tr =
     (if rp_Status r \<noteq> ''completed'' then providerFailure E [ResProviderTerminal] tr
      else
        (let errorCode = (case validated_answer E cfg p rv r of Inl _ \<Rightarrow> ''schema_invalid'' | Inr _ \<Rightarrow> []);
             tr1 = tr @ [RvRecord errorCode] in
         case re_record E errorCode of
           Some err \<Rightarrow> (Inl err, tr1)
         | None \<Rightarrow>
             (case validated_answer E cfg p rv r of
                Inl _ \<Rightarrow>
                  if rr_SchemaFailures p + 1 < research_SchemaAttempts then research_fail E ''schema_invalid_retryable'' [ResSchemaRetry] tr1
                  else research_fail E ''schema_invalid'' [ResSchemaInvalid] tr1
              | Inr out \<Rightarrow>
                  (let c = \<lparr>rc_Output = out, rc_ProviderID = rp_ID r, rc_Sources = rp_Sources r, rc_Usage = rp_Usage r\<rparr> in
                   (re_complete E c, tr1 @ [RvComplete c])))))"

definition run_result :: "research_run \<Rightarrow> research_result" where
  "run_result p = \<lparr>rz_RunID = rr_RunID p, rz_ProviderID = rr_ProviderResponseID p, rz_AssertionCount = 0, rz_AlreadyCompleted = False,
     rz_Pending = False, rz_NeedsReview = False, rz_Obsolete = False\<rparr>"

definition settled_result :: "research_run \<Rightarrow> research_result" where
  "settled_result p = (run_result p)\<lparr>rz_AlreadyCompleted := True, rz_NeedsReview := (rr_State p = ''needs_review'')\<rparr>"

definition start_request :: "research_env \<Rightarrow> research_config \<Rightarrow> research_run \<Rightarrow> string \<Rightarrow> research_request" where
  "start_request E cfg p input =
     \<lparr>rq_ModelID = mc_ModelID (rr_Model p), rq_Reasoning = mc_Reasoning (rr_Model p), rq_Verbosity = mc_Verbosity (rr_Model p),
      rq_MaxOutputTokens = mc_MaxOutputTokens (rr_Model p), rq_MaxToolCalls = rf_MaximumToolCalls cfg, rq_Prompt = re_prompt E, rq_Input = input,
      rq_AllowedDomains = rf_AllowedDomains cfg, rq_BlockedDomains = rf_BlockedDomains cfg, rq_Background = rf_Background cfg\<rparr>"

definition pending :: "research_response \<Rightarrow> bool" where
  "pending r \<longleftrightarrow> rp_Status r = ''queued'' \<or> rp_Status r = ''in_progress''"

definition start_run :: "research_env \<Rightarrow> research_config \<Rightarrow> research_run \<Rightarrow> string \<Rightarrow> research_event list \<Rightarrow> research_answer" where
  "start_run E cfg p input tr =
     (let estimate = estimateInputTokens (re_prompt E) input (re_schema E);
          q = start_request E cfg p input;
          tr1 = tr @ [RvReserve estimate] in
      case re_reserve E estimate of
        Inl err \<Rightarrow> (Inl err, tr1)
      | Inr rv \<Rightarrow>
          (case re_start E q of
             Inl err \<Rightarrow> providerFailure E err (tr1 @ [RvStart q])
           | Inr r \<Rightarrow>
               (case re_attach E r of
                  Some err \<Rightarrow> (Inl err, tr1 @ [RvStart q, RvAttach r])
                | None \<Rightarrow>
                    if pending r then (Inr ((run_result p)\<lparr>rz_ProviderID := rp_ID r, rz_Pending := True\<rparr>), tr1 @ [RvStart q, RvAttach r])
                    else research_finalize E cfg p rv r (tr1 @ [RvStart q, RvAttach r]))))"

definition prepared_step :: "research_env \<Rightarrow> research_config \<Rightarrow> research_run \<Rightarrow> research_event list \<Rightarrow> research_answer" where
  "prepared_step E cfg p tr =
     (if rr_Obsolete p \<or> rr_State p = ''obsolete'' then (Inr ((run_result p)\<lparr>rz_ProviderID := [], rz_Obsolete := True\<rparr>), tr)
      else if rr_State p = ''completed'' \<or> rr_State p = ''needs_review'' then (Inr (settled_result p), tr)
      else if rr_ProviderResponseID p \<noteq> [] \<and> rr_State p = ''running'' then (Inr ((run_result p)\<lparr>rz_Pending := True\<rparr>), tr)
      else (case research_validateRegistry E p cfg of
              Some err \<Rightarrow> research_fail E ''configuration_drift'' err tr
            | None \<Rightarrow>
                (case EncodeValidatedFacts E (rr_Title p) (rr_ClusterID p) (rr_Claims p) of
                   Inl err \<Rightarrow> research_fail E ''invalid_claims'' [ResInvalidTarget] tr
                 | Inr (input, inputHash) \<Rightarrow>
                     if inputHash \<noteq> rr_InputHash p then research_fail E ''claim_integrity'' [ResInvalidTarget] tr
                     else start_run E cfg p input tr)))"

definition research_Process :: "research_env \<Rightarrow> research_config \<Rightarrow> research_target \<Rightarrow> research_answer" where
  "research_Process E cfg t =
     (if \<not> re_uuid_ok E (rt_ClusterID t) \<or> \<not> re_uuid_ok E (rt_RevisionID t) then (Inl [ResInvalidTarget], [])
      else (case ValidateInputSHA256 (rt_InputSHA256 t) of
              Some err \<Rightarrow> (Inl err, [])
            | None \<Rightarrow> (case re_prepare E t of Inl err \<Rightarrow> (Inl err, []) | Inr p \<Rightarrow> prepared_step E cfg p [])))"

definition poll_loaded :: "research_env \<Rightarrow> research_config \<Rightarrow> poll_request \<Rightarrow> research_run \<Rightarrow> research_answer" where
  "poll_loaded E cfg q p =
     (case research_validateRegistry E p cfg of
        Some err \<Rightarrow> research_fail E ''configuration_drift'' err []
      | None \<Rightarrow>
          (case re_get E (po_ResponseID q) of
             Inl err \<Rightarrow> (Inl err, [RvGet (po_ResponseID q)])
           | Inr r \<Rightarrow>
               if rp_ID r \<noteq> rr_ProviderResponseID p \<or> rp_ID r \<noteq> po_ResponseID q
               then research_fail E ''provider_id_mismatch'' [ResProviderTerminal] [RvGet (po_ResponseID q)]
               else if pending r then (Inr ((run_result p)\<lparr>rz_ProviderID := rp_ID r, rz_Pending := True\<rparr>), [RvGet (po_ResponseID q)])
               else research_finalize E cfg p (rr_Reservation p) r [RvGet (po_ResponseID q)]))"

definition research_Poll :: "research_env \<Rightarrow> research_config \<Rightarrow> poll_request \<Rightarrow> research_answer" where
  "research_Poll E cfg q =
     (if po_RunID q \<noteq> [] \<and> \<not> re_uuid_ok E (po_RunID q) then (Inl [ResInvalidTarget], [])
      else if po_ResponseID q = [] \<or> length (po_ResponseID q) > 255 then (Inl [ResInvalidTarget], [])
      else (case re_load E q of
              Inl err \<Rightarrow> (Inl err, [])
            | Inr p \<Rightarrow>
                if rr_Obsolete p \<or> rr_State p = ''obsolete'' then (Inr ((run_result p)\<lparr>rz_Obsolete := True\<rparr>), [])
                else if rr_State p = ''budget_blocked''
                then (Inl (if rr_ErrorCode p = ''web_search_limit'' then [ResWebSearchLimit] else [ResBudgetExceeded]), [])
                else if rr_State p = ''completed'' \<or> rr_State p = ''needs_review'' then (Inr (settled_result p), [])
                else if rr_State p = ''failed_retryable''
                then research_Process E cfg \<lparr>rt_ClusterID = rr_ClusterID p, rt_RevisionID = rr_RevisionID p, rt_InputSHA256 = []\<rparr>
                else poll_loaded E cfg q p))"

definition research_Permanent :: "research_error \<Rightarrow> bool" where
  "research_Permanent err =
     list_ex (\<lambda>s. s \<in> {ResInvalidTarget, ResConfigurationDrift, ResSchemaInvalid, ResWebSearchLimit, ResAttemptsExhausted, ResBudgetExceeded}) err"

section \<open>The identity of the facts\<close>

lemma hex_decode_length: "hex_decode s = Some d \<Longrightarrow> length s = 2 * length d"
  by (induction s arbitrary: d rule: hex_decode.induct) (auto split: option.split_asm)

lemma hex_val_lower: "lower_hex c \<Longrightarrow> \<exists>m. hex_val c = Some m \<and> m < 16 \<and> hex_char m = c"
  by (auto simp: lower_hex_def hex_val_def hex_char_def is_digit_def)

lemma hex_decode_encode:
  assumes "even (length s)" "list_all lower_hex s"
  shows "\<exists>d. hex_decode s = Some d \<and> hex_encode d = s"
  using assms
proof (induction s rule: hex_decode.induct)
  case (3 a b s)
  then have digits: "lower_hex a" "lower_hex b" "list_all lower_hex s" "even (length s)" by simp_all
  obtain d where d: "hex_decode s = Some d" "hex_encode d = s" using 3(1) [OF digits(4,3)] by blast
  obtain m where m: "hex_val a = Some m" "m < 16" "hex_char m = a" using hex_val_lower [OF digits(1)] by blast
  obtain n where n: "hex_val b = Some n" "n < 16" "hex_char n = b" using hex_val_lower [OF digits(2)] by blast
  have small: "16 * m + n < 256" using m(2) n(2) by simp
  have "byte (char_of (16 * m + n)) = 16 * m + n" using small by simp
  then have "hex_encode [char_of (16 * m + n)] = [a, b]" using m n by (simp add: hex_encode_def)
  moreover have "hex_encode (char_of (16 * m + n) # d) = hex_encode [char_of (16 * m + n)] @ hex_encode d" by (simp add: hex_encode_def)
  ultimately show ?case using d m n by simp
qed (simp_all add: hex_encode_def)

lemma ValidateInputSHA256_iff: "ValidateInputSHA256 v = None \<longleftrightarrow> v = [] \<or> length v = 64 \<and> list_all lower_hex v"
proof (cases "v = []")
  case False
  then have "ValidateInputSHA256 v = None \<longleftrightarrow> (\<exists>d. hex_decode v = Some d \<and> length d = 32 \<and> hex_encode d = v)"
    by (auto simp: ValidateInputSHA256_def split: option.split)
  also have "\<dots> \<longleftrightarrow> length v = 64 \<and> list_all lower_hex v"
  proof
    assume "\<exists>d. hex_decode v = Some d \<and> length d = 32 \<and> hex_encode d = v"
    then obtain d where "length d = 32" "hex_encode d = v" by blast
    then show "length v = 64 \<and> list_all lower_hex v" using hex_encode_lower [of d] by auto
  next
    assume v: "length v = 64 \<and> list_all lower_hex v"
    then obtain d where "hex_decode v = Some d" "hex_encode d = v" using hex_decode_encode [of v] by auto
    then show "\<exists>d. hex_decode v = Some d \<and> length d = 32 \<and> hex_encode d = v" using v hex_decode_length by fastforce
  qed
  finally show ?thesis using False by simp
qed (simp add: ValidateInputSHA256_def)

text \<open>What an encoded input says about its claims.\<close>

definition authoritative :: "claim_fact \<Rightarrow> bool" where
  "authoritative c \<longleftrightarrow> fact_VerificationState c = ''verified_span'' \<and> fact_SourceTier c \<in> {''T0'', ''T1''}"

lemma validateClaimFact_None: "validateClaimFact E c = None \<Longrightarrow> authoritative c"
  by (auto simp: validateClaimFact_def authoritative_def allowedValue_def split: if_split_asm)

lemma EncodeValidatedFacts_Inr:
  assumes "slice_sort (re_sort E)" "EncodeValidatedFacts E title clusterID claims = Inr (input, digest)"
  shows "digest = re_sha256 E input" "length input \<le> MaximumInputBytes" "distinct (map fact_ID claims)" "\<forall>c\<in>set claims. authoritative c"
proof -
  show "digest = re_sha256 E input" "length input \<le> MaximumInputBytes" using assms(2)
    by (auto simp: EncodeValidatedFacts_def check_def Let_def split: if_split_asm option.split_asm)
  have scan: "unique_scan (validateClaimFact E) fact_ID (\<lambda>c. ''duplicate validated claim ID'') [] (order_claims E claims) = None"
    using assms(2) by (auto simp: EncodeValidatedFacts_def check_def split: if_split_asm option.split_asm)
  then have all: "\<forall>c\<in>set (order_claims E claims). validateClaimFact E c = None" and "distinct (map fact_ID (order_claims E claims))"
    by (auto simp: go_result)
  moreover have same: "mset (order_claims E claims) = mset claims" by (simp add: order_claims_def slice_sort.permutes [OF assms(1)])
  ultimately show "distinct (map fact_ID claims)" by (metis mset_map mset_eq_imp_distinct_iff)
  show "\<forall>c\<in>set claims. authoritative c" using all validateClaimFact_None same by (metis set_mset_mset)
qed

text \<open>The encoding does not depend on the order in which the claims were loaded.\<close>

lemma order_claims_unique:
  assumes "slice_sort (re_sort E)" "distinct (map fact_ID claims)" "mset claims' = mset claims"
  shows "order_claims E claims' = sort_key fact_ID claims"
  unfolding order_claims_def using assms(2,3)
  by (intro slice_sort.sorted_unique [OF assms(1)]) (auto simp: distinct_map)

lemma encode_order_free:
  assumes "slice_sort (re_sort E)" "EncodeValidatedFacts E title clusterID claims = Inr x" "mset claims' = mset claims"
  shows "EncodeValidatedFacts E title clusterID claims' = Inr x"
proof -
  have "distinct (map fact_ID claims)" using EncodeValidatedFacts_Inr(3) [OF assms(1)] assms(2) by (cases x) auto
  from order_claims_unique [OF assms(1) this] assms(3) have "order_claims E claims' = order_claims E claims" by simp
  moreover have "length claims' = length claims" "claims' = [] \<longleftrightarrow> claims = []" using assms(3) by (metis size_mset, metis mset_zero_iff)
  ultimately have "EncodeValidatedFacts E title clusterID claims' = EncodeValidatedFacts E title clusterID claims"
    unfolding EncodeValidatedFacts_def by simp
  then show ?thesis using assms(2) by simp
qed

section \<open>Grounded briefs\<close>

definition brief_grounded :: "research_env \<Rightarrow> research_config \<Rightarrow> research_run \<Rightarrow> research_completion \<Rightarrow> bool" where
  "brief_grounded E cfg p c \<longleftrightarrow>
     br_Assertions (rc_Output c) \<noteq> [] \<and> length (br_Assertions (rc_Output c)) \<le> 25
     \<and> (\<forall>a\<in>set (br_Assertions (rc_Output c)). as_ClaimIDs a \<noteq> [] \<and> distinct (as_ClaimIDs a) \<and> set (as_ClaimIDs a) \<subseteq> fact_ID ` set (rr_Claims p)
          \<and> distinct (as_SourceURLs a) \<and> set (as_SourceURLs a) \<subseteq> src_URL ` set (rc_Sources c))
     \<and> (\<forall>s\<in>set (rc_Sources c). \<exists>u. re_url E (src_URL s) = Some u \<and> source_url_ok u \<and> src_Domain s = source_domain E u
          \<and> list_ex (domainMatches E (src_Domain s)) (rf_AllowedDomains cfg) \<and> \<not> list_ex (domainMatches E (src_Domain s)) (rf_BlockedDomains cfg))"

lemma validateReturnedSource_None:
  assumes "validateReturnedSource E allowed blocked s = None"
  shows "\<exists>u. re_url E (src_URL s) = Some u \<and> source_url_ok u \<and> src_Domain s = source_domain E u
    \<and> list_ex (domainMatches E (src_Domain s)) allowed \<and> \<not> list_ex (domainMatches E (src_Domain s)) blocked"
  using assms by (auto simp: validateReturnedSource_def ValidateSourceURL_def Let_def split: option.split_asm if_split_asm)

lemma validateAssertion_None:
  assumes "validateAssertion ids urls a = None"
  shows "as_ClaimIDs a \<noteq> [] \<and> distinct (as_ClaimIDs a) \<and> set (as_ClaimIDs a) \<subseteq> set ids \<and> distinct (as_SourceURLs a) \<and> set (as_SourceURLs a) \<subseteq> set urls"
  using assms by (auto simp: validateAssertion_def validateReferences_def go_result split: if_split_asm)

lemma ValidateOutput_None:
  assumes "research_ValidateOutput E out claims sources allowed blocked = None"
  shows "br_Assertions out \<noteq> [] \<and> length (br_Assertions out) \<le> 25"
    "s \<in> set sources \<Longrightarrow> validateReturnedSource E allowed blocked s = None"
    "a \<in> set (br_Assertions out) \<Longrightarrow> validateAssertion (map fact_ID claims) (map src_URL sources) a = None"
proof -
  have "or_else (first_error (validateReturnedSource E allowed blocked) sources)
      (first_error (validateAssertion (map fact_ID claims) (map src_URL sources)) (br_Assertions out)) = None"
    and "br_Assertions out \<noteq> [] \<and> length (br_Assertions out) \<le> 25"
    using assms unfolding research_ValidateOutput_def by (simp_all add: or_else_None_iff split: if_split_asm)
  then show "br_Assertions out \<noteq> [] \<and> length (br_Assertions out) \<le> 25"
    "s \<in> set sources \<Longrightarrow> validateReturnedSource E allowed blocked s = None"
    "a \<in> set (br_Assertions out) \<Longrightarrow> validateAssertion (map fact_ID claims) (map src_URL sources) a = None"
    by (simp_all add: or_else_None_iff first_error_None_iff)
qed

lemma ValidateOutput_grounded:
  assumes "research_ValidateOutput E (rc_Output c) (rr_Claims p) (rc_Sources c) (rf_AllowedDomains cfg) (rf_BlockedDomains cfg) = None"
  shows "brief_grounded E cfg p c"
  unfolding brief_grounded_def
proof (intro conjI ballI)
  show "br_Assertions (rc_Output c) \<noteq> []" "length (br_Assertions (rc_Output c)) \<le> 25" using ValidateOutput_None(1) [OF assms] by simp_all
next
  fix a
  assume "a \<in> set (br_Assertions (rc_Output c))"
  from validateAssertion_None [OF ValidateOutput_None(3) [OF assms this]]
  show "as_ClaimIDs a \<noteq> []" "distinct (as_ClaimIDs a)" "set (as_ClaimIDs a) \<subseteq> fact_ID ` set (rr_Claims p)"
    "distinct (as_SourceURLs a)" "set (as_SourceURLs a) \<subseteq> src_URL ` set (rc_Sources c)" by simp_all
next
  fix s
  assume "s \<in> set (rc_Sources c)"
  from validateReturnedSource_None [OF ValidateOutput_None(2) [OF assms this]]
  show "\<exists>u. re_url E (src_URL s) = Some u \<and> source_url_ok u \<and> src_Domain s = source_domain E u
    \<and> list_ex (domainMatches E (src_Domain s)) (rf_AllowedDomains cfg) \<and> \<not> list_ex (domainMatches E (src_Domain s)) (rf_BlockedDomains cfg)" .
qed

section \<open>What a job does\<close>

definition starts :: "research_event list \<Rightarrow> research_request list" where
  "starts tr = concat (map (\<lambda>e. case e of RvStart q \<Rightarrow> [q] | _ \<Rightarrow> []) tr)"

definition briefs :: "research_event list \<Rightarrow> research_completion list" where
  "briefs tr = concat (map (\<lambda>e. case e of RvComplete c \<Rightarrow> [c] | _ \<Rightarrow> []) tr)"

definition run_failures :: "research_event list \<Rightarrow> string list" where
  "run_failures tr = concat (map (\<lambda>e. case e of RvFail c \<Rightarrow> [c] | _ \<Rightarrow> []) tr)"

lemma research_trace_simps [simp]:
  "starts [] = []" "briefs [] = []" "run_failures [] = []"
  "starts (e # t) = (case e of RvStart q \<Rightarrow> [q] | _ \<Rightarrow> []) @ starts t"
  "briefs (e # t) = (case e of RvComplete c \<Rightarrow> [c] | _ \<Rightarrow> []) @ briefs t"
  "run_failures (e # t) = (case e of RvFail c \<Rightarrow> [c] | _ \<Rightarrow> []) @ run_failures t"
  by (simp_all add: starts_def briefs_def run_failures_def)

text \<open>The ends of a run: the attempt is recorded before anything else, a recorded failure is reported as an error.\<close>

definition ends_run :: "research_env \<Rightarrow> research_config \<Rightarrow> research_run \<Rightarrow> research_event list \<Rightarrow> (research_error + research_result) \<Rightarrow> bool" where
  "ends_run E cfg p ev res \<longleftrightarrow>
     (\<exists>code. ev = [RvRecord code] \<and> isl res) \<or> (\<exists>code code'. ev = [RvRecord code, RvFail code'] \<and> code \<noteq> [] \<and> isl res)
     \<or> (\<exists>c. ev = [RvRecord [], RvComplete c] \<and> re_record E [] = None \<and> brief_grounded E cfg p c \<and> res = re_complete E c)"

lemma research_fail_simps [simp]: "snd (research_fail E code cause tr) = tr @ [RvFail code]" "isl (fst (research_fail E code cause tr))"
  by (simp_all add: research_fail_def)

lemma validated_answer_grounded:
  assumes "validated_answer E cfg p rv r = Inr out"
  shows "brief_grounded E cfg p \<lparr>rc_Output = out, rc_ProviderID = rp_ID r, rc_Sources = rp_Sources r, rc_Usage = rp_Usage r\<rparr>"
  using assms by (intro ValidateOutput_grounded)
    (auto simp: validated_answer_def research_DecodeAndValidate_def go_result split: if_split_asm option.split_asm prod.split_asm)

lemma providerFailure_ends: "\<exists>ev. snd (providerFailure E cause tr) = tr @ ev \<and> ends_run E cfg p ev (fst (providerFailure E cause tr))"
  by (auto simp: providerFailure_def ends_run_def)

lemma finalize_ends: "\<exists>ev. snd (research_finalize E cfg p rv r tr) = tr @ ev \<and> ends_run E cfg p ev (fst (research_finalize E cfg p rv r tr))"
proof (cases "rp_Status r = ''completed''")
  case False
  then show ?thesis using providerFailure_ends by (simp add: research_finalize_def)
next
  case True
  show ?thesis
  proof (cases "validated_answer E cfg p rv r")
    case (Inl msg)
    then show ?thesis using True by (auto simp: research_finalize_def ends_run_def Let_def split: option.split)
  next
    case (Inr out)
    from validated_answer_grounded [OF this] show ?thesis using True Inr by (auto simp: research_finalize_def ends_run_def Let_def split: option.split)
  qed
qed

text \<open>
  A completion is the last thing a job does: the attempt was recorded just before, without an error code and successfully, and what
  the job returns is what the completion gave.
\<close>

definition completed_last :: "research_env \<Rightarrow> research_completion \<Rightarrow> research_answer \<Rightarrow> bool" where
  "completed_last E c ans \<longleftrightarrow> (\<exists>ev. snd ans = ev @ [RvRecord [], RvComplete c]) \<and> re_record E [] = None \<and> fst ans = re_complete E c"

text \<open>The input that is sent is the encoding of the claims whose digest the run was prepared with.\<close>

definition facts_sent :: "research_env \<Rightarrow> research_run \<Rightarrow> string \<Rightarrow> bool" where
  "facts_sent E p input \<longleftrightarrow> EncodeValidatedFacts E (rr_Title p) (rr_ClusterID p) (rr_Claims p) = Inr (input, rr_InputHash p)"

definition start_trace :: "research_env \<Rightarrow> research_config \<Rightarrow> research_run \<Rightarrow> research_event list \<Rightarrow> (research_error + research_result) \<Rightarrow> bool" where
  "start_trace E cfg p ev res \<longleftrightarrow>
     (\<exists>n. ev = [RvReserve n])
     \<or> (\<exists>n input ev'. ev = RvReserve n # RvStart (start_request E cfg p input) # ev' \<and> facts_sent E p input
          \<and> (ends_run E cfg p ev' res \<or> (\<exists>r. ev' = [RvAttach r]) \<or> (\<exists>r ev''. ev' = RvAttach r # ev'' \<and> ends_run E cfg p ev'' res)))"

definition poll_trace :: "research_env \<Rightarrow> research_config \<Rightarrow> research_run \<Rightarrow> research_event list \<Rightarrow> (research_error + research_result) \<Rightarrow> bool" where
  "poll_trace E cfg p ev res \<longleftrightarrow>
     (\<exists>i. ev = [RvGet i]) \<or> (\<exists>i code. ev = [RvGet i, RvFail code] \<and> isl res) \<or> (\<exists>i ev'. ev = RvGet i # ev' \<and> ends_run E cfg p ev' res)"

definition job_trace :: "research_env \<Rightarrow> research_config \<Rightarrow> research_run \<Rightarrow> research_answer \<Rightarrow> bool" where
  "job_trace E cfg p ans \<longleftrightarrow>
     snd ans = [] \<or> (\<exists>code. snd ans = [RvFail code] \<and> isl (fst ans)) \<or> start_trace E cfg p (snd ans) (fst ans) \<or> poll_trace E cfg p (snd ans) (fst ans)"

lemma start_run_trace:
  assumes "facts_sent E p input"
  shows "start_trace E cfg p (snd (start_run E cfg p input [])) (fst (start_run E cfg p input []))"
proof (cases "re_reserve E (estimateInputTokens (re_prompt E) input (re_schema E))")
  case (Inl err)
  then show ?thesis by (simp add: start_run_def start_trace_def Let_def)
next
  case reserved: (Inr rv)
  let ?q = "start_request E cfg p input" and ?n = "estimateInputTokens (re_prompt E) input (re_schema E)"
  show ?thesis
  proof (cases "re_start E ?q")
    case (Inl err)
    then show ?thesis using reserved assms providerFailure_ends [of E err "[RvReserve ?n, RvStart ?q]" cfg p]
      by (auto simp: start_run_def start_trace_def Let_def)
  next
    case (Inr r)
    then show ?thesis using reserved assms finalize_ends [of E cfg p rv r "[RvReserve ?n, RvStart ?q, RvAttach r]"]
      by (auto simp: start_run_def start_trace_def Let_def split: option.split)
  qed
qed

lemma prepared_step_trace: "job_trace E cfg p (prepared_step E cfg p [])"
proof (cases "\<exists>input. research_validateRegistry E p cfg = None \<and> facts_sent E p input")
  case True
  then show ?thesis using start_run_trace by (auto simp: prepared_step_def job_trace_def facts_sent_def)
next
  case False
  then show ?thesis by (auto simp: prepared_step_def job_trace_def facts_sent_def split: option.split sum.split)
qed

lemma poll_loaded_trace: "job_trace E cfg p (poll_loaded E cfg q p)"
proof (cases "re_get E (po_ResponseID q)")
  case (Inl err)
  then show ?thesis by (auto simp: poll_loaded_def job_trace_def poll_trace_def split: option.split)
next
  case (Inr r)
  then show ?thesis using finalize_ends [of E cfg p "rr_Reservation p" r "[RvGet (po_ResponseID q)]"]
    by (auto simp: poll_loaded_def job_trace_def poll_trace_def split: option.split)
qed

text \<open>The runs a job may work on: the one it prepares, or the one it loads and, after a retryable failure, prepares again.\<close>

definition run_of :: "research_env \<Rightarrow> research_target \<Rightarrow> poll_request \<Rightarrow> research_run \<Rightarrow> bool" where
  "run_of E t q p \<longleftrightarrow>
     re_prepare E t = Inr p \<or> re_load E q = Inr p
     \<or> (\<exists>p0. re_load E q = Inr p0 \<and> re_prepare E \<lparr>rt_ClusterID = rr_ClusterID p0, rt_RevisionID = rr_RevisionID p0, rt_InputSHA256 = []\<rparr> = Inr p)"

lemma Process_trace: "snd (research_Process E cfg t) = [] \<or> (\<exists>p. re_prepare E t = Inr p \<and> job_trace E cfg p (research_Process E cfg t))"
  using prepared_step_trace by (auto simp: research_Process_def split: option.split sum.split)

lemma Poll_trace: "snd (research_Poll E cfg q) = [] \<or> (\<exists>p. run_of E t q p \<and> job_trace E cfg p (research_Poll E cfg q))"
proof (cases "re_load E q")
  case (Inr p)
  let ?t = "\<lparr>rt_ClusterID = rr_ClusterID p, rt_RevisionID = rr_RevisionID p, rt_InputSHA256 = []\<rparr>"
  have "snd (research_Process E cfg ?t) = [] \<or> (\<exists>p'. run_of E t q p' \<and> job_trace E cfg p' (research_Process E cfg ?t))"
    using Process_trace [of E cfg ?t] Inr by (auto simp: run_of_def)
  moreover have "run_of E t q p" using Inr by (simp add: run_of_def)
  ultimately show ?thesis using Inr poll_loaded_trace [of E cfg p q] by (auto simp: research_Poll_def)
qed (auto simp: research_Poll_def)

definition sent_ok :: "research_env \<Rightarrow> research_config \<Rightarrow> research_run \<Rightarrow> research_request \<Rightarrow> bool" where
  "sent_ok E cfg p s \<longleftrightarrow>
     re_sha256 E (rq_Input s) = rr_InputHash p \<and> length (rq_Input s) \<le> MaximumInputBytes \<and> (\<forall>c\<in>set (rr_Claims p). authoritative c)
     \<and> rq_MaxToolCalls s = rf_MaximumToolCalls cfg \<and> rq_AllowedDomains s = rf_AllowedDomains cfg \<and> rq_BlockedDomains s = rf_BlockedDomains cfg"

lemma start_request_ok: "slice_sort (re_sort E) \<Longrightarrow> facts_sent E p input \<Longrightarrow> sent_ok E cfg p (start_request E cfg p input)"
  using EncodeValidatedFacts_Inr by (fastforce simp: facts_sent_def sent_ok_def start_request_def)

lemma ends_run_facts:
  assumes "ends_run E cfg p ev res"
  shows "starts ev = []" "length (briefs ev) + length (run_failures ev) \<le> 1" "run_failures ev \<noteq> [] \<Longrightarrow> isl res"
    "c \<in> set (briefs ev) \<Longrightarrow> brief_grounded E cfg p c \<and> completed_last E c (res, xs @ ev)"
  using assms by (auto simp: ends_run_def completed_last_def)

lemma ends_completed:
  assumes "ends_run E cfg p ev (fst ans)" "c \<in> set (briefs ev)"
  shows "snd ans = x # ev \<Longrightarrow> completed_last E c ans" "snd ans = x # y # ev \<Longrightarrow> completed_last E c ans" "snd ans = x # y # z # ev \<Longrightarrow> completed_last E c ans"
  using assms ends_run_facts(4) [of E cfg p ev "fst ans" c "[x]"] ends_run_facts(4) [of E cfg p ev "fst ans" c "[x, y]"]
    ends_run_facts(4) [of E cfg p ev "fst ans" c "[x, y, z]"] by (simp_all add: completed_last_def)

lemma job_trace_facts:
  assumes "slice_sort (re_sort E)" "job_trace E cfg p ans"
  shows "length (starts (snd ans)) \<le> 1 \<and> length (briefs (snd ans)) + length (run_failures (snd ans)) \<le> 1
    \<and> (run_failures (snd ans) \<noteq> [] \<longrightarrow> isl (fst ans))
    \<and> (\<forall>c\<in>set (briefs (snd ans)). completed_last E c ans \<and> brief_grounded E cfg p c) \<and> (\<forall>s\<in>set (starts (snd ans)). sent_ok E cfg p s)"
  using assms(2) start_request_ok [OF assms(1)] unfolding job_trace_def start_trace_def poll_trace_def
  by (auto dest: ends_run_facts intro: ends_completed)

text \<open>
  C39. A research brief is grounded. A job that starts or polls a research run asks the provider at most once, and only with the facts the run was
  prepared with: claims verified against a span of an authoritative source, under their recorded digest. It ends the run
  at most once; a completion is the last call of the job, directly after the attempt was recorded successfully and without an error code, and its
  outcome is the job's result; it is made with a brief in which every assertion
  cites supplied claims, and only sources the search returned, all on approved and none on blocked domains. A recorded failure is reported.
\<close>

theorem research_grounded:
  assumes "slice_sort (re_sort E)" "ans = research_Process E cfg t \<or> ans = research_Poll E cfg q"
  shows "length (starts (snd ans)) \<le> 1 \<and> length (briefs (snd ans)) + length (run_failures (snd ans)) \<le> 1
    \<and> (run_failures (snd ans) \<noteq> [] \<longrightarrow> isl (fst ans))
    \<and> (\<forall>c\<in>set (briefs (snd ans)). completed_last E c ans \<and> (\<exists>p. run_of E t q p \<and> brief_grounded E cfg p c))
    \<and> (\<forall>s\<in>set (starts (snd ans)). \<exists>p. run_of E t q p \<and> sent_ok E cfg p s)"
proof -
  have "snd ans = [] \<or> (\<exists>p. run_of E t q p \<and> job_trace E cfg p ans)"
    using assms(2) Process_trace [of E cfg t] Poll_trace [of E cfg q t] by (auto simp: run_of_def)
  then show ?thesis using job_trace_facts [OF assms(1)] by fastforce
qed

text \<open>The errors that are not retried: a brief that is invalid for the second time, and not the first time.\<close>

lemma schema_failures_permanent:
  assumes "rp_Status r = ''completed''" "validated_answer E cfg p rv r = Inl msg" "re_record E ''schema_invalid'' = None" "\<And>code. re_fail E code = None"
  shows "\<exists>err. fst (research_finalize E cfg p rv r tr) = Inl err \<and> (research_Permanent err \<longleftrightarrow> 1 \<le> rr_SchemaFailures p)"
  using assms by (auto simp: research_finalize_def Let_def research_fail_def joined_def research_Permanent_def research_SchemaAttempts_def)

text \<open>The sources of a decoded response are those of its searches, with the domains that the validation computes.\<close>

lemma web_source_good: "\<not> web_source_bad E raw \<Longrightarrow> \<exists>pu. re_url E raw = Some pu \<and> source_url_ok pu"
  by (auto simp: web_source_bad_def split: option.split_asm)

lemma read_items_urls:
  assumes "read_items E is st = Inr (n, urls)"
  shows "\<forall>u\<in>set urls - set (snd st). \<exists>pu. re_url E u = Some pu \<and> source_url_ok pu"
  using assms
proof (induction "is" arbitrary: st)
  case (Cons i "is")
  from Cons.prems obtain st1 where st1: "read_item E i st = Inr st1" "read_items E is st1 = Inr (n, urls)" by (auto simp: go_result)
  have "\<forall>u\<in>set (snd st1) - set (snd st). \<exists>pu. re_url E u = Some pu \<and> source_url_ok pu"
    using st1(1) by (auto simp: read_item_def list_ex_iff split: output_item.split_asm if_split_asm intro: web_source_good)
  then show ?case using Cons.IH [OF st1(2)] by blast
qed simp

lemma decoded_sources:
  assumes "decodeProviderResponse E answer = Inr r" "s \<in> set (rp_Sources r)"
  shows "\<exists>u. re_url E (src_URL s) = Some u \<and> source_url_ok u \<and> src_Domain s = source_domain E u"
proof -
  obtain found calls urls where items: "read_items E found (0, []) = Inr (calls, urls)" and s: "s \<in> returned_source E ` set urls"
    using assms by (auto simp: decodeProviderResponse_def go_result split: option.split_asm if_split_asm)
  from s obtain raw where "raw \<in> set urls" "s = returned_source E raw" by blast
  then show ?thesis using read_items_urls [OF items] by (auto simp: returned_source_def)
qed

section \<open>Instances\<close>

definition sample_research_url :: parsed_url where
  "sample_research_url = \<lparr>pu_Scheme = ''https'', pu_Host = ''go.dev'', pu_HasUser = False, pu_Opaque = [], pu_Path = ''/blog'', pu_RawPath = [],
     pu_RawQuery = [], pu_Fragment = [], pu_RawFragment = [], pu_ForceQuery = False\<rparr>"

definition sample_fact :: claim_fact where
  "sample_fact = \<lparr>fact_ID = ''c1'', fact_ItemID = ''i1'', fact_RevisionID = ''r1'', fact_ClaimType = ''release'', fact_ClaimText = ''Go is out'',
     fact_NormalizedValue = [], fact_Confidence = ''high'', fact_Material = True, fact_VerificationState = ''verified_span'',
     fact_SourceURL = ''https://go.dev/blog'', fact_SourceTier = ''T0''\<rparr>"

definition sample_brief :: research_output where
  "sample_brief = \<lparr>br_Headline = ''Go'', br_Summary = ''A release'', br_WhyItMatters = ''It is used'', br_RecommendedAction = ''Update'', br_Confidence = ''high'',
     br_Assertions = [\<lparr>as_Text = ''Go is out'', as_Material = True, as_ClaimIDs = [''c1''], as_SourceURLs = [''https://go.dev/blog'']\<rparr>], br_Uncertainties = []\<rparr>"

definition sample_research_run :: research_run where
  "sample_research_run = \<lparr>rr_RunID = ''u1'', rr_ClusterID = ''k1'', rr_ItemID = ''i1'', rr_RevisionID = ''r1'', rr_Title = ''Go'', rr_InputHash = ''h'', rr_Claims = [sample_fact],
     rr_Model = \<lparr>mc_ModelID = ''m'', mc_Reasoning = ''low'', mc_Verbosity = ''low'', mc_EnabledTools = [''web_search''], mc_MaxOutputTokens = 512\<rparr>,
     rr_Prompt = \<lparr>pv_SemanticVersion = ''1'', pv_PromptSHA256 = ''h'', pv_SchemaVersion = ''1'', pv_SchemaSHA256 = ''h''\<rparr>,
     rr_State = ''pending'', rr_ErrorCode = [], rr_ProviderResponseID = [],
     rr_Reservation = \<lparr>rv_ID = 1, rv_Number = 1, rv_MaximumToolCalls = 4, rv_BudgetSoftExceeded = False\<rparr>, rr_SchemaFailures = 0, rr_Obsolete = False\<rparr>"

definition sample_research_response :: research_response where
  "sample_research_response = \<lparr>rp_ID = ''resp'', rp_Status = ''completed'', rp_Output = ''{}'', rp_Sources = [\<lparr>src_URL = ''https://go.dev/blog'', src_Domain = ''go.dev''\<rparr>],
     rp_Usage = \<lparr>us_InputTokens = 10, us_CachedInputTokens = 0, us_OutputTokens = 10, us_ToolCalls = 1\<rparr>\<rparr>"

definition sample_research_env :: research_env where
  "sample_research_env =
     \<lparr>re_url = (\<lambda>u. if u = ''https://go.dev/blog'' then Some sample_research_url else None), re_lower = (\<lambda>s. s), re_is_ip = (\<lambda>s. False), re_loopback = (\<lambda>s. False),
      re_uuid_ok = (\<lambda>s. True), re_sha256 = (\<lambda>s. ''h''), re_sort = insertionSort, re_marshal = (\<lambda>k t cs. Some ''{}''), re_decode = (\<lambda>s. Some (sample_brief, RestEOF)),
      re_prompt = ''p'', re_prompt_version = ''1'', re_schema = ''s'', re_schema_version = ''1'', re_prepare = (\<lambda>t. Inr sample_research_run), re_load = (\<lambda>q. Inl [ResOther]),
      re_reserve = (\<lambda>n. Inr (rr_Reservation sample_research_run)), re_start = (\<lambda>q. Inr sample_research_response), re_get = (\<lambda>i. Inl [ResOther]), re_attach = (\<lambda>r. None),
      re_record = (\<lambda>c. None), re_complete = (\<lambda>c. Inr (run_result sample_research_run)), re_fail = (\<lambda>c. None)\<rparr>"

definition sample_research_config :: research_config where
  "sample_research_config = \<lparr>rf_ExpectedModelID = ''m'', rf_ExpectedReasoning = ''low'', rf_ExpectedVerbosity = ''low'', rf_ExpectedMaxOutputTokens = 512, rf_MaximumToolCalls = 4,
     rf_AllowedDomains = [''go.dev''], rf_BlockedDomains = [], rf_Background = True, rf_DailyWebSearchLimit = 10, rf_MonthlySoftUSD = ''1'', rf_MonthlyHardUSD = ''2''\<rparr>"

definition sample_target :: research_target where
  "sample_target = \<lparr>rt_ClusterID = ''k1'', rt_RevisionID = ''r1'', rt_InputSHA256 = []\<rparr>"

text \<open>A run that is started and completed at once.\<close>

theorem research_grounded_witness:
  "length (briefs (snd (research_Process sample_research_env sample_research_config sample_target))) = 1
   \<and> (\<exists>p. brief_grounded sample_research_env sample_research_config p (hd (briefs (snd (research_Process sample_research_env sample_research_config sample_target)))))"
proof -
  let ?ans = "research_Process sample_research_env sample_research_config sample_target"
  have one: "length (briefs (snd ?ans)) = 1" by code_simp
  have "slice_sort (re_sort sample_research_env)" using insertion.slice_sort_axioms by (simp add: sample_research_env_def)
  note all = research_grounded [OF this disjI1 [OF refl], of sample_research_config sample_target]
  from one have "hd (briefs (snd ?ans)) \<in> set (briefs (snd ?ans))" by (cases "briefs (snd ?ans)") auto
  with one all show ?thesis by blast
qed

end
