(* ===== verification/Webhook.thy ===== *)
theory Webhook
  imports Research Postgres
begin

text \<open>
  Provider webhooks: \<open>src/internal/openaiwebhook/webhook.go\<close> and the worker in \<open>src/internal/worker/river.go\<close> that polls a background
  response. Verified events are stored once, each with a job that polls its response; the job runs \<open>Research.research_Poll\<close> and
  marks the events of the response as processed. The queue's insertion is an argument, with the law \<open>queue_law\<close> of its unique jobs; a
  service token, the media-type parser and the JSON decoder are arguments of the handler.
\<close>

section \<open>Events, jobs and runs\<close>

record verified_event =
  we_WebhookID :: string
  we_EventID :: string
  we_EventType :: string
  we_ResponseID :: string
  we_EventCreatedAt :: time

record accept_result =
  ar_Accepted :: bool
  ar_Duplicate :: bool

record event_row =
  er_event :: verified_event
  er_received_at :: time
  er_processed_at :: "time option"
  er_processing_error :: "string option"

record poll_args =
  pa_RunID :: string
  pa_ResponseID :: string
  pa_WebhookID :: string

record background_run =
  bg_id :: string
  bg_response :: "string option"
  bg_background :: bool
  bg_state :: string
  bg_updated_at :: time

text \<open>The jobs are those the queue holds; \<open>wd_past\<close> keeps, for the record, those it held once and has removed after they were finished,
  and \<open>wd_pruned\<close> the events that retention has deleted.\<close>

record webhook_db =
  wd_events :: "event_row list"
  wd_jobs :: "poll_args list"
  wd_past :: "poll_args list"
  wd_pruned :: "verified_event list"
  wd_runs :: "background_run list"

text \<open>
  Inserting a job fails, takes place, or is skipped because of its unique arguments (here the response). What the queue
  documents: it only skips a job while it holds one with the same unique arguments, in whatever state.
\<close>

datatype insert_outcome = InsertFails | Inserted | SkippedAsDuplicate

definition queue_law :: "(poll_args list \<Rightarrow> poll_args \<Rightarrow> insert_outcome) \<Rightarrow> bool" where
  "queue_law Q \<longleftrightarrow> (\<forall>jobs a. Q jobs a = SkippedAsDuplicate \<longrightarrow> (\<exists>b\<in>set jobs. pa_ResponseID b = pa_ResponseID a))"

definition EnqueuePollOpenAIBackground :: "(poll_args list \<Rightarrow> poll_args \<Rightarrow> insert_outcome) \<Rightarrow> poll_args \<Rightarrow> webhook_db \<Rightarrow> string + webhook_db \<times> bool" where
  "EnqueuePollOpenAIBackground Q a D =
     (case Q (wd_jobs D) a of
        InsertFails \<Rightarrow> Inl ''enqueue OpenAI background poll''
      | Inserted \<Rightarrow> Inr (D\<lparr>wd_jobs := wd_jobs D @ [a]\<rparr>, True)
      | SkippedAsDuplicate \<Rightarrow> Inr (D, False))"

section \<open>Accepting an event\<close>

definition bounded :: "string \<Rightarrow> nat \<Rightarrow> bool" where
  "bounded v maximum \<longleftrightarrow> 0 < length (trim_space v) \<and> length (trim_space v) \<le> maximum"

definition event_types :: "string list" where
  "event_types = [''response.completed'', ''response.failed'', ''response.incomplete'', ''response.cancelled'']"

definition validateEvent :: "verified_event \<Rightarrow> time \<Rightarrow> string option" where
  "validateEvent e receivedAt =
     (if \<not> bounded (we_WebhookID e) 255 \<or> \<not> bounded (we_EventID e) 255 \<or> \<not> bounded (we_ResponseID e) 255
         \<or> is_zero (we_EventCreatedAt e) \<or> is_zero receivedAt
      then Some ''verified OpenAI webhook identifiers and timestamps are required and bounded''
      else if we_EventType e \<notin> set event_types then Some ''unsupported OpenAI webhook event type''
      else if we_EventCreatedAt e > receivedAt + 10 * minute then Some ''OpenAI webhook event timestamp is implausibly in the future''
      else None)"

text \<open>The constraints of the table, in characters.\<close>

definition event_row_ok :: "pg \<Rightarrow> verified_event \<Rightarrow> bool" where
  "event_row_ok G e \<longleftrightarrow>
     list_all (\<lambda>v. pg_text G v \<and> 1 \<le> rune_count v \<and> rune_count v \<le> 255) [we_WebhookID e, we_EventID e, we_ResponseID e]
     \<and> we_EventType e \<in> set event_types"

definition same_key :: "verified_event \<Rightarrow> event_row \<Rightarrow> bool" where
  "same_key e r \<longleftrightarrow> we_WebhookID (er_event r) = we_WebhookID e \<or> we_EventID (er_event r) = we_EventID e"

text \<open>\<open>order by webhook_id = $1 desc limit 1\<close>: the event of the same delivery comes first.\<close>

definition existing_event :: "verified_event \<Rightarrow> event_row list \<Rightarrow> event_row option" where
  "existing_event e rows =
     (case find (\<lambda>r. we_WebhookID (er_event r) = we_WebhookID e) rows of
        Some r \<Rightarrow> Some r
      | None \<Rightarrow> find (same_key e) rows)"

definition event_row_of :: "pg \<Rightarrow> verified_event \<Rightarrow> time \<Rightarrow> event_row" where
  "event_row_of G e receivedAt =
     \<lparr>er_event = e\<lparr>we_EventCreatedAt := pg_time G (we_EventCreatedAt e)\<rparr>, er_received_at = pg_time G receivedAt, er_processed_at = None, er_processing_error = None\<rparr>"

definition accept_body :: "pg \<Rightarrow> (poll_args list \<Rightarrow> poll_args \<Rightarrow> insert_outcome) \<Rightarrow> verified_event \<Rightarrow> time \<Rightarrow> webhook_db \<Rightarrow> string + webhook_db \<times> accept_result" where
  "accept_body G Q e receivedAt D =
     (if \<not> event_row_ok G e then Inl ''persist verified OpenAI webhook''
      else if \<not> list_ex (same_key e) (wd_events D) then
        and_then (EnqueuePollOpenAIBackground Q \<lparr>pa_RunID = [], pa_ResponseID = we_ResponseID e, pa_WebhookID = we_WebhookID e\<rparr>
                    (D\<lparr>wd_events := wd_events D @ [event_row_of G e receivedAt]\<rparr>))
          (\<lambda>(D', inserted). Inr (D', \<lparr>ar_Accepted = True, ar_Duplicate = False\<rparr>))
      else (case existing_event e (wd_events D) of
              None \<Rightarrow> Inl ''select duplicate OpenAI webhook''
            | Some r \<Rightarrow>
                if er_event r \<noteq> e then Inl ''OpenAI webhook identifier collision does not match the persisted event''
                else Inr (D, \<lparr>ar_Accepted = True, ar_Duplicate = True\<rparr>)))"

definition Accept :: "pg \<Rightarrow> (poll_args list \<Rightarrow> poll_args \<Rightarrow> insert_outcome) \<Rightarrow> tx_fate \<Rightarrow> verified_event \<Rightarrow> time \<Rightarrow> webhook_db \<Rightarrow> (string + accept_result) \<times> webhook_db" where
  "Accept G Q fate e receivedAt D =
     (case validateEvent e receivedAt of
        Some err \<Rightarrow> (Inl err, D)
      | None \<Rightarrow> run_tx fate ''begin or commit verified OpenAI webhook'' (accept_body G Q e receivedAt) D)"

section \<open>Processing\<close>

definition mark_match :: "string \<Rightarrow> string \<Rightarrow> event_row \<Rightarrow> bool" where
  "mark_match webhookID responseID r \<longleftrightarrow>
     er_processed_at r = None \<and> we_ResponseID (er_event r) = responseID \<and> (webhookID = [] \<or> we_WebhookID (er_event r) = webhookID)"

definition marked :: "pg \<Rightarrow> string \<Rightarrow> time \<Rightarrow> event_row \<Rightarrow> event_row" where
  "marked G processingError processedAt r =
     r\<lparr>er_processed_at := Some (pg_time G processedAt), er_processing_error := (if processingError = [] then None else Some processingError)\<rparr>"

definition marked_ok :: "pg \<Rightarrow> string \<Rightarrow> time \<Rightarrow> event_row \<Rightarrow> bool" where
  "marked_ok G processingError processedAt r \<longleftrightarrow>
     er_received_at r \<le> pg_time G processedAt \<and> pg_text G processingError \<and> rune_count processingError \<le> 1000"

definition MarkProcessed :: "pg \<Rightarrow> bool \<Rightarrow> string \<Rightarrow> string \<Rightarrow> string \<Rightarrow> time \<Rightarrow> webhook_db \<Rightarrow> string option \<times> webhook_db" where
  "MarkProcessed G execOK webhookID responseID processingError processedAt D =
     (if responseID = [] \<or> is_zero processedAt \<or> length processingError > 1000
      then (Some ''webhook completion requires response ID, bounded error, and timestamp'', D)
      else if \<not> execOK \<or> \<not> list_all (marked_ok G processingError processedAt) (filter (mark_match webhookID responseID) (wd_events D))
      then (Some ''mark OpenAI webhook processed'', D)
      else (None, D\<lparr>wd_events := map (\<lambda>r. if mark_match webhookID responseID r then marked G processingError processedAt r else r) (wd_events D)\<rparr>))"

text \<open>The oldest unprocessed event of a response.\<close>

definition pending_webhook :: "string \<Rightarrow> event_row list \<Rightarrow> string" where
  "pending_webhook responseID rows =
     (case sort_key (\<lambda>r. (er_received_at r, we_WebhookID (er_event r))) (filter (\<lambda>r. we_ResponseID (er_event r) = responseID \<and> er_processed_at r = None) rows) of
        [] \<Rightarrow> []
      | r # rs \<Rightarrow> we_WebhookID (er_event r))"

definition pending_runs :: "(string \<Rightarrow> bool) \<Rightarrow> int \<Rightarrow> background_run list \<Rightarrow> background_run list" where
  "pending_runs locked limit runs =
     take (nat limit) (sort_key (\<lambda>r. (bg_updated_at r, bg_id r))
       (filter (\<lambda>r. bg_background r \<and> bg_state r = ''running'' \<and> bg_response r \<noteq> None \<and> \<not> locked (bg_id r)) runs))"

fun enqueue_runs :: "(poll_args list \<Rightarrow> poll_args \<Rightarrow> insert_outcome) \<Rightarrow> background_run list \<Rightarrow> int \<Rightarrow> webhook_db \<Rightarrow> string + webhook_db \<times> int" where
  "enqueue_runs Q [] n D = Inr (D, n)"
| "enqueue_runs Q (r # rs) n D =
     and_then (EnqueuePollOpenAIBackground Q
         \<lparr>pa_RunID = bg_id r, pa_ResponseID = the (bg_response r), pa_WebhookID = pending_webhook (the (bg_response r)) (wd_events D)\<rparr> D)
       (\<lambda>(D', inserted). enqueue_runs Q rs (if inserted then n + 1 else n) D')"

definition ReconcilePending :: "(poll_args list \<Rightarrow> poll_args \<Rightarrow> insert_outcome) \<Rightarrow> tx_fate \<Rightarrow> (string \<Rightarrow> bool) \<Rightarrow> int \<Rightarrow> webhook_db \<Rightarrow> (string + int) \<times> webhook_db" where
  "ReconcilePending Q fate locked limit D =
     (if limit < 1 \<or> limit > 1000 then (Inl ''background reconciliation limit must be between 1 and 1000'', D)
      else run_tx fate ''begin or commit background reconciliation'' (\<lambda>D. enqueue_runs Q (pending_runs locked limit (wd_runs D)) 0 D) D)"

text \<open>The deletion of old processed events by \<open>PruneOperational\<close> of the retention store.\<close>

definition expired :: "pg \<Rightarrow> time \<Rightarrow> event_row \<Rightarrow> bool" where
  "expired G cutoff r \<longleftrightarrow> (case er_processed_at r of None \<Rightarrow> False | Some t \<Rightarrow> t < pg_time G cutoff)"

definition prune_webhook_events :: "pg \<Rightarrow> time \<Rightarrow> webhook_db \<Rightarrow> webhook_db" where
  "prune_webhook_events G cutoff D =
     D\<lparr>wd_events := filter (\<lambda>r. \<not> expired G cutoff r) (wd_events D),
       wd_pruned := wd_pruned D @ map er_event (filter (expired G cutoff) (wd_events D))\<rparr>"

section \<open>The handler\<close>

record webhook_request =
  hr_Method :: string
  hr_Authorization :: string
  hr_ContentType :: string
  hr_Body :: string

definition MaximumEventBytes :: nat where "MaximumEventBytes = 16 * 2 ^ 10"

definition authorized :: "string \<Rightarrow> string \<Rightarrow> bool" where
  "authorized token v \<longleftrightarrow>
     has_prefix v ''Bearer '' \<and> length (trim_prefix v ''Bearer '') = length token \<and> trim_prefix v ''Bearer '' = token"

definition NewHandler :: "string \<Rightarrow> bool" where
  "NewHandler token \<longleftrightarrow> length (trim_space token) \<ge> 32"

text \<open>The decoder sees at most \<open>MaximumEventBytes\<close> bytes of the body and an error after them; the value and what follows it.\<close>

record handler_env =
  he_token :: string
  he_media_type :: "string \<Rightarrow> string option"
  he_decode :: "string \<Rightarrow> bool \<Rightarrow> (verified_event \<times> json_rest) option"

definition ServeHTTP ::
    "handler_env \<Rightarrow> pg \<Rightarrow> (poll_args list \<Rightarrow> poll_args \<Rightarrow> insert_outcome) \<Rightarrow> tx_fate \<Rightarrow> time \<Rightarrow> webhook_request \<Rightarrow> webhook_db \<Rightarrow> (nat \<times> accept_result option) \<times> webhook_db" where
  "ServeHTTP H G Q fate now rq D =
     (if hr_Method rq \<noteq> ''POST'' then ((405, None), D)
      else if \<not> authorized (he_token H) (hr_Authorization rq) then ((401, None), D)
      else if he_media_type H (hr_ContentType rq) \<noteq> Some ''application/json'' then ((415, None), D)
      else (case he_decode H (take MaximumEventBytes (hr_Body rq)) (length (hr_Body rq) > MaximumEventBytes) of
              None \<Rightarrow> ((400, None), D)
            | Some (e, rest) \<Rightarrow>
                if rest \<noteq> RestEOF then ((400, None), D)
                else (case Accept G Q fate e now D of
                        (Inl err, D') \<Rightarrow> ((400, None), D')
                      | (Inr result, D') \<Rightarrow> ((202, Some result), D'))))"

section \<open>The poll job\<close>

datatype job_outcome = JobDone | JobFailed | JobCancelled | JobSnoozed duration

definition mark_outcome :: "string option \<times> webhook_db \<Rightarrow> job_outcome \<times> webhook_db" where
  "mark_outcome m = ((case fst m of None \<Rightarrow> JobDone | Some err \<Rightarrow> JobFailed), snd m)"

definition poll_Work ::
    "research_env \<Rightarrow> research_config \<Rightarrow> (research_error \<Rightarrow> string) \<Rightarrow> pg \<Rightarrow> bool \<Rightarrow> time \<Rightarrow> poll_args \<Rightarrow> webhook_db \<Rightarrow> job_outcome \<times> webhook_db" where
  "poll_Work E cfg message G execOK now a D =
     (case fst (research_Poll E cfg \<lparr>po_RunID = pa_RunID a, po_ResponseID = pa_ResponseID a\<rparr>) of
        Inl err \<Rightarrow>
          if research_Permanent err then (JobCancelled, snd (MarkProcessed G execOK (pa_WebhookID a) (pa_ResponseID a) (message err) now D))
          else (JobFailed, D)
      | Inr r \<Rightarrow>
          if rz_Pending r then
            (if rz_ProviderID r \<noteq> pa_ResponseID a then mark_outcome (MarkProcessed G execOK (pa_WebhookID a) (pa_ResponseID a) [] now D)
             else (JobSnoozed minute, D))
          else mark_outcome (MarkProcessed G execOK (pa_WebhookID a) (pa_ResponseID a) [] now D))"

section \<open>Events are stored once\<close>

abbreviation inserted_jobs :: "webhook_db \<Rightarrow> poll_args set" where
  "inserted_jobs D \<equiv> set (wd_jobs D) \<union> set (wd_past D)"

definition webhook_inv :: "webhook_db \<Rightarrow> bool" where
  "webhook_inv D \<longleftrightarrow>
     distinct (map (we_WebhookID \<circ> er_event) (wd_events D)) \<and> distinct (map (we_EventID \<circ> er_event) (wd_events D))
     \<and> (\<forall>r\<in>set (wd_events D). we_EventType (er_event r) \<in> set event_types
          \<and> (\<exists>a\<in>inserted_jobs D. pa_ResponseID a = we_ResponseID (er_event r))
          \<and> (\<forall>t. er_processed_at r = Some t \<longrightarrow> er_received_at r \<le> t))"

text \<open>The events, in order, without what marking changes.\<close>

abbreviation stored :: "webhook_db \<Rightarrow> verified_event list" where
  "stored D \<equiv> map er_event (wd_events D)"

abbreviation received :: "webhook_db \<Rightarrow> verified_event set" where
  "received D \<equiv> set (stored D) \<union> set (wd_pruned D)"

lemma enqueue_cases:
  assumes "EnqueuePollOpenAIBackground Q a D = Inr (D', inserted)" "queue_law Q"
  shows "wd_events D' = wd_events D" "wd_pruned D' = wd_pruned D" "inserted_jobs D \<subseteq> inserted_jobs D'" "\<exists>b\<in>set (wd_jobs D'). pa_ResponseID b = pa_ResponseID a"
  using assms by (auto simp: EnqueuePollOpenAIBackground_def queue_law_def split: insert_outcome.split_asm)

lemma accept_body_cases:
  assumes "accept_body G Q e receivedAt D = Inr (D', res)"
  obtains (fresh) inserted where "\<not> list_ex (same_key e) (wd_events D)" "event_row_ok G e" "\<not> ar_Duplicate res"
      "EnqueuePollOpenAIBackground Q \<lparr>pa_RunID = [], pa_ResponseID = we_ResponseID e, pa_WebhookID = we_WebhookID e\<rparr>
         (D\<lparr>wd_events := wd_events D @ [event_row_of G e receivedAt]\<rparr>) = Inr (D', inserted)"
    | (repeated) r where "D' = D" "event_row_ok G e" "ar_Duplicate res" "r \<in> set (wd_events D)" "er_event r = e"
proof (cases "list_ex (same_key e) (wd_events D)")
  case False
  then show ?thesis using assms fresh by (auto simp: accept_body_def go_result split: if_split_asm)
next
  case True
  then obtain r where r: "existing_event e (wd_events D) = Some r" "er_event r = e" "D' = D" "ar_Duplicate res" "event_row_ok G e"
    using assms by (auto simp: accept_body_def split: if_split_asm option.split_asm)
  then have "r \<in> set (wd_events D)" by (auto simp: existing_event_def find_Some_iff split: option.split_asm)
  then show ?thesis using repeated r by blast
qed

lemma accept_body_inv:
  assumes "queue_law Q" "webhook_inv D" "accept_body G Q e receivedAt D = Inr (D', res)"
  shows "webhook_inv D'"
  using assms(3)
proof (cases rule: accept_body_cases)
  case (fresh inserted)
  note q = enqueue_cases [OF fresh(4) assms(1)]
  let ?row = "event_row_of G e receivedAt"
  have new: "we_WebhookID (er_event r) \<noteq> we_WebhookID e" "we_EventID (er_event r) \<noteq> we_EventID e" if "r \<in> set (wd_events D)" for r
    using fresh(1) that by (auto simp: list_ex_iff same_key_def)
  have events: "wd_events D' = wd_events D @ [?row]" and jobs: "inserted_jobs D \<subseteq> inserted_jobs D'" using q(1,3) by simp_all
  have row: "we_WebhookID (er_event ?row) = we_WebhookID e" "we_EventID (er_event ?row) = we_EventID e" "we_EventType (er_event ?row) \<in> set event_types"
    "we_ResponseID (er_event ?row) = we_ResponseID e" "er_processed_at ?row = None"
    using fresh(2) by (simp_all add: event_row_of_def event_row_ok_def)
  have job: "\<exists>a\<in>inserted_jobs D'. pa_ResponseID a = we_ResponseID e" using q(4) by auto
  have "\<exists>a\<in>inserted_jobs D'. pa_ResponseID a = we_ResponseID (er_event r)" if "r \<in> set (wd_events D')" for r
  proof (cases "r \<in> set (wd_events D)")
    case True
    then obtain a where "a \<in> inserted_jobs D" "pa_ResponseID a = we_ResponseID (er_event r)" using assms(2) unfolding webhook_inv_def by blast
    then show ?thesis using subsetD [OF jobs] by blast
  next
    case False
    then have "r = ?row" using that unfolding events by simp
    then show ?thesis using job row(4) by simp
  qed
  moreover have "distinct (map (we_WebhookID \<circ> er_event) (wd_events D'))" "distinct (map (we_EventID \<circ> er_event) (wd_events D'))"
    using assms(2) new [symmetric] row(1,2) unfolding webhook_inv_def events by auto
  moreover have "we_EventType (er_event r) \<in> set event_types \<and> (\<forall>t. er_processed_at r = Some t \<longrightarrow> er_received_at r \<le> t)"
    if "r \<in> set (wd_events D')" for r
    using that assms(2) row(3,5) unfolding webhook_inv_def events by auto
  ultimately show ?thesis unfolding webhook_inv_def by blast
next
  case (repeated r)
  then show ?thesis using assms(2) by simp
qed

lemma enqueue_runs_keeps:
  assumes "queue_law Q"
  shows "enqueue_runs Q rs n D = Inr (D', m) \<Longrightarrow> wd_events D' = wd_events D \<and> wd_pruned D' = wd_pruned D \<and> inserted_jobs D \<subseteq> inserted_jobs D'"
proof (induction rs arbitrary: n D)
  case (Cons r rs)
  from Cons.prems obtain D1 inserted where step: "EnqueuePollOpenAIBackground Q
         \<lparr>pa_RunID = bg_id r, pa_ResponseID = the (bg_response r), pa_WebhookID = pending_webhook (the (bg_response r)) (wd_events D)\<rparr> D = Inr (D1, inserted)"
      and "enqueue_runs Q rs (if inserted then n + 1 else n) D1 = Inr (D', m)" by (auto simp: go_result)
  from Cons.IH [OF this(2)] enqueue_cases(1,2,3) [OF step assms] show ?case by (metis subset_trans)
qed simp

lemma mark_keeps:
  assumes "MarkProcessed G execOK webhookID responseID err t D = (res, D')"
  shows "stored D' = stored D" "inserted_jobs D' = inserted_jobs D" "wd_pruned D' = wd_pruned D" "webhook_inv D \<Longrightarrow> webhook_inv D'"
proof -
  show same: "stored D' = stored D" "inserted_jobs D' = inserted_jobs D" "wd_pruned D' = wd_pruned D"
    using assms by (auto simp: MarkProcessed_def marked_def split: if_split_asm)
  assume inv: "webhook_inv D"
  show "webhook_inv D'"
  proof (cases "wd_events D' = wd_events D")
    case True
    then show ?thesis using inv unfolding webhook_inv_def same(2) by simp
  next
    case False
    then have events: "wd_events D' = map (\<lambda>r. if mark_match webhookID responseID r then marked G err t r else r) (wd_events D)"
      and ok: "list_all (marked_ok G err t) (filter (mark_match webhookID responseID) (wd_events D))"
      using assms by (auto simp: MarkProcessed_def split: if_split_asm)
    have keys: "map (we_WebhookID \<circ> er_event) (wd_events D') = map (we_WebhookID \<circ> er_event) (wd_events D)"
      "map (we_EventID \<circ> er_event) (wd_events D') = map (we_EventID \<circ> er_event) (wd_events D)" using same(1) by (metis map_map)+
    have "er_received_at r \<le> pg_time G t" if "r \<in> set (wd_events D)" "mark_match webhookID responseID r" for r
      using ok that by (auto simp: list_all_iff marked_ok_def)
    then have rows: "\<forall>r\<in>set (wd_events D'). we_EventType (er_event r) \<in> set event_types
        \<and> (\<exists>a\<in>inserted_jobs D. pa_ResponseID a = we_ResponseID (er_event r)) \<and> (\<forall>t. er_processed_at r = Some t \<longrightarrow> er_received_at r \<le> t)"
      using inv unfolding webhook_inv_def events by (auto simp: marked_def)
    show ?thesis using inv rows unfolding webhook_inv_def keys same(2) by blast
  qed
qed

text \<open>
  The store over time: its own operations, what the rest of the system does to runs and adds to the queue, the queue, which removes
  any of its jobs, and retention, which deletes the events processed before a cutoff.
\<close>

inductive webhook_step :: "pg \<Rightarrow> (poll_args list \<Rightarrow> poll_args \<Rightarrow> insert_outcome) \<Rightarrow> webhook_db \<Rightarrow> webhook_db \<Rightarrow> bool" for G Q where
  step_accept: "webhook_step G Q D (snd (Accept G Q fate e t D))"
| step_mark: "webhook_step G Q D (snd (MarkProcessed G execOK webhookID responseID err t D))"
| step_reconcile: "webhook_step G Q D (snd (ReconcilePending Q fate locked limit D))"
| step_other: "webhook_step G Q D (D\<lparr>wd_runs := runs, wd_jobs := wd_jobs D @ jobs\<rparr>)"
| step_prune: "webhook_step G Q D (prune_webhook_events G cutoff D)"
| step_cleanup: "webhook_step G Q D (D\<lparr>wd_jobs := filter keep (wd_jobs D), wd_past := wd_past D @ filter (\<lambda>a. \<not> keep a) (wd_jobs D)\<rparr>)"

lemma run_tx_keeps:
  assumes "\<And>D' r. body D = Inr (D', r) \<Longrightarrow> P D'" "P D"
  shows "P (snd (run_tx fate err body D))"
  using assms by (auto simp: run_tx_def split: sum.split prod.split)

definition grows :: "webhook_db \<Rightarrow> webhook_db \<Rightarrow> bool" where
  "grows D D' \<longleftrightarrow> webhook_inv D' \<and> received D \<subseteq> received D' \<and> inserted_jobs D \<subseteq> inserted_jobs D'"

lemma accept_body_grows:
  assumes "queue_law Q" "webhook_inv D" "accept_body G Q e t D = Inr (D2, r)"
  shows "grows D D2"
  using assms(3)
proof (cases rule: accept_body_cases)
  case (fresh inserted)
  have "inserted_jobs D \<subseteq> inserted_jobs D2" using enqueue_cases(3) [OF fresh(4) assms(1)] by simp
  then show ?thesis using accept_body_inv [OF assms] enqueue_cases(1,2) [OF fresh(4) assms(1)] unfolding grows_def by auto
next
  case (repeated row)
  then show ?thesis using assms(2) by (simp add: grows_def)
qed

lemma Accept_grows:
  assumes "queue_law Q" "webhook_inv D"
  shows "grows D (snd (Accept G Q fate e t D))"
proof (cases "validateEvent e t")
  case None
  have "grows D (snd (run_tx fate err (accept_body G Q e t) D))" for err
    by (rule run_tx_keeps) (rule accept_body_grows [OF assms], use assms(2) in \<open>simp_all add: grows_def\<close>)
  then show ?thesis using None by (simp add: Accept_def)
qed (use assms(2) in \<open>simp add: Accept_def grows_def\<close>)

lemma Reconcile_grows:
  assumes "queue_law Q" "webhook_inv D"
  shows "grows D (snd (ReconcilePending Q fate locked limit D))"
proof -
  have "grows D (snd (run_tx fate err (\<lambda>D. enqueue_runs Q (pending_runs locked limit (wd_runs D)) 0 D) D))" for err
  proof (rule run_tx_keeps)
    fix D2 r
    assume "enqueue_runs Q (pending_runs locked limit (wd_runs D)) 0 D = Inr (D2, r)"
    from enqueue_runs_keeps [OF assms(1) this] have keep: "wd_events D2 = wd_events D" "wd_pruned D2 = wd_pruned D" "inserted_jobs D \<subseteq> inserted_jobs D2"
      by simp_all
    then have "webhook_inv D2" using assms(2) unfolding webhook_inv_def by (metis (no_types, lifting) subsetD)
    then show "grows D D2" using keep unfolding grows_def by simp
  qed (use assms(2) in \<open>simp add: grows_def\<close>)
  then show ?thesis using assms(2) by (simp add: ReconcilePending_def grows_def)
qed

lemma webhook_step_grows:
  assumes "webhook_step G Q D D'" "queue_law Q" "webhook_inv D"
  shows "grows D D'"
  using assms(1)
proof cases
  case (step_accept fate e t)
  then show ?thesis using Accept_grows [OF assms(2,3)] by simp
next
  case (step_mark execOK webhookID responseID err t)
  obtain res D2 where m: "MarkProcessed G execOK webhookID responseID err t D = (res, D2)" by fastforce
  show ?thesis unfolding step_mark m using mark_keeps [OF m] assms(3) by (auto simp: grows_def)
next
  case (step_reconcile fate locked limit)
  then show ?thesis using Reconcile_grows [OF assms(2,3)] by simp
next
  case (step_other runs jobs)
  then show ?thesis using assms(3) by (auto simp: grows_def webhook_inv_def)
next
  case (step_prune cutoff)
  have "webhook_inv D'" using assms(3) unfolding step_prune webhook_inv_def prune_webhook_events_def by (auto simp: distinct_map_filter)
  moreover have "received D \<subseteq> received D'" "inserted_jobs D' = inserted_jobs D" unfolding step_prune prune_webhook_events_def by auto
  ultimately show ?thesis unfolding grows_def by simp
next
  case (step_cleanup keep)
  then have same: "wd_events D' = wd_events D" "wd_pruned D' = wd_pruned D" "inserted_jobs D' = inserted_jobs D" by auto
  then have "webhook_inv D'" using assms(3) unfolding webhook_inv_def same by blast
  then show ?thesis using same unfolding grows_def by simp
qed

lemma webhook_steps_grow:
  assumes "(webhook_step G Q)\<^sup>*\<^sup>* D D'" "queue_law Q" "webhook_inv D"
  shows "grows D D'"
  using assms(1)
proof induction
  case (step D1 D2)
  then have "webhook_inv D1" by (simp add: grows_def)
  from webhook_step_grows [OF step(2) assms(2) this] show ?case using step(3) unfolding grows_def by (meson subset_trans)
qed (use assms(3) in \<open>simp add: grows_def\<close>)

definition no_webhooks :: webhook_db where
  "no_webhooks = \<lparr>wd_events = [], wd_jobs = [], wd_past = [], wd_pruned = [], wd_runs = []\<rparr>"

lemma no_webhooks_inv: "webhook_inv no_webhooks"
  by (simp add: webhook_inv_def no_webhooks_def)

text \<open>A stored event is found by either of its identifiers, and nothing else is.\<close>

lemma existing_stored:
  assumes "webhook_inv D" "e \<in> set (stored D)" "we_WebhookID e' = we_WebhookID e \<or> we_EventID e' = we_EventID e"
  shows "list_ex (same_key e') (wd_events D)" "\<exists>r. existing_event e' (wd_events D) = Some r \<and> (er_event r = e' \<longrightarrow> e' = e)"
    "e' = e \<Longrightarrow> \<exists>r. existing_event e' (wd_events D) = Some r \<and> er_event r = e"
proof -
  obtain r0 where r0: "r0 \<in> set (wd_events D)" "er_event r0 = e" using assms(2) by auto
  then show found: "list_ex (same_key e') (wd_events D)" using assms(3) by (auto simp: list_ex_iff same_key_def)
  have ids: "er_event r = e" if "r \<in> set (wd_events D)" "we_WebhookID (er_event r) = we_WebhookID e \<or> we_EventID (er_event r) = we_EventID e" for r
    using that r0 assms(1) by (auto simp: webhook_inv_def distinct_map inj_on_def)
  obtain r where r: "existing_event e' (wd_events D) = Some r"
  proof (cases "find (\<lambda>r. we_WebhookID (er_event r) = we_WebhookID e') (wd_events D)")
    case None
    have "find (same_key e') (wd_events D) \<noteq> None" using found by (auto simp: find_None_iff list_ex_iff)
    then show ?thesis using None that by (auto simp: existing_event_def)
  next
    case (Some r1)
    then show ?thesis using that by (simp add: existing_event_def)
  qed
  have in_table: "r \<in> set (wd_events D)" using r by (auto simp: existing_event_def find_Some_iff split: option.split_asm)
  show "\<exists>r. existing_event e' (wd_events D) = Some r \<and> (er_event r = e' \<longrightarrow> e' = e)"
    using r in_table ids assms(3) by metis
  assume "e' = e"
  have "we_WebhookID (er_event r) = we_WebhookID e \<or> we_EventID (er_event r) = we_EventID e"
    using r \<open>e' = e\<close> by (auto simp: existing_event_def find_Some_iff same_key_def split: option.split_asm)
  then show "\<exists>r. existing_event e' (wd_events D) = Some r \<and> er_event r = e" using r ids [OF in_table] by blast
qed

section \<open>Exactly once\<close>

text \<open>
  C40. Webhook deliveries are idempotent, for events whose creation time has the resolution of the database. From an empty table on and
  whatever the store's operations, the rest of the system, the queue and retention do in between, fail or roll back: a job that polls the
  response of an accepted event was inserted, and right after the acceptance of a new event the queue holds one (later it holds it still or has removed it);
  the event is in the table under distinct identifiers until retention has deleted it. While it is in the table, delivering it
  again is answered as a duplicate and changes nothing, and another event that claims one of its identifiers is refused and changes nothing.
\<close>

theorem webhook_accepted_once:
  assumes "queue_law Q" "(webhook_step G Q)\<^sup>*\<^sup>* no_webhooks D" "Accept G Q fate e t D = (Inr r, D1)" "(webhook_step G Q)\<^sup>*\<^sup>* D1 D2"
    and "pg_time G (we_EventCreatedAt e) = we_EventCreatedAt e" "validateEvent e t2 = None"
  shows "webhook_inv D2 \<and> (e \<in> set (stored D2) \<or> e \<in> set (wd_pruned D2)) \<and> (\<exists>a\<in>inserted_jobs D2. pa_ResponseID a = we_ResponseID e)
    \<and> (\<not> ar_Duplicate r \<longrightarrow> (\<exists>a\<in>set (wd_jobs D1). pa_ResponseID a = we_ResponseID e))
    \<and> (e \<in> set (stored D2) \<longrightarrow>
         Accept G Q Commits e t2 D2 = (Inr \<lparr>ar_Accepted = True, ar_Duplicate = True\<rparr>, D2)
         \<and> (\<forall>e' fate'. e' \<noteq> e \<longrightarrow> we_WebhookID e' = we_WebhookID e \<or> we_EventID e' = we_EventID e \<longrightarrow>
              isl (fst (Accept G Q fate' e' t2 D2)) \<and> snd (Accept G Q fate' e' t2 D2) = D2))"
proof -
  have inv: "webhook_inv D" using webhook_steps_grow [OF assms(2,1) no_webhooks_inv] by (simp add: grows_def)
  have body: "accept_body G Q e t D = Inr (D1, r)" using assms(3) by (auto simp: Accept_def split: option.split_asm dest: run_tx_Inr)
  have accepted: "event_row_ok G e \<and> e \<in> set (stored D1) \<and> (\<not> ar_Duplicate r \<longrightarrow> (\<exists>a\<in>set (wd_jobs D1). pa_ResponseID a = we_ResponseID e))"
    using body
  proof (cases rule: accept_body_cases)
    case (fresh inserted)
    have "er_event (event_row_of G e t) = e" using assms(5) by (simp add: event_row_of_def)
    then show ?thesis using fresh(2) enqueue_cases(1,4) [OF fresh(4) assms(1)] by simp
  next
    case (repeated row)
    then show ?thesis by auto
  qed
  have inv1: "webhook_inv D1" by (rule accept_body_inv [OF assms(1) inv body])
  have kept: "webhook_inv D2" "e \<in> received D2" "inserted_jobs D1 \<subseteq> inserted_jobs D2"
    using webhook_steps_grow [OF assms(4,1) inv1] accepted unfolding grows_def by blast+
  have "\<exists>a\<in>inserted_jobs D1. pa_ResponseID a = we_ResponseID e" using inv1 accepted unfolding webhook_inv_def by auto
  then have "\<exists>a\<in>inserted_jobs D2. pa_ResponseID a = we_ResponseID e" using kept(3) by blast
  moreover have "Accept G Q Commits e t2 D2 = (Inr \<lparr>ar_Accepted = True, ar_Duplicate = True\<rparr>, D2)" if "e \<in> set (stored D2)"
    using existing_stored(1,3) [OF kept(1) that, of e] accepted assms(6) by (auto simp: Accept_def run_tx_def accept_body_def)
  moreover have "isl (fst (Accept G Q fate' e' t2 D2)) \<and> snd (Accept G Q fate' e' t2 D2) = D2"
    if "e \<in> set (stored D2)" "e' \<noteq> e" "we_WebhookID e' = we_WebhookID e \<or> we_EventID e' = we_EventID e" for e' fate'
    using existing_stored(1,2) [OF kept(1) that(1,3)] that(2) by (auto simp: Accept_def run_tx_def accept_body_def split: option.split)
  ultimately show ?thesis using kept(1,2) accepted by blast
qed

text \<open>The handler only reaches the store with an authorised JSON request, and answers 202 exactly when the event is stored.\<close>

lemma authorized_iff: "authorized token v \<longleftrightarrow> v = ''Bearer '' @ token"
  by (auto simp: authorized_def trim_prefix_def has_prefix_iff)

lemma ServeHTTP_guarded:
  assumes "ServeHTTP H G Q fate now rq D = ((status, res), D')"
  shows "status = 202 \<longleftrightarrow> res \<noteq> None" "D' \<noteq> D \<Longrightarrow> status = 202 \<and> hr_Method rq = ''POST'' \<and> hr_Authorization rq = ''Bearer '' @ he_token H"
proof -
  have keep: "D2 = D" if "Accept G Q fate e now D = (Inl err, D2)" for e err D2
    using that by (auto simp: Accept_def run_tx_def split: option.split_asm sum.split_asm if_split_asm)
  show "status = 202 \<longleftrightarrow> res \<noteq> None" using assms by (auto simp: ServeHTTP_def split: if_split_asm option.split_asm prod.split_asm sum.split_asm)
  show "D' \<noteq> D \<Longrightarrow> status = 202 \<and> hr_Method rq = ''POST'' \<and> hr_Authorization rq = ''Bearer '' @ he_token H"
    using assms keep by (auto simp: ServeHTTP_def authorized_iff split: if_split_asm option.split_asm prod.split_asm sum.split_asm)
qed

text \<open>
  The poll job leaves the events of a response alone while the response is pending or an attempt failed for the time being, and when it
  is done every one of them that it was asked about is processed.
\<close>

lemma mark_outcome_facts:
  assumes "mark_outcome (MarkProcessed G execOK w i [] now D) = (out, D')"
  shows "out = JobDone \<or> out = JobFailed" "out = JobFailed \<Longrightarrow> D' = D"
    "out = JobDone \<Longrightarrow> \<forall>r\<in>set (wd_events D'). \<not> mark_match w i r"
proof -
  obtain res D2 where m: "MarkProcessed G execOK w i [] now D = (res, D2)" by fastforce
  then have out: "out = (case res of None \<Rightarrow> JobDone | Some err \<Rightarrow> JobFailed)" "D' = D2" using assms by (simp_all add: mark_outcome_def)
  then show "out = JobDone \<or> out = JobFailed" by (cases res) simp_all
  have kept: "D2 = D" if "res = Some msg" for msg using m that by (auto simp: MarkProcessed_def split: if_split_asm)
  show "out = JobFailed \<Longrightarrow> D' = D" using out kept by (cases res) simp_all
  assume "out = JobDone"
  then have "res = None" using out(1) by (cases res) simp_all
  then have events: "wd_events D' = map (\<lambda>r. if mark_match w i r then marked G [] now r else r) (wd_events D)"
    using m out(2) by (auto simp: MarkProcessed_def split: if_split_asm)
  have "\<not> mark_match w i (marked G [] now r)" for r by (simp add: marked_def mark_match_def)
  then show "\<forall>r\<in>set (wd_events D'). \<not> mark_match w i r" unfolding events by auto
qed

lemma poll_Work_marks:
  assumes "poll_Work E cfg message G execOK now a D = (out, D')"
  shows "out = JobSnoozed minute \<and> D' = D \<or> out = JobFailed \<and> D' = D \<or> out = JobCancelled
    \<or> out = JobDone \<and> (\<forall>r\<in>set (wd_events D'). \<not> mark_match (pa_WebhookID a) (pa_ResponseID a) r)"
proof -
  let ?m = "mark_outcome (MarkProcessed G execOK (pa_WebhookID a) (pa_ResponseID a) [] now D)"
  have cases: "out = JobSnoozed minute \<and> D' = D \<or> out = JobFailed \<and> D' = D \<or> out = JobCancelled \<or> ?m = (out, D')"
  proof (cases "fst (research_Poll E cfg \<lparr>po_RunID = pa_RunID a, po_ResponseID = pa_ResponseID a\<rparr>)")
    case (Inl err)
    then show ?thesis using assms unfolding poll_Work_def by (cases "research_Permanent err") simp_all
  next
    case (Inr r)
    then show ?thesis using assms unfolding poll_Work_def by (cases "rz_Pending r \<and> rz_ProviderID r = pa_ResponseID a") (simp_all split: if_split_asm)
  qed
  show ?thesis
  proof (cases "?m = (out, D')")
    case True
    then show ?thesis using mark_outcome_facts [OF True] by metis
  next
    case False
    then show ?thesis using cases by blast
  qed
qed

section \<open>Instances\<close>

definition unique_queue :: "poll_args list \<Rightarrow> poll_args \<Rightarrow> insert_outcome" where
  "unique_queue jobs a = (if list_ex (\<lambda>b. pa_ResponseID b = pa_ResponseID a) jobs then SkippedAsDuplicate else Inserted)"

lemma unique_queue_law: "queue_law unique_queue"
  by (auto simp: queue_law_def unique_queue_def list_ex_iff split: if_split_asm)

definition sample_event :: "string \<Rightarrow> string \<Rightarrow> verified_event" where
  "sample_event w i = \<lparr>we_WebhookID = w, we_EventID = i, we_EventType = ''response.completed'', we_ResponseID = ''resp'', we_EventCreatedAt = 5000000\<rparr>"

definition sample_webhooks :: webhook_db where
  "sample_webhooks = snd (Accept pg_sample unique_queue Commits (sample_event ''w1'' ''e1'') 6000000 no_webhooks)"

theorem webhook_accepted_once_witness:
  "Accept pg_sample unique_queue Commits (sample_event ''w1'' ''e1'') 7000000 sample_webhooks = (Inr \<lparr>ar_Accepted = True, ar_Duplicate = True\<rparr>, sample_webhooks)
   \<and> isl (fst (Accept pg_sample unique_queue Commits (sample_event ''w1'' ''e2'') 7000000 sample_webhooks))"
proof -
  let ?e = "sample_event ''w1'' ''e1''"
  have ok: "\<not> isl (fst (Accept pg_sample unique_queue Commits ?e 6000000 no_webhooks))" "validateEvent ?e 7000000 = None"
    "pg_time pg_sample (we_EventCreatedAt ?e) = we_EventCreatedAt ?e" by code_simp+
  then obtain r where accepted: "Accept pg_sample unique_queue Commits ?e 6000000 no_webhooks = (Inr r, sample_webhooks)"
    by (cases "fst (Accept pg_sample unique_queue Commits ?e 6000000 no_webhooks)") (auto simp: sample_webhooks_def prod_eq_iff)
  have stored: "?e \<in> set (stored sample_webhooks)" by code_simp
  from webhook_accepted_once [OF unique_queue_law rtranclp.rtrancl_refl accepted rtranclp.rtrancl_refl ok(3,2)] stored
  show ?thesis by (auto simp: sample_event_def)
qed

text \<open>
  A second event of a response whose poll job was inserted before, for instance one that has already finished, adds no job: the job's arguments
  are unique in every state of a job. Its row is then processed only if a later job happens to be inserted.
\<close>

lemma second_event_without_job:
  "let D = snd (Accept pg_sample unique_queue Commits (sample_event ''w2'' ''e2'') 7000000 sample_webhooks) in
   length (wd_events D) = 2 \<and> map pa_WebhookID (wd_jobs D) = [''w1'']"
  by code_simp

end
