(* ===== verification/Soak.thy ===== *)
theory Soak
  imports Go_Time
begin

text \<open>
  The staging soak gate (\<open>src/internal/soak/ledger.go\<close>): the ledger, its validation, the evaluation that
  decides whether the soak passed, and the check of the evidence files. The URL parser, the file system
  with its digests and the rounding of a quotient to \<open>float64\<close> are arguments.
\<close>

section \<open>The ledger\<close>

definition MaximumArtifactBytes :: int where "MaximumArtifactBytes = 67108864"
definition MinimumDuration :: duration where "MinimumDuration = 14 * 24 * hour"
definition MaximumObservationGap :: duration where "MaximumObservationGap = 26 * hour"
definition minimumReviewedTopItems :: int where "minimumReviewedTopItems = 10"

datatype outcome = OutcomePass | OutcomeExtend | OutcomeFail | OutcomeInProgress

definition requiredKinds :: "string list" where
  "requiredKinds = [''redeploy_during_backlog'', ''redeploy_digest_window'', ''missed_morning_catchup'', ''database_restore'']"

record artifact =
  art_Reference :: string
  art_SHA256 :: string

record profile =
  Priority0SourcesActive :: bool
  RealReadOnlyAPIsActive :: bool
  LowCapOpenAIProject :: bool
  StagingOnlyDelivery :: bool

record demo_checks =
  Uptime :: bool
  Performance :: bool
  Accessibility :: bool
  Isolation :: bool

record observation =
  obs_ObservedAt :: string
  obs_ReleaseSHA :: string
  FreshnessSLOMet :: bool
  DuplicateAlerts :: int
  UnsupportedMaterialClaims :: int
  QueueHealthy :: bool
  Demo :: demo_checks
  obs_Evidence :: "artifact list"

record exercise =
  ex_Kind :: string
  ex_OccurredAt :: string
  ex_ReleaseSHA :: string
  ex_Provider :: string
  ex_Passed :: bool
  ex_Evidence :: "artifact list"

record owner_review =
  ReviewedTopItems :: int
  UsefulOrAlreadyKnown :: int

record cost =
  ActualCents :: int
  BudgetCents :: int
  HardCapCents :: int

record fatal_finding =
  fat_Kind :: string
  fat_OccurredAt :: string
  fat_Evidence :: "artifact list"

record ledger =
  Version :: int
  Environment :: string
  ProjectID :: string
  led_ReleaseSHA :: string
  StartedAt :: string
  EndedAt :: string
  Profile :: profile
  Observations :: "observation list"
  Exercises :: "exercise list"
  OwnerReview :: owner_review
  Cost :: cost
  NonCriticalSLOMisses :: "string list"
  FatalFindings :: "fatal_finding list"

record soak_report =
  rep_Outcome :: outcome
  rep_DurationHours :: rat
  rep_ObservationCount :: nat
  rep_ExerciseCount :: nat
  rep_ReviewedTopItems :: int
  rep_UsefulnessRate :: rat
  rep_ActualCostCents :: int
  rep_BudgetCents :: int
  rep_Reasons :: "string list"

text \<open>What the code reads of \<open>url.URL\<close>; \<open>IsAbs\<close> is a non-empty scheme.\<close>

record url =
  url_Scheme :: string
  url_Host :: string
  url_HasUser :: bool
  url_RawQuery :: string
  url_Fragment :: string

section \<open>Patterns\<close>

definition is_lower_hex :: "char \<Rightarrow> bool" where
  "is_lower_hex c \<longleftrightarrow> is_digit c \<or> (97 \<le> byte c \<and> byte c \<le> (102 :: nat))"

definition gitSHA :: "string \<Rightarrow> bool" where
  "gitSHA s \<longleftrightarrow> (length s = 40 \<or> length s = 64) \<and> list_all is_lower_hex s"

definition sha256Digest :: "string \<Rightarrow> bool" where
  "sha256Digest s \<longleftrightarrow> length s = 64 \<and> list_all is_lower_hex s"

text \<open>One letter of the template per character: \<open>x\<close> a hexadecimal digit, \<open>v\<close> one of 1 to 5, \<open>n\<close> one of
  8, 9, a and b.\<close>

definition uuid_char :: "char \<Rightarrow> char \<Rightarrow> bool" where
  "uuid_char p c =
     (if p = CHR ''x'' then is_lower_hex c
      else if p = CHR ''v'' then 49 \<le> byte c \<and> byte c \<le> (53 :: nat)
      else if p = CHR ''n'' then c = CHR ''8'' \<or> c = CHR ''9'' \<or> c = CHR ''a'' \<or> c = CHR ''b''
      else c = p)"

definition railwayUUID :: "string \<Rightarrow> bool" where
  "railwayUUID s = list_all2 uuid_char ''xxxxxxxx-xxxx-vxxx-nxxx-xxxxxxxxxxxx'' s"

section \<open>References\<close>

text \<open>\<open>path.Clean\<close>: the segments that stay, innermost first.\<close>

fun clean_segments :: "bool \<Rightarrow> string list \<Rightarrow> string list \<Rightarrow> string list" where
  "clean_segments rooted kept [] = kept"
| "clean_segments rooted kept (s # ss) =
     (if s = [] \<or> s = ''.'' then clean_segments rooted kept ss
      else if s = ''..'' then
        (case kept of
           [] \<Rightarrow> clean_segments rooted (if rooted then [] else [''..'']) ss
         | k # ks \<Rightarrow> if k = ''..'' then clean_segments rooted (''..'' # kept) ss else clean_segments rooted ks ss)
      else clean_segments rooted (s # kept) ss)"

definition path_clean :: "string \<Rightarrow> string" where
  "path_clean p =
     (let rooted = has_prefix p ''/'';
          body = join ''/'' (rev (clean_segments rooted [] (split_byte CHR ''/'' p)))
      in if rooted then CHR ''/'' # body else if body = [] then ''.'' else body)"

definition validReference :: "(string \<Rightarrow> url option) \<Rightarrow> string \<Rightarrow> bool" where
  "validReference url_parse ref =
     (if ref = [] \<or> list_ex (\<lambda>c. c \<in> {CHR 0x0D, CHR 0x0A, CHR 0x09, CHR 0x5C}) ref then False
      else (case url_parse ref of
              None \<Rightarrow> False
            | Some u \<Rightarrow>
                if url_Scheme u \<noteq> []
                then url_Scheme u = ''https'' \<and> url_Host u \<noteq> [] \<and> \<not> url_HasUser u \<and> url_RawQuery u = [] \<and> url_Fragment u = []
                else if url_RawQuery u \<noteq> [] \<or> url_Fragment u \<noteq> [] then False
                else \<not> has_prefix ref ''/'' \<and> path_clean ref = ref \<and> ref \<noteq> ''.'' \<and> \<not> has_prefix ref ''../''))"

section \<open>Validation\<close>

definition parseRequiredTime :: "string \<Rightarrow> string \<Rightarrow> string list \<times> time" where
  "parseRequiredTime name v =
     (case parse_rfc3339 v of
        None \<Rightarrow> ([name @ '' must be RFC3339''], 0)
      | Some t \<Rightarrow> ([], t))"

definition parseOptionalTime :: "string \<Rightarrow> string \<Rightarrow> string list \<times> time option" where
  "parseOptionalTime name v =
     (if v = [] then ([], None)
      else (case parseRequiredTime name v of
              (problems, t) \<Rightarrow> (problems, if is_zero t then None else Some t)))"

fun chronological :: "time list \<Rightarrow> bool" where
  "chronological (s # t # ts) = (s < t \<and> chronological (t # ts))"
| "chronological ts = True"

definition validateChronology :: "string \<Rightarrow> time list \<Rightarrow> string list" where
  "validateChronology name ts = problem (\<not> chronological ts) (name @ '' must be strictly chronological'')"

definition validateEventSHA :: "string \<Rightarrow> string \<Rightarrow> string \<Rightarrow> string list" where
  "validateEventSHA prefix ledgerSHA eventSHA =
     (if \<not> gitSHA eventSHA then [prefix @ ''.releaseSha must be a full lowercase Git SHA'']
      else problem (ledgerSHA \<noteq> [] \<and> eventSHA \<noteq> ledgerSHA) (prefix @ ''.releaseSha does not match the frozen release SHA''))"

definition indexed :: "string \<Rightarrow> nat \<Rightarrow> string" where
  "indexed prefix i = prefix @ ''['' @ nat_digits i @ '']''"

definition validateArtifacts :: "(string \<Rightarrow> url option) \<Rightarrow> string \<Rightarrow> artifact list \<Rightarrow> string list" where
  "validateArtifacts url_parse prefix arts =
     each (\<lambda>i a.
       problem (\<not> validReference url_parse (art_Reference a))
         (indexed prefix i @ ''.reference must be a safe repository-relative path or HTTPS URL'')
       @ problem (\<not> sha256Digest (art_SHA256 a)) (indexed prefix i @ ''.sha256 must be a lowercase SHA-256 digest'')) arts"

definition validExerciseKind :: "string \<Rightarrow> bool" where
  "validExerciseKind k \<longleftrightarrow> k = ''provider_outage'' \<or> k \<in> set requiredKinds"

definition validFatalKind :: "string \<Rightarrow> bool" where
  "validFatalKind k \<longleftrightarrow> k = ''security_boundary_failure'' \<or> k = ''lost_evidence'' \<or> k = ''unbounded_provider_cost''
     \<or> k = ''repeated_critical_miss''"

definition observation_problems :: "(string \<Rightarrow> url option) \<Rightarrow> string \<Rightarrow> nat \<Rightarrow> observation \<Rightarrow> string list" where
  "observation_problems url_parse sha i ob =
     (let prefix = indexed ''observations'' i in
      fst (parseRequiredTime (prefix @ ''.observedAt'') (obs_ObservedAt ob))
      @ validateEventSHA prefix sha (obs_ReleaseSHA ob)
      @ problem (DuplicateAlerts ob < 0 \<or> UnsupportedMaterialClaims ob < 0) (prefix @ '' counts must be non-negative'')
      @ validateArtifacts url_parse (prefix @ ''.evidence'') (obs_Evidence ob))"

definition exercise_problems :: "(string \<Rightarrow> url option) \<Rightarrow> string \<Rightarrow> nat \<Rightarrow> string list \<Rightarrow> exercise \<Rightarrow> string list" where
  "exercise_problems url_parse sha i seen ex =
     (let prefix = indexed ''exercises'' i in
      fst (parseRequiredTime (prefix @ ''.occurredAt'') (ex_OccurredAt ex))
      @ validateEventSHA prefix sha (ex_ReleaseSHA ex)
      @ problem (\<not> validExerciseKind (ex_Kind ex)) (prefix @ ''.kind is unsupported'')
      @ problem (ex_Kind ex = ''provider_outage'' \<and> trim_space (ex_Provider ex) = []) (prefix @ ''.provider is required for provider_outage'')
      @ problem (ex_Kind ex \<noteq> ''provider_outage'' \<and> ex_Provider ex \<noteq> []) (prefix @ ''.provider is only valid for provider_outage'')
      @ problem (ex_Kind ex \<in> set seen \<and> ex_Kind ex \<noteq> ''provider_outage'') (prefix @ ''.kind is duplicated'')
      @ validateArtifacts url_parse (prefix @ ''.evidence'') (ex_Evidence ex))"

fun exercises_loop :: "(string \<Rightarrow> url option) \<Rightarrow> string \<Rightarrow> nat \<Rightarrow> string list \<Rightarrow> exercise list \<Rightarrow> string list" where
  "exercises_loop url_parse sha i seen [] = []"
| "exercises_loop url_parse sha i seen (ex # exs) =
     exercise_problems url_parse sha i seen ex @ exercises_loop url_parse sha (Suc i) (ex_Kind ex # seen) exs"

definition finding_problems :: "(string \<Rightarrow> url option) \<Rightarrow> nat \<Rightarrow> fatal_finding \<Rightarrow> string list" where
  "finding_problems url_parse i f =
     (let prefix = indexed ''fatalFindings'' i in
      fst (parseRequiredTime (prefix @ ''.occurredAt'') (fat_OccurredAt f))
      @ problem (\<not> validFatalKind (fat_Kind f)) (prefix @ ''.kind is unsupported'')
      @ validateArtifacts url_parse (prefix @ ''.evidence'') (fat_Evidence f))"

definition event_times :: "('a \<Rightarrow> string) \<Rightarrow> 'a list \<Rightarrow> time list" where
  "event_times field xs = map (\<lambda>x. snd (parseRequiredTime [] (field x))) xs"

record soak_times =
  t_StartedAt :: "time option"
  t_EndedAt :: "time option"
  t_Observations :: "time list"
  t_Exercises :: "time list"
  t_Findings :: "time list"

definition ledger_times :: "ledger \<Rightarrow> soak_times" where
  "ledger_times L =
     \<lparr>t_StartedAt = snd (parseOptionalTime ''startedAt'' (StartedAt L)),
      t_EndedAt = snd (parseOptionalTime ''endedAt'' (EndedAt L)),
      t_Observations = event_times obs_ObservedAt (Observations L),
      t_Exercises = event_times ex_OccurredAt (Exercises L),
      t_Findings = event_times fat_OccurredAt (FatalFindings L)\<rparr>"

definition header_problems :: "ledger \<Rightarrow> string list" where
  "header_problems L =
     problem (Version L \<noteq> 1) ''version must be 1''
     @ problem (Environment L \<noteq> ''staging'') ''environment must be staging''
     @ problem (ProjectID L \<noteq> [] \<and> \<not> railwayUUID (ProjectID L)) ''projectId must be a lowercase Railway UUID''
     @ problem (led_ReleaseSHA L \<noteq> [] \<and> \<not> gitSHA (led_ReleaseSHA L)) ''releaseSha must be a full lowercase Git SHA''
     @ fst (parseOptionalTime ''startedAt'' (StartedAt L))
     @ fst (parseOptionalTime ''endedAt'' (EndedAt L))
     @ (case (t_StartedAt (ledger_times L), t_EndedAt (ledger_times L)) of
          (None, Some _) \<Rightarrow> [''endedAt requires startedAt'']
        | (Some s, Some e) \<Rightarrow> problem (\<not> s < e) ''endedAt must be after startedAt''
        | _ \<Rightarrow> [])"

definition review_problems :: "ledger \<Rightarrow> string list" where
  "review_problems L =
     problem (ReviewedTopItems (OwnerReview L) < 0 \<or> UsefulOrAlreadyKnown (OwnerReview L) < 0) ''ownerReview counts must be non-negative''
     @ problem (UsefulOrAlreadyKnown (OwnerReview L) > ReviewedTopItems (OwnerReview L)) ''ownerReview useful count cannot exceed reviewed count''
     @ problem (ActualCents (Cost L) < 0 \<or> BudgetCents (Cost L) < 0 \<or> HardCapCents (Cost L) < 0) ''cost values must be non-negative integer cents''
     @ problem (HardCapCents (Cost L) > 0 \<and> BudgetCents (Cost L) > HardCapCents (Cost L)) ''cost budget cannot exceed the hard cap''
     @ each (\<lambda>i miss. problem (trim_space miss = []) (indexed ''nonCriticalSloMisses'' i @ '' must not be empty'')) (NonCriticalSLOMisses L)"

definition ledger_problems :: "(string \<Rightarrow> url option) \<Rightarrow> ledger \<Rightarrow> string list" where
  "ledger_problems url_parse L =
     header_problems L
     @ each (observation_problems url_parse (led_ReleaseSHA L)) (Observations L)
     @ validateChronology ''observations'' (t_Observations (ledger_times L))
     @ exercises_loop url_parse (led_ReleaseSHA L) 0 [] (Exercises L)
     @ validateChronology ''exercises'' (t_Exercises (ledger_times L))
     @ each (finding_problems url_parse) (FatalFindings L)
     @ validateChronology ''fatalFindings'' (t_Findings (ledger_times L))
     @ review_problems L"

definition validate :: "(string \<Rightarrow> url option) \<Rightarrow> ledger \<Rightarrow> string + soak_times" where
  "validate url_parse L =
     (if ledger_problems url_parse L \<noteq> [] then Inl (join ''; '' (ledger_problems url_parse L)) else Inr (ledger_times L))"

section \<open>Evaluation\<close>

fun has_gap :: "time list \<Rightarrow> bool" where
  "has_gap (s # t # ts) = (time_sub t s > MaximumObservationGap \<or> has_gap (t # ts))"
| "has_gap ts = False"

definition outside_window :: "time \<Rightarrow> time \<Rightarrow> string \<Rightarrow> time list \<Rightarrow> string list" where
  "outside_window s e name ts = concat (map (\<lambda>t. problem (t < s \<or> t > e) (name @ '' falls outside the soak window'')) ts)"

definition validateEvidenceWindow :: "time \<Rightarrow> time \<Rightarrow> time list \<Rightarrow> time list \<Rightarrow> time list \<Rightarrow> string list" where
  "validateEvidenceWindow s e obs exs fs =
     outside_window s e ''observation'' obs @ outside_window s e ''exercise'' exs @ outside_window s e ''fatal finding'' fs
     @ (if obs = [] then []
        else problem (time_sub (hd obs) s > MaximumObservationGap) ''first observation is more than 26 hours after soak start''
          @ problem (has_gap obs) ''observation continuity has a gap greater than 26 hours''
          @ problem (time_sub e (last obs) > MaximumObservationGap) ''last observation is more than 26 hours before soak end'')"

definition window_reasons :: "soak_times \<Rightarrow> time \<Rightarrow> string list" where
  "window_reasons T now =
     (case t_StartedAt T of
        None \<Rightarrow> []
      | Some s \<Rightarrow>
          problem (s > now) ''soak start time is in the future''
          @ (case t_EndedAt T of
               None \<Rightarrow> []
             | Some e \<Rightarrow> problem (e > now) ''soak end time is in the future'')
          @ (let e = (case t_EndedAt T of None \<Rightarrow> now | Some e \<Rightarrow> e) in
             problem (time_sub e s < MinimumDuration) ''minimum 336-hour soak duration has not elapsed''
             @ validateEvidenceWindow s e (t_Observations T) (t_Exercises T) (t_Findings T)))"

definition profile_reasons :: "profile \<Rightarrow> string list" where
  "profile_reasons p =
     problem (\<not> Priority0SourcesActive p) ''Priority 0 sources are not confirmed active''
     @ problem (\<not> RealReadOnlyAPIsActive p) ''real read-only APIs are not confirmed active''
     @ problem (\<not> LowCapOpenAIProject p) ''low-cap staging OpenAI project is not confirmed''
     @ problem (\<not> StagingOnlyDelivery p) ''staging-only delivery isolation is not confirmed''"

definition observation_reasons :: "nat \<Rightarrow> observation \<Rightarrow> string list" where
  "observation_reasons i ob =
     (let prefix = ''observation '' @ nat_digits (i + 1) in
      problem (\<not> FreshnessSLOMet ob) (prefix @ '' missed the freshness SLO'')
      @ problem (DuplicateAlerts ob > 0) (prefix @ '' recorded duplicate alerts'')
      @ problem (UnsupportedMaterialClaims ob > 0) (prefix @ '' recorded unsupported material claims'')
      @ problem (\<not> QueueHealthy ob) (prefix @ '' did not have a healthy recovered queue'')
      @ problem (\<not> Uptime (Demo ob) \<or> \<not> Performance (Demo ob) \<or> \<not> Accessibility (Demo ob) \<or> \<not> Isolation (Demo ob))
          (prefix @ '' did not pass all anonymous demo checks'')
      @ problem (obs_Evidence ob = []) (prefix @ '' has no durable evidence''))"

definition exercise_reasons :: "nat \<Rightarrow> exercise \<Rightarrow> string list" where
  "exercise_reasons i ex =
     problem (\<not> ex_Passed ex) (''exercise '' @ nat_digits (i + 1) @ '' did not pass'')
     @ problem (ex_Evidence ex = []) (''exercise '' @ nat_digits (i + 1) @ '' has no durable evidence'')"

definition outage_count :: "exercise list \<Rightarrow> nat" where
  "outage_count exs = length (filter (\<lambda>ex. ex_Kind ex = ''provider_outage'') exs)"

definition missing_kinds :: "exercise list \<Rightarrow> string list" where
  "missing_kinds exs =
     concat (map (\<lambda>k. problem (\<not> list_ex (\<lambda>ex. ex_Kind ex = k) exs) (''required '' @ k @ '' exercise is missing'')) requiredKinds)"

definition review_reasons :: "owner_review \<Rightarrow> string list" where
  "review_reasons r =
     (if ReviewedTopItems r < minimumReviewedTopItems then [''owner review has fewer than 10 top items'']
      else problem (wrap64 (UsefulOrAlreadyKnown r * 5) < wrap64 (ReviewedTopItems r * 4)) ''owner usefulness rate is below 80 percent'')"

definition cost_reasons :: "cost \<Rightarrow> string list" where
  "cost_reasons c =
     (if BudgetCents c \<le> 0 then [''cost budget is not configured'']
      else problem (ActualCents c > BudgetCents c) ''provider cost exceeded the reviewed budget'')
     @ (if HardCapCents c \<le> 0 then [''provider hard cap is not configured'']
        else problem (ActualCents c > HardCapCents c) ''provider cost exceeded the hard cap'')"

definition evaluateReasons :: "ledger \<Rightarrow> soak_times \<Rightarrow> time \<Rightarrow> string list" where
  "evaluateReasons L T now =
     problem (ProjectID L = []) ''Railway staging project ID is missing''
     @ problem (led_ReleaseSHA L = []) ''frozen release SHA is missing''
     @ problem (t_StartedAt T = None) ''soak start time is missing''
     @ problem (t_EndedAt T = None) ''soak has not been concluded''
     @ window_reasons T now
     @ profile_reasons (Profile L)
     @ problem (length (Observations L) < 14) ''at least 14 daily observations are required''
     @ each observation_reasons (Observations L)
     @ each exercise_reasons (Exercises L)
     @ problem (outage_count (Exercises L) < 2) ''at least two provider outage exercises are required''
     @ missing_kinds (Exercises L)
     @ review_reasons (OwnerReview L)
     @ cost_reasons (Cost L)
     @ map (\<lambda>miss. ''non-critical SLO miss: '' @ miss) (NonCriticalSLOMisses L)
     @ map (\<lambda>f. ''fatal staging finding: '' @ fat_Kind f) (FatalFindings L)
     @ each (\<lambda>i f. problem (fat_Evidence f = []) (''fatal finding '' @ nat_digits (i + 1) @ '' has no durable evidence'')) (FatalFindings L)"

definition soak_outcome :: "ledger \<Rightarrow> soak_times \<Rightarrow> string list \<Rightarrow> outcome" where
  "soak_outcome L T reasons =
     (if FatalFindings L \<noteq> [] \<or> (HardCapCents (Cost L) > 0 \<and> ActualCents (Cost L) > HardCapCents (Cost L)) then OutcomeFail
      else if t_EndedAt T \<noteq> None then (if reasons \<noteq> [] then OutcomeExtend else OutcomePass)
      else OutcomeInProgress)"

text \<open>\<open>duration.Hours()\<close> adds the whole hours and the rounded fraction.\<close>

definition duration_hours :: "(rat \<Rightarrow> rat) \<Rightarrow> duration \<Rightarrow> rat" where
  "duration_hours round64 d = round64 (of_int (d div hour) + round64 (of_int (d mod hour) / of_int hour))"

definition soak_duration :: "soak_times \<Rightarrow> time \<Rightarrow> duration" where
  "soak_duration T now =
     (let e = (case t_EndedAt T of None \<Rightarrow> now | Some e \<Rightarrow> e) in
      case t_StartedAt T of None \<Rightarrow> 0 | Some s \<Rightarrow> if s < e then time_sub e s else 0)"

definition Evaluate :: "(rat \<Rightarrow> rat) \<Rightarrow> (string \<Rightarrow> url option) \<Rightarrow> ledger \<Rightarrow> time \<Rightarrow> string + soak_report" where
  "Evaluate round64 url_parse L now =
     and_then (validate url_parse L) (\<lambda>T.
       let reasons = evaluateReasons L T now;
           r = OwnerReview L in
       Inr \<lparr>rep_Outcome = soak_outcome L T reasons,
            rep_DurationHours = duration_hours round64 (soak_duration T now),
            rep_ObservationCount = length (Observations L),
            rep_ExerciseCount = length (Exercises L),
            rep_ReviewedTopItems = ReviewedTopItems r,
            rep_UsefulnessRate =
              (if ReviewedTopItems r > 0
               then round64 (round64 (of_int (UsefulOrAlreadyKnown r)) / round64 (of_int (ReviewedTopItems r))) else 0),
            rep_ActualCostCents = ActualCents (Cost L),
            rep_BudgetCents = BudgetCents (Cost L),
            rep_Reasons = reasons\<rparr>)"

section \<open>The evidence files\<close>

definition ledgerArtifacts :: "ledger \<Rightarrow> (string \<times> artifact) list" where
  "ledgerArtifacts L =
     each (\<lambda>i ob. each (\<lambda>j a. [(indexed (indexed ''observations'' i @ ''.evidence'') j, a)]) (obs_Evidence ob)) (Observations L)
     @ each (\<lambda>i ex. each (\<lambda>j a. [(indexed (indexed ''exercises'' i @ ''.evidence'') j, a)]) (ex_Evidence ex)) (Exercises L)
     @ each (\<lambda>i f. each (\<lambda>j a. [(indexed (indexed ''fatalFindings'' i @ ''.evidence'') j, a)]) (fat_Evidence f)) (FatalFindings L)"

text \<open>
  The file system as the code sees it: absolute paths, symbolic links, relative paths, the kind and
  size of a file, opening it, what copying it into the hasher reads (a limit is passed), closing it.
\<close>

record file_info =
  IsRegular :: bool
  FileSize :: int

record file_system =
  fs_Abs :: "string \<Rightarrow> string option"
  fs_EvalSymlinks :: "string \<Rightarrow> string option"
  fs_Rel :: "string \<Rightarrow> string \<Rightarrow> string option"
  fs_Stat :: "string \<Rightarrow> file_info option"
  fs_Open :: "string \<Rightarrow> bool"
  fs_Read :: "int \<Rightarrow> string \<Rightarrow> string option"
  fs_Close :: "string \<Rightarrow> bool"
  fs_SHA256Hex :: "string \<Rightarrow> string"

definition filepath_join :: "string \<Rightarrow> string \<Rightarrow> string" where
  "filepath_join base ref = (if base = [] then path_clean ref else path_clean (base @ ''/'' @ ref))"

definition escapes :: "string \<Rightarrow> bool" where
  "escapes rel \<longleftrightarrow> rel = ''..'' \<or> has_prefix rel ''../''"

definition verify_resolved :: "file_system \<Rightarrow> string \<Rightarrow> string \<Rightarrow> artifact \<Rightarrow> string option" where
  "verify_resolved F name resolved a =
     (case fs_Stat F resolved of
        None \<Rightarrow> Some (''stat '' @ name)
      | Some info \<Rightarrow>
          if \<not> IsRegular info \<or> FileSize info > MaximumArtifactBytes
          then Some (name @ '' must be a regular file no larger than 67108864 bytes'')
          else if \<not> fs_Open F resolved then Some (''open '' @ name)
          else (case fs_Read F (MaximumArtifactBytes + 1) resolved of
                  None \<Rightarrow> Some (''hash '' @ name)
                | Some content \<Rightarrow>
                    if \<not> fs_Close F resolved then Some (''close '' @ name)
                    else if int (length content) > MaximumArtifactBytes then Some (name @ '' exceeds 67108864 bytes'')
                    else if fs_SHA256Hex F content \<noteq> art_SHA256 a then Some (name @ '' SHA-256 mismatch'')
                    else None))"

definition verify_artifact :: "(string \<Rightarrow> url option) \<Rightarrow> file_system \<Rightarrow> string \<Rightarrow> string \<times> artifact \<Rightarrow> string option" where
  "verify_artifact url_parse F base na =
     (case na of (name, a) \<Rightarrow>
        if \<not> validReference url_parse (art_Reference a) then Some (name @ '' has an invalid evidence reference'')
        else (case url_parse (art_Reference a) of
                None \<Rightarrow> Some (''parse '' @ name @ '' reference'')
              | Some u \<Rightarrow>
                  if url_Scheme u \<noteq> [] then None
                  else (case fs_EvalSymlinks F (filepath_join base (art_Reference a)) of
                          None \<Rightarrow> Some (''resolve '' @ name)
                        | Some resolved \<Rightarrow>
                            (case fs_Rel F base resolved of
                               None \<Rightarrow> Some (name @ '' resolves outside the evidence root'')
                             | Some rel \<Rightarrow>
                                 if escapes rel then Some (name @ '' resolves outside the evidence root'')
                                 else verify_resolved F name resolved a))))"

definition VerifyLocalArtifacts :: "(string \<Rightarrow> url option) \<Rightarrow> file_system \<Rightarrow> ledger \<Rightarrow> string \<Rightarrow> string option" where
  "VerifyLocalArtifacts url_parse F L repositoryRoot =
     (case fs_Abs F repositoryRoot of
        None \<Rightarrow> Some ''resolve evidence root''
      | Some abs_root \<Rightarrow>
          (case fs_EvalSymlinks F abs_root of
             None \<Rightarrow> Some ''resolve evidence root symlinks''
           | Some base \<Rightarrow> first_error (verify_artifact url_parse F base) (ledgerArtifacts L)))"

section \<open>What a pass means\<close>

definition gap_ok :: "time \<Rightarrow> time \<Rightarrow> bool" where
  "gap_ok a b \<longleftrightarrow> b - a \<le> 26 * hour"

text \<open>The window of a passed soak: concluded, at least fourteen days, all events inside it, and no gap of more
  than 26 hours between its start, the observations and its end.\<close>

definition window_ok :: "soak_times \<Rightarrow> time \<Rightarrow> bool" where
  "window_ok T now \<longleftrightarrow>
     (case (t_StartedAt T, t_EndedAt T) of
        (Some s, Some e) \<Rightarrow>
          s \<le> now \<and> e \<le> now \<and> s + 14 * 24 * hour \<le> e
          \<and> list_all (\<lambda>t. s \<le> t \<and> t \<le> e) (t_Observations T @ t_Exercises T @ t_Findings T)
          \<and> successively gap_ok (s # t_Observations T @ [e])
      | _ \<Rightarrow> False)"

definition clean_observation :: "observation \<Rightarrow> bool" where
  "clean_observation ob \<longleftrightarrow>
     FreshnessSLOMet ob \<and> DuplicateAlerts ob \<le> 0 \<and> UnsupportedMaterialClaims ob \<le> 0 \<and> QueueHealthy ob
     \<and> Uptime (Demo ob) \<and> Performance (Demo ob) \<and> Accessibility (Demo ob) \<and> Isolation (Demo ob) \<and> obs_Evidence ob \<noteq> []"

definition exercises_ok :: "exercise list \<Rightarrow> bool" where
  "exercises_ok exs \<longleftrightarrow>
     list_all (\<lambda>ex. ex_Passed ex \<and> ex_Evidence ex \<noteq> []) exs
     \<and> 2 \<le> outage_count exs \<and> list_all (\<lambda>k. \<exists>ex\<in>set exs. ex_Kind ex = k) requiredKinds"

definition soak_gate :: "ledger \<Rightarrow> time \<Rightarrow> bool" where
  "soak_gate L now \<longleftrightarrow>
     ProjectID L \<noteq> [] \<and> led_ReleaseSHA L \<noteq> [] \<and> window_ok (ledger_times L) now
     \<and> Priority0SourcesActive (Profile L) \<and> RealReadOnlyAPIsActive (Profile L)
     \<and> LowCapOpenAIProject (Profile L) \<and> StagingOnlyDelivery (Profile L)
     \<and> 14 \<le> length (Observations L) \<and> list_all clean_observation (Observations L)
     \<and> exercises_ok (Exercises L)
     \<and> 10 \<le> ReviewedTopItems (OwnerReview L)
     \<and> 4 * ReviewedTopItems (OwnerReview L) \<le> 5 * UsefulOrAlreadyKnown (OwnerReview L)
     \<and> 0 < BudgetCents (Cost L) \<and> 0 < HardCapCents (Cost L)
     \<and> ActualCents (Cost L) \<le> BudgetCents (Cost L) \<and> ActualCents (Cost L) \<le> HardCapCents (Cost L)
     \<and> NonCriticalSLOMisses L = [] \<and> FatalFindings L = []"

lemma gap_iff: "\<not> time_sub b a > MaximumObservationGap \<longleftrightarrow> gap_ok a b"
  using time_sub_le_iff [of MaximumObservationGap b a]
  by (simp add: MaximumObservationGap_def gap_ok_def max_int64_def not_less)

lemma has_gap_iff: "\<not> has_gap ts \<longleftrightarrow> successively gap_ok ts"
  by (induction ts rule: has_gap.induct) (auto simp: gap_iff [symmetric])

lemma duration_iff: "MinimumDuration \<le> time_sub e s \<longleftrightarrow> s + 14 * 24 * hour \<le> e"
  using time_sub_less_iff [of MinimumDuration e s]
  by (simp add: MinimumDuration_def max_int64_def) linarith

lemma outside_window_Nil: "outside_window s e name ts = [] \<longleftrightarrow> list_all (\<lambda>t. s \<le> t \<and> t \<le> e) ts"
  by (auto simp: outside_window_def go_result list_all_iff not_less)

lemma validateEvidenceWindow_Nil:
  "obs \<noteq> [] \<Longrightarrow> validateEvidenceWindow s e obs exs fs = [] \<longleftrightarrow>
     list_all (\<lambda>t. s \<le> t \<and> t \<le> e) (obs @ exs @ fs) \<and> successively gap_ok (s # obs @ [e])"
  by (auto simp: validateEvidenceWindow_def outside_window_Nil go_result gap_iff has_gap_iff
      successively_Cons successively_append_iff hd_append)

lemma window_reasons_Nil:
  assumes "t_Observations T \<noteq> []"
  shows "t_StartedAt T \<noteq> None \<and> t_EndedAt T \<noteq> None \<and> window_reasons T now = [] \<longleftrightarrow> window_ok T now"
  by (cases "t_StartedAt T"; cases "t_EndedAt T")
    (auto simp: window_reasons_def window_ok_def Let_def go_result validateEvidenceWindow_Nil [OF assms] not_less duration_iff)

lemma review_reasons_Nil:
  assumes "0 \<le> UsefulOrAlreadyKnown r" "UsefulOrAlreadyKnown r \<le> ReviewedTopItems r" "ReviewedTopItems r < 2 ^ 60"
  shows "review_reasons r = [] \<longleftrightarrow> 10 \<le> ReviewedTopItems r \<and> 4 * ReviewedTopItems r \<le> 5 * UsefulOrAlreadyKnown r"
proof -
  have "wrap64 (UsefulOrAlreadyKnown r * 5) = UsefulOrAlreadyKnown r * 5" "wrap64 (ReviewedTopItems r * 4) = ReviewedTopItems r * 4"
    using assms by (auto intro!: wrap64_id simp: int64_range_def)
  then show ?thesis by (auto simp: review_reasons_def minimumReviewedTopItems_def go_result)
qed

lemma cost_reasons_Nil:
  "cost_reasons c = [] \<longleftrightarrow> 0 < BudgetCents c \<and> 0 < HardCapCents c \<and> ActualCents c \<le> BudgetCents c \<and> ActualCents c \<le> HardCapCents c"
  by (auto simp: cost_reasons_def go_result)

lemma observation_reasons_Nil: "observation_reasons i ob = [] \<longleftrightarrow> clean_observation ob"
  by (auto simp: observation_reasons_def clean_observation_def Let_def go_result not_less)

lemma exercise_reasons_Nil: "exercise_reasons i ex = [] \<longleftrightarrow> ex_Passed ex \<and> ex_Evidence ex \<noteq> []"
  by (auto simp: exercise_reasons_def go_result)

lemma missing_kinds_Nil: "missing_kinds exs = [] \<longleftrightarrow> list_all (\<lambda>k. \<exists>ex\<in>set exs. ex_Kind ex = k) requiredKinds"
  by (auto simp: missing_kinds_def go_result list_all_iff list_ex_iff)

lemma event_times_Nil [simp]: "event_times field xs = [] \<longleftrightarrow> xs = []"
  by (simp add: event_times_def)

lemma evaluateReasons_Nil:
  assumes "0 \<le> UsefulOrAlreadyKnown (OwnerReview L)" "UsefulOrAlreadyKnown (OwnerReview L) \<le> ReviewedTopItems (OwnerReview L)"
    "ReviewedTopItems (OwnerReview L) < 2 ^ 60" and T: "T = ledger_times L"
  shows "t_EndedAt T \<noteq> None \<and> evaluateReasons L T now = [] \<longleftrightarrow> soak_gate L now"
proof (cases "14 \<le> length (Observations L)")
  case True
  then have "t_Observations T \<noteq> []" by (auto simp: T ledger_times_def)
  note window = window_reasons_Nil [OF this, of now, symmetric]
  have "evaluateReasons L T now = [] \<longleftrightarrow>
     ProjectID L \<noteq> [] \<and> led_ReleaseSHA L \<noteq> [] \<and> (t_StartedAt T \<noteq> None \<and> t_EndedAt T \<noteq> None \<and> window_reasons T now = [])
     \<and> profile_reasons (Profile L) = [] \<and> 14 \<le> length (Observations L) \<and> (\<forall>ob\<in>set (Observations L). clean_observation ob)
     \<and> (\<forall>ex\<in>set (Exercises L). ex_Passed ex \<and> ex_Evidence ex \<noteq> []) \<and> 2 \<le> outage_count (Exercises L)
     \<and> missing_kinds (Exercises L) = [] \<and> review_reasons (OwnerReview L) = [] \<and> cost_reasons (Cost L) = []
     \<and> NonCriticalSLOMisses L = [] \<and> FatalFindings L = []"
    unfolding evaluateReasons_def append_is_Nil_conv map_is_Nil_conv problem_Nil_iff
      each_from_Nil_iff [of _ clean_observation, OF observation_reasons_Nil]
      each_from_Nil_iff [of _ "\<lambda>ex. ex_Passed ex \<and> ex_Evidence ex \<noteq> []", OF exercise_reasons_Nil]
    by (auto simp: not_less)
  then show ?thesis
    unfolding soak_gate_def exercises_ok_def T [symmetric] window review_reasons_Nil [OF assms(1-3)] cost_reasons_Nil
      missing_kinds_Nil list_all_iff
    by (auto simp: profile_reasons_def go_result window [symmetric])
next
  case False
  then show ?thesis by (auto simp: evaluateReasons_def soak_gate_def go_result)
qed

lemma review_problems_Nil:
  "review_problems L = [] \<Longrightarrow> 0 \<le> UsefulOrAlreadyKnown (OwnerReview L) \<and> UsefulOrAlreadyKnown (OwnerReview L) \<le> ReviewedTopItems (OwnerReview L)"
  by (auto simp: review_problems_def go_result)

lemma Evaluate_Inr:
  "Evaluate round64 url_parse L now = Inr r \<Longrightarrow> ledger_problems url_parse L = []
     \<and> rep_Outcome r = soak_outcome L (ledger_times L) (evaluateReasons L (ledger_times L) now)"
  by (auto simp: Evaluate_def validate_def Let_def split: if_splits)

lemma pass_gate:
  assumes "Evaluate round64 url_parse L now = Inr r" "ReviewedTopItems (OwnerReview L) < 2 ^ 60"
  shows "rep_Outcome r = OutcomePass \<longleftrightarrow> soak_gate L now"
proof -
  note E = Evaluate_Inr [OF assms(1)]
  then have "review_problems L = []" by (simp add: ledger_problems_def)
  note gate = evaluateReasons_Nil [OF _ _ assms(2) refl, of now] review_problems_Nil [OF this]
  have "soak_gate L now \<Longrightarrow> FatalFindings L = [] \<and> \<not> (HardCapCents (Cost L) > 0 \<and> ActualCents (Cost L) > HardCapCents (Cost L))"
    by (simp add: soak_gate_def)
  then show ?thesis using E gate by (auto simp: soak_outcome_def)
qed

text \<open>
  C11. The soak passes exactly when the gate holds: the soak is concluded, not in the future and at
  least 336 hours long; there are at least fourteen observations, each without a missed freshness
  objective, duplicate alert, unsupported claim, unhealthy queue or failed demo check and each with
  evidence; all events lie in the window with no gap above 26 hours; every required exercise was done,
  two provider outages among them, all passed and with evidence; at least ten items were reviewed and
  four fifths found useful; the cost is within the budget and the cap; and nothing was missed or fatal.
  The number of reviewed items is below 2^60, where the products the code compares do not wrap.
\<close>

theorem Evaluate_pass_iff:
  assumes "Evaluate round64 url_parse L now = Inr r" and "ReviewedTopItems (OwnerReview L) < 2 ^ 60"
  shows "(rep_Outcome r = OutcomePass \<longleftrightarrow> soak_gate L now)
    \<and> (rep_Outcome r = OutcomeFail \<longleftrightarrow> FatalFindings L \<noteq> [] \<or> (0 < HardCapCents (Cost L) \<and> HardCapCents (Cost L) < ActualCents (Cost L)))
    \<and> (rep_Outcome r = OutcomeInProgress \<longrightarrow> t_EndedAt (ledger_times L) = None)"
  using pass_gate [OF assms] Evaluate_Inr [OF assms(1)] by (auto simp: soak_outcome_def)


section \<open>Coverage and evidence of a passed soak\<close>

lemma successively_gap_cover:
  "successively gap_ok (s # ts) \<Longrightarrow> s \<le> t \<Longrightarrow> t \<le> last (s # ts) \<Longrightarrow> \<exists>p\<in>set (s # ts). p \<le> t \<and> t \<le> p + 26 * hour"
proof (induction ts arbitrary: s)
  case Nil
  then show ?case by auto
next
  case (Cons a ts)
  show ?case
  proof (cases "t < a")
    case True
    then show ?thesis using Cons.prems by (auto simp: gap_ok_def)
  next
    case False
    then show ?thesis using Cons.IH [of a] Cons.prems by auto
  qed
qed

lemma snd_event_time: "snd (parseRequiredTime name v) = snd (parseRequiredTime [] v)"
  by (simp add: parseRequiredTime_def split: option.split)

lemma obs_times: "t_Observations (ledger_times L) = map (\<lambda>ob. snd (parseRequiredTime [] (obs_ObservedAt ob))) (Observations L)"
  by (simp add: ledger_times_def event_times_def)

text \<open>
  A passed soak was watched throughout: at every instant of its window the soak had just started,
  or an observation had been made at most 26 hours earlier, and every observation was clean.
\<close>

lemma pass_watched:
  assumes "Evaluate round64 url_parse L now = Inr r" and "ReviewedTopItems (OwnerReview L) < 2 ^ 60"
    and "rep_Outcome r = OutcomePass"
  shows "\<exists>s e. t_StartedAt (ledger_times L) = Some s \<and> t_EndedAt (ledger_times L) = Some e \<and> e \<le> now \<and> s + 336 * hour \<le> e
    \<and> (\<forall>t. s \<le> t \<and> t \<le> e \<longrightarrow> t \<le> s + 26 * hour
          \<or> (\<exists>ob\<in>set (Observations L). \<exists>p. parse_rfc3339 (obs_ObservedAt ob) = Some p \<and> p \<le> t \<and> t \<le> p + 26 * hour
                \<and> clean_observation ob))"
proof -
  have gate: "soak_gate L now" using pass_gate [OF assms(1,2)] assms(3) by simp
  let ?T = "ledger_times L"
  obtain s e where w: "t_StartedAt ?T = Some s" "t_EndedAt ?T = Some e" "e \<le> now" "s + 14 * 24 * hour \<le> e"
    "successively gap_ok (s # t_Observations ?T @ [e])" and clean: "list_all clean_observation (Observations L)"
    using gate by (auto simp: soak_gate_def window_ok_def split: option.splits)
  have parsed: "\<exists>p. parse_rfc3339 (obs_ObservedAt ob) = Some p" if "ob \<in> set (Observations L)" for ob
  proof -
    have ok: "each (observation_problems url_parse (led_ReleaseSHA L)) (Observations L) = []"
      using Evaluate_Inr [OF assms(1)] by (simp add: ledger_problems_def)
    have "observation_problems url_parse (led_ReleaseSHA L) i ob = [] \<Longrightarrow> ?thesis" for i
      by (auto simp: observation_problems_def parseRequiredTime_def Let_def split: option.splits)
    moreover have "\<exists>i. observation_problems url_parse (led_ReleaseSHA L) i ob = []"
      using each_from_NilD [OF ok that] .
    ultimately show ?thesis by blast
  qed
  have covered: "t \<le> s + 26 * hour \<or> (\<exists>ob\<in>set (Observations L). \<exists>p. parse_rfc3339 (obs_ObservedAt ob) = Some p \<and> p \<le> t
      \<and> t \<le> p + 26 * hour \<and> clean_observation ob)" if le: "s \<le> t" "t \<le> e" for t
  proof -
    obtain p where p: "p \<in> set (s # t_Observations ?T @ [e])" "p \<le> t" "t \<le> p + 26 * hour"
      using successively_gap_cover [OF w(5) le(1)] le(2) last_append [of "s # t_Observations ?T" "[e]"]
      by (metis append_Cons last.simps list.simps(3))
    have "p = e \<Longrightarrow> t = e" using p(2) le(2) by simp
    moreover have "\<exists>q\<in>set (s # t_Observations ?T). q \<le> e \<and> e \<le> q + 26 * hour"
    proof -
      have "successively gap_ok (s # t_Observations ?T)" "gap_ok (last (s # t_Observations ?T)) e"
        using w(5) successively_append_iff [of gap_ok "s # t_Observations ?T" "[e]"] by simp_all
      moreover have "last (s # t_Observations ?T) \<in> set (s # t_Observations ?T)" by (rule last_in_set) simp
      ultimately show ?thesis using gate w(1,2)
        by (intro bexI [of _ "last (s # t_Observations ?T)"])
          (auto simp: gap_ok_def soak_gate_def window_ok_def list_all_iff split: if_splits)
    qed
    ultimately obtain q where q: "q \<in> set (s # t_Observations ?T)" "q \<le> t" "t \<le> q + 26 * hour"
      using p by auto
    then show ?thesis
    proof (cases "q = s")
      case False
      then obtain ob where ob: "ob \<in> set (Observations L)" "q = snd (parseRequiredTime [] (obs_ObservedAt ob))"
        using q(1) by (auto simp: obs_times)
      then show ?thesis using q parsed [OF ob(1)] clean by (fastforce simp: parseRequiredTime_def list_all_iff)
    qed simp
  qed
  then show ?thesis using w(1-4) by auto
qed

section \<open>Local references\<close>

text \<open>Innermost first: ordinary segments, then the leading parents.\<close>

definition cleaned :: "string list \<Rightarrow> bool" where
  "cleaned kept \<longleftrightarrow> (\<exists>xs n. kept = xs @ replicate n ''..'' \<and> ''..'' \<notin> set xs)
     \<and> (\<forall>k\<in>set kept. k \<noteq> [] \<and> k \<noteq> ''.'' \<and> CHR ''/'' \<notin> set k)"

lemma cleaned_push: "cleaned kept \<Longrightarrow> k \<noteq> [] \<Longrightarrow> k \<noteq> ''.'' \<Longrightarrow> k \<noteq> ''..'' \<Longrightarrow> CHR ''/'' \<notin> set k \<Longrightarrow> cleaned (k # kept)"
  unfolding cleaned_def by (metis (no_types, lifting) append_Cons set_ConsD)

lemma cleaned_pop: "cleaned (k # ks) \<Longrightarrow> cleaned ks"
proof -
  assume "cleaned (k # ks)"
  then obtain xs n where *: "k # ks = xs @ replicate n ''..''" "''..'' \<notin> set xs" "\<forall>k\<in>set ks. k \<noteq> [] \<and> k \<noteq> ''.'' \<and> CHR ''/'' \<notin> set k"
    by (auto simp: cleaned_def)
  then have "ks = tl xs @ replicate (if xs = [] then n - 1 else n) ''..'' \<and> ''..'' \<notin> set (tl xs)"
    by (cases xs; cases n) auto
  then show ?thesis using *(3) unfolding cleaned_def by blast
qed

lemma cleaned_parents: "cleaned (''..'' # ks) \<Longrightarrow> cleaned (''..'' # ''..'' # ks)"
proof -
  assume "cleaned (''..'' # ks)"
  then obtain xs n where *: "''..'' # ks = xs @ replicate n ''..''" "''..'' \<notin> set xs" "\<forall>k\<in>set ks. k \<noteq> [] \<and> k \<noteq> ''.'' \<and> CHR ''/'' \<notin> set k"
    by (auto simp: cleaned_def)
  then have "xs = []" by (cases xs) auto
  with * have "''..'' # ''..'' # ks = [] @ replicate (Suc n) ''..''" by simp
  then show ?thesis using *(3) unfolding cleaned_def by (intro conjI exI [of _ "[]"] exI [of _ "Suc n"]) auto
qed

lemma clean_segments_cleaned:
  "cleaned kept \<Longrightarrow> \<forall>s\<in>set ss. CHR ''/'' \<notin> set s \<Longrightarrow> cleaned (clean_segments False kept ss)"
proof (induction "False" kept ss rule: clean_segments.induct)
  case (2 kept s ss)
  show ?case
  proof (cases "s = [] \<or> s = ''.''")
    case True
    then show ?thesis using 2 by auto
  next
    case False
    show ?thesis
    proof (cases "s = ''..''")
      case True
      have "cleaned [''..'']" unfolding cleaned_def by (intro conjI exI [of _ "[]"] exI [of _ 1]) auto
      then show ?thesis using True False 2 by (auto split: list.split dest: cleaned_pop cleaned_parents)
    next
      case neq: False
      then show ?thesis using False 2 by (auto intro: cleaned_push)
    qed
  qed
qed simp

lemma clean_relative:
  assumes "path_clean p = p" "\<not> has_prefix p ''/''" "p \<noteq> ''.''"
  shows "p \<noteq> [] \<and> cleaned (rev (split_byte CHR ''/'' p))"
proof -
  let ?kept = "clean_segments False [] (split_byte CHR ''/'' p)"
  have c: "cleaned ?kept"
    using split_byte_parts [of _ "CHR ''/''" p] by (intro clean_segments_cleaned) (auto simp: cleaned_def)
  have body: "join ''/'' (rev ?kept) = p" "p \<noteq> []"
    using assms by (auto simp: path_clean_def Let_def split: if_splits)
  then have "?kept \<noteq> []" by auto
  then have "split_byte CHR ''/'' p = rev ?kept"
    using split_byte_join_inverse [of "rev ?kept" "CHR ''/''"] body c by (auto simp: cleaned_def)
  then have "rev (split_byte CHR ''/'' p) = ?kept" by (metis rev_rev_ident)
  then show ?thesis using c body(2) by metis
qed

lemma cleaned_first_parent: "cleaned kept \<Longrightarrow> ''..'' \<in> set kept \<Longrightarrow> last kept = ''..''"
  by (auto simp: cleaned_def last_append)

text \<open>
  A reference the ledger accepts is an HTTPS URL with a host and without credentials, query and
  fragment, or a relative path that never leaves the repository: none of its segments is empty, \<open>.\<close> or
  \<open>..\<close>. The one exception is the reference \<open>..\<close> itself, which the check accepts.
\<close>

lemma validReference_safe:
  assumes "validReference url_parse ref"
  shows "(\<exists>u. url_parse ref = Some u \<and> url_Scheme u = ''https'' \<and> url_Host u \<noteq> [] \<and> \<not> url_HasUser u \<and> url_RawQuery u = [] \<and> url_Fragment u = [])
    \<or> ref = ''..''
    \<or> ref \<noteq> [] \<and> (\<forall>s\<in>set (split_byte CHR ''/'' ref). s \<noteq> [] \<and> s \<noteq> ''.'' \<and> s \<noteq> ''..'')"
proof -
  obtain u where u: "url_parse ref = Some u" using assms by (auto simp: validReference_def split: if_splits option.splits)
  show ?thesis
  proof (cases "url_Scheme u = []")
    case False
    then show ?thesis using assms u by (auto simp: validReference_def split: if_splits)
  next
    case True
    let ?segments = "split_byte CHR ''/'' ref"
    have ref: "path_clean ref = ref" "\<not> has_prefix ref ''/''" "ref \<noteq> ''.''" "\<not> has_prefix ref ''../''"
      using assms u True by (auto simp: validReference_def split: if_splits)
    have c: "ref \<noteq> []" "cleaned (rev ?segments)" using clean_relative [OF ref(1-3)] by auto
    have "ref = ''..''" if parent: "''..'' \<in> set ?segments"
    proof -
      obtain ss where ss: "?segments = ''..'' # ss"
        using cleaned_first_parent [OF c(2)] parent by (cases ?segments) (auto simp: last_rev)
      then show ?thesis using split_byte_join [of "CHR ''/''" ref] ref(4) by (cases ss) auto
    qed
    then show ?thesis using c by (auto simp: cleaned_def)
  qed
qed

section \<open>Verified evidence\<close>

definition verified :: "(string \<Rightarrow> url option) \<Rightarrow> file_system \<Rightarrow> string \<Rightarrow> artifact \<Rightarrow> bool" where
  "verified url_parse F base a \<longleftrightarrow>
     (\<exists>u. url_parse (art_Reference a) = Some u \<and> url_Scheme u = ''https'')
     \<or> (\<exists>resolved rel content. fs_EvalSymlinks F (filepath_join base (art_Reference a)) = Some resolved
          \<and> fs_Rel F base resolved = Some rel \<and> \<not> escapes rel
          \<and> fs_Read F (MaximumArtifactBytes + 1) resolved = Some content
          \<and> int (length content) \<le> MaximumArtifactBytes \<and> fs_SHA256Hex F content = art_SHA256 a)"

lemma verify_artifact_None:
  "verify_artifact url_parse F base (name, a) = None \<Longrightarrow> verified url_parse F base a"
  by (auto simp: verify_artifact_def verify_resolved_def verified_def validReference_def not_less
      split: if_splits option.splits)

lemma ledgerArtifacts_evidence:
  assumes "(\<exists>ob\<in>set (Observations L). a \<in> set (obs_Evidence ob)) \<or> (\<exists>ex\<in>set (Exercises L). a \<in> set (ex_Evidence ex))"
  shows "\<exists>y\<in>set (ledgerArtifacts L). snd y = a"
proof -
  have inner: "\<exists>y\<in>set (each (\<lambda>j a. [(name j, a)]) arts). snd y = a" if "a \<in> set arts" for name :: "nat \<Rightarrow> string" and arts
    using that by (intro each_from_mem [of a]) auto
  show ?thesis using assms
    unfolding ledgerArtifacts_def set_append bex_Un
    by (auto intro: each_from_mem inner)
qed

text \<open>
  When the soak passes and its evidence files verify, every observation and every exercise has
  evidence, two provider outages and all required exercises are among them, and each piece of
  evidence is an HTTPS URL or a file under the evidence root whose content has the recorded digest.
\<close>

lemma pass_evidence:
  assumes "Evaluate round64 url_parse L now = Inr r" and "ReviewedTopItems (OwnerReview L) < 2 ^ 60"
    and "rep_Outcome r = OutcomePass" and "VerifyLocalArtifacts url_parse F L repositoryRoot = None"
  shows "\<exists>base. (\<forall>ob\<in>set (Observations L). obs_Evidence ob \<noteq> [] \<and> list_all (verified url_parse F base) (obs_Evidence ob))
    \<and> (\<forall>ex\<in>set (Exercises L). ex_Passed ex \<and> ex_Evidence ex \<noteq> [] \<and> list_all (verified url_parse F base) (ex_Evidence ex))
    \<and> (\<forall>k\<in>set requiredKinds. \<exists>ex\<in>set (Exercises L). ex_Kind ex = k) \<and> 2 \<le> outage_count (Exercises L)"
proof -
  have gate: "soak_gate L now" using pass_gate [OF assms(1,2)] assms(3) by simp
  obtain base where "first_error (verify_artifact url_parse F base) (ledgerArtifacts L) = None"
    using assms(4) by (auto simp: VerifyLocalArtifacts_def split: option.splits)
  then have all: "verified url_parse F base a"
    if "(\<exists>ob\<in>set (Observations L). a \<in> set (obs_Evidence ob)) \<or> (\<exists>ex\<in>set (Exercises L). a \<in> set (ex_Evidence ex))" for a
    using ledgerArtifacts_evidence [OF that] by (auto simp: go_result intro: verify_artifact_None)
  show ?thesis
  proof (intro exI [of _ base] conjI ballI)
    show "obs_Evidence ob \<noteq> []" "list_all (verified url_parse F base) (obs_Evidence ob)" if "ob \<in> set (Observations L)" for ob
      using gate that all by (auto simp: soak_gate_def clean_observation_def list_all_iff)
    show "ex_Passed ex" "ex_Evidence ex \<noteq> []" "list_all (verified url_parse F base) (ex_Evidence ex)" if "ex \<in> set (Exercises L)" for ex
      using gate that all by (auto simp: soak_gate_def exercises_ok_def list_all_iff)
    show "\<exists>ex\<in>set (Exercises L). ex_Kind ex = k" if "k \<in> set requiredKinds" for k
      using gate that by (auto simp: soak_gate_def exercises_ok_def list_all_iff)
    show "2 \<le> outage_count (Exercises L)" using gate by (simp add: soak_gate_def exercises_ok_def)
  qed
qed

section \<open>A passing ledger\<close>

text \<open>Relative references only: the parser returns the empty URL.\<close>

definition sample_url_parse :: "string \<Rightarrow> url option" where
  "sample_url_parse s = Some \<lparr>url_Scheme = [], url_Host = [], url_HasUser = False, url_RawQuery = [], url_Fragment = []\<rparr>"

definition sample_sha :: string where
  "sample_sha = replicate 64 (CHR ''a'')"

definition sample_artifact :: artifact where
  "sample_artifact = \<lparr>art_Reference = ''docs/soak/day.json'', art_SHA256 = sample_sha\<rparr>"

definition sample_day :: "nat \<Rightarrow> string" where
  "sample_day d = ''2026-03-'' @ (if d < 10 then ''0'' else []) @ nat_digits d @ ''T12:00:00Z''"

definition sample_observation :: "nat \<Rightarrow> observation" where
  "sample_observation d = \<lparr>obs_ObservedAt = sample_day d, obs_ReleaseSHA = sample_sha, FreshnessSLOMet = True, DuplicateAlerts = 0,
     UnsupportedMaterialClaims = 0, QueueHealthy = True,
     Demo = \<lparr>Uptime = True, Performance = True, Accessibility = True, Isolation = True\<rparr>, obs_Evidence = [sample_artifact]\<rparr>"

definition sample_exercise :: "nat \<Rightarrow> string \<Rightarrow> exercise" where
  "sample_exercise d k = \<lparr>ex_Kind = k, ex_OccurredAt = sample_day d, ex_ReleaseSHA = sample_sha,
     ex_Provider = (if k = ''provider_outage'' then ''openai'' else []), ex_Passed = True, ex_Evidence = [sample_artifact]\<rparr>"

definition sample_ledger :: ledger where
  "sample_ledger = \<lparr>Version = 1, Environment = ''staging'', ProjectID = ''01234567-89ab-4cde-8f01-23456789abcd'',
     led_ReleaseSHA = sample_sha, StartedAt = sample_day 1, EndedAt = sample_day 15,
     Profile = \<lparr>Priority0SourcesActive = True, RealReadOnlyAPIsActive = True, LowCapOpenAIProject = True, StagingOnlyDelivery = True\<rparr>,
     Observations = map sample_observation [2, 3, 4, 5, 6, 7, 8, 9, 10, 11, 12, 13, 14, 15],
     Exercises = [sample_exercise 3 ''provider_outage'', sample_exercise 4 ''provider_outage'',
       sample_exercise 5 ''redeploy_during_backlog'', sample_exercise 6 ''redeploy_digest_window'',
       sample_exercise 7 ''missed_morning_catchup'', sample_exercise 8 ''database_restore''],
     OwnerReview = \<lparr>ReviewedTopItems = 10, UsefulOrAlreadyKnown = 8\<rparr>,
     Cost = \<lparr>ActualCents = 100, BudgetCents = 500, HardCapCents = 1000\<rparr>,
     NonCriticalSLOMisses = [], FatalFindings = []\<rparr>"

definition sample_now :: time where
  "sample_now = (case parse_rfc3339 ''2026-03-16T00:00:00Z'' of Some t \<Rightarrow> t | None \<Rightarrow> 0)"

definition sample_files :: file_system where
  "sample_files = \<lparr>fs_Abs = Some, fs_EvalSymlinks = Some, fs_Rel = (\<lambda>base p. Some (drop (length base + 1) p)),
     fs_Stat = (\<lambda>p. Some \<lparr>IsRegular = True, FileSize = 2\<rparr>), fs_Open = (\<lambda>p. True), fs_Read = (\<lambda>n p. Some ''{}''),
     fs_Close = (\<lambda>p. True), fs_SHA256Hex = (\<lambda>s. sample_sha)\<rparr>"

definition sample_report :: soak_report where
  "sample_report = projr (Evaluate (\<lambda>q. q) sample_url_parse sample_ledger sample_now)"

lemma sample_valid: "Evaluate (\<lambda>q. q) sample_url_parse sample_ledger sample_now = Inr sample_report"
proof -
  have "\<not> isl (Evaluate (\<lambda>q. q) sample_url_parse sample_ledger sample_now)" by code_simp
  then show ?thesis by (simp add: sample_report_def)
qed

lemma sample_pass: "rep_Outcome sample_report = OutcomePass" "ReviewedTopItems (OwnerReview sample_ledger) < 2 ^ 60"
  "VerifyLocalArtifacts sample_url_parse sample_files sample_ledger ''/repo'' = None"
  by code_simp+

theorem Evaluate_pass_iff_witness: "soak_gate sample_ledger sample_now"
  using Evaluate_pass_iff [OF sample_valid sample_pass(2)] sample_pass(1) by simp

lemma pass_watched_witness:
  "\<exists>s e. t_StartedAt (ledger_times sample_ledger) = Some s \<and> t_EndedAt (ledger_times sample_ledger) = Some e \<and> s + 336 * hour \<le> e"
  using pass_watched [OF sample_valid sample_pass(2,1)] by blast

lemma pass_evidence_witness:
  "\<exists>base. list_all (verified sample_url_parse sample_files base) [sample_artifact]"
proof -
  have "sample_observation 2 \<in> set (Observations sample_ledger)" by (simp add: sample_ledger_def)
  with pass_evidence [OF sample_valid sample_pass(2,1,3)]
  obtain base where "list_all (verified sample_url_parse sample_files base) (obs_Evidence (sample_observation 2))" by blast
  then show ?thesis by (auto simp: sample_observation_def)
qed

lemma validReference_safe_witness:
  "list_all (\<lambda>s. s \<noteq> [] \<and> s \<noteq> ''.'' \<and> s \<noteq> ''..'') (split_byte CHR ''/'' ''docs/soak/day.json'')"
proof -
  have "validReference sample_url_parse ''docs/soak/day.json''" by code_simp
  from validReference_safe [OF this] show ?thesis by (auto simp: sample_url_parse_def list_all_iff)
qed

text \<open>The reference \<open>..\<close>, which the check accepts.\<close>

lemma validReference_parent: "validReference sample_url_parse ''..''"
  by code_simp

end
