(* ===== verification/Alert_Store.thy ===== *)
theory Alert_Store
  imports Advisory_Evidence
begin

text \<open>
  The store of critical alerts (\<open>src/internal/alert/pgstore\<close>, the files \<open>store.go\<close>, \<open>observation.go\<close> and \<open>catchup.go\<close>): how
  a confirmed advisory becomes alerts and delivery intents, how a later revision corrects them, and how
  the ordered observations of a source drive both. The record \<open>alert_db\<close> holds the tables; the
  record \<open>alert_env\<close> what the transactions read elsewhere (the evidence joins, the latest revision of a document,
  the time-zone database, the queue's insert, the digest of a payload).
\<close>

section \<open>Tables\<close>

record alert_row =
  al_id :: string
  al_user_id :: string
  al_advisory_id :: string
  al_ecosystem :: string
  al_package_name :: string
  al_current_version :: string
  al_vulnerable_range :: string
  al_patched_version :: string
  al_raw_document_id :: string
  al_revision_id :: string
  al_item_id :: string
  al_source_id :: string
  al_source_url :: string
  al_title :: string
  al_observed_at :: time
  al_episode_number :: int
  al_opening_observation_id :: "int option"
  al_correction_reason :: "string option"
  al_correction_revision_id :: "string option"
  al_corrected_at :: "time option"
  al_correction_observation_id :: "int option"

record delivery_row =
  ad_id :: string
  ad_alert_id :: string
  ad_channel :: string
  ad_state :: string
  ad_idempotency_key :: string
  ad_payload_sha256 :: string
  ad_next_attempt_at :: time
  ad_attempt_count :: int
  ad_last_attempt_at :: "time option"
  ad_provider_id :: "string option"
  ad_delivered_at :: "time option"

record alert_attempt =
  aa_delivery_id :: string
  aa_number :: int
  aa_outcome :: string
  aa_error_code :: "string option"
  aa_provider_id :: "string option"
  aa_attempted_at :: time
  aa_completed_at :: time

record collection_row =
  co_id :: int
  co_source_id :: string
  co_parent_raw_document_id :: string
  co_observed_at :: time
  co_state :: string
  co_entry_count :: "int option"
  co_split_completed_at :: "time option"
  co_processed_at :: "time option"

record observation_row =
  ob_id :: int
  ob_collection_id :: int
  ob_entry_ordinal :: int
  ob_source_entry_id :: string
  ob_child_raw_document_id :: string
  ob_state :: string
  ob_processed_at :: "time option"

record raw_row =
  rw_id :: string
  rw_source_id :: string
  rw_parent_id :: "string option"
  rw_source_entry_id :: "string option"
  rw_first_seen_at :: time
  rw_registry_id :: "string option"
  rw_object_key :: "string option"
  rw_ingestion_error_code :: "string option"

record watch_row =
  wr_id :: string
  wr_user_id :: string
  wr_ecosystem :: "string option"
  wr_package_name :: string
  wr_current_version :: string
  wr_status :: string

record settings_row =
  se_user_id :: string
  se_quiet_hours_start :: string
  se_quiet_hours_end :: string
  se_critical_alerts_bypass :: bool
  se_critical_alert_channels :: "string list"

datatype alert_job =
    DeliverCriticalAlert string time
  | SplitAdvisoryObservation int
  | AssessAdvisoryObservation int string
  | ParseRawDocument string string
  | BackfillCriticalAdvisory string string
  | ReassessCurrentAdvisories string int string

text \<open>
  \<open>adb_owners\<close> are the users with their time zone, \<open>adb_jobs\<close> the queue's rows with their state, and
  \<open>adb_legacy_key\<close> tells whether the unique key without the episode still exists.
\<close>

record alert_db =
  adb_alerts :: "alert_row list"
  adb_deliveries :: "delivery_row list"
  adb_attempts :: "alert_attempt list"
  adb_collections :: "collection_row list"
  adb_observations :: "observation_row list"
  adb_raw :: "raw_row list"
  adb_watches :: "watch_row list"
  adb_owners :: "(string \<times> string) list"
  adb_settings :: "settings_row list"
  adb_jobs :: "(alert_job \<times> string) list"
  adb_legacy_key :: bool
  adb_seq :: nat

datatype store_alert_error =
    AlertError string
  | AlertQuiet string alert_error
  | ErrEpisodeCutoverPending
  | ErrAdvisoryObservationBackfillPending
  | ErrPayloadIntegrity

text \<open>
  What the joins of an observation's evidence give besides the event and its collection: the evidence
  columns (the source, entry and time are the observation's) and the endpoint and address of the observed parent.
\<close>

record observed_columns =
  oc_evidence :: evidence
  oc_endpoint :: string
  oc_parentURL :: string

text \<open>A row of the catch-up query.\<close>

record advisory_revision =
  ar_rawDocumentID :: string
  ar_revisionID :: string
  ar_endpointURL :: string
  ar_parentURL :: string

text \<open>
  \<open>ae_evidence\<close> and \<open>ae_observed\<close> are the evidence joins (the first argument is the \<open>lock\<close> flag: the read before
  the transaction and the one inside it may differ); \<open>None\<close> is an error. \<open>ae_entry_exists\<close> and \<open>ae_source_exists\<close> lock a row;
  \<open>ae_backfill_expected\<close> holds the conditions of the recheck on sources and items, \<open>ae_page\<close> a page of the catch-up query.
\<close>

record alert_env =
  al_pg :: pg
  al_lib :: evidence_lib
  al_tz :: location_db
  al_marshal :: "delivery \<Rightarrow> string"
  ae_evidence :: "bool \<Rightarrow> string \<Rightarrow> string \<Rightarrow> evidence option option"
  ae_observed :: "bool \<Rightarrow> observation_row \<Rightarrow> collection_row \<Rightarrow> string \<Rightarrow> observed_columns option option"
  ae_entry_exists :: "string \<Rightarrow> bool"
  ae_source_exists :: "string \<Rightarrow> bool"
  ae_revision :: "string \<Rightarrow> string option"
  ae_backfill_expected :: "string \<Rightarrow> string \<Rightarrow> bool"
  ae_page :: "string \<Rightarrow> advisory_revision list"
  ae_enqueue :: "(alert_job \<times> string) list \<Rightarrow> alert_job \<Rightarrow> bool option"

section \<open>Transactions\<close>

text \<open>
  How a body ends: it returns without a commit (the deferred rollback undoes its writes), or it asks
  for a commit and then returns. Either way it returns a result or an error.
\<close>

datatype ('d, 'r) tx_end = Rollback 'r | Commit 'd 'r

definition run_end :: "tx_fate \<Rightarrow> 'r \<Rightarrow> ('d \<Rightarrow> ('d, 'r) tx_end) \<Rightarrow> 'd \<Rightarrow> 'r \<times> 'd" where
  "run_end fate failed body D =
     (if fate = BeginFails then (failed, D)
      else (case body D of
              Rollback r \<Rightarrow> (r, D)
            | Commit D' r \<Rightarrow> if fate = CommitFails then (failed, D) else (r, D')))"

definition commit_or_fail :: "'e + 'd \<Rightarrow> ('d, 'e + unit) tx_end" where
  "commit_or_fail r = (case r of Inl e \<Rightarrow> Rollback (Inl e) | Inr D \<Rightarrow> Commit D (Inr ()))"

definition alert_uuid :: "alert_env \<Rightarrow> string \<Rightarrow> store_alert_error + string" where
  "alert_uuid V s = (case pg_uuid (al_pg V) s of None \<Rightarrow> Inl (AlertError ''uuid'') | Some u \<Rightarrow> Inr u)"

definition enqueue_alert_job :: "alert_env \<Rightarrow> alert_job \<Rightarrow> alert_db \<Rightarrow> store_alert_error + (alert_db \<times> bool)" where
  "enqueue_alert_job V j D =
     (case ae_enqueue V (adb_jobs D) j of
        None \<Rightarrow> Inl (AlertError ''enqueue job'')
      | Some inserted \<Rightarrow> Inr (if inserted then D\<lparr>adb_jobs := adb_jobs D @ [(j, ''available'')]\<rparr> else D, inserted))"

definition enqueue_only :: "alert_env \<Rightarrow> alert_job \<Rightarrow> alert_db \<Rightarrow> store_alert_error + alert_db" where
  "enqueue_only V j D = and_then (enqueue_alert_job V j D) (\<lambda>(D', inserted). Inr D')"

section \<open>Admission\<close>

text \<open>The CHECK constraints of \<open>app.critical_alerts\<close> that the inserted columns have to satisfy.\<close>

definition alert_row_ok :: "alert_env \<Rightarrow> alert_row \<Rightarrow> bool" where
  "alert_row_ok V a \<longleftrightarrow>
     validGHSAID (al_advisory_id a) \<and> al_ecosystem a \<in> {''go'', ''npm'', ''rust'', ''pub''}
     \<and> 1 \<le> rune_count (al_package_name a) \<and> rune_count (al_package_name a) \<le> 255
     \<and> 1 \<le> rune_count (al_current_version a) \<and> rune_count (al_current_version a) \<le> 100
     \<and> 1 \<le> rune_count (al_vulnerable_range a) \<and> rune_count (al_vulnerable_range a) \<le> 200 \<and> rune_count (al_patched_version a) \<le> 100
     \<and> 1 \<le> rune_count (al_source_url a) \<and> rune_count (al_source_url a) \<le> 4096 \<and> 1 \<le> rune_count (al_title a) \<and> rune_count (al_title a) \<le> 500
     \<and> al_episode_number a > 0
     \<and> list_all (pg_text (al_pg V)) [al_package_name a, al_current_version a, al_vulnerable_range a, al_patched_version a, al_source_url a, al_title a]"

definition alert_key :: "alert_row \<Rightarrow> string \<times> string \<times> string \<times> string" where
  "alert_key a = (al_user_id a, al_advisory_id a, al_ecosystem a, al_package_name a)"

definition alert_conflict :: "alert_db \<Rightarrow> alert_row \<Rightarrow> bool" where
  "alert_conflict D a \<longleftrightarrow>
     (\<exists>b\<in>set (adb_alerts D). al_id b = al_id a
        \<or> (alert_key b = alert_key a \<and> (adb_legacy_key D \<or> al_episode_number b = al_episode_number a)))"

definition alert_payload :: "alert_row \<Rightarrow> string \<Rightarrow> string \<Rightarrow> int \<Rightarrow> delivery" where
  "alert_payload a channel key attempt =
     \<lparr>del_AlertID = al_id a, del_Channel = channel, del_IdempotencyKey = key, del_Attempt = attempt, del_Title = al_title a,
      del_SourceURL = al_source_url a, del_PackageName = al_package_name a, del_Ecosystem = al_ecosystem a,
      del_CurrentVersion = al_current_version a, del_VersionRange = al_vulnerable_range a, del_PatchedVersion = al_patched_version a\<rparr>"

definition delivery_key :: "string \<Rightarrow> string \<Rightarrow> string" where
  "delivery_key alertID channel = ''critical-alert:'' @ alertID @ '':'' @ channel"

definition pending_delivery :: "alert_env \<Rightarrow> alert_row \<Rightarrow> string \<Rightarrow> time \<Rightarrow> alert_db \<Rightarrow> delivery_row" where
  "pending_delivery V a channel scheduledAt D =
     \<lparr>ad_id = uuid_v7 (al_pg V) (adb_seq D), ad_alert_id = al_id a, ad_channel = channel, ad_state = ''pending'',
      ad_idempotency_key = delivery_key (al_id a) channel,
      ad_payload_sha256 = DeliverySHA256 (al_marshal V) (lib_sha256 (al_lib V)) (alert_payload a channel (delivery_key (al_id a) channel) 0),
      ad_next_attempt_at = pg_time (al_pg V) scheduledAt, ad_attempt_count = 0, ad_last_attempt_at = None,
      ad_provider_id = None, ad_delivered_at = None\<rparr>"

text \<open>The unique keys and the remaining checks of \<open>app.critical_alert_deliveries\<close>.\<close>

definition insert_delivery :: "delivery_row \<Rightarrow> alert_db \<Rightarrow> store_alert_error + alert_db" where
  "insert_delivery d D =
     (if list_all (\<lambda>e. ad_id e \<noteq> ad_id d \<and> (ad_alert_id e, ad_channel e) \<noteq> (ad_alert_id d, ad_channel d)
            \<and> ad_idempotency_key e \<noteq> ad_idempotency_key d) (adb_deliveries D)
         \<and> length (ad_payload_sha256 d) = 32 \<and> rune_count (ad_idempotency_key d) \<le> 200
      then Inr (D\<lparr>adb_deliveries := adb_deliveries D @ [d], adb_seq := adb_seq D + 1\<rparr>)
      else Inl (AlertError ''insert critical alert delivery intent''))"

fun insert_deliveries :: "alert_env \<Rightarrow> alert_row \<Rightarrow> time \<Rightarrow> string list \<Rightarrow> alert_db \<Rightarrow> store_alert_error + alert_db" where
  "insert_deliveries V a scheduledAt [] D = Inr D"
| "insert_deliveries V a scheduledAt (channel # channels) D =
     (if channel = ''dashboard'' then insert_deliveries V a scheduledAt channels D
      else if channel \<noteq> ''discord'' \<and> channel \<noteq> ''email'' then Inl (AlertError ''unsupported critical alert channel'')
      else and_then (insert_delivery (pending_delivery V a channel scheduledAt D) D) (\<lambda>D1.
           and_then (enqueue_only V (DeliverCriticalAlert (uuid_v7 (al_pg V) (adb_seq D)) scheduledAt) D1) (\<lambda>D2.
             insert_deliveries V a scheduledAt channels D2)))"

definition raw_of :: "alert_db \<Rightarrow> string \<Rightarrow> raw_row option" where
  "raw_of D i = find (\<lambda>r. rw_id r = i) (adb_raw D)"

definition match_row ::
    "alert_env \<Rightarrow> string \<Rightarrow> string \<Rightarrow> evidence \<Rightarrow> string \<Rightarrow> string \<Rightarrow> string \<Rightarrow> match_result \<Rightarrow> int \<Rightarrow> int option \<Rightarrow> alert_db \<Rightarrow> alert_row" where
  "match_row V rawDocumentID revisionID ev sourceURL advisoryID userID m episodeNumber opening D =
     \<lparr>al_id = uuid_v7 (al_pg V) (adb_seq D), al_user_id = userID, al_advisory_id = advisoryID,
      al_ecosystem = vul_Ecosystem (res_Vulnerability m), al_package_name = vul_PackageName (res_Vulnerability m),
      al_current_version = wat_CurrentVersion (res_Watch m), al_vulnerable_range = vul_VersionRange (res_Vulnerability m),
      al_patched_version = vul_PatchedVersion (res_Vulnerability m), al_raw_document_id = rawDocumentID, al_revision_id = revisionID,
      al_item_id = ev_itemID ev, al_source_id = ev_sourceID ev, al_source_url = sourceURL, al_title = ev_title ev,
      al_observed_at = ev_observedAt ev, al_episode_number = episodeNumber, al_opening_observation_id = opening,
      al_correction_reason = None, al_correction_revision_id = None, al_corrected_at = None, al_correction_observation_id = None\<rparr>"

definition insertMatch ::
    "alert_env \<Rightarrow> string \<Rightarrow> string \<Rightarrow> evidence \<Rightarrow> string \<Rightarrow> string \<Rightarrow> string \<Rightarrow> match_result \<Rightarrow> string list \<Rightarrow> time \<Rightarrow> int \<Rightarrow> int option
      \<Rightarrow> alert_db \<Rightarrow> store_alert_error + alert_db" where
  "insertMatch V rawDocumentID revisionID ev sourceURL advisoryID userID m channels scheduledAt episodeNumber opening D =
     (let a = match_row V rawDocumentID revisionID ev sourceURL advisoryID userID m episodeNumber opening D in
      if \<not> alert_row_ok V a then Inl (AlertError ''insert confirmed critical alert'')
      else if alert_conflict D a then Inr D
      else if raw_of D rawDocumentID = None then Inl (AlertError ''insert confirmed critical alert'')
      else insert_deliveries V a scheduledAt channels (D\<lparr>adb_alerts := adb_alerts D @ [a], adb_seq := adb_seq D + 1\<rparr>))"

record owner_watches =
  ow_userID :: string
  ow_watches :: "watch list"
  ow_quiet :: quiet_hours
  ow_channels :: "string list"

text \<open>A row of the watch query: the watch with its owner's time zone, and the settings or their defaults.\<close>

definition joined_watch :: "alert_db \<Rightarrow> watch_row \<Rightarrow> string \<Rightarrow> string \<Rightarrow> owner_watches" where
  "joined_watch D w ecosystem timezone =
     (let settings = find (\<lambda>s. se_user_id s = wr_user_id w) (adb_settings D) in
      \<lparr>ow_userID = wr_user_id w,
       ow_watches = [\<lparr>wat_ID = wr_id w, wat_Ecosystem = ecosystem, wat_PackageName = wr_package_name w,
         wat_CurrentVersion = wr_current_version w, wat_Status = wr_status w\<rparr>],
       ow_quiet = (case settings of
          None \<Rightarrow> \<lparr>qh_Timezone = timezone, qh_Start = ''22:00'', qh_End = ''07:00'', qh_Bypass = True\<rparr>
        | Some s \<Rightarrow> \<lparr>qh_Timezone = timezone, qh_Start = se_quiet_hours_start s, qh_End = se_quiet_hours_end s, qh_Bypass = se_critical_alerts_bypass s\<rparr>),
       ow_channels = (case settings of None \<Rightarrow> [''dashboard''] | Some s \<Rightarrow> se_critical_alert_channels s)\<rparr>)"

definition watch_rows :: "alert_db \<Rightarrow> advisory \<Rightarrow> owner_watches list" where
  "watch_rows D a =
     concat (map (\<lambda>w. case (wr_ecosystem w, map_of (adb_owners D) (wr_user_id w)) of
           (Some ecosystem, Some timezone) \<Rightarrow>
             if wr_status w = ''active'' \<and> ecosystem \<in> set (map vul_Ecosystem (adv_Vulnerabilities a))
                \<and> wr_package_name w \<in> set (map vul_PackageName (adv_Vulnerabilities a))
             then [joined_watch D w ecosystem timezone] else []
         | _ \<Rightarrow> [])
       (sort_key (\<lambda>w. (wr_user_id w, wr_id w)) (adb_watches D)))"

definition add_watch :: "owner_watches list \<Rightarrow> owner_watches \<Rightarrow> owner_watches list" where
  "add_watch owners row =
     (if owners = [] \<or> ow_userID (last owners) \<noteq> ow_userID row then owners @ [row]
      else butlast owners @ [(last owners)\<lparr>ow_watches := ow_watches (last owners) @ ow_watches row\<rparr>])"

definition loadOwnerWatches :: "alert_db \<Rightarrow> advisory \<Rightarrow> owner_watches list" where
  "loadOwnerWatches D a = foldl add_watch [] (watch_rows D a)"

fun insert_matches ::
    "alert_env \<Rightarrow> string \<Rightarrow> string \<Rightarrow> evidence \<Rightarrow> string \<Rightarrow> string \<Rightarrow> owner_watches \<Rightarrow> time \<Rightarrow> match_result list \<Rightarrow> alert_db
      \<Rightarrow> store_alert_error + alert_db" where
  "insert_matches V raw rv ev sourceURL advisoryID owner scheduledAt [] D = Inr D"
| "insert_matches V raw rv ev sourceURL advisoryID owner scheduledAt (m # ms) D =
     and_then (insertMatch V raw rv ev sourceURL advisoryID (ow_userID owner) m (ow_channels owner) scheduledAt 1 None D)
       (\<lambda>D'. insert_matches V raw rv ev sourceURL advisoryID owner scheduledAt ms D')"

fun admit_owners ::
    "alert_env \<Rightarrow> string \<Rightarrow> string \<Rightarrow> evidence \<Rightarrow> string \<Rightarrow> advisory \<Rightarrow> time \<Rightarrow> owner_watches list \<Rightarrow> alert_db \<Rightarrow> store_alert_error + alert_db" where
  "admit_owners V raw rv ev sourceURL a now [] D = Inr D"
| "admit_owners V raw rv ev sourceURL a now (owner # owners) D =
     (let ms = Match a (ow_watches owner) in
      if ms = [] then admit_owners V raw rv ev sourceURL a now owners D
      else (case DeliveryAt (al_tz V) now (ow_quiet owner) of
              Inl e \<Rightarrow> Inl (AlertQuiet (ow_userID owner) e)
            | Inr scheduledAt \<Rightarrow>
                and_then (insert_matches V raw rv ev sourceURL (adv_ID a) owner scheduledAt ms D)
                  (\<lambda>D'. admit_owners V raw rv ev sourceURL a now owners D')))"

section \<open>Corrections\<close>

definition validCorrectionTimestamp :: "string \<Rightarrow> bool" where
  "validCorrectionTimestamp v = (case parse_rfc3339 v of None \<Rightarrow> False | Some t \<Rightarrow> \<not> is_zero t)"

text \<open>The empty string is no reason.\<close>

definition advisoryCorrectionReason :: "advisory \<Rightarrow> string" where
  "advisoryCorrectionReason a =
     (if \<not> validCorrectionTimestamp (adv_PublishedAt a) then []
      else if adv_Kind a = ''reviewed'' \<and> \<not> validCorrectionTimestamp (adv_ReviewedAt a) then []
      else if adv_Kind a \<noteq> ''reviewed'' \<and> adv_Kind a \<noteq> [] then []
      else if adv_WithdrawnAt a \<noteq> [] then
        (if \<not> validCorrectionTimestamp (adv_WithdrawnAt a)
            \<or> (adv_State a \<noteq> [] \<and> adv_State a \<noteq> ''published'' \<and> adv_State a \<noteq> ''closed'')
            \<or> (adv_Kind a = [] \<and> adv_State a \<noteq> ''published'' \<and> adv_State a \<noteq> ''closed'')
         then [] else ''withdrawn'')
      else if adv_Kind a = [] \<and> adv_State a = ''closed'' then ''no_longer_published''
      else if (adv_State a \<noteq> [] \<and> adv_State a \<noteq> ''published'') \<or> (adv_Kind a = [] \<and> adv_State a \<noteq> ''published'') then []
      else if adv_Severity a = ''high'' \<or> adv_Severity a = ''medium'' \<or> adv_Severity a = ''low'' then ''severity_downgraded''
      else if adv_Severity a = ''unknown'' then ''severity_unconfirmed''
      else [])"

text \<open>Alerts of the same entry and advisory that rest on an older document.\<close>

definition older_alert :: "alert_db \<Rightarrow> evidence \<Rightarrow> string \<Rightarrow> string \<Rightarrow> alert_row \<Rightarrow> bool" where
  "older_alert D current raw advisoryID a \<longleftrightarrow>
     (case raw_of D (al_raw_document_id a) of
        None \<Rightarrow> False
      | Some r \<Rightarrow> rw_source_entry_id r = Some (ev_entryRowID current) \<and> al_advisory_id a = advisoryID
          \<and> (rw_first_seen_at r, rw_id r) < (ev_observedAt current, raw))"

definition correct_row :: "string \<Rightarrow> string \<Rightarrow> time \<Rightarrow> int option \<Rightarrow> alert_row \<Rightarrow> alert_row" where
  "correct_row reason revisionID now observation a =
     a\<lparr>al_correction_reason := Some reason, al_correction_revision_id := Some revisionID, al_corrected_at := Some now,
       al_correction_observation_id := (case observation of None \<Rightarrow> al_correction_observation_id a | Some i \<Rightarrow> Some i)\<rparr>"

definition suppress_deliveries :: "string list \<Rightarrow> alert_db \<Rightarrow> alert_db" where
  "suppress_deliveries ids D =
     D\<lparr>adb_deliveries := map (\<lambda>d. if ad_alert_id d \<in> set ids \<and> (ad_state d = ''pending'' \<or> ad_state d = ''failed'')
         then d\<lparr>ad_state := ''suppressed''\<rparr> else d) (adb_deliveries D)\<rparr>"

definition suppressCorrectedAlertDeliveries ::
    "alert_env \<Rightarrow> evidence \<Rightarrow> string \<Rightarrow> string \<Rightarrow> string \<Rightarrow> string \<Rightarrow> time \<Rightarrow> alert_db \<Rightarrow> alert_db" where
  "suppressCorrectedAlertDeliveries V current raw rv advisoryID reason now D =
     (let older = older_alert D current raw advisoryID in
      suppress_deliveries (map al_id (filter older (adb_alerts D)))
        (D\<lparr>adb_alerts := map (\<lambda>a. if older a \<and> al_correction_revision_id a \<noteq> Some rv
             then correct_row reason rv (pg_time (al_pg V) now) None a else a) (adb_alerts D)\<rparr>))"

section \<open>Assessment of a document\<close>

definition loadEvidence :: "alert_env \<Rightarrow> bool \<Rightarrow> string \<Rightarrow> string \<Rightarrow> store_alert_error + evidence option" where
  "loadEvidence V lock rawDocumentID revisionID =
     (case ae_evidence V lock rawDocumentID revisionID of
        None \<Rightarrow> Inl (AlertError ''load advisory evidence'')
      | Some None \<Rightarrow> Inr None
      | Some (Some found) \<Rightarrow>
          Inr (if officialAdvisoryParent (al_lib V) (ev_endpointURL found) (ev_parentURL found) then Some found else None))"

definition equalDigest :: "string \<Rightarrow> string \<Rightarrow> bool" where
  "equalDigest x y \<longleftrightarrow> length x = 32 \<and> length y = 32 \<and> x = y"

definition same_evidence :: "evidence \<Rightarrow> evidence \<Rightarrow> bool" where
  "same_evidence current preflight \<longleftrightarrow>
     ev_objectKey current = ev_objectKey preflight \<and> equalDigest (ev_rawSHA256 current) (ev_rawSHA256 preflight)
     \<and> ev_entryRowID current = ev_entryRowID preflight \<and> ev_entryID current = ev_entryID preflight
     \<and> ev_sourceID current = ev_sourceID preflight \<and> ev_canonicalURL current = ev_canonicalURL preflight
     \<and> ev_endpointURL current = ev_endpointURL preflight \<and> ev_parentURL current = ev_parentURL preflight
     \<and> ev_entryFirstSeenAt current = ev_entryFirstSeenAt preflight \<and> ev_itemID current = ev_itemID preflight
     \<and> ev_itemStatus current = ev_itemStatus preflight \<and> ev_title current = ev_title preflight
     \<and> ev_observedAt current = ev_observedAt preflight"

definition bounds_ok :: "evidence \<Rightarrow> string \<Rightarrow> bool" where
  "bounds_ok ev sourceURL \<longleftrightarrow> ev_title ev \<noteq> [] \<and> length (ev_title ev) \<le> 500 \<and> sourceURL \<noteq> [] \<and> length sourceURL \<le> 4096"

definition observationManaged :: "alert_db \<Rightarrow> string \<Rightarrow> bool" where
  "observationManaged D raw \<longleftrightarrow>
     (case raw_of D raw of
        None \<Rightarrow> False
      | Some r \<Rightarrow> (\<exists>c\<in>set (adb_collections D). rw_parent_id r = Some (co_parent_raw_document_id c))
                \<or> (\<exists>ob\<in>set (adb_observations D). rw_source_entry_id r = Some (ob_source_entry_id ob)))
     \<or> (\<exists>ob\<in>set (adb_observations D). ob_child_raw_document_id ob = raw)"

definition assess_tx ::
    "alert_env \<Rightarrow> string \<Rightarrow> string \<Rightarrow> evidence \<Rightarrow> advisory \<Rightarrow> string \<Rightarrow> time \<Rightarrow> alert_db \<Rightarrow> (alert_db, store_alert_error + unit) tx_end" where
  "assess_tx V raw rv preflight a sourceURL now D =
     (if \<not> ae_entry_exists V (ev_entryRowID preflight) then Rollback (Inr ())
      else (case loadEvidence V True raw rv of
        Inl e \<Rightarrow> Rollback (Inl e)
      | Inr None \<Rightarrow> Rollback (Inr ())
      | Inr (Some current) \<Rightarrow>
          if \<not> same_evidence current preflight then Rollback (Inl (AlertError ''advisory evidence changed during assessment''))
          else if \<not> bounds_ok current sourceURL then Rollback (Inl (AlertError ''advisory title or source URL exceeds alert bounds''))
          else if advisoryCorrectionReason a \<noteq> []
          then Commit (suppressCorrectedAlertDeliveries V current raw rv (adv_ID a) (advisoryCorrectionReason a) now D) (Inr ())
          else if ev_itemStatus current \<noteq> ''active'' \<and> ev_itemStatus current \<noteq> ''updated'' then Rollback (Inr ())
          else commit_or_fail (admit_owners V raw rv current sourceURL a now (loadOwnerWatches D a) D)))"

section \<open>Ordered observations\<close>

record observed_evidence =
  oe_evidence :: evidence
  oe_eventID :: int
  oe_collectionID :: int
  oe_entryOrdinal :: int
  oe_rawDocumentID :: string
  oe_parentRawID :: string
  oe_observedEndpoint :: string
  oe_observedParentURL :: string

definition observation_of :: "alert_db \<Rightarrow> int \<Rightarrow> observation_row option" where
  "observation_of D i = find (\<lambda>ob. ob_id ob = i) (adb_observations D)"

definition collection_of :: "alert_db \<Rightarrow> int \<Rightarrow> collection_row option" where
  "collection_of D i = find (\<lambda>c. co_id c = i) (adb_collections D)"

definition observed_row :: "observation_row \<Rightarrow> collection_row \<Rightarrow> observed_columns \<Rightarrow> observed_evidence" where
  "observed_row ob c cols =
     \<lparr>oe_evidence = (oc_evidence cols)\<lparr>ev_sourceID := co_source_id c, ev_entryRowID := ob_source_entry_id ob, ev_observedAt := co_observed_at c\<rparr>,
      oe_eventID = ob_id ob, oe_collectionID = co_id c, oe_entryOrdinal = ob_entry_ordinal ob,
      oe_rawDocumentID = ob_child_raw_document_id ob, oe_parentRawID = co_parent_raw_document_id c,
      oe_observedEndpoint = oc_endpoint cols, oe_observedParentURL = oc_parentURL cols\<rparr>"

definition loadObservationEvidenceState ::
    "alert_env \<Rightarrow> alert_db \<Rightarrow> int \<Rightarrow> string \<Rightarrow> string \<Rightarrow> bool \<Rightarrow> store_alert_error + observed_evidence option" where
  "loadObservationEvidenceState V D eventID rv st lock =
     (case observation_of D eventID of
        None \<Rightarrow> Inr None
      | Some ob \<Rightarrow>
          (case collection_of D (ob_collection_id ob) of
             None \<Rightarrow> Inr None
           | Some c \<Rightarrow>
               if ob_state ob \<noteq> st \<or> co_state c \<noteq> st \<or> co_split_completed_at c = None
                  \<or> (case co_entry_count c of None \<Rightarrow> True | Some n \<Rightarrow> ob_entry_ordinal ob \<ge> n)
               then Inr None
               else (case ae_observed V lock ob c rv of
                  None \<Rightarrow> Inl (AlertError ''load advisory observation evidence'')
                | Some None \<Rightarrow> Inr None
                | Some (Some cols) \<Rightarrow>
                    if \<not> officialAdvisoryParent (al_lib V) (ev_endpointURL (oc_evidence cols)) (ev_parentURL (oc_evidence cols))
                       \<or> \<not> officialAdvisoryParent (al_lib V) (oc_endpoint cols) (oc_parentURL cols)
                       \<or> \<not> officialAdvisoryEndpoint (al_lib V) (oc_endpoint cols)
                    then Inl (AlertError ''advisory observation parent is not official'')
                    else Inr (Some (observed_row ob c cols)))))"

definition sameObservationEvidence :: "observed_evidence \<Rightarrow> observed_evidence \<Rightarrow> bool" where
  "sameObservationEvidence x y \<longleftrightarrow>
     same_evidence (oe_evidence x) (oe_evidence y) \<and> oe_eventID x = oe_eventID y \<and> oe_collectionID x = oe_collectionID y
     \<and> oe_entryOrdinal x = oe_entryOrdinal y \<and> oe_rawDocumentID x = oe_rawDocumentID y \<and> oe_parentRawID x = oe_parentRawID y
     \<and> oe_observedEndpoint x = oe_observedEndpoint y \<and> oe_observedParentURL x = oe_observedParentURL y"

definition observationProcessed :: "alert_db \<Rightarrow> int \<Rightarrow> store_alert_error + bool" where
  "observationProcessed D eventID =
     (case observation_of D eventID of
        None \<Rightarrow> Inl (AlertError ''advisory observation does not exist'')
      | Some ob \<Rightarrow> Inr (ob_state ob = ''processed''))"

definition requireEarliestObservation :: "alert_db \<Rightarrow> observed_evidence \<Rightarrow> store_alert_error option" where
  "requireEarliestObservation D current =
     (if (\<exists>c\<in>set (adb_collections D). co_source_id c = ev_sourceID (oe_evidence current) \<and> co_id c < oe_collectionID current \<and> co_state c = ''pending'')
         \<or> (\<exists>ob\<in>set (adb_observations D). ob_collection_id ob = oe_collectionID current \<and> ob_entry_ordinal ob < oe_entryOrdinal current
               \<and> ob_state ob = ''pending'')
      then Some (AlertError ''advisory observation is behind an earlier pending event'') else None)"

text \<open>The latest episode of a package's alert and its document.\<close>

definition latest_episode :: "alert_db \<Rightarrow> string \<times> string \<times> string \<times> string \<Rightarrow> (alert_row \<times> raw_row) option" where
  "latest_episode D key =
     (case rev (sort_key al_episode_number (filter (\<lambda>a. alert_key a = key \<and> raw_of D (al_raw_document_id a) \<noteq> None) (adb_alerts D))) of
        [] \<Rightarrow> None
      | a # _ \<Rightarrow> map_option (\<lambda>r. (a, r)) (raw_of D (al_raw_document_id a)))"

definition nextAlertEpisode :: "alert_db \<Rightarrow> string \<times> string \<times> string \<times> string \<Rightarrow> string \<Rightarrow> store_alert_error + int" where
  "nextAlertEpisode D key entryRowID =
     (case latest_episode D key of
        None \<Rightarrow> Inr 1
      | Some (a, r) \<Rightarrow>
          if rw_source_entry_id r = None then Inl (AlertError ''inspect latest critical alert episode'')
          else if al_corrected_at a = None then Inr 0
          else if rw_source_entry_id r \<noteq> Some entryRowID then Inr 0
          else if adb_legacy_key D then Inl ErrEpisodeCutoverPending
          else if al_episode_number a \<ge> 2 ^ 31 - 1 then Inl (AlertError ''critical alert episode limit reached'')
          else Inr (al_episode_number a + 1))"

fun observed_matches ::
    "alert_env \<Rightarrow> observed_evidence \<Rightarrow> string \<Rightarrow> string \<Rightarrow> string \<Rightarrow> owner_watches \<Rightarrow> time \<Rightarrow> match_result list \<Rightarrow> alert_db \<Rightarrow> store_alert_error + alert_db" where
  "observed_matches V current rv sourceURL advisoryID owner scheduledAt [] D = Inr D"
| "observed_matches V current rv sourceURL advisoryID owner scheduledAt (m # ms) D =
     and_then (nextAlertEpisode D (ow_userID owner, advisoryID, vul_Ecosystem (res_Vulnerability m), vul_PackageName (res_Vulnerability m))
         (ev_entryRowID (oe_evidence current))) (\<lambda>episode.
       if episode = 0 then observed_matches V current rv sourceURL advisoryID owner scheduledAt ms D
       else and_then (insertMatch V (oe_rawDocumentID current) rv (oe_evidence current) sourceURL advisoryID (ow_userID owner) m
                (ow_channels owner) scheduledAt episode (Some (oe_eventID current)) D)
              (\<lambda>D'. observed_matches V current rv sourceURL advisoryID owner scheduledAt ms D'))"

fun observed_owners ::
    "alert_env \<Rightarrow> observed_evidence \<Rightarrow> string \<Rightarrow> string \<Rightarrow> advisory \<Rightarrow> time \<Rightarrow> owner_watches list \<Rightarrow> alert_db \<Rightarrow> store_alert_error + alert_db" where
  "observed_owners V current rv sourceURL a now [] D = Inr D"
| "observed_owners V current rv sourceURL a now (owner # owners) D =
     (let ms = Match a (ow_watches owner) in
      if ms = [] then observed_owners V current rv sourceURL a now owners D
      else (case DeliveryAt (al_tz V) now (ow_quiet owner) of
              Inl e \<Rightarrow> Inl (AlertQuiet (ow_userID owner) e)
            | Inr scheduledAt \<Rightarrow>
                and_then (observed_matches V current rv sourceURL (adv_ID a) owner scheduledAt ms D)
                  (\<lambda>D'. observed_owners V current rv sourceURL a now owners D')))"

definition admitObservedAlerts ::
    "alert_env \<Rightarrow> observed_evidence \<Rightarrow> string \<Rightarrow> advisory \<Rightarrow> string \<Rightarrow> time \<Rightarrow> alert_db \<Rightarrow> store_alert_error + alert_db" where
  "admitObservedAlerts V current rv a sourceURL now D = observed_owners V current rv sourceURL a now (loadOwnerWatches D a) D"

text \<open>Whether an observation named by an alert is the current one or a later one; an alert without one is not.\<close>

definition current_or_later :: "alert_db \<Rightarrow> observed_evidence \<Rightarrow> int option \<Rightarrow> bool" where
  "current_or_later D current i =
     (case i of None \<Rightarrow> False
      | Some i \<Rightarrow> (case observation_of D i of
          None \<Rightarrow> False
        | Some ob \<Rightarrow> (ob_collection_id ob, ob_entry_ordinal ob) \<ge> (oe_collectionID current, oe_entryOrdinal current)))"

definition target_key :: "alert_row \<Rightarrow> string" where
  "target_key a = al_user_id a @ [CHR 0x00] @ al_ecosystem a @ [CHR 0x00] @ al_package_name a"

text \<open>The latest episode of each package in the sorted rows, unless this event or a later one opened or corrected it.\<close>

fun correction_targets :: "alert_db \<Rightarrow> observed_evidence \<Rightarrow> string \<Rightarrow> alert_row list \<Rightarrow> string list" where
  "correction_targets D current lastKey [] = []"
| "correction_targets D current lastKey (a # rows) =
     (if target_key a = lastKey then correction_targets D current lastKey rows
      else if current_or_later D current (al_opening_observation_id a) \<or> current_or_later D current (al_correction_observation_id a)
      then correction_targets D current (target_key a) rows
      else al_id a # correction_targets D current (target_key a) rows)"

definition episode_rows :: "alert_db \<Rightarrow> observed_evidence \<Rightarrow> string \<Rightarrow> alert_row list" where
  "episode_rows D current advisoryID =
     sort_key (\<lambda>a. (al_user_id a, al_ecosystem a, al_package_name a, - al_episode_number a))
       (filter (\<lambda>a. al_advisory_id a = advisoryID
          \<and> (case raw_of D (al_raw_document_id a) of None \<Rightarrow> False
             | Some r \<Rightarrow> rw_source_entry_id r = Some (ev_entryRowID (oe_evidence current)))) (adb_alerts D))"

definition correctObservedAlerts ::
    "alert_env \<Rightarrow> observed_evidence \<Rightarrow> string \<Rightarrow> string \<Rightarrow> string \<Rightarrow> time \<Rightarrow> alert_db \<Rightarrow> alert_db" where
  "correctObservedAlerts V current rv advisoryID reason now D =
     (let ids = correction_targets D current [] (episode_rows D current advisoryID) in
      suppress_deliveries ids
        (D\<lparr>adb_alerts := map (\<lambda>a. if al_id a \<in> set ids
             then correct_row reason rv (pg_time (al_pg V) now) (Some (oe_eventID current)) a else a) (adb_alerts D)\<rparr>))"

section \<open>Acknowledgement\<close>

text \<open>The oldest pending collection of a source, and the first pending event of a collection.\<close>

definition next_collection :: "alert_db \<Rightarrow> string \<Rightarrow> collection_row option" where
  "next_collection D sourceID =
     (case sort_key co_id (filter (\<lambda>c. co_source_id c = sourceID \<and> co_state c = ''pending'') (adb_collections D)) of
        [] \<Rightarrow> None | c # _ \<Rightarrow> Some c)"

definition next_event :: "alert_db \<Rightarrow> int \<Rightarrow> (observation_row \<times> raw_row) option" where
  "next_event D collectionID =
     (case sort_key (\<lambda>ob. (ob_entry_ordinal ob, ob_id ob))
         (filter (\<lambda>ob. ob_collection_id ob = collectionID \<and> ob_state ob = ''pending'' \<and> raw_of D (ob_child_raw_document_id ob) \<noteq> None) (adb_observations D)) of
        [] \<Rightarrow> None | ob # _ \<Rightarrow> map_option (\<lambda>r. (ob, r)) (raw_of D (ob_child_raw_document_id ob)))"

definition mark_parse :: "string \<Rightarrow> alert_db \<Rightarrow> alert_db" where
  "mark_parse i D =
     D\<lparr>adb_raw := map (\<lambda>r. if rw_id r = i \<and> rw_ingestion_error_code r = None
         then r\<lparr>rw_ingestion_error_code := Some ''pending_parse''\<rparr> else r) (adb_raw D)\<rparr>"

definition enqueueNextObservation :: "alert_env \<Rightarrow> string \<Rightarrow> alert_db \<Rightarrow> store_alert_error + alert_db" where
  "enqueueNextObservation V sourceID D =
     (case next_collection D sourceID of
        None \<Rightarrow> Inr D
      | Some c \<Rightarrow>
          if co_split_completed_at c = None then enqueue_only V (SplitAdvisoryObservation (co_id c)) D
          else (case next_event D (co_id c) of
            None \<Rightarrow> Inl (AlertError ''pending advisory collection has no pending entry event'')
          | Some (ob, r) \<Rightarrow>
              (case (ae_revision V (rw_id r), rw_ingestion_error_code r) of
                 (Some rv, None) \<Rightarrow> enqueue_only V (AssessAdvisoryObservation (ob_id ob) rv) D
               | _ \<Rightarrow>
                   (case (rw_registry_id r, rw_object_key r) of
                      (Some registry, Some _) \<Rightarrow>
                        enqueue_only V (ParseRawDocument (rw_id r) registry)
                          (if rw_ingestion_error_code r = None then mark_parse (rw_id r) D else D)
                    | _ \<Rightarrow> Inr D))))"

definition process_event :: "int \<Rightarrow> time \<Rightarrow> alert_db \<Rightarrow> alert_db" where
  "process_event eventID now D =
     D\<lparr>adb_observations := map (\<lambda>ob. if ob_id ob = eventID \<and> ob_state ob = ''pending''
         then ob\<lparr>ob_state := ''processed'', ob_processed_at := Some now\<rparr> else ob) (adb_observations D)\<rparr>"

definition collection_complete :: "alert_db \<Rightarrow> collection_row \<Rightarrow> bool" where
  "collection_complete D c \<longleftrightarrow>
     (let events = filter (\<lambda>ob. ob_collection_id ob = co_id c) (adb_observations D) in
      co_entry_count c = Some (int (length events)) \<and> list_all (\<lambda>ob. ob_state ob \<noteq> ''pending'') events)"

definition complete_collection :: "int \<Rightarrow> time \<Rightarrow> alert_db \<Rightarrow> alert_db" where
  "complete_collection i now D =
     D\<lparr>adb_collections := map (\<lambda>c. case co_split_completed_at c of
           None \<Rightarrow> c
         | Some split \<Rightarrow>
             if co_id c = i \<and> co_state c = ''pending'' \<and> collection_complete D c
             then c\<lparr>co_state := ''processed'', co_processed_at := Some (max now split)\<rparr> else c) (adb_collections D)\<rparr>"

definition clear_parent :: "string \<Rightarrow> alert_db \<Rightarrow> alert_db" where
  "clear_parent i D =
     D\<lparr>adb_raw := map (\<lambda>r. if rw_id r = i \<and> rw_ingestion_error_code r = Some ''pending_observation''
           \<and> list_all (\<lambda>c. co_parent_raw_document_id c = rw_id r \<longrightarrow> co_state c \<noteq> ''pending'') (adb_collections D)
         then r\<lparr>rw_ingestion_error_code := None\<rparr> else r) (adb_raw D)\<rparr>"

definition acknowledgeObservation :: "alert_env \<Rightarrow> observed_evidence \<Rightarrow> time \<Rightarrow> alert_db \<Rightarrow> store_alert_error + alert_db" where
  "acknowledgeObservation V current now D =
     (let affected = filter (\<lambda>ob. ob_id ob = oe_eventID current \<and> ob_state ob = ''pending'') (adb_observations D);
          stored = pg_time (al_pg V) now in
      if length affected \<noteq> 1 then Inl (AlertError ''advisory entry observation was already acknowledged'')
      else enqueueNextObservation V (ev_sourceID (oe_evidence current))
        (clear_parent (oe_parentRawID current) (complete_collection (oe_collectionID current) stored (process_event (oe_eventID current) stored D))))"

definition observation_decision ::
    "alert_env \<Rightarrow> observed_evidence \<Rightarrow> string \<Rightarrow> advisory \<Rightarrow> string \<Rightarrow> time \<Rightarrow> alert_db \<Rightarrow> store_alert_error + alert_db" where
  "observation_decision V current rv a sourceURL now D =
     (if advisoryCorrectionReason a \<noteq> []
      then Inr (correctObservedAlerts V current rv (adv_ID a) (advisoryCorrectionReason a) now D)
      else admitObservedAlerts V current rv a sourceURL now D)"

text \<open>The transaction of \<open>AssessObservation\<close>, after the evidence was read once without a lock.\<close>

definition observation_tx ::
    "alert_env \<Rightarrow> int \<Rightarrow> string \<Rightarrow> observed_evidence \<Rightarrow> advisory \<Rightarrow> string \<Rightarrow> time \<Rightarrow> alert_db \<Rightarrow> (alert_db, store_alert_error + unit) tx_end" where
  "observation_tx V eventID rv preflight a sourceURL now D =
     (if \<not> ae_source_exists V (ev_sourceID (oe_evidence preflight)) then Rollback (Inl (AlertError ''lock advisory observation source''))
      else (case loadObservationEvidenceState V D eventID rv ''pending'' True of
        Inl e \<Rightarrow> Rollback (Inl e)
      | Inr None \<Rightarrow>
          (case observationProcessed D eventID of
             Inl e \<Rightarrow> Rollback (Inl e)
           | Inr processed \<Rightarrow> Rollback (if processed then Inr () else Inl (AlertError ''advisory observation lost validated evidence'')))
      | Inr (Some current) \<Rightarrow>
          if \<not> sameObservationEvidence preflight current then Rollback (Inl (AlertError ''advisory observation evidence changed during assessment''))
          else (case requireEarliestObservation D current of
             Some e \<Rightarrow> Rollback (Inl e)
           | None \<Rightarrow>
               if \<not> bounds_ok (oe_evidence current) sourceURL then Rollback (Inl (AlertError ''advisory title or source URL exceeds alert bounds''))
               else commit_or_fail (and_then (observation_decision V current rv a sourceURL now D) (\<lambda>D1. acknowledgeObservation V current now D1)))))"

text \<open>The whole operation; \<open>others\<close> is what other transactions commit between the first read and this transaction.\<close>

definition AssessObservation ::
    "alert_env \<Rightarrow> tx_fate \<Rightarrow> (alert_db \<Rightarrow> alert_db) \<Rightarrow> time \<Rightarrow> int \<Rightarrow> string \<Rightarrow> alert_db \<Rightarrow> (store_alert_error + unit) \<times> alert_db" where
  "AssessObservation V fate others now eventID revisionID D =
     (if eventID \<le> 0 then (Inl (AlertError ''advisory observation ID must be positive''), D)
      else if \<not> uuid_ok (al_pg V) revisionID then (Inl (AlertError ''advisory observation revision ID is invalid''), D)
      else (case alert_uuid V revisionID of
        Inl e \<Rightarrow> (Inl e, D)
      | Inr rv \<Rightarrow>
          (case loadObservationEvidenceState V D eventID rv ''pending'' False of
             Inl e \<Rightarrow> (Inl e, D)
           | Inr None \<Rightarrow>
               (case observationProcessed D eventID of
                  Inl e \<Rightarrow> (Inl e, D)
                | Inr processed \<Rightarrow> (if processed then Inr () else Inl (AlertError ''advisory observation lacks validated parsed evidence''), D))
           | Inr (Some preflight) \<Rightarrow>
               (case readAdvisory (al_lib V) (oe_evidence preflight) of
                  Inl e \<Rightarrow> (Inl (AlertError e), D)
                | Inr (a, sourceURL) \<Rightarrow>
                    if is_zero now then (Inl (AlertError ''critical advisory assessment clock is zero''), D)
                    else run_end fate (Inl (AlertError ''advisory observation assessment'')) (observation_tx V eventID rv preflight a sourceURL now) (others D)))))"

section \<open>Backfill and catch-up\<close>

definition source_pending :: "alert_db \<Rightarrow> string \<Rightarrow> bool" where
  "source_pending D sourceID \<longleftrightarrow> (\<exists>c\<in>set (adb_collections D). co_source_id c = sourceID \<and> co_state c = ''pending'')"

definition latest_event :: "alert_db \<Rightarrow> string \<Rightarrow> observation_row option" where
  "latest_event D entry =
     (case rev (sort_key (\<lambda>ob. (ob_collection_id ob, ob_entry_ordinal ob))
         (filter (\<lambda>ob. ob_source_entry_id ob = entry \<and> collection_of D (ob_collection_id ob) \<noteq> None) (adb_observations D))) of
        [] \<Rightarrow> None | ob # _ \<Rightarrow> Some ob)"

definition currentObservedBackfillEvidenceExpected :: "alert_env \<Rightarrow> int \<Rightarrow> string \<Rightarrow> string \<Rightarrow> alert_db \<Rightarrow> bool" where
  "currentObservedBackfillEvidenceExpected V eventID raw rv D \<longleftrightarrow>
     (\<exists>ob\<in>set (adb_observations D). ob_id ob = eventID \<and> ob_child_raw_document_id ob = raw \<and> ob_state ob = ''processed''
        \<and> (case collection_of D (ob_collection_id ob) of None \<Rightarrow> False | Some c \<Rightarrow> co_state c = ''processed'')
        \<and> list_all (\<lambda>later. \<not> (ob_source_entry_id later = ob_source_entry_id ob \<and> collection_of D (ob_collection_id later) \<noteq> None
             \<and> (ob_collection_id later, ob_entry_ordinal later) > (ob_collection_id ob, ob_entry_ordinal ob))) (adb_observations D))
     \<and> ae_backfill_expected V raw rv"

definition checkUnavailableObservedBackfillEvidence ::
    "alert_env \<Rightarrow> tx_fate \<Rightarrow> string \<Rightarrow> int \<Rightarrow> string \<Rightarrow> string \<Rightarrow> alert_db \<Rightarrow> (store_alert_error + unit) \<times> alert_db" where
  "checkUnavailableObservedBackfillEvidence V fate sourceID eventID raw rv D =
     run_end fate (Inl (AlertError ''missing advisory backfill check'')) (\<lambda>D.
       if \<not> ae_source_exists V sourceID then Rollback (Inr ())
       else
         (let expected = currentObservedBackfillEvidenceExpected V eventID raw rv D in
          if source_pending D sourceID
          then Rollback (if expected then Inl ErrAdvisoryObservationBackfillPending else Inr ())
          else Rollback (if expected then Inl (AlertError ''current advisory backfill evidence is unavailable or invalid'') else Inr ()))) D"

definition backfill_tx ::
    "alert_env \<Rightarrow> int \<Rightarrow> string \<Rightarrow> string \<Rightarrow> observed_evidence \<Rightarrow> advisory \<Rightarrow> string \<Rightarrow> time \<Rightarrow> alert_db \<Rightarrow> (alert_db, store_alert_error + unit) tx_end" where
  "backfill_tx V eventID raw rv preflight a sourceURL now D =
     (if \<not> ae_source_exists V (ev_sourceID (oe_evidence preflight)) then Rollback (Inl (AlertError ''lock advisory backfill source''))
      else (case latest_event D (ev_entryRowID (oe_evidence preflight)) of
        None \<Rightarrow> Rollback (Inr ())
      | Some latest \<Rightarrow>
          if ob_id latest \<noteq> eventID then Rollback (Inr ())
          else if source_pending D (ev_sourceID (oe_evidence preflight)) then Rollback (Inl ErrAdvisoryObservationBackfillPending)
          else (case loadObservationEvidenceState V D eventID rv ''processed'' True of
            Inl e \<Rightarrow> Rollback (Inl e)
          | Inr None \<Rightarrow>
              Rollback (if currentObservedBackfillEvidenceExpected V eventID raw rv D
                then Inl (AlertError ''current advisory backfill evidence is unavailable or invalid'') else Inr ())
          | Inr (Some current) \<Rightarrow>
              if \<not> sameObservationEvidence preflight current \<or> oe_rawDocumentID current \<noteq> raw
              then Rollback (Inl (AlertError ''advisory backfill evidence changed during assessment''))
              else if \<not> bounds_ok (oe_evidence current) sourceURL then Rollback (Inl (AlertError ''advisory title or source URL exceeds alert bounds''))
              else if advisoryCorrectionReason a \<noteq> []
                   \<or> (ev_itemStatus (oe_evidence current) \<noteq> ''active'' \<and> ev_itemStatus (oe_evidence current) \<noteq> ''updated'')
              then Rollback (Inr ())
              else commit_or_fail (admitObservedAlerts V current rv a sourceURL now D))))"

definition assessObservedBackfill ::
    "alert_env \<Rightarrow> tx_fate \<Rightarrow> (alert_db \<Rightarrow> alert_db) \<Rightarrow> time \<Rightarrow> string \<Rightarrow> string \<Rightarrow> alert_db \<Rightarrow> (store_alert_error + unit) \<times> alert_db" where
  "assessObservedBackfill V fate others now raw revisionID D =
     (case raw_of D raw of
        None \<Rightarrow> (Inr (), D)
      | Some target \<Rightarrow>
          (case Option.bind (rw_source_entry_id target) (latest_event D) of
             None \<Rightarrow> (Inr (), D)
           | Some latest \<Rightarrow>
               if ob_child_raw_document_id latest \<noteq> rw_id target then (Inr (), D)
               else (case alert_uuid V revisionID of
                  Inl e \<Rightarrow> (Inl e, D)
                | Inr rv \<Rightarrow>
               (case loadObservationEvidenceState V D (ob_id latest) rv ''processed'' False of
                  Inl e \<Rightarrow> (Inl e, D)
                | Inr None \<Rightarrow> checkUnavailableObservedBackfillEvidence V fate (rw_source_id target) (ob_id latest) raw rv (others D)
                | Inr (Some preflight) \<Rightarrow>
                    (case readAdvisory (al_lib V) (oe_evidence preflight) of
                       Inl e \<Rightarrow> (Inl (AlertError e), D)
                     | Inr (a, sourceURL) \<Rightarrow>
                         if is_zero now then (Inl (AlertError ''critical advisory backfill clock is zero''), D)
                         else run_end fate (Inl (AlertError ''observed advisory backfill''))
                           (backfill_tx V (ob_id latest) raw rv preflight a sourceURL now) (others D))))))"

definition Assess ::
    "alert_env \<Rightarrow> tx_fate \<Rightarrow> (alert_db \<Rightarrow> alert_db) \<Rightarrow> time \<Rightarrow> string \<Rightarrow> string \<Rightarrow> alert_db \<Rightarrow> (store_alert_error + unit) \<times> alert_db" where
  "Assess V fate others now rawDocumentID revisionID D =
     (case alert_uuid V rawDocumentID of
        Inl e \<Rightarrow> (Inl e, D)
      | Inr raw \<Rightarrow>
          if observationManaged D raw then assessObservedBackfill V fate others now raw revisionID D
          else (case and_then (alert_uuid V revisionID) (\<lambda>rv. and_then (loadEvidence V False raw rv) (\<lambda>found. Inr (rv, found))) of
            Inl e \<Rightarrow> (Inl e, D)
          | Inr (rv, None) \<Rightarrow> (Inr (), D)
          | Inr (rv, Some preflight) \<Rightarrow>
              (case readAdvisory (al_lib V) preflight of
                 Inl e \<Rightarrow> (Inl (AlertError e), D)
               | Inr (a, sourceURL) \<Rightarrow>
                   if is_zero now then (Inl (AlertError ''critical advisory assessment clock is zero''), D)
                   else run_end fate (Inl (AlertError ''critical advisory assessment''))
                     (assess_tx V raw rv preflight a sourceURL now) (others D))))"

definition advisoryCatchUpPageSize :: nat where
  "advisoryCatchUpPageSize = 16"

fun enqueue_page :: "alert_env \<Rightarrow> advisory_revision list \<Rightarrow> alert_db \<Rightarrow> store_alert_error + alert_db" where
  "enqueue_page V [] D = Inr D"
| "enqueue_page V (r # rs) D =
     (if \<not> officialAdvisoryParent (al_lib V) (ar_endpointURL r) (ar_parentURL r) then enqueue_page V rs D
      else if (case raw_of D (ar_rawDocumentID r) of None \<Rightarrow> False | Some raw \<Rightarrow> source_pending D (rw_source_id raw))
      then Inl ErrAdvisoryObservationBackfillPending
      else and_then (enqueue_only V (BackfillCriticalAdvisory (ar_rawDocumentID r) (ar_revisionID r)) D) (\<lambda>D'. enqueue_page V rs D'))"

definition catch_up_tx :: "alert_env \<Rightarrow> string \<Rightarrow> string \<Rightarrow> int \<Rightarrow> string \<Rightarrow> alert_db \<Rightarrow> (alert_db, store_alert_error + unit) tx_end" where
  "catch_up_tx V user userID settingsVersion cursor D =
     (if \<not> (\<exists>w\<in>set (adb_watches D). wr_user_id w = user \<and> wr_ecosystem w \<noteq> None \<and> wr_status w = ''active'') then Commit D (Inr ())
      else
        (let page = take advisoryCatchUpPageSize (ae_page V cursor) in
         commit_or_fail (and_then (enqueue_page V page D) (\<lambda>D'.
           if length page = advisoryCatchUpPageSize
           then enqueue_only V (ReassessCurrentAdvisories userID settingsVersion (ar_revisionID (last page))) D'
           else Inr D'))))"

definition CatchUp :: "alert_env \<Rightarrow> tx_fate \<Rightarrow> string \<Rightarrow> int \<Rightarrow> string \<Rightarrow> alert_db \<Rightarrow> (store_alert_error + unit) \<times> alert_db" where
  "CatchUp V fate userID settingsVersion cursor D =
     (if \<not> uuid_ok (al_pg V) userID \<or> settingsVersion < 1 then (Inl (AlertError ''advisory catch-up requires an owner and settings version''), D)
      else if cursor \<noteq> [] \<and> \<not> uuid_ok (al_pg V) cursor then (Inl (AlertError ''advisory catch-up cursor is invalid''), D)
      else (case alert_uuid V userID of
        Inl e \<Rightarrow> (Inl e, D)
      | Inr user \<Rightarrow> run_end fate (Inl (AlertError ''advisory catch-up page'')) (catch_up_tx V user userID settingsVersion cursor) D))"

end
