(* ===== verification/Alert_Ledger.thy ===== *)
theory Alert_Ledger
  imports Alert_Store
begin

text \<open>
  The invariant of the alert tables and its preservation by admission and correction: episodes of one
  package are numbered without gaps and only the latest may be open, every delivery repeats its
  alert, a corrected alert has nothing left to send, and the attempts are numbered. \<open>ledger_keeps\<close>
  says what no transaction may undo.
\<close>

section \<open>The invariant\<close>

abbreviation corrected :: "alert_row \<Rightarrow> bool" where
  "corrected a \<equiv> al_corrected_at a \<noteq> None"

definition episodes_ok :: "alert_row list \<Rightarrow> bool" where
  "episodes_ok as \<longleftrightarrow>
     distinct (map al_id as) \<and> distinct (map (\<lambda>a. (alert_key a, al_episode_number a)) as)
     \<and> (\<forall>a\<in>set as. 1 \<le> al_episode_number a \<and> (\<forall>k. 1 \<le> k \<and> k \<le> al_episode_number a \<longrightarrow>
          (\<exists>b\<in>set as. alert_key b = alert_key a \<and> al_episode_number b = k)))
     \<and> (\<forall>a\<in>set as. \<forall>b\<in>set as. alert_key a = alert_key b \<and> al_episode_number a < al_episode_number b \<longrightarrow> corrected a)"

definition repeats :: "alert_env \<Rightarrow> alert_row \<Rightarrow> delivery_row \<Rightarrow> bool" where
  "repeats V a d \<longleftrightarrow>
     ad_alert_id d = al_id a \<and> ad_idempotency_key d = delivery_key (al_id a) (ad_channel d)
     \<and> ad_payload_sha256 d = DeliverySHA256 (al_marshal V) (lib_sha256 (al_lib V)) (alert_payload a (ad_channel d) (ad_idempotency_key d) 0)"

definition delivery_state_ok :: "delivery_row \<Rightarrow> bool" where
  "delivery_state_ok d \<longleftrightarrow>
     ad_state d \<in> {''pending'', ''sending'', ''sent'', ''failed'', ''permanent'', ''suppressed''}
     \<and> 0 \<le> ad_attempt_count d \<and> (ad_state d = ''pending'' \<longrightarrow> ad_attempt_count d = 0)
     \<and> (ad_state d \<in> {''sending'', ''sent'', ''failed''} \<longrightarrow> 1 \<le> ad_attempt_count d \<and> ad_last_attempt_at d \<noteq> None)
     \<and> (ad_state d = ''sent'' \<longleftrightarrow> ad_provider_id d \<noteq> None) \<and> (ad_state d = ''sent'' \<longleftrightarrow> ad_delivered_at d \<noteq> None)"

definition deliveries_ok :: "alert_env \<Rightarrow> alert_row list \<Rightarrow> delivery_row list \<Rightarrow> bool" where
  "deliveries_ok V as ds \<longleftrightarrow>
     distinct (map ad_id ds) \<and> distinct (map (\<lambda>d. (ad_alert_id d, ad_channel d)) ds)
     \<and> (\<forall>d\<in>set ds. ad_channel d \<in> {''discord'', ''email''} \<and> delivery_state_ok d \<and> (\<exists>a\<in>set as. repeats V a d))
     \<and> (\<forall>d\<in>set ds. \<forall>a\<in>set as. ad_alert_id d = al_id a \<and> corrected a \<longrightarrow> ad_state d \<noteq> ''pending'' \<and> ad_state d \<noteq> ''failed'')"

text \<open>
  Attempts are numbered up to the delivery's count. A delivery is sent exactly when its last attempt has a receipt, and no other attempt has one.
\<close>

abbreviation has_receipt :: "alert_attempt \<Rightarrow> bool" where
  "has_receipt t \<equiv> aa_outcome t = ''sent'' \<or> aa_provider_id t \<noteq> None"

definition attempts_ok :: "delivery_row list \<Rightarrow> alert_attempt list \<Rightarrow> bool" where
  "attempts_ok ds ts \<longleftrightarrow>
     distinct (map (\<lambda>t. (aa_delivery_id t, aa_number t)) ts)
     \<and> (\<forall>t\<in>set ts. \<exists>d\<in>set ds. ad_id d = aa_delivery_id t \<and> 1 \<le> aa_number t \<and> aa_number t \<le> ad_attempt_count d
          \<and> (ad_state d = ''sending'' \<longrightarrow> aa_number t < ad_attempt_count d)
          \<and> (has_receipt t \<longrightarrow> ad_state d = ''sent'' \<and> aa_number t = ad_attempt_count d))
     \<and> (\<forall>d\<in>set ds. ad_state d = ''sent'' \<longrightarrow>
          (\<exists>t\<in>set ts. aa_delivery_id t = ad_id d \<and> aa_number t = ad_attempt_count d \<and> aa_outcome t = ''sent'' \<and> aa_provider_id t = ad_provider_id d))"

definition raw_known :: "alert_db \<Rightarrow> bool" where
  "raw_known D \<longleftrightarrow> (\<forall>a\<in>set (adb_alerts D). raw_of D (al_raw_document_id a) \<noteq> None)"

definition alert_inv :: "alert_env \<Rightarrow> alert_db \<Rightarrow> bool" where
  "alert_inv V D \<longleftrightarrow> episodes_ok (adb_alerts D) \<and> deliveries_ok V (adb_alerts D) (adb_deliveries D)
     \<and> attempts_ok (adb_deliveries D) (adb_attempts D) \<and> raw_known D"

section \<open>What is never undone\<close>

text \<open>An alert without its correction.\<close>

definition admitted :: "alert_row \<Rightarrow> alert_row" where
  "admitted a = a\<lparr>al_correction_reason := None, al_correction_revision_id := None, al_corrected_at := None, al_correction_observation_id := None\<rparr>"

definition final_state :: "string \<Rightarrow> bool" where
  "final_state st \<longleftrightarrow> st = ''sent'' \<or> st = ''permanent'' \<or> st = ''suppressed''"

definition same_delivery :: "delivery_row \<Rightarrow> delivery_row \<Rightarrow> bool" where
  "same_delivery d d' \<longleftrightarrow>
     ad_id d' = ad_id d \<and> ad_alert_id d' = ad_alert_id d \<and> ad_channel d' = ad_channel d
     \<and> ad_idempotency_key d' = ad_idempotency_key d \<and> ad_payload_sha256 d' = ad_payload_sha256 d
     \<and> ad_attempt_count d \<le> ad_attempt_count d' \<and> (final_state (ad_state d) \<longrightarrow> d' = d)"

definition ledger_keeps :: "alert_db \<Rightarrow> alert_db \<Rightarrow> bool" where
  "ledger_keeps D D' \<longleftrightarrow>
     (\<forall>a\<in>set (adb_alerts D). \<exists>a'\<in>set (adb_alerts D'). admitted a' = admitted a \<and> (corrected a \<longrightarrow> corrected a'))
     \<and> (\<forall>d\<in>set (adb_deliveries D). \<exists>d'\<in>set (adb_deliveries D'). same_delivery d d')
     \<and> set (adb_attempts D) \<subseteq> set (adb_attempts D')"

lemma same_delivery_refl [simp]: "same_delivery d d"
  by (simp add: same_delivery_def)

lemma delivery_kept: "d \<in> A \<Longrightarrow> \<exists>d'\<in>A. same_delivery d d'"
  using same_delivery_refl by blast

lemma same_delivery_trans: "same_delivery d e \<Longrightarrow> same_delivery e f \<Longrightarrow> same_delivery d f"
  by (auto simp: same_delivery_def)

lemma ledger_keeps_refl [simp]: "ledger_keeps D D"
  unfolding ledger_keeps_def using same_delivery_refl by blast

lemma ledger_keeps_trans:
  assumes "ledger_keeps D E" "ledger_keeps E F"
  shows "ledger_keeps D F"
proof -
  have "\<exists>a'\<in>set (adb_alerts F). admitted a' = admitted a \<and> (corrected a \<longrightarrow> corrected a')" if "a \<in> set (adb_alerts D)" for a
    using assms that unfolding ledger_keeps_def by metis
  moreover have "\<exists>d'\<in>set (adb_deliveries F). same_delivery d d'" if "d \<in> set (adb_deliveries D)" for d
    using assms that unfolding ledger_keeps_def by (meson same_delivery_trans)
  moreover have "set (adb_attempts D) \<subseteq> set (adb_attempts F)" using assms unfolding ledger_keeps_def by blast
  ultimately show ?thesis unfolding ledger_keeps_def by blast
qed

text \<open>A transition that is sound: it keeps the invariant and undoes nothing.\<close>

definition ledger_sound :: "alert_env \<Rightarrow> alert_db \<Rightarrow> alert_db \<Rightarrow> bool" where
  "ledger_sound V D D' \<longleftrightarrow> (alert_inv V D \<longrightarrow> alert_inv V D' \<and> ledger_keeps D D')"

lemma ledger_sound_refl [simp]: "ledger_sound V D D"
  by (simp add: ledger_sound_def)

lemma ledger_sound_trans: "ledger_sound V D E \<Longrightarrow> ledger_sound V E F \<Longrightarrow> ledger_sound V D F"
  using ledger_keeps_trans unfolding ledger_sound_def by blast

text \<open>Transactions that leave the three tables and the documents' identities alone.\<close>

definition same_ledger :: "alert_db \<Rightarrow> alert_db \<Rightarrow> bool" where
  "same_ledger D D' \<longleftrightarrow> adb_alerts D' = adb_alerts D \<and> adb_deliveries D' = adb_deliveries D \<and> adb_attempts D' = adb_attempts D
     \<and> (\<forall>i. raw_of D i \<noteq> None \<longrightarrow> raw_of D' i \<noteq> None)"

lemma same_ledger_sound: "same_ledger D D' \<Longrightarrow> ledger_sound V D D'"
proof -
  assume same: "same_ledger D D'"
  have "ledger_keeps D D'" using same by (auto simp: ledger_keeps_def same_ledger_def intro: delivery_kept)
  moreover have "alert_inv V D'" if "alert_inv V D" using that same by (simp add: alert_inv_def same_ledger_def raw_known_def)
  ultimately show ?thesis by (simp add: ledger_sound_def)
qed

lemma same_ledger_refl [simp]: "same_ledger D D"
  by (simp add: same_ledger_def)

lemma same_ledger_trans: "same_ledger D E \<Longrightarrow> same_ledger E F \<Longrightarrow> same_ledger D F"
  by (simp add: same_ledger_def)

lemma enqueue_alert_job_same: "enqueue_alert_job V j D = Inr (D', b) \<Longrightarrow> same_ledger D D'"
  by (auto simp: enqueue_alert_job_def same_ledger_def raw_of_def split: option.split_asm if_split_asm)

lemma enqueue_only_same: "enqueue_only V j D = Inr D' \<Longrightarrow> same_ledger D D'"
  using enqueue_alert_job_same by (auto simp: enqueue_only_def go_result)

section \<open>Updates row by row\<close>

text \<open>What may happen to an alert after its admission.\<close>

definition corrects :: "alert_row \<Rightarrow> alert_row \<Rightarrow> bool" where
  "corrects a a' \<longleftrightarrow> admitted a' = admitted a \<and> (corrected a \<longrightarrow> corrected a')"

lemma corrects_refl [simp]: "corrects a a"
  by (simp add: corrects_def)

lemma corrects_row [simp]: "corrects a (correct_row reason rv now ob a)"
  by (simp add: corrects_def admitted_def correct_row_def)

lemma corrects_sel:
  assumes "corrects a a'"
  shows "al_id a' = al_id a" "alert_key a' = alert_key a" "al_episode_number a' = al_episode_number a"
    "al_raw_document_id a' = al_raw_document_id a" "alert_payload a' = alert_payload a" "repeats V a' d = repeats V a d"
proof -
  have eq: "admitted a' = admitted a" using assms by (simp add: corrects_def)
  have "al_id (admitted b) = al_id b" "alert_key (admitted b) = alert_key b" "al_episode_number (admitted b) = al_episode_number b"
    "al_raw_document_id (admitted b) = al_raw_document_id b" "alert_payload (admitted b) = alert_payload b" for b
    by (simp_all add: admitted_def alert_key_def alert_payload_def fun_eq_iff)
  with eq show *: "al_id a' = al_id a" "alert_key a' = alert_key a" "al_episode_number a' = al_episode_number a"
    "al_raw_document_id a' = al_raw_document_id a" "alert_payload a' = alert_payload a" by metis+
  show "repeats V a' d = repeats V a d" unfolding repeats_def * ..
qed

lemma episodes_ok_map:
  assumes "episodes_ok as" and f: "\<And>a. a \<in> set as \<Longrightarrow> corrects a (f a)"
  shows "episodes_ok (map f as)"
proof -
  note sel = corrects_sel [OF f]
  have ids: "map (al_id \<circ> f) as = map al_id as" "map ((\<lambda>a. (alert_key a, al_episode_number a)) \<circ> f) as = map (\<lambda>a. (alert_key a, al_episode_number a)) as"
    using sel by simp_all
  have keep: "corrected a \<Longrightarrow> corrected (f a)" if "a \<in> set as" for a using f [OF that] by (simp add: corrects_def)
  show ?thesis
    using assms(1) unfolding episodes_ok_def map_map ids set_map ball_simps bex_simps
    by (intro conjI ballI impI) (use sel keep in \<open>simp_all\<close>)
qed

lemma deliveries_ok_map:
  assumes "deliveries_ok V as ds" and f: "\<And>a. a \<in> set as \<Longrightarrow> corrects a (f a)"
    and g: "\<And>d. d \<in> set ds \<Longrightarrow> same_delivery d (g d)" "\<And>d. d \<in> set ds \<Longrightarrow> delivery_state_ok (g d)"
    and unsent: "\<And>d a. d \<in> set ds \<Longrightarrow> a \<in> set as \<Longrightarrow> ad_alert_id d = al_id a \<Longrightarrow> corrected (f a)
       \<Longrightarrow> ad_state (g d) \<noteq> ''pending'' \<and> ad_state (g d) \<noteq> ''failed''"
  shows "deliveries_ok V (map f as) (map g ds)"
proof -
  note sel = corrects_sel [OF f]
  have gs: "ad_id (g d) = ad_id d" "ad_alert_id (g d) = ad_alert_id d" "ad_channel (g d) = ad_channel d"
    "repeats V a (g d) = repeats V a d" if "d \<in> set ds" for d a
    using g(1) [OF that] by (simp_all add: same_delivery_def repeats_def)
  have ids: "map (ad_id \<circ> g) ds = map ad_id ds" "map ((\<lambda>d. (ad_alert_id d, ad_channel d)) \<circ> g) ds = map (\<lambda>d. (ad_alert_id d, ad_channel d)) ds"
    using gs by simp_all
  show ?thesis
    using assms(1) unfolding deliveries_ok_def map_map ids set_map ball_simps bex_simps
    by (intro conjI ballI impI) (use sel gs g(2) unsent in \<open>auto\<close>)
qed

lemma ledger_update:
  assumes "adb_alerts D' = map f (adb_alerts D)" "adb_deliveries D' = map g (adb_deliveries D)" "adb_attempts D' = adb_attempts D @ new"
    "\<And>i. raw_of D i \<noteq> None \<Longrightarrow> raw_of D' i \<noteq> None"
    and f: "\<And>a. a \<in> set (adb_alerts D) \<Longrightarrow> corrects a (f a)"
    and g: "\<And>d. alert_inv V D \<Longrightarrow> d \<in> set (adb_deliveries D) \<Longrightarrow> same_delivery d (g d) \<and> delivery_state_ok (g d)"
    and unsent: "\<And>d a. alert_inv V D \<Longrightarrow> d \<in> set (adb_deliveries D) \<Longrightarrow> a \<in> set (adb_alerts D) \<Longrightarrow> ad_alert_id d = al_id a
       \<Longrightarrow> corrected (f a) \<Longrightarrow> ad_state (g d) \<noteq> ''pending'' \<and> ad_state (g d) \<noteq> ''failed''"
    and t: "alert_inv V D \<Longrightarrow> attempts_ok (map g (adb_deliveries D)) (adb_attempts D @ new)"
  shows "ledger_sound V D D'"
  unfolding ledger_sound_def
proof (intro impI conjI)
  assume inv: "alert_inv V D"
  then have e: "episodes_ok (adb_alerts D)" and d: "deliveries_ok V (adb_alerts D) (adb_deliveries D)" and r: "raw_known D"
    by (simp_all add: alert_inv_def)
  show "ledger_keeps D D'"
    unfolding ledger_keeps_def assms(1-3) set_map bex_simps using f g [OF inv] unfolding corrects_def by auto
  have "episodes_ok (adb_alerts D')" unfolding assms(1) by (rule episodes_ok_map [OF e f])
  moreover have "deliveries_ok V (adb_alerts D') (adb_deliveries D')"
    unfolding assms(1,2) using g [OF inv] unsent [OF inv] by (intro deliveries_ok_map [OF d f]) blast+
  moreover have "attempts_ok (adb_deliveries D') (adb_attempts D')" unfolding assms(2,3) by (rule t [OF inv])
  moreover have "raw_known D'" using r assms(4) corrects_sel(4) [OF f] unfolding raw_known_def assms(1) set_map ball_simps by simp
  ultimately show "alert_inv V D'" by (simp add: alert_inv_def)
qed

section \<open>Corrections\<close>

lemma attempts_ok_map:
  assumes "attempts_ok ds ts" and g: "\<And>d. d \<in> set ds \<Longrightarrow> same_delivery d (g d)"
    and settled: "\<And>d. d \<in> set ds \<Longrightarrow> ad_state (g d) = ''sending'' \<or> ad_state (g d) = ''sent'' \<Longrightarrow> g d = d"
  shows "attempts_ok (map g ds) ts"
proof -
  have gs: "ad_id (g d) = ad_id d" "ad_attempt_count d \<le> ad_attempt_count (g d)" if "d \<in> set ds" for d
    using g [OF that] by (simp_all add: same_delivery_def)
  have "\<exists>e\<in>set (map g ds). ad_id e = aa_delivery_id t \<and> 1 \<le> aa_number t \<and> aa_number t \<le> ad_attempt_count e
      \<and> (ad_state e = ''sending'' \<longrightarrow> aa_number t < ad_attempt_count e)
      \<and> (has_receipt t \<longrightarrow> ad_state e = ''sent'' \<and> aa_number t = ad_attempt_count e)" if t: "t \<in> set ts" for t
  proof -
    obtain d where d: "d \<in> set ds" "ad_id d = aa_delivery_id t" "1 \<le> aa_number t" "aa_number t \<le> ad_attempt_count d"
      "ad_state d = ''sending'' \<longrightarrow> aa_number t < ad_attempt_count d" "has_receipt t \<longrightarrow> ad_state d = ''sent'' \<and> aa_number t = ad_attempt_count d"
      using assms(1) t unfolding attempts_ok_def by blast
    have "ad_state d = ''sent'' \<Longrightarrow> g d = d" using g [OF d(1)] by (simp add: same_delivery_def final_state_def)
    then show ?thesis using d(2-6) gs [OF d(1)] settled [OF d(1)] by (intro bexI [of _ "g d"]) (use d(1) in auto)
  qed
  moreover have "\<exists>t\<in>set ts. aa_delivery_id t = ad_id e \<and> aa_number t = ad_attempt_count e \<and> aa_outcome t = ''sent'' \<and> aa_provider_id t = ad_provider_id e"
    if e: "e \<in> set (map g ds)" "ad_state e = ''sent''" for e
  proof -
    obtain d where "d \<in> set ds" "e = g d" using e by auto
    then show ?thesis using settled e(2) assms(1) unfolding attempts_ok_def by metis
  qed
  ultimately show ?thesis using assms(1) unfolding attempts_ok_def by blast
qed

definition suppress_row :: "string list \<Rightarrow> delivery_row \<Rightarrow> delivery_row" where
  "suppress_row ids d = (if ad_alert_id d \<in> set ids \<and> (ad_state d = ''pending'' \<or> ad_state d = ''failed'')
     then d\<lparr>ad_state := ''suppressed''\<rparr> else d)"

lemma suppress_row_same: "delivery_state_ok d \<Longrightarrow> same_delivery d (suppress_row ids d) \<and> delivery_state_ok (suppress_row ids d)"
  by (auto simp: suppress_row_def same_delivery_def delivery_state_ok_def final_state_def)

text \<open>Correcting alerts and suppressing what they have left to send.\<close>

lemma correction_sound:
  assumes "\<And>a. a \<in> set (adb_alerts D) \<Longrightarrow> corrects a (f a)"
    and "\<And>a. a \<in> set (adb_alerts D) \<Longrightarrow> corrected (f a) \<Longrightarrow> \<not> corrected a \<Longrightarrow> al_id a \<in> set ids"
  shows "ledger_sound V D (suppress_deliveries ids (D\<lparr>adb_alerts := map f (adb_alerts D)\<rparr>))"
proof (rule ledger_update [where f = f and g = "suppress_row ids" and new = "[]"])
  have okd: "delivery_state_ok d" if "alert_inv V D" "d \<in> set (adb_deliveries D)" for d
    using that by (auto simp: alert_inv_def deliveries_ok_def)
  show "same_delivery d (suppress_row ids d) \<and> delivery_state_ok (suppress_row ids d)" if "alert_inv V D" "d \<in> set (adb_deliveries D)" for d
    using suppress_row_same okd [OF that] by blast
  show "ad_state (suppress_row ids d) \<noteq> ''pending'' \<and> ad_state (suppress_row ids d) \<noteq> ''failed''"
    if "alert_inv V D" "d \<in> set (adb_deliveries D)" "a \<in> set (adb_alerts D)" "ad_alert_id d = al_id a" "corrected (f a)" for d a
  proof (cases "corrected a")
    case True
    then have "ad_state d \<noteq> ''pending'' \<and> ad_state d \<noteq> ''failed''" using that unfolding alert_inv_def deliveries_ok_def by blast
    then show ?thesis by (simp add: suppress_row_def)
  next
    case False
    then show ?thesis using assms(2) that by (simp add: suppress_row_def)
  qed
  show "attempts_ok (map (suppress_row ids) (adb_deliveries D)) (adb_attempts D @ [])" if inv: "alert_inv V D"
  proof -
    have "attempts_ok (adb_deliveries D) (adb_attempts D)" using inv by (simp add: alert_inv_def)
    moreover have "suppress_row ids d = d" if "ad_state (suppress_row ids d) = ''sending'' \<or> ad_state (suppress_row ids d) = ''sent''" for d
      using that by (auto simp: suppress_row_def split: if_split_asm)
    ultimately show ?thesis using suppress_row_same okd [OF inv] by (simp add: attempts_ok_map)
  qed
qed (use assms(1) in \<open>auto simp: suppress_deliveries_def suppress_row_def raw_of_def\<close>)

lemma suppressCorrected_sound: "ledger_sound V D (suppressCorrectedAlertDeliveries V current raw rv advisoryID reason now D)"
  unfolding suppressCorrectedAlertDeliveries_def Let_def by (rule correction_sound) (auto split: if_split_asm)

lemma correctObservedAlerts_sound: "ledger_sound V D (correctObservedAlerts V current rv advisoryID reason now D)"
  unfolding correctObservedAlerts_def Let_def by (rule correction_sound) (auto split: if_split_asm)

section \<open>Admission\<close>

text \<open>Adding one pending delivery of an open alert.\<close>

lemma insert_delivery_sound:
  assumes ins: "insert_delivery (pending_delivery V a channel t D) D = Inr D'" and a: "a \<in> set (adb_alerts D)" "\<not> corrected a"
    and ch: "channel = ''discord'' \<or> channel = ''email''"
  shows "ledger_sound V D D'" "adb_alerts D' = adb_alerts D" "adb_raw D' = adb_raw D"
proof -
  define d where "d = pending_delivery V a channel t D"
  have D': "D' = D\<lparr>adb_deliveries := adb_deliveries D @ [d], adb_seq := adb_seq D + 1\<rparr>"
    and fresh: "\<forall>e\<in>set (adb_deliveries D). ad_id e \<noteq> ad_id d \<and> (ad_alert_id e, ad_channel e) \<noteq> (ad_alert_id d, ad_channel d)"
    using ins unfolding d_def insert_delivery_def list_all_iff by (auto split: if_split_asm)
  show "adb_alerts D' = adb_alerts D" "adb_raw D' = adb_raw D" by (simp_all add: D')
  have d: "delivery_state_ok d" "repeats V a d" "ad_channel d = channel" "ad_state d = ''pending''" "ad_attempt_count d = 0"
    by (simp_all add: d_def pending_delivery_def delivery_state_ok_def repeats_def)
  show "ledger_sound V D D'"
    unfolding ledger_sound_def
  proof (intro impI conjI)
    assume inv: "alert_inv V D"
    then have ids: "distinct (map al_id (adb_alerts D))" by (simp add: alert_inv_def episodes_ok_def)
    have unsent: "\<not> corrected b" if "b \<in> set (adb_alerts D)" "ad_alert_id d = al_id b" for b
    proof -
      have "al_id a = al_id b" using that d(2) by (simp add: repeats_def)
      then have "b = a" using ids that(1) a(1) by (metis (no_types, opaque_lifting) distinct_map inj_onD)
      then show ?thesis using a by simp
    qed
    show "ledger_keeps D D'" unfolding ledger_keeps_def D' by (auto intro: delivery_kept)
    have "deliveries_ok V (adb_alerts D) (adb_deliveries D @ [d])"
      using inv fresh d ch a unsent unfolding alert_inv_def deliveries_ok_def by auto
    moreover have "attempts_ok (adb_deliveries D @ [d]) (adb_attempts D)"
      using inv d(4) unfolding alert_inv_def attempts_ok_def by fastforce
    ultimately show "alert_inv V D'" using inv by (simp add: alert_inv_def D' raw_known_def raw_of_def)
  qed
qed

lemma insert_deliveries_sound:
  "insert_deliveries V a t channels D = Inr D' \<Longrightarrow> a \<in> set (adb_alerts D) \<Longrightarrow> \<not> corrected a \<Longrightarrow> ledger_sound V D D'"
proof (induction channels arbitrary: D)
  case (Cons channel channels)
  show ?case
  proof (cases "channel = ''dashboard''")
    case True
    then show ?thesis using Cons by simp
  next
    case False
    then obtain D1 D2 where ch: "channel = ''discord'' \<or> channel = ''email''" and D1: "insert_delivery (pending_delivery V a channel t D) D = Inr D1"
      and D2: "enqueue_only V (DeliverCriticalAlert (uuid_v7 (al_pg V) (adb_seq D)) t) D1 = Inr D2"
      and rest: "insert_deliveries V a t channels D2 = Inr D'"
      using Cons.prems(1) by (auto simp: go_result split: if_split_asm)
    note one = insert_delivery_sound [OF D1 Cons.prems(2,3) ch]
    note two = enqueue_only_same [OF D2]
    have "a \<in> set (adb_alerts D2)" using one(2) two Cons.prems(2) by (simp add: same_ledger_def)
    then have "ledger_sound V D2 D'" using Cons.IH [OF rest] Cons.prems(3) by blast
    then show ?thesis using one(1) same_ledger_sound [OF two] ledger_sound_trans by blast
  qed
qed simp

text \<open>The episode a new alert may have.\<close>

definition episode_fits :: "alert_row list \<Rightarrow> alert_row \<Rightarrow> bool" where
  "episode_fits as a \<longleftrightarrow>
     (\<forall>b\<in>set as. alert_key b = alert_key a \<longrightarrow> corrected b \<and> al_episode_number b < al_episode_number a)
     \<and> 1 \<le> al_episode_number a
     \<and> (al_episode_number a = 1 \<or> (\<exists>b\<in>set as. alert_key b = alert_key a \<and> al_episode_number b = al_episode_number a - 1))"

lemma episodes_ok_append:
  assumes "episodes_ok as" "episode_fits as a" "al_id a \<notin> al_id ` set as"
  shows "episodes_ok (as @ [a])"
proof -
  have new: "\<exists>b\<in>set (as @ [a]). alert_key b = alert_key a \<and> al_episode_number b = k" if "1 \<le> k" "k \<le> al_episode_number a" for k
  proof (cases "k = al_episode_number a")
    case False
    then have "al_episode_number a \<noteq> 1" using that by simp
    then obtain b where b: "b \<in> set as" "alert_key b = alert_key a" "al_episode_number b = al_episode_number a - 1"
      using assms(2) unfolding episode_fits_def by blast
    then have "k \<le> al_episode_number b" using that False by simp
    then show ?thesis using b assms(1) that(1) unfolding episodes_ok_def by fastforce
  qed auto
  have "corrected b" "al_episode_number b < al_episode_number a" if "b \<in> set as" "alert_key b = alert_key a" for b
    using that assms(2) unfolding episode_fits_def by blast+
  then show ?thesis using assms new unfolding episodes_ok_def episode_fits_def by (auto simp: image_iff)
qed

lemma insertMatch_sound:
  assumes ins: "insertMatch V raw rv ev sourceURL advisoryID userID m channels t episode opening D = Inr D'"
    and fits: "alert_inv V D \<Longrightarrow> \<not> alert_conflict D (match_row V raw rv ev sourceURL advisoryID userID m episode opening D)
       \<Longrightarrow> episode_fits (adb_alerts D) (match_row V raw rv ev sourceURL advisoryID userID m episode opening D)"
  shows "ledger_sound V D D'"
proof -
  define a where "a = match_row V raw rv ev sourceURL advisoryID userID m episode opening D"
  define D1 where "D1 = D\<lparr>adb_alerts := adb_alerts D @ [a], adb_seq := adb_seq D + 1\<rparr>"
  have a: "\<not> corrected a" "al_raw_document_id a = raw" by (simp_all add: a_def match_row_def)
  consider "D' = D" | "\<not> alert_conflict D a" "raw_of D raw \<noteq> None" "insert_deliveries V a t channels D1 = Inr D'"
    using ins unfolding insertMatch_def Let_def a_def [symmetric] D1_def [symmetric] by (auto split: if_split_asm)
  then show ?thesis
  proof cases
    case 2
    have "ledger_sound V D D1"
      unfolding ledger_sound_def
    proof (intro impI conjI)
      assume inv: "alert_inv V D"
      have new: "al_id a \<notin> al_id ` set (adb_alerts D)" using 2(1) by (auto simp: alert_conflict_def)
      have "episodes_ok (adb_alerts D1)"
        using inv fits [folded a_def, OF inv 2(1)] new by (simp add: D1_def alert_inv_def episodes_ok_append)
      moreover have "deliveries_ok V (adb_alerts D1) (adb_deliveries D1)"
        using inv a(1) unfolding alert_inv_def deliveries_ok_def D1_def by auto
      moreover have "raw_known D1" using inv 2(2) a(2) unfolding alert_inv_def raw_known_def D1_def raw_of_def by auto
      ultimately show "alert_inv V D1" using inv by (simp add: alert_inv_def D1_def)
      show "ledger_keeps D D1" unfolding ledger_keeps_def D1_def by (auto intro: delivery_kept)
    qed
    moreover have "a \<in> set (adb_alerts D1)" by (simp add: D1_def)
    ultimately show ?thesis using insert_deliveries_sound [OF 2(3)] a(1) ledger_sound_trans by blast
  qed simp
qed

text \<open>The first episode fits unless it is a conflict, because episodes have no gaps.\<close>

lemma first_episode_fits:
  assumes "alert_inv V D" "\<not> alert_conflict D a" "al_episode_number a = 1"
  shows "episode_fits (adb_alerts D) a"
proof -
  have "alert_key b \<noteq> alert_key a" if b: "b \<in> set (adb_alerts D)" for b
  proof
    assume eq: "alert_key b = alert_key a"
    obtain c where "c \<in> set (adb_alerts D)" "alert_key c = alert_key b" "al_episode_number c = 1"
      using assms(1) b unfolding alert_inv_def episodes_ok_def by (metis order_refl)
    then show False using assms(2,3) eq by (auto simp: alert_conflict_def)
  qed
  then show ?thesis using assms(3) by (auto simp: episode_fits_def)
qed

lemma rev_sort_hd:
  assumes "rev (sort_key f xs) = x # ys"
  shows "x \<in> set xs \<and> (\<forall>y\<in>set xs. f y \<le> (f x :: 'b :: linorder))"
proof -
  have s: "sort_key f xs = rev ys @ [x]" using assms by (metis rev.simps(2) rev_rev_ident)
  have "sorted (map f (rev ys @ [x]))" using s by (metis sorted_sort_key)
  then have "\<forall>y\<in>set (rev ys @ [x]). f y \<le> f x" by (auto simp: sorted_append)
  moreover have "set (rev ys @ [x]) = set xs" using s by (metis set_sort)
  ultimately show ?thesis by auto
qed

lemma latest_episode_known:
  assumes "raw_known D"
  shows "latest_episode D key =
    (case rev (sort_key al_episode_number (filter (\<lambda>a. alert_key a = key) (adb_alerts D))) of
       [] \<Rightarrow> None | a # _ \<Rightarrow> map_option (\<lambda>r. (a, r)) (raw_of D (al_raw_document_id a)))"
proof -
  have "filter (\<lambda>a. alert_key a = key \<and> raw_of D (al_raw_document_id a) \<noteq> None) (adb_alerts D) = filter (\<lambda>a. alert_key a = key) (adb_alerts D)"
    using assms unfolding raw_known_def by (intro filter_cong) auto
  then show ?thesis by (simp only: latest_episode_def)
qed

lemma latest_episode_None:
  assumes "raw_known D" "latest_episode D key = None" "b \<in> set (adb_alerts D)"
  shows "alert_key b \<noteq> key"
proof
  assume key: "alert_key b = key"
  let ?xs = "filter (\<lambda>a. alert_key a = key) (adb_alerts D)"
  have "b \<in> set (sort_key al_episode_number ?xs)" using key assms(3) by simp
  then obtain a ys where l: "rev (sort_key al_episode_number ?xs) = a # ys"
    by (metis list.set_cases set_rev)
  then have "a \<in> set (adb_alerts D)" using rev_sort_hd [OF l] by simp
  then show False using assms(1,2) l unfolding latest_episode_known [OF assms(1)] raw_known_def by auto
qed

lemma latest_episode_Some:
  assumes "raw_known D" "latest_episode D key = Some (b, r)"
  shows "b \<in> set (adb_alerts D)" "alert_key b = key" "raw_of D (al_raw_document_id b) = Some r"
    "\<And>c. c \<in> set (adb_alerts D) \<Longrightarrow> alert_key c = key \<Longrightarrow> al_episode_number c \<le> al_episode_number b"
proof -
  let ?xs = "filter (\<lambda>a. alert_key a = key) (adb_alerts D)"
  obtain ys where l: "rev (sort_key al_episode_number ?xs) = b # ys" and r: "raw_of D (al_raw_document_id b) = Some r"
    using assms(2) unfolding latest_episode_known [OF assms(1)] by (auto split: list.split_asm)
  show "raw_of D (al_raw_document_id b) = Some r" by (rule r)
  show "b \<in> set (adb_alerts D)" "alert_key b = key"
    "\<And>c. c \<in> set (adb_alerts D) \<Longrightarrow> alert_key c = key \<Longrightarrow> al_episode_number c \<le> al_episode_number b"
    using rev_sort_hd [OF l] by simp_all
qed

lemma next_episode_fits:
  assumes inv: "alert_inv V D" and ep: "nextAlertEpisode D (alert_key a) entry = Inr (al_episode_number a)" "al_episode_number a \<noteq> 0"
  shows "episode_fits (adb_alerts D) a"
proof (cases "latest_episode D (alert_key a)")
  case None
  have "raw_known D" using inv by (simp add: alert_inv_def)
  then have "\<forall>b\<in>set (adb_alerts D). alert_key b \<noteq> alert_key a" using latest_episode_None None by blast
  moreover have "al_episode_number a = 1" using ep(1) None by (simp add: nextAlertEpisode_def)
  ultimately show ?thesis by (simp add: episode_fits_def)
next
  case (Some p)
  then obtain b r where p: "latest_episode D (alert_key a) = Some (b, r)" by (cases p) auto
  have "raw_known D" using inv by (simp add: alert_inv_def)
  note b = latest_episode_Some(1,2) [OF this p] and top = latest_episode_Some(4) [OF this p]
  have "corrected b" "al_episode_number a = al_episode_number b + 1"
    using ep p by (auto simp: nextAlertEpisode_def split: if_split_asm)
  moreover have "corrected c" if "c \<in> set (adb_alerts D)" "alert_key c = alert_key a" for c
  proof (cases "al_episode_number c < al_episode_number b")
    case True
    then show ?thesis using inv b that unfolding alert_inv_def episodes_ok_def by metis
  next
    case False
    then have "al_episode_number c = al_episode_number b" using top [OF that] by simp
    moreover have "inj_on (\<lambda>a. (alert_key a, al_episode_number a)) (set (adb_alerts D))"
      using inv unfolding alert_inv_def episodes_ok_def distinct_map by blast
    ultimately have "c = b" using b that unfolding inj_on_def by metis
    then show ?thesis using \<open>corrected b\<close> by simp
  qed
  moreover have "1 \<le> al_episode_number b" using inv b(1) unfolding alert_inv_def episodes_ok_def by blast
  ultimately show ?thesis using top b unfolding episode_fits_def by fastforce
qed

text \<open>The loops of the two admission paths.\<close>

lemma insert_matches_sound: "insert_matches V raw rv ev sourceURL advisoryID owner t ms D = Inr D' \<Longrightarrow> ledger_sound V D D'"
proof (induction ms arbitrary: D)
  case (Cons m ms)
  then obtain D1 where one: "insertMatch V raw rv ev sourceURL advisoryID (ow_userID owner) m (ow_channels owner) t 1 None D = Inr D1"
    and rest: "insert_matches V raw rv ev sourceURL advisoryID owner t ms D1 = Inr D'" by (auto simp: go_result)
  have "ledger_sound V D D1" by (rule insertMatch_sound [OF one first_episode_fits]) (simp_all add: match_row_def)
  then show ?case using Cons.IH [OF rest] ledger_sound_trans by blast
qed simp

lemma admit_owners_sound: "admit_owners V raw rv ev sourceURL a now owners D = Inr D' \<Longrightarrow> ledger_sound V D D'"
proof (induction owners arbitrary: D)
  case (Cons owner owners)
  show ?case
  proof (cases "Match a (ow_watches owner) = []")
    case True
    then show ?thesis using Cons by (simp add: Let_def)
  next
    case False
    then obtain t D1 where one: "insert_matches V raw rv ev sourceURL (adv_ID a) owner t (Match a (ow_watches owner)) D = Inr D1"
      and rest: "admit_owners V raw rv ev sourceURL a now owners D1 = Inr D'"
      using Cons.prems by (auto simp: go_result Let_def split: sum.split_asm)
    then show ?thesis using insert_matches_sound [OF one] Cons.IH [OF rest] ledger_sound_trans by blast
  qed
qed simp

lemma observed_matches_sound: "observed_matches V current rv sourceURL advisoryID owner t ms D = Inr D' \<Longrightarrow> ledger_sound V D D'"
proof (induction ms arbitrary: D)
  case (Cons m ms)
  then obtain episode where ep: "nextAlertEpisode D (ow_userID owner, advisoryID, vul_Ecosystem (res_Vulnerability m), vul_PackageName (res_Vulnerability m))
      (ev_entryRowID (oe_evidence current)) = Inr episode" by (auto simp: go_result)
  show ?case
  proof (cases "episode = 0")
    case True
    then show ?thesis using Cons ep by simp
  next
    case False
    then obtain D1 where one: "insertMatch V (oe_rawDocumentID current) rv (oe_evidence current) sourceURL advisoryID (ow_userID owner) m
        (ow_channels owner) t episode (Some (oe_eventID current)) D = Inr D1"
      and rest: "observed_matches V current rv sourceURL advisoryID owner t ms D1 = Inr D'" using Cons.prems ep by (auto simp: go_result)
    have "ledger_sound V D D1"
      by (rule insertMatch_sound [OF one next_episode_fits]) (use ep False in \<open>simp_all add: match_row_def alert_key_def\<close>)
    then show ?thesis using Cons.IH [OF rest] ledger_sound_trans by blast
  qed
qed simp

lemma observed_owners_sound: "observed_owners V current rv sourceURL a now owners D = Inr D' \<Longrightarrow> ledger_sound V D D'"
proof (induction owners arbitrary: D)
  case (Cons owner owners)
  show ?case
  proof (cases "Match a (ow_watches owner) = []")
    case True
    then show ?thesis using Cons by (simp add: Let_def)
  next
    case False
    then obtain t D1 where one: "observed_matches V current rv sourceURL (adv_ID a) owner t (Match a (ow_watches owner)) D = Inr D1"
      and rest: "observed_owners V current rv sourceURL a now owners D1 = Inr D'"
      using Cons.prems by (auto simp: go_result Let_def split: sum.split_asm)
    then show ?thesis using observed_matches_sound [OF one] Cons.IH [OF rest] ledger_sound_trans by blast
  qed
qed simp

section \<open>The transactions\<close>

lemma commit_or_fail_Commit: "commit_or_fail r = Commit D' x \<longleftrightarrow> r = Inr D' \<and> x = Inr ()"
  by (auto simp: commit_or_fail_def split: sum.split)

lemma assess_tx_sound: "assess_tx V raw rv preflight a sourceURL now D = Commit D' x \<Longrightarrow> ledger_sound V D D'"
  using admit_owners_sound suppressCorrected_sound
  by (auto simp: assess_tx_def commit_or_fail_Commit split: if_split_asm sum.split_asm option.split_asm)

lemma find_map_other:
  assumes "\<And>x. P (f x) = P x"
  shows "find P (map f xs) \<noteq> None \<longleftrightarrow> find P xs \<noteq> None"
  using assms by (induction xs) auto

lemma raw_map_same:
  assumes "\<And>r. rw_id (h r) = rw_id r"
  shows "same_ledger X (X\<lparr>adb_raw := map h (adb_raw X)\<rparr>)"
  using find_map_other [of "\<lambda>r. rw_id r = i" h "adb_raw X" for i] assms by (simp add: same_ledger_def raw_of_def)

lemma acknowledge_same: "acknowledgeObservation V current now D = Inr D' \<Longrightarrow> same_ledger D D'"
proof -
  have mark: "same_ledger X (mark_parse i X)" for X i
    unfolding mark_parse_def by (rule raw_map_same) simp
  have clear: "same_ledger X (clear_parent i X)" for X i
    unfolding clear_parent_def by (rule raw_map_same) simp
  have rows: "same_ledger X (complete_collection i t (process_event j t X))" for X i j t
    by (simp add: same_ledger_def complete_collection_def process_event_def raw_of_def)
  have next_ok: "enqueueNextObservation V src X = Inr Y \<Longrightarrow> same_ledger X Y" for src X Y
    using mark enqueue_only_same same_ledger_trans
    by (auto simp: enqueueNextObservation_def split: option.split_asm if_split_asm) blast+
  assume "acknowledgeObservation V current now D = Inr D'"
  then have "enqueueNextObservation V (ev_sourceID (oe_evidence current)) (clear_parent (oe_parentRawID current)
      (complete_collection (oe_collectionID current) (pg_time (al_pg V) now) (process_event (oe_eventID current) (pg_time (al_pg V) now) D))) = Inr D'"
    by (simp add: acknowledgeObservation_def Let_def split: if_split_asm)
  from same_ledger_trans [OF rows same_ledger_trans [OF clear next_ok [OF this]]] show ?thesis .
qed

lemma observation_tx_sound: "observation_tx V eventID rv preflight a sourceURL now D = Commit D' x \<Longrightarrow> ledger_sound V D D'"
proof -
  assume "observation_tx V eventID rv preflight a sourceURL now D = Commit D' x"
  then obtain current D1 where one: "observation_decision V current rv a sourceURL now D = Inr D1" and two: "acknowledgeObservation V current now D1 = Inr D'"
    by (auto simp: observation_tx_def commit_or_fail_Commit go_result split: if_split_asm sum.split_asm option.split_asm)
  have "ledger_sound V D D1"
    using one observed_owners_sound correctObservedAlerts_sound
    by (auto simp: observation_decision_def admitObservedAlerts_def split: if_split_asm)
  then show ?thesis using same_ledger_sound [OF acknowledge_same [OF two]] ledger_sound_trans by blast
qed

lemma backfill_tx_sound: "backfill_tx V eventID raw rv preflight a sourceURL now D = Commit D' x \<Longrightarrow> ledger_sound V D D'"
  using observed_owners_sound
  by (auto simp: backfill_tx_def admitObservedAlerts_def commit_or_fail_Commit split: if_split_asm sum.split_asm option.split_asm)

lemma enqueue_page_same: "enqueue_page V page D = Inr D' \<Longrightarrow> same_ledger D D'"
proof (induction page arbitrary: D)
  case (Cons r page)
  then consider "enqueue_page V page D = Inr D'"
    | D1 where "enqueue_only V (BackfillCriticalAdvisory (ar_rawDocumentID r) (ar_revisionID r)) D = Inr D1" "enqueue_page V page D1 = Inr D'"
    by (auto simp: go_result split: if_split_asm)
  then show ?case using Cons.IH enqueue_only_same same_ledger_trans by cases blast+
qed simp

lemma catch_up_tx_sound: "catch_up_tx V user userID version cursor D = Commit D' x \<Longrightarrow> ledger_sound V D D'"
proof -
  assume "catch_up_tx V user userID version cursor D = Commit D' x"
  then have "same_ledger D D'"
    using enqueue_page_same enqueue_only_same same_ledger_trans
    by (auto simp: catch_up_tx_def Let_def commit_or_fail_Commit go_result split: if_split_asm) blast+
  then show ?thesis by (rule same_ledger_sound)
qed

end
