(* ===== verification/Alert_Delivery.thy ===== *)
theory Alert_Delivery
  imports Alert_Ledger
begin

text \<open>
  The delivery of critical alerts (\<open>src/internal/alert/pgstore/delivery.go\<close>) and its job (\<open>src/internal/worker/river.go\<close>):
  a delivery is claimed, sent by a worker, and completed or failed; a periodic reconciliation releases
  claims of workers that stopped and restores lost jobs. All transactions of the alert store, of any number
  of workers, interleave in the relation \<open>alert_step\<close>.
\<close>

section \<open>Claiming\<close>

definition find_delivery :: "alert_db \<Rightarrow> string \<Rightarrow> (delivery_row \<times> alert_row) option" where
  "find_delivery D i =
     (case find (\<lambda>d. ad_id d = i) (adb_deliveries D) of
        None \<Rightarrow> None
      | Some d \<Rightarrow> map_option (\<lambda>a. (d, a)) (find (\<lambda>a. al_id a = ad_alert_id d) (adb_alerts D)))"

definition update_delivery :: "string \<Rightarrow> (delivery_row \<Rightarrow> delivery_row) \<Rightarrow> alert_db \<Rightarrow> alert_db" where
  "update_delivery i f D = D\<lparr>adb_deliveries := map (\<lambda>d. if ad_id d = i then f d else d) (adb_deliveries D)\<rparr>"

definition claimed_row :: "alert_env \<Rightarrow> time \<Rightarrow> delivery_row \<Rightarrow> delivery_row" where
  "claimed_row V now d =
     d\<lparr>ad_state := ''sending'', ad_attempt_count := ad_attempt_count d + 1, ad_last_attempt_at := Some (pg_time (al_pg V) now)\<rparr>"

definition begin_tx :: "alert_env \<Rightarrow> string \<Rightarrow> time \<Rightarrow> alert_db \<Rightarrow> (alert_db, store_alert_error + delivery option) tx_end" where
  "begin_tx V i now D =
     (case find_delivery D i of
        None \<Rightarrow> Rollback (Inr None)
      | Some (d, a) \<Rightarrow>
          if ad_state d = ''sent'' \<or> ad_state d = ''permanent'' \<or> ad_state d = ''suppressed'' then Rollback (Inr None)
          else if al_corrected_at a \<noteq> None then
            (if ad_state d = ''pending'' \<or> ad_state d = ''failed''
             then Commit (update_delivery i (\<lambda>d. d\<lparr>ad_state := ''suppressed''\<rparr>) D) (Inr None)
             else Rollback (Inr None))
          else if source_pending D (al_source_id a) then Rollback (Inr None)
          else if now < ad_next_attempt_at d then Rollback (Inr None)
          else if ad_state d = ''sending'' \<and> (case ad_last_attempt_at d of None \<Rightarrow> False | Some t \<Rightarrow> time_sub now t < 2 * minute)
          then Rollback (Inl (AlertError ''critical alert delivery is already in flight''))
          else
            (let request = alert_payload a (ad_channel d) (ad_idempotency_key d) 0 in
             if DeliverySHA256 (al_marshal V) (lib_sha256 (al_lib V)) request \<noteq> ad_payload_sha256 d
             then Commit (update_delivery i (\<lambda>d. d\<lparr>ad_state := ''permanent''\<rparr>) D) (Inl ErrPayloadIntegrity)
             else if ad_attempt_count d \<ge> 2 ^ 31 - 1 then Rollback (Inl (AlertError ''claim critical alert delivery''))
             else Commit (update_delivery i (claimed_row V now) D) (Inr (Some (request\<lparr>del_Attempt := ad_attempt_count d + 1\<rparr>)))))"

definition BeginDelivery ::
    "alert_env \<Rightarrow> tx_fate \<Rightarrow> string \<Rightarrow> time \<Rightarrow> alert_db \<Rightarrow> (store_alert_error + delivery option) \<times> alert_db" where
  "BeginDelivery V fate deliveryID now D =
     (if \<not> uuid_ok (al_pg V) deliveryID \<or> is_zero now then (Inl (AlertError ''critical alert delivery requires an ID and time''), D)
      else (case alert_uuid V deliveryID of
        Inl e \<Rightarrow> (Inl e, D)
      | Inr i \<Rightarrow> run_end fate (Inl (AlertError ''critical alert delivery'')) (begin_tx V i now) D))"

section \<open>Recording the outcome\<close>

text \<open>The insert of an attempt, with its checks and \<open>on conflict ... do nothing\<close>.\<close>

definition record_attempt :: "alert_env \<Rightarrow> alert_attempt \<Rightarrow> alert_db \<Rightarrow> store_alert_error + alert_db" where
  "record_attempt V t D =
     (if \<not> 0 < aa_number t \<or> aa_completed_at t < aa_attempted_at t
         \<or> \<not> pg_text (al_pg V) (case aa_provider_id t of None \<Rightarrow> [] | Some p \<Rightarrow> p) \<or> \<not> pg_text (al_pg V) (case aa_error_code t of None \<Rightarrow> [] | Some e \<Rightarrow> e)
      then Inl (AlertError ''record critical alert attempt'')
      else if \<exists>u\<in>set (adb_attempts D). (aa_delivery_id u, aa_number u) = (aa_delivery_id t, aa_number t) then Inr D
      else Inr (D\<lparr>adb_attempts := adb_attempts D @ [t]\<rparr>))"

definition complete_tx :: "alert_env \<Rightarrow> string \<Rightarrow> string \<Rightarrow> time \<Rightarrow> alert_db \<Rightarrow> (alert_db, store_alert_error + unit) tx_end" where
  "complete_tx V i providerID now D =
     (case find (\<lambda>d. ad_id d = i) (adb_deliveries D) of
        None \<Rightarrow> Rollback (Inr ())
      | Some d \<Rightarrow>
          (case ad_last_attempt_at d of
             None \<Rightarrow> Rollback (Inl (AlertError ''lock completed critical alert''))
           | Some attemptedAt \<Rightarrow>
               if ad_state d = ''sent'' then Rollback (Inr ())
               else if ad_state d \<noteq> ''sending'' \<or> now < attemptedAt then Rollback (Inl (AlertError ''critical alert delivery is not sending''))
               else commit_or_fail (and_then (record_attempt V
                   \<lparr>aa_delivery_id = i, aa_number = ad_attempt_count d, aa_outcome = ''sent'', aa_error_code = None,
                    aa_provider_id = Some providerID, aa_attempted_at = attemptedAt, aa_completed_at = pg_time (al_pg V) now\<rparr> D)
                 (\<lambda>D1. Inr (update_delivery i (\<lambda>d. d\<lparr>ad_state := ''sent'', ad_provider_id := Some providerID,
                    ad_delivered_at := Some (pg_time (al_pg V) now)\<rparr>) D1)))))"

definition CompleteDelivery :: "alert_env \<Rightarrow> tx_fate \<Rightarrow> string \<Rightarrow> string \<Rightarrow> time \<Rightarrow> alert_db \<Rightarrow> (store_alert_error + unit) \<times> alert_db" where
  "CompleteDelivery V fate deliveryID providerID now D =
     (if \<not> uuid_ok (al_pg V) deliveryID \<or> providerID = [] \<or> length providerID > 255 \<or> is_zero now
      then (Inl (AlertError ''critical alert receipt is invalid''), D)
      else (case alert_uuid V deliveryID of
        Inl e \<Rightarrow> (Inl e, D)
      | Inr i \<Rightarrow> run_end fate (Inl (AlertError ''critical alert completion'')) (complete_tx V i providerID now) D))"

definition exhaustedRetryCooldown :: duration where
  "exhaustedRetryCooldown = 5 * minute"

definition failed_state :: "bool \<Rightarrow> bool \<Rightarrow> string" where
  "failed_state permanent isCorrected = (if isCorrected then ''suppressed'' else if permanent then ''permanent'' else ''failed'')"

definition fail_tx :: "alert_env \<Rightarrow> string \<Rightarrow> string \<Rightarrow> bool \<Rightarrow> time \<Rightarrow> alert_db \<Rightarrow> (alert_db, store_alert_error + unit) tx_end" where
  "fail_tx V i code permanent now D =
     (case find (\<lambda>d. ad_id d = i) (adb_deliveries D) of
        None \<Rightarrow> Rollback (Inr ())
      | Some d \<Rightarrow>
          (case ad_last_attempt_at d of
             None \<Rightarrow> Rollback (Inl (AlertError ''lock failed critical alert''))
           | Some attemptedAt \<Rightarrow>
               if ad_state d \<noteq> ''sending'' \<or> now < attemptedAt then Rollback (Inl (AlertError ''critical alert delivery is not sending''))
               else (case find_delivery D i of
                  None \<Rightarrow> Rollback (Inl (AlertError ''read critical alert correction''))
                | Some (_, a) \<Rightarrow>
                    (let nextAttemptAt = (if \<not> permanent \<and> code = ''provider_retry_exhausted'' then now + exhaustedRetryCooldown else now) in
                     commit_or_fail (and_then (record_attempt V
                         \<lparr>aa_delivery_id = i, aa_number = ad_attempt_count d, aa_outcome = (if permanent then ''permanent'' else ''retryable''),
                          aa_error_code = Some code, aa_provider_id = None, aa_attempted_at = attemptedAt, aa_completed_at = pg_time (al_pg V) now\<rparr> D)
                       (\<lambda>D1. Inr (update_delivery i (\<lambda>d. d\<lparr>ad_state := failed_state permanent (al_corrected_at a \<noteq> None),
                          ad_next_attempt_at := pg_time (al_pg V) nextAttemptAt\<rparr>) D1)))))))"

definition FailDelivery :: "alert_env \<Rightarrow> tx_fate \<Rightarrow> string \<Rightarrow> string \<Rightarrow> bool \<Rightarrow> time \<Rightarrow> alert_db \<Rightarrow> (store_alert_error + unit) \<times> alert_db" where
  "FailDelivery V fate deliveryID code permanent now D =
     (if \<not> uuid_ok (al_pg V) deliveryID \<or> code = [] \<or> length code > 100 \<or> is_zero now then (Inl (AlertError ''critical alert failure is invalid''), D)
      else (case alert_uuid V deliveryID of
        Inl e \<Rightarrow> (Inl e, D)
      | Inr i \<Rightarrow> run_end fate (Inl (AlertError ''critical alert failure'')) (fail_tx V i code permanent now) D))"

section \<open>Reconciliation\<close>

definition criticalDeliveryRecoveryPageSize :: nat where
  "criticalDeliveryRecoveryPageSize = 128"

definition active_job_states :: "string list" where
  "active_job_states = [''available'', ''pending'', ''retryable'', ''running'', ''scheduled'']"

definition has_active_job :: "alert_db \<Rightarrow> string \<Rightarrow> bool" where
  "has_active_job D i \<longleftrightarrow>
     (\<exists>(j, st)\<in>set (adb_jobs D). (case j of DeliverCriticalAlert k _ \<Rightarrow> k = i | _ \<Rightarrow> False) \<and> st \<in> set active_job_states)"

definition is_stranded :: "alert_db \<Rightarrow> time \<Rightarrow> delivery_row \<Rightarrow> bool" where
  "is_stranded D now d \<longleftrightarrow>
     (((ad_state d = ''pending'' \<or> ad_state d = ''failed'') \<and> ad_next_attempt_at d \<le> now)
      \<or> (ad_state d = ''sending'' \<and> (case ad_last_attempt_at d of None \<Rightarrow> False | Some t \<Rightarrow> t \<le> now - 2 * minute)))
     \<and> \<not> has_active_job D (ad_id d)"

text \<open>\<open>locked\<close> are the rows other transactions hold, which the query skips.\<close>

definition stranded_page :: "(string \<Rightarrow> bool) \<Rightarrow> time \<Rightarrow> alert_db \<Rightarrow> delivery_row list" where
  "stranded_page locked now D =
     take criticalDeliveryRecoveryPageSize (sort_key (\<lambda>d. (ad_next_attempt_at d, ad_id d))
       (filter (\<lambda>d. is_stranded D now d \<and> \<not> locked (ad_id d)) (adb_deliveries D)))"

definition is_corrected :: "alert_db \<Rightarrow> delivery_row \<Rightarrow> bool" where
  "is_corrected D d = (case find (\<lambda>a. al_id a = ad_alert_id d) (adb_alerts D) of None \<Rightarrow> False | Some a \<Rightarrow> al_corrected_at a \<noteq> None)"

definition release :: "alert_env \<Rightarrow> time \<Rightarrow> bool \<Rightarrow> delivery_row \<Rightarrow> alert_db \<Rightarrow> store_alert_error + alert_db" where
  "release V now isCorrected d D =
     (case ad_last_attempt_at d of
        None \<Rightarrow> Inl (AlertError ''stranded critical delivery lacks attempt time'')
      | Some t \<Rightarrow>
          and_then (record_attempt V
              \<lparr>aa_delivery_id = ad_id d, aa_number = ad_attempt_count d, aa_outcome = ''retryable'', aa_error_code = Some ''worker_interrupted'',
               aa_provider_id = None, aa_attempted_at = t, aa_completed_at = now\<rparr> D)
            (\<lambda>D1. Inr (update_delivery (ad_id d) (\<lambda>e. e\<lparr>ad_state := if isCorrected then ''suppressed'' else ''failed'', ad_next_attempt_at := now\<rparr>) D1)))"

definition reconcile_one :: "alert_env \<Rightarrow> time \<Rightarrow> bool \<Rightarrow> delivery_row \<Rightarrow> alert_db \<Rightarrow> store_alert_error + (alert_db \<times> int)" where
  "reconcile_one V now isCorrected d D =
     and_then (if ad_state d = ''sending'' then release V now isCorrected d D else Inr D) (\<lambda>D1.
       if isCorrected
       then Inr (if ad_state d \<noteq> ''sending'' then update_delivery (ad_id d) (\<lambda>e. e\<lparr>ad_state := ''suppressed''\<rparr>) D1 else D1, 0)
       else and_then (enqueue_alert_job V (DeliverCriticalAlert (ad_id d) now) D1) (\<lambda>(D2, inserted). Inr (D2, if inserted then 1 else 0)))"

fun reconcile_loop :: "alert_env \<Rightarrow> time \<Rightarrow> (delivery_row \<Rightarrow> bool) \<Rightarrow> delivery_row list \<Rightarrow> alert_db \<Rightarrow> int \<Rightarrow> store_alert_error + (alert_db \<times> int)" where
  "reconcile_loop V now isCorrected [] D requeued = Inr (D, requeued)"
| "reconcile_loop V now isCorrected (d # ds) D requeued =
     and_then (reconcile_one V now (isCorrected d) d D) (\<lambda>(D', n). reconcile_loop V now isCorrected ds D' (requeued + n))"

definition reconcile_deliveries_tx :: "alert_env \<Rightarrow> (string \<Rightarrow> bool) \<Rightarrow> time \<Rightarrow> alert_db \<Rightarrow> (alert_db, store_alert_error + int) tx_end" where
  "reconcile_deliveries_tx V locked now D =
     (let page = stranded_page locked now D in
      if \<not> list_all (\<lambda>d. uuid_ok (al_pg V) (ad_id d)) page then Rollback (Inl (AlertError ''parse stranded critical delivery ID''))
      else (case reconcile_loop V now (is_corrected D) page D 0 of
              Inl e \<Rightarrow> Rollback (Inl e)
            | Inr (D', requeued) \<Rightarrow> Commit D' (Inr requeued)))"

definition first_attempt :: "alert_db \<Rightarrow> delivery_row \<Rightarrow> time" where
  "first_attempt D d =
     (case map aa_attempted_at (filter (\<lambda>t. aa_delivery_id t = ad_id d) (adb_attempts D)) of
        t # ts \<Rightarrow> foldr min ts t
      | [] \<Rightarrow> (case ad_last_attempt_at d of Some t \<Rightarrow> t | None \<Rightarrow> ad_next_attempt_at d))"

definition overdue :: "time \<Rightarrow> alert_db \<Rightarrow> nat" where
  "overdue now D =
     length (filter (\<lambda>d. find (\<lambda>a. al_id a = ad_alert_id d) (adb_alerts D) \<noteq> None \<and> \<not> is_corrected D d
       \<and> ad_state d \<noteq> ''sent'' \<and> ad_state d \<noteq> ''suppressed''
       \<and> (ad_state d = ''permanent'' \<or> first_attempt D d \<le> now - 10 * minute)) (adb_deliveries D))"

text \<open>The count of overdue deliveries is read after the commit; \<open>None\<close> when that read fails.\<close>

definition ReconcileDeliveries ::
    "alert_env \<Rightarrow> tx_fate \<Rightarrow> (string \<Rightarrow> bool) \<Rightarrow> bool \<Rightarrow> time \<Rightarrow> alert_db \<Rightarrow> (store_alert_error + int \<times> nat) \<times> alert_db" where
  "ReconcileDeliveries V fate locked readFails now D =
     (if is_zero now then (Inl (AlertError ''critical alert reconciliation requires a time''), D)
      else (case run_end fate (Inl (AlertError ''critical alert reconciliation'')) (reconcile_deliveries_tx V locked (pg_time (al_pg V) now)) D of
        (Inl e, D') \<Rightarrow> (Inl e, D')
      | (Inr requeued, D') \<Rightarrow>
          (if readFails then Inl (AlertError ''count undelivered critical alerts'') else Inr (requeued, overdue (pg_time (al_pg V) now) D'), D')))"

section \<open>The delivery job\<close>

datatype alert_job_end = AlertJobDone | AlertJobRetry | AlertJobCancel

text \<open>
  \<open>send\<close> is the sender (an error may be permanent), \<open>others\<close> what other transactions commit while it runs.
  The last component lists what was sent.
\<close>

definition deliverCriticalAlertWork ::
    "alert_env \<Rightarrow> tx_fate \<Rightarrow> tx_fate \<Rightarrow> (alert_db \<Rightarrow> alert_db) \<Rightarrow> (delivery \<Rightarrow> bool + string) \<Rightarrow> string \<Rightarrow> int \<Rightarrow> int \<Rightarrow> time \<Rightarrow> time \<Rightarrow> alert_db
      \<Rightarrow> alert_job_end \<times> alert_db \<times> delivery list" where
  "deliverCriticalAlertWork V fate1 fate2 others send deliveryID attempt maxAttempts now now2 D =
     (case BeginDelivery V fate1 deliveryID now D of
        (Inl e, D1) \<Rightarrow> (if e = ErrPayloadIntegrity then AlertJobCancel else AlertJobRetry, D1, [])
      | (Inr None, D1) \<Rightarrow> (AlertJobDone, D1, [])
      | (Inr (Some request), D1) \<Rightarrow>
          (case send request of
             Inl permanent \<Rightarrow>
               (let code = (if permanent then ''provider_permanent'' else if attempt \<ge> maxAttempts then ''provider_retry_exhausted'' else ''provider_retryable'')
                in case FailDelivery V fate2 deliveryID code permanent now2 (others D1) of
                     (Inl _, D2) \<Rightarrow> (AlertJobRetry, D2, [request])
                   | (Inr _, D2) \<Rightarrow> (if permanent \<or> attempt \<ge> maxAttempts then AlertJobCancel else AlertJobRetry, D2, [request]))
           | Inr receipt \<Rightarrow>
               (case CompleteDelivery V fate2 deliveryID receipt now2 (others D1) of
                  (Inl _, D2) \<Rightarrow> (AlertJobRetry, D2, [request])
                | (Inr _, D2) \<Rightarrow> (AlertJobDone, D2, [request]))))"

section \<open>Every transaction keeps the ledger\<close>

lemma ledger_soundI: "(alert_inv V D \<Longrightarrow> ledger_sound V D D') \<Longrightarrow> ledger_sound V D D'"
  by (auto simp: ledger_sound_def)

lemma delivery_ids:
  assumes "alert_inv V D" "d \<in> set (adb_deliveries D)" "e \<in> set (adb_deliveries D)" "ad_id d = ad_id e"
  shows "d = e"
proof -
  have "inj_on ad_id (set (adb_deliveries D))" using assms(1) by (simp add: alert_inv_def deliveries_ok_def distinct_map)
  then show ?thesis using assms by (auto dest: inj_onD)
qed

lemma alert_ids:
  assumes "alert_inv V D" "a \<in> set (adb_alerts D)" "b \<in> set (adb_alerts D)" "al_id a = al_id b"
  shows "a = b"
proof -
  have "inj_on al_id (set (adb_alerts D))" using assms(1) by (simp add: alert_inv_def episodes_ok_def distinct_map)
  then show ?thesis using assms by (auto dest: inj_onD)
qed

lemma delivery_inv:
  assumes "alert_inv V D" "d \<in> set (adb_deliveries D)"
  shows "delivery_state_ok d" "\<exists>a\<in>set (adb_alerts D). repeats V a d"
    "\<And>a. a \<in> set (adb_alerts D) \<Longrightarrow> ad_alert_id d = al_id a \<Longrightarrow> corrected a \<Longrightarrow> ad_state d \<noteq> ''pending'' \<and> ad_state d \<noteq> ''failed''"
    "ad_channel d = ''discord'' \<or> ad_channel d = ''email''"
  using assms unfolding alert_inv_def deliveries_ok_def by blast+

text \<open>The attempts a change of one delivery may record: none, or one with the number of the running attempt.\<close>

definition attempt_fits :: "delivery_row \<Rightarrow> alert_attempt list \<Rightarrow> alert_attempt list \<Rightarrow> bool" where
  "attempt_fits d ts new \<longleftrightarrow>
     (case new of [] \<Rightarrow> True
      | [t] \<Rightarrow> aa_delivery_id t = ad_id d \<and> aa_number t = ad_attempt_count d \<and> 1 \<le> aa_number t
          \<and> (aa_delivery_id t, aa_number t) \<notin> (\<lambda>t. (aa_delivery_id t, aa_number t)) ` set ts
      | _ \<Rightarrow> False)"

definition counted :: "delivery_row list \<Rightarrow> alert_attempt \<Rightarrow> bool" where
  "counted ds t \<longleftrightarrow> (\<exists>d\<in>set ds. ad_id d = aa_delivery_id t \<and> 1 \<le> aa_number t \<and> aa_number t \<le> ad_attempt_count d
     \<and> (ad_state d = ''sending'' \<longrightarrow> aa_number t < ad_attempt_count d)
     \<and> (has_receipt t \<longrightarrow> ad_state d = ''sent'' \<and> aa_number t = ad_attempt_count d))"

definition receipted :: "alert_attempt list \<Rightarrow> delivery_row \<Rightarrow> bool" where
  "receipted ts d \<longleftrightarrow> (\<exists>t\<in>set ts. aa_delivery_id t = ad_id d \<and> aa_number t = ad_attempt_count d \<and> aa_outcome t = ''sent''
     \<and> aa_provider_id t = ad_provider_id d)"

lemma attempts_ok_alt:
  "attempts_ok ds ts \<longleftrightarrow> distinct (map (\<lambda>t. (aa_delivery_id t, aa_number t)) ts) \<and> (\<forall>t\<in>set ts. counted ds t)
     \<and> (\<forall>d\<in>set ds. ad_state d = ''sent'' \<longrightarrow> receipted ts d)"
  by (simp add: attempts_ok_def counted_def receipted_def)

lemma attempts_ok_change:
  assumes old: "attempts_ok ds ts" and d: "d \<in> set ds"
    and g: "\<And>e. e \<in> set ds \<Longrightarrow> g e = (if e = d then g d else e)" "same_delivery d (g d)"
    and sending: "ad_state (g d) = ''sending'' \<Longrightarrow> ad_attempt_count d < ad_attempt_count (g d)"
    and sent: "ad_state (g d) = ''sent'' \<Longrightarrow> receipted (ts @ new) (g d)"
    and new: "attempt_fits d ts new" and receipts: "\<forall>t\<in>set new. has_receipt t \<longrightarrow> ad_state (g d) = ''sent'' \<and> aa_number t = ad_attempt_count (g d)"
  shows "attempts_ok (map g ds) (ts @ new)"
proof -
  have gd: "ad_id (g d) = ad_id d" "ad_attempt_count d \<le> ad_attempt_count (g d)" using g(2) by (simp_all add: same_delivery_def)
  have gin: "g d \<in> set (map g ds)" using d by simp
  have "counted (map g ds) t" if t: "t \<in> set ts" for t
  proof -
    obtain e where e: "e \<in> set ds" "ad_id e = aa_delivery_id t" "1 \<le> aa_number t" "aa_number t \<le> ad_attempt_count e"
      "ad_state e = ''sending'' \<longrightarrow> aa_number t < ad_attempt_count e" "has_receipt t \<longrightarrow> ad_state e = ''sent'' \<and> aa_number t = ad_attempt_count e"
      using old t unfolding attempts_ok_alt counted_def by blast
    show ?thesis
    proof (cases "e = d")
      case True
      have "aa_number t < ad_attempt_count (g d)" if "ad_state (g d) = ''sending''" using sending [OF that] e(4) True by simp
      moreover have "has_receipt t \<longrightarrow> ad_state (g d) = ''sent'' \<and> aa_number t = ad_attempt_count (g d)"
        using e(6) True g(2) by (auto simp: same_delivery_def final_state_def)
      ultimately show ?thesis using True e(2-4) gd gin unfolding counted_def by (intro bexI [of _ "g d"]) auto
    next
      case False
      then have "e \<in> set (map g ds)" using g(1) [OF e(1)] e(1) by (metis image_eqI set_map)
      then show ?thesis using e unfolding counted_def by blast
    qed
  qed
  moreover have "counted (map g ds) t" if "t \<in> set new" for t
  proof -
    have t: "aa_delivery_id t = ad_id d" "aa_number t = ad_attempt_count d" "1 \<le> aa_number t"
      using new that by (auto simp: attempt_fits_def split: list.split_asm)
    then show ?thesis using gd gin sending receipts that unfolding counted_def by (intro bexI [of _ "g d"]) auto
  qed
  moreover have "receipted (ts @ new) e" if e: "e \<in> set (map g ds)" "ad_state e = ''sent''" for e
  proof -
    obtain e0 where e0: "e0 \<in> set ds" "e = g e0" using e by auto
    show ?thesis
    proof (cases "e0 = d")
      case True
      then show ?thesis using sent e(2) e0 by simp
    next
      case False
      then have "receipted ts e" using g(1) [OF e0(1)] e0 e(2) old unfolding attempts_ok_alt by auto
      then show ?thesis unfolding receipted_def by auto
    qed
  qed
  moreover have "distinct (map (\<lambda>t. (aa_delivery_id t, aa_number t)) (ts @ new))"
    using old new unfolding attempts_ok_alt attempt_fits_def by (auto split: list.split_asm)
  ultimately show ?thesis unfolding attempts_ok_alt by auto
qed

text \<open>A change of one delivery, with the attempts it records.\<close>

lemma delivery_change:
  assumes inv: "alert_inv V D" and d: "d \<in> set (adb_deliveries D)" "ad_id d = i"
    and D': "adb_deliveries D' = map (\<lambda>e. if ad_id e = i then f e else e) (adb_deliveries D)" "adb_alerts D' = adb_alerts D"
      "adb_attempts D' = adb_attempts D @ new" "adb_raw D' = adb_raw D"
    and f: "same_delivery d (f d)" "delivery_state_ok (f d)"
    and unsent: "\<And>a. a \<in> set (adb_alerts D) \<Longrightarrow> ad_alert_id d = al_id a \<Longrightarrow> corrected a \<Longrightarrow> ad_state (f d) \<noteq> ''pending'' \<and> ad_state (f d) \<noteq> ''failed''"
    and sending: "ad_state (f d) = ''sending'' \<Longrightarrow> ad_attempt_count d < ad_attempt_count (f d)"
    and sent: "ad_state (f d) = ''sent'' \<Longrightarrow> receipted (adb_attempts D @ new) (f d)"
    and new: "attempt_fits d (adb_attempts D) new" and receipts: "\<forall>t\<in>set new. has_receipt t \<longrightarrow> ad_state (f d) = ''sent'' \<and> aa_number t = ad_attempt_count (f d)"
  shows "ledger_sound V D D'"
proof -
  define g where "g e = (if ad_id e = i then f e else e)" for e
  have gd: "g d = f d" using d(2) by (simp add: g_def)
  have other: "g e = e" if "e \<in> set (adb_deliveries D)" "e \<noteq> d" for e
    using delivery_ids [OF inv that(1) d(1)] that d(2) by (auto simp: g_def)
  then have g: "g e = (if e = d then g d else e)" if "e \<in> set (adb_deliveries D)" for e using that by presburger
  have "attempts_ok (adb_deliveries D) (adb_attempts D)" using inv by (simp add: alert_inv_def)
  then have att: "attempts_ok (map g (adb_deliveries D)) (adb_attempts D @ new)"
    using f(1) sending sent new receipts unfolding gd [symmetric] by (intro attempts_ok_change [OF _ d(1) g]) blast+
  have row: "same_delivery e (g e) \<and> delivery_state_ok (g e)" if "e \<in> set (adb_deliveries D)" for e
  proof (cases "e = d")
    case True
    then show ?thesis using f gd by metis
  next
    case False
    then show ?thesis using other [OF that] delivery_inv(1) [OF inv that] same_delivery_refl by metis
  qed
  have open_row: "ad_state (g e) \<noteq> ''pending'' \<and> ad_state (g e) \<noteq> ''failed''"
    if "e \<in> set (adb_deliveries D)" "a \<in> set (adb_alerts D)" "ad_alert_id e = al_id a" "corrected a" for e a
  proof (cases "e = d")
    case True
    then show ?thesis using unsent that gd by metis
  next
    case False
    then show ?thesis using other [OF that(1)] delivery_inv(3) [OF inv that] by metis
  qed
  show ?thesis
  proof (rule ledger_update [where f = id and g = g and new = new])
    show "adb_deliveries D' = map g (adb_deliveries D)" unfolding D'(1) g_def ..
    show "adb_alerts D' = map id (adb_alerts D)" "adb_attempts D' = adb_attempts D @ new" using D' by simp_all
    show "raw_of D' j \<noteq> None" if "raw_of D j \<noteq> None" for j using that D'(4) unfolding raw_of_def by simp
  qed (use row open_row att in simp_all)
qed

lemma find_delivery_Some:
  assumes "find_delivery D i = Some (d, a)"
  shows "d \<in> set (adb_deliveries D)" "ad_id d = i" "a \<in> set (adb_alerts D)" "ad_alert_id d = al_id a"
    "find (\<lambda>d. ad_id d = i) (adb_deliveries D) = Some d"
  using assms by (auto simp: find_delivery_def find_Some_iff split: option.split_asm dest!: sym [of "Some _"])

lemma find_row: "find (\<lambda>d. ad_id d = i) (adb_deliveries D) = Some d \<Longrightarrow> d \<in> set (adb_deliveries D) \<and> ad_id d = i"
  by (auto simp: find_Some_iff)

lemma update_delivery_sel [simp]:
  "adb_deliveries (update_delivery i f D) = map (\<lambda>d. if ad_id d = i then f d else d) (adb_deliveries D)"
  "adb_alerts (update_delivery i f D) = adb_alerts D" "adb_attempts (update_delivery i f D) = adb_attempts D"
  "adb_raw (update_delivery i f D) = adb_raw D" "adb_jobs (update_delivery i f D) = adb_jobs D" "adb_collections (update_delivery i f D) = adb_collections D"
  by (simp_all add: update_delivery_def)

text \<open>Ending an attempt that is not running any more needs no new attempt row.\<close>

lemma settle_sound:
  assumes "alert_inv V D" "d \<in> set (adb_deliveries D)" "ad_id d = i" "\<not> final_state (ad_state d)" "st = ''suppressed'' \<or> st = ''permanent''"
  shows "ledger_sound V D (update_delivery i (\<lambda>e. e\<lparr>ad_state := st\<rparr>) D)"
  by (rule delivery_change [OF assms(1-3), where f = "\<lambda>e. e\<lparr>ad_state := st\<rparr>" and new = "[]"])
    (use assms delivery_inv(1) [OF assms(1,2)] in \<open>auto simp: same_delivery_def delivery_state_ok_def final_state_def attempt_fits_def\<close>)

lemma alert_claim_sound:
  assumes "alert_inv V D" "d \<in> set (adb_deliveries D)" "ad_id d = i" "\<not> final_state (ad_state d)"
  shows "ledger_sound V D (update_delivery i (claimed_row V now) D)"
  by (rule delivery_change [OF assms(1-3), where f = "claimed_row V now" and new = "[]"])
    (use assms delivery_inv(1) [OF assms(1,2)] in \<open>auto simp: claimed_row_def same_delivery_def delivery_state_ok_def final_state_def attempt_fits_def\<close>)

text \<open>A worker claimed the delivery less than two minutes ago.\<close>

definition in_flight :: "time \<Rightarrow> delivery_row \<Rightarrow> bool" where
  "in_flight now d \<longleftrightarrow> ad_state d = ''sending'' \<and> (case ad_last_attempt_at d of None \<Rightarrow> False | Some t \<Rightarrow> time_sub now t < 2 * minute)"

text \<open>The cases of a claim that commits.\<close>

lemma begin_tx_cases:
  assumes "begin_tx V i now D = Commit D' x"
  obtains d a where "find_delivery D i = Some (d, a)" "\<not> final_state (ad_state d)" "x = Inr None"
      "D' = update_delivery i (\<lambda>d. d\<lparr>ad_state := ''suppressed''\<rparr>) D" "corrected a"
  | d a where "find_delivery D i = Some (d, a)" "\<not> final_state (ad_state d)" "x = Inl ErrPayloadIntegrity"
      "D' = update_delivery i (\<lambda>d. d\<lparr>ad_state := ''permanent''\<rparr>) D"
      "DeliverySHA256 (al_marshal V) (lib_sha256 (al_lib V)) (alert_payload a (ad_channel d) (ad_idempotency_key d) 0) \<noteq> ad_payload_sha256 d"
  | d a where "find_delivery D i = Some (d, a)" "\<not> final_state (ad_state d)"
      "x = Inr (Some ((alert_payload a (ad_channel d) (ad_idempotency_key d) 0)\<lparr>del_Attempt := ad_attempt_count d + 1\<rparr>))"
      "D' = update_delivery i (claimed_row V now) D" "\<not> corrected a" "\<not> source_pending D (al_source_id a)" "ad_next_attempt_at d \<le> now"
      "\<not> in_flight now d" "ad_attempt_count d < 2 ^ 31 - 1"
proof (cases "find_delivery D i")
  case None
  then show ?thesis using assms by (simp add: begin_tx_def)
next
  case (Some p)
  obtain d a where p: "find_delivery D i = Some (d, a)" using Some by (cases p) auto
  note unfolded = assms [unfolded begin_tx_def p option.case prod.case Let_def]
  show ?thesis
  proof (cases "corrected a")
    case True
    then show ?thesis using unfolded that(1) [OF p] by (auto simp: final_state_def split: if_split_asm)
  next
    case False
    then show ?thesis using unfolded [folded in_flight_def] that(2,3) [OF p] by (auto simp: final_state_def not_less split: if_split_asm)
  qed
qed

lemma begin_tx_sound: "begin_tx V i now D = Commit D' x \<Longrightarrow> ledger_sound V D D'"
proof (rule ledger_soundI)
  assume inv: "alert_inv V D" and "begin_tx V i now D = Commit D' x"
  from this(2) show "ledger_sound V D D'"
  proof (cases rule: begin_tx_cases)
    case (1 d a)
    show ?thesis unfolding 1(4) by (rule settle_sound [OF inv find_delivery_Some(1,2) [OF 1(1)] 1(2)]) simp
  next
    case (2 d a)
    show ?thesis unfolding 2(4) by (rule settle_sound [OF inv find_delivery_Some(1,2) [OF 2(1)] 2(2)]) simp
  next
    case (3 d a)
    show ?thesis unfolding 3(4) by (rule alert_claim_sound [OF inv find_delivery_Some(1,2) [OF 3(1)] 3(2)])
  qed
qed

text \<open>A running attempt has no row yet, so recording its outcome adds one.\<close>

lemma record_running:
  assumes inv: "alert_inv V D" and d: "d \<in> set (adb_deliveries D)" "ad_state d = ''sending''"
    and t: "aa_delivery_id t = ad_id d" "aa_number t = ad_attempt_count d" and ins: "record_attempt V t D = Inr D1"
  shows "D1 = D\<lparr>adb_attempts := adb_attempts D @ [t]\<rparr>" "attempt_fits d (adb_attempts D) [t]"
proof -
  have "(aa_delivery_id u, aa_number u) \<noteq> (aa_delivery_id t, aa_number t)" if u: "u \<in> set (adb_attempts D)" for u
  proof
    assume eq: "(aa_delivery_id u, aa_number u) = (aa_delivery_id t, aa_number t)"
    obtain e where e: "e \<in> set (adb_deliveries D)" "ad_id e = aa_delivery_id u" "ad_state e = ''sending'' \<longrightarrow> aa_number u < ad_attempt_count e"
      using inv u unfolding alert_inv_def attempts_ok_def by blast
    then have "e = d" using delivery_ids [OF inv e(1) d(1)] eq t by simp
    then show False using e(3) d(2) eq t by simp
  qed
  then have fresh: "(aa_delivery_id t, aa_number t) \<notin> (\<lambda>t. (aa_delivery_id t, aa_number t)) ` set (adb_attempts D)" by fastforce
  then show "D1 = D\<lparr>adb_attempts := adb_attempts D @ [t]\<rparr>" using ins by (auto simp: record_attempt_def image_iff split: if_split_asm)
  have "1 \<le> ad_attempt_count d" using delivery_inv(1) [OF inv d(1)] d(2) by (simp add: delivery_state_ok_def)
  then show "attempt_fits d (adb_attempts D) [t]" using t fresh by (simp add: attempt_fits_def)
qed

lemma outcome_sound:
  assumes inv: "alert_inv V D" and d: "d \<in> set (adb_deliveries D)" "ad_id d = i" "ad_state d = ''sending''"
    and t: "aa_delivery_id t = i" "aa_number t = ad_attempt_count d" and ins: "record_attempt V t D = Inr D1"
    and f: "same_delivery d (f d)" "delivery_state_ok (f d)" "ad_state (f d) \<noteq> ''sending''" "ad_state (f d) \<noteq> ''pending''"
    and failed: "\<And>a. a \<in> set (adb_alerts D) \<Longrightarrow> ad_alert_id d = al_id a \<Longrightarrow> corrected a \<Longrightarrow> ad_state (f d) \<noteq> ''failed''"
    and sent: "ad_state (f d) = ''sent'' \<Longrightarrow> aa_outcome t = ''sent'' \<and> aa_provider_id t = ad_provider_id (f d) \<and> ad_attempt_count (f d) = ad_attempt_count d"
    and receipt: "has_receipt t \<Longrightarrow> ad_state (f d) = ''sent''"
  shows "ledger_sound V D (update_delivery i f D1)"
proof -
  have D1: "D1 = D\<lparr>adb_attempts := adb_attempts D @ [t]\<rparr>" and fits: "attempt_fits d (adb_attempts D) [t]"
    using record_running [OF inv d(1,3) _ t(2) ins] t(1) d(2) by simp_all
  have last: "receipted (adb_attempts D @ [t]) (f d)" if "ad_state (f d) = ''sent''"
    using sent [OF that] t d(2) f(1) by (auto simp: receipted_def same_delivery_def)
  have receipts: "\<forall>u\<in>set [t]. has_receipt u \<longrightarrow> ad_state (f d) = ''sent'' \<and> aa_number u = ad_attempt_count (f d)"
  proof (intro ballI impI)
    fix u assume "u \<in> set [t]" "has_receipt u"
    then have u: "u = t" and st: "ad_state (f d) = ''sent''" using receipt by simp_all
    show "ad_state (f d) = ''sent'' \<and> aa_number u = ad_attempt_count (f d)" using u st sent [OF st] t(2) by presburger
  qed
  show ?thesis
  proof (rule delivery_change [OF inv d(1,2), where f = f and new = "[t]"])
    show "\<forall>u\<in>set [t]. has_receipt u \<longrightarrow> ad_state (f d) = ''sent'' \<and> aa_number u = ad_attempt_count (f d)" by (rule receipts)
  qed (use f failed fits last in \<open>simp_all add: D1\<close>)
qed

lemma complete_tx_sound: "complete_tx V i providerID now D = Commit D' x \<Longrightarrow> ledger_sound V D D'"
proof (rule ledger_soundI)
  assume inv: "alert_inv V D" and c: "complete_tx V i providerID now D = Commit D' x"
  define f where "f = (\<lambda>d :: delivery_row. d\<lparr>ad_state := ''sent'', ad_provider_id := Some providerID, ad_delivered_at := Some (pg_time (al_pg V) now)\<rparr>)"
  obtain d t D1 where d: "find (\<lambda>d. ad_id d = i) (adb_deliveries D) = Some d" "ad_state d = ''sending''" and D': "D' = update_delivery i f D1"
    and rec: "record_attempt V \<lparr>aa_delivery_id = i, aa_number = ad_attempt_count d, aa_outcome = ''sent'', aa_error_code = None,
      aa_provider_id = Some providerID, aa_attempted_at = t, aa_completed_at = pg_time (al_pg V) now\<rparr> D = Inr D1"
    using c unfolding complete_tx_def f_def by (auto simp: commit_or_fail_Commit go_result split: option.split_asm if_split_asm)
  have d': "d \<in> set (adb_deliveries D)" "ad_id d = i" using find_row [OF d(1)] by simp_all
  show "ledger_sound V D D'"
    unfolding D' by (rule outcome_sound [OF inv d' d(2) _ _ rec])
      (use delivery_inv(1) [OF inv d'(1)] d(2) in \<open>simp_all add: f_def same_delivery_def delivery_state_ok_def final_state_def\<close>)
qed

lemma fail_tx_sound: "fail_tx V i code permanent now D = Commit D' x \<Longrightarrow> ledger_sound V D D'"
proof (rule ledger_soundI)
  assume inv: "alert_inv V D" and c: "fail_tx V i code permanent now D = Commit D' x"
  define f where "f a nx = (\<lambda>d :: delivery_row. d\<lparr>ad_state := failed_state permanent (al_corrected_at a \<noteq> None), ad_next_attempt_at := nx\<rparr>)"
    for a :: alert_row and nx
  obtain d t D1 e a nx where d: "find (\<lambda>d. ad_id d = i) (adb_deliveries D) = Some d" "ad_state d = ''sending''" and e: "find_delivery D i = Some (e, a)"
    and D': "D' = update_delivery i (f a nx) D1"
    and rec: "record_attempt V \<lparr>aa_delivery_id = i, aa_number = ad_attempt_count d, aa_outcome = (if permanent then ''permanent'' else ''retryable''),
      aa_error_code = Some code, aa_provider_id = None, aa_attempted_at = t, aa_completed_at = pg_time (al_pg V) now\<rparr> D = Inr D1"
    using c unfolding fail_tx_def f_def Let_def by (auto simp: commit_or_fail_Commit go_result split: option.split_asm if_split_asm)
  have d': "d \<in> set (adb_deliveries D)" "ad_id d = i" using find_row [OF d(1)] by simp_all
  have "e = d" using find_delivery_Some(5) [OF e] d(1) by simp
  then have a: "a \<in> set (adb_alerts D)" "ad_alert_id d = al_id a" using find_delivery_Some [OF e] by simp_all
  have "b = a" if "b \<in> set (adb_alerts D)" "ad_alert_id d = al_id b" for b using alert_ids [OF inv that(1) a(1)] that a(2) by simp
  then show "ledger_sound V D D'"
    unfolding D' by (intro outcome_sound [OF inv d' d(2) _ _ rec])
      (use delivery_inv(1) [OF inv d'(1)] d(2) in \<open>auto simp: f_def same_delivery_def delivery_state_ok_def final_state_def failed_state_def split: if_split_asm\<close>)
qed


lemma is_corrected_alert:
  assumes "alert_inv V D" "a \<in> set (adb_alerts D)" "ad_alert_id d = al_id a"
  shows "is_corrected D d \<longleftrightarrow> corrected a"
proof -
  have "find (\<lambda>b. al_id b = ad_alert_id d) (adb_alerts D) \<noteq> None" using assms(2,3) by (auto simp: find_None_iff)
  then obtain b where b: "find (\<lambda>b. al_id b = ad_alert_id d) (adb_alerts D) = Some b" by auto
  then have "b \<in> set (adb_alerts D)" "al_id b = al_id a" using assms(3) by (auto simp: find_Some_iff)
  then have "b = a" using alert_ids [OF assms(1) _ assms(2)] by blast
  then show ?thesis using b by (simp add: is_corrected_def)
qed

lemma release_sound:
  assumes inv: "alert_inv V D" and d: "d \<in> set (adb_deliveries D)" "ad_state d = ''sending''"
    and rel: "release V now (is_corrected D d) d D = Inr D'"
  shows "ledger_sound V D D'"
proof -
  define f where "f = (\<lambda>e :: delivery_row. e\<lparr>ad_state := if is_corrected D d then ''suppressed'' else ''failed'', ad_next_attempt_at := now\<rparr>)"
  obtain t D1 where D': "D' = update_delivery (ad_id d) f D1"
    and rec: "record_attempt V \<lparr>aa_delivery_id = ad_id d, aa_number = ad_attempt_count d, aa_outcome = ''retryable'',
      aa_error_code = Some ''worker_interrupted'', aa_provider_id = None, aa_attempted_at = t, aa_completed_at = now\<rparr> D = Inr D1"
    using rel unfolding release_def f_def by (auto simp: go_result split: option.split_asm)
  show ?thesis
    unfolding D' by (rule outcome_sound [OF inv d(1) refl d(2) _ _ rec])
      (use delivery_inv(1) [OF inv d(1)] d(2) is_corrected_alert [OF inv] in
        \<open>auto simp: f_def same_delivery_def delivery_state_ok_def final_state_def split: if_split_asm\<close>)
qed

text \<open>A reconciled delivery is the only one that changes, and no alert does.\<close>

definition only_delivery :: "string \<Rightarrow> alert_db \<Rightarrow> alert_db \<Rightarrow> bool" where
  "only_delivery i D D' \<longleftrightarrow> adb_alerts D' = adb_alerts D \<and> (\<forall>e. ad_id e \<noteq> i \<longrightarrow> e \<in> set (adb_deliveries D') \<longleftrightarrow> e \<in> set (adb_deliveries D))"

lemma record_attempt_keeps:
  "record_attempt V t D = Inr D' \<Longrightarrow> adb_alerts D' = adb_alerts D \<and> adb_deliveries D' = adb_deliveries D \<and> adb_jobs D' = adb_jobs D
     \<and> adb_collections D' = adb_collections D"
  by (auto simp: record_attempt_def split: if_split_asm)

lemma enqueue_keeps:
  "enqueue_alert_job V j D = Inr (D', b) \<Longrightarrow> adb_alerts D' = adb_alerts D \<and> adb_deliveries D' = adb_deliveries D"
  by (auto simp: enqueue_alert_job_def split: option.split_asm if_split_asm)

lemma only_update_delivery:
  assumes "adb_alerts D1 = adb_alerts D" "adb_deliveries D1 = adb_deliveries D" "\<And>e. ad_id (f e) = ad_id e"
  shows "only_delivery i D (update_delivery i f D1)"
  using assms by (auto simp: only_delivery_def)

lemma release_only: "release V now c d D = Inr D' \<Longrightarrow> only_delivery (ad_id d) D D'"
  using record_attempt_keeps by (fastforce simp: release_def go_result split: option.split_asm intro!: only_update_delivery)

lemma only_delivery_refl [simp]: "only_delivery i D D"
  by (simp add: only_delivery_def)

lemma only_delivery_same: "only_delivery i D E \<Longrightarrow> adb_alerts F = adb_alerts E \<and> adb_deliveries F = adb_deliveries E \<Longrightarrow> only_delivery i D F"
  by (simp add: only_delivery_def)

text \<open>The two branches of a reconciled delivery.\<close>

lemma reconcile_one_cases:
  assumes "reconcile_one V now c d D = Inr (D', n)"
  obtains (settle) "c" "ad_state d \<noteq> ''sending''" "D' = update_delivery (ad_id d) (\<lambda>e. e\<lparr>ad_state := ''suppressed''\<rparr>) D" "n = 0"
    | (release) "c" "ad_state d = ''sending''" "release V now c d D = Inr D'" "n = 0"
    | (enqueue) D1 b where "\<not> c" "D1 = D \<and> ad_state d \<noteq> ''sending'' \<or> release V now c d D = Inr D1 \<and> ad_state d = ''sending''"
        "enqueue_alert_job V (DeliverCriticalAlert (ad_id d) now) D1 = Inr (D', b)" "n = (if b then 1 else 0)"
proof (cases c)
  case True
  then show ?thesis using assms settle release by (cases "ad_state d = ''sending''") (auto simp: reconcile_one_def go_result)
next
  case False
  then obtain D1 b where "(if ad_state d = ''sending'' then release V now False d D else Inr D) = Inr D1"
    "enqueue_alert_job V (DeliverCriticalAlert (ad_id d) now) D1 = Inr (D', b)" "n = (if b then 1 else 0)"
    using assms by (auto simp: reconcile_one_def go_result)
  then show ?thesis using enqueue [of D1 b] False by (cases "ad_state d = ''sending''") auto
qed

lemma reconcile_one_only: "reconcile_one V now c d D = Inr (D', n) \<Longrightarrow> only_delivery (ad_id d) D D'"
proof (erule reconcile_one_cases)
  fix D1 b
  assume "D1 = D \<and> ad_state d \<noteq> ''sending'' \<or> release V now c d D = Inr D1 \<and> ad_state d = ''sending''"
    and "enqueue_alert_job V (DeliverCriticalAlert (ad_id d) now) D1 = Inr (D', b)"
  then show ?thesis using release_only enqueue_keeps only_delivery_same only_delivery_refl by metis
qed (use release_only in \<open>auto intro: only_update_delivery\<close>)

lemma reconcile_one_sound:
  assumes inv: "alert_inv V D" and d: "d \<in> set (adb_deliveries D)" "\<not> final_state (ad_state d)"
    and one: "reconcile_one V now (is_corrected D d) d D = Inr (D', n)"
  shows "ledger_sound V D D'"
  using one
proof (cases rule: reconcile_one_cases)
  case settle
  show ?thesis unfolding settle(3) by (rule settle_sound [OF inv d(1) refl d(2)]) simp
next
  case release
  then show ?thesis using release_sound [OF inv d(1)] by simp
next
  case (enqueue D1 b)
  have "ledger_sound V D D1" using enqueue(2) release_sound [OF inv d(1)] by auto
  then show ?thesis using same_ledger_sound [OF enqueue_alert_job_same [OF enqueue(3)]] ledger_sound_trans by blast
qed

lemma reconcile_loop_sound:
  "reconcile_loop V now c page D n = Inr (D', m) \<Longrightarrow> distinct (map ad_id page) \<Longrightarrow> set page \<subseteq> set (adb_deliveries D)
     \<Longrightarrow> (\<forall>d\<in>set page. \<not> final_state (ad_state d) \<and> c d = is_corrected D d) \<Longrightarrow> ledger_sound V D D'"
proof (induction page arbitrary: D n)
  case (Cons d page)
  show ?case
  proof (rule ledger_soundI)
    assume inv: "alert_inv V D"
    obtain D1 k where one: "reconcile_one V now (is_corrected D d) d D = Inr (D1, k)" and rest: "reconcile_loop V now c page D1 (n + k) = Inr (D', m)"
      using Cons.prems(1,4) by (auto simp: go_result)
    have only: "only_delivery (ad_id d) D D1" by (rule reconcile_one_only [OF one])
    have "ad_id e \<noteq> ad_id d" if "e \<in> set page" for e using Cons.prems(2) that by (auto simp: image_iff)
    then have page: "set page \<subseteq> set (adb_deliveries D1)" using Cons.prems(3) only by (auto simp: only_delivery_def)
    have "is_corrected D1 e = is_corrected D e" for e using only by (simp add: is_corrected_def only_delivery_def)
    then have "ledger_sound V D1 D'" using Cons.IH [OF rest _ page] Cons.prems(2,4) by simp
    then show "ledger_sound V D D'" using reconcile_one_sound [OF inv _ _ one] Cons.prems(3,4) ledger_sound_trans by auto
  qed
qed simp

lemma stranded_page_rows:
  assumes "alert_inv V D"
  shows "distinct (map ad_id (stranded_page locked now D))" "set (stranded_page locked now D) \<subseteq> set (adb_deliveries D)"
    "\<And>d. d \<in> set (stranded_page locked now D) \<Longrightarrow> is_stranded D now d \<and> \<not> final_state (ad_state d)"
proof -
  let ?rows = "filter (\<lambda>d. is_stranded D now d \<and> \<not> locked (ad_id d)) (adb_deliveries D)"
  have dist: "distinct (adb_deliveries D)" "inj_on ad_id (set (adb_deliveries D))"
    using assms by (simp_all add: alert_inv_def deliveries_ok_def distinct_map)
  show sub: "set (stranded_page locked now D) \<subseteq> set (adb_deliveries D)" by (auto simp: stranded_page_def dest!: in_set_takeD)
  have "distinct (stranded_page locked now D)" using dist(1) by (simp add: stranded_page_def)
  then show "distinct (map ad_id (stranded_page locked now D))" using dist(2) sub by (simp add: distinct_map inj_on_subset)
  show "is_stranded D now d \<and> \<not> final_state (ad_state d)" if "d \<in> set (stranded_page locked now D)" for d
    using that by (auto simp: stranded_page_def is_stranded_def final_state_def dest!: in_set_takeD)
qed

lemma reconcile_deliveries_tx_sound: "reconcile_deliveries_tx V locked now D = Commit D' x \<Longrightarrow> ledger_sound V D D'"
proof (rule ledger_soundI)
  assume inv: "alert_inv V D" and "reconcile_deliveries_tx V locked now D = Commit D' x"
  then obtain m where "reconcile_loop V now (is_corrected D) (stranded_page locked now D) D 0 = Inr (D', m)"
    by (auto simp: reconcile_deliveries_tx_def Let_def split: if_split_asm sum.split_asm)
  then show "ledger_sound V D D'" by (rule reconcile_loop_sound) (use stranded_page_rows [OF inv] in auto)
qed

end
