(* ===== verification/Alert_System.thy ===== *)
theory Alert_System
  imports Alert_Delivery
begin

text \<open>
  The alert store as a system: any number of workers run its operations, and committed transactions
  interleave. \<open>ledger_operation\<close> is the contract of one operation, \<open>alert_step\<close> the step relation, and the
  theorems say what the owner may rely on: a ledger that is always consistent, claims that are
  only given for current alerts, one payload under one key per delivery, nothing sent after a
  receipt or a correction, and no delivery that stays stranded.
\<close>

section \<open>The contract of an operation\<close>

locale ledger_operation =
  fixes V :: alert_env and run :: "'i \<Rightarrow> alert_db \<Rightarrow> 'r \<times> alert_db"
  assumes sound: "ledger_sound V D (snd (run i D))"
begin

lemma keeps_inv: "alert_inv V D \<Longrightarrow> alert_inv V (snd (run i D))"
  using sound unfolding ledger_sound_def by blast

lemma keeps_ledger: "alert_inv V D \<Longrightarrow> ledger_keeps D (snd (run i D))"
  using sound unfolding ledger_sound_def by blast

lemma result_sound: "run i D = (r, D') \<Longrightarrow> ledger_sound V D D'"
  using sound [of D i] by simp

text \<open>A sequence of calls, each of which starts where the last one ended.\<close>

lemma calls_sound: "ledger_sound V D (fold (\<lambda>i E. snd (run i E)) calls D)"
proof (induction calls arbitrary: D)
  case (Cons i calls)
  show ?case using ledger_sound_trans [OF sound Cons] by simp
qed simp

end

text \<open>A transaction whose commits are sound is sound through every fate.\<close>

lemma run_end_sound:
  assumes "\<And>D' x. body D = Commit D' x \<Longrightarrow> ledger_sound V D D'"
  shows "ledger_sound V D (snd (run_end fate failed body D))"
  using assms by (auto simp: run_end_def split: tx_end.split)

interpretation begin_delivery: ledger_operation V "\<lambda>(fate, i, now). BeginDelivery V fate i now" for V
  by unfold_locales (auto simp: BeginDelivery_def run_end_sound [OF begin_tx_sound] split: sum.split)

interpretation complete_delivery: ledger_operation V "\<lambda>(fate, i, p, now). CompleteDelivery V fate i p now" for V
  by unfold_locales (auto simp: CompleteDelivery_def run_end_sound [OF complete_tx_sound] split: sum.split)

interpretation fail_delivery: ledger_operation V "\<lambda>(fate, i, code, permanent, now). FailDelivery V fate i code permanent now" for V
  by unfold_locales (auto simp: FailDelivery_def run_end_sound [OF fail_tx_sound] split: sum.split)

lemma ReconcileDeliveries_snd:
  "snd (ReconcileDeliveries V fate locked readFails now D) =
     (if is_zero now then D
      else snd (run_end fate (Inl (AlertError ''critical alert reconciliation'')) (reconcile_deliveries_tx V locked (pg_time (al_pg V) now)) D))"
  by (auto simp: ReconcileDeliveries_def split: prod.split sum.split)

interpretation reconcile_deliveries: ledger_operation V "\<lambda>(fate, locked, readFails, now). ReconcileDeliveries V fate locked readFails now" for V
  by unfold_locales (auto simp: ReconcileDeliveries_snd run_end_sound [OF reconcile_deliveries_tx_sound])

interpretation catch_up: ledger_operation V "\<lambda>(fate, userID, version, cursor). CatchUp V fate userID version cursor" for V
  by unfold_locales (auto simp: CatchUp_def run_end_sound [OF catch_up_tx_sound] split: sum.split)

lemma unavailable_same: "snd (checkUnavailableObservedBackfillEvidence V fate src ev raw rv D) = D"
  by (auto simp: checkUnavailableObservedBackfillEvidence_def run_end_def Let_def)

lemma assessObservedBackfill_sound:
  assumes "ledger_sound V D (others D)"
  shows "ledger_sound V D (snd (assessObservedBackfill V fate others now raw revisionID D))"
  using assms ledger_sound_trans [OF assms run_end_sound [OF backfill_tx_sound]]
  by (auto simp: assessObservedBackfill_def unavailable_same split: option.split sum.split)

lemma Assess_sound:
  assumes "ledger_sound V D (others D)"
  shows "ledger_sound V D (snd (Assess V fate others now rawDocumentID revisionID D))"
  using assms ledger_sound_trans [OF assms run_end_sound [OF assess_tx_sound]] assessObservedBackfill_sound [of V D others, OF assms]
  by (auto simp: Assess_def split: option.split sum.split)

lemma AssessObservation_sound:
  assumes "ledger_sound V D (others D)"
  shows "ledger_sound V D (snd (AssessObservation V fate others now eventID revisionID D))"
  using assms ledger_sound_trans [OF assms run_end_sound [OF observation_tx_sound]]
  by (auto simp: AssessObservation_def split: option.split sum.split)

interpretation assess: ledger_operation V "\<lambda>(fate, now, raw, revision). Assess V fate id now raw revision" for V
  by unfold_locales (auto intro: Assess_sound)

interpretation assess_observation: ledger_operation V "\<lambda>(fate, now, ev, revision). AssessObservation V fate id now ev revision" for V
  by unfold_locales (auto intro: AssessObservation_sound)

section \<open>Interleaved transactions\<close>

text \<open>
  An assessment reads its evidence before its transaction starts, so its step is the transaction,
  for any evidence it may have read. \<open>elsewhere\<close> stands for every other transaction (collection,
  splitting, settings, the queue), none of which writes the three tables.
\<close>

inductive alert_step :: "alert_env \<Rightarrow> alert_db \<Rightarrow> alert_db \<Rightarrow> bool" for V where
  assess: "assess_tx V raw rv preflight a sourceURL now D = Commit D' x \<Longrightarrow> alert_step V D D'"
| observe: "observation_tx V eventID rv seen a sourceURL now D = Commit D' x \<Longrightarrow> alert_step V D D'"
| backfill: "backfill_tx V eventID raw rv seen a sourceURL now D = Commit D' x \<Longrightarrow> alert_step V D D'"
| catch_up: "CatchUp V fate userID version cursor D = (r, D') \<Longrightarrow> alert_step V D D'"
| begin_delivery: "BeginDelivery V fate i now D = (claim, D') \<Longrightarrow> alert_step V D D'"
| complete: "CompleteDelivery V fate i providerID now D = (r, D') \<Longrightarrow> alert_step V D D'"
| fail: "FailDelivery V fate i code permanent now D = (r, D') \<Longrightarrow> alert_step V D D'"
| reconcile: "ReconcileDeliveries V fate locked readFails now D = (counts, D') \<Longrightarrow> alert_step V D D'"
| elsewhere: "same_ledger D D' \<Longrightarrow> alert_step V D D'"

abbreviation alert_run :: "alert_env \<Rightarrow> alert_db \<Rightarrow> alert_db \<Rightarrow> bool" where
  "alert_run V \<equiv> (alert_step V)\<^sup>*\<^sup>*"

definition no_alerts :: "alert_db \<Rightarrow> bool" where
  "no_alerts D \<longleftrightarrow> adb_alerts D = [] \<and> adb_deliveries D = [] \<and> adb_attempts D = []"

lemma alert_step_sound: "alert_step V D D' \<Longrightarrow> ledger_sound V D D'"
proof (induction rule: alert_step.induct)
  case (begin_delivery fate i now D claim D')
  then show ?case using begin_delivery.result_sound [where i = "(fate, i, now)"] by simp
next
  case (complete fate i providerID now D r D')
  then show ?case using complete_delivery.result_sound [where i = "(fate, i, providerID, now)"] by simp
next
  case (fail fate i code permanent now D r D')
  then show ?case using fail_delivery.result_sound [where i = "(fate, i, code, permanent, now)"] by simp
next
  case (reconcile fate locked readFails now D counts D')
  then show ?case using reconcile_deliveries.result_sound [where i = "(fate, locked, readFails, now)"] by simp
next
  case (catch_up fate userID version cursor D r D')
  then show ?case using catch_up.result_sound [where i = "(fate, userID, version, cursor)"] by simp
qed (rule assess_tx_sound observation_tx_sound backfill_tx_sound same_ledger_sound, assumption)+

lemma alert_run_sound: "alert_run V D D' \<Longrightarrow> ledger_sound V D D'"
proof (induction rule: rtranclp_induct)
  case (step E F)
  then show ?case using alert_step_sound ledger_sound_trans by blast
qed simp

text \<open>The two assessments as a whole are runs: what others committed meanwhile, then at most one transaction.\<close>

lemma run_end_run:
  assumes "alert_run V D E" "\<And>D' x. body E = Commit D' x \<Longrightarrow> alert_step V E D'"
  shows "alert_run V D (snd (run_end fate failed body E))"
  using assms by (auto simp: run_end_def split: tx_end.split intro: rtranclp.rtrancl_into_rtrancl)

lemma AssessObservation_run:
  assumes "alert_run V D (others D)"
  shows "alert_run V D (snd (AssessObservation V fate others now eventID revisionID D))"
  using run_end_run [OF assms alert_step.observe]
  by (auto simp: AssessObservation_def split: option.split sum.split)

lemma Assess_run:
  assumes "alert_run V D (others D)"
  shows "alert_run V D (snd (Assess V fate others now rawDocumentID revisionID D))"
  using assms run_end_run [OF assms alert_step.assess] run_end_run [OF assms alert_step.backfill]
  by (auto simp: Assess_def assessObservedBackfill_def unavailable_same split: option.split sum.split)

lemma no_alerts_inv: "no_alerts D \<Longrightarrow> alert_inv V D"
  by (simp add: no_alerts_def alert_inv_def episodes_ok_def deliveries_ok_def attempts_ok_def raw_known_def)

lemma alert_reachable_inv: "no_alerts D0 \<Longrightarrow> alert_run V D0 D \<Longrightarrow> alert_inv V D"
  using alert_run_sound no_alerts_inv unfolding ledger_sound_def by blast

lemma run_keeps: "alert_inv V D \<Longrightarrow> alert_run V D D' \<Longrightarrow> alert_inv V D' \<and> ledger_keeps D D'"
  using alert_run_sound unfolding ledger_sound_def by blast

text \<open>
  C24. Whatever the workers do and however their transactions interleave, the ledger is consistent:
  identifiers and channels are unique, the episodes of a package are numbered from one without
  gaps and all but the last are corrected, every delivery repeats its alert under the key and digest derived
  from it, nothing of a corrected alert waits to be sent, attempts are numbered up to the delivery's
  count, and a delivery is sent exactly when its last attempt has a receipt, which is then the receipt of the delivery; no earlier attempt has one.
\<close>

theorem alert_ledger_consistent: "no_alerts D0 \<Longrightarrow> alert_run V D0 D \<Longrightarrow> alert_inv V D"
  by (rule alert_reachable_inv)

section \<open>Claims\<close>

lemma run_end_cases:
  assumes "run_end fate failed body D = (r, D')"
  obtains "r = failed" "D' = D" | "body D = Rollback r" "D' = D" | "body D = Commit D' r" "fate = Commits"
proof (cases "body D")
  case (Rollback x)
  then have "r = failed \<and> D' = D \<or> body D = Rollback r \<and> D' = D" using assms by (cases fate) (simp_all add: run_end_def)
  then show thesis using that by blast
next
  case (Commit E x)
  then have "r = failed \<and> D' = D \<or> body D = Commit D' r \<and> fate = Commits" using assms by (cases fate) (simp_all add: run_end_def)
  then show thesis using that by blast
qed

text \<open>A row of the ledger and its alert.\<close>

lemma find_delivery_repeats:
  assumes "alert_inv V D" "find_delivery D i = Some (d, a)"
  shows "repeats V a d"
proof -
  obtain b where "b \<in> set (adb_alerts D)" "repeats V b d" using delivery_inv(2) [OF assms(1) find_delivery_Some(1) [OF assms(2)]] by blast
  moreover from this have "b = a" using alert_ids [OF assms(1)] find_delivery_Some(3,4) [OF assms(2)] by (simp add: repeats_def)
  ultimately show ?thesis by simp
qed

lemma claim_cases:
  assumes "BeginDelivery V fate deliveryID now D = (Inr (Some request), D')"
  obtains i d a where "alert_uuid V deliveryID = Inr i" "find_delivery D i = Some (d, a)" "\<not> final_state (ad_state d)"
      "request = (alert_payload a (ad_channel d) (ad_idempotency_key d) 0)\<lparr>del_Attempt := ad_attempt_count d + 1\<rparr>"
      "D' = update_delivery i (claimed_row V now) D" "\<not> corrected a" "\<not> source_pending D (al_source_id a)" "ad_next_attempt_at d \<le> now"
      "\<not> in_flight now d"
proof -
  obtain i where i: "alert_uuid V deliveryID = Inr i"
    and run: "run_end fate (Inl (AlertError ''critical alert delivery'')) (begin_tx V i now) D = (Inr (Some request), D')"
    using assms by (auto simp: BeginDelivery_def split: if_split_asm sum.split_asm)
  from run have "begin_tx V i now D = Commit D' (Inr (Some request))"
  proof (cases rule: run_end_cases)
    case 2
    then show ?thesis by (auto simp: begin_tx_def Let_def split: option.split_asm if_split_asm)
  qed auto
  then show thesis by (cases rule: begin_tx_cases) (use that [OF i] in auto)
qed

lemma payload_intact:
  assumes inv: "alert_inv V D"
  shows "fst (BeginDelivery V fate deliveryID now D) \<noteq> Inl ErrPayloadIntegrity"
proof
  assume bad: "fst (BeginDelivery V fate deliveryID now D) = Inl ErrPayloadIntegrity"
  then obtain i D' where run: "run_end fate (Inl (AlertError ''critical alert delivery'')) (begin_tx V i now) D = (Inl ErrPayloadIntegrity, D')"
    by (auto simp: BeginDelivery_def alert_uuid_def prod_eq_iff split: if_split_asm option.split_asm)
  then show False
  proof (cases rule: run_end_cases)
    case 2
    then show ?thesis by (auto simp: begin_tx_def Let_def split: option.split_asm if_split_asm)
  next
    case 3
    from 3(1) show ?thesis
    proof (cases rule: begin_tx_cases)
      case (2 d a)
      then show ?thesis using find_delivery_repeats [OF inv 2(1)] by (simp add: repeats_def)
    qed simp_all
  qed simp
qed

text \<open>
  C25. In every reachable state a claim never finds a changed payload. When it is given, the delivery is
  of an alert that no advisory has corrected, whose source has no unprocessed observation, it is due and no worker
  claimed it in the last two minutes; the request is the alert's own data under the key of the
  alert and the channel, and its attempt number has not been recorded.
\<close>

theorem claim_current:
  assumes "no_alerts D0" "alert_run V D0 D"
  shows "fst (BeginDelivery V fate deliveryID now D) \<noteq> Inl ErrPayloadIntegrity
    \<and> (\<forall>request D'. BeginDelivery V fate deliveryID now D = (Inr (Some request), D') \<longrightarrow>
         (\<exists>d\<in>set (adb_deliveries D). \<exists>a\<in>set (adb_alerts D). ad_alert_id d = al_id a \<and> al_corrected_at a = None
            \<and> \<not> source_pending D (al_source_id a) \<and> ad_next_attempt_at d \<le> now \<and> \<not> in_flight now d
            \<and> request = alert_payload a (ad_channel d) (delivery_key (al_id a) (ad_channel d)) (ad_attempt_count d + 1)
            \<and> (\<forall>t\<in>set (adb_attempts D). aa_delivery_id t = ad_id d \<longrightarrow> aa_number t < del_Attempt request)))"
proof (intro conjI allI impI)
  have inv: "alert_inv V D" by (rule alert_reachable_inv [OF assms])
  show "fst (BeginDelivery V fate deliveryID now D) \<noteq> Inl ErrPayloadIntegrity" by (rule payload_intact [OF inv])
  fix request D' assume "BeginDelivery V fate deliveryID now D = (Inr (Some request), D')"
  then obtain i d a where c: "find_delivery D i = Some (d, a)" "\<not> corrected a" "\<not> source_pending D (al_source_id a)" "ad_next_attempt_at d \<le> now"
      "\<not> in_flight now d" and req: "request = (alert_payload a (ad_channel d) (ad_idempotency_key d) 0)\<lparr>del_Attempt := ad_attempt_count d + 1\<rparr>"
    by (rule claim_cases)
  note row = find_delivery_Some [OF c(1)]
  have "request = alert_payload a (ad_channel d) (delivery_key (al_id a) (ad_channel d)) (ad_attempt_count d + 1)"
    using req find_delivery_repeats [OF inv c(1)] by (simp add: repeats_def alert_payload_def)
  moreover from this have "aa_number t < del_Attempt request" if t: "t \<in> set (adb_attempts D)" "aa_delivery_id t = ad_id d" for t
  proof -
    obtain e where e: "e \<in> set (adb_deliveries D)" "ad_id e = aa_delivery_id t" "aa_number t \<le> ad_attempt_count e"
      using inv t(1) unfolding alert_inv_def attempts_ok_def by blast
    have "e = d" using delivery_ids [OF inv e(1) row(1)] e(2) t(2) by simp
    then show ?thesis using e(3) req by simp
  qed
  ultimately show "\<exists>d\<in>set (adb_deliveries D). \<exists>a\<in>set (adb_alerts D). ad_alert_id d = al_id a \<and> al_corrected_at a = None
            \<and> \<not> source_pending D (al_source_id a) \<and> ad_next_attempt_at d \<le> now \<and> \<not> in_flight now d
            \<and> request = alert_payload a (ad_channel d) (delivery_key (al_id a) (ad_channel d)) (ad_attempt_count d + 1)
            \<and> (\<forall>t\<in>set (adb_attempts D). aa_delivery_id t = ad_id d \<longrightarrow> aa_number t < del_Attempt request)"
    using row c by (intro bexI [of _ d] bexI [of _ a] conjI ballI impI) simp_all
qed

section \<open>One payload, and nothing after the end\<close>

lemma ledger_delivery:
  assumes "ledger_keeps D D'" "alert_inv V D'" "d \<in> set (adb_deliveries D)" "find_delivery D' (ad_id d) = Some (d', a')"
  shows "same_delivery d d'"
proof -
  obtain e where e: "e \<in> set (adb_deliveries D')" "same_delivery d e" using assms(1,3) unfolding ledger_keeps_def by blast
  have "e = d'" using delivery_ids [OF assms(2) e(1) find_delivery_Some(1) [OF assms(4)]] e(2) find_delivery_Some(2) [OF assms(4)]
    by (simp add: same_delivery_def)
  then show ?thesis using e(2) by simp
qed

lemma ledger_alert:
  assumes "ledger_keeps D D'" "alert_inv V D'" "a \<in> set (adb_alerts D)" "a' \<in> set (adb_alerts D')" "al_id a' = al_id a"
  shows "corrects a a'"
proof -
  obtain b where b: "b \<in> set (adb_alerts D')" "corrects a b" using assms(1,3) unfolding ledger_keeps_def corrects_def by blast
  have "b = a'" using alert_ids [OF assms(2) b(1) assms(4)] corrects_sel(1) [OF b(2)] assms(5) by simp
  then show ?thesis using b(2) by simp
qed

text \<open>
  Two claims of one delivery, with anything in between, hand out the same request under the same
  key; only the attempt number differs, and it grows. A provider that honours the key sends once.
\<close>

lemma claims_same_payload:
  assumes "no_alerts D0" "alert_run V D0 D" "BeginDelivery V fate deliveryID now D = (Inr (Some first), D1)"
    and "alert_run V D1 D2" "BeginDelivery V fate' deliveryID now' D2 = (Inr (Some again), D3)"
  shows "again = first\<lparr>del_Attempt := del_Attempt again\<rparr> \<and> del_Attempt first < del_Attempt again"
proof -
  have inv: "alert_inv V D" by (rule alert_reachable_inv [OF assms(1,2)])
  have "alert_inv V D1" using begin_delivery.keeps_inv [OF inv, of "(fate, deliveryID, now)"] assms(3) by simp
  then have k: "alert_inv V D2" "ledger_keeps D1 D2" using run_keeps assms(4) by blast+
  obtain i d a where c: "alert_uuid V deliveryID = Inr i" "find_delivery D i = Some (d, a)" "D1 = update_delivery i (claimed_row V now) D"
    "first = (alert_payload a (ad_channel d) (ad_idempotency_key d) 0)\<lparr>del_Attempt := ad_attempt_count d + 1\<rparr>" by (rule claim_cases [OF assms(3)])
  obtain d' a' where c': "find_delivery D2 i = Some (d', a')"
    "again = (alert_payload a' (ad_channel d') (ad_idempotency_key d') 0)\<lparr>del_Attempt := ad_attempt_count d' + 1\<rparr>"
    using claim_cases [OF assms(5)] c(1) by (metis sum.inject(2))
  note row = find_delivery_Some [OF c(2)] and row' = find_delivery_Some [OF c'(1)]
  have "claimed_row V now d \<in> set (adb_deliveries D1)" "ad_id (claimed_row V now d) = i" using row(1,2) c(3) by (auto simp: claimed_row_def image_iff)
  then have same: "same_delivery (claimed_row V now d) d'" using ledger_delivery [OF k(2,1)] c'(1) by metis
  then have d': "ad_alert_id d' = ad_alert_id d" "ad_channel d' = ad_channel d" "ad_idempotency_key d' = ad_idempotency_key d"
    "ad_attempt_count d < ad_attempt_count d'" by (simp_all add: same_delivery_def claimed_row_def)
  have "corrects a a'" by (rule ledger_alert [OF k(2,1) _ row'(3)]) (use row row' d' c(3) in simp_all)
  then have "alert_payload a' = alert_payload a" by (rule corrects_sel)
  then show ?thesis using c(4) c'(2) d' by simp
qed

text \<open>
  C26. Once a delivery has a receipt, failed for good or was suppressed, or once its alert was
  corrected, no later claim of it succeeds, whatever happens in between: an alert is never sent
  again after its receipt, and never first sent after its correction.
\<close>

theorem no_claim_after_end:
  assumes "no_alerts D0" "alert_run V D0 D" "d \<in> set (adb_deliveries D)" "a \<in> set (adb_alerts D)" "ad_alert_id d = al_id a"
    and ended: "final_state (ad_state d) \<or> al_corrected_at a \<noteq> None"
    and "alert_run V D D'" "alert_uuid V deliveryID = Inr (ad_id d)"
  shows "fst (BeginDelivery V fate deliveryID now D') \<noteq> Inr (Some request)"
proof
  assume "fst (BeginDelivery V fate deliveryID now D') = Inr (Some request)"
  then obtain D1 where claim: "BeginDelivery V fate deliveryID now D' = (Inr (Some request), D1)" by (cases "BeginDelivery V fate deliveryID now D'") auto
  obtain i d' a' where "alert_uuid V deliveryID = Inr i" and found: "find_delivery D' i = Some (d', a')"
    and ok: "\<not> final_state (ad_state d')" "\<not> corrected a'" by (rule claim_cases [OF claim])
  then have i: "i = ad_id d" using assms(8) by simp
  have k: "alert_inv V D'" "ledger_keeps D D'" using run_keeps [OF alert_reachable_inv [OF assms(1,2)] assms(7)] by blast+
  have same: "same_delivery d d'" by (rule ledger_delivery [OF k(2,1) assms(3)]) (use found i in simp)
  have "corrects a a'" by (rule ledger_alert [OF k(2,1) assms(4)]) (use find_delivery_Some [OF found] same assms(5) in \<open>simp_all add: same_delivery_def\<close>)
  then show False using ended ok same by (auto simp: same_delivery_def corrects_def)
qed

section \<open>No delivery stays stranded\<close>

text \<open>
  What reconciliation leaves behind of a stranded delivery: it is suppressed when its alert was
  corrected, and otherwise it is due and has a job.
\<close>

definition restored :: "time \<Rightarrow> bool \<Rightarrow> alert_db \<Rightarrow> delivery_row \<Rightarrow> bool" where
  "restored now isCorrected D d \<longleftrightarrow>
     (\<exists>e\<in>set (adb_deliveries D). ad_id e = ad_id d
        \<and> (if isCorrected then ad_state e = ''suppressed'' else (ad_state e = ''pending'' \<or> ad_state e = ''failed'') \<and> ad_next_attempt_at e \<le> now))
     \<and> (isCorrected \<or> has_active_job D (ad_id d))"

text \<open>The queue accepts a delivery's job when it has none, and text columns hold plain text.\<close>

definition queue_accepts :: "alert_env \<Rightarrow> bool" where
  "queue_accepts V \<longleftrightarrow>
     (\<forall>D i t. \<not> has_active_job D i \<longrightarrow> ae_enqueue V (adb_jobs D) (DeliverCriticalAlert i t) = Some True)
     \<and> pg_text (al_pg V) [] \<and> pg_text (al_pg V) ''worker_interrupted''"

lemma has_active_job_append:
  "adb_jobs D' = adb_jobs D @ [(DeliverCriticalAlert i t, ''available'')] \<Longrightarrow> has_active_job D' j \<longleftrightarrow> j = i \<or> has_active_job D j"
  by (auto simp: has_active_job_def active_job_states_def)

lemma release_restores:
  assumes inv: "alert_inv V D" and d: "d \<in> set (adb_deliveries D)" "is_stranded D now d" "ad_state d = ''sending''" and ok: "queue_accepts V"
  obtains D' e where "release V now c d D = Inr D'" "e \<in> set (adb_deliveries D')" "ad_id e = ad_id d"
    "ad_state e = (if c then ''suppressed'' else ''failed'')" "ad_next_attempt_at e = now" "adb_jobs D' = adb_jobs D"
proof -
  obtain t where t: "ad_last_attempt_at d = Some t" "t \<le> now" using d(2,3) by (auto simp: is_stranded_def split: option.split_asm)
  let ?t = "\<lparr>aa_delivery_id = ad_id d, aa_number = ad_attempt_count d, aa_outcome = ''retryable'', aa_error_code = Some ''worker_interrupted'',
     aa_provider_id = None, aa_attempted_at = t, aa_completed_at = now\<rparr>"
  have "1 \<le> ad_attempt_count d" using delivery_inv(1) [OF inv d(1)] d(3) by (simp add: delivery_state_ok_def)
  then have "record_attempt V ?t D \<noteq> Inl e" for e using t ok by (simp add: record_attempt_def queue_accepts_def)
  then obtain D1 where D1: "record_attempt V ?t D = Inr D1" by (cases "record_attempt V ?t D") auto
  show thesis
    using record_attempt_keeps [OF D1] d(1)
    by (intro that [of "update_delivery (ad_id d) (\<lambda>e. e\<lparr>ad_state := if c then ''suppressed'' else ''failed'', ad_next_attempt_at := now\<rparr>) D1"
          "d\<lparr>ad_state := if c then ''suppressed'' else ''failed'', ad_next_attempt_at := now\<rparr>"])
      (auto simp: release_def t(1) D1 image_iff intro!: bexI [of _ d])
qed

lemma enqueue_restores:
  assumes "queue_accepts V" "\<not> has_active_job D i"
  shows "enqueue_alert_job V (DeliverCriticalAlert i t) D = Inr (D\<lparr>adb_jobs := adb_jobs D @ [(DeliverCriticalAlert i t, ''available'')]\<rparr>, True)"
  using assms by (simp add: enqueue_alert_job_def queue_accepts_def)

definition job_of :: "bool \<Rightarrow> delivery_row \<Rightarrow> time \<Rightarrow> (alert_job \<times> string) list" where
  "job_of isCorrected d now = (if isCorrected then [] else [(DeliverCriticalAlert (ad_id d) now, ''available'')])"

lemma reconcile_one_restores:
  assumes inv: "alert_inv V D" and d: "d \<in> set (adb_deliveries D)" "is_stranded D now d" and ok: "queue_accepts V"
  obtains D' where "reconcile_one V now c d D = Inr (D', if c then 0 else 1)" "restored now c D' d" "adb_jobs D' = adb_jobs D @ job_of c d now"
proof -
  have idle: "\<not> has_active_job D (ad_id d)" using d(2) by (simp add: is_stranded_def)
  have same_jobs: "has_active_job E i = has_active_job D i" if "adb_jobs E = adb_jobs D" for E i using that by (simp add: has_active_job_def)
  show thesis
  proof (cases "ad_state d = ''sending''")
    case True
    obtain D1 e where r: "release V now c d D = Inr D1" "e \<in> set (adb_deliveries D1)" "ad_id e = ad_id d"
      "ad_state e = (if c then ''suppressed'' else ''failed'')" "ad_next_attempt_at e = now" "adb_jobs D1 = adb_jobs D"
      by (rule release_restores [OF inv d True ok])
    let ?D = "D1\<lparr>adb_jobs := adb_jobs D1 @ job_of c d now\<rparr>"
    have "restored now c ?D d" using r has_active_job_append [of ?D D "ad_id d"] by (auto simp: restored_def job_of_def intro!: bexI [of _ e])
    moreover have "reconcile_one V now c d D = Inr (?D, if c then 0 else 1)"
      using r enqueue_restores [OF ok, of D1 "ad_id d"] same_jobs [OF r(6)] idle True by (simp add: reconcile_one_def job_of_def)
    ultimately show thesis using that r(6) by simp
  next
    case False
    then have due: "ad_state d = ''pending'' \<or> ad_state d = ''failed''" "ad_next_attempt_at d \<le> now" using d(2) by (auto simp: is_stranded_def)
    define D1 where "D1 = (if c then update_delivery (ad_id d) (\<lambda>e. e\<lparr>ad_state := ''suppressed''\<rparr>) D else D)"
    define e where "e = (if c then d\<lparr>ad_state := ''suppressed''\<rparr> else d)"
    let ?D = "D1\<lparr>adb_jobs := adb_jobs D1 @ job_of c d now\<rparr>"
    have e: "e \<in> set (adb_deliveries D1)" "ad_id e = ad_id d" "adb_jobs D1 = adb_jobs D" using d(1) by (auto simp: D1_def e_def image_iff)
    have "restored now c ?D d"
      using e due has_active_job_append [of ?D D "ad_id d"] by (auto simp: restored_def job_of_def e_def intro!: bexI [of _ e])
    moreover have "reconcile_one V now c d D = Inr (?D, if c then 0 else 1)"
      using enqueue_restores [OF ok idle] False by (simp add: reconcile_one_def job_of_def D1_def)
    ultimately show thesis using that e(3) by simp
  qed
qed

lemma restored_later:
  assumes "restored now c D e" "only_delivery i D D'" "ad_id e \<noteq> i" "set (adb_jobs D) \<subseteq> set (adb_jobs D')"
  shows "restored now c D' e"
proof -
  have "has_active_job D j \<Longrightarrow> has_active_job D' j" for j using assms(4) unfolding has_active_job_def by blast
  moreover have "f \<in> set (adb_deliveries D')" if "f \<in> set (adb_deliveries D)" "ad_id f = ad_id e" for f
    using assms(2,3) that by (simp add: only_delivery_def)
  ultimately show ?thesis using assms(1) unfolding restored_def by blast
qed

lemma reconcile_loop_restores:
  "alert_inv V D \<Longrightarrow> queue_accepts V \<Longrightarrow> distinct (map ad_id page) \<Longrightarrow> set page \<subseteq> set (adb_deliveries D)
    \<Longrightarrow> \<forall>d\<in>set page. is_stranded D now d \<and> \<not> final_state (ad_state d) \<and> c d = is_corrected D d
    \<Longrightarrow> \<exists>D'. reconcile_loop V now c page D n = Inr (D', n + int (length (filter (\<lambda>d. \<not> c d) page)))
          \<and> (\<forall>d\<in>set page. restored now (c d) D' d) \<and> set (adb_jobs D) \<subseteq> set (adb_jobs D')
          \<and> (\<forall>e i k. i \<notin> ad_id ` set page \<longrightarrow> ad_id e = i \<longrightarrow> restored now k D e \<longrightarrow> restored now k D' e)"
proof (induction page arbitrary: D n)
  case (Cons d page)
  have d: "d \<in> set (adb_deliveries D)" "is_stranded D now d" "\<not> final_state (ad_state d)" "c d = is_corrected D d" using Cons.prems(4,5) by simp_all
  obtain D1 where one: "reconcile_one V now (c d) d D = Inr (D1, if c d then 0 else 1)" "restored now (c d) D1 d"
    "adb_jobs D1 = adb_jobs D @ job_of (c d) d now" by (rule reconcile_one_restores [OF Cons.prems(1) d(1,2) Cons.prems(2)])
  have inv1: "alert_inv V D1" using reconcile_one_sound [OF Cons.prems(1) d(1,3)] one(1) d(4) Cons.prems(1) by (simp add: ledger_sound_def)
  have only: "only_delivery (ad_id d) D D1" by (rule reconcile_one_only [OF one(1)])
  have other: "ad_id e \<noteq> ad_id d" if "e \<in> set page" for e using Cons.prems(3) that by (auto simp: image_iff)
  have "is_corrected D1 e = is_corrected D e" for e using only by (simp add: is_corrected_def only_delivery_def)
  moreover have "is_stranded D1 now e" if "e \<in> set page" for e
  proof -
    have "has_active_job D1 (ad_id e) = has_active_job D (ad_id e)"
      using one(3) other [OF that] by (auto simp: has_active_job_def job_of_def)
    then show ?thesis using Cons.prems(5) that by (simp add: is_stranded_def)
  qed
  moreover have "set page \<subseteq> set (adb_deliveries D1)" using Cons.prems(4) other only by (auto simp: only_delivery_def)
  ultimately obtain D' where rest: "reconcile_loop V now c page D1 (n + (if c d then 0 else 1))
        = Inr (D', n + (if c d then 0 else 1) + int (length (filter (\<lambda>d. \<not> c d) page)))"
      and all: "\<forall>d\<in>set page. restored now (c d) D' d" and jobs: "set (adb_jobs D1) \<subseteq> set (adb_jobs D')"
      and keep: "\<And>e k. ad_id e \<notin> ad_id ` set page \<Longrightarrow> restored now k D1 e \<Longrightarrow> restored now k D' e"
    using Cons.IH [OF inv1 Cons.prems(2), of "n + (if c d then 0 else 1)"] Cons.prems(3,5) by auto
  have "restored now (c d) D' d" using keep [OF _ one(2)] Cons.prems(3) by simp
  moreover have "restored now k D' e" if "ad_id e \<notin> ad_id ` set (d # page)" "restored now k D e" for e k
    using keep [OF _ restored_later [OF that(2) only]] that(1) one(3) by auto
  moreover have "reconcile_loop V now c (d # page) D n = Inr (D', n + int (length (filter (\<lambda>d. \<not> c d) (d # page))))"
    using one(1) rest by (simp add: and_then_def)
  ultimately show ?case using all jobs one(3) by auto
qed simp

text \<open>
  C27. A reconciliation that reaches its commit restores every stranded delivery, up to 128 in one run:
  afterwards each is suppressed when its alert was corrected, and otherwise it is due and has an active
  job; the result counts the jobs. Claims of workers that stopped are released on the way.
\<close>

theorem reconcile_restores:
  assumes "no_alerts D0" "alert_run V D0 D" "queue_accepts V" "\<not> is_zero now" "\<forall>d\<in>set (adb_deliveries D). uuid_ok (al_pg V) (ad_id d)"
    and few: "length (filter (\<lambda>d. is_stranded D (pg_time (al_pg V) now) d \<and> \<not> locked (ad_id d)) (adb_deliveries D)) \<le> 128"
  shows "\<exists>late D'. ReconcileDeliveries V Commits locked False now D
      = (Inr (int (length (filter (\<lambda>d. is_stranded D (pg_time (al_pg V) now) d \<and> \<not> locked (ad_id d) \<and> \<not> is_corrected D d) (adb_deliveries D))), late), D')
    \<and> (\<forall>d\<in>set (adb_deliveries D). is_stranded D (pg_time (al_pg V) now) d \<and> \<not> locked (ad_id d)
         \<longrightarrow> restored (pg_time (al_pg V) now) (is_corrected D d) D' d)"
proof -
  let ?now = "pg_time (al_pg V) now"
  let ?rows = "filter (\<lambda>d. is_stranded D ?now d \<and> \<not> locked (ad_id d)) (adb_deliveries D)"
  have inv: "alert_inv V D" by (rule alert_reachable_inv [OF assms(1,2)])
  define page where "page = stranded_page locked ?now D"
  have page: "page = sort_key (\<lambda>d. (ad_next_attempt_at d, ad_id d)) ?rows"
    using few by (simp add: page_def stranded_page_def criticalDeliveryRecoveryPageSize_def)
  note rows = stranded_page_rows [OF inv, where locked = locked and now = ?now, folded page_def]
  obtain D' where loop: "reconcile_loop V ?now (is_corrected D) page D 0 = Inr (D', 0 + int (length (filter (\<lambda>d. \<not> is_corrected D d) page)))"
      and all: "\<forall>d\<in>set page. restored ?now (is_corrected D d) D' d"
    using reconcile_loop_restores [OF inv assms(3) rows(1,2), of ?now "is_corrected D" 0] rows(3) by blast
  have n: "length (filter (\<lambda>d. \<not> is_corrected D d) page) = length (filter (\<lambda>d. is_stranded D ?now d \<and> \<not> locked (ad_id d) \<and> \<not> is_corrected D d) (adb_deliveries D))"
    by (simp add: page filter_sort conj_ac)
  have "list_all (\<lambda>d. uuid_ok (al_pg V) (ad_id d)) page" using assms(5) rows(2) by (auto simp: list_all_iff)
  then have "reconcile_deliveries_tx V locked ?now D = Commit D' (Inr (int (length (filter (\<lambda>d. \<not> is_corrected D d) page))))"
    using loop by (simp add: reconcile_deliveries_tx_def page_def)
  then show ?thesis using assms(4) n all by (auto simp: ReconcileDeliveries_def run_end_def page)
qed

section \<open>Observations in order\<close>

text \<open>An event that is the first unprocessed one of its source, with its collection.\<close>

definition first_pending :: "alert_db \<Rightarrow> int \<Rightarrow> bool" where
  "first_pending D eventID \<longleftrightarrow>
     (\<exists>ob c. observation_of D eventID = Some ob \<and> collection_of D (ob_collection_id ob) = Some c \<and> ob_state ob = ''pending'' \<and> co_state c = ''pending''
        \<and> (\<forall>c'\<in>set (adb_collections D). co_source_id c' = co_source_id c \<and> co_state c' = ''pending'' \<longrightarrow> co_id c \<le> co_id c')
        \<and> (\<forall>ob'\<in>set (adb_observations D). ob_collection_id ob' = co_id c \<and> ob_state ob' = ''pending'' \<longrightarrow> ob_entry_ordinal ob \<le> ob_entry_ordinal ob'))"

lemma loaded_observation:
  assumes "loadObservationEvidenceState V D eventID rv st lock = Inr (Some current)"
  obtains ob c where "observation_of D eventID = Some ob" "collection_of D (ob_collection_id ob) = Some c" "ob_state ob = st" "co_state c = st"
    "oe_collectionID current = co_id c" "oe_entryOrdinal current = ob_entry_ordinal ob" "ev_sourceID (oe_evidence current) = co_source_id c"
    "oe_eventID current = eventID"
proof -
  obtain ob where ob: "observation_of D eventID = Some ob"
    using assms by (auto simp: loadObservationEvidenceState_def split: option.split_asm)
  obtain c where c: "collection_of D (ob_collection_id ob) = Some c"
    using assms by (auto simp: loadObservationEvidenceState_def ob split: option.split_asm)
  have "ob_id ob = eventID" using ob by (auto simp: observation_of_def find_Some_iff)
  moreover obtain cols where "current = observed_row ob c cols" "ob_state ob = st" "co_state c = st"
    using assms by (auto simp: loadObservationEvidenceState_def ob c split: option.split_asm if_split_asm)
  ultimately show thesis using that [OF ob c] by (simp add: observed_row_def)
qed

lemma earliest_observation:
  assumes "loadObservationEvidenceState V D eventID rv ''pending'' lock = Inr (Some current)" "requireEarliestObservation D current = None"
  shows "first_pending D eventID"
proof -
  obtain ob c where f: "observation_of D eventID = Some ob" "collection_of D (ob_collection_id ob) = Some c" "ob_state ob = ''pending''" "co_state c = ''pending''"
    "oe_collectionID current = co_id c" "oe_entryOrdinal current = ob_entry_ordinal ob" "ev_sourceID (oe_evidence current) = co_source_id c"
    by (rule loaded_observation [OF assms(1)])
  have "\<not> (\<exists>c'\<in>set (adb_collections D). co_source_id c' = co_source_id c \<and> co_id c' < co_id c \<and> co_state c' = ''pending'')"
    "\<not> (\<exists>ob'\<in>set (adb_observations D). ob_collection_id ob' = co_id c \<and> ob_entry_ordinal ob' < ob_entry_ordinal ob \<and> ob_state ob' = ''pending'')"
    using assms(2) unfolding requireEarliestObservation_def f(5-7) by (auto split: if_split_asm)
  then show ?thesis unfolding first_pending_def using f(1-4) by (metis not_less)
qed

text \<open>The decision leaves the observations alone, and the acknowledgement only processes the event.\<close>

lemma insert_deliveries_observations: "insert_deliveries V a t channels D = Inr D' \<Longrightarrow> adb_observations D' = adb_observations D"
  by (induction channels arbitrary: D)
    (auto simp: go_result insert_delivery_def enqueue_only_def enqueue_alert_job_def split: if_split_asm option.split_asm)

lemma insertMatch_observations:
  "insertMatch V raw rv ev sourceURL advisoryID userID m channels t episode opening D = Inr D' \<Longrightarrow> adb_observations D' = adb_observations D"
  by (auto simp: insertMatch_def Let_def split: if_split_asm dest!: insert_deliveries_observations)

lemma observed_matches_observations:
  "observed_matches V current rv sourceURL advisoryID owner t ms D = Inr D' \<Longrightarrow> adb_observations D' = adb_observations D"
  by (induction ms arbitrary: D) (auto simp: go_result split: if_split_asm dest!: insertMatch_observations)

lemma observed_owners_observations:
  "observed_owners V current rv sourceURL a now owners D = Inr D' \<Longrightarrow> adb_observations D' = adb_observations D"
proof (induction owners arbitrary: D)
  case (Cons owner owners)
  then show ?case using observed_matches_observations by (fastforce simp: go_result Let_def split: if_split_asm sum.split_asm)
qed simp

lemma decision_observations: "observation_decision V current rv a sourceURL now D = Inr D' \<Longrightarrow> adb_observations D' = adb_observations D"
  by (auto simp: observation_decision_def admitObservedAlerts_def correctObservedAlerts_def suppress_deliveries_def Let_def
      split: if_split_asm dest!: observed_owners_observations)

lemma next_observations: "enqueueNextObservation V src D = Inr D' \<Longrightarrow> adb_observations D' = adb_observations D"
  by (auto simp: enqueueNextObservation_def enqueue_only_def enqueue_alert_job_def mark_parse_def go_result split: option.split_asm if_split_asm)

lemma acknowledge_observations:
  assumes "acknowledgeObservation V current now D = Inr D'"
  shows "adb_observations D' = adb_observations (process_event (oe_eventID current) (pg_time (al_pg V) now) D)"
  using assms next_observations by (fastforce simp: acknowledgeObservation_def Let_def clear_parent_def complete_collection_def split: if_split_asm)

lemma processed_event:
  assumes "observation_of D eventID = Some ob" "ob_state ob = ''pending''" "adb_observations D' = adb_observations (process_event eventID t D)"
  shows "observation_of D' eventID = Some (ob\<lparr>ob_state := ''processed'', ob_processed_at := Some t\<rparr>)"
proof -
  have "find (\<lambda>ob. ob_id ob = i) (map (\<lambda>ob. if ob_id ob = i \<and> ob_state ob = ''pending'' then ob\<lparr>ob_state := ''processed'', ob_processed_at := Some t\<rparr> else ob) obs)
      = map_option (\<lambda>ob. if ob_state ob = ''pending'' then ob\<lparr>ob_state := ''processed'', ob_processed_at := Some t\<rparr> else ob) (find (\<lambda>ob. ob_id ob = i) obs)" for obs :: "observation_row list" and i
    by (induction obs) auto
  then show ?thesis using assms by (simp add: observation_of_def process_event_def)
qed

lemma observation_tx_order:
  assumes "observation_tx V eventID rv seen a sourceURL now D = Commit D' x"
  shows "first_pending D eventID \<and> (\<exists>ob'. observation_of D' eventID = Some ob' \<and> ob_state ob' = ''processed'') \<and> x = Inr ()
    \<and> (\<forall>ob. ob_id ob \<noteq> eventID \<longrightarrow> ob \<in> set (adb_observations D') \<longleftrightarrow> ob \<in> set (adb_observations D))"
proof -
  obtain current D1 where l: "loadObservationEvidenceState V D eventID rv ''pending'' True = Inr (Some current)" and e: "requireEarliestObservation D current = None"
    and one: "observation_decision V current rv a sourceURL now D = Inr D1" and two: "acknowledgeObservation V current now D1 = Inr D'" and x: "x = Inr ()"
    using assms by (auto simp: observation_tx_def commit_or_fail_Commit go_result split: if_split_asm sum.split_asm option.split_asm)
  obtain ob where ob: "observation_of D eventID = Some ob" "ob_state ob = ''pending''" "oe_eventID current = eventID" using loaded_observation [OF l] by metis
  have obs: "adb_observations D' = adb_observations (process_event eventID (pg_time (al_pg V) now) D)"
    using acknowledge_observations [OF two] decision_observations [OF one] ob(3) by (simp add: process_event_def)
  show ?thesis using earliest_observation [OF l e] processed_event [OF ob(1,2) obs] x obs by (auto simp: process_event_def)
qed

text \<open>
  C28. Observations of a source take effect in order and once: whenever an assessment changes anything,
  its event was the first unprocessed one of its source at that moment, in the order of collections and of
  entries within one; afterwards it is processed and no other event has changed, and repeating the call
  succeeds and changes nothing.
\<close>

theorem observations_in_order:
  assumes "AssessObservation V fate others now eventID revisionID D = (r, D')"
  shows "D' = D \<or> D' = others D
    \<or> (r = Inr () \<and> first_pending (others D) eventID
       \<and> (\<exists>ob. observation_of D' eventID = Some ob \<and> ob_state ob = ''processed'')
       \<and> (\<forall>ob. ob_id ob \<noteq> eventID \<longrightarrow> ob \<in> set (adb_observations D') \<longleftrightarrow> ob \<in> set (adb_observations (others D)))
       \<and> AssessObservation V fate' others' now' eventID revisionID D' = (Inr (), D'))"
proof (cases "D' = D \<or> D' = others D")
  case False
  then obtain rv seen a sourceURL where pre: "0 < eventID" "uuid_ok (al_pg V) revisionID" "alert_uuid V revisionID = Inr rv"
    and run: "run_end fate (Inl (AlertError ''advisory observation assessment'')) (observation_tx V eventID rv seen a sourceURL now) (others D) = (r, D')"
    using assms by (auto simp: AssessObservation_def not_le split: if_split_asm sum.split_asm option.split_asm)
  from run have c: "observation_tx V eventID rv seen a sourceURL now (others D) = Commit D' r"
    by (cases rule: run_end_cases) (use False in auto)
  note o = observation_tx_order [OF c]
  then obtain ob where ob: "observation_of D' eventID = Some ob" "ob_state ob = ''processed''" by blast
  then have "loadObservationEvidenceState V D' eventID rv ''pending'' False = Inr None"
    by (auto simp: loadObservationEvidenceState_def split: option.split)
  then have "AssessObservation V fate' others' now' eventID revisionID D' = (Inr (), D')"
    using pre ob by (simp add: AssessObservation_def observationProcessed_def)
  then show ?thesis using o by blast
qed blast

section \<open>The delivery job\<close>

lemma update_in:
  "d \<in> set (adb_deliveries D) \<Longrightarrow> ad_id d = i \<Longrightarrow> f d \<in> set (adb_deliveries (update_delivery i f D))"
  by (auto simp: image_iff)

lemma recorded_in:
  "record_attempt V t D = Inr D1 \<Longrightarrow> d \<in> set (adb_deliveries D) \<Longrightarrow> ad_id d = i \<Longrightarrow> f d \<in> set (adb_deliveries (update_delivery i f D1))"
  using record_attempt_keeps update_in by metis

lemma completed_sent:
  assumes inv: "alert_inv V D" and known: "alert_uuid V deliveryID = Inr i" "\<exists>d\<in>set (adb_deliveries D). ad_id d = i"
    and run: "CompleteDelivery V fate deliveryID providerID now D = (Inr (), D')"
  shows "\<exists>d\<in>set (adb_deliveries D'). ad_id d = i \<and> ad_state d = ''sent''"
proof -
  obtain d where d: "find (\<lambda>d. ad_id d = i) (adb_deliveries D) = Some d"
    using known(2) by (cases "find (\<lambda>d. ad_id d = i) (adb_deliveries D)") (auto simp: find_None_iff)
  note row = find_row [OF d]
  have "run_end fate (Inl (AlertError ''critical alert completion'')) (complete_tx V i providerID now) D = (Inr (), D')"
    using run known(1) by (simp add: CompleteDelivery_def split: if_split_asm)
  then show ?thesis
  proof (cases rule: run_end_cases)
    case 2
    then have "ad_state d = ''sent''" by (auto simp: complete_tx_def d commit_or_fail_def split: option.split_asm if_split_asm sum.split_asm)
    then show ?thesis using 2 row by blast
  next
    case 3
    define f where "f = (\<lambda>d :: delivery_row. d\<lparr>ad_state := ''sent'', ad_provider_id := Some providerID, ad_delivered_at := Some (pg_time (al_pg V) now)\<rparr>)"
    obtain D1 t where "record_attempt V t D = Inr D1" "D' = update_delivery i f D1"
      using 3(1) unfolding complete_tx_def f_def by (auto simp: d commit_or_fail_Commit go_result split: option.split_asm if_split_asm)
    then have "f d \<in> set (adb_deliveries D')" using recorded_in row by blast
    then show ?thesis using row by (intro bexI [of _ "f d"]) (simp_all add: f_def)
  qed simp
qed

lemma failed_recorded:
  assumes inv: "alert_inv V D" and known: "alert_uuid V deliveryID = Inr i" "\<exists>d\<in>set (adb_deliveries D). ad_id d = i"
    and run: "FailDelivery V fate deliveryID code permanent now D = (Inr (), D')"
  shows "\<exists>d\<in>set (adb_deliveries D'). ad_id d = i
     \<and> (ad_state d = ''suppressed'' \<or> ad_state d = (if permanent then ''permanent'' else ''failed''))
     \<and> (code = ''provider_retry_exhausted'' \<and> \<not> permanent \<longrightarrow> ad_next_attempt_at d = pg_time (al_pg V) (now + exhaustedRetryCooldown))"
proof -
  obtain d where d: "find (\<lambda>d. ad_id d = i) (adb_deliveries D) = Some d"
    using known(2) by (cases "find (\<lambda>d. ad_id d = i) (adb_deliveries D)") (auto simp: find_None_iff)
  note row = find_row [OF d]
  have "run_end fate (Inl (AlertError ''critical alert failure'')) (fail_tx V i code permanent now) D = (Inr (), D')"
    using run known(1) by (simp add: FailDelivery_def split: if_split_asm)
  then show ?thesis
  proof (cases rule: run_end_cases)
    case 2
    then show ?thesis by (auto simp: fail_tx_def d commit_or_fail_def Let_def split: option.split_asm if_split_asm sum.split_asm)
  next
    case 3
    define nx where "nx = (if \<not> permanent \<and> code = ''provider_retry_exhausted'' then now + exhaustedRetryCooldown else now)"
    define f where "f a = (\<lambda>d :: delivery_row. d\<lparr>ad_state := failed_state permanent (al_corrected_at a \<noteq> None), ad_next_attempt_at := pg_time (al_pg V) nx\<rparr>)"
      for a :: alert_row
    obtain D1 t a where "record_attempt V t D = Inr D1" "D' = update_delivery i (f a) D1"
      using 3(1) [unfolded fail_tx_def Let_def, folded nx_def f_def] by (auto simp: d commit_or_fail_Commit go_result split: option.split_asm if_split_asm)
    then have "f a d \<in> set (adb_deliveries D')" using recorded_in row by blast
    then show ?thesis using row by (intro bexI [of _ "f a d"]) (simp_all add: f_def failed_state_def nx_def)
  qed simp
qed

text \<open>A claimed delivery is still in the ledger after whatever others commit.\<close>

lemma claimed_known:
  assumes inv: "alert_inv V D" and claim: "BeginDelivery V fate deliveryID now D = (Inr (Some request), D1)" and i: "alert_uuid V deliveryID = Inr i"
    and others: "alert_run V D1 D2"
  shows "alert_inv V D2" "\<exists>d\<in>set (adb_deliveries D2). ad_id d = i"
proof -
  have "alert_inv V D1" using begin_delivery.keeps_inv [OF inv, of "(fate, deliveryID, now)"] claim by simp
  then have k: "alert_inv V D2" "ledger_keeps D1 D2" using run_keeps others by blast+
  then show "alert_inv V D2" by blast
  obtain d a where f: "find_delivery D i = Some (d, a)" "D1 = update_delivery i (claimed_row V now) D"
    using claim_cases [OF claim] i by (metis sum.inject(2))
  have "claimed_row V now d \<in> set (adb_deliveries D1)" unfolding f(2) by (rule update_in) (use find_delivery_Some [OF f(1)] in simp_all)
  then obtain e where "e \<in> set (adb_deliveries D2)" "same_delivery (claimed_row V now d) e" using k(2) unfolding ledger_keeps_def by blast
  then show "\<exists>d\<in>set (adb_deliveries D2). ad_id d = i"
    using find_delivery_Some(2) [OF f(1)] by (intro bexI [of _ e]) (simp_all add: same_delivery_def claimed_row_def)
qed

text \<open>
  The outcome of a delivery job, whatever runs while the provider is asked: it asks the provider at
  most once; when it ends as done after sending, the ledger has the receipt; when it gives up, the delivery
  has failed for good, was suppressed, or the last attempt is over and the ledger is due again five minutes
  later, for reconciliation to restore; a cancelled job is never one that sent nothing.
\<close>

lemma delivery_job_outcome:
  assumes "no_alerts D0" "alert_run V D0 D" "\<forall>E. alert_run V E (others E)" "alert_uuid V deliveryID = Inr i"
    and work: "deliverCriticalAlertWork V fate1 fate2 others send deliveryID attempt maxAttempts now now2 D = (outcome, D', sent)"
  shows "length sent \<le> 1
    \<and> (outcome = AlertJobDone \<and> sent \<noteq> [] \<longrightarrow> (\<exists>d\<in>set (adb_deliveries D'). ad_id d = i \<and> ad_state d = ''sent''))
    \<and> (outcome = AlertJobCancel \<longrightarrow> sent \<noteq> [] \<and> (\<exists>d\<in>set (adb_deliveries D'). ad_id d = i
         \<and> (ad_state d = ''permanent'' \<or> ad_state d = ''suppressed''
            \<or> ad_state d = ''failed'' \<and> maxAttempts \<le> attempt \<and> ad_next_attempt_at d = pg_time (al_pg V) (now2 + exhaustedRetryCooldown))))"
proof (cases "BeginDelivery V fate1 deliveryID now D")
  case (Pair claim D1)
  have inv: "alert_inv V D" by (rule alert_reachable_inv [OF assms(1,2)])
  have no_cancel: "claim \<noteq> Inl ErrPayloadIntegrity" using payload_intact [OF inv, of fate1 deliveryID now] Pair by simp
  show ?thesis
  proof (cases "\<exists>request. claim = Inr (Some request)")
    case False
    then have "sent = [] \<and> outcome \<noteq> AlertJobCancel"
      using work no_cancel by (auto simp: deliverCriticalAlertWork_def Pair split: sum.split_asm option.split_asm)
    then show ?thesis by simp
  next
    case True
    then obtain request where claim: "claim = Inr (Some request)" by blast
    have others: "alert_run V D1 (others D1)" using assms(3) by blast
    note k = claimed_known(1) [OF inv Pair [unfolded claim] assms(4) others] and known = claimed_known(2) [OF inv Pair [unfolded claim] assms(4) others]
    note job = work [unfolded deliverCriticalAlertWork_def Pair claim prod.case sum.case option.case]
    show ?thesis
    proof (cases "send request")
      case (Inr receipt)
      obtain res D2 where c: "CompleteDelivery V fate2 deliveryID receipt now2 (others D1) = (res, D2)" by fastforce
      show ?thesis
      proof (cases res)
        case (Inr u)
        then show ?thesis using job c \<open>send request = Inr receipt\<close> completed_sent [OF k assms(4) known, of fate2 receipt now2 D2] by auto
      qed (use job c Inr in auto)
    next
      case (Inl permanent)
      define code where "code = (if permanent then ''provider_permanent'' else if attempt \<ge> maxAttempts then ''provider_retry_exhausted'' else ''provider_retryable'')"
      obtain res D2 where c: "FailDelivery V fate2 deliveryID code permanent now2 (others D1) = (res, D2)" by fastforce
      note job = job [unfolded Inl sum.case Let_def, folded code_def, unfolded c prod.case]
      show ?thesis
      proof (cases res)
        case (Inr u)
        then have over: "outcome = (if permanent \<or> attempt \<ge> maxAttempts then AlertJobCancel else AlertJobRetry)" "D' = D2" "sent = [request]"
          using job by auto
        have fr: "FailDelivery V fate2 deliveryID code permanent now2 (others D1) = (Inr (), D')" using c Inr over(2) by simp
        obtain d where "d \<in> set (adb_deliveries D')" "ad_id d = i" "ad_state d = ''suppressed'' \<or> ad_state d = (if permanent then ''permanent'' else ''failed'')"
            "code = ''provider_retry_exhausted'' \<and> \<not> permanent \<longrightarrow> ad_next_attempt_at d = pg_time (al_pg V) (now2 + exhaustedRetryCooldown)"
          using failed_recorded [OF k assms(4) known] fr by blast
        then show ?thesis using over by (cases permanent; cases "maxAttempts \<le> attempt") (auto simp: code_def)
      qed (use job in auto)
    qed
  qed
qed

section \<open>A small system\<close>

definition sample_advisory :: advisory where
  "sample_advisory =
     \<lparr>adv_ID = ''GHSA-abcd-efgh-1234'', adv_Kind = ''reviewed'', adv_State = ''published'', adv_Severity = ''critical'',
      adv_PublishedAt = ''2026-01-05T07:00:00Z'', adv_ReviewedAt = ''2026-01-05T08:00:00Z'', adv_WithdrawnAt = [],
      adv_Vulnerabilities = [\<lparr>vul_Ecosystem = ''go'', vul_PackageName = ''p'', vul_VersionRange = ''< 2.0.0'', vul_PatchedVersion = ''2.0.0''\<rparr>]\<rparr>"

definition sample_url :: "string \<Rightarrow> string \<Rightarrow> parsed_url" where
  "sample_url host path = \<lparr>pu_Scheme = ''https'', pu_Host = host, pu_HasUser = False, pu_Opaque = [], pu_Path = path, pu_RawPath = [], pu_RawQuery = [],
     pu_Fragment = [], pu_RawFragment = [], pu_ForceQuery = False\<rparr>"

definition sample_alert_lib :: evidence_lib where
  "sample_alert_lib =
     sample_lib\<lparr>lib_url := (\<lambda>s. Some (if s = ''pub'' then sample_url ''github.com'' ''/advisories/GHSA-abcd-efgh-1234'' else sample_url ''api.github.com'' ''/advisories'')),
       lib_object := (\<lambda>_ _. Some ''{}''),
       lib_decode := (\<lambda>_. Some \<lparr>ae_ID = ''github_advisories:1'', ae_URL = ''pub'', ae_ExternalURL = [], ae_Advisory = sample_advisory\<rparr>)\<rparr>"

definition sample_evidence :: evidence where
  "sample_evidence =
     \<lparr>ev_objectKey = the (RawObjectKey sample_alert_lib (''github-entry-'' @ hex_encode (lib_sha256 sample_alert_lib ''github_advisories:1''))
        (738944 * (24 * hour)) (replicate 32 (CHR 0x07)) ''application/json''),
      ev_rawSHA256 = replicate 32 (CHR 0x07), ev_sourceID = ''github'', ev_canonicalURL = ''pub'', ev_entryRowID = ''entry1'',
      ev_entryID = ''github_advisories:1'', ev_entryFirstSeenAt = 738944 * (24 * hour), ev_endpointURL = GlobalReviewedAdvisoriesURL,
      ev_parentURL = GlobalReviewedAdvisoriesURL, ev_title = ''t'', ev_observedAt = 2000, ev_itemID = ''item1'', ev_itemStatus = ''active''\<rparr>"

definition sample_alert_env :: alert_env where
  "sample_alert_env =
     \<lparr>al_pg = pg_sample, al_lib = sample_alert_lib, al_tz = (\<lambda>_. Some (\<lambda>t. (0, 0, 0))), al_marshal = del_IdempotencyKey, ae_evidence = (\<lambda>_ _ _. Some (Some sample_evidence)),
      ae_observed = (\<lambda>_ ob c rv. Some (Some \<lparr>oc_evidence = sample_evidence, oc_endpoint = GlobalReviewedAdvisoriesURL, oc_parentURL = GlobalReviewedAdvisoriesURL\<rparr>)),
      ae_entry_exists = (\<lambda>_. True), ae_source_exists = (\<lambda>_. True), ae_revision = (\<lambda>_. Some ''rev1''), ae_backfill_expected = (\<lambda>_ _. False),
      ae_page = (\<lambda>_. []), ae_enqueue = (\<lambda>jobs j. Some True)\<rparr>"

definition sample_collection :: collection_row where
  "sample_collection = \<lparr>co_id = 1, co_source_id = ''github'', co_parent_raw_document_id = ''parent1'', co_observed_at = 2000, co_state = ''pending'',
     co_entry_count = Some 1, co_split_completed_at = Some 2500, co_processed_at = None\<rparr>"

definition sample_observation :: observation_row where
  "sample_observation = \<lparr>ob_id = 7, ob_collection_id = 1, ob_entry_ordinal = 0, ob_source_entry_id = ''entry1'', ob_child_raw_document_id = ''raw1'',
     ob_state = ''pending'', ob_processed_at = None\<rparr>"

definition sample_start :: alert_db where
  "sample_start =
     \<lparr>adb_alerts = [], adb_deliveries = [], adb_attempts = [], adb_collections = [sample_collection], adb_observations = [sample_observation],
      adb_raw = [\<lparr>rw_id = ''raw1'', rw_source_id = ''github'', rw_parent_id = Some ''parent1'', rw_source_entry_id = Some ''entry1'', rw_first_seen_at = 2000,
        rw_registry_id = Some ''r'', rw_object_key = Some ''k'', rw_ingestion_error_code = None\<rparr>],
      adb_watches = [\<lparr>wr_id = ''w1'', wr_user_id = ''owner'', wr_ecosystem = Some ''go'', wr_package_name = ''p'', wr_current_version = ''1.0.0'', wr_status = ''active''\<rparr>],
      adb_owners = [(''owner'', ''UTC'')],
      adb_settings = [\<lparr>se_user_id = ''owner'', se_quiet_hours_start = ''22:00'', se_quiet_hours_end = ''07:00'', se_critical_alerts_bypass = True,
        se_critical_alert_channels = [''dashboard'', ''email'']\<rparr>],
      adb_jobs = [], adb_legacy_key = False, adb_seq = 1\<rparr>"

definition sample_alert :: alert_row where
  "sample_alert =
     \<lparr>al_id = ''m1'', al_user_id = ''owner'', al_advisory_id = ''GHSA-abcd-efgh-1234'', al_ecosystem = ''go'', al_package_name = ''p'',
      al_current_version = ''1.0.0'', al_vulnerable_range = ''< 2.0.0'', al_patched_version = ''2.0.0'', al_raw_document_id = ''raw1'',
      al_revision_id = ''rev1'', al_item_id = ''item1'', al_source_id = ''github'', al_source_url = ''pub'', al_title = ''t'',
      al_observed_at = 2000, al_episode_number = 1, al_opening_observation_id = Some 7, al_correction_reason = None,
      al_correction_revision_id = None, al_corrected_at = None, al_correction_observation_id = None\<rparr>"

definition sample_delivery :: delivery_row where
  "sample_delivery = pending_delivery sample_alert_env sample_alert ''email'' 5000 (sample_start\<lparr>adb_seq := 2\<rparr>)"

definition sample_admitted :: alert_db where
  "sample_admitted = sample_start\<lparr>adb_alerts := [sample_alert], adb_deliveries := [sample_delivery],
     adb_collections := [sample_collection\<lparr>co_state := ''processed'', co_processed_at := Some 5000\<rparr>],
     adb_observations := [sample_observation\<lparr>ob_state := ''processed'', ob_processed_at := Some 5000\<rparr>],
     adb_jobs := [(DeliverCriticalAlert ''m2'' 5000, ''available'')], adb_seq := 3\<rparr>"

lemma sample_assessed: "AssessObservation sample_alert_env Commits id 5000 7 ''rev1'' sample_start = (Inr (), sample_admitted)"
  by code_simp

lemma sample_reach: "no_alerts sample_start" "alert_run sample_alert_env sample_start sample_admitted"
proof -
  show "no_alerts sample_start" by (simp add: no_alerts_def sample_start_def)
  show "alert_run sample_alert_env sample_start sample_admitted"
    using AssessObservation_run [of sample_alert_env sample_start id Commits 5000 7 "''rev1''"] by (simp add: sample_assessed)
qed

theorem alert_ledger_consistent_witness:
  "alert_inv sample_alert_env sample_admitted \<and> map ad_state (adb_deliveries sample_admitted) = [''pending'']"
proof -
  have "map ad_state (adb_deliveries sample_admitted) = [''pending'']" by code_simp
  then show ?thesis using alert_ledger_consistent [OF sample_reach] by blast
qed

definition sample_claimed :: alert_db where
  "sample_claimed = update_delivery ''m2'' (claimed_row sample_alert_env 6000) sample_admitted"

definition sample_request :: "int \<Rightarrow> delivery" where
  "sample_request n = alert_payload sample_alert ''email'' ''critical-alert:m1:email'' n"

lemma sample_claim: "BeginDelivery sample_alert_env Commits ''m2'' 6000 sample_admitted = (Inr (Some (sample_request 1)), sample_claimed)"
  by code_simp

lemma sample_claimed_reach: "alert_run sample_alert_env sample_start sample_claimed"
  using sample_reach(2) alert_step.begin_delivery [OF sample_claim] by (rule rtranclp.rtrancl_into_rtrancl)

theorem claim_current_witness:
  "\<exists>d\<in>set (adb_deliveries sample_admitted). \<exists>a\<in>set (adb_alerts sample_admitted). ad_alert_id d = al_id a \<and> al_corrected_at a = None
     \<and> sample_request 1 = alert_payload a (ad_channel d) (delivery_key (al_id a) (ad_channel d)) (ad_attempt_count d + 1)"
  using claim_current [OF sample_reach, of Commits "''m2''" 6000] sample_claim by blast

lemma sample_again: "fst (BeginDelivery sample_alert_env Commits ''m2'' 600000000000 sample_claimed) = Inr (Some (sample_request 2))"
  by code_simp

lemma claims_same_payload_witness:
  "sample_request 2 = (sample_request 1)\<lparr>del_Attempt := 2\<rparr> \<and> del_Attempt (sample_request 1) < del_Attempt (sample_request 2)"
proof -
  obtain D where "BeginDelivery sample_alert_env Commits ''m2'' 600000000000 sample_claimed = (Inr (Some (sample_request 2)), D)"
    using sample_again by (metis prod.collapse)
  from claims_same_payload [OF sample_reach sample_claim rtranclp.rtrancl_refl this]
  show ?thesis by (simp add: sample_request_def alert_payload_def)
qed

definition sample_sent :: alert_db where
  "sample_sent = snd (CompleteDelivery sample_alert_env Commits ''m2'' ''receipt'' 7000 sample_claimed)"

theorem no_claim_after_end_witness:
  "fst (BeginDelivery sample_alert_env Commits ''m2'' 600000000000 sample_sent) \<noteq> Inr (Some (sample_request 2)) \<and> map ad_state (adb_deliveries sample_sent) = [''sent'']"
proof -
  have reach: "alert_run sample_alert_env sample_start sample_sent"
    using sample_claimed_reach alert_step.complete [of sample_alert_env Commits "''m2''" "''receipt''" 7000 sample_claimed _ sample_sent]
    by (rule rtranclp.rtrancl_into_rtrancl) (simp add: sample_sent_def prod_eq_iff)
  have sent: "map ad_state (adb_deliveries sample_sent) = [''sent'']" "map ad_alert_id (adb_deliveries sample_sent) = [''m1'']"
    "map ad_id (adb_deliveries sample_sent) = [''m2'']" "map al_id (adb_alerts sample_sent) = [''m1'']" by code_simp+
  then obtain d a where "d \<in> set (adb_deliveries sample_sent)" "ad_state d = ''sent''" "ad_alert_id d = ''m1''" "ad_id d = ''m2''"
    "a \<in> set (adb_alerts sample_sent)" "al_id a = ''m1''" by (auto simp: map_eq_Cons_conv)
  moreover have "alert_uuid sample_alert_env ''m2'' = Inr ''m2''" by code_simp
  ultimately have "fst (BeginDelivery sample_alert_env Commits ''m2'' 600000000000 sample_sent) \<noteq> Inr (Some (sample_request 2))"
    using no_claim_after_end [OF sample_reach(1) reach, of d a sample_sent "''m2''" Commits 600000000000 "sample_request 2"] by (simp add: final_state_def)
  then show ?thesis using sent(1) by blast
qed

lemma sample_accepts: "queue_accepts sample_alert_env"
proof -
  have "pg_text (al_pg sample_alert_env) []" "pg_text (al_pg sample_alert_env) ''worker_interrupted''" by code_simp+
  then show ?thesis by (simp add: queue_accepts_def sample_alert_env_def)
qed

theorem reconcile_restores_witness:
  "\<exists>d\<in>set (adb_deliveries sample_claimed). ad_state d = ''sending'' \<and> (\<exists>late D'.
     ReconcileDeliveries sample_alert_env Commits (\<lambda>_. False) False 600000000000 (sample_claimed\<lparr>adb_jobs := []\<rparr>) = (Inr (1, late), D') \<and> restored 600000000000 False D' d)"
proof -
  let ?D = "sample_claimed\<lparr>adb_jobs := []\<rparr>"
  have reach: "alert_run sample_alert_env sample_start ?D"
    using sample_claimed_reach alert_step.elsewhere [of sample_claimed ?D] by (rule rtranclp.rtrancl_into_rtrancl) (simp add: same_ledger_def raw_of_def)
  have facts: "map ad_state (adb_deliveries sample_claimed) = [''sending'']" "length (adb_deliveries ?D) = 1"
    "list_all (\<lambda>d. uuid_ok (al_pg sample_alert_env) (ad_id d)) (adb_deliveries ?D)"
    "list_all (\<lambda>d. is_stranded ?D 600000000000 d \<and> \<not> is_corrected ?D d) (adb_deliveries ?D)" "pg_time (al_pg sample_alert_env) 600000000000 = 600000000000"
    "\<not> is_zero 600000000000" by code_simp+
  then obtain d where d: "d \<in> set (adb_deliveries sample_claimed)" "ad_state d = ''sending''" "adb_deliveries ?D = [d]" by (auto simp: map_eq_Cons_conv)
  show ?thesis
    using reconcile_restores [OF sample_reach(1) reach sample_accepts, of 600000000000 "\<lambda>_. False"] facts d(3)
    by (intro bexI [OF _ d(1)] conjI d(2)) auto
qed

theorem observations_in_order_witness:
  "first_pending sample_start 7 \<and> AssessObservation sample_alert_env BeginFails id 9000 7 ''rev1'' sample_admitted = (Inr (), sample_admitted)"
proof -
  have "adb_seq sample_admitted \<noteq> adb_seq sample_start" by code_simp
  then have "sample_admitted \<noteq> sample_start" by auto
  then show ?thesis using observations_in_order [OF sample_assessed, of BeginFails id 9000] by auto
qed

lemma delivery_job_outcome_witness:
  "\<exists>D' sent. deliverCriticalAlertWork sample_alert_env Commits Commits id (\<lambda>_. Inr ''receipt'') ''m2'' 1 5 6000 7000 sample_admitted = (AlertJobDone, D', sent)
     \<and> length sent \<le> 1 \<and> (\<exists>d\<in>set (adb_deliveries D'). ad_id d = ''m2'' \<and> ad_state d = ''sent'')"
proof -
  let ?w = "deliverCriticalAlertWork sample_alert_env Commits Commits id (\<lambda>_. Inr ''receipt'') ''m2'' 1 5 6000 7000 sample_admitted"
  have "fst ?w = AlertJobDone" "snd (snd ?w) \<noteq> []" by code_simp+
  then obtain D' sent where w: "?w = (AlertJobDone, D', sent)" "sent \<noteq> []" by (cases ?w) auto
  have "alert_uuid sample_alert_env ''m2'' = Inr ''m2''" by code_simp
  from delivery_job_outcome [OF sample_reach _ this w(1)] w(2) have "length sent \<le> 1 \<and> (\<exists>d\<in>set (adb_deliveries D'). ad_id d = ''m2'' \<and> ad_state d = ''sent'')"
    by simp
  then show ?thesis using w(1) by blast
qed

end
