(* ===== verification/Fetch_Policy.thy ===== *)
theory Fetch_Policy
  imports Go_Strings "HOL-Library.Word"
begin

text \<open>
  The destination policy of the fetcher (\<open>src/internal/fetcher/policy.go\<close>): which hosts, ports and addresses a
  source may be fetched from. Addresses are those of \<open>net/netip\<close>; the address parser and printer, the
  case mapping and the DNS resolver are the fields of the argument \<open>net_lib\<close>.
\<close>

unbundle bit_operations_syntax

section \<open>Addresses\<close>

datatype addr = AddrInvalid | AddrV4 "32 word" | AddrV6 "128 word" string

definition ip4 :: "nat \<Rightarrow> nat \<Rightarrow> nat \<Rightarrow> nat \<Rightarrow> nat" where
  "ip4 a b c d = ((a * 256 + b) * 256 + c) * 256 + d"

definition octet0 :: "32 word \<Rightarrow> 32 word" where "octet0 w = drop_bit 24 w"
definition first16 :: "128 word \<Rightarrow> 128 word" where "first16 w = drop_bit 112 w"

definition is_4in6 :: "128 word \<Rightarrow> bool" where
  "is_4in6 w \<longleftrightarrow> drop_bit 32 w = 0xFFFF"

text \<open>\<open>Unmap\<close>: an IPv4-mapped IPv6 address becomes the IPv4 address, without a zone.\<close>

definition Unmap :: "addr \<Rightarrow> addr" where
  "Unmap a = (case a of AddrV6 w z \<Rightarrow> if is_4in6 w then AddrV4 (ucast w) else a | _ \<Rightarrow> a)"

definition IsLoopback :: "addr \<Rightarrow> bool" where
  "IsLoopback a = (case Unmap a of AddrV4 w \<Rightarrow> octet0 w = 127 | AddrV6 w z \<Rightarrow> w = 1 | AddrInvalid \<Rightarrow> False)"

definition IsMulticast :: "addr \<Rightarrow> bool" where
  "IsMulticast a = (case Unmap a of AddrV4 w \<Rightarrow> octet0 w AND 0xF0 = 0xE0 | AddrV6 w z \<Rightarrow> drop_bit 120 w = 0xFF | AddrInvalid \<Rightarrow> False)"

definition IsLinkLocalUnicast :: "addr \<Rightarrow> bool" where
  "IsLinkLocalUnicast a =
     (case Unmap a of AddrV4 w \<Rightarrow> drop_bit 16 w = 0xA9FE | AddrV6 w z \<Rightarrow> first16 w AND 0xFFC0 = 0xFE80 | AddrInvalid \<Rightarrow> False)"

definition IsLinkLocalMulticast :: "addr \<Rightarrow> bool" where
  "IsLinkLocalMulticast a =
     (case Unmap a of AddrV4 w \<Rightarrow> drop_bit 8 w = 0xE00000 | AddrV6 w z \<Rightarrow> first16 w AND 0xFF0F = 0xFF02 | AddrInvalid \<Rightarrow> False)"

definition IsPrivate :: "addr \<Rightarrow> bool" where
  "IsPrivate a =
     (case Unmap a of
        AddrV4 w \<Rightarrow> octet0 w = 10 \<or> drop_bit 20 w = 0xAC1 \<or> drop_bit 16 w = 0xC0A8
      | AddrV6 w z \<Rightarrow> drop_bit 120 w AND 0xFE = 0xFC
      | AddrInvalid \<Rightarrow> False)"

definition IsUnspecified :: "addr \<Rightarrow> bool" where
  "IsUnspecified a \<longleftrightarrow> a = AddrV4 0 \<or> a = AddrV6 0 []"

definition IsGlobalUnicast :: "addr \<Rightarrow> bool" where
  "IsGlobalUnicast a =
     (if a = AddrInvalid then False
      else let a = Unmap a in
        if a = AddrV4 0 \<or> a = AddrV4 0xFFFFFFFF then False
        else a \<noteq> AddrV6 0 [] \<and> \<not> IsLoopback a \<and> \<not> IsMulticast a \<and> \<not> IsLinkLocalUnicast a)"

text \<open>A prefix of either family: its first address and its length in bits.\<close>

datatype prefix = P4 "32 word" nat | P6 "128 word" nat

definition deniedPrefixes :: "prefix list" where
  "deniedPrefixes =
     [P4 (of_nat (ip4 0 0 0 0)) 8, P4 (of_nat (ip4 10 0 0 0)) 8, P4 (of_nat (ip4 100 64 0 0)) 10, P4 (of_nat (ip4 127 0 0 0)) 8,
      P4 (of_nat (ip4 169 254 0 0)) 16, P4 (of_nat (ip4 172 16 0 0)) 12, P4 (of_nat (ip4 192 0 0 0)) 24, P4 (of_nat (ip4 192 0 2 0)) 24,
      P4 (of_nat (ip4 192 88 99 0)) 24, P4 (of_nat (ip4 192 168 0 0)) 16, P4 (of_nat (ip4 198 18 0 0)) 15, P4 (of_nat (ip4 198 51 100 0)) 24,
      P4 (of_nat (ip4 203 0 113 0)) 24, P4 (of_nat (ip4 224 0 0 0)) 4, P4 (of_nat (ip4 240 0 0 0)) 4,
      P6 0 128, P6 1 128, P6 0x0064FF9B000000000000000000000000 96, P6 0x0064FF9B000100000000000000000000 48,
      P6 0x01000000000000000000000000000000 64, P6 0x20010000000000000000000000000000 23, P6 0x20010DB8000000000000000000000000 32,
      P6 0x20020000000000000000000000000000 16, P6 0xFC000000000000000000000000000000 7, P6 0xFE800000000000000000000000000000 10,
      P6 0xFF000000000000000000000000000000 8]"

text \<open>\<open>Prefix.Contains\<close>: never an address with a zone.\<close>

definition prefix_contains :: "prefix \<Rightarrow> addr \<Rightarrow> bool" where
  "prefix_contains p a =
     (case (p, a) of
        (P4 q n, AddrV4 w) \<Rightarrow> drop_bit (32 - n) (w XOR q) = 0
      | (P6 q n, AddrV6 w z) \<Rightarrow> z = [] \<and> drop_bit (128 - n) (w XOR q) = 0
      | _ \<Rightarrow> False)"

definition deniedAddress :: "addr \<Rightarrow> bool" where
  "deniedAddress a =
     (if a = AddrInvalid \<or> \<not> IsGlobalUnicast a \<or> IsLoopback a \<or> IsPrivate a \<or> IsLinkLocalUnicast a \<or> IsLinkLocalMulticast a
         \<or> IsMulticast a \<or> IsUnspecified a then True
      else list_ex (\<lambda>p. prefix_contains p a) deniedPrefixes)"

section \<open>Hosts and ports\<close>

datatype fetch_code =
    ErrorInvalidURL | ErrorDestinationDenied | ErrorDNS | ErrorTransport | ErrorUnexpectedStatus | ErrorContentType | ErrorUnsupportedEncoding
  | ErrorCompressedTooLarge | ErrorBodyTooLarge | ErrorCompressionRatio | ErrorObjectStorage | ErrorInvalidPaginationLink

record fetch_error =
  err_Code :: fetch_code
  err_Retryable :: bool

record net_lib =
  net_ToLower :: "string \<Rightarrow> string"
  net_ParseAddr :: "string \<Rightarrow> addr option"
  net_AddrString :: "addr \<Rightarrow> string"
  net_LookupNetIP :: "string \<Rightarrow> addr list option"

definition label_char :: "char \<Rightarrow> bool" where
  "label_char c \<longleftrightarrow> is_digit c \<or> (97 \<le> byte c \<and> byte c \<le> (122 :: nat))"

definition dns_label :: "string \<Rightarrow> bool" where
  "dns_label l \<longleftrightarrow> l \<noteq> [] \<and> length l \<le> 63 \<and> label_char (hd l) \<and> label_char (last l)
     \<and> list_all (\<lambda>c. label_char c \<or> c = CHR ''-'') l"

definition domainPattern :: "string \<Rightarrow> bool" where
  "domainPattern h = list_all dns_label (split_byte CHR ''.'' h)"

definition zone_of :: "addr \<Rightarrow> string" where
  "zone_of a = (case a of AddrV6 w z \<Rightarrow> z | _ \<Rightarrow> [])"

definition normalizeHost :: "net_lib \<Rightarrow> string \<Rightarrow> string option" where
  "normalizeHost N raw =
     (let host = net_ToLower N (trim_space raw) in
      if host = [] \<or> has_suffix host ''.'' then None
      else (case net_ParseAddr N host of
              Some a \<Rightarrow> if zone_of a \<noteq> [] then None else Some (net_AddrString N (Unmap a))
            | None \<Rightarrow> if length host > 253 \<or> \<not> domainPattern host then None else Some host))"

record policy =
  pol_allowedHosts :: "string list"
  pol_fixtureTargets :: "(string \<times> nat) list"

fun normalize_all :: "net_lib \<Rightarrow> string list \<Rightarrow> string list option" where
  "normalize_all N [] = Some []"
| "normalize_all N (h # hs) =
     (case normalizeHost N h of
        None \<Rightarrow> None
      | Some x \<Rightarrow> (case normalize_all N hs of None \<Rightarrow> None | Some xs \<Rightarrow> Some (x # xs)))"

fun normalize_fixtures :: "net_lib \<Rightarrow> (string \<times> nat) list \<Rightarrow> (string \<times> nat) list option" where
  "normalize_fixtures N [] = Some []"
| "normalize_fixtures N ((h, port) # ts) =
     (case normalizeHost N h of
        None \<Rightarrow> None
      | Some x \<Rightarrow> if port = 0 then None
                 else (case normalize_fixtures N ts of None \<Rightarrow> None | Some xs \<Rightarrow> Some ((x, port) # xs)))"

definition NewPolicy :: "net_lib \<Rightarrow> string list \<Rightarrow> (string \<times> nat) list \<Rightarrow> policy option" where
  "NewPolicy N allowedHosts fixtureTargets =
     (case normalize_all N allowedHosts of
        None \<Rightarrow> None
      | Some hosts \<Rightarrow>
          if hosts = [] then None
          else (case normalize_fixtures N fixtureTargets of
                  None \<Rightarrow> None
                | Some targets \<Rightarrow> Some \<lparr>pol_allowedHosts = hosts, pol_fixtureTargets = targets\<rparr>))"

text \<open>The hosts a single request is restricted to, as a value of the context.\<close>

definition withAllowedHosts :: "net_lib \<Rightarrow> string list \<Rightarrow> string list option" where
  "withAllowedHosts N rawHosts =
     (case normalize_all N rawHosts of None \<Rightarrow> None | Some hosts \<Rightarrow> if hosts = [] then None else Some hosts)"

definition isFixture :: "policy \<Rightarrow> string \<Rightarrow> nat \<Rightarrow> bool" where
  "isFixture p host port \<longleftrightarrow> (host, port) \<in> set (pol_fixtureTargets p)"

record target_url =
  turl_Scheme :: string
  turl_Opaque :: string
  turl_Host :: string
  turl_Hostname :: string
  turl_Port :: string
  turl_HasUser :: bool
  turl_Fragment :: string

definition urlPort :: "target_url \<Rightarrow> nat option" where
  "urlPort u =
     (if turl_Port u \<noteq> []
      then (if list_all is_digit (turl_Port u) \<and> digits_val 0 (turl_Port u) < 65536 \<and> digits_val 0 (turl_Port u) \<noteq> 0
            then Some (digits_val 0 (turl_Port u)) else None)
      else if turl_Scheme u = ''https'' then Some 443
      else if turl_Scheme u = ''http'' then Some 80
      else None)"

record resolved_target =
  rt_Host :: string
  rt_Port :: nat
  rt_Addresses :: "addr list"
  rt_Fixture :: bool

definition fetch_fail :: "fetch_code \<Rightarrow> bool \<Rightarrow> fetch_error + 'a" where
  "fetch_fail code retryable = Inl \<lparr>err_Code = code, err_Retryable = retryable\<rparr>"

definition addresses_of :: "net_lib \<Rightarrow> string \<Rightarrow> addr list option" where
  "addresses_of N host =
     (case net_ParseAddr N host of
        Some a \<Rightarrow> Some [Unmap a]
      | None \<Rightarrow> map_option (map Unmap) (net_LookupNetIP N host))"

definition resolve :: "net_lib \<Rightarrow> policy \<Rightarrow> string list option \<Rightarrow> string \<Rightarrow> nat \<Rightarrow> bool \<Rightarrow> fetch_error + resolved_target" where
  "resolve N p requestHosts host port fixture =
     (if host \<notin> set (pol_allowedHosts p) then fetch_fail ErrorDestinationDenied False
      else if (case requestHosts of None \<Rightarrow> False | Some hs \<Rightarrow> host \<notin> set hs) then fetch_fail ErrorDestinationDenied False
      else (case addresses_of N host of
              None \<Rightarrow> fetch_fail ErrorDNS True
            | Some addresses \<Rightarrow>
                if addresses = [] then fetch_fail ErrorDNS True
                else if \<not> fixture \<and> list_ex deniedAddress addresses then fetch_fail ErrorDestinationDenied False
                else Inr \<lparr>rt_Host = host, rt_Port = port, rt_Addresses = addresses, rt_Fixture = fixture\<rparr>))"

definition ValidateURL :: "net_lib \<Rightarrow> policy \<Rightarrow> string list option \<Rightarrow> target_url option \<Rightarrow> fetch_error + resolved_target" where
  "ValidateURL N p requestHosts url =
     (case url of
        None \<Rightarrow> fetch_fail ErrorInvalidURL False
      | Some u \<Rightarrow>
          if turl_Opaque u \<noteq> [] \<or> turl_Host u = [] \<or> turl_HasUser u \<or> turl_Fragment u \<noteq> [] then fetch_fail ErrorInvalidURL False
          else (case normalizeHost N (turl_Hostname u) of
             None \<Rightarrow> fetch_fail ErrorInvalidURL False
           | Some host \<Rightarrow>
               (case urlPort u of
                  None \<Rightarrow> fetch_fail ErrorInvalidURL False
                | Some port \<Rightarrow>
                    let fixture = isFixture p host port in
                    if turl_Scheme u \<noteq> ''https'' \<and> \<not> (turl_Scheme u = ''http'' \<and> fixture) then fetch_fail ErrorDestinationDenied False
                    else if \<not> fixture \<and> port \<noteq> 80 \<and> port \<noteq> 443 then fetch_fail ErrorDestinationDenied False
                    else resolve N p requestHosts host port fixture)))"

definition ResolveDialTarget :: "net_lib \<Rightarrow> policy \<Rightarrow> string list option \<Rightarrow> string \<Rightarrow> nat \<Rightarrow> fetch_error + resolved_target" where
  "ResolveDialTarget N p requestHosts host port =
     (case normalizeHost N host of
        None \<Rightarrow> fetch_fail ErrorInvalidURL False
      | Some normalized \<Rightarrow>
          let fixture = isFixture p normalized port in
          if \<not> fixture \<and> port \<noteq> 80 \<and> port \<noteq> 443 then fetch_fail ErrorDestinationDenied False
          else resolve N p requestHosts normalized port fixture)"

section \<open>Denied ranges\<close>

definition special_v6 :: "(nat \<times> nat) list" where
  "special_v6 =
     [(0, 0), (1, 1),
      (0x0064FF9B000000000000000000000000, 0x0064FF9B0000000000000000FFFFFFFF),
      (0x0064FF9B000100000000000000000000, 0x0064FF9B0001FFFFFFFFFFFFFFFFFFFF),
      (0x01000000000000000000000000000000, 0x0100000000000000FFFFFFFFFFFFFFFF),
      (0x20010000000000000000000000000000, 0x200101FFFFFFFFFFFFFFFFFFFFFFFFFF),
      (0x20010DB8000000000000000000000000, 0x20010DB8FFFFFFFFFFFFFFFFFFFFFFFF),
      (0x20020000000000000000000000000000, 0x2002FFFFFFFFFFFFFFFFFFFFFFFFFFFF),
      (0xFC000000000000000000000000000000, 0xFDFFFFFFFFFFFFFFFFFFFFFFFFFFFFFF),
      (0xFE800000000000000000000000000000, 0xFEBFFFFFFFFFFFFFFFFFFFFFFFFFFFFF),
      (0xFF000000000000000000000000000000, 0xFFFFFFFFFFFFFFFFFFFFFFFFFFFFFFFF)]"

text \<open>The special-purpose ranges as first and last addresses.\<close>

definition special_v4 :: "(nat \<times> nat) list" where
  "special_v4 =
     [(ip4 0 0 0 0, ip4 0 255 255 255), (ip4 10 0 0 0, ip4 10 255 255 255), (ip4 100 64 0 0, ip4 100 127 255 255),
      (ip4 127 0 0 0, ip4 127 255 255 255), (ip4 169 254 0 0, ip4 169 254 255 255), (ip4 172 16 0 0, ip4 172 31 255 255),
      (ip4 192 0 0 0, ip4 192 0 0 255), (ip4 192 0 2 0, ip4 192 0 2 255), (ip4 192 88 99 0, ip4 192 88 99 255),
      (ip4 192 168 0 0, ip4 192 168 255 255), (ip4 198 18 0 0, ip4 198 19 255 255), (ip4 198 51 100 0, ip4 198 51 100 255),
      (ip4 203 0 113 0, ip4 203 0 113 255), (ip4 224 0 0 0, ip4 239 255 255 255), (ip4 240 0 0 0, ip4 255 255 255 255)]"

lemma xor_zero: "x XOR y = 0 \<longleftrightarrow> x = (y :: 'a :: len word)"
  by (metis xor.right_neutral xor_self_eq xor.assoc)

lemma div_block:
  fixes w q :: nat
  assumes "q mod m = 0" "0 < m"
  shows "w div m = q div m \<longleftrightarrow> q \<le> w \<and> w < q + m"
proof -
  obtain c where q: "q = c * m" using assms(1) by (metis mod_0_imp_dvd dvd_div_mult_self)
  have "w div m = c \<longleftrightarrow> c * m \<le> w \<and> w < c * m + m"
  proof
    assume "w div m = c"
    then have "w = c * m + w mod m" by (metis div_mult_mod_eq)
    then show "c * m \<le> w \<and> w < c * m + m" using mod_less_divisor [OF assms(2), of w] by linarith
  next
    assume "c * m \<le> w \<and> w < c * m + m"
    then show "w div m = c" by (intro div_nat_eqI) (simp_all add: mult.commute)
  qed
  then show ?thesis using q assms(2) by simp
qed

lemma drop_bit_block:
  fixes w q :: "'a :: len word"
  assumes "unat q mod 2 ^ k = 0"
  shows "drop_bit k w = drop_bit k q \<longleftrightarrow> unat q \<le> unat w \<and> unat w < unat q + 2 ^ k"
proof -
  have "drop_bit k w = drop_bit k q \<longleftrightarrow> unat w div 2 ^ k = unat q div 2 ^ k"
    unfolding word_unat_eq_iff unat_drop_bit_eq by (simp add: drop_bit_eq_div)
  then show ?thesis using div_block [OF assms, of "unat w"] by simp
qed

definition in_range :: "nat \<times> nat \<Rightarrow> nat \<Rightarrow> bool" where
  "in_range r n \<longleftrightarrow> fst r \<le> n \<and> n \<le> snd r"

definition in_ranges :: "(nat \<times> nat) list \<Rightarrow> nat \<Rightarrow> bool" where
  "in_ranges rs n = list_ex (\<lambda>r. in_range r n) rs"

definition public :: "addr \<Rightarrow> bool" where
  "public a = (case a of AddrInvalid \<Rightarrow> False | AddrV4 w \<Rightarrow> \<not> in_ranges special_v4 (unat w)
     | AddrV6 w z \<Rightarrow> \<not> in_ranges special_v6 (unat w))"

lemma prefix4: "prefix_contains (P4 q n) (AddrV4 w) \<longleftrightarrow> drop_bit (32 - n) w = drop_bit (32 - n) q"
  by (simp add: prefix_contains_def xor_zero)

lemma prefix6: "prefix_contains (P6 q n) (AddrV6 w []) \<longleftrightarrow> drop_bit (128 - n) w = drop_bit (128 - n) q"
  by (simp add: prefix_contains_def xor_zero)

text \<open>The first and the last address of a prefix, which starts at a multiple of its size.\<close>

definition prefix_range :: "prefix \<Rightarrow> nat \<times> nat" where
  "prefix_range p = (case p of P4 q n \<Rightarrow> (unat q, unat q + 2 ^ (32 - n) - 1) | P6 q n \<Rightarrow> (unat q, unat q + 2 ^ (128 - n) - 1))"

definition prefix_aligned :: "prefix \<Rightarrow> bool" where
  "prefix_aligned p = (case p of P4 q n \<Rightarrow> unat q mod 2 ^ (32 - n) = 0 | P6 q n \<Rightarrow> unat q mod 2 ^ (128 - n) = 0)"

definition is_P4 :: "prefix \<Rightarrow> bool" where
  "is_P4 p = (case p of P4 _ _ \<Rightarrow> True | P6 _ _ \<Rightarrow> False)"

lemma below_block: "(n :: nat) < q + 2 ^ k \<longleftrightarrow> n \<le> q + 2 ^ k - 1"
proof -
  have "0 < (2 :: nat) ^ k" by simp
  then show ?thesis by linarith
qed

lemma contains_range4:
  "prefix_aligned p \<Longrightarrow> prefix_contains p (AddrV4 w) \<longleftrightarrow> is_P4 p \<and> in_range (prefix_range p) (unat w)"
  by (cases p) (simp_all add: prefix_aligned_def is_P4_def in_range_def prefix_range_def prefix4 drop_bit_block below_block,
    simp add: prefix_contains_def)

lemma contains_range6:
  "prefix_aligned p \<Longrightarrow> prefix_contains p (AddrV6 w []) \<longleftrightarrow> \<not> is_P4 p \<and> in_range (prefix_range p) (unat w)"
  by (cases p) (simp_all add: prefix_aligned_def is_P4_def in_range_def prefix_range_def prefix6 drop_bit_block below_block,
    simp add: prefix_contains_def)

lemma denied_aligned: "list_all prefix_aligned deniedPrefixes"
  by code_simp

lemma special_v4_ranges: "special_v4 = map prefix_range (filter is_P4 deniedPrefixes)"
  by code_simp

lemma special_v6_ranges: "special_v6 = map prefix_range (filter (\<lambda>p. \<not> is_P4 p) deniedPrefixes)"
  by code_simp

lemma in_ranges_map: "in_ranges (map f ps) n \<longleftrightarrow> (\<exists>p\<in>set ps. in_range (f p) n)"
  by (auto simp: in_ranges_def list_ex_iff)

lemma prefixes4: "list_ex (\<lambda>p. prefix_contains p (AddrV4 w)) deniedPrefixes \<longleftrightarrow> in_ranges special_v4 (unat w)"
  unfolding special_v4_ranges in_ranges_map list_ex_iff using denied_aligned contains_range4 [of _ w] by (auto simp: list_all_iff)

lemma prefixes6: "list_ex (\<lambda>p. prefix_contains p (AddrV6 w [])) deniedPrefixes \<longleftrightarrow> in_ranges special_v6 (unat w)"
  unfolding special_v6_ranges in_ranges_map list_ex_iff using denied_aligned contains_range6 [of _ w] by (auto simp: list_all_iff)

text \<open>The predicates of \<open>net/netip\<close> the code tests first are covered by the prefixes.\<close>

lemma high_bits: "k + n = LENGTH('a) \<Longrightarrow> drop_bit k w AND mask n = drop_bit k (w :: 'a :: len word)"
  by (rule bit_word_eqI) (auto simp: bit_and_iff bit_drop_bit_eq bit_mask_iff dest: bit_imp_le_length)

lemma masked_prefix:
  assumes "drop_bit i w AND m = v" "drop_bit j m = mask n" "i + j + n = LENGTH('a)"
  shows "drop_bit (i + j) (w :: 'a :: len word) = drop_bit j v"
proof -
  have "drop_bit j v = drop_bit (i + j) w AND mask n"
    unfolding assms(1) [symmetric] drop_bit_and assms(2) by (simp add: drop_bit_drop_bit add.commute)
  then show ?thesis using high_bits [OF assms(3)] by simp
qed

lemma checks4:
  assumes "\<not> list_ex (\<lambda>p. prefix_contains p (AddrV4 w)) deniedPrefixes"
  shows "\<not> IsLoopback (AddrV4 w) \<and> \<not> IsPrivate (AddrV4 w) \<and> \<not> IsMulticast (AddrV4 w) \<and> \<not> IsLinkLocalUnicast (AddrV4 w)
    \<and> \<not> IsLinkLocalMulticast (AddrV4 w) \<and> w \<noteq> 0 \<and> w \<noteq> 0xFFFFFFFF"
proof -
  have no: "drop_bit (32 - n) w \<noteq> drop_bit (32 - n) q" if "list_ex (\<lambda>p. p = P4 q n) deniedPrefixes" for q n
    using assms that prefix4 by (auto simp: list_ex_iff)
  have loopback: "drop_bit 24 w \<noteq> 127"
    using no [of "of_nat (ip4 127 0 0 0)" 8] by (simp add: deniedPrefixes_def ip4_def)
  have "drop_bit 24 w \<noteq> 10" "drop_bit 20 w \<noteq> 0xAC1" "drop_bit 16 w \<noteq> 0xC0A8"
    using no [of "of_nat (ip4 10 0 0 0)" 8] no [of "of_nat (ip4 172 16 0 0)" 12] no [of "of_nat (ip4 192 168 0 0)" 16]
    by (simp_all add: deniedPrefixes_def ip4_def)
  moreover have link: "drop_bit 16 w \<noteq> 0xA9FE" using no [of "of_nat (ip4 169 254 0 0)" 16] by (simp add: deniedPrefixes_def ip4_def)
  moreover have multi: "drop_bit 28 w \<noteq> 14" using no [of "of_nat (ip4 224 0 0 0)" 4] by (simp add: deniedPrefixes_def ip4_def)
  moreover have "drop_bit 8 w \<noteq> 0xE00000"
  proof
    assume "drop_bit 8 w = 0xE00000"
    then have "drop_bit 20 (drop_bit 8 w) = drop_bit 20 0xE00000" by simp
    then show False using multi by (simp add: drop_bit_drop_bit del: drop_bit_of_nat)
  qed
  moreover have "drop_bit 24 w AND 0xF0 \<noteq> 0xE0"
  proof
    assume "drop_bit 24 w AND 0xF0 = 0xE0"
    from masked_prefix [OF this, of 4 4] have "drop_bit 28 w = drop_bit 4 0xE0" by (simp add: mask_eq_exp_minus_1)
    then show False using multi by simp
  qed
  moreover have "w \<noteq> 0" using no [of "of_nat (ip4 0 0 0 0)" 8] by (auto simp: deniedPrefixes_def ip4_def)
  moreover have "w \<noteq> 0xFFFFFFFF" using no [of "of_nat (ip4 240 0 0 0)" 4] by (auto simp: deniedPrefixes_def ip4_def)
  ultimately show ?thesis using loopback
    by (simp add: IsLoopback_def IsPrivate_def IsMulticast_def IsLinkLocalUnicast_def IsLinkLocalMulticast_def Unmap_def octet0_def)
qed

lemma checks6:
  assumes "\<not> list_ex (\<lambda>p. prefix_contains p (AddrV6 w [])) deniedPrefixes" "\<not> is_4in6 w"
  shows "\<not> IsLoopback (AddrV6 w []) \<and> \<not> IsPrivate (AddrV6 w []) \<and> \<not> IsMulticast (AddrV6 w []) \<and> \<not> IsLinkLocalUnicast (AddrV6 w [])
    \<and> \<not> IsLinkLocalMulticast (AddrV6 w []) \<and> w \<noteq> 0"
proof -
  have no: "drop_bit (128 - n) w \<noteq> drop_bit (128 - n) q" if "list_ex (\<lambda>p. p = P6 q n) deniedPrefixes" for q n
    using assms(1) that prefix6 by (auto simp: list_ex_iff)
  have "w \<noteq> 0" "w \<noteq> 1" using no [of 0 128] no [of 1 128] by (simp_all add: deniedPrefixes_def)
  moreover have multi: "drop_bit 120 w \<noteq> 0xFF"
    using no [of "0xFF000000000000000000000000000000" 8] by (simp add: deniedPrefixes_def)
  moreover have "drop_bit 120 w AND 0xFE \<noteq> 0xFC"
  proof
    assume "drop_bit 120 w AND 0xFE = 0xFC"
    from masked_prefix [OF this, of 1 7] have "drop_bit 121 w = drop_bit 1 0xFC" by (simp add: mask_eq_exp_minus_1)
    then show False using no [of "0xFC000000000000000000000000000000" 7] by (simp add: deniedPrefixes_def)
  qed
  moreover have "drop_bit 112 w AND 0xFFC0 \<noteq> 0xFE80"
  proof
    assume "drop_bit 112 w AND 0xFFC0 = 0xFE80"
    from masked_prefix [OF this, of 6 10] have "drop_bit 118 w = drop_bit 6 0xFE80" by (simp add: mask_eq_exp_minus_1)
    then show False using no [of "0xFE800000000000000000000000000000" 10] by (simp add: deniedPrefixes_def)
  qed
  moreover have "drop_bit 112 w AND 0xFF0F \<noteq> 0xFF02"
  proof
    assume "drop_bit 112 w AND 0xFF0F = 0xFF02"
    from masked_prefix [OF this, of 8 8] have "drop_bit 120 w = drop_bit 8 0xFF02" by (simp add: mask_eq_exp_minus_1)
    then show False using multi by simp
  qed
  ultimately show ?thesis using assms(2)
    by (simp add: IsLoopback_def IsPrivate_def IsMulticast_def IsLinkLocalUnicast_def IsLinkLocalMulticast_def Unmap_def first16_def)
qed

lemma denied_iff_public:
  assumes "Unmap a = a" "zone_of a = []"
  shows "deniedAddress a \<longleftrightarrow> \<not> public a"
proof (cases a)
  case AddrInvalid
  then show ?thesis by (simp add: deniedAddress_def public_def)
next
  case (AddrV4 w)
  then show ?thesis
    using checks4 [of w] prefixes4 [of w]
    by (auto simp: deniedAddress_def public_def IsGlobalUnicast_def IsUnspecified_def Let_def Unmap_def)
next
  case (AddrV6 w z)
  then have z: "z = []" "\<not> is_4in6 w" using assms by (auto simp: zone_of_def Unmap_def split: if_splits)
  show ?thesis
    unfolding AddrV6 z(1)
    using checks6 [of w] prefixes6 [of w] z(2)
    by (auto simp: deniedAddress_def public_def IsGlobalUnicast_def IsUnspecified_def Let_def Unmap_def)
qed

lemma Unmap_idem [simp]: "Unmap (Unmap a) = Unmap a"
  by (simp add: Unmap_def split: addr.split)

text \<open>
  The address filter denies exactly the special-purpose ranges: an unmapped address without a
  zone is denied if and only if it is invalid or lies in one of the listed ranges of first to last
  addresses. The predicates of the library that the code tests before its own prefixes add nothing.
\<close>

lemma deniedAddress_ranges:
  assumes "zone_of (Unmap a) = []"
  shows "deniedAddress (Unmap a) \<longleftrightarrow>
    (case Unmap a of AddrInvalid \<Rightarrow> True | AddrV4 w \<Rightarrow> in_ranges special_v4 (unat w) | AddrV6 w z \<Rightarrow> in_ranges special_v6 (unat w))"
  using denied_iff_public [of "Unmap a"] assms by (auto simp: public_def split: addr.split)

text \<open>An IPv4-mapped loopback address.\<close>

lemma deniedAddress_ranges_witness:
  "deniedAddress (Unmap (AddrV6 0xFFFF7F000001 [])) \<and> in_ranges special_v4 (ip4 127 0 0 1)"
proof -
  have *: "Unmap (AddrV6 0xFFFF7F000001 []) = AddrV4 0x7F000001" by code_simp
  moreover have "in_ranges special_v4 (ip4 127 0 0 1)" "in_ranges special_v4 (unat (0x7F000001 :: 32 word))" by code_simp+
  ultimately show ?thesis using deniedAddress_ranges [of "AddrV6 0xFFFF7F000001 []"] by (simp add: zone_of_def)
qed

subsection \<open>Scoped addresses\<close>

text \<open>
  No prefix contains an address with a zone, so a scoped address is only tested by the predicates of the library: it is denied exactly when it is
  the loopback address, unique local, link-local or multicast. The other special-purpose ranges are not seen for it.
\<close>

definition local_v6 :: "(nat \<times> nat) list" where
  "local_v6 =
     [(1, 1), (0xFC000000000000000000000000000000, 0xFDFFFFFFFFFFFFFFFFFFFFFFFFFFFFFF),
      (0xFE800000000000000000000000000000, 0xFEBFFFFFFFFFFFFFFFFFFFFFFFFFFFFF),
      (0xFF000000000000000000000000000000, 0xFFFFFFFFFFFFFFFFFFFFFFFFFFFFFFFF)]"

lemma masked_block:
  assumes "i + j + n = LENGTH('a)"
  shows "drop_bit i w AND push_bit j (mask n) = push_bit j (drop_bit (i + j) (w :: 'a :: len word))"
proof (rule bit_word_eqI)
  fix k assume "k < LENGTH('a)"
  then show "bit (drop_bit i w AND push_bit j (mask n)) k = bit (push_bit j (drop_bit (i + j) w)) k"
    using assms bit_imp_le_length [of w "i + k"]
    by (auto simp: bit_and_iff bit_push_bit_iff bit_drop_bit_eq bit_mask_iff ac_simps)
qed

lemma local_prefixes:
  "in_ranges local_v6 (unat w) \<longleftrightarrow>
     w = 1 \<or> drop_bit 121 (w :: 128 word) = 0x7E \<or> drop_bit 118 w = 0x3FA \<or> drop_bit 120 w = 0xFF"
proof -
  have "in_range (1, 1) (unat w) \<longleftrightarrow> w = 1" by (auto simp: in_range_def word_unat_eq_iff)
  moreover have "in_range (0xFC000000000000000000000000000000, 0xFDFFFFFFFFFFFFFFFFFFFFFFFFFFFFFF) (unat w) \<longleftrightarrow> drop_bit 121 w = 0x7E"
    using drop_bit_block [of "0xFC000000000000000000000000000000" 121 w] by (auto simp: in_range_def)
  moreover have "in_range (0xFE800000000000000000000000000000, 0xFEBFFFFFFFFFFFFFFFFFFFFFFFFFFFFF) (unat w) \<longleftrightarrow> drop_bit 118 w = 0x3FA"
    using drop_bit_block [of "0xFE800000000000000000000000000000" 118 w] by (auto simp: in_range_def)
  moreover have "in_range (0xFF000000000000000000000000000000, 0xFFFFFFFFFFFFFFFFFFFFFFFFFFFFFFFF) (unat w) \<longleftrightarrow> drop_bit 120 w = 0xFF"
    using drop_bit_block [of "0xFF000000000000000000000000000000" 120 w] by (auto simp: in_range_def)
  ultimately show ?thesis by (simp add: in_ranges_def local_v6_def)
qed

lemma local_masks:
  fixes w :: "128 word"
  shows "drop_bit 120 w AND 0xFE = 0xFC \<longleftrightarrow> drop_bit 121 w = 0x7E" "drop_bit 112 w AND 0xFFC0 = 0xFE80 \<longleftrightarrow> drop_bit 118 w = 0x3FA"
    "drop_bit 112 w AND 0xFF0F = 0xFF02 \<Longrightarrow> drop_bit 120 w = 0xFF"
proof -
  have block: "drop_bit 120 w AND 0xFE = push_bit 1 (drop_bit 121 w)" "drop_bit 112 w AND 0xFFC0 = push_bit 6 (drop_bit 118 w)"
    using masked_block [of 120 1 7 w] masked_block [of 112 6 10 w] by (simp_all add: mask_eq_exp_minus_1 push_bit_eq_mult)
  show "drop_bit 120 w AND 0xFE = 0xFC \<longleftrightarrow> drop_bit 121 w = 0x7E"
  proof
    assume "drop_bit 120 w AND 0xFE = 0xFC"
    from masked_prefix [OF this, of 1 7] show "drop_bit 121 w = 0x7E" by (simp add: mask_eq_exp_minus_1)
  next
    assume "drop_bit 121 w = 0x7E"
    then show "drop_bit 120 w AND 0xFE = 0xFC" unfolding block by (simp add: push_bit_eq_mult)
  qed
  show "drop_bit 112 w AND 0xFFC0 = 0xFE80 \<longleftrightarrow> drop_bit 118 w = 0x3FA"
  proof
    assume "drop_bit 112 w AND 0xFFC0 = 0xFE80"
    from masked_prefix [OF this, of 6 10] show "drop_bit 118 w = 0x3FA" by (simp add: mask_eq_exp_minus_1)
  next
    assume "drop_bit 118 w = 0x3FA"
    then show "drop_bit 112 w AND 0xFFC0 = 0xFE80" unfolding block by (simp add: push_bit_eq_mult)
  qed
  assume "drop_bit 112 w AND 0xFF0F = 0xFF02"
  from masked_prefix [OF this, of 8 8] show "drop_bit 120 w = 0xFF" by (simp add: mask_eq_exp_minus_1)
qed

lemma scoped_denied:
  assumes "\<not> is_4in6 w" "z \<noteq> []"
  shows "deniedAddress (AddrV6 w z) \<longleftrightarrow> in_ranges local_v6 (unat w)"
proof -
  have "\<not> list_ex (\<lambda>p. prefix_contains p (AddrV6 w z)) deniedPrefixes"
    using assms(2) by (simp add: list_ex_iff prefix_contains_def split: prefix.split)
  then show ?thesis
    unfolding local_prefixes deniedAddress_def using assms local_masks [of w]
    by (auto simp: IsGlobalUnicast_def IsUnspecified_def IsLoopback_def IsPrivate_def IsMulticast_def IsLinkLocalUnicast_def IsLinkLocalMulticast_def
        Unmap_def first16_def Let_def)
qed

text \<open>
  What an accepted address is: without a zone it lies outside every special-purpose range; with one it is at least not loopback, unique local,
  link-local or multicast.
\<close>

definition permitted :: "addr \<Rightarrow> bool" where
  "permitted a =
     (case a of AddrInvalid \<Rightarrow> False | AddrV4 w \<Rightarrow> \<not> in_ranges special_v4 (unat w)
      | AddrV6 w z \<Rightarrow> if z = [] then \<not> in_ranges special_v6 (unat w) else \<not> in_ranges local_v6 (unat w))"

lemma denied_iff_not_permitted: "Unmap a = a \<Longrightarrow> deniedAddress a \<longleftrightarrow> \<not> permitted a"
proof (cases "zone_of a = []")
  case True
  moreover assume "Unmap a = a"
  ultimately show ?thesis using denied_iff_public [of a] by (auto simp: permitted_def public_def zone_of_def split: addr.split_asm)
next
  case False
  moreover assume "Unmap a = a"
  ultimately obtain w z where a: "a = AddrV6 w z" "z \<noteq> []" "\<not> is_4in6 w" by (cases a) (auto simp: zone_of_def Unmap_def split: if_split_asm)
  show ?thesis using scoped_denied [OF a(3,2)] a by (simp add: permitted_def)
qed

text \<open>The documentation address 2001:db8::1 is denied, but not with a zone.\<close>

lemma scoped_documentation_address:
  "deniedAddress (AddrV6 0x20010DB8000000000000000000000001 []) \<and> \<not> deniedAddress (AddrV6 0x20010DB8000000000000000000000001 ''eth0'')"
proof -
  let ?w = "0x20010DB8000000000000000000000001 :: 128 word"
  have w: "\<not> is_4in6 ?w" "Unmap (AddrV6 ?w []) = AddrV6 ?w []" by (simp_all add: is_4in6_def Unmap_def)
  have "\<not> public (AddrV6 ?w [])" by (simp add: public_def in_ranges_def in_range_def special_v6_def)
  moreover have "\<not> in_ranges local_v6 (unat ?w)" by (simp add: in_ranges_def in_range_def local_v6_def)
  ultimately show ?thesis using denied_iff_public [OF w(2)] scoped_denied [OF w(1), of "''eth0''"] by (simp add: zone_of_def)
qed

section \<open>What may be fetched\<close>

lemma resolve_Inr:
  "resolve N p rh host port fixture = Inr t \<longleftrightarrow>
     host \<in> set (pol_allowedHosts p) \<and> (\<forall>hs. rh = Some hs \<longrightarrow> host \<in> set hs)
     \<and> (\<exists>addresses. addresses_of N host = Some addresses \<and> addresses \<noteq> [] \<and> (fixture \<or> list_all (\<lambda>a. \<not> deniedAddress a) addresses)
          \<and> t = \<lparr>rt_Host = host, rt_Port = port, rt_Addresses = addresses, rt_Fixture = fixture\<rparr>)"
  by (auto simp: resolve_def fetch_fail_def list_all_iff list_ex_iff split: option.split)

lemma addresses_unmapped: "addresses_of N host = Some as \<Longrightarrow> a \<in> set as \<Longrightarrow> Unmap a = a"
  by (auto simp: addresses_of_def split: option.splits)

definition safe_target :: "policy \<Rightarrow> string list option \<Rightarrow> resolved_target \<Rightarrow> bool" where
  "safe_target p rh t \<longleftrightarrow> rt_Host t \<in> set (pol_allowedHosts p) \<and> (\<forall>hs. rh = Some hs \<longrightarrow> rt_Host t \<in> set hs) \<and> rt_Addresses t \<noteq> []
     \<and> (if rt_Fixture t then (rt_Host t, rt_Port t) \<in> set (pol_fixtureTargets p)
        else (rt_Port t = 80 \<or> rt_Port t = 443) \<and> (\<forall>a\<in>set (rt_Addresses t). permitted a))"

lemma resolve_safe:
  assumes "resolve N p rh host port (isFixture p host port) = Inr t" "isFixture p host port \<or> port = 80 \<or> port = 443"
  shows "safe_target p rh t"
proof -
  obtain as where as: "addresses_of N host = Some as" "as \<noteq> []" "isFixture p host port \<or> list_all (\<lambda>a. \<not> deniedAddress a) as"
    "t = \<lparr>rt_Host = host, rt_Port = port, rt_Addresses = as, rt_Fixture = isFixture p host port\<rparr>"
    and "host \<in> set (pol_allowedHosts p)" "\<forall>hs. rh = Some hs \<longrightarrow> host \<in> set hs"
    using assms(1) by (auto simp: resolve_Inr)
  then show ?thesis
    using assms(2) denied_iff_not_permitted addresses_unmapped [OF as(1)]
    by (auto simp: safe_target_def isFixture_def list_all_iff)
qed

lemma ResolveDialTarget_safe:
  assumes "ResolveDialTarget N p rh host port = Inr t"
  shows "safe_target p rh t \<and> rt_Port t = port"
proof -
  obtain h where *: "resolve N p rh h port (isFixture p h port) = Inr t" "isFixture p h port \<or> port = 80 \<or> port = 443"
    using assms by (auto simp: ResolveDialTarget_def fetch_fail_def Let_def split: option.split_asm if_split_asm)
  then show ?thesis using resolve_safe [OF *] by (auto simp: resolve_Inr)
qed

lemma ValidateURL_safe:
  assumes "ValidateURL N p rh (Some u) = Inr t"
  shows "safe_target p rh t \<and> \<not> turl_HasUser u \<and> (rt_Fixture t \<or> turl_Scheme u = ''https'')"
proof -
  obtain host port where *: "resolve N p rh host port (isFixture p host port) = Inr t"
    "isFixture p host port \<or> port = 80 \<or> port = 443" "\<not> turl_HasUser u" "turl_Scheme u = ''https'' \<or> isFixture p host port"
    using assms by (auto simp: ValidateURL_def fetch_fail_def Let_def split: option.split_asm if_split_asm)
  then show ?thesis using resolve_safe [OF *(1,2)] by (auto simp: resolve_Inr)
qed


definition sample_net :: "addr \<Rightarrow> net_lib" where
  "sample_net a = \<lparr>net_ToLower = (\<lambda>s. s), net_ParseAddr = (\<lambda>s. None), net_AddrString = (\<lambda>a. []), net_LookupNetIP = (\<lambda>h. Some [a])\<rparr>"

definition sample_policy :: policy where
  "sample_policy = \<lparr>pol_allowedHosts = [''go.dev''], pol_fixtureTargets = []\<rparr>"

definition sample_url :: target_url where
  "sample_url = \<lparr>turl_Scheme = ''https'', turl_Opaque = [], turl_Host = ''go.dev'', turl_Hostname = ''go.dev'', turl_Port = [],
     turl_HasUser = False, turl_Fragment = []\<rparr>"


end
