(* ===== verification/Advisory_Links.thy ===== *)
theory Advisory_Links
  imports Advisory_Evidence
begin

text \<open>
  Pagination of the official advisory feed: the \<open>Link\<close> header of a page and the address of the next
  one (\<open>src/internal/sources/global_advisories.go\<close>). Whatever the header says, the next page belongs to the reviewed feed
  and has another cursor; a header in the usual form is understood.
\<close>

section \<open>Splitting the header\<close>

definition header_byte_ok :: "char \<Rightarrow> bool" where
  "header_byte_ok c \<longleftrightarrow> \<not> ((byte c < (32 :: nat) \<and> byte c \<noteq> 9) \<or> byte c = 127)"

text \<open>\<open>cur\<close> holds the bytes since \<open>start\<close>.\<close>

fun split_links :: "string \<Rightarrow> bool \<Rightarrow> bool \<Rightarrow> bool \<Rightarrow> string list \<Rightarrow> string \<Rightarrow> string list option" where
  "split_links cur inAngle inQuote escaped links [] =
     (if inAngle \<or> inQuote \<or> escaped \<or> trim_space cur = [] then None else Some (links @ [trim_space cur]))"
| "split_links cur inAngle inQuote escaped links (c # cs) =
     (if \<not> header_byte_ok c then None
      else if escaped then split_links (cur @ [c]) inAngle inQuote False links cs
      else if inQuote then split_links (cur @ [c]) inAngle (c \<noteq> CHR 0x22) (c = CHR 0x5C) links cs
      else if c = CHR ''<'' then (if inAngle then None else split_links (cur @ [c]) True False False links cs)
      else if c = CHR ''>'' then (if \<not> inAngle then None else split_links (cur @ [c]) False False False links cs)
      else if c = CHR 0x22 then split_links (cur @ [c]) inAngle (\<not> inAngle) False links cs
      else if c = CHR '','' \<and> \<not> inAngle then
        (if trim_space cur = [] then None else split_links [] False False False (links @ [trim_space cur]) cs)
      else split_links (cur @ [c]) inAngle False False links cs)"

definition splitGlobalAdvisoryLinks :: "string \<Rightarrow> string list option" where
  "splitGlobalAdvisoryLinks header = split_links [] False False False [] header"

section \<open>One link\<close>

definition token_byte :: "char \<Rightarrow> bool" where
  "token_byte c \<longleftrightarrow> is_digit c \<or> (65 \<le> byte c \<and> byte c \<le> (90 :: nat)) \<or> (97 \<le> byte c \<and> byte c \<le> (122 :: nat)) \<or> c = CHR ''-'' \<or> c = CHR ''_''"

definition globalAdvisoryParameterToken :: "string \<Rightarrow> bool" where
  "globalAdvisoryParameterToken v \<longleftrightarrow> v \<noteq> [] \<and> list_all token_byte v"

text \<open>The loop over the bytes between the quotes.\<close>

fun unquote :: "string \<Rightarrow> string option" where
  "unquote [] = Some []"
| "unquote (c # cs) =
     (if c = CHR 0x5C then (case cs of [] \<Rightarrow> None | d # ds \<Rightarrow> map_option (Cons d) (unquote ds))
      else if c = CHR 0x22 then None
      else map_option (Cons c) (unquote cs))"

definition globalAdvisoryParameterValue :: "string \<Rightarrow> string option" where
  "globalAdvisoryParameterValue v =
     (if length v \<ge> 2 \<and> hd v = CHR 0x22 \<and> last v = CHR 0x22 then unquote (butlast (tl v))
      else if \<not> globalAdvisoryParameterToken v then None
      else Some v)"

fun scan_parameter :: "string \<Rightarrow> bool \<Rightarrow> bool \<Rightarrow> string \<Rightarrow> (string \<times> string) option" where
  "scan_parameter cur inQuote escaped [] =
     (if inQuote \<or> escaped \<or> trim_space cur = [] then None else Some (trim_space cur, []))"
| "scan_parameter cur inQuote escaped (c # cs) =
     (if escaped then scan_parameter (cur @ [c]) inQuote False cs
      else if inQuote \<and> c = CHR 0x5C then scan_parameter (cur @ [c]) inQuote True cs
      else if c = CHR 0x22 then scan_parameter (cur @ [c]) (\<not> inQuote) False cs
      else if c = CHR '';'' \<and> \<not> inQuote then (if trim_space cur = [] then None else Some (trim_space cur, c # cs))
      else scan_parameter (cur @ [c]) inQuote False cs)"

definition nextGlobalAdvisoryLinkParameter :: "string \<Rightarrow> (string \<times> string) option" where
  "nextGlobalAdvisoryLinkParameter tail = scan_parameter [] False False tail"

lemma scan_parameter_length: "scan_parameter cur q e s = Some (p, r) \<Longrightarrow> length r \<le> length s"
  by (induction s arbitrary: cur q e) (auto split: if_split_asm intro: le_SucI)

text \<open>One parameter: its name and its value; the loop over the relations of a \<open>rel\<close> fails on a second \<open>next\<close>.\<close>

definition link_parameter :: "string \<Rightarrow> (string \<times> string) option" where
  "link_parameter parameter =
     (let key = trim_space (takeWhile (\<lambda>c. c \<noteq> CHR ''='') parameter) in
      if CHR ''='' \<notin> set parameter \<or> \<not> globalAdvisoryParameterToken key then None
      else map_option (Pair key) (globalAdvisoryParameterValue (trim_space (tl (dropWhile (\<lambda>c. c \<noteq> CHR ''='') parameter)))))"

fun relations_loop :: "evidence_lib \<Rightarrow> bool \<Rightarrow> string list \<Rightarrow> bool option" where
  "relations_loop L found [] = Some found"
| "relations_loop L found (relation # relations) =
     (if lib_equal_fold L relation ''next'' then (if found then None else relations_loop L True relations)
      else relations_loop L found relations)"

function relation_loop :: "evidence_lib \<Rightarrow> bool \<Rightarrow> bool \<Rightarrow> string \<Rightarrow> bool option" where
  "relation_loop L seenRel found tail =
     (case tail of
        [] \<Rightarrow> Some found
      | c # cs \<Rightarrow>
          if c \<noteq> CHR '';'' then None
          else (case nextGlobalAdvisoryLinkParameter (trim_space cs) of
             None \<Rightarrow> None
           | Some (parameter, remainder) \<Rightarrow>
               (case link_parameter parameter of
                  None \<Rightarrow> None
                | Some (key, v) \<Rightarrow>
                    if lib_equal_fold L key ''rel'' then
                      (if seenRel \<or> v = [] then None
                       else (case relations_loop L found (split_fields v) of
                          None \<Rightarrow> None
                        | Some found' \<Rightarrow> relation_loop L True found' (trim_space remainder)))
                    else relation_loop L seenRel found (trim_space remainder))))"
  by pat_completeness auto
termination
proof (relation "measure (\<lambda>(L, seenRel, found, tail). length tail)")
  have "length (trim_space r) < Suc (length cs)" if "nextGlobalAdvisoryLinkParameter (trim_space cs) = Some (p, r)" for p r cs
    using trim_space_length [of r] scan_parameter_length [OF that [unfolded nextGlobalAdvisoryLinkParameter_def]] trim_space_length [of cs] by simp
  then show "\<And>L seenRel found tail c cs p parameter remainder q key v found'. \<lbrakk>tail = c # cs; \<not> c \<noteq> CHR '';'';
        nextGlobalAdvisoryLinkParameter (trim_space cs) = Some p; (parameter, remainder) = p; link_parameter parameter = Some q; (key, v) = q;
        lib_equal_fold L key ''rel''; \<not> (seenRel \<or> v = []); relations_loop L found (split_fields v) = Some found'\<rbrakk>
      \<Longrightarrow> ((L, True, found', trim_space remainder), (L, seenRel, found, tail)) \<in> measure (\<lambda>(L, seenRel, found, tail). length tail)"
    and "\<And>L seenRel found tail c cs p parameter remainder q key v. \<lbrakk>tail = c # cs; \<not> c \<noteq> CHR '';'';
        nextGlobalAdvisoryLinkParameter (trim_space cs) = Some p; (parameter, remainder) = p; link_parameter parameter = Some q; (key, v) = q;
        \<not> lib_equal_fold L key ''rel''\<rbrakk>
      \<Longrightarrow> ((L, seenRel, found, trim_space remainder), (L, seenRel, found, tail)) \<in> measure (\<lambda>(L, seenRel, found, tail). length tail)"
    by (auto simp del: not_less)
qed simp

declare relation_loop.simps [simp del]

definition globalAdvisoryLinkRelation :: "evidence_lib \<Rightarrow> string \<Rightarrow> (string \<times> bool) option" where
  "globalAdvisoryLinkRelation L link =
     (if \<not> has_prefix link ''<'' then None
      else
        (let upto = takeWhile (\<lambda>c. c \<noteq> CHR ''>'') link; target = tl upto in
         if CHR ''>'' \<notin> set link \<or> length upto \<le> 1 then None
         else if CHR ''<'' \<in> set target then None
         else map_option (Pair target) (relation_loop L False False (trim_space (drop (length upto + 1) link)))))"

section \<open>The next page\<close>

text \<open>
  \<open>u.Query().Get(key)\<close>: the first value, or the empty string. A query that does not parse has no values here; the
  addresses compared below have passed \<open>IsGlobalAdvisoryPageURL\<close>, so theirs parse.
\<close>

definition query_get :: "evidence_lib \<Rightarrow> string \<Rightarrow> string \<Rightarrow> string" where
  "query_get L rawQuery key =
     (case lib_query L rawQuery of None \<Rightarrow> [] | Some q \<Rightarrow> (case query_values q key of [] \<Rightarrow> [] | v # _ \<Rightarrow> v))"

definition sameGlobalAdvisoryCursor :: "evidence_lib \<Rightarrow> string \<Rightarrow> string \<Rightarrow> bool" where
  "sameGlobalAdvisoryCursor L x y =
     (case (lib_url L x, lib_url L y) of
        (Some u, Some v) \<Rightarrow> query_get L (pu_RawQuery u) ''after'' = query_get L (pu_RawQuery v) ''after''
      | _ \<Rightarrow> False)"

fun next_page_loop :: "evidence_lib \<Rightarrow> string \<Rightarrow> string \<Rightarrow> string list \<Rightarrow> string option" where
  "next_page_loop L currentURL nextURL [] = Some nextURL"
| "next_page_loop L currentURL nextURL (link # links) =
     (case globalAdvisoryLinkRelation L link of
        None \<Rightarrow> None
      | Some (target, isNext) \<Rightarrow>
          if \<not> isNext then next_page_loop L currentURL nextURL links
          else if nextURL \<noteq> [] \<or> \<not> IsGlobalAdvisoryPageURL L target \<or> target = GlobalReviewedAdvisoriesURL
               \<or> sameGlobalAdvisoryCursor L currentURL target
          then None
          else next_page_loop L currentURL target links)"

definition GlobalAdvisoryNextPage :: "evidence_lib \<Rightarrow> string \<Rightarrow> string \<Rightarrow> string option" where
  "GlobalAdvisoryNextPage L currentURL linkHeader =
     (if \<not> IsGlobalAdvisoryPageURL L currentURL then None
      else if linkHeader = [] then Some []
      else if length linkHeader > 8192 then None
      else (case splitGlobalAdvisoryLinks linkHeader of
              None \<Rightarrow> None
            | Some links \<Rightarrow> next_page_loop L currentURL [] links))"

section \<open>The feed is never left\<close>

lemma next_page_loop_Some:
  assumes "next_page_loop L currentURL nextURL links = Some page" "nextURL = [] \<or> P nextURL"
    and P: "\<And>t. IsGlobalAdvisoryPageURL L t \<Longrightarrow> t \<noteq> GlobalReviewedAdvisoriesURL \<Longrightarrow> \<not> sameGlobalAdvisoryCursor L currentURL t \<Longrightarrow> P t"
  shows "page = [] \<or> P page"
  using assms(1,2) by (induction links arbitrary: nextURL) (use P in \<open>auto split: option.split_asm if_split_asm\<close>)

lemma next_page_member:
  assumes "GlobalAdvisoryNextPage L currentURL linkHeader = Some page"
  shows "IsGlobalAdvisoryPageURL L currentURL"
    and "page = [] \<or> IsGlobalAdvisoryPageURL L page \<and> page \<noteq> GlobalReviewedAdvisoriesURL \<and> \<not> sameGlobalAdvisoryCursor L currentURL page"
  using assms next_page_loop_Some [of L currentURL "[]" _ page "\<lambda>p. IsGlobalAdvisoryPageURL L p \<and> p \<noteq> GlobalReviewedAdvisoriesURL \<and> \<not> sameGlobalAdvisoryCursor L currentURL p"]
  by (auto simp: GlobalAdvisoryNextPage_def split: if_split_asm option.split_asm)

text \<open>
  Whatever a response says in its \<open>Link\<close> header, pagination stays within the reviewed feed: from a
  page of the feed the next address, if any, is a continuation page on the same host and path with
  the same filters, is not the first page again, and has another cursor than the current page.
\<close>

lemma next_page_safe:
  assumes "GlobalAdvisoryNextPage L currentURL linkHeader = Some page"
  shows "IsGlobalAdvisoryPageURL L currentURL
    \<and> (page = [] \<or> page \<noteq> GlobalReviewedAdvisoriesURL \<and> \<not> sameGlobalAdvisoryCursor L currentURL page
         \<and> (\<exists>u q cursor. lib_url L page = Some u \<and> pu_Scheme u = ''https'' \<and> pu_Host u = ''api.github.com'' \<and> \<not> pu_HasUser u \<and> pu_Path u = ''/advisories''
              \<and> lib_query L (pu_RawQuery u) = Some q \<and> length q = 5 \<and> singleQueryValue q ''type'' ''reviewed'' \<and> singleQueryValue q ''sort'' ''updated''
              \<and> query_values q ''after'' = [cursor] \<and> cursor_ok cursor))"
  using next_page_member [OF assms] unfolding IsGlobalAdvisoryPageURL_def [of L page]
  by (auto split: if_split_asm option.split_asm list.split_asm)

section \<open>Headers in the usual form\<close>

text \<open>\<open><target>; rel="relation"\<close>, joined by a comma and a space.\<close>

definition render_link :: "string \<times> string \<Rightarrow> string" where
  "render_link l = ''<'' @ fst l @ ''>; rel='' @ [CHR 0x22] @ snd l @ [CHR 0x22]"

definition plain_target :: "string \<Rightarrow> bool" where
  "plain_target t \<longleftrightarrow> t \<noteq> [] \<and> list_all (\<lambda>c. header_byte_ok c \<and> c \<noteq> CHR ''<'' \<and> c \<noteq> CHR ''>'') t"

definition plain_link :: "string \<times> string \<Rightarrow> bool" where
  "plain_link l \<longleftrightarrow> plain_target (fst l) \<and> globalAdvisoryParameterToken (snd l)"

lemma token_byte_ascii:
  assumes "token_byte c"
  shows "byte c < 128" "\<not> is_space (byte c)" "header_byte_ok c" "c \<noteq> CHR 0x22" "c \<noteq> CHR 0x5C"
  using assms by (auto simp: token_byte_def is_digit_def is_space_def header_byte_ok_def)

lemma decode_rune_ascii: "byte c < 128 \<Longrightarrow> decode_rune (c # s) = (byte c, 1)"
  by (simp add: decode_rune_def lead_width_def)

lemma trim_space_tight:
  assumes "s \<noteq> []" "byte (hd s) < 128" "\<not> is_space (byte (hd s))" "byte (last s) < 128" "\<not> is_space (byte (last s))"
  shows "trim_space s = s"
proof -
  obtain c t where "s = c # t" using assms(1) by (cases s) auto
  then have "trim_left_space s = s" using assms by (subst trim_left_space.simps) (simp add: decode_rune_ascii)
  then show ?thesis using assms by (subst trim_space_def, subst trim_right_space.simps) (simp add: decode_last_rune_def)
qed

lemma trim_space_blank: "trim_space (CHR '' '' # s) = trim_space s"
  unfolding trim_space_def by (subst trim_left_space.simps) (simp add: decode_rune_ascii is_space_def)

lemma split_links_angle:
  "list_all (\<lambda>c. header_byte_ok c \<and> c \<noteq> CHR ''<'' \<and> c \<noteq> CHR ''>'') t
     \<Longrightarrow> split_links cur True False False links (t @ s) = split_links (cur @ t) True False False links s"
  by (induction t arbitrary: cur) auto

lemma split_links_plain:
  "list_all (\<lambda>c. header_byte_ok c \<and> c \<notin> {CHR ''<'', CHR ''>'', CHR '','', CHR 0x22}) t
     \<Longrightarrow> split_links cur False False False links (t @ s) = split_links (cur @ t) False False False links s"
  by (induction t arbitrary: cur) auto

lemma split_links_quoted:
  "list_all token_byte t \<Longrightarrow> split_links cur False True False links (t @ s) = split_links (cur @ t) False True False links s"
  by (induction t arbitrary: cur) (auto simp: token_byte_ascii)

lemma split_links_link:
  assumes "plain_link l"
  shows "split_links cur False False False links (render_link l @ s) = split_links (cur @ render_link l) False False False links s"
proof -
  have t: "list_all (\<lambda>c. header_byte_ok c \<and> c \<noteq> CHR ''<'' \<and> c \<noteq> CHR ''>'') (fst l)" and r: "list_all token_byte (snd l)"
    using assms by (simp_all add: plain_link_def plain_target_def globalAdvisoryParameterToken_def)
  have p: "list_all (\<lambda>c. header_byte_ok c \<and> c \<notin> {CHR ''<'', CHR ''>'', CHR '','', CHR 0x22}) ''; rel=''" by (simp add: header_byte_ok_def)
  show ?thesis
    using split_links_angle [OF t] split_links_plain [OF p] split_links_quoted [OF r]
    by (simp add: render_link_def header_byte_ok_def)
qed

lemma render_link_tight:
  assumes "plain_link l"
  shows "trim_space (render_link l) = render_link l" "trim_space (CHR '' '' # render_link l) = render_link l"
  by (simp_all only: trim_space_blank) (simp_all add: trim_space_tight render_link_def is_space_def)

lemma split_links_rendered:
  assumes "list_all plain_link ls" "ls \<noteq> []" "cur = [] \<or> cur = '' ''"
  shows "split_links cur False False False links (join '', '' (map render_link ls)) = Some (links @ map render_link ls)"
  using assms
proof (induction ls arbitrary: cur links)
  case (Cons l ls)
  have l: "plain_link l" using Cons.prems by simp
  have cur: "trim_space (cur @ render_link l) = render_link l" "render_link l \<noteq> []"
    using render_link_tight [OF l] Cons.prems(3) by (auto simp: render_link_def)
  show ?case
  proof (cases ls)
    case Nil
    then show ?thesis using split_links_link [OF l, of cur links "[]"] cur by simp
  next
    case (Cons m ms)
    have "split_links cur False False False links (join '', '' (map render_link (l # ls)))
        = split_links (cur @ render_link l) False False False links ('', '' @ join '', '' (map render_link ls))"
      using split_links_link [OF l] by (simp add: Cons)
    also have "\<dots> = split_links '' '' False False False (links @ [render_link l]) (join '', '' (map render_link ls))"
      using cur by (simp add: header_byte_ok_def)
    also have "\<dots> = Some ((links @ [render_link l]) @ map render_link ls)"
      using Cons.prems Cons by (intro Cons.IH) auto
    finally show ?thesis by simp
  qed
qed simp

lemma split_fields_from_token: "list_all token_byte t \<Longrightarrow> split_fields_from cur t = (if cur @ t = [] then [] else [cur @ t])"
proof (induction t arbitrary: cur)
  case (Cons c t)
  then show ?case using token_byte_ascii [of c] by (subst split_fields_from.simps) (simp add: decode_rune_ascii)
qed (simp add: split_fields_from.simps)

lemma scan_token: "list_all token_byte t \<Longrightarrow> scan_parameter cur q False (t @ s) = scan_parameter (cur @ t) q False s"
  by (induction t arbitrary: cur) (auto simp: token_byte_ascii token_byte_def is_digit_def)

lemma unquote_token: "list_all token_byte t \<Longrightarrow> unquote t = Some t"
  by (induction t) (auto simp: token_byte_ascii)

definition quoted :: "string \<Rightarrow> string" where
  "quoted r = [CHR 0x22] @ r @ [CHR 0x22]"

lemma quoted_tight: "trim_space (quoted r) = quoted r" "trim_space (''rel='' @ quoted r) = ''rel='' @ quoted r"
  "trim_space (''; rel='' @ quoted r) = ''; rel='' @ quoted r"
  by (rule trim_space_tight; simp add: quoted_def is_space_def)+

lemma rel_parameter:
  assumes "globalAdvisoryParameterToken r"
  shows "nextGlobalAdvisoryLinkParameter (''rel='' @ quoted r) = Some (''rel='' @ quoted r, [])" "link_parameter (''rel='' @ quoted r) = Some (''rel'', r)"
proof -
  have r: "list_all token_byte r" using assms by (simp add: globalAdvisoryParameterToken_def)
  show "nextGlobalAdvisoryLinkParameter (''rel='' @ quoted r) = Some (''rel='' @ quoted r, [])"
    using scan_token [OF r] quoted_tight(2) [of r] by (simp add: nextGlobalAdvisoryLinkParameter_def quoted_def)
  have "globalAdvisoryParameterValue (quoted r) = Some r"
    using unquote_token [OF r] by (simp add: globalAdvisoryParameterValue_def quoted_def butlast_append)
  moreover have "trim_space ''rel'' = ''rel''" by (rule trim_space_tight) (simp_all add: is_space_def)
  moreover have "globalAdvisoryParameterToken ''rel''" by (simp add: globalAdvisoryParameterToken_def token_byte_def)
  ultimately show "link_parameter (''rel='' @ quoted r) = Some (''rel'', r)" using quoted_tight(1) [of r] by (simp add: link_parameter_def)
qed

lemma relation_rendered:
  assumes "plain_link l" "lib_equal_fold L ''rel'' ''rel''"
  shows "globalAdvisoryLinkRelation L (render_link l) = Some (fst l, lib_equal_fold L (snd l) ''next'')"
proof -
  have tok: "globalAdvisoryParameterToken (snd l)" and t: "plain_target (fst l)" using assms(1) by (simp_all add: plain_link_def)
  have "render_link l = (CHR ''<'' # fst l) @ CHR ''>'' # (''; rel='' @ quoted (snd l))" by (simp add: render_link_def quoted_def)
  moreover have no: "\<forall>c\<in>set (fst l). c \<noteq> CHR ''>''" "CHR ''<'' \<notin> set (fst l)" "fst l \<noteq> []" using t by (auto simp: plain_target_def list_all_iff)
  ultimately have upto: "takeWhile (\<lambda>c. c \<noteq> CHR ''>'') (render_link l) = CHR ''<'' # fst l"
    and rest: "drop (length (fst l) + 2) (render_link l) = ''; rel='' @ quoted (snd l)" and has: "has_prefix (render_link l) ''<''" "CHR ''>'' \<in> set (render_link l)"
    by (simp_all add: takeWhile_tail)
  have fields: "split_fields (snd l) = [snd l]" "snd l \<noteq> []"
    using tok split_fields_from_token [of "snd l" "[]"] by (auto simp: split_fields_def globalAdvisoryParameterToken_def)
  have "trim_space ('' rel='' @ quoted (snd l)) = ''rel='' @ quoted (snd l)"
    using trim_space_blank [of "''rel='' @ quoted (snd l)"] quoted_tight(2) by simp
  then have "relation_loop L False False (''; rel='' @ quoted (snd l)) = Some (lib_equal_fold L (snd l) ''next'')"
    using rel_parameter [OF tok] assms(2) fields relation_loop.simps [of L True _ "[]"] by (subst relation_loop.simps) simp
  then show ?thesis
    using upto rest has no quoted_tight(3) [of "snd l"] by (simp add: globalAdvisoryLinkRelation_def Let_def)
qed

lemma next_page_loop_rendered:
  assumes "list_all plain_link ls" "lib_equal_fold L ''rel'' ''rel''"
    and "\<forall>l\<in>set ls. lib_equal_fold L (snd l) ''next'' \<longrightarrow> IsGlobalAdvisoryPageURL L (fst l) \<and> fst l \<noteq> GlobalReviewedAdvisoriesURL
         \<and> \<not> sameGlobalAdvisoryCursor L currentURL (fst l)"
    and "length (filter (\<lambda>l. lib_equal_fold L (snd l) ''next'') ls) \<le> (if cur = [] then 1 else 0)"
  shows "next_page_loop L currentURL cur (map render_link ls)
    = Some (case filter (\<lambda>l. lib_equal_fold L (snd l) ''next'') ls of [] \<Rightarrow> cur | l # _ \<Rightarrow> fst l)"
  using assms
proof (induction ls arbitrary: cur)
  case (Cons l ls)
  have rel: "globalAdvisoryLinkRelation L (render_link l) = Some (fst l, lib_equal_fold L (snd l) ''next'')" and t: "fst l \<noteq> []"
    using relation_rendered [of l L] Cons.prems by (auto simp: plain_link_def plain_target_def)
  show ?case
  proof (cases "lib_equal_fold L (snd l) ''next''")
    case True
    then have none: "filter (\<lambda>l. lib_equal_fold L (snd l) ''next'') ls = []" and cur: "cur = []" using Cons.prems(4) by (auto split: if_split_asm)
    have "next_page_loop L currentURL (fst l) (map render_link ls) = Some (fst l)" using Cons.IH [of "fst l"] Cons.prems none by simp
    then show ?thesis using rel True Cons.prems cur by simp
  next
    case False
    then show ?thesis using rel Cons.IH [of cur] Cons.prems by simp
  qed
qed simp

text \<open>
  C31. A header in the usual form is understood: for every list of links whose addresses are plain and whose
  relations are single tokens, with at most one \<open>next\<close> and that one a continuation of the feed, the parser finds
  exactly the address of that link, and no page when there is none, in whatever order the links come.
\<close>

theorem next_page_roundtrip:
  assumes "IsGlobalAdvisoryPageURL L currentURL" "lib_equal_fold L ''rel'' ''rel''" "ls \<noteq> []" "list_all plain_link ls"
    and "length (join '', '' (map render_link ls)) \<le> 8192" "length (filter (\<lambda>l. lib_equal_fold L (snd l) ''next'') ls) \<le> 1"
    and "\<forall>l\<in>set ls. lib_equal_fold L (snd l) ''next'' \<longrightarrow> IsGlobalAdvisoryPageURL L (fst l) \<and> fst l \<noteq> GlobalReviewedAdvisoriesURL
         \<and> \<not> sameGlobalAdvisoryCursor L currentURL (fst l)"
  shows "GlobalAdvisoryNextPage L currentURL (join '', '' (map render_link ls))
    = Some (case filter (\<lambda>l. lib_equal_fold L (snd l) ''next'') ls of [] \<Rightarrow> [] | l # _ \<Rightarrow> fst l)"
proof -
  have "splitGlobalAdvisoryLinks (join '', '' (map render_link ls)) = Some (map render_link ls)"
    using split_links_rendered [OF assms(4,3)] by (simp add: splitGlobalAdvisoryLinks_def)
  moreover have "join '', '' (map render_link ls) \<noteq> []" using assms(3) by (cases ls rule: list.exhaust; cases "tl ls") (auto simp: render_link_def)
  ultimately show ?thesis
    using assms next_page_loop_rendered [of ls L currentURL "[]"] by (simp add: GlobalAdvisoryNextPage_def)
qed

section \<open>A small feed\<close>

definition sample_pages :: evidence_lib where
  "sample_pages =
     sample_lib\<lparr>lib_url := (\<lambda>s. Some \<lparr>pu_Scheme = ''https'', pu_Host = ''api.github.com'', pu_HasUser = False, pu_Opaque = [], pu_Path = ''/advisories'', pu_RawPath = [],
         pu_RawQuery = (if s = ''p2'' then ''after=c&type=reviewed'' else ''type=reviewed''), pu_Fragment = [], pu_RawFragment = [], pu_ForceQuery = False\<rparr>),
       lib_query := (\<lambda>q. Some ([(''type'', [''reviewed'']), (''sort'', [''updated'']), (''direction'', [''desc'']), (''per_page'', [''100''])]
         @ (if has_prefix q ''after'' then [(''after'', [''c''])] else [])))\<rparr>"

definition sample_links :: "(string \<times> string) list" where
  "sample_links = [(''p1'', ''prev''), (''p2'', ''next'')]"

lemma sample_links_ok:
  "IsGlobalAdvisoryPageURL sample_pages GlobalReviewedAdvisoriesURL" "list_all plain_link sample_links" "IsGlobalAdvisoryPageURL sample_pages ''p2''"
  "\<not> sameGlobalAdvisoryCursor sample_pages GlobalReviewedAdvisoriesURL ''p2''" "''p2'' \<noteq> GlobalReviewedAdvisoriesURL"
  "length (join '', '' (map render_link sample_links)) \<le> 8192" "lib_equal_fold sample_pages ''rel'' ''rel''"
  "filter (\<lambda>l. lib_equal_fold sample_pages (snd l) ''next'') sample_links = [(''p2'', ''next'')]"
  by code_simp+

theorem next_page_roundtrip_witness:
  "GlobalAdvisoryNextPage sample_pages GlobalReviewedAdvisoriesURL (join '', '' (map render_link sample_links)) = Some ''p2''"
proof -
  have "\<forall>l\<in>set sample_links. lib_equal_fold sample_pages (snd l) ''next'' \<longrightarrow> l = (''p2'', ''next'')"
    by (simp add: sample_links_def sample_pages_def sample_lib_def)
  then show ?thesis
    using next_page_roundtrip [of sample_pages GlobalReviewedAdvisoriesURL sample_links] sample_links_ok by (auto simp: sample_links_def)
qed

lemma next_page_safe_witness:
  "\<exists>u q. lib_url sample_pages ''p2'' = Some u \<and> pu_Host u = ''api.github.com'' \<and> lib_query sample_pages (pu_RawQuery u) = Some q \<and> query_values q ''after'' = [''c'']"
proof -
  have "GlobalAdvisoryNextPage sample_pages GlobalReviewedAdvisoriesURL (join '', '' (map render_link sample_links)) = Some ''p2''" by code_simp
  from next_page_safe [OF this] obtain u q cursor where "lib_url sample_pages ''p2'' = Some u" "pu_Host u = ''api.github.com''"
      "lib_query sample_pages (pu_RawQuery u) = Some q" "query_values q ''after'' = [cursor]" by auto
  moreover from this have "cursor = ''c''" by (auto simp: sample_pages_def query_values_def)
  ultimately show ?thesis by blast
qed

end
