(* ===== verification/Object_Store.thy ===== *)
theory Object_Store
  imports Advisory_Evidence
begin

text \<open>
  The raw object store (\<open>src/internal/storage/s3store/store.go\<close>): objects are staged under a random temporary key while they
  are hashed, and committed to their content address or aborted. The bucket is a map from keys to objects; the client
  of the storage service is an argument: every call of it may fail, with or without effect.
\<close>

section \<open>The client\<close>

record stored_object =
  obj_Content :: string
  obj_ContentType :: string

text \<open>The outcome of the n-th call: done, or failed and then with or without effect.\<close>

datatype call_outcome = CallDone | CallFailed bool

record object_client =
  oc_outcome :: "nat \<Rightarrow> call_outcome"
  oc_random :: "nat \<Rightarrow> string option"
  oc_size :: "nat \<Rightarrow> string \<Rightarrow> int"
  oc_bucket_exists :: "nat \<Rightarrow> bool"
  oc_sha256 :: "string \<Rightarrow> string"

record object_state =
  os_bucket :: "string \<Rightarrow> stored_object option"
  os_calls :: nat

definition next_call :: "object_state \<Rightarrow> object_state" where
  "next_call b = b\<lparr>os_calls := os_calls b + 1\<rparr>"

definition effect :: "(string \<Rightarrow> stored_object option) \<Rightarrow> object_state \<Rightarrow> object_state" where
  "effect m b = b\<lparr>os_bucket := m\<rparr>"

text \<open>A call with the given effect on the bucket: whether it reports success, and the state.\<close>

definition client_call :: "object_client \<Rightarrow> ((string \<Rightarrow> stored_object option) \<Rightarrow> string \<Rightarrow> stored_object option) \<Rightarrow> object_state \<Rightarrow> bool \<times> object_state" where
  "client_call C f b =
     (case oc_outcome C (os_calls b) of
        CallDone \<Rightarrow> (True, effect (f (os_bucket b)) (next_call b))
      | CallFailed took_place \<Rightarrow> (False, if took_place then effect (f (os_bucket b)) (next_call b) else next_call b))"

definition PutObject :: "object_client \<Rightarrow> string \<Rightarrow> stored_object \<Rightarrow> object_state \<Rightarrow> bool \<times> object_state" where
  "PutObject C key obj b = client_call C (\<lambda>m. m(key \<mapsto> obj)) b"

definition RemoveObject :: "object_client \<Rightarrow> string \<Rightarrow> object_state \<Rightarrow> bool \<times> object_state" where
  "RemoveObject C key b = client_call C (\<lambda>m. m(key := None)) b"

definition CopyObject :: "object_client \<Rightarrow> string \<Rightarrow> string \<Rightarrow> string \<Rightarrow> object_state \<Rightarrow> bool \<times> object_state" where
  "CopyObject C source destination contentType b =
     (case os_bucket b source of
        None \<Rightarrow> (False, next_call b)
      | Some obj \<Rightarrow> client_call C (\<lambda>m. m(destination \<mapsto> obj\<lparr>obj_ContentType := contentType\<rparr>)) b)"

section \<open>Keys\<close>

definition temporaryKeyPrefix :: string where "temporaryKeyPrefix = ''_incoming/''"

text \<open>\<open>hex.DecodeString\<close> accepts both cases.\<close>

definition hex_byte :: "char \<Rightarrow> bool" where
  "hex_byte c \<longleftrightarrow> lower_hex c \<or> (65 \<le> byte c \<and> byte c \<le> (70 :: nat))"

definition validTemporaryKey :: "string \<Rightarrow> bool" where
  "validTemporaryKey key \<longleftrightarrow>
     has_prefix key temporaryKeyPrefix \<and> length key = length temporaryKeyPrefix + 32 \<and> list_all hex_byte (trim_prefix key temporaryKeyPrefix)"

definition randomTemporaryKey :: "object_client \<Rightarrow> object_state \<Rightarrow> string option" where
  "randomTemporaryKey C b = map_option (\<lambda>random. temporaryKeyPrefix @ hex_encode random) (oc_random C (os_calls b))"

definition parseEndpoint :: "(string \<Rightarrow> parsed_url option) \<Rightarrow> string \<Rightarrow> (string \<times> bool) option" where
  "parseEndpoint parse raw =
     (case parse (trim_space raw) of
        None \<Rightarrow> None
      | Some u \<Rightarrow>
          if pu_Host u = [] \<or> pu_Path u \<noteq> [] \<and> pu_Path u \<noteq> ''/'' \<or> pu_RawQuery u \<noteq> [] \<or> pu_Fragment u \<noteq> [] \<or> pu_HasUser u then None
          else if pu_Scheme u = ''https'' then Some (pu_Host u, True)
          else if pu_Scheme u = ''http'' then Some (pu_Host u, False)
          else None)"

section \<open>Operations\<close>

record staged_object =
  st_TemporaryKey :: string
  st_SHA256 :: string
  st_Bytes :: int
  st_ContentType :: string

definition Check :: "object_client \<Rightarrow> object_state \<Rightarrow> bool \<times> object_state" where
  "Check C b =
     (case oc_outcome C (os_calls b) of CallFailed _ \<Rightarrow> (False, next_call b) | CallDone \<Rightarrow> (oc_bucket_exists C (os_calls b), next_call b))"

definition object_Read :: "object_client \<Rightarrow> string \<Rightarrow> int \<Rightarrow> object_state \<Rightarrow> string option \<times> object_state" where
  "object_Read C objectKey maximumBytes b =
     (if \<not> ValidateObjectKey objectKey then (None, b)
      else if maximumBytes < 1 \<or> maximumBytes > 15 * 2 ^ 20 then (None, b)
      else (case (oc_outcome C (os_calls b), os_bucket b objectKey) of
        (CallDone, Some obj) \<Rightarrow>
          (let payload = take (nat (maximumBytes + 1)) (obj_Content obj) in
           (if int (length payload) > maximumBytes then None else Some payload, next_call b))
      | _ \<Rightarrow> (None, next_call b)))"

definition removeStaged :: "object_client \<Rightarrow> string \<Rightarrow> object_state \<Rightarrow> object_state" where
  "removeStaged C key b = snd (RemoveObject C key b)"

text \<open>The body is what the reader yields and whether it fails before its end; an upload fails when its reader does.\<close>

definition Stage :: "object_client \<Rightarrow> string \<Rightarrow> string \<Rightarrow> bool \<Rightarrow> object_state \<Rightarrow> staged_object option \<times> object_state" where
  "Stage C contentType body bodyFails b =
     (case randomTemporaryKey C b of
        None \<Rightarrow> (None, next_call b)
      | Some temporaryKey \<Rightarrow>
          (let (uploaded, b1) = PutObject C temporaryKey \<lparr>obj_Content = body, obj_ContentType = contentType\<rparr> b in
           if bodyFails \<or> \<not> uploaded then (None, removeStaged C temporaryKey b1)
           else if oc_size C (os_calls b) body \<noteq> int (length body) then (None, removeStaged C temporaryKey b1)
           else (Some \<lparr>st_TemporaryKey = temporaryKey, st_SHA256 = oc_sha256 C body, st_Bytes = int (length body), st_ContentType = contentType\<rparr>, b1)))"

definition Commit :: "object_client \<Rightarrow> staged_object \<Rightarrow> string \<Rightarrow> object_state \<Rightarrow> bool \<times> object_state" where
  "Commit C staged objectKey b =
     (if \<not> validTemporaryKey (st_TemporaryKey staged) then (False, b)
      else if \<not> ValidateObjectKey objectKey then (False, b)
      else (let (copied, b1) = CopyObject C (st_TemporaryKey staged) objectKey (st_ContentType staged) b in
        if \<not> copied then (False, b1) else RemoveObject C (st_TemporaryKey staged) b1))"

definition Abort :: "object_client \<Rightarrow> staged_object \<Rightarrow> object_state \<Rightarrow> bool \<times> object_state" where
  "Abort C staged b = (if \<not> validTemporaryKey (st_TemporaryKey staged) then (False, b) else RemoveObject C (st_TemporaryKey staged) b)"

definition object_Delete :: "object_client \<Rightarrow> string \<Rightarrow> object_state \<Rightarrow> bool \<times> object_state" where
  "object_Delete C objectKey b =
     (if \<not> ValidateObjectKey objectKey then (False, b)
      else if has_prefix objectKey temporaryKeyPrefix then (False, b)
      else RemoveObject C objectKey b)"

section \<open>The interface the fetcher relies on\<close>

text \<open>The operations of the interface \<open>RawStore\<close>.\<close>

record 's raw_ops =
  ro_stage :: "string \<Rightarrow> string \<Rightarrow> bool \<Rightarrow> 's \<Rightarrow> staged_object option \<times> 's"
  ro_commit :: "staged_object \<Rightarrow> string \<Rightarrow> 's \<Rightarrow> bool \<times> 's"
  ro_abort :: "staged_object \<Rightarrow> 's \<Rightarrow> bool \<times> 's"

text \<open>
  What the interface promises: a staged object holds the bytes it was given and tells their digest and number; a
  commit puts them under the key; and under keys outside the staging area nothing else ever changes.
\<close>

definition final_key :: "string \<Rightarrow> bool" where
  "final_key k \<longleftrightarrow> \<not> has_prefix k temporaryKeyPrefix"

locale raw_store =
  fixes R :: "'s raw_ops" and look :: "'s \<Rightarrow> string \<Rightarrow> stored_object option" and sha :: "string \<Rightarrow> string"
  assumes stage_frame: "ro_stage R ct body fails b = (r, b') \<Longrightarrow> final_key k \<Longrightarrow> look b' k = look b k"
    and stage_ok: "ro_stage R ct body fails b = (Some staged, b') \<Longrightarrow>
      \<not> fails \<and> st_SHA256 staged = sha body \<and> st_Bytes staged = int (length body) \<and> st_ContentType staged = ct
      \<and> look b' (st_TemporaryKey staged) = Some \<lparr>obj_Content = body, obj_ContentType = ct\<rparr>"
    and commit_frame: "ro_commit R staged key b = (ok, b') \<Longrightarrow> final_key k \<Longrightarrow> k \<noteq> key \<Longrightarrow> look b' k = look b k"
    and commit_key: "ro_commit R staged key b = (ok, b') \<Longrightarrow> look b (st_TemporaryKey staged) = Some obj \<Longrightarrow>
      look b' key = look b key \<or> look b' key = Some (obj\<lparr>obj_ContentType := st_ContentType staged\<rparr>)"
    and commit_ok: "ro_commit R staged key b = (True, b') \<Longrightarrow> look b (st_TemporaryKey staged) = Some obj \<Longrightarrow>
      ValidateObjectKey key \<and> look b' key = Some (obj\<lparr>obj_ContentType := st_ContentType staged\<rparr>)"
    and abort_frame: "ro_abort R staged b = (ok, b') \<Longrightarrow> final_key k \<Longrightarrow> look b' k = look b k"
begin

lemma staged_then_committed:
  assumes "ro_stage R ct body fails b = (Some staged, b1)" "ro_commit R staged key b1 = (True, b2)"
  shows "ValidateObjectKey key \<and> look b2 key = Some \<lparr>obj_Content = body, obj_ContentType = ct\<rparr>
    \<and> (\<forall>k. final_key k \<longrightarrow> k \<noteq> key \<longrightarrow> look b2 k = look b k)"
  using stage_ok [OF assms(1)] commit_ok [OF assms(2)] stage_frame [OF assms(1)] commit_frame [OF assms(2)] by simp

lemma staged_then_not_committed:
  assumes "ro_stage R ct body fails b = (Some staged, b1)" "ro_commit R staged key b1 = (False, b2)" "ro_abort R staged b2 = (ok, b3)"
    and "final_key k"
  shows "look b3 k = look b k \<or> k = key \<and> look b3 k = Some \<lparr>obj_Content = body, obj_ContentType = ct\<rparr>"
proof (cases "k = key")
  case True
  then show ?thesis
    using stage_ok [OF assms(1)] commit_key [OF assms(2)] abort_frame [OF assms(3,4)] stage_frame [OF assms(1,4)] by fastforce
next
  case False
  then show ?thesis using commit_frame [OF assms(2,4)] abort_frame [OF assms(3,4)] stage_frame [OF assms(1,4)] by simp
qed

end

subsection \<open>The bucket keeps the interface\<close>

definition s3_ops :: "object_client \<Rightarrow> object_state raw_ops" where
  "s3_ops C = \<lparr>ro_stage = Stage C, ro_commit = Commit C, ro_abort = Abort C\<rparr>"

lemma client_call_bucket: "client_call C f b = (ok, b') \<Longrightarrow> os_bucket b' = os_bucket b \<or> os_bucket b' = f (os_bucket b)"
  by (auto simp: client_call_def effect_def next_call_def split: call_outcome.split_asm if_split_asm)

lemma client_call_done: "client_call C f b = (True, b') \<Longrightarrow> os_bucket b' = f (os_bucket b)"
  by (auto simp: client_call_def effect_def next_call_def split: call_outcome.split_asm)

lemma temporary_not_final: "validTemporaryKey k \<Longrightarrow> \<not> final_key k"
  by (simp add: validTemporaryKey_def final_key_def)

lemma random_not_final: "randomTemporaryKey C b = Some k \<Longrightarrow> \<not> final_key k"
  by (auto simp: randomTemporaryKey_def final_key_def has_prefix_iff)

lemma valid_key_final: "ValidateObjectKey key \<Longrightarrow> final_key key"
proof (rule ccontr)
  assume "ValidateObjectKey key" "\<not> final_key key"
  then obtain t where "key = ''_incoming/'' @ t" by (auto simp: final_key_def has_prefix_iff temporaryKeyPrefix_def)
  then have "split_byte CHR ''/'' key = ''_incoming'' # split_byte CHR ''/'' t" by simp
  then show False using \<open>ValidateObjectKey key\<close> by (auto simp: ValidateObjectKey_def split: list.split_asm)
qed

lemma remove_frame: "RemoveObject C key b = (ok, b') \<Longrightarrow> k \<noteq> key \<Longrightarrow> os_bucket b' k = os_bucket b k"
  unfolding RemoveObject_def by (drule client_call_bucket) auto

lemma copy_bucket:
  assumes "CopyObject C src dst ct b = (ok, b')"
  shows "k \<noteq> dst \<Longrightarrow> os_bucket b' k = os_bucket b k"
    and "os_bucket b src = Some obj \<Longrightarrow> os_bucket b' dst = os_bucket b dst \<or> os_bucket b' dst = Some (obj\<lparr>obj_ContentType := ct\<rparr>)"
    and "os_bucket b src = Some obj \<Longrightarrow> ok \<Longrightarrow> os_bucket b' dst = Some (obj\<lparr>obj_ContentType := ct\<rparr>)"
    and "ok \<Longrightarrow> os_bucket b src \<noteq> None"
  using assms unfolding CopyObject_def
  by (auto split: option.split_asm dest: client_call_bucket client_call_done simp: next_call_def)

lemma stage_cases:
  assumes "Stage C ct body fails b = (r, b')"
  shows "r = None \<and> b' = next_call b
    \<or> (\<exists>key ok b1. randomTemporaryKey C b = Some key \<and> PutObject C key \<lparr>obj_Content = body, obj_ContentType = ct\<rparr> b = (ok, b1)
        \<and> (r = None \<and> b' = removeStaged C key b1
           \<or> ok \<and> \<not> fails \<and> b' = b1 \<and> r = Some \<lparr>st_TemporaryKey = key, st_SHA256 = oc_sha256 C body, st_Bytes = int (length body), st_ContentType = ct\<rparr>))"
  using assms by (auto simp: Stage_def split: option.split_asm prod.split_asm if_split_asm)

lemma put_bucket:
  assumes "PutObject C key obj b = (ok, b')"
  shows "k \<noteq> key \<Longrightarrow> os_bucket b' k = os_bucket b k" and "ok \<Longrightarrow> os_bucket b' key = Some obj"
  using assms unfolding PutObject_def by (auto dest: client_call_bucket client_call_done)

lemma removeStaged_frame: "k \<noteq> key \<Longrightarrow> os_bucket (removeStaged C key b) k = os_bucket b k"
  unfolding removeStaged_def by (metis prod.collapse remove_frame)

lemma Stage_frame: "Stage C ct body fails b = (r, b') \<Longrightarrow> final_key k \<Longrightarrow> os_bucket b' k = os_bucket b k"
  by (drule stage_cases) (auto simp: next_call_def removeStaged_frame put_bucket dest!: random_not_final, (metis put_bucket(1) removeStaged_frame)+)

lemma Stage_ok:
  assumes "Stage C ct body fails b = (Some staged, b')"
  shows "\<not> fails \<and> st_SHA256 staged = oc_sha256 C body \<and> st_Bytes staged = int (length body) \<and> st_ContentType staged = ct
      \<and> os_bucket b' (st_TemporaryKey staged) = Some \<lparr>obj_Content = body, obj_ContentType = ct\<rparr>"
  using stage_cases [OF assms] put_bucket(2) by auto

lemma commit_cases:
  assumes "Commit C staged key b = (ok, b')"
  obtains (refused) "\<not> ok" "b' = b"
    | (not_copied) b1 where "validTemporaryKey (st_TemporaryKey staged)" "ValidateObjectKey key"
        "CopyObject C (st_TemporaryKey staged) key (st_ContentType staged) b = (False, b')" "\<not> ok"
    | (copied) b1 where "validTemporaryKey (st_TemporaryKey staged)" "ValidateObjectKey key"
        "CopyObject C (st_TemporaryKey staged) key (st_ContentType staged) b = (True, b1)" "RemoveObject C (st_TemporaryKey staged) b1 = (ok, b')"
  using assms by (auto simp: Commit_def split: prod.split_asm if_split_asm)

interpretation s3: raw_store "s3_ops C" os_bucket "oc_sha256 C" for C
proof
  fix ct body fails b r b' k
  assume "ro_stage (s3_ops C) ct body fails b = (r, b')" "final_key k"
  then show "os_bucket b' k = os_bucket b k" by (intro Stage_frame) (simp_all add: s3_ops_def)
next
  fix ct body fails b staged b'
  assume "ro_stage (s3_ops C) ct body fails b = (Some staged, b')"
  then show "\<not> fails \<and> st_SHA256 staged = oc_sha256 C body \<and> st_Bytes staged = int (length body) \<and> st_ContentType staged = ct
      \<and> os_bucket b' (st_TemporaryKey staged) = Some \<lparr>obj_Content = body, obj_ContentType = ct\<rparr>" by (intro Stage_ok) (simp add: s3_ops_def)
next
  fix staged key b ok b' k
  assume commit: "ro_commit (s3_ops C) staged key b = (ok, b')" and k: "final_key k" "k \<noteq> key"
  from commit have "Commit C staged key b = (ok, b')" by (simp add: s3_ops_def)
  then show "os_bucket b' k = os_bucket b k"
  proof (cases rule: commit_cases)
    case (copied b1)
    then have "k \<noteq> st_TemporaryKey staged" using k(1) temporary_not_final by blast
    then show ?thesis using copy_bucket(1) [OF copied(3) k(2)] remove_frame [OF copied(4)] by simp
  qed (use copy_bucket(1) k in auto)
next
  fix staged key b ok b' obj
  assume commit: "ro_commit (s3_ops C) staged key b = (ok, b')" and obj: "os_bucket b (st_TemporaryKey staged) = Some obj"
  from commit have "Commit C staged key b = (ok, b')" by (simp add: s3_ops_def)
  then show "os_bucket b' key = os_bucket b key \<or> os_bucket b' key = Some (obj\<lparr>obj_ContentType := st_ContentType staged\<rparr>)"
  proof (cases rule: commit_cases)
    case (copied b1)
    then have "key \<noteq> st_TemporaryKey staged" using valid_key_final temporary_not_final by blast
    then show ?thesis using copy_bucket(3) [OF copied(3) obj] remove_frame [OF copied(4)] by simp
  qed (use copy_bucket(2) obj in auto)
next
  fix staged key b b' obj
  assume commit: "ro_commit (s3_ops C) staged key b = (True, b')" and obj: "os_bucket b (st_TemporaryKey staged) = Some obj"
  from commit have "Commit C staged key b = (True, b')" by (simp add: s3_ops_def)
  then show "ValidateObjectKey key \<and> os_bucket b' key = Some (obj\<lparr>obj_ContentType := st_ContentType staged\<rparr>)"
  proof (cases rule: commit_cases)
    case (copied b1)
    then have "key \<noteq> st_TemporaryKey staged" using valid_key_final temporary_not_final by blast
    then show ?thesis using copied(2) copy_bucket(3) [OF copied(3) obj] remove_frame [OF copied(4)] by simp
  qed auto
next
  fix staged b ok b' k
  assume "ro_abort (s3_ops C) staged b = (ok, b')" "final_key k"
  then show "os_bucket b' k = os_bucket b k"
    using temporary_not_final remove_frame by (auto simp: s3_ops_def Abort_def split: if_split_asm) metis
qed

end
