(* ===== verification/Fetcher.thy ===== *)
theory Fetcher
  imports Fetch_Policy Advisory_Links Source_Registry Object_Store
begin

text \<open>
  The fetcher (\<open>src/internal/fetcher\<close>: \<open>fetcher.go\<close>, \<open>body.go\<close>, \<open>endpoint.go\<close>, \<open>release.go\<close>, \<open>transport.go\<close> and \<open>types.go\<close>): one conditional request of a source with
  bounded retries, under the destination policy and the limiter, whose body is limited, checked and stored under its content
  address. The environment answers the n-th interaction of a run as it likes: the clock, the limiter, the HTTP client,
  the sleep and the jitter are functions of the number of interactions so far. What was done is the trace of the state.
\<close>

section \<open>Data\<close>

datatype fetch_outcome = OutcomeStored | OutcomeMetadataOnly | OutcomeNotModified | OutcomeFailed

record fetch_endpoint =
  fn_ID :: string
  fn_SourceID :: string
  fn_URL :: string
  fn_AllowedHosts :: "string list"
  fn_ExpectedContentTypes :: "string list"
  fn_MaxBodyBytes :: int
  fn_ContentPolicy :: string

text \<open>The values the provider state of a checkpoint may hold.\<close>

datatype config_value = AnyString string | AnyInt int | AnyFloat float64 | AnyStrings "string list" | AnyList "config_value list" | AnyNil | AnyOther

record checkpoint =
  cp_Cursor :: string
  cp_ETag :: string
  cp_LastModified :: string
  cp_ProviderState :: "string \<Rightarrow> config_value option"

record fetch_attempt =
  at_AttemptedAt :: time
  at_CompletedAt :: time
  at_StatusCode :: int
  at_FinalURL :: string
  at_ContentType :: string
  at_CompressedBytes :: int
  at_Bytes :: int
  at_Duration :: duration
  at_ErrorCode :: "fetch_code option"
  at_RetryAfter :: time
  at_ETag :: string
  at_LastModified :: string

record fetch_result =
  fr_Outcome :: fetch_outcome
  fr_Attempts :: "fetch_attempt list"
  fr_Checkpoint :: checkpoint
  fr_NextPageURL :: string
  fr_ObjectKey :: string
  fr_SHA256 :: string
  fr_Bytes :: int

text \<open>An error is a \<open>FetchError\<close> or some other error.\<close>

datatype go_error = GoFetch fetch_error | GoPlain

record fetch_config =
  cf_UserAgent :: string
  cf_GitHubReadToken :: string
  cf_RetryAttempts :: int
  cf_BaseBackoff :: duration
  cf_MaximumRetryDelay :: duration
  cf_MaximumCompressionRatio :: int

record http_request =
  rq_URL :: string
  rq_UserAgent :: string
  rq_Accept :: string
  rq_AcceptEncoding :: string
  rq_Authorization :: "string option"
  rq_IfNoneMatch :: "string option"
  rq_IfModifiedSince :: "string option"

record http_response =
  rs_StatusCode :: int
  rs_URL :: string
  rs_Header :: "string \<Rightarrow> string list"
  rs_ContentLength :: int
  rs_Body :: string
  rs_BodyFails :: bool

record client_error =
  ce_Canceled :: bool
  ce_Fetch :: "fetch_error option"

text \<open>A probe is the request of a site's \<open>robots.txt\<close>.\<close>

datatype fetch_event = Acquired string | Released | Requested http_request | Slept duration | Probed http_request

record fetch_env =
  fe_lib :: evidence_lib
  fe_net :: net_lib
  fe_policy :: policy
  fe_url_string :: "parsed_url \<Rightarrow> string"
  fe_request_ok :: "string \<Rightarrow> bool"
  fe_now :: "nat \<Rightarrow> time"
  fe_jitter :: "nat \<Rightarrow> duration \<Rightarrow> duration"
  fe_sleep :: "nat \<Rightarrow> duration \<Rightarrow> bool"
  fe_acquire :: "nat \<Rightarrow> string \<Rightarrow> bool"
  fe_do :: "nat \<Rightarrow> http_request \<Rightarrow> client_error + http_response"
  fe_gunzip :: "string \<Rightarrow> bool \<Rightarrow> (string \<times> bool) option"
  fe_gunzip_read :: "string \<Rightarrow> nat \<Rightarrow> nat"
  fe_ParseTime :: "string \<Rightarrow> time option"
  fe_FormatTime :: "time \<Rightarrow> string"

record 's fetch_state =
  ft_step :: nat
  ft_store :: 's
  ft_trace :: "fetch_event list"

definition tick :: "'s fetch_state \<Rightarrow> 's fetch_state" where
  "tick s = s\<lparr>ft_step := ft_step s + 1\<rparr>"

definition emit :: "fetch_event \<Rightarrow> 's fetch_state \<Rightarrow> 's fetch_state" where
  "emit e s = s\<lparr>ft_step := ft_step s + 1, ft_trace := e # ft_trace s\<rparr>"

definition read_clock :: "fetch_env \<Rightarrow> 's fetch_state \<Rightarrow> time \<times> 's fetch_state" where
  "read_clock E s = (fe_now E (ft_step s), tick s)"

definition with_store :: "'s \<Rightarrow> 's fetch_state \<Rightarrow> 's fetch_state" where
  "with_store b s = s\<lparr>ft_store := b\<rparr>"

section \<open>Headers and errors\<close>

definition validHeaderValue :: "string \<Rightarrow> bool" where
  "validHeaderValue v = list_all (\<lambda>c. \<not> (byte c < 32 \<or> byte c = (127 :: nat))) v"

definition validBearerToken :: "string \<Rightarrow> bool" where
  "validBearerToken v \<longleftrightarrow> length v \<le> 4096 \<and> list_all (\<lambda>c. \<not> (byte c < 33 \<or> byte c > (126 :: nat))) v"

definition boundedHeader :: "string \<Rightarrow> string" where
  "boundedHeader raw = (if length raw > 1024 \<or> \<not> validHeaderValue raw then [] else trim_space raw)"

definition validLastModified :: "fetch_env \<Rightarrow> string \<Rightarrow> string" where
  "validLastModified E raw = (case fe_ParseTime E raw of None \<Rightarrow> [] | Some t \<Rightarrow> fe_FormatTime E t)"

definition firstNonEmpty :: "string \<Rightarrow> string \<Rightarrow> string" where
  "firstNonEmpty a b = (if a \<noteq> [] then a else b)"

text \<open>The seconds of \<open>Retry-After\<close> are multiplied in 64 bits.\<close>

definition parseRetryAfter :: "fetch_env \<Rightarrow> string \<Rightarrow> time \<Rightarrow> time" where
  "parseRetryAfter E raw now =
     (let trimmed = trim_space raw in
      case atoi trimmed of
        Some seconds \<Rightarrow>
          if 0 \<le> seconds then now + wrap64 (seconds * 1000000000)
          else (case fe_ParseTime E trimmed of Some t \<Rightarrow> if now < t then t else 0 | None \<Rightarrow> 0)
      | None \<Rightarrow> (case fe_ParseTime E trimmed of Some t \<Rightarrow> if now < t then t else 0 | None \<Rightarrow> 0))"

definition retryable :: "go_error \<Rightarrow> bool" where
  "retryable e = (case e of GoFetch f \<Rightarrow> err_Retryable f | GoPlain \<Rightarrow> False)"

definition retryableTransport :: "client_error \<Rightarrow> bool" where
  "retryableTransport e = (if ce_Canceled e then False else (case ce_Fetch e of Some f \<Rightarrow> err_Retryable f | None \<Rightarrow> True))"

definition errorCode :: "go_error \<Rightarrow> fetch_code \<Rightarrow> fetch_code" where
  "errorCode e fallback = (case e of GoFetch f \<Rightarrow> err_Code f | GoPlain \<Rightarrow> fallback)"

definition retryWaitError :: "go_error \<Rightarrow> go_error" where
  "retryWaitError e = (case e of GoFetch f \<Rightarrow> e | GoPlain \<Rightarrow> GoFetch \<lparr>err_Code = ErrorTransport, err_Retryable = True\<rparr>)"

definition newFetchError :: "fetch_code \<Rightarrow> bool \<Rightarrow> go_error" where
  "newFetchError code r = GoFetch \<lparr>err_Code = code, err_Retryable = r\<rparr>"

definition completedAttempt :: "time \<Rightarrow> time \<Rightarrow> int \<Rightarrow> fetch_attempt" where
  "completedAttempt started completed status =
     \<lparr>at_AttemptedAt = started, at_CompletedAt = completed, at_StatusCode = status, at_FinalURL = [], at_ContentType = [], at_CompressedBytes = 0,
      at_Bytes = 0, at_Duration = max 0 (time_sub completed started), at_ErrorCode = None, at_RetryAfter = 0, at_ETag = [], at_LastModified = []\<rparr>"

definition header_get :: "http_response \<Rightarrow> string \<Rightarrow> string" where
  "header_get r name = (case rs_Header r name of [] \<Rightarrow> [] | v # _ \<Rightarrow> v)"

section \<open>Configuration and endpoints\<close>

definition New_problem :: "fetch_config \<Rightarrow> string option" where
  "New_problem c =
     (if trim_space (cf_UserAgent c) = [] \<or> \<not> validHeaderValue (cf_UserAgent c) then Some ''a single-line contact-bearing user agent is required''
      else if cf_GitHubReadToken c \<noteq> [] \<and> \<not> validBearerToken (cf_GitHubReadToken c)
      then Some ''GitHub read token must be a bounded single-line bearer credential''
      else if cf_RetryAttempts c < 1 \<or> cf_RetryAttempts c > 5 then Some ''retry attempts must be between one and five''
      else if cf_BaseBackoff c \<le> 0 \<or> cf_MaximumRetryDelay c \<le> 0 \<or> cf_BaseBackoff c > cf_MaximumRetryDelay c
      then Some ''retry delays must be positive and ordered''
      else if cf_MaximumCompressionRatio c < 1 then Some ''maximum compression ratio must be positive''
      else None)"

definition DefaultConfig :: "string \<Rightarrow> fetch_config" where
  "DefaultConfig agent =
     \<lparr>cf_UserAgent = agent, cf_GitHubReadToken = [], cf_RetryAttempts = 5, cf_BaseBackoff = 500 * millisecond,
      cf_MaximumRetryDelay = 30 * 1000000000, cf_MaximumCompressionRatio = 100\<rparr>"

definition EndpointFromSource :: "(string \<Rightarrow> parsed_url option) \<Rightarrow> endpoint \<Rightarrow> fetch_endpoint option" where
  "EndpointFromSource parse src =
     (case parse (ep_URL src) of
        None \<Rightarrow> None
      | Some u \<Rightarrow>
          if fst (split_host_port (pu_Host u)) = [] then None
          else Some \<lparr>fn_ID = ep_ID src, fn_SourceID = ep_SourceID src, fn_URL = ep_URL src, fn_AllowedHosts = [fst (split_host_port (pu_Host u))],
                     fn_ExpectedContentTypes = ep_ExpectedContentTypes src, fn_MaxBodyBytes = ep_MaxResponseBytes src,
                     fn_ContentPolicy = ep_ContentLicense src\<rparr>)"

definition isGlobalReviewedAdvisoryEndpoint :: "fetch_endpoint \<Rightarrow> bool" where
  "isGlobalReviewedAdvisoryEndpoint e \<longleftrightarrow> fn_ID e = ''github-global-advisories'' \<and> fn_SourceID e = ''github-global-advisories''"

definition validateEndpoint :: "fetch_env \<Rightarrow> fetch_endpoint \<Rightarrow> go_error option" where
  "validateEndpoint E e =
     (if fn_ID e = [] \<or> fn_SourceID e = [] \<or> fn_URL e = [] then Some (newFetchError ErrorInvalidURL False)
      else if fn_ExpectedContentTypes e = [] \<or> fn_MaxBodyBytes e \<le> 0 then Some (newFetchError ErrorInvalidURL False)
      else if fn_ContentPolicy e \<noteq> ''link-and-excerpt'' \<and> fn_ContentPolicy e \<noteq> ''metadata-only'' then Some (newFetchError ErrorInvalidURL False)
      else if (fn_ID e = ''github-global-advisories'' \<or> fn_SourceID e = ''github-global-advisories'')
        \<and> (\<not> isGlobalReviewedAdvisoryEndpoint e \<or> \<not> IsGlobalAdvisoryPageURL (fe_lib E) (fn_URL e) \<or> fn_ContentPolicy e \<noteq> ''link-and-excerpt'')
      then Some (newFetchError ErrorInvalidURL False)
      else None)"

definition target_of :: "parsed_url \<Rightarrow> target_url" where
  "target_of u =
     \<lparr>turl_Scheme = pu_Scheme u, turl_Opaque = pu_Opaque u, turl_Host = pu_Host u, turl_Hostname = fst (split_host_port (pu_Host u)),
      turl_Port = snd (split_host_port (pu_Host u)), turl_HasUser = pu_HasUser u, turl_Fragment = pu_Fragment u\<rparr>"

definition githubRESTURL :: "evidence_lib \<Rightarrow> parsed_url \<Rightarrow> bool" where
  "githubRESTURL L u \<longleftrightarrow>
     pu_Scheme u = ''https'' \<and> lib_equal_fold L (fst (split_host_port (pu_Host u))) ''api.github.com''
     \<and> (snd (split_host_port (pu_Host u)) = [] \<or> snd (split_host_port (pu_Host u)) = ''443'') \<and> \<not> pu_HasUser u"

definition allowedContentType :: "evidence_lib \<Rightarrow> string \<Rightarrow> string list \<Rightarrow> bool" where
  "allowedContentType L actual expected =
     (case lib_media_type L actual of
        None \<Rightarrow> False
      | Some m \<Rightarrow> list_ex (\<lambda>c. case lib_media_type L c of None \<Rightarrow> False | Some n \<Rightarrow> lib_equal_fold L m n) expected)"

section \<open>The request\<close>

definition build_request :: "fetch_env \<Rightarrow> fetch_config \<Rightarrow> fetch_endpoint \<Rightarrow> parsed_url \<Rightarrow> checkpoint \<Rightarrow> http_request" where
  "build_request E c e u cp =
     \<lparr>rq_URL = fe_url_string E u, rq_UserAgent = cf_UserAgent c, rq_Accept = join '', '' (fn_ExpectedContentTypes e), rq_AcceptEncoding = ''gzip'',
      rq_Authorization = (if cf_GitHubReadToken c \<noteq> [] \<and> githubRESTURL (fe_lib E) u then Some (''Bearer '' @ cf_GitHubReadToken c) else None),
      rq_IfNoneMatch = (if boundedHeader (cp_ETag cp) \<noteq> [] then Some (boundedHeader (cp_ETag cp)) else None),
      rq_IfModifiedSince = (if cp_LastModified cp \<noteq> [] then map_option (fe_FormatTime E) (fe_ParseTime E (cp_LastModified cp)) else None)\<rparr>"

definition response_attempt :: "fetch_env \<Rightarrow> time \<Rightarrow> time \<Rightarrow> http_response \<Rightarrow> fetch_attempt" where
  "response_attempt E attemptedAt completedAt r =
     (completedAttempt attemptedAt completedAt (rs_StatusCode r))
       \<lparr>at_FinalURL := rs_URL r, at_ContentType := header_get r ''Content-Type'', at_ETag := boundedHeader (header_get r ''ETag''),
        at_LastModified := validLastModified E (header_get r ''Last-Modified''),
        at_RetryAfter := parseRetryAfter E (header_get r ''Retry-After'') completedAt\<rparr>"

definition failed_attempt :: "fetch_code \<Rightarrow> fetch_attempt \<Rightarrow> fetch_attempt" where
  "failed_attempt code a = a\<lparr>at_ErrorCode := Some code\<rparr>"

definition target_host :: "fetch_env \<Rightarrow> parsed_url \<Rightarrow> string" where
  "target_host E u = net_ToLower (fe_net E) (fst (split_host_port (pu_Host u)))"

text \<open>With a response the slot stays taken until its body is closed.\<close>

definition request ::
    "fetch_env \<Rightarrow> fetch_config \<Rightarrow> fetch_endpoint \<Rightarrow> parsed_url \<Rightarrow> checkpoint \<Rightarrow> 's fetch_state \<Rightarrow> fetch_attempt \<times> (go_error + http_response) \<times> 's fetch_state" where
  "request E c e u cp s0 =
     (let (attemptedAt, s1) = read_clock E s0 in
      if \<not> fe_acquire E (ft_step s1) (target_host E u) then
        (let (completed, s2) = read_clock E (tick s1) in
         (failed_attempt ErrorTransport (completedAttempt attemptedAt completed 0), Inl (newFetchError ErrorTransport True), s2))
      else
        (let s2 = emit (Acquired (target_host E u)) s1 in
         if \<not> fe_request_ok E (fe_url_string E u) then
           (let (completed, s3) = read_clock E (emit Released s2) in
            (failed_attempt ErrorInvalidURL (completedAttempt attemptedAt completed 0), Inl (newFetchError ErrorInvalidURL False), s3))
         else
           (let rq = build_request E c e u cp;
                answer = fe_do E (ft_step s2) rq;
                (completedAt, s3) = read_clock E (emit (Requested rq) s2) in
            (case answer of
               Inl ce \<Rightarrow>
                 (let code = (case ce_Fetch ce of Some f \<Rightarrow> err_Code f | None \<Rightarrow> ErrorTransport) in
                  (failed_attempt code (completedAttempt attemptedAt completedAt 0), Inl (newFetchError code (retryableTransport ce)), emit Released s3))
             | Inr r \<Rightarrow> (response_attempt E attemptedAt completedAt r, Inr r, s3)))))"

section \<open>The body\<close>

record body_stream =
  bs_content :: string
  bs_fails :: bool
  bs_compressed :: int

text \<open>
  Both limits allow one byte more than the maximum. A reader fails only when it gets to the failing end of its input
  before its limit.
\<close>

definition decodeBody :: "fetch_env \<Rightarrow> http_response \<Rightarrow> int \<Rightarrow> go_error + body_stream" where
  "decodeBody E r maximum =
     (if maximum \<le> 0 then Inl GoPlain
      else
        (let limit = nat (wrap64 (maximum + 1));
             limited = take limit (rs_Body r);
             fails = (rs_BodyFails r \<and> length (rs_Body r) < limit);
             encoding = net_ToLower (fe_net E) (trim_space (header_get r ''Content-Encoding'')) in
         if encoding = [] \<or> encoding = ''identity'' then Inr \<lparr>bs_content = limited, bs_fails = fails, bs_compressed = int (length limited)\<rparr>
         else if encoding = ''gzip'' then
           (case fe_gunzip E limited fails of
              None \<Rightarrow> Inl GoPlain
            | Some (content, broken) \<Rightarrow>
                Inr \<lparr>bs_content = take limit content, bs_fails = (broken \<and> length content < limit),
                     bs_compressed = int (min (length limited) (fe_gunzip_read E limited limit))\<rparr>)
         else Inl (newFetchError ErrorUnsupportedEncoding False)))"

definition validateBodySize :: "fetch_config \<Rightarrow> int \<Rightarrow> int \<Rightarrow> int \<Rightarrow> go_error option" where
  "validateBodySize c decompressed compressed maximum =
     (if compressed > maximum then Some (newFetchError ErrorCompressedTooLarge False)
      else if decompressed > maximum then Some (newFetchError ErrorBodyTooLarge False)
      else if compressed > 0 \<and> decompressed > wrap64 (compressed * cf_MaximumCompressionRatio c) then Some (newFetchError ErrorCompressionRatio False)
      else None)"

section \<open>The response\<close>

record processed_response =
  pr_attempt :: fetch_attempt
  pr_outcome :: fetch_outcome
  pr_checkpoint :: checkpoint
  pr_nextPageURL :: string
  pr_objectKey :: string
  pr_digest :: string
  pr_bytes :: int

datatype 'a early = Return processed_response "go_error option" | Continue 'a

definition fail_response :: "processed_response \<Rightarrow> fetch_code \<Rightarrow> go_error \<Rightarrow> processed_response \<times> go_error option" where
  "fail_response p code e = (p\<lparr>pr_attempt := failed_attempt code (pr_attempt p)\<rparr>, Some e)"

definition return_failed :: "processed_response \<Rightarrow> fetch_code \<Rightarrow> bool \<Rightarrow> 'a early" where
  "return_failed p code r = (case fail_response p code (newFetchError code r) of (q, err) \<Rightarrow> Return q err)"

definition initial_response :: "checkpoint \<Rightarrow> fetch_attempt \<Rightarrow> processed_response" where
  "initial_response prior a =
     \<lparr>pr_attempt = a, pr_outcome = OutcomeFailed,
      pr_checkpoint = prior\<lparr>cp_ETag := firstNonEmpty (at_ETag a) (cp_ETag prior), cp_LastModified := firstNonEmpty (at_LastModified a) (cp_LastModified prior)\<rparr>,
      pr_nextPageURL = [], pr_objectKey = [], pr_digest = replicate 32 (CHR 0x00), pr_bytes = 0\<rparr>"

definition next_page :: "fetch_env \<Rightarrow> fetch_endpoint \<Rightarrow> http_response \<Rightarrow> string option" where
  "next_page E e r = GlobalAdvisoryNextPage (fe_lib E) (fn_URL e) (join '','' (rs_Header r ''Link''))"

definition check_page :: "fetch_env \<Rightarrow> fetch_endpoint \<Rightarrow> http_response \<Rightarrow> processed_response \<Rightarrow> processed_response early" where
  "check_page E e r p =
     (if \<not> isGlobalReviewedAdvisoryEndpoint e then Continue p
      else if rs_StatusCode r \<noteq> 200 then return_failed p ErrorUnexpectedStatus False
      else (case next_page E e r of
              None \<Rightarrow> return_failed p ErrorInvalidPaginationLink False
            | Some url \<Rightarrow> Continue (p\<lparr>pr_nextPageURL := url\<rparr>)))"

definition check_response :: "fetch_env \<Rightarrow> fetch_endpoint \<Rightarrow> http_response \<Rightarrow> processed_response \<Rightarrow> (processed_response \<times> body_stream) early" where
  "check_response E e r p =
     (if isGlobalReviewedAdvisoryEndpoint e \<and> at_FinalURL (pr_attempt p) \<noteq> fn_URL e then return_failed p ErrorInvalidPaginationLink False
      else if rs_StatusCode r = 304 then Return (p\<lparr>pr_outcome := OutcomeNotModified\<rparr>) None
      else if rs_StatusCode r < 200 \<or> rs_StatusCode r \<ge> 300
      then return_failed p ErrorUnexpectedStatus (rs_StatusCode r = 429 \<or> rs_StatusCode r \<ge> 500)
      else (case check_page E e r p of
        Return q err \<Rightarrow> Return q err
      | Continue q \<Rightarrow>
          if \<not> allowedContentType (fe_lib E) (at_ContentType (pr_attempt q)) (fn_ExpectedContentTypes e) then return_failed q ErrorContentType False
          else if rs_ContentLength r > fn_MaxBodyBytes e then return_failed q ErrorCompressedTooLarge False
          else (case decodeBody E r (fn_MaxBodyBytes e) of
                  Inl err \<Rightarrow> (case fail_response q (errorCode err ErrorUnsupportedEncoding) err of (q', err') \<Rightarrow> Return q' err')
                | Inr body \<Rightarrow> Continue (q, body))))"

text \<open>The last check of the size is the same for both kinds of content.\<close>

definition finish_body :: "fetch_config \<Rightarrow> fetch_endpoint \<Rightarrow> processed_response \<Rightarrow> body_stream \<Rightarrow> processed_response \<times> go_error option" where
  "finish_body c e p body =
     (case validateBodySize c (pr_bytes p) (bs_compressed body) (fn_MaxBodyBytes e) of
        Some err \<Rightarrow> fail_response p (errorCode err ErrorBodyTooLarge) err
      | None \<Rightarrow> (p\<lparr>pr_attempt := (pr_attempt p)\<lparr>at_CompressedBytes := bs_compressed body, at_Bytes := pr_bytes p\<rparr>\<rparr>, None))"

definition hash_body :: "fetch_env \<Rightarrow> fetch_config \<Rightarrow> fetch_endpoint \<Rightarrow> processed_response \<Rightarrow> body_stream \<Rightarrow> processed_response \<times> go_error option" where
  "hash_body E c e p body =
     (let q = p\<lparr>pr_outcome := OutcomeMetadataOnly, pr_bytes := int (length (bs_content body)),
                pr_digest := (if bs_fails body then replicate 32 (CHR 0x00) else lib_sha256 (fe_lib E) (bs_content body))\<rparr> in
      if bs_fails body then fail_response q ErrorTransport (newFetchError ErrorTransport True)
      else finish_body c e q body)"

definition fetch_key :: "fetch_env \<Rightarrow> fetch_endpoint \<Rightarrow> fetch_attempt \<Rightarrow> string \<Rightarrow> string option" where
  "fetch_key E e a digest =
     RawFetchObjectKey (fe_lib E) (fn_SourceID e) (fn_ID e) (at_FinalURL a) (at_AttemptedAt a) digest (at_ContentType a)"

definition store_body ::
    "fetch_env \<Rightarrow> fetch_config \<Rightarrow> 's raw_ops \<Rightarrow> fetch_endpoint \<Rightarrow> processed_response \<Rightarrow> body_stream \<Rightarrow> 's \<Rightarrow> (processed_response \<times> go_error option) \<times> 's" where
  "store_body E c R e p body b =
     (let a = pr_attempt p in
      case ro_stage R (at_ContentType a) (bs_content body) (bs_fails body) b of
        (None, b1) \<Rightarrow> (fail_response p ErrorObjectStorage (newFetchError ErrorObjectStorage True), b1)
      | (Some staged, b1) \<Rightarrow>
          (let q = p\<lparr>pr_digest := st_SHA256 staged, pr_bytes := st_Bytes staged\<rparr> in
           case validateBodySize c (st_Bytes staged) (bs_compressed body) (fn_MaxBodyBytes e) of
             Some err \<Rightarrow> (fail_response q (errorCode err ErrorBodyTooLarge) err, snd (ro_abort R staged b1))
           | None \<Rightarrow>
               (case fetch_key E e a (st_SHA256 staged) of
                  None \<Rightarrow> (fail_response q ErrorObjectStorage (newFetchError ErrorObjectStorage False), snd (ro_abort R staged b1))
                | Some key \<Rightarrow>
                    (case ro_commit R staged key b1 of
                       (False, b2) \<Rightarrow> (fail_response q ErrorObjectStorage (newFetchError ErrorObjectStorage True), snd (ro_abort R staged b2))
                     | (True, b2) \<Rightarrow> (finish_body c e (q\<lparr>pr_objectKey := key, pr_outcome := OutcomeStored\<rparr>) body, b2)))))"

definition process_body ::
    "fetch_env \<Rightarrow> fetch_config \<Rightarrow> 's raw_ops \<Rightarrow> fetch_endpoint \<Rightarrow> checkpoint \<Rightarrow> http_response \<Rightarrow> fetch_attempt \<Rightarrow> 's \<Rightarrow> (processed_response \<times> go_error option) \<times> 's" where
  "process_body E c R e prior r a b =
     (case check_response E e r (initial_response prior a) of
        Return p err \<Rightarrow> ((p, err), b)
      | Continue (p, body) \<Rightarrow>
          if fn_ContentPolicy e = ''metadata-only'' then (hash_body E c e p body, b) else store_body E c R e p body b)"

definition stamp :: "time \<Rightarrow> fetch_attempt \<Rightarrow> fetch_attempt" where
  "stamp t a = a\<lparr>at_CompletedAt := t, at_Duration := max 0 (time_sub t (at_AttemptedAt a))\<rparr>"

text \<open>The deferred calls read the clock and close the body, which releases the slot.\<close>

definition processResponse ::
    "fetch_env \<Rightarrow> fetch_config \<Rightarrow> 's raw_ops \<Rightarrow> fetch_endpoint \<Rightarrow> checkpoint \<Rightarrow> http_response \<Rightarrow> fetch_attempt \<Rightarrow> 's fetch_state
      \<Rightarrow> processed_response \<times> go_error option \<times> 's fetch_state" where
  "processResponse E c R e prior r a s =
     (let ((p, err), b) = process_body E c R e prior r a (ft_store s);
          (completedAt, s1) = read_clock E (with_store b s) in
      (p\<lparr>pr_attempt := stamp completedAt (pr_attempt p)\<rparr>, err, emit Released s1))"

section \<open>Retries\<close>

definition half_of :: "duration \<Rightarrow> duration" where
  "half_of d = (if 0 \<le> d then d div 2 else - ((- d) div 2))"

definition retry_delay_of :: "fetch_env \<Rightarrow> fetch_config \<Rightarrow> nat \<Rightarrow> time \<Rightarrow> time \<Rightarrow> nat \<Rightarrow> duration" where
  "retry_delay_of E c attempt retryAfter now step =
     (let delay = wrap64 (2 ^ (attempt - 1) * cf_BaseBackoff c) in
      if now < retryAfter then time_sub retryAfter now else wrap64 (delay + fe_jitter E step (half_of delay)))"

definition waitToRetry :: "fetch_env \<Rightarrow> fetch_config \<Rightarrow> nat \<Rightarrow> time \<Rightarrow> 's fetch_state \<Rightarrow> go_error option \<times> 's fetch_state" where
  "waitToRetry E c attempt retryAfter s =
     (let (now, s1) = read_clock E s;
          delay = retry_delay_of E c attempt retryAfter now (ft_step s1) in
      if delay > cf_MaximumRetryDelay c then (Some (newFetchError ErrorUnexpectedStatus True), tick s1)
      else (if fe_sleep E (ft_step s1) delay then None else Some GoPlain, emit (Slept delay) s1))"

definition finish_result :: "fetch_result \<Rightarrow> processed_response \<Rightarrow> fetch_result" where
  "finish_result result p =
     result\<lparr>fr_Outcome := pr_outcome p, fr_Checkpoint := pr_checkpoint p, fr_NextPageURL := pr_nextPageURL p, fr_ObjectKey := pr_objectKey p,
            fr_SHA256 := pr_digest p, fr_Bytes := pr_bytes p\<rparr>"

definition add_attempt :: "fetch_attempt \<Rightarrow> fetch_result \<Rightarrow> fetch_result" where
  "add_attempt a result = result\<lparr>fr_Attempts := fr_Attempts result @ [a]\<rparr>"

definition attempt_once ::
    "fetch_env \<Rightarrow> fetch_config \<Rightarrow> 's raw_ops \<Rightarrow> fetch_endpoint \<Rightarrow> parsed_url \<Rightarrow> checkpoint \<Rightarrow> 's fetch_state
      \<Rightarrow> processed_response \<times> go_error option \<times> 's fetch_state" where
  "attempt_once E c R e u cp s =
     (case request E c e u cp s of
        (attempt, Inl requestErr, s1) \<Rightarrow> (initial_response cp attempt, Some requestErr, s1)
      | (attempt, Inr r, s1) \<Rightarrow> processResponse E c R e cp r attempt s1)"

text \<open>The loop, with the number of attempts that are left after the current one.\<close>

fun fetch_loop ::
    "fetch_env \<Rightarrow> fetch_config \<Rightarrow> 's raw_ops \<Rightarrow> fetch_endpoint \<Rightarrow> parsed_url \<Rightarrow> checkpoint \<Rightarrow> nat \<Rightarrow> nat \<Rightarrow> fetch_result \<Rightarrow> 's fetch_state
      \<Rightarrow> fetch_result \<times> go_error option \<times> 's fetch_state" where
  "fetch_loop E c R e u cp attemptNumber left result s =
     (case attempt_once E c R e u cp s of
        (processed, None, s2) \<Rightarrow> (finish_result (add_attempt (pr_attempt processed) result) processed, None, s2)
      | (processed, Some failure, s2) \<Rightarrow>
          (let result1 = add_attempt (pr_attempt processed) result in
           if \<not> retryable failure \<or> left = 0 then (result1, Some failure, s2)
           else (case waitToRetry E c attemptNumber (at_RetryAfter (pr_attempt processed)) s2 of
                   (Some waitErr, s3) \<Rightarrow> (result1, Some (retryWaitError waitErr), s3)
                 | (None, s3) \<Rightarrow> fetch_loop E c R e u cp (attemptNumber + 1) (left - 1) result1 s3)))"

declare fetch_loop.simps [simp del]

definition empty_checkpoint :: checkpoint where
  "empty_checkpoint = \<lparr>cp_Cursor = [], cp_ETag = [], cp_LastModified = [], cp_ProviderState = (\<lambda>k. None)\<rparr>"

definition failed_result :: "checkpoint \<Rightarrow> fetch_result" where
  "failed_result cp =
     \<lparr>fr_Outcome = OutcomeFailed, fr_Attempts = [], fr_Checkpoint = cp, fr_NextPageURL = [], fr_ObjectKey = [], fr_SHA256 = replicate 32 (CHR 0x00), fr_Bytes = 0\<rparr>"

definition Fetch ::
    "fetch_env \<Rightarrow> fetch_config \<Rightarrow> 's raw_ops \<Rightarrow> fetch_endpoint \<Rightarrow> checkpoint \<Rightarrow> 's fetch_state \<Rightarrow> fetch_result \<times> go_error option \<times> 's fetch_state" where
  "Fetch E c R e cp s =
     (case validateEndpoint E e of
        Some err \<Rightarrow> (failed_result empty_checkpoint, Some err, s)
      | None \<Rightarrow>
          (case lib_url (fe_lib E) (fn_URL e) of
             None \<Rightarrow> (failed_result empty_checkpoint, Some (newFetchError ErrorInvalidURL False), s)
           | Some u \<Rightarrow>
               (case withAllowedHosts (fe_net E) (fn_AllowedHosts e) of
                  None \<Rightarrow> (failed_result empty_checkpoint, Some (newFetchError ErrorInvalidURL False), s)
                | Some hosts \<Rightarrow>
                    (case ValidateURL (fe_net E) (fe_policy E) (Some hosts) (Some (target_of u)) of
                       Inl err \<Rightarrow> (failed_result empty_checkpoint, Some (GoFetch err), s)
                     | Inr _ \<Rightarrow>
                         (if cf_RetryAttempts c \<le> 0 then (failed_result cp, Some (newFetchError ErrorTransport True), s)
                          else fetch_loop E c R e u cp 1 (nat (cf_RetryAttempts c) - 1) (failed_result cp) s)))))"

section \<open>Slots and requests\<close>

text \<open>
  The life of the limiter's slot along a trace: requests are only sent while the slot is held, waiting is only
  done without it, and it is given back before it is taken again.
\<close>

fun slot_run :: "bool \<Rightarrow> fetch_event list \<Rightarrow> bool option" where
  "slot_run held [] = Some held"
| "slot_run held (Acquired h # evs) = (if held then None else slot_run True evs)"
| "slot_run held (Requested rq # evs) = (if held then slot_run held evs else None)"
| "slot_run held (Released # evs) = (if held then slot_run False evs else None)"
| "slot_run held (Slept d # evs) = (if held then None else slot_run held evs)"
| "slot_run held (Probed rq # evs) = (if held then None else slot_run held evs)"

lemma slot_run_append: "slot_run held (xs @ ys) = (case slot_run held xs of None \<Rightarrow> None | Some h \<Rightarrow> slot_run h ys)"
  by (induction held xs rule: slot_run.induct) auto

definition is_request :: "fetch_event \<Rightarrow> bool" where
  "is_request ev = (case ev of Requested _ \<Rightarrow> True | _ \<Rightarrow> False)"

text \<open>What one run may have added to the trace.\<close>

definition run_events :: "fetch_env \<Rightarrow> fetch_config \<Rightarrow> fetch_endpoint \<Rightarrow> parsed_url \<Rightarrow> checkpoint \<Rightarrow> nat \<Rightarrow> fetch_event list \<Rightarrow> bool" where
  "run_events E c e u cp requests evs \<longleftrightarrow>
     slot_run False (rev evs) = Some False \<and> length (filter is_request evs) \<le> requests
     \<and> (\<forall>rq. Requested rq \<in> set evs \<longrightarrow> rq = build_request E c e u cp)
     \<and> (\<forall>h. Acquired h \<in> set evs \<longrightarrow> h = target_host E u)
     \<and> (\<forall>d. Slept d \<in> set evs \<longrightarrow> d \<le> cf_MaximumRetryDelay c)"

lemma run_events_append:
  assumes "run_events E c e u cp m xs" "run_events E c e u cp n ys"
  shows "run_events E c e u cp (m + n) (ys @ xs)"
  using assms by (auto simp: run_events_def slot_run_append)

lemma fetch_trace_simps [simp]:
  "ft_trace (tick s) = ft_trace s" "ft_trace (emit ev s) = ev # ft_trace s" "ft_trace (with_store b s) = ft_trace s"
  "ft_store (tick s) = ft_store s" "ft_store (emit ev s) = ft_store s" "ft_store (with_store b s) = b"
  "read_clock E s = (fe_now E (ft_step s), tick s)"
  by (simp_all add: tick_def emit_def with_store_def read_clock_def)

lemma request_effect:
  assumes "request E c e u cp s = (a, answer, s')"
  shows "\<exists>evs. ft_trace s' = evs @ ft_trace s \<and> slot_run False (rev evs) = Some (\<not> isl answer) \<and> length (filter is_request evs) \<le> 1
    \<and> (\<forall>rq. Requested rq \<in> set evs \<longrightarrow> rq = build_request E c e u cp) \<and> (\<forall>d. Slept d \<notin> set evs)
    \<and> (\<forall>h. Acquired h \<in> set evs \<longrightarrow> h = target_host E u)"
    and "ft_store s' = ft_store s" and "\<exists>n. at_AttemptedAt a = fe_now E n"
  using assms by (auto simp: request_def Let_def is_request_def failed_attempt_def completedAttempt_def response_attempt_def split: if_split_asm sum.split_asm)

lemma processResponse_effect:
  assumes "processResponse E c R e prior r a s = (p, err, s')"
  shows "ft_trace s' = Released # ft_trace s"
    and "\<exists>q. process_body E c R e prior r a (ft_store s) = ((q, err), ft_store s') \<and> pr_outcome p = pr_outcome q \<and> pr_checkpoint p = pr_checkpoint q
      \<and> pr_nextPageURL p = pr_nextPageURL q \<and> pr_objectKey p = pr_objectKey q \<and> pr_digest p = pr_digest q \<and> pr_bytes p = pr_bytes q
      \<and> at_CompressedBytes (pr_attempt p) = at_CompressedBytes (pr_attempt q)"
  using assms by (auto simp: processResponse_def stamp_def split: prod.split_asm)

lemma attempt_once_trace:
  assumes "attempt_once E c R e u cp s = (p, err, s')"
  shows "\<exists>evs. ft_trace s' = evs @ ft_trace s \<and> run_events E c e u cp 1 evs"
proof -
  obtain a answer s1 where rq: "request E c e u cp s = (a, answer, s1)" by (metis prod_cases3)
  from request_effect(1) [OF rq] obtain evs where evs: "ft_trace s1 = evs @ ft_trace s" "slot_run False (rev evs) = Some (\<not> isl answer)"
      "length (filter is_request evs) \<le> 1" "\<And>rq. Requested rq \<in> set evs \<Longrightarrow> rq = build_request E c e u cp" "\<And>d. Slept d \<notin> set evs"
      "\<And>h. Acquired h \<in> set evs \<Longrightarrow> h = target_host E u" by blast
  show ?thesis
  proof (cases answer)
    case (Inl x)
    then show ?thesis using assms rq evs by (auto simp: attempt_once_def run_events_def)
  next
    case (Inr r)
    then have "ft_trace s' = Released # evs @ ft_trace s" using assms rq evs(1) processResponse_effect(1) by (fastforce simp: attempt_once_def)
    moreover have "run_events E c e u cp 1 (Released # evs)" using evs Inr by (auto simp: run_events_def slot_run_append is_request_def)
    ultimately show ?thesis by (metis append_Cons)
  qed
qed

lemma waitToRetry_effect:
  assumes "waitToRetry E c n t s = (err, s')"
  shows "\<exists>evs. ft_trace s' = evs @ ft_trace s \<and> run_events E c e u cp 0 evs" and "ft_store s' = ft_store s"
  using assms by (auto simp: waitToRetry_def Let_def run_events_def is_request_def split: if_split_asm)

lemma fetch_loop_trace:
  assumes "fetch_loop E c R e u cp n left result s = (r, err, s')"
  shows "\<exists>evs. ft_trace s' = evs @ ft_trace s \<and> run_events E c e u cp (left + 1) evs"
  using assms
proof (induction E c R e u cp n left result s arbitrary: r err s' rule: fetch_loop.induct)
  case (1 E c R e u cp n left result s)
  obtain p err1 s2 where once: "attempt_once E c R e u cp s = (p, err1, s2)" by (metis prod_cases3)
  from attempt_once_trace [OF once] obtain evs where evs: "ft_trace s2 = evs @ ft_trace s" "run_events E c e u cp 1 evs" by blast
  have mono: "run_events E c e u cp (left + 1) evs" using evs(2) by (simp add: run_events_def)
  show ?case
  proof (cases "s' = s2")
    case True
    then show ?thesis using evs(1) mono by blast
  next
    case False
    with 1(2) once obtain failure where f: "err1 = Some failure" "retryable failure" "left \<noteq> 0"
      by (subst (asm) fetch_loop.simps) (auto simp: Let_def split: option.split_asm if_split_asm)
    obtain werr s3 where wait: "waitToRetry E c n (at_RetryAfter (pr_attempt p)) s2 = (werr, s3)" by fastforce
    from waitToRetry_effect(1) [OF wait] obtain evs2 where evs2: "ft_trace s3 = evs2 @ ft_trace s2" "run_events E c e u cp 0 evs2" by blast
    have two: "run_events E c e u cp 1 (evs2 @ evs)" using run_events_append [OF evs(2) evs2(2)] by simp
    show ?thesis
    proof (cases werr)
      case (Some w)
      then have "s' = s3" using 1(2) once f wait by (subst (asm) fetch_loop.simps) (simp add: Let_def)
      moreover have "run_events E c e u cp (left + 1) (evs2 @ evs)" using two by (simp add: run_events_def)
      ultimately show ?thesis using evs(1) evs2(1) by (metis append.assoc)
    next
      case None
      then have "fetch_loop E c R e u cp (n + 1) (left - 1) (add_attempt (pr_attempt p) result) s3 = (r, err, s')"
        using 1(2) once f wait by (subst (asm) fetch_loop.simps) (simp add: Let_def)
      from 1(1) [OF once [symmetric] refl f(1) refl _ wait [symmetric] None this] f obtain evs3 where
          "ft_trace s' = evs3 @ ft_trace s3" "run_events E c e u cp (left - 1 + 1) evs3" by auto
      moreover from run_events_append [OF two this(2)] f(3) have "run_events E c e u cp (left + 1) (evs3 @ evs2 @ evs)" by simp
      ultimately show ?thesis using evs(1) evs2(1) by (metis append.assoc)
    qed
  qed
qed

section \<open>Results\<close>

lemma result_simps [simp]:
  "fr_Outcome (add_attempt a r) = fr_Outcome r" "fr_Checkpoint (add_attempt a r) = fr_Checkpoint r" "fr_Attempts (add_attempt a r) = fr_Attempts r @ [a]"
  "fr_Attempts (finish_result r p) = fr_Attempts r"
  by (simp_all add: add_attempt_def finish_result_def)

text \<open>A successful loop ends with a successful attempt; a failed one keeps outcome and checkpoint. Invariants of the store are kept.\<close>

definition loop_ends ::
    "fetch_env \<Rightarrow> fetch_config \<Rightarrow> 's raw_ops \<Rightarrow> fetch_endpoint \<Rightarrow> parsed_url \<Rightarrow> checkpoint \<Rightarrow> ('s \<Rightarrow> bool) \<Rightarrow> nat \<Rightarrow> fetch_result \<Rightarrow> fetch_result \<Rightarrow> go_error option \<Rightarrow> 's fetch_state \<Rightarrow> bool" where
  "loop_ends E c R e u cp I left result r err s' \<longleftrightarrow>
     I (ft_store s') \<and> length (fr_Attempts r) \<le> length (fr_Attempts result) + left + 1 \<and> fr_Attempts r \<noteq> []
     \<and> (err = None \<longrightarrow> (\<exists>s0 p res. I (ft_store s0) \<and> attempt_once E c R e u cp s0 = (p, None, s') \<and> r = finish_result (add_attempt (pr_attempt p) res) p))
     \<and> (err \<noteq> None \<longrightarrow> fr_Outcome r = fr_Outcome result \<and> fr_Checkpoint r = fr_Checkpoint result)"

lemma fetch_loop_ends:
  assumes "\<And>s p err s2. I (ft_store s) \<Longrightarrow> attempt_once E c R e u cp s = (p, err, s2) \<Longrightarrow> I (ft_store s2)"
    and "I (ft_store s)" "fetch_loop E c R e u cp n left result s = (r, err, s')"
  shows "loop_ends E c R e u cp I left result r err s'"
  using assms
proof (induction E c R e u cp n left result s arbitrary: r err s' rule: fetch_loop.induct)
  case (1 E c R e u cp n left result s)
  obtain p err1 s2 where once: "attempt_once E c R e u cp s = (p, err1, s2)" by (metis prod_cases3)
  have inv: "I (ft_store s2)" using 1(2) [OF 1(3) once] .
  obtain werr s3 where wait: "waitToRetry E c n (at_RetryAfter (pr_attempt p)) s2 = (werr, s3)" by fastforce
  have inv3: "I (ft_store s3)" using inv waitToRetry_effect(2) [OF wait] by simp
  note loop = 1(4) [unfolded fetch_loop.simps [of E c R e u cp n left result s] once, simplified Let_def wait]
  show ?case
  proof (cases "\<exists>failure. err1 = Some failure \<and> retryable failure \<and> left \<noteq> 0 \<and> werr = None")
    case False
    then show ?thesis using loop wait inv inv3 once 1(3)
      by (auto simp: loop_ends_def split: option.split_asm if_split_asm)
  next
    case True
    then obtain failure where f: "err1 = Some failure" "retryable failure" "left \<noteq> 0" "werr = None" by blast
    then have rec: "fetch_loop E c R e u cp (n + 1) (left - 1) (add_attempt (pr_attempt p) result) s3 = (r, err, s')"
      using loop wait by simp
    have "\<not> (\<not> retryable failure \<or> left = 0)" using f by simp
    from 1(1) [OF once [symmetric] refl f(1) refl this wait [symmetric] f(4) 1(2) inv3 rec]
    show ?thesis using f(3) unfolding loop_ends_def by auto
  qed
qed

text \<open>The failures before the first attempt.\<close>

text \<open>A fetch goes to the network only for an endpoint that is valid, whose URL and hosts can be read and whose destination the policy accepts.\<close>

definition admissible :: "fetch_env \<Rightarrow> fetch_endpoint \<Rightarrow> bool" where
  "admissible E e \<longleftrightarrow>
     validateEndpoint E e = None
     \<and> (\<exists>u hosts t. lib_url (fe_lib E) (fn_URL e) = Some u \<and> withAllowedHosts (fe_net E) (fn_AllowedHosts e) = Some hosts
          \<and> ValidateURL (fe_net E) (fe_policy E) (Some hosts) (Some (target_of u)) = Inr t)"

lemma Fetch_cases:
  assumes "Fetch E c R e cp s = (r, err, s')"
  obtains (refused) err1 where "err = Some err1" "s' = s" "r = failed_result (if admissible E e then cp else empty_checkpoint)"
        "\<not> admissible E e \<or> cf_RetryAttempts c \<le> 0"
    | (looped) u hosts where "validateEndpoint E e = None" "lib_url (fe_lib E) (fn_URL e) = Some u"
        "withAllowedHosts (fe_net E) (fn_AllowedHosts e) = Some hosts" "isl (ValidateURL (fe_net E) (fe_policy E) (Some hosts) (Some (target_of u))) = False"
        "0 < cf_RetryAttempts c" "fetch_loop E c R e u cp 1 (nat (cf_RetryAttempts c) - 1) (failed_result cp) s = (r, err, s')"
proof (cases "admissible E e")
  case True
  then obtain u hosts t where u: "validateEndpoint E e = None" "lib_url (fe_lib E) (fn_URL e) = Some u"
      "withAllowedHosts (fe_net E) (fn_AllowedHosts e) = Some hosts" "ValidateURL (fe_net E) (fe_policy E) (Some hosts) (Some (target_of u)) = Inr t"
    unfolding admissible_def by blast
  then have "isl (ValidateURL (fe_net E) (fe_policy E) (Some hosts) (Some (target_of u))) = False" by simp
  then have go: "\<not> cf_RetryAttempts c \<le> 0 \<Longrightarrow> thesis" using assms u looped [OF u(1-3)] by (simp add: Fetch_def)
  have "cf_RetryAttempts c \<le> 0 \<Longrightarrow> thesis" using assms u True refused [of "newFetchError ErrorTransport True"] by (simp add: Fetch_def)
  then show ?thesis using go by blast
next
  case False
  then obtain err1 where "err = Some err1" "s' = s" "r = failed_result empty_checkpoint"
  proof (cases "validateEndpoint E e")
    case None
    then show ?thesis using assms False that by (auto simp: Fetch_def admissible_def split: option.split_asm sum.split_asm)
  next
    case (Some err1)
    then have "err = Some err1" "s' = s" "r = failed_result empty_checkpoint" using assms by (simp_all add: Fetch_def)
    then show ?thesis by (rule that)
  qed
  then show ?thesis using False refused by simp
qed

section \<open>What is stored\<close>

text \<open>The accepted bodies: their type, their size and their compression ratio are within the limits.\<close>

definition body_accepted :: "fetch_env \<Rightarrow> fetch_config \<Rightarrow> fetch_endpoint \<Rightarrow> string \<Rightarrow> string \<Rightarrow> int \<Rightarrow> bool" where
  "body_accepted E c e contentType content compressed \<longleftrightarrow>
     allowedContentType (fe_lib E) contentType (fn_ExpectedContentTypes e) \<and> int (length content) \<le> fn_MaxBodyBytes e \<and> compressed \<le> fn_MaxBodyBytes e
     \<and> (0 < compressed \<longrightarrow> int (length content) \<le> wrap64 (compressed * cf_MaximumCompressionRatio c))"

lemma validateBodySize_None:
  "validateBodySize c d k m = None \<longleftrightarrow> k \<le> m \<and> d \<le> m \<and> (0 < k \<longrightarrow> d \<le> wrap64 (k * cf_MaximumCompressionRatio c))"
  by (auto simp: validateBodySize_def)

lemma early_simps [simp]:
  "return_failed p code r \<noteq> Continue x" "fail_response p code failure = (q, None) \<longleftrightarrow> False"
  "return_failed p code r = Return q err \<longleftrightarrow> q = p\<lparr>pr_attempt := failed_attempt code (pr_attempt p)\<rparr> \<and> err = Some (newFetchError code r)"
  by (auto simp: return_failed_def fail_response_def)

lemma check_page_keeps: "check_page E e r p = Continue q \<Longrightarrow> \<exists>url. q = p\<lparr>pr_nextPageURL := url\<rparr> \<and> (isGlobalReviewedAdvisoryEndpoint e \<longrightarrow> next_page E e r = Some url)"
  by (auto simp: check_page_def split: if_split_asm option.split_asm intro: exI [of _ "pr_nextPageURL q"])

lemma check_page_returns: "check_page E e r p = Return q err \<Longrightarrow> err \<noteq> None"
  by (auto simp: check_page_def split: if_split_asm option.split_asm)

lemma check_response_continue:
  assumes "check_response E e r p = Continue (q, body)"
  shows "\<exists>url. q = p\<lparr>pr_nextPageURL := url\<rparr>" "isGlobalReviewedAdvisoryEndpoint e \<Longrightarrow> next_page E e r = Some (pr_nextPageURL q)"
    "allowedContentType (fe_lib E) (at_ContentType (pr_attempt p)) (fn_ExpectedContentTypes e)" "decodeBody E r (fn_MaxBodyBytes e) = Inr body"
  using assms by (auto simp: check_response_def fail_response_def split: if_split_asm early.split_asm sum.split_asm dest!: check_page_keeps)

lemma check_response_return:
  assumes "check_response E e r p = Return q None"
  shows "q = p\<lparr>pr_outcome := OutcomeNotModified\<rparr> \<and> rs_StatusCode r = 304"
  using assms by (auto simp: check_response_def fail_response_def split: if_split_asm early.split_asm sum.split_asm dest!: check_page_returns)

lemma finish_body_None:
  assumes "finish_body c e p body = (q, None)"
  shows "validateBodySize c (pr_bytes p) (bs_compressed body) (fn_MaxBodyBytes e) = None"
    "q = p\<lparr>pr_attempt := (pr_attempt p)\<lparr>at_CompressedBytes := bs_compressed body, at_Bytes := pr_bytes p\<rparr>\<rparr>"
  using assms by (auto simp: finish_body_def split: option.split_asm)

context raw_store
begin

lemma store_body_None:
  assumes "store_body E c R e p body b = ((q, None), b')"
  shows "pr_outcome q = OutcomeStored \<and> pr_digest q = sha (bs_content body) \<and> pr_bytes q = int (length (bs_content body))
    \<and> fetch_key E e (pr_attempt p) (pr_digest q) = Some (pr_objectKey q) \<and> ValidateObjectKey (pr_objectKey q)
    \<and> pr_nextPageURL q = pr_nextPageURL p \<and> at_CompressedBytes (pr_attempt q) = bs_compressed body
    \<and> look b' (pr_objectKey q) = Some \<lparr>obj_Content = bs_content body, obj_ContentType = at_ContentType (pr_attempt p)\<rparr>
    \<and> validateBodySize c (pr_bytes q) (bs_compressed body) (fn_MaxBodyBytes e) = None
    \<and> (\<forall>k. final_key k \<longrightarrow> k \<noteq> pr_objectKey q \<longrightarrow> look b' k = look b k)"
proof -
  from assms obtain staged b1 key where steps: "ro_stage R (at_ContentType (pr_attempt p)) (bs_content body) (bs_fails body) b = (Some staged, b1)"
      "fetch_key E e (pr_attempt p) (st_SHA256 staged) = Some key" "ro_commit R staged key b1 = (True, b')"
      "finish_body c e (p\<lparr>pr_digest := st_SHA256 staged, pr_bytes := st_Bytes staged, pr_objectKey := key, pr_outcome := OutcomeStored\<rparr>) body = (q, None)"
    by (auto simp: store_body_def Let_def split: option.split_asm prod.split_asm bool.split_asm)
  show ?thesis
    using stage_ok [OF steps(1)] steps(2) staged_then_committed [OF steps(1,3)] finish_body_None [OF steps(4)] by simp
qed

text \<open>However it ends, storing changes nothing but the object under the content address of the body.\<close>

lemma store_body_frame:
  assumes "store_body E c R e p body b = (res, b')" "final_key k"
  shows "look b' k = look b k
    \<or> fetch_key E e (pr_attempt p) (sha (bs_content body)) = Some k \<and> look b' k = Some \<lparr>obj_Content = bs_content body, obj_ContentType = at_ContentType (pr_attempt p)\<rparr>"
proof -
  obtain st b1 where stage: "ro_stage R (at_ContentType (pr_attempt p)) (bs_content body) (bs_fails body) b = (st, b1)" by fastforce
  note frame1 = stage_frame [OF stage assms(2)]
  show ?thesis
  proof (cases st)
    case None
    then show ?thesis using assms(1) stage frame1 by (simp add: store_body_def Let_def)
  next
    case (Some staged)
    have aborted: "look (snd (ro_abort R staged b1)) k = look b k" using abort_frame [of staged b1 _ _ k] assms(2) frame1 by (metis prod.collapse)
    note sha = stage_ok [OF stage [unfolded Some]]
    show ?thesis
    proof (cases "validateBodySize c (st_Bytes staged) (bs_compressed body) (fn_MaxBodyBytes e) = None \<and> fetch_key E e (pr_attempt p) (st_SHA256 staged) \<noteq> None")
      case False
      then show ?thesis using assms(1) stage Some aborted by (auto simp: store_body_def Let_def split: option.split_asm)
    next
      case True
      then obtain key where key: "fetch_key E e (pr_attempt p) (st_SHA256 staged) = Some key" by blast
      obtain ok b2 where commit: "ro_commit R staged key b1 = (ok, b2)" by fastforce
      obtain ok3 b3 where abort: "ro_abort R staged b2 = (ok3, b3)" by fastforce
      have b': "b' = (if ok then b2 else b3)"
        using assms(1) stage Some True key commit abort by (auto simp: store_body_def Let_def split: option.split_asm bool.split_asm if_split)
      show ?thesis
      proof (cases ok)
        case True
        then have "ro_commit R staged key b1 = (True, b2)" using commit by simp
        from staged_then_committed [OF stage [unfolded Some] this] show ?thesis using True assms(2) b' key sha by auto
      next
        case False
        then have "ro_commit R staged key b1 = (False, b2)" using commit by simp
        from staged_then_not_committed [OF stage [unfolded Some] this abort assms(2)] show ?thesis using False b' key sha by auto
      qed
    qed
  qed
qed

end

text \<open>The ends of one attempt without an error.\<close>

definition attempt_stored ::
    "fetch_env \<Rightarrow> fetch_config \<Rightarrow> fetch_endpoint \<Rightarrow> (string \<Rightarrow> string) \<Rightarrow> (string \<Rightarrow> stored_object option) \<Rightarrow> processed_response \<Rightarrow> bool" where
  "attempt_stored E c e sha bucket p \<longleftrightarrow>
     (\<exists>obj. bucket (pr_objectKey p) = Some obj \<and> ValidateObjectKey (pr_objectKey p) \<and> pr_digest p = sha (obj_Content obj)
        \<and> pr_bytes p = int (length (obj_Content obj)) \<and> body_accepted E c e (obj_ContentType obj) (obj_Content obj) (at_CompressedBytes (pr_attempt p)))"

text \<open>Objects stay under their content address: what a key names is the digest of what it holds.\<close>

definition addressed :: "evidence_lib \<Rightarrow> (string \<Rightarrow> string) \<Rightarrow> (string \<Rightarrow> stored_object option) \<Rightarrow> bool" where
  "addressed L sha bucket \<longleftrightarrow>
     (\<forall>k obj sourceID t d ct. bucket k = Some obj \<longrightarrow> RawObjectKey L sourceID t d ct = Some k \<longrightarrow> length d = 32 \<longrightarrow> four_digit_year t \<longrightarrow> sha (obj_Content obj) = d)"

context raw_store
begin

lemma process_body_None:
  assumes "process_body E c R e prior r a b = ((p, None), b')"
  shows "pr_outcome p = OutcomeNotModified \<and> b' = b \<and> rs_StatusCode r = 304 \<and> pr_nextPageURL p = []
    \<or> pr_outcome p = OutcomeMetadataOnly \<and> b' = b \<and> fn_ContentPolicy e = ''metadata-only''
    \<or> pr_outcome p = OutcomeStored \<and> fn_ContentPolicy e \<noteq> ''metadata-only'' \<and> attempt_stored E c e sha (look b') p
        \<and> (isGlobalReviewedAdvisoryEndpoint e \<longrightarrow> next_page E e r = Some (pr_nextPageURL p))"
proof (cases "check_response E e r (initial_response prior a)")
  case (Return q err)
  then have "check_response E e r (initial_response prior a) = Return p None" "b' = b" using assms by (simp_all add: process_body_def)
  from check_response_return [OF this(1)] this(2) show ?thesis by (simp add: initial_response_def)
next
  case (Continue x)
  then obtain q body where cont: "check_response E e r (initial_response prior a) = Continue (q, body)" by (cases x) auto
  note facts = check_response_continue [OF cont]
  from facts(1) have q: "pr_attempt q = a" by (auto simp: initial_response_def)
  show ?thesis
  proof (cases "fn_ContentPolicy e = ''metadata-only''")
    case True
    then have "hash_body E c e q body = (p, None)" "b' = b" using assms cont by (simp_all add: process_body_def)
    then show ?thesis using True by (auto simp: hash_body_def Let_def split: if_split_asm dest!: finish_body_None(2))
  next
    case False
    then have "store_body E c R e q body b = ((p, None), b')" using assms cont by (simp add: process_body_def)
    from store_body_None [OF this] have "attempt_stored E c e sha (look b') p" "pr_outcome p = OutcomeStored" "pr_nextPageURL p = pr_nextPageURL q"
      using facts(3) q by (auto simp: attempt_stored_def body_accepted_def validateBodySize_None initial_response_def)
    then show ?thesis using False facts(2) by simp
  qed
qed

lemma process_body_frame:
  assumes "process_body E c R e prior r a b = (res, b')" "final_key k"
  shows "look b' k = look b k \<or> (\<exists>obj. look b' k = Some obj \<and> fetch_key E e a (sha (obj_Content obj)) = Some k)"
proof (cases "\<exists>q body. check_response E e r (initial_response prior a) = Continue (q, body) \<and> fn_ContentPolicy e \<noteq> ''metadata-only''")
  case True
  then obtain q body where cont: "check_response E e r (initial_response prior a) = Continue (q, body)" "fn_ContentPolicy e \<noteq> ''metadata-only''" by blast
  from check_response_continue(1) [OF cont(1)] have q: "pr_attempt q = a" by (auto simp: initial_response_def)
  from assms(1) cont have "store_body E c R e q body b = (res, b')" by (simp add: process_body_def)
  from store_body_frame [OF this assms(2)] q show ?thesis by auto
next
  case False
  then show ?thesis using assms(1) by (auto simp: process_body_def split: early.split_asm if_split_asm)
qed

lemma attempt_once_frame:
  assumes "attempt_once E c R e u cp s = (p, err, s')" "final_key k"
  shows "look (ft_store s') k = look (ft_store s) k
    \<or> (\<exists>obj a n. look (ft_store s') k = Some obj \<and> at_AttemptedAt a = fe_now E n \<and> fetch_key E e a (sha (obj_Content obj)) = Some k)"
proof -
  obtain a answer s1 where rq: "request E c e u cp s = (a, answer, s1)" by (metis prod_cases3)
  note store = request_effect(2) [OF rq]
  obtain n where n: "at_AttemptedAt a = fe_now E n" using request_effect(3) [OF rq] by blast
  show ?thesis
  proof (cases answer)
    case (Inl x)
    then show ?thesis using assms(1) rq store by (simp add: attempt_once_def)
  next
    case (Inr r)
    then have "processResponse E c R e cp r a s1 = (p, err, s')" using assms(1) rq by (simp add: attempt_once_def)
    from processResponse_effect(2) [OF this] obtain res where "process_body E c R e cp r a (ft_store s1) = (res, ft_store s')" by blast
    from process_body_frame [OF this assms(2)] n store show ?thesis by auto
  qed
qed

lemma attempt_once_addressed:
  assumes "attempt_once E c R e u cp s = (p, err, s')" "addressed (fe_lib E) sha (look (ft_store s))"
    and "\<And>n. four_digit_year (fe_now E n)" "\<And>x. length (sha x) = 32"
  shows "addressed (fe_lib E) sha (look (ft_store s'))"
  unfolding addressed_def
proof (intro allI impI)
  fix k obj sourceID t d ct
  assume k: "look (ft_store s') k = Some obj" "RawObjectKey (fe_lib E) sourceID t d ct = Some k" "length d = 32" "four_digit_year t"
  note valid = object_keys_valid [OF k(2,3,4)]
  then have "final_key k" using valid_key_final by blast
  from attempt_once_frame [OF assms(1) this] consider "look (ft_store s') k = look (ft_store s) k"
    | obj' a n where "look (ft_store s') k = Some obj'" "at_AttemptedAt a = fe_now E n" "fetch_key E e a (sha (obj_Content obj')) = Some k" by blast
  then show "sha (obj_Content obj) = d"
  proof cases
    case 1
    then show ?thesis using assms(2) k unfolding addressed_def by metis
  next
    case (2 obj' a n)
    then obtain sourceID' where "RawObjectKey (fe_lib E) sourceID' (fe_now E n) (sha (obj_Content obj)) (at_ContentType a) = Some k"
      using k(1) by (auto simp: fetch_key_def RawFetchObjectKey_def split: if_split_asm)
    then show ?thesis using valid assms(3,4) by blast
  qed
qed

end

section \<open>Properties of a fetch\<close>

lemma attempt_once_success:
  assumes "attempt_once E c R e u cp s0 = (p, None, s')"
  obtains r a b q where "process_body E c R e cp r a b = ((q, None), ft_store s')" "pr_outcome p = pr_outcome q" "pr_nextPageURL p = pr_nextPageURL q"
    "pr_objectKey p = pr_objectKey q" "pr_digest p = pr_digest q" "pr_bytes p = pr_bytes q" "pr_checkpoint p = pr_checkpoint q"
    "at_CompressedBytes (pr_attempt p) = at_CompressedBytes (pr_attempt q)"
proof -
  obtain a answer s1 where rq: "request E c e u cp s0 = (a, answer, s1)" by (metis prod_cases3)
  with assms obtain r where "answer = Inr r" by (cases answer) (auto simp: attempt_once_def)
  then have "processResponse E c R e cp r a s1 = (p, None, s')" using assms rq by (simp add: attempt_once_def)
  from processResponse_effect(2) [OF this] show ?thesis using that by blast
qed

lemma Fetch_success:
  assumes "Fetch E c R e cp s = (r, None, s')"
  obtains resp a b q where "process_body E c R e cp resp a b = ((q, None), ft_store s')" "validateEndpoint E e = None" "fr_Attempts r \<noteq> []"
    "fr_Outcome r = pr_outcome q" "fr_ObjectKey r = pr_objectKey q" "fr_SHA256 r = pr_digest q" "fr_Bytes r = pr_bytes q" "fr_NextPageURL r = pr_nextPageURL q"
    "cp_Cursor (fr_Checkpoint r) = cp_Cursor (pr_checkpoint q)" "cp_ProviderState (fr_Checkpoint r) = cp_ProviderState (pr_checkpoint q)"
    "at_CompressedBytes (last (fr_Attempts r)) = at_CompressedBytes (pr_attempt q)"
  using assms
proof (cases rule: Fetch_cases)
  case (looped u hosts)
  from fetch_loop_ends [of "\<lambda>_. True", OF _ _ looped(6)] obtain s0 p res where
      once: "attempt_once E c R e u cp s0 = (p, None, s')" and r: "r = finish_result (add_attempt (pr_attempt p) res) p"
    by (auto simp: loop_ends_def)
  from attempt_once_success [OF once] obtain resp a b q where "process_body E c R e cp resp a b = ((q, None), ft_store s')"
      and "pr_outcome p = pr_outcome q" "pr_nextPageURL p = pr_nextPageURL q" "pr_objectKey p = pr_objectKey q" "pr_digest p = pr_digest q"
        "pr_bytes p = pr_bytes q" "pr_checkpoint p = pr_checkpoint q" "at_CompressedBytes (pr_attempt p) = at_CompressedBytes (pr_attempt q)" by blast
  then show ?thesis using r looped(1) that by (simp add: finish_result_def add_attempt_def)
qed simp

text \<open>A source whose content may not be kept leaves the object store as it is.\<close>

lemma attempt_once_metadata:
  assumes "attempt_once E c R e u cp s = (p, err, s')" "fn_ContentPolicy e = ''metadata-only''"
  shows "ft_store s' = ft_store s"
proof -
  obtain a answer s1 where rq: "request E c e u cp s = (a, answer, s1)" by (metis prod_cases3)
  note store = request_effect(2) [OF rq]
  show ?thesis
  proof (cases answer)
    case (Inl x)
    then show ?thesis using assms(1) rq store by (simp add: attempt_once_def)
  next
    case (Inr r)
    then have "processResponse E c R e cp r a s1 = (p, err, s')" using assms(1) rq by (simp add: attempt_once_def)
    from processResponse_effect(2) [OF this] obtain res where "process_body E c R e cp r a (ft_store s1) = (res, ft_store s')" by blast
    then show ?thesis using store assms(2) by (auto simp: process_body_def split: early.split_asm)
  qed
qed

lemma Fetch_metadata_only:
  assumes "Fetch E c R e cp s = (r, err, s')" "fn_ContentPolicy e = ''metadata-only''"
  shows "ft_store s' = ft_store s"
  using assms(1)
proof (cases rule: Fetch_cases)
  case (looped u hosts)
  have step: "ft_store s2 = ft_store s" if "ft_store s1 = ft_store s" "attempt_once E c R e u cp s1 = (p, err2, s2)" for s1 p err2 s2
    using attempt_once_metadata [OF that(2) assms(2)] that(1) by simp
  have "loop_ends E c R e u cp (\<lambda>b. b = ft_store s) (nat (cf_RetryAttempts c) - 1) (failed_result cp) r err s'"
    by (intro fetch_loop_ends [OF _ _ looped(6)]) (use step in blast, simp)
  then show ?thesis by (simp add: loop_ends_def)
qed simp

lemma next_page_official:
  "next_page E e resp = Some url \<Longrightarrow> url = [] \<or> IsGlobalAdvisoryPageURL (fe_lib E) url \<and> url \<noteq> GlobalReviewedAdvisoriesURL"
  unfolding next_page_def using next_page_member(2) by blast

text \<open>
  C32. A fetch that reports stored content has stored it: under the reported key, a valid content address, lies an object of an
  expected media type, within the endpoint's size limit and the compression ratio, with the reported digest and length. For the
  global advisory feed the next page it reports is a continuation page of the feed. Content that may not
  be kept is never stored: such a fetch leaves the store as it was.
\<close>

theorem fetch_stored_faithful:
  assumes "Fetch E c (s3_ops C) e cp s = (r, None, s')"
  shows "(fr_Outcome r = OutcomeStored \<longrightarrow>
      fn_ContentPolicy e = ''link-and-excerpt''
      \<and> (\<exists>obj. os_bucket (ft_store s') (fr_ObjectKey r) = Some obj \<and> ValidateObjectKey (fr_ObjectKey r) \<and> fr_SHA256 r = oc_sha256 C (obj_Content obj)
           \<and> fr_Bytes r = int (length (obj_Content obj))
           \<and> body_accepted E c e (obj_ContentType obj) (obj_Content obj) (at_CompressedBytes (last (fr_Attempts r))))
      \<and> (isGlobalReviewedAdvisoryEndpoint e \<longrightarrow> fr_NextPageURL r = []
           \<or> IsGlobalAdvisoryPageURL (fe_lib E) (fr_NextPageURL r) \<and> fr_NextPageURL r \<noteq> GlobalReviewedAdvisoriesURL))
    \<and> fr_Outcome r \<noteq> OutcomeFailed \<and> (fn_ContentPolicy e = ''metadata-only'' \<longrightarrow> ft_store s' = ft_store s)"
proof -
  note untouched = Fetch_metadata_only [OF assms]
  obtain resp a b q where body: "process_body E c (s3_ops C) e cp resp a b = ((q, None), ft_store s')" and valid: "validateEndpoint E e = None"
      and fields: "fr_Outcome r = pr_outcome q" "fr_ObjectKey r = pr_objectKey q" "fr_SHA256 r = pr_digest q" "fr_Bytes r = pr_bytes q"
        "fr_NextPageURL r = pr_nextPageURL q" "at_CompressedBytes (last (fr_Attempts r)) = at_CompressedBytes (pr_attempt q)"
    by (rule Fetch_success [OF assms])
  have policy: "fn_ContentPolicy e = ''link-and-excerpt'' \<or> fn_ContentPolicy e = ''metadata-only''"
    using valid by (auto simp: validateEndpoint_def split: if_split_asm)
  show ?thesis using s3.process_body_None [OF body] policy next_page_official untouched unfolding fields attempt_stored_def by fastforce
qed

text \<open>A successful fetch of the global feed keeps the cursor and the provider's state and reports a next page of the feed or none.\<close>

lemma process_body_cursor: "process_body E c R e prior r a b = ((q, err), b')
    \<Longrightarrow> cp_Cursor (pr_checkpoint q) = cp_Cursor prior \<and> cp_ProviderState (pr_checkpoint q) = cp_ProviderState prior"
  by (auto simp: process_body_def hash_body_def store_body_def check_response_def check_page_def return_failed_def fail_response_def finish_body_def
    initial_response_def Let_def split: early.split_asm if_split_asm option.split_asm sum.split_asm prod.split_asm bool.split_asm)

context raw_store
begin

lemma Fetch_page:
  assumes "Fetch E c R e cp s = (r, None, s')" "isGlobalReviewedAdvisoryEndpoint e"
  shows "fr_Attempts r \<noteq> [] \<and> fr_Outcome r \<in> {OutcomeStored, OutcomeNotModified} \<and> cp_Cursor (fr_Checkpoint r) = cp_Cursor cp
    \<and> cp_ProviderState (fr_Checkpoint r) = cp_ProviderState cp
    \<and> (fr_NextPageURL r = [] \<or> IsGlobalAdvisoryPageURL (fe_lib E) (fr_NextPageURL r) \<and> fr_NextPageURL r \<noteq> GlobalReviewedAdvisoriesURL)"
proof -
  obtain resp a b q where body: "process_body E c R e cp resp a b = ((q, None), ft_store s')" and valid: "validateEndpoint E e = None" "fr_Attempts r \<noteq> []"
      and fields: "fr_Outcome r = pr_outcome q" "fr_NextPageURL r = pr_nextPageURL q" "cp_Cursor (fr_Checkpoint r) = cp_Cursor (pr_checkpoint q)"
        "cp_ProviderState (fr_Checkpoint r) = cp_ProviderState (pr_checkpoint q)"
    by (rule Fetch_success [OF assms(1)])
  have "fn_ContentPolicy e \<noteq> ''metadata-only''" using valid(1) assms(2) by (auto simp: validateEndpoint_def isGlobalReviewedAdvisoryEndpoint_def split: if_split_asm)
  then show ?thesis
    using process_body_None [OF body] process_body_cursor [OF body] assms(2) valid(2) next_page_official unfolding fields by fastforce
qed

end

text \<open>The GitHub API on its default port, addressed over HTTPS without user information.\<close>

definition github_api :: "fetch_env \<Rightarrow> parsed_url \<Rightarrow> bool" where
  "github_api E u \<longleftrightarrow>
     pu_Scheme u = ''https'' \<and> \<not> pu_HasUser u
     \<and> (\<exists>host port. split_host_port (pu_Host u) = (host, port) \<and> lib_equal_fold (fe_lib E) host ''api.github.com'' \<and> port \<in> {[], ''443''})"

definition request_allowed :: "fetch_env \<Rightarrow> fetch_config \<Rightarrow> parsed_url \<Rightarrow> http_request \<Rightarrow> bool" where
  "request_allowed E c u rq \<longleftrightarrow>
     rq_URL rq = fe_url_string E u \<and> (\<forall>t. rq_Authorization rq = Some t \<longrightarrow> t = ''Bearer '' @ cf_GitHubReadToken c \<and> github_api E u)"

lemma build_request_allowed: "request_allowed E c u (build_request E c e u cp)"
proof -
  have "githubRESTURL (fe_lib E) u \<Longrightarrow> github_api E u"
    unfolding githubRESTURL_def github_api_def by (cases "split_host_port (pu_Host u)") auto
  then show ?thesis by (simp add: request_allowed_def build_request_def)
qed

text \<open>
  C33. Retries are bounded and orderly: a fetch sends at most as many requests as it has attempts, each for the endpoint's URL and while it holds
  the limiter's slot of the URL's host; it gives the slot back before it waits, ends or tries again, and never waits longer than the
  configured maximum. The bearer token goes to api.github.com on the default port only, over HTTPS. A fetch that is not admissible fails without a
  request, an attempt or an event, and its result has the empty checkpoint; an admissible fetch that fails has made an attempt (when the configuration
  allows one) and returns the checkpoint it was given.
\<close>

theorem fetch_controlled:
  assumes "Fetch E c R e cp s = (r, err, s')"
  shows "\<exists>evs. ft_trace s' = evs @ ft_trace s \<and> slot_run False (rev evs) = Some False
      \<and> int (length (filter is_request evs)) \<le> max 0 (cf_RetryAttempts c) \<and> int (length (fr_Attempts r)) \<le> max 0 (cf_RetryAttempts c)
      \<and> (\<forall>d. Slept d \<in> set evs \<longrightarrow> d \<le> cf_MaximumRetryDelay c)
      \<and> (\<forall>rq. Requested rq \<in> set evs \<longrightarrow> (\<exists>u. lib_url (fe_lib E) (fn_URL e) = Some u \<and> request_allowed E c u rq))
      \<and> (\<forall>h. Acquired h \<in> set evs \<longrightarrow> (\<exists>u. lib_url (fe_lib E) (fn_URL e) = Some u \<and> h = net_ToLower (fe_net E) (fst (split_host_port (pu_Host u)))))
      \<and> (\<not> admissible E e \<longrightarrow> evs = [] \<and> s' = s \<and> err \<noteq> None \<and> fr_Attempts r = [])
      \<and> (admissible E e \<and> 0 < cf_RetryAttempts c \<longrightarrow> fr_Attempts r \<noteq> [])
      \<and> (err \<noteq> None \<longrightarrow> fr_Outcome r = OutcomeFailed \<and> fr_Checkpoint r = (if admissible E e then cp else empty_checkpoint))"
  using assms
proof (cases rule: Fetch_cases)
  case (refused err1)
  then show ?thesis by (intro exI [of _ "[]"]) (auto simp: failed_result_def)
next
  case (looped u hosts)
  from fetch_loop_trace [OF looped(6)] obtain evs where evs: "ft_trace s' = evs @ ft_trace s" "run_events E c e u cp (nat (cf_RetryAttempts c) - 1 + 1) evs" by blast
  have ends: "loop_ends E c R e u cp (\<lambda>_. True) (nat (cf_RetryAttempts c) - 1) (failed_result cp) r err s'"
    by (rule fetch_loop_ends [OF _ _ looped(6)]) simp_all
  have "admissible E e" using looped(1-4) unfolding admissible_def by (metis sum.collapse(2))
  then show ?thesis
    using evs ends looped(2,5) unfolding run_events_def loop_ends_def
    by (intro exI [of _ evs]) (auto simp: build_request_allowed failed_result_def target_host_def)
qed

text \<open>
  C34. The raw store stays content-addressed: whatever the source, the client and the storage service do, also when uploads, commits
  or removals fail half-way and are retried, an object under a raw key has the digest its key names.
\<close>

theorem fetch_keeps_addresses:
  assumes "Fetch E c (s3_ops C) e cp s = (r, err, s')" "addressed (fe_lib E) (oc_sha256 C) (os_bucket (ft_store s))"
    and "\<And>n. four_digit_year (fe_now E n)" "\<And>x. length (oc_sha256 C x) = 32"
  shows "addressed (fe_lib E) (oc_sha256 C) (os_bucket (ft_store s'))"
  using assms(1)
proof (cases rule: Fetch_cases)
  case (looped u hosts)
  have "loop_ends E c (s3_ops C) e u cp (\<lambda>b. addressed (fe_lib E) (oc_sha256 C) (os_bucket b)) (nat (cf_RetryAttempts c) - 1) (failed_result cp) r err s'"
    using s3.attempt_once_addressed assms(2-4) by (intro fetch_loop_ends [OF _ _ looped(6)]) blast+
  then show ?thesis by (simp add: loop_ends_def)
qed (use assms(2) in simp)

section \<open>The transport\<close>

record network_limits =
  nl_ConnectTimeout :: duration
  nl_ResponseHeaderTimeout :: duration
  nl_TotalTimeout :: duration
  nl_MaxResponseHeaderBytes :: int

definition DefaultNetworkLimits :: network_limits where
  "DefaultNetworkLimits =
     \<lparr>nl_ConnectTimeout = 5 * 1000000000, nl_ResponseHeaderTimeout = 10 * 1000000000, nl_TotalTimeout = 30 * 1000000000, nl_MaxResponseHeaderBytes = 64 * 2 ^ 10\<rparr>"

definition client_problem :: "network_limits \<Rightarrow> int \<Rightarrow> string option" where
  "client_problem limits maximumRedirects =
     (if nl_ConnectTimeout limits \<le> 0 \<or> nl_ResponseHeaderTimeout limits \<le> 0 \<or> nl_TotalTimeout limits \<le> 0 \<or> nl_MaxResponseHeaderBytes limits \<le> 0
      then Some ''network timeouts and header limit must be positive''
      else if maximumRedirects < 0 \<or> maximumRedirects > 5 then Some ''redirect limit must be between zero and five''
      else None)"

definition origin_port :: "parsed_url \<Rightarrow> string" where
  "origin_port u = (if snd (split_host_port (pu_Host u)) = [] then ''443'' else snd (split_host_port (pu_Host u)))"

definition sameHTTPSOrigin :: "evidence_lib \<Rightarrow> parsed_url \<Rightarrow> parsed_url \<Rightarrow> bool" where
  "sameHTTPSOrigin L a b \<longleftrightarrow>
     pu_Scheme a = ''https'' \<and> pu_Scheme b = ''https'' \<and> lib_equal_fold L (fst (split_host_port (pu_Host a))) (fst (split_host_port (pu_Host b)))
     \<and> origin_port a = origin_port b"

text \<open>The requests made so far are their URLs, and whether the first of them carried credentials.\<close>

definition check_redirect :: "fetch_env \<Rightarrow> string list option \<Rightarrow> nat \<Rightarrow> bool \<Rightarrow> parsed_url list \<Rightarrow> parsed_url \<Rightarrow> go_error option" where
  "check_redirect E hosts maximumRedirects authorized previous u =
     (if length previous > maximumRedirects then Some (newFetchError ErrorDestinationDenied False)
      else if previous \<noteq> [] \<and> authorized \<and> \<not> sameHTTPSOrigin (fe_lib E) (hd previous) u then Some (newFetchError ErrorDestinationDenied False)
      else (case ValidateURL (fe_net E) (fe_policy E) hosts (Some (target_of u)) of Inl err \<Rightarrow> Some (GoFetch err) | Inr _ \<Rightarrow> None))"

text \<open>The client follows the redirects it is sent until one is refused.\<close>

fun follow :: "fetch_env \<Rightarrow> string list option \<Rightarrow> nat \<Rightarrow> bool \<Rightarrow> parsed_url list \<Rightarrow> parsed_url list \<Rightarrow> parsed_url list" where
  "follow E hosts maximumRedirects authorized previous [] = previous"
| "follow E hosts maximumRedirects authorized previous (u # us) =
     (case check_redirect E hosts maximumRedirects authorized previous u of
        Some _ \<Rightarrow> previous
      | None \<Rightarrow> follow E hosts maximumRedirects authorized (previous @ [u]) us)"

definition dial_port :: "string \<Rightarrow> nat option" where
  "dial_port raw =
     (if raw \<noteq> [] \<and> list_all is_digit raw \<and> digits_val 0 raw < 65536 \<and> digits_val 0 raw \<noteq> 0 then Some (digits_val 0 raw) else None)"

text \<open>The address that is dialled, as \<open>net.SplitHostPort\<close> splits it, and whether dialling an address succeeds are arguments.\<close>

definition pinnedDialContext :: "fetch_env \<Rightarrow> string list option \<Rightarrow> (addr \<Rightarrow> bool) \<Rightarrow> (string \<times> string) option \<Rightarrow> go_error + addr" where
  "pinnedDialContext E hosts dials address =
     (case address of
        None \<Rightarrow> Inl (newFetchError ErrorInvalidURL False)
      | Some (host, rawPort) \<Rightarrow>
          (case dial_port rawPort of
             None \<Rightarrow> Inl (newFetchError ErrorInvalidURL False)
           | Some port \<Rightarrow>
               (case ResolveDialTarget (fe_net E) (fe_policy E) hosts host port of
                  Inl err \<Rightarrow> Inl (GoFetch err)
                | Inr target \<Rightarrow>
                    (case find dials (rt_Addresses target) of
                       None \<Rightarrow> Inl (newFetchError ErrorTransport True)
                     | Some a \<Rightarrow> Inr a))))"

lemma check_redirect_None:
  assumes "check_redirect E hosts m authorized previous u = None"
  shows "length previous \<le> m" "previous \<noteq> [] \<Longrightarrow> authorized \<Longrightarrow> sameHTTPSOrigin (fe_lib E) (hd previous) u"
    "\<exists>t. safe_target (fe_policy E) hosts t \<and> (rt_Fixture t \<or> pu_Scheme u = ''https'') \<and> ValidateURL (fe_net E) (fe_policy E) hosts (Some (target_of u)) = Inr t"
  using assms ValidateURL_safe [of "fe_net E" "fe_policy E" hosts "target_of u"]
  by (auto simp: check_redirect_def target_of_def split: if_split_asm sum.split_asm)

lemma follow_safe:
  assumes "previous \<noteq> []"
  shows "\<exists>us'. follow E hosts m authorized previous us = previous @ us' \<and> length us' \<le> m + 1 - length previous
    \<and> list_all (\<lambda>u. (authorized \<longrightarrow> sameHTTPSOrigin (fe_lib E) (hd previous) u) \<and> \<not> isl (ValidateURL (fe_net E) (fe_policy E) hosts (Some (target_of u)))) us'"
  using assms
proof (induction us arbitrary: previous)
  case (Cons u us)
  show ?case
  proof (cases "check_redirect E hosts m authorized previous u")
    case None
    from Cons.IH [of "previous @ [u]"] obtain us' where "follow E hosts m authorized (previous @ [u]) us = (previous @ [u]) @ us'"
        "length us' \<le> m + 1 - length (previous @ [u])"
        "list_all (\<lambda>v. (authorized \<longrightarrow> sameHTTPSOrigin (fe_lib E) (hd (previous @ [u])) v) \<and> \<not> isl (ValidateURL (fe_net E) (fe_policy E) hosts (Some (target_of v)))) us'"
      by auto
    then show ?thesis using None check_redirect_None [OF None] Cons.prems by (intro exI [of _ "u # us'"]) auto
  qed simp
qed simp

text \<open>
  The client follows no more redirects than allowed, each to a URL the policy accepts, sends credentials to the first origin only, and
  connects to an address of a safe target only.
\<close>

lemma transport_safe:
  "(\<exists>us'. follow E hosts m authorized [u] us = u # us' \<and> length us' \<le> m
      \<and> list_all (\<lambda>v. (authorized \<longrightarrow> sameHTTPSOrigin (fe_lib E) u v) \<and> \<not> isl (ValidateURL (fe_net E) (fe_policy E) hosts (Some (target_of v)))) us')
   \<and> (pinnedDialContext E hosts dials address = Inr a \<longrightarrow> (\<exists>t. safe_target (fe_policy E) hosts t \<and> a \<in> set (rt_Addresses t)))"
proof -
  have "\<exists>t. safe_target (fe_policy E) hosts t \<and> a \<in> set (rt_Addresses t)" if "pinnedDialContext E hosts dials address = Inr a"
    using that ResolveDialTarget_safe by (auto simp: pinnedDialContext_def find_Some_iff split: option.split_asm sum.split_asm) (metis nth_mem)
  then show ?thesis using follow_safe [of "[u]" E hosts m authorized us] by (auto simp del: follow.simps)
qed

section \<open>Registry endpoints\<close>

text \<open>
  An endpoint of a validated registry can be fetched, and its limit is small enough that the check of the compression ratio does not wrap around.
\<close>

lemma hyphenated_nonempty: "hyphenated s \<Longrightarrow> s \<noteq> []"
proof
  assume "hyphenated s" "s = []"
  then obtain ws where "ws \<noteq> []" "join ''-'' ws = []" "\<forall>w\<in>set ws. w \<noteq> []" by (auto simp: hyphenated_def)
  then show False by (cases "(''-'', ws)" rule: join.cases) auto
qed

lemma registry_fetchable:
  assumes "endpoint_wf L catalog now src" "ep_SourceID src \<noteq> []" "ep_URL src \<noteq> []" "fe_lib E = rl_lib L"
    and "ep_ID src \<noteq> ''github-global-advisories''" "ep_SourceID src \<noteq> ''github-global-advisories''"
  shows "\<exists>e. EndpointFromSource (lib_url (rl_lib L)) src = Some e \<and> validateEndpoint E e = None
    \<and> (0 < k \<longrightarrow> k \<le> fn_MaxBodyBytes e \<longrightarrow> wrap64 (k * 100) = k * 100)"
proof -
  have wf: "hyphenated (ep_ID src)" "plain_https L (ep_URL src)" "ep_ContentLicense src \<in> {''link-and-excerpt'', ''metadata-only''}"
      "ep_ExpectedContentTypes src \<noteq> []" "0 < ep_MaxResponseBytes src" "ep_MaxResponseBytes src \<le> 15728640"
    using assms(1) by (auto simp: endpoint_wf_def split: if_split_asm)
  from wf(2) obtain u where u: "lib_url (rl_lib L) (ep_URL src) = Some u" "fst (split_host_port (pu_Host u)) \<noteq> []" "pu_Scheme u = ''https''"
    by (auto simp: plain_https_def)
  have "ep_ID src \<noteq> []" using wf(1) hyphenated_nonempty by blast
  moreover have "wrap64 (k * 100) = k * 100" if "0 < k" "k \<le> ep_MaxResponseBytes src" using that wf(6) by (intro wrap64_id) (simp add: int64_range_def)
  ultimately show ?thesis using u wf assms(2-6)
    by (auto simp: EndpointFromSource_def validateEndpoint_def)
qed

section \<open>Instances\<close>

text \<open>A source that is busy at first and then answers with a short page.\<close>

definition sample_fetch_env :: fetch_env where
  "sample_fetch_env =
     \<lparr>fe_lib = rl_lib sample_registry_lib, fe_net = sample_net (AddrV4 0x8EFAB46E), fe_policy = sample_policy, fe_url_string = (\<lambda>u. ''https://go.dev/blog''),
      fe_request_ok = (\<lambda>s. True), fe_now = (\<lambda>n. 738944 * (24 * hour)), fe_jitter = (\<lambda>n d. 0), fe_sleep = (\<lambda>n d. True), fe_acquire = (\<lambda>n h. True),
      fe_do = (\<lambda>n rq. Inr \<lparr>rs_StatusCode = (if n < 5 then 503 else 200), rs_URL = rq_URL rq, rs_Header = (\<lambda>h. if h = ''Content-Type'' then [''text/html''] else []),
          rs_ContentLength = 5, rs_Body = ''hello'', rs_BodyFails = False\<rparr>),
      fe_gunzip = (\<lambda>b f. None), fe_gunzip_read = (\<lambda>b n. 0), fe_ParseTime = (\<lambda>s. None), fe_FormatTime = (\<lambda>t. [])\<rparr>"

definition sample_fetch_endpoint :: fetch_endpoint where
  "sample_fetch_endpoint =
     \<lparr>fn_ID = ''go-blog'', fn_SourceID = ''go-blog'', fn_URL = ''https://go.dev/blog'', fn_AllowedHosts = [''go.dev''], fn_ExpectedContentTypes = [''text/html''],
      fn_MaxBodyBytes = 100, fn_ContentPolicy = ''link-and-excerpt''\<rparr>"

definition sample_object_client :: object_client where
  "sample_object_client =
     \<lparr>oc_outcome = (\<lambda>n. CallDone), oc_random = (\<lambda>n. Some (replicate 16 (CHR 0x01))), oc_size = (\<lambda>n b. int (length b)), oc_bucket_exists = (\<lambda>n. True),
      oc_sha256 = (\<lambda>b. replicate 32 (CHR 0x07))\<rparr>"

definition sample_fetch_state :: "object_state fetch_state" where
  "sample_fetch_state = \<lparr>ft_step = 0, ft_store = \<lparr>os_bucket = (\<lambda>k. None), os_calls = 0\<rparr>, ft_trace = []\<rparr>"

definition sample_fetch :: "fetch_result \<times> go_error option \<times> object_state fetch_state" where
  "sample_fetch = Fetch sample_fetch_env (DefaultConfig ''agent'') (s3_ops sample_object_client) sample_fetch_endpoint empty_checkpoint sample_fetch_state"

lemma sample_fetch_facts:
  "case sample_fetch of (r, err, s') \<Rightarrow> fr_Outcome r = OutcomeStored \<and> err = None \<and> length (fr_Attempts r) = 2 \<and> fr_Bytes r = 5"
  by code_simp

lemma sample_fetch_run:
  obtains r s' where "sample_fetch = (r, None, s')" "fr_Outcome r = OutcomeStored" "fr_Bytes r = 5"
    "Fetch sample_fetch_env (DefaultConfig ''agent'') (s3_ops sample_object_client) sample_fetch_endpoint empty_checkpoint sample_fetch_state = (r, None, s')"
  using sample_fetch_facts that unfolding sample_fetch_def by auto

theorem fetch_stored_faithful_witness:
  "\<exists>obj. os_bucket (ft_store (snd (snd sample_fetch))) (fr_ObjectKey (fst sample_fetch)) = Some obj \<and> length (obj_Content obj) = 5"
proof -
  obtain r s' where run: "sample_fetch = (r, None, s')" "fr_Outcome r = OutcomeStored" "fr_Bytes r = 5"
      "Fetch sample_fetch_env (DefaultConfig ''agent'') (s3_ops sample_object_client) sample_fetch_endpoint empty_checkpoint sample_fetch_state = (r, None, s')"
    by (rule sample_fetch_run)
  from fetch_stored_faithful [OF run(4)] show ?thesis using run(2,3) unfolding run(1) by auto
qed

theorem fetch_controlled_witness:
  "\<exists>evs. ft_trace (snd (snd sample_fetch)) = evs \<and> slot_run False (rev evs) = Some False \<and> length (filter is_request evs) \<le> 5"
proof -
  obtain r s' where run: "sample_fetch = (r, None, s')"
      "Fetch sample_fetch_env (DefaultConfig ''agent'') (s3_ops sample_object_client) sample_fetch_endpoint empty_checkpoint sample_fetch_state = (r, None, s')"
    by (rule sample_fetch_run)
  from fetch_controlled [OF run(2)] show ?thesis unfolding run(1) by (auto simp: sample_fetch_state_def DefaultConfig_def)
qed

theorem fetch_keeps_addresses_witness:
  "addressed (fe_lib sample_fetch_env) (oc_sha256 sample_object_client) (os_bucket (ft_store (snd (snd sample_fetch))))"
proof -
  obtain r s' where run: "sample_fetch = (r, None, s')"
      "Fetch sample_fetch_env (DefaultConfig ''agent'') (s3_ops sample_object_client) sample_fetch_endpoint empty_checkpoint sample_fetch_state = (r, None, s')"
    by (rule sample_fetch_run)
  have "four_digit_year (fe_now sample_fetch_env n)" for n
  proof -
    have "four_digit_year (738944 * (24 * hour))" by code_simp
    then show ?thesis by (simp add: sample_fetch_env_def)
  qed
  moreover have "addressed (fe_lib sample_fetch_env) (oc_sha256 sample_object_client) (os_bucket (ft_store sample_fetch_state))"
    by (simp add: addressed_def sample_fetch_state_def)
  moreover have "length (oc_sha256 sample_object_client x) = 32" for x by (simp add: sample_object_client_def)
  ultimately show ?thesis using fetch_keeps_addresses [OF run(2)] unfolding run(1) by simp
qed

end
