(* ===== verification/Robots.thy ===== *)
theory Robots
  imports Go_Strings
begin

text \<open>
  The robots policy of a source (\<open>src/internal/ingestion/network.go\<close>: \<open>robotsDisallows\<close> and \<open>robotPatternMatches\<close>). Lower-casing and case-insensitive
  comparison are arguments. A pattern is matched byte by byte, which is what its regular expression does on the
  escaped paths the fetcher asks for.
\<close>

section \<open>Parsing\<close>

record robot_rule =
  rr_pattern :: string
  rr_allow :: bool

record robot_group =
  rg_agents :: "string list"
  rg_rules :: "robot_rule list"

record robots_lib =
  rb_ToLower :: "string \<Rightarrow> string"
  rb_EqualFold :: "string \<Rightarrow> string \<Rightarrow> bool"

definition robots_agent :: string where
  "robots_agent = ''Relantern/1.0 (+https://github.com/traweezy/relantern)''"

definition empty_group :: robot_group where
  "empty_group = \<lparr>rg_agents = [], rg_rules = []\<rparr>"

text \<open>The groups so far, the current one, and whether it has rules.\<close>

type_synonym robots_scan = "robot_group list \<times> robot_group \<times> bool"

definition scan_line :: "robots_lib \<Rightarrow> string \<Rightarrow> robots_scan \<Rightarrow> robots_scan" where
  "scan_line B raw st =
     (case st of (groups, current, hasRules) \<Rightarrow>
        (let line = trim_space (takeWhile (\<lambda>c. c \<noteq> CHR ''#'') raw);
             name = trim_space (takeWhile (\<lambda>c. c \<noteq> CHR '':'') line);
             v = trim_space (tl (dropWhile (\<lambda>c. c \<noteq> CHR '':'') line)) in
         if CHR '':'' \<notin> set line then st
         else if rb_ToLower B name = ''user-agent'' then
           (let (groups, current, hasRules) = (if hasRules then (groups @ [current], empty_group, False) else st) in
            (groups, current\<lparr>rg_agents := rg_agents current @ [rb_ToLower B v]\<rparr>, hasRules))
         else if rb_ToLower B name = ''allow'' \<or> rb_ToLower B name = ''disallow'' then
           (if rg_agents current = [] \<or> v = [] then st
            else (groups, current\<lparr>rg_rules := rg_rules current @ [\<lparr>rr_pattern = v, rr_allow = rb_EqualFold B name ''allow''\<rparr>]\<rparr>, True))
         else st))"

definition robot_groups :: "robots_lib \<Rightarrow> string \<Rightarrow> robot_group list" where
  "robot_groups B document =
     (case fold (scan_line B) (split_byte (CHR 0x0A) document) ([], empty_group, False) of
        (groups, current, _) \<Rightarrow> if rg_agents current \<noteq> [] then groups @ [current] else groups)"

section \<open>Choosing the rules\<close>

definition agent_step :: "robots_lib \<Rightarrow> string \<Rightarrow> int \<Rightarrow> int" where
  "agent_step B agent groupLength =
     (let gl = (if agent = ''*'' \<and> groupLength < 0 then 0 else groupLength) in
      if agent \<noteq> [] \<and> agent \<noteq> ''*'' \<and> has_prefix (rb_ToLower B robots_agent) agent \<and> int (length agent) > gl then int (length agent) else gl)"

definition group_length :: "robots_lib \<Rightarrow> robot_group \<Rightarrow> int" where
  "group_length B g = fold (agent_step B) (rg_agents g) (- 1)"

definition group_step :: "robots_lib \<Rightarrow> robot_group \<Rightarrow> int \<times> robot_rule list \<Rightarrow> int \<times> robot_rule list" where
  "group_step B g st =
     (case st of (best, matched) \<Rightarrow>
        if group_length B g > best then (group_length B g, rg_rules g)
        else if group_length B g = best \<and> group_length B g \<ge> 0 then (best, matched @ rg_rules g)
        else st)"

definition matched_rules :: "robots_lib \<Rightarrow> robot_group list \<Rightarrow> robot_rule list" where
  "matched_rules B groups = snd (fold (group_step B) groups (- 1, []))"

section \<open>Matching\<close>

text \<open>The regular expression: a star matches any bytes of one line, other bytes match themselves; the start is anchored, the end on demand.\<close>

fun wildcard :: "bool \<Rightarrow> string \<Rightarrow> string \<Rightarrow> bool" where
  "wildcard anchored [] s \<longleftrightarrow> \<not> anchored \<or> s = []"
| "wildcard anchored (p # ps) [] \<longleftrightarrow> p = CHR ''*'' \<and> wildcard anchored ps []"
| "wildcard anchored (p # ps) (c # cs) \<longleftrightarrow>
     (if p = CHR ''*'' then wildcard anchored ps (c # cs) \<or> c \<noteq> CHR 0x0A \<and> wildcard anchored (p # ps) cs
      else p = c \<and> wildcard anchored ps cs)"

definition robotPatternMatches :: "string \<Rightarrow> string \<Rightarrow> bool" where
  "robotPatternMatches pattern path \<longleftrightarrow> valid_utf8 pattern \<and> wildcard (has_suffix pattern ''$'') (trim_suffix pattern ''$'') path"

definition rule_length :: "robot_rule \<Rightarrow> int" where
  "rule_length r = int (length (trim_suffix (filter (\<lambda>c. c \<noteq> CHR ''*'') (rr_pattern r)) ''$''))"

definition rule_step :: "string \<Rightarrow> robot_rule \<Rightarrow> int \<times> bool \<Rightarrow> int \<times> bool" where
  "rule_step path r st =
     (case st of (best, allowed) \<Rightarrow>
        if \<not> robotPatternMatches (rr_pattern r) path then st
        else if rule_length r > best \<or> rule_length r = best \<and> rr_allow r then (rule_length r, rr_allow r)
        else st)"

definition robotsDisallows :: "robots_lib \<Rightarrow> string \<Rightarrow> string \<Rightarrow> bool" where
  "robotsDisallows B document path =
     (\<not> snd (fold (rule_step path) (matched_rules B (robot_groups B document)) (- 1, True)))"

section \<open>The longest match decides\<close>

text \<open>How well an agent line names this client: a prefix of its name by its length, a star by nothing.\<close>

definition agent_score :: "robots_lib \<Rightarrow> string \<Rightarrow> int" where
  "agent_score B a =
     (if a = ''*'' then 0 else if a \<noteq> [] \<and> has_prefix (rb_ToLower B robots_agent) a then int (length a) else - 1)"

definition group_score :: "robots_lib \<Rightarrow> robot_group \<Rightarrow> int" where
  "group_score B g = Max (insert (- 1) (agent_score B ` set (rg_agents g)))"

definition best_score :: "robots_lib \<Rightarrow> robot_group list \<Rightarrow> int" where
  "best_score B gs = Max (insert (- 1) (group_score B ` set gs))"

text \<open>The rules of the groups that name this client best.\<close>

definition applicable_rules :: "robots_lib \<Rightarrow> robot_group list \<Rightarrow> robot_rule list" where
  "applicable_rules B gs = concat (map rg_rules (filter (\<lambda>g. 0 \<le> group_score B g \<and> group_score B g = best_score B gs) gs))"

lemma agent_step_max: "- 1 \<le> n \<Longrightarrow> agent_step B a n = max n (agent_score B a)"
  by (auto simp: agent_step_def agent_score_def Let_def)

lemma fold_max_Max: "(\<And>n x. - 1 \<le> n \<Longrightarrow> f x n = max n (g x)) \<Longrightarrow> - 1 \<le> (n :: int) \<Longrightarrow> fold f xs n = Max (insert n (g ` set xs))"
proof (induction xs arbitrary: n)
  case (Cons x xs)
  have "fold f (x # xs) n = Max (insert (max n (g x)) (g ` set xs))" using Cons by (simp add: Cons.IH)
  also have "\<dots> = max n (Max (insert (g x) (g ` set xs)))" by (cases "xs = []") (simp_all add: max.assoc)
  finally show ?case by (simp add: max.commute)
qed simp

lemma group_length_score: "group_length B g = group_score B g"
  unfolding group_length_def group_score_def by (rule fold_max_Max) (simp_all add: agent_step_max)

lemma group_score_ge: "- 1 \<le> group_score B g"
  unfolding group_score_def by (intro Max_ge) auto

lemma best_score_snoc: "best_score B (gs @ [g]) = max (best_score B gs) (group_score B g)"
proof -
  have "insert (- 1) (group_score B ` set (gs @ [g])) = insert (group_score B g) (insert (- 1) (group_score B ` set gs))" by auto
  then show ?thesis unfolding best_score_def by (simp only: Max_insert finite_insert finite_imageI finite_set insert_not_empty max.commute not_False_eq_True)
qed

lemma best_score_ge: "g \<in> set gs \<Longrightarrow> group_score B g \<le> best_score B gs" "- 1 \<le> best_score B gs"
  unfolding best_score_def by (auto intro: Max_ge)

lemma group_fold: "fold (group_step B) gs (- 1, []) = (best_score B gs, applicable_rules B gs)"
proof (induction gs rule: rev_induct)
  case Nil
  then show ?case by (simp add: best_score_def applicable_rules_def)
next
  case (snoc g gs)
  have unchanged: "applicable_rules B (gs @ [g]) = applicable_rules B gs" if "group_score B g < best_score B gs \<or> group_score B g < 0"
  proof -
    have "filter (\<lambda>h. 0 \<le> group_score B h \<and> group_score B h = best_score B (gs @ [g])) gs = filter (\<lambda>h. 0 \<le> group_score B h \<and> group_score B h = best_score B gs) gs"
      using that best_score_ge(1) [of _ gs B] by (intro filter_cong [OF refl]) (force simp: best_score_snoc max_def)
    then show ?thesis using that by (auto simp: applicable_rules_def best_score_snoc max_def)
  qed
  consider "group_score B g > best_score B gs" | "group_score B g = best_score B gs" "0 \<le> group_score B g"
    | "group_score B g < best_score B gs \<or> group_score B g = best_score B gs \<and> group_score B g < 0" by linarith
  then show ?case
  proof cases
    case 1
    then have "filter (\<lambda>h. 0 \<le> group_score B h \<and> group_score B h = best_score B (gs @ [g])) gs = []"
      using best_score_ge(1) [of _ gs B] by (fastforce simp: filter_empty_conv best_score_snoc max_def)
    moreover have "0 \<le> group_score B g" using 1 best_score_ge(2) [where gs = gs and B = B] by linarith
    ultimately have "applicable_rules B (gs @ [g]) = rg_rules g" using 1 by (simp add: applicable_rules_def best_score_snoc)
    then show ?thesis using snoc 1 by (simp add: group_step_def group_length_score best_score_snoc)
  next
    case 2
    then have "applicable_rules B (gs @ [g]) = applicable_rules B gs @ rg_rules g" by (simp add: applicable_rules_def best_score_snoc)
    then show ?thesis using snoc 2 by (simp add: group_step_def group_length_score best_score_snoc)
  next
    case 3
    then have "applicable_rules B (gs @ [g]) = applicable_rules B gs" "best_score B (gs @ [g]) = best_score B gs"
      using unchanged by (auto simp: best_score_snoc)
    then show ?thesis using snoc 3 by (auto simp: group_step_def group_length_score)
  qed
qed

text \<open>The fold over the rules keeps the length of the longest match and whether an allowing one has it.\<close>

definition matching :: "string \<Rightarrow> robot_rule list \<Rightarrow> robot_rule list" where
  "matching path rs = filter (\<lambda>r. robotPatternMatches (rr_pattern r) path) rs"

definition longest :: "robot_rule set \<Rightarrow> int \<Rightarrow> bool \<Rightarrow> bool" where
  "longest M best allowed \<longleftrightarrow>
     (\<forall>r\<in>M. rule_length r \<le> best) \<and> (M = {} \<longrightarrow> best = - 1 \<and> allowed) \<and> (M \<noteq> {} \<longrightarrow> (\<exists>r\<in>M. rule_length r = best \<and> rr_allow r = allowed))
     \<and> (\<not> allowed \<longrightarrow> (\<forall>r\<in>M. rule_length r = best \<longrightarrow> \<not> rr_allow r))"

lemma longest_insert:
  assumes "longest M b a"
  shows "rule_length r > b \<Longrightarrow> longest (insert r M) (rule_length r) (rr_allow r)"
    and "rule_length r = b \<Longrightarrow> rr_allow r \<Longrightarrow> longest (insert r M) b True"
    and "rule_length r \<le> b \<Longrightarrow> rule_length r = b \<longrightarrow> \<not> rr_allow r \<Longrightarrow> longest (insert r M) b a"
proof -
  have len: "\<And>x. x \<in> M \<Longrightarrow> rule_length x \<le> b" using assms by (simp add: longest_def)
  show "longest (insert r M) (rule_length r) (rr_allow r)" if "rule_length r > b"
    using len that unfolding longest_def by fastforce
  show "longest (insert r M) b True" if "rule_length r = b" "rr_allow r"
    using len that unfolding longest_def by auto
  show "longest (insert r M) b a" if "rule_length r \<le> b" "rule_length r = b \<longrightarrow> \<not> rr_allow r"
  proof -
    have "0 \<le> rule_length r" by (simp add: rule_length_def)
    then have "M \<noteq> {}" using assms that(1) by (auto simp: longest_def)
    then show ?thesis using assms that by (simp add: longest_def)
  qed
qed

lemma rule_fold: "fold (rule_step path) rs (- 1, True) = (best, allowed) \<Longrightarrow> longest (set (matching path rs)) best allowed"
proof (induction rs arbitrary: best allowed rule: rev_induct)
  case Nil
  then show ?case by (simp add: matching_def longest_def)
next
  case (snoc r rs)
  obtain b a where prev: "fold (rule_step path) rs (- 1, True) = (b, a)" by fastforce
  have step: "rule_step path r (b, a) = (best, allowed)" using snoc.prems prev by simp
  show ?case
  proof (cases "robotPatternMatches (rr_pattern r) path")
    case False
    then show ?thesis using step snoc.IH [OF prev] by (simp add: matching_def rule_step_def)
  next
    case True
    then have m: "set (matching path (rs @ [r])) = insert r (set (matching path rs))" by (simp add: matching_def)
    show ?thesis using step True longest_insert [OF snoc.IH [OF prev], of r] unfolding m by (auto simp: rule_step_def split: if_split_asm)
  qed
qed

lemma longest_denies:
  assumes "longest M best allowed"
  shows "\<not> allowed \<longleftrightarrow> (\<exists>r\<in>M. \<not> rr_allow r \<and> (\<forall>r'\<in>M. rr_allow r' \<longrightarrow> rule_length r' < rule_length r))"
proof
  assume "\<not> allowed"
  then obtain r where r: "r \<in> M" "rule_length r = best" "\<not> rr_allow r" using assms by (auto simp: longest_def)
  moreover have "rule_length r' < best" if "r' \<in> M" "rr_allow r'" for r'
    using assms that \<open>\<not> allowed\<close> by (auto simp: longest_def order.strict_iff_order)
  ultimately show "\<exists>r\<in>M. \<not> rr_allow r \<and> (\<forall>r'\<in>M. rr_allow r' \<longrightarrow> rule_length r' < rule_length r)" by auto
next
  assume "\<exists>r\<in>M. \<not> rr_allow r \<and> (\<forall>r'\<in>M. rr_allow r' \<longrightarrow> rule_length r' < rule_length r)"
  then obtain r where r: "r \<in> M" "\<And>r'. r' \<in> M \<Longrightarrow> rr_allow r' \<Longrightarrow> rule_length r' < rule_length r" by blast
  then obtain r0 where "r0 \<in> M" "rule_length r0 = best" "rr_allow r0 = allowed" using assms by (auto simp: longest_def)
  moreover have "rule_length r \<le> best" using assms r(1) by (simp add: longest_def)
  ultimately show "\<not> allowed" using r(2) [of r0] by auto
qed

text \<open>
  C35. A path is denied exactly when, among the rules of the groups that name this client best, some matching rule that
  disallows it is longer than every matching rule that allows it: the most specific group and the longest
  pattern decide, an allowing rule wins a tie, and without a matching rule the path is allowed.
\<close>

theorem robots_longest_match:
  "robotsDisallows B document path \<longleftrightarrow>
     (\<exists>r\<in>set (applicable_rules B (robot_groups B document)). \<not> rr_allow r \<and> robotPatternMatches (rr_pattern r) path
        \<and> (\<forall>r'\<in>set (applicable_rules B (robot_groups B document)). rr_allow r' \<longrightarrow> robotPatternMatches (rr_pattern r') path \<longrightarrow> rule_length r' < rule_length r))"
proof -
  let ?rs = "applicable_rules B (robot_groups B document)"
  obtain best allowed where f: "fold (rule_step path) ?rs (- 1, True) = (best, allowed)" by fastforce
  have "robotsDisallows B document path \<longleftrightarrow> \<not> allowed" using f by (simp add: robotsDisallows_def matched_rules_def group_fold)
  moreover have "\<not> allowed \<longleftrightarrow> (\<exists>r\<in>set (matching path ?rs). \<not> rr_allow r \<and> (\<forall>r'\<in>set (matching path ?rs). rr_allow r' \<longrightarrow> rule_length r' < rule_length r))"
    by (rule longest_denies) (rule rule_fold [OF f])
  ultimately show ?thesis by (auto simp: matching_def)
qed

text \<open>
  A group whose only rule is an empty \<open>Disallow\<close>, which allows everything, is not closed by it: the next group's rules are taken for its own, so
  this document, which allows this client everything and others nothing, denies it.
\<close>

definition sample_robots :: string where
  "sample_robots = ''User-agent: relantern'' @ [CHR 0x0A] @ ''Disallow:'' @ [CHR 0x0A] @ ''User-agent: *'' @ [CHR 0x0A] @ ''Disallow: /'' @ [CHR 0x0A]"

definition ascii_lower :: "string \<Rightarrow> string" where
  "ascii_lower s = map (\<lambda>c. if 65 \<le> byte c \<and> byte c \<le> (90 :: nat) then char_of (byte c + 32) else c) s"

definition sample_robots_lib :: robots_lib where
  "sample_robots_lib = \<lparr>rb_ToLower = ascii_lower, rb_EqualFold = (\<lambda>a b. ascii_lower a = ascii_lower b)\<rparr>"

lemma empty_disallow_merges_groups:
  "robotsDisallows sample_robots_lib sample_robots ''/feed'' \<and> map rg_agents (robot_groups sample_robots_lib sample_robots) = [[''relantern'', ''*'']]"
  by code_simp

theorem robots_longest_match_witness:
  "\<exists>r\<in>set (applicable_rules sample_robots_lib (robot_groups sample_robots_lib sample_robots)). \<not> rr_allow r \<and> robotPatternMatches (rr_pattern r) ''/feed''"
  using robots_longest_match [of sample_robots_lib sample_robots "''/feed''"] empty_disallow_merges_groups by blast

end
