(* ===== verification/Source_Poller.thy ===== *)
theory Source_Poller
  imports Fetcher Robots
begin

text \<open>
  Polling (\<open>src/internal/ingestion\<close>: \<open>network.go\<close> and the poller of \<open>ingestion.go\<close>): the network fetcher, which checks the destination and the robots policy of a
  source before it fetches it, and the poller, which records every fetch and walks through the pages of the
  global advisory feed, a few at each poll, with a cursor kept in the checkpoint. The poller uses the interface
  \<open>page_source\<close> of a fetcher; the repository, the clock and the context are arguments. Over many polls the checkpoint is the one the recorded
  fetches left in the database (\<open>stored_checkpoint\<close>).
\<close>

section \<open>The network fetcher\<close>

record ingest_endpoint =
  ie_RegistryID :: string
  ie_SourceID :: string
  ie_Connector :: connector
  ie_URL :: string
  ie_ContentPolicy :: string
  ie_ExpectedContentTypes :: "string list"
  ie_MaxResponseBytes :: int
  ie_Checkpoint :: checkpoint

record network_env =
  nw_env :: fetch_env
  nw_robots :: robots_lib
  nw_escaped_path :: "parsed_url \<Rightarrow> string"
  nw_allowLocalFixtures :: bool
  nw_githubReadToken :: string

definition robotsLimit :: nat where "robotsLimit = 256 * 2 ^ 10"

datatype robots_answer = RobotsAllowed | RobotsDenied | RobotsFailed

definition robots_url :: "parsed_url \<Rightarrow> parsed_url" where
  "robots_url u = u\<lparr>pu_Path := ''/robots.txt'', pu_RawPath := [], pu_RawQuery := []\<rparr>"

definition robots_request :: "fetch_env \<Rightarrow> parsed_url \<Rightarrow> http_request" where
  "robots_request E u =
     \<lparr>rq_URL = fe_url_string E (robots_url u), rq_UserAgent = robots_agent, rq_Accept = ''text/plain'', rq_AcceptEncoding = [], rq_Authorization = None,
      rq_IfNoneMatch = None, rq_IfModifiedSince = None\<rparr>"

definition robots_path :: "network_env \<Rightarrow> parsed_url \<Rightarrow> string" where
  "robots_path N u = nw_escaped_path N u @ (if pu_RawQuery u \<noteq> [] then ''?'' @ pu_RawQuery u else [])"

definition robots_response :: "network_env \<Rightarrow> parsed_url \<Rightarrow> http_response \<Rightarrow> robots_answer" where
  "robots_response N u r =
     (if rs_StatusCode r = 404 \<or> rs_StatusCode r = 410 then RobotsAllowed
      else if rs_StatusCode r = 401 \<or> rs_StatusCode r = 403 then RobotsDenied
      else if rs_StatusCode r < 200 \<or> rs_StatusCode r \<ge> 300 then RobotsFailed
      else if rs_BodyFails r \<and> length (rs_Body r) < robotsLimit + 1 then RobotsFailed
      else if length (take (robotsLimit + 1) (rs_Body r)) > robotsLimit then RobotsFailed
      else if robotsDisallows (nw_robots N) (take (robotsLimit + 1) (rs_Body r)) (robots_path N u) then RobotsDenied
      else RobotsAllowed)"

definition checkRobots :: "network_env \<Rightarrow> fetch_env \<Rightarrow> parsed_url \<Rightarrow> 's fetch_state \<Rightarrow> robots_answer \<times> 's fetch_state" where
  "checkRobots N E u s =
     (if \<not> fe_request_ok E (fe_url_string E (robots_url u)) then (RobotsFailed, s)
      else (case fe_do E (ft_step s) (robots_request E u) of
              Inl _ \<Rightarrow> (RobotsFailed, emit (Probed (robots_request E u)) s)
            | Inr r \<Rightarrow> (robots_response N u r, emit (Probed (robots_request E u)) s)))"

definition network_failure :: "network_env \<Rightarrow> fetch_code \<Rightarrow> bool \<Rightarrow> 's fetch_state \<Rightarrow> fetch_result \<times> go_error option \<times> 's fetch_state" where
  "network_failure N code r s =
     (let (now, s1) = read_clock (nw_env N) s in
      ((failed_result empty_checkpoint)\<lparr>fr_Attempts := [failed_attempt code (completedAttempt now now 0)]\<rparr>, Some (newFetchError code r), s1))"

definition network_config :: "network_env \<Rightarrow> fetch_config" where
  "network_config N = (DefaultConfig robots_agent)\<lparr>cf_RetryAttempts := 2, cf_GitHubReadToken := nw_githubReadToken N\<rparr>"

definition network_endpoint :: "ingest_endpoint \<Rightarrow> parsed_url \<Rightarrow> fetch_endpoint" where
  "network_endpoint e u =
     \<lparr>fn_ID = ie_RegistryID e, fn_SourceID = ie_SourceID e, fn_URL = ie_URL e, fn_AllowedHosts = [fst (split_host_port (pu_Host u))],
      fn_ExpectedContentTypes = ie_ExpectedContentTypes e, fn_MaxBodyBytes = ie_MaxResponseBytes e, fn_ContentPolicy = ie_ContentPolicy e\<rparr>"

definition fail_last :: "fetch_result \<Rightarrow> fetch_result" where
  "fail_last r = r\<lparr>fr_Outcome := OutcomeFailed, fr_Attempts := butlast (fr_Attempts r) @ [failed_attempt ErrorUnexpectedStatus (last (fr_Attempts r))]\<rparr>"

text \<open>The end: a fetch without attempts becomes a failed attempt, and 304 is only an answer to a conditional request.\<close>

definition network_result ::
    "network_env \<Rightarrow> ingest_endpoint \<Rightarrow> fetch_result \<times> go_error option \<times> 's fetch_state \<Rightarrow> fetch_result \<times> go_error option \<times> 's fetch_state" where
  "network_result N e out =
     (case out of (r, err, s) \<Rightarrow>
        if fr_Attempts r = [] then
          (case err of
             Some (GoFetch f) \<Rightarrow> network_failure N (err_Code f) (err_Retryable f) s
           | Some GoPlain \<Rightarrow> network_failure N ErrorTransport True s
           | None \<Rightarrow> network_failure N ErrorTransport False s)
        else if fr_Outcome r = OutcomeNotModified \<and> cp_ETag (ie_Checkpoint e) = [] \<and> cp_LastModified (ie_Checkpoint e) = []
        then (fail_last r, Some (newFetchError ErrorUnexpectedStatus True), s)
        else (r, err, s))"

definition network_fetch_with ::
    "network_env \<Rightarrow> 's raw_ops \<Rightarrow> ingest_endpoint \<Rightarrow> parsed_url \<Rightarrow> (string \<times> nat) list \<Rightarrow> 's fetch_state \<Rightarrow> fetch_result \<times> go_error option \<times> 's fetch_state" where
  "network_fetch_with N R e u fixtures s =
     (case NewPolicy (fe_net (nw_env N)) [fst (split_host_port (pu_Host u))] fixtures of
        None \<Rightarrow> network_failure N ErrorInvalidURL False s
      | Some p \<Rightarrow>
          (let E = (nw_env N)\<lparr>fe_policy := p\<rparr> in
           if isl (ValidateURL (fe_net E) p None (Some (target_of u))) then network_failure N ErrorDestinationDenied False s
           else if client_problem DefaultNetworkLimits 3 \<noteq> None then network_failure N ErrorTransport False s
           else (case checkRobots N E u s of
                   (RobotsDenied, s1) \<Rightarrow> network_failure N ErrorDestinationDenied False s1
                 | (RobotsFailed, s1) \<Rightarrow> network_failure N ErrorDestinationDenied True s1
                 | (RobotsAllowed, s1) \<Rightarrow>
                     if New_problem (network_config N) \<noteq> None then network_failure N ErrorTransport False s1
                     else network_result N e (Fetch E (network_config N) R (network_endpoint e u) (ie_Checkpoint e) s1))))"

definition network_Fetch :: "network_env \<Rightarrow> 's raw_ops \<Rightarrow> ingest_endpoint \<Rightarrow> 's fetch_state \<Rightarrow> fetch_result \<times> go_error option \<times> 's fetch_state" where
  "network_Fetch N R e s =
     (case lib_url (fe_lib (nw_env N)) (ie_URL e) of
        None \<Rightarrow> network_failure N ErrorInvalidURL False s
      | Some u \<Rightarrow>
          (let host = fst (split_host_port (pu_Host u)) in
           if host = [] then network_failure N ErrorInvalidURL False s
           else if pu_Scheme u = ''http'' then
             (if \<not> nw_allowLocalFixtures N \<or> host \<noteq> ''fake-source'' \<or> snd (split_host_port (pu_Host u)) \<noteq> ''8090''
              then network_failure N ErrorDestinationDenied False s
              else network_fetch_with N R e u [(''fake-source'', 8090)] s)
           else if pu_Scheme u \<noteq> ''https'' then network_failure N ErrorInvalidURL False s
           else network_fetch_with N R e u [] s))"

section \<open>The scan state of the advisory feed\<close>

type_synonym provider_state = "string \<Rightarrow> config_value option"

definition maximumPagesPerScan :: int where "maximumPagesPerScan = 10000"

definition recentPagesLimit :: nat where "recentPagesLimit = 32"

definition last_pages :: "string list \<Rightarrow> string list" where
  "last_pages recent = drop (length recent - recentPagesLimit) recent"

definition advisoryScanPageCount :: "config_value option \<Rightarrow> int" where
  "advisoryScanPageCount v =
     (case v of
        Some (AnyInt pages) \<Rightarrow> pages
      | Some (AnyFloat f) \<Rightarrow> (if flt_ge f (Fin 0) \<and> flt_le f (Fin 10001) then (case f of Fin x \<Rightarrow> \<lfloor>x\<rfloor> | _ \<Rightarrow> 0) else 10001)
      | _ \<Rightarrow> 0)"

definition advisoryRecentPages :: "config_value option \<Rightarrow> string list" where
  "advisoryRecentPages v =
     last_pages
       (case v of
          Some (AnyStrings vs) \<Rightarrow> vs
        | Some (AnyList vs) \<Rightarrow> concat (map (\<lambda>x. case x of AnyString d \<Rightarrow> if length d = 64 then [d] else [] | _ \<Rightarrow> []) vs)
        | _ \<Rightarrow> [])"

definition advisoryScanIssue :: "checkpoint \<Rightarrow> string" where
  "advisoryScanIssue cp = (case cp_ProviderState cp ''advisoryScanIssue'' of Some (AnyString s) \<Rightarrow> s | _ \<Rightarrow> [])"

definition page_digest :: "(string \<Rightarrow> string) \<Rightarrow> string \<Rightarrow> string" where
  "page_digest sha url = hex_encode (sha url)"

definition scan_finished :: "string \<Rightarrow> provider_state \<Rightarrow> provider_state" where
  "scan_finished now st =
     st(''advisoryScanStartedAt'' := None, ''advisoryScanPages'' := None, ''advisoryScanRecentPages'' := None, ''advisoryScanIssue'' := None,
        ''advisoryScanCompletedAt'' \<mapsto> AnyString now)"

definition scan_started :: "string \<Rightarrow> bool \<Rightarrow> provider_state \<Rightarrow> provider_state" where
  "scan_started now newScan st =
     (let st1 = (if newScan then st(''advisoryScanPages'' \<mapsto> AnyInt 0, ''advisoryScanRecentPages'' \<mapsto> AnyStrings [], ''advisoryScanIssue'' := None) else st) in
      if newScan \<or> st1 ''advisoryScanStartedAt'' \<in> {None, Some AnyNil} then st1(''advisoryScanStartedAt'' \<mapsto> AnyString now) else st1)"

definition scan_page :: "(string \<Rightarrow> string) \<Rightarrow> string \<Rightarrow> string \<Rightarrow> provider_state \<Rightarrow> provider_state" where
  "scan_page sha nextURL fetchedPageURL st =
     (let pages = advisoryScanPageCount (st ''advisoryScanPages'') + 1;
          recent = advisoryRecentPages (st ''advisoryScanRecentPages'');
          st1 = st(''advisoryScanPages'' \<mapsto> AnyInt pages);
          st2 = (if page_digest sha nextURL \<in> set recent then st1(''advisoryScanIssue'' \<mapsto> AnyString ''cursor_cycle'') else st1);
          st3 = st2(''advisoryScanRecentPages'' \<mapsto> AnyStrings (last_pages (recent @ [page_digest sha fetchedPageURL]))) in
      if pages > maximumPagesPerScan then st3(''advisoryScanIssue'' \<mapsto> AnyString ''page_limit'') else st3)"

definition setAdvisoryScanState :: "(string \<Rightarrow> string) \<Rightarrow> string \<Rightarrow> string \<Rightarrow> bool \<Rightarrow> string \<Rightarrow> checkpoint \<Rightarrow> checkpoint" where
  "setAdvisoryScanState sha now nextURL newScan fetchedPageURL cp =
     cp\<lparr>cp_ProviderState :=
       (if nextURL = [] then scan_finished now (cp_ProviderState cp)
        else (let st = scan_started now newScan (cp_ProviderState cp) in
              if fetchedPageURL \<noteq> [] then scan_page sha nextURL fetchedPageURL st else st))\<rparr>"

definition advisoryScanDue :: "checkpoint \<Rightarrow> time \<Rightarrow> bool" where
  "advisoryScanDue cp now =
     (if cp_Cursor cp \<noteq> [] then False
      else (case cp_ProviderState cp ''advisoryScanCompletedAt'' of
              Some (AnyString completedAt) \<Rightarrow>
                (case parse_rfc3339 completedAt of None \<Rightarrow> True | Some completed \<Rightarrow> \<not> now < completed + 24 * hour)
            | _ \<Rightarrow> True))"

section \<open>The poller\<close>

record 's poller_env =
  pe_fetch :: "ingest_endpoint \<Rightarrow> 's \<Rightarrow> fetch_result \<times> go_error option \<times> 's"
  pe_lib :: evidence_lib
  pe_enabled :: bool
  pe_load :: "string \<Rightarrow> string + ingest_endpoint option"
  pe_record_ok :: "nat \<Rightarrow> bool"
  pe_ctx_ok :: "nat \<Rightarrow> bool"
  pe_now :: "nat \<Rightarrow> time"
  pe_format :: "time \<Rightarrow> string"
  pe_sha256 :: "string \<Rightarrow> string"

type_synonym fetch_record = "ingest_endpoint \<times> fetch_result \<times> go_error option"

record 's poller_state =
  po_fetch :: 's
  po_recorded :: "fetch_record list"
  po_step :: nat

definition globalID :: string where "globalID = ''github-global-advisories''"

definition continuation_not_modified :: "ingest_endpoint \<Rightarrow> fetch_result \<Rightarrow> bool" where
  "continuation_not_modified e r \<longleftrightarrow> ie_RegistryID e = globalID \<and> ie_URL e \<noteq> GlobalReviewedAdvisoriesURL \<and> fr_Outcome r = OutcomeNotModified"

text \<open>A fetch is recorded with the checkpoint its \<open>prepare\<close> function computes, if there is one and the fetch succeeded.\<close>

definition fetchAndRecord ::
    "'s poller_env \<Rightarrow> ingest_endpoint \<Rightarrow> (string \<Rightarrow> fetch_result \<Rightarrow> fetch_result) \<Rightarrow> 's poller_state \<Rightarrow> fetch_result \<times> string option \<times> 's poller_state" where
  "fetchAndRecord P e prepare st =
     (case pe_fetch P e (po_fetch st) of (r, err, fs) \<Rightarrow>
        (let st1 = st\<lparr>po_fetch := fs, po_step := po_step st + 1\<rparr> in
         if fr_Attempts r = [] then (r, Some ''fetch returned no attempt'', st1)
         else
           (let (r1, err1) = (if continuation_not_modified e r then (fail_last r, Some (newFetchError ErrorUnexpectedStatus True)) else (r, err));
                r2 = (if err1 = None \<and> fr_Outcome r1 \<noteq> OutcomeFailed then prepare (pe_format P (pe_now P (po_step st1))) r1 else r1) in
            if \<not> pe_record_ok P (po_step st1) then (r2, Some ''record source fetch'', st1)
            else (r2, None, st1\<lparr>po_recorded := (e, r2, err1) # po_recorded st1\<rparr>))))"

definition prepare_root :: "'s poller_env \<Rightarrow> string \<Rightarrow> string \<Rightarrow> fetch_result \<Rightarrow> fetch_result" where
  "prepare_root P priorCursor now r =
     (if fr_Outcome r = OutcomeNotModified \<and> priorCursor = [] then r
      else
        (let cursor = (if fr_Outcome r = OutcomeStored \<and> fr_NextPageURL r = [] then [] else if priorCursor \<noteq> [] then priorCursor else fr_NextPageURL r) in
         r\<lparr>fr_Checkpoint := setAdvisoryScanState (pe_sha256 P) now cursor (priorCursor = []) [] ((fr_Checkpoint r)\<lparr>cp_Cursor := cursor\<rparr>)\<rparr>))"

definition prepare_page :: "'s poller_env \<Rightarrow> checkpoint \<Rightarrow> string \<Rightarrow> fetch_result \<Rightarrow> fetch_result" where
  "prepare_page P cp now r =
     r\<lparr>fr_Checkpoint := setAdvisoryScanState (pe_sha256 P) now (fr_NextPageURL r) False (cp_Cursor cp) (cp\<lparr>cp_Cursor := fr_NextPageURL r\<rparr>)\<rparr>"

fun pages_loop :: "'s poller_env \<Rightarrow> ingest_endpoint \<Rightarrow> nat \<Rightarrow> checkpoint \<Rightarrow> 's poller_state \<Rightarrow> string option \<times> 's poller_state" where
  "pages_loop P e 0 cp st = (None, st)"
| "pages_loop P e (Suc n) cp st =
     (if cp_Cursor cp = [] then (None, st)
      else if \<not> pe_ctx_ok P (po_step st) then (Some ''context canceled'', st)
      else (case fetchAndRecord P (e\<lparr>ie_URL := cp_Cursor cp, ie_Checkpoint := empty_checkpoint\<rparr>) (prepare_page P cp) st of
              (r, Some err, st1) \<Rightarrow> (Some err, st1)
            | (r, None, st1) \<Rightarrow>
                if fr_Outcome r = OutcomeFailed then (None, st1)
                else if advisoryScanIssue (fr_Checkpoint r) \<noteq> [] then (None, st1)
                else pages_loop P e n (fr_Checkpoint r) st1))"

definition continuationPagesPerPoll :: nat where "continuationPagesPerPoll = 2"

definition root_endpoint :: "'s poller_env \<Rightarrow> ingest_endpoint \<Rightarrow> 's poller_state \<Rightarrow> ingest_endpoint" where
  "root_endpoint P e st =
     (if advisoryScanDue (ie_Checkpoint e) (pe_now P (po_step st))
      then e\<lparr>ie_Checkpoint := (ie_Checkpoint e)\<lparr>cp_ETag := [], cp_LastModified := []\<rparr>\<rparr> else e)"

definition pollGlobalAdvisories :: "'s poller_env \<Rightarrow> ingest_endpoint \<Rightarrow> 's poller_state \<Rightarrow> string option \<times> 's poller_state" where
  "pollGlobalAdvisories P e st =
     (let priorCursor = cp_Cursor (ie_Checkpoint e) in
      if priorCursor \<noteq> [] \<and> \<not> IsGlobalAdvisoryPageURL (pe_lib P) priorCursor
      then (Some ''reviewed advisory checkpoint contains an invalid continuation URL'', st)
      else (case fetchAndRecord P (root_endpoint P e st) (prepare_root P priorCursor) st of
              (r, Some err, st1) \<Rightarrow> (Some err, st1)
            | (r, None, st1) \<Rightarrow>
                if fr_Outcome r = OutcomeFailed then (None, st1)
                else if advisoryScanIssue (fr_Checkpoint r) \<noteq> [] then (None, st1)
                else pages_loop P e continuationPagesPerPoll (fr_Checkpoint r) st1))"

definition Poll :: "'s poller_env \<Rightarrow> string \<Rightarrow> 's poller_state \<Rightarrow> string option \<times> 's poller_state" where
  "Poll P registryID st =
     (if \<not> pe_enabled P then (None, st)
      else if registryID = [] then (Some ''source registry ID is required'', st)
      else (case pe_load P registryID of
              Inl err \<Rightarrow> (Some err, st)
            | Inr None \<Rightarrow> (None, st)
            | Inr (Some e) \<Rightarrow>
                if ie_RegistryID e = globalID \<and> ie_SourceID e = globalID \<and> ie_Connector e = ConnectorGitHubAdvisories \<and> ie_URL e = GlobalReviewedAdvisoriesURL
                then pollGlobalAdvisories P e st
                else (case fetchAndRecord P e (\<lambda>now r. r) st of (r, err, st1) \<Rightarrow> (err, st1))))"

text \<open>Reconciliation runs its three steps whatever becomes of the others.\<close>

definition poller_Reconcile :: "bool \<Rightarrow> int \<times> string option \<Rightarrow> int \<times> string option \<Rightarrow> int \<times> string option \<Rightarrow> int \<times> string list" where
  "poller_Reconcile enabled due pending observations =
     (let (dueCount, dueErr) = (if enabled then due else (0, None));
          errs = [dueErr, snd pending, snd observations] in
      (dueCount + fst pending + fst observations, concat (map (case_option [] (\<lambda>x. [x])) errs)))"

section \<open>The poller stays on the feed\<close>

text \<open>What the poller relies on of its fetcher.\<close>

locale page_source =
  fixes fetch :: "ingest_endpoint \<Rightarrow> 's \<Rightarrow> fetch_result \<times> go_error option \<times> 's" and L :: evidence_lib
  assumes failed: "fetch e s = (r, Some err, s') \<Longrightarrow> fr_Outcome r = OutcomeFailed"
    and page: "fetch e s = (r, None, s') \<Longrightarrow> ie_RegistryID e = globalID \<Longrightarrow> ie_SourceID e = globalID \<Longrightarrow>
      fr_Outcome r \<in> {OutcomeStored, OutcomeNotModified} \<and> cp_Cursor (fr_Checkpoint r) = cp_Cursor (ie_Checkpoint e)
      \<and> cp_ProviderState (fr_Checkpoint r) = cp_ProviderState (ie_Checkpoint e)
      \<and> (fr_NextPageURL r = [] \<or> IsGlobalAdvisoryPageURL L (fr_NextPageURL r) \<and> fr_NextPageURL r \<noteq> GlobalReviewedAdvisoriesURL)"

definition feed_cursor :: "evidence_lib \<Rightarrow> string \<Rightarrow> bool" where
  "feed_cursor L c \<longleftrightarrow> c = [] \<or> IsGlobalAdvisoryPageURL L c"

definition record_cursor :: "fetch_record \<Rightarrow> string" where
  "record_cursor rec = cp_Cursor (fr_Checkpoint (fst (snd rec)))"

text \<open>
  The records of one poll, the newest first: the first fetch is the pinned first page, every later one is the page the record before
  it left as the cursor, and all of them are pages of the feed.
\<close>

fun feed_records :: "evidence_lib \<Rightarrow> fetch_record list \<Rightarrow> bool" where
  "feed_records L [] \<longleftrightarrow> True"
| "feed_records L [rec] \<longleftrightarrow> ie_URL (fst rec) = GlobalReviewedAdvisoriesURL \<and> (fr_Outcome (fst (snd rec)) \<noteq> OutcomeFailed \<longrightarrow> feed_cursor L (record_cursor rec))"
| "feed_records L (rec # prev # recs) \<longleftrightarrow>
     ie_URL (fst rec) = record_cursor prev \<and> ie_URL (fst rec) \<noteq> [] \<and> fr_Outcome (fst (snd prev)) \<noteq> OutcomeFailed
     \<and> (fr_Outcome (fst (snd rec)) \<noteq> OutcomeFailed \<longrightarrow> feed_cursor L (record_cursor rec)) \<and> feed_records L (prev # recs)"

lemma scan_state_cursor [simp]: "cp_Cursor (setAdvisoryScanState sha now url new page cp) = cp_Cursor cp"
  by (simp add: setAdvisoryScanState_def)

lemma prepare_facts:
  "fr_Outcome (prepare_root P prior now r) = fr_Outcome r" "fr_Outcome (prepare_page P cp now r) = fr_Outcome r"
  "cp_Cursor (fr_Checkpoint r) = prior \<Longrightarrow> feed_cursor L (fr_NextPageURL r) \<Longrightarrow> feed_cursor L prior \<Longrightarrow> feed_cursor L (cp_Cursor (fr_Checkpoint (prepare_root P prior now r)))"
  "cp_Cursor (fr_Checkpoint (prepare_page P cp now r)) = fr_NextPageURL r"
  by (auto simp: prepare_root_def prepare_page_def Let_def feed_cursor_def)

lemma fetchAndRecord_cases:
  assumes "fetchAndRecord P e prepare st = (r, err, st')"
  obtains (unrecorded) msg where "err = Some msg" "po_recorded st' = po_recorded st"
    | (failed) ferr where "err = None" "po_recorded st' = (e, r, ferr) # po_recorded st" "fr_Outcome r = OutcomeFailed"
    | (fetched) now r0 s0 s1 ferr where "err = None" "po_recorded st' = (e, r, ferr) # po_recorded st" "pe_fetch P e s0 = (r0, ferr, s1)" "fr_Outcome r0 \<noteq> OutcomeFailed"
        "ferr = None \<longrightarrow> r = prepare now r0" "ferr \<noteq> None \<longrightarrow> r = r0"
proof -
  obtain r0 ferr fs where f: "pe_fetch P e (po_fetch st) = (r0, ferr, fs)" by (metis prod_cases3)
  show ?thesis
  proof (cases "fr_Attempts r0 = [] \<or> \<not> pe_record_ok P (po_step st + 1)")
    case True
    then show ?thesis using assms f unrecorded by (auto simp: fetchAndRecord_def Let_def split: if_split_asm prod.split_asm)
  next
    case False
    show ?thesis
    proof (cases "continuation_not_modified e r0 \<or> fr_Outcome r0 = OutcomeFailed")
      case True
      then show ?thesis using assms f False failed by (auto simp: fetchAndRecord_def Let_def fail_last_def split: if_split_asm)
    next
      case ok: False
      then show ?thesis using assms f False fetched [OF _ _ f] by (auto simp: fetchAndRecord_def Let_def split: if_split_asm)
    qed
  qed
qed

context page_source
begin

lemma page_step:
  assumes "fetchAndRecord P e prepare st = (r, None, st')" "pe_fetch P = fetch" "ie_RegistryID e = globalID" "ie_SourceID e = globalID"
    and keeps: "\<And>now r0. fr_Outcome (prepare now r0) = fr_Outcome r0"
    and cursor: "\<And>now r0. cp_Cursor (fr_Checkpoint r0) = cp_Cursor (ie_Checkpoint e) \<Longrightarrow> feed_cursor L (fr_NextPageURL r0) \<Longrightarrow> feed_cursor L (cp_Cursor (fr_Checkpoint (prepare now r0)))"
  shows "\<exists>ferr. po_recorded st' = (e, r, ferr) # po_recorded st \<and> (fr_Outcome r \<noteq> OutcomeFailed \<longrightarrow> feed_cursor L (cp_Cursor (fr_Checkpoint r)))"
  using assms(1)
proof (cases rule: fetchAndRecord_cases)
  case (fetched now r0 s0 s1 ferr)
  then have none: "ferr = None" using failed assms(2) by (cases ferr) auto
  then have "fetch e s0 = (r0, None, s1)" using fetched(3) assms(2) by simp
  from page [OF this assms(3,4)] have "feed_cursor L (fr_NextPageURL r0)" "cp_Cursor (fr_Checkpoint r0) = cp_Cursor (ie_Checkpoint e)" by (auto simp: feed_cursor_def)
  then show ?thesis using fetched cursor none by auto
qed auto

lemma pages_loop_records:
  assumes "pages_loop P e n cp st = (err, st')" "pe_fetch P = fetch" "ie_RegistryID e = globalID" "ie_SourceID e = globalID"
    and "feed_cursor L (cp_Cursor cp)" "feed_records L (rec # recs)" "po_recorded st = (rec # recs) @ old" "record_cursor rec = cp_Cursor cp"
    and "fr_Outcome (fst (snd rec)) \<noteq> OutcomeFailed"
  shows "\<exists>recs'. po_recorded st' = recs' @ old \<and> length recs' \<le> length (rec # recs) + n \<and> feed_records L recs'"
  using assms
proof (induction P e n cp st arbitrary: rec recs rule: pages_loop.induct)
  case (1 P e cp st)
  then show ?case by (intro exI [of _ "rec # recs"]) simp
next
  case (2 P e n cp st)
  let ?e = "e\<lparr>ie_URL := cp_Cursor cp, ie_Checkpoint := empty_checkpoint\<rparr>"
  show ?case
  proof (cases "cp_Cursor cp = [] \<or> \<not> pe_ctx_ok P (po_step st)")
    case True
    then show ?thesis using 2(2,7,8) by (intro exI [of _ "rec # recs"]) (auto split: if_split_asm)
  next
    case go: False
    obtain r ferr st1 where f: "fetchAndRecord P ?e (prepare_page P cp) st = (r, ferr, st1)" by (metis prod_cases3)
    show ?thesis
    proof (cases ferr)
      case (Some msg)
      from f have "po_recorded st1 = po_recorded st" by (cases rule: fetchAndRecord_cases) (use Some in auto)
      then show ?thesis using 2(2,7,8) go f Some by (intro exI [of _ "rec # recs"]) auto
    next
      case None
      from page_step [OF f [unfolded None] 2(3)] 2(4,5) obtain err1 where
          st1: "po_recorded st1 = (?e, r, err1) # po_recorded st" "fr_Outcome r \<noteq> OutcomeFailed \<longrightarrow> feed_cursor L (cp_Cursor (fr_Checkpoint r))"
        by (auto simp: prepare_page_def)
      let ?recs = "(?e, r, err1) # rec # recs"
      have recs: "feed_records L ?recs" "po_recorded st1 = ?recs @ old" using st1 2(7-10) go by (auto simp: record_cursor_def)
      show ?thesis
      proof (cases "fr_Outcome r = OutcomeFailed \<or> advisoryScanIssue (fr_Checkpoint r) \<noteq> []")
        case True
        then have "st' = st1" using 2(2) go f None by (auto split: if_split_asm)
        then show ?thesis using recs by (intro exI [of _ ?recs]) auto
      next
        case False
        then have "pages_loop P e n (fr_Checkpoint r) st1 = (err, st')" using 2(2) go f None by simp
        from 2(1) [OF _ _ f [symmetric] refl None _ _ this 2(3,4,5) _ recs(1) recs(2)] False st1(2) go
        show ?thesis by (auto simp: record_cursor_def)
      qed
    qed
  qed
qed

lemma poll_records:
  assumes "pollGlobalAdvisories P e st = (err, st')" "pe_fetch P = fetch" "pe_lib P = L" "ie_RegistryID e = globalID" "ie_SourceID e = globalID"
    and "ie_URL e = GlobalReviewedAdvisoriesURL" "feed_cursor L (cp_Cursor (ie_Checkpoint e))"
  shows "\<exists>recs. po_recorded st' = recs @ po_recorded st \<and> length recs \<le> 3 \<and> feed_records L recs"
proof -
  let ?e = "root_endpoint P e st" and ?prior = "cp_Cursor (ie_Checkpoint e)"
  have root: "ie_RegistryID ?e = globalID" "ie_SourceID ?e = globalID" "ie_URL ?e = GlobalReviewedAdvisoriesURL" "cp_Cursor (ie_Checkpoint ?e) = ?prior"
    using assms(4-6) by (simp_all add: root_endpoint_def)
  have prior: "\<not> (?prior \<noteq> [] \<and> \<not> IsGlobalAdvisoryPageURL (pe_lib P) ?prior)" using assms(3,7) by (auto simp: feed_cursor_def)
  obtain r ferr st1 where f: "fetchAndRecord P ?e (prepare_root P ?prior) st = (r, ferr, st1)" by (metis prod_cases3)
  show ?thesis
  proof (cases ferr)
    case (Some msg)
    from f have "po_recorded st1 = po_recorded st" by (cases rule: fetchAndRecord_cases) (use Some in auto)
    then show ?thesis using assms(1) prior f Some by (intro exI [of _ "[]"]) (auto simp: pollGlobalAdvisories_def Let_def)
  next
    case None
    from page_step [OF f [unfolded None] assms(2) root(1,2) prepare_facts(1) prepare_facts(3)] root(4) assms(7) obtain err1 where
        st1: "po_recorded st1 = (?e, r, err1) # po_recorded st" "fr_Outcome r \<noteq> OutcomeFailed \<longrightarrow> feed_cursor L (cp_Cursor (fr_Checkpoint r))"
      by auto
    have recs: "feed_records L [(?e, r, err1)]" using st1 root(3) by (simp add: record_cursor_def)
    show ?thesis
    proof (cases "fr_Outcome r = OutcomeFailed \<or> advisoryScanIssue (fr_Checkpoint r) \<noteq> []")
      case True
      then have "st' = st1" using assms(1) prior f None by (auto simp: pollGlobalAdvisories_def Let_def split: if_split_asm)
      then show ?thesis using recs st1 by (intro exI [of _ "[(?e, r, err1)]"]) auto
    next
      case False
      then have "pages_loop P e 2 (fr_Checkpoint r) st1 = (err, st')"
        using assms(1) prior f None by (simp add: pollGlobalAdvisories_def Let_def continuationPagesPerPoll_def)
      from pages_loop_records [OF this assms(2,4,5) _ recs, of "po_recorded st"] False st1 show ?thesis by (auto simp: record_cursor_def)
    qed
  qed
qed

end

subsection \<open>The network fetcher keeps the interface\<close>

lemma Fetch_failure: "Fetch E c R e cp s = (r, Some err, s') \<Longrightarrow> fr_Outcome r = OutcomeFailed"
proof (erule Fetch_cases)
  fix u hosts assume "fetch_loop E c R e u cp 1 (nat (cf_RetryAttempts c) - 1) (failed_result cp) s = (r, Some err, s')"
  from fetch_loop_ends [of "\<lambda>_. True", OF _ _ this] show "fr_Outcome r = OutcomeFailed" by (auto simp: loop_ends_def failed_result_def)
qed (simp add: failed_result_def)

lemma network_failure_err: "network_failure N code rt s = (r, err, s') \<Longrightarrow> err \<noteq> None \<and> fr_Outcome r = OutcomeFailed"
  by (auto simp: network_failure_def failed_result_def)

lemma network_result_cases:
  assumes "network_result N e (r0, err0, s0) = (r, err, s')"
  shows "err \<noteq> None \<and> fr_Outcome r = OutcomeFailed \<or> r = r0 \<and> err = err0"
  using assms by (auto simp: network_result_def fail_last_def split: if_split_asm option.split_asm go_error.split_asm dest: network_failure_err)

lemma network_Fetch_cases:
  assumes "network_Fetch N R e s = (r, err, s')"
  shows "err \<noteq> None \<and> fr_Outcome r = OutcomeFailed
    \<or> (\<exists>p u s0 s1. Fetch ((nw_env N)\<lparr>fe_policy := p\<rparr>) (network_config N) R (network_endpoint e u) (ie_Checkpoint e) s0 = (r, err, s1))"
proof -
  have with_policy: "err \<noteq> None \<and> fr_Outcome r = OutcomeFailed
    \<or> (\<exists>p u s0 s1. Fetch ((nw_env N)\<lparr>fe_policy := p\<rparr>) (network_config N) R (network_endpoint e u) (ie_Checkpoint e) s0 = (r, err, s1))"
    if "network_fetch_with N R e u fixtures s = (r, err, s')" for u fixtures
  proof (cases "\<exists>p s1. network_result N e (Fetch ((nw_env N)\<lparr>fe_policy := p\<rparr>) (network_config N) R (network_endpoint e u) (ie_Checkpoint e) s1) = (r, err, s')")
    case True
    then obtain p s1 where "network_result N e (Fetch ((nw_env N)\<lparr>fe_policy := p\<rparr>) (network_config N) R (network_endpoint e u) (ie_Checkpoint e) s1) = (r, err, s')" by blast
    moreover obtain r0 err0 s0 where "Fetch ((nw_env N)\<lparr>fe_policy := p\<rparr>) (network_config N) R (network_endpoint e u) (ie_Checkpoint e) s1 = (r0, err0, s0)" by (metis prod_cases3)
    ultimately show ?thesis using network_result_cases by metis
  next
    case False
    then show ?thesis using that
      by (auto simp: network_fetch_with_def Let_def split: option.split_asm if_split_asm prod.split_asm robots_answer.split_asm dest!: network_failure_err)
  qed
  show ?thesis using assms with_policy
    by (auto simp: network_Fetch_def Let_def split: option.split_asm if_split_asm dest!: network_failure_err)
qed

lemma network_page_source: "page_source (network_Fetch N (s3_ops C)) (fe_lib (nw_env N))"
proof
  fix e s r err s'
  assume "network_Fetch N (s3_ops C) e s = (r, Some err, s')"
  from network_Fetch_cases [OF this] show "fr_Outcome r = OutcomeFailed" using Fetch_failure by blast
next
  fix e s r s'
  assume fetch: "network_Fetch N (s3_ops C) e s = (r, None, s')" and e: "ie_RegistryID e = globalID" "ie_SourceID e = globalID"
  from network_Fetch_cases [OF fetch] obtain p u s0 s1 where
    f: "Fetch ((nw_env N)\<lparr>fe_policy := p\<rparr>) (network_config N) (s3_ops C) (network_endpoint e u) (ie_Checkpoint e) s0 = (r, None, s1)" by blast
  have "isGlobalReviewedAdvisoryEndpoint (network_endpoint e u)" using e by (simp add: isGlobalReviewedAdvisoryEndpoint_def network_endpoint_def globalID_def)
  from s3.Fetch_page [OF f this]
  show "fr_Outcome r \<in> {OutcomeStored, OutcomeNotModified} \<and> cp_Cursor (fr_Checkpoint r) = cp_Cursor (ie_Checkpoint e)
      \<and> cp_ProviderState (fr_Checkpoint r) = cp_ProviderState (ie_Checkpoint e)
      \<and> (fr_NextPageURL r = [] \<or> IsGlobalAdvisoryPageURL (fe_lib (nw_env N)) (fr_NextPageURL r) \<and> fr_NextPageURL r \<noteq> GlobalReviewedAdvisoriesURL)" by simp
qed

interpretation network: page_source "network_Fetch N (s3_ops C)" "fe_lib (nw_env N)" for N C
  by (rule network_page_source)

text \<open>
  C36. Whatever the source, the network and the storage do, a poll of the global advisories records at most three fetches: the pinned first page,
  then pages that the record before left as the cursor, all of them pages of the reviewed feed; and every cursor
  it stores is a page of the feed or empty, so the next poll finds a valid one. A poll that finds an invalid cursor in its checkpoint
  is an error that fetches and records nothing.
\<close>

theorem poll_follows_feed:
  assumes "pollGlobalAdvisories P e st = (err, st')" "pe_fetch P = network_Fetch N (s3_ops C)" "pe_lib P = fe_lib (nw_env N)"
    and "ie_RegistryID e = globalID" "ie_SourceID e = globalID" "ie_URL e = GlobalReviewedAdvisoriesURL"
  shows "(\<exists>recs. po_recorded st' = recs @ po_recorded st \<and> length recs \<le> 3 \<and> feed_records (pe_lib P) recs)
    \<and> (\<not> feed_cursor (pe_lib P) (cp_Cursor (ie_Checkpoint e)) \<longrightarrow> err \<noteq> None \<and> st' = st)"
proof (cases "feed_cursor (pe_lib P) (cp_Cursor (ie_Checkpoint e))")
  case True
  then show ?thesis using network.poll_records [OF assms(1-6)] assms(3) by simp
next
  case False
  then have "err \<noteq> None \<and> st' = st" using assms(1) by (auto simp: feed_cursor_def pollGlobalAdvisories_def Let_def)
  then show ?thesis by (intro conjI exI [of _ "[]"]) simp_all
qed

section \<open>A scan ends\<close>

text \<open>Stored and loaded again, numbers are floating-point numbers and lists of strings are lists of values.\<close>

definition json_value :: "config_value \<Rightarrow> config_value" where
  "json_value v = (case v of AnyInt n \<Rightarrow> AnyFloat (Fin (of_int n)) | AnyStrings vs \<Rightarrow> AnyList (map AnyString vs) | _ \<Rightarrow> v)"

definition json_reload :: "checkpoint \<Rightarrow> checkpoint" where
  "json_reload cp = cp\<lparr>cp_ProviderState := map_option json_value \<circ> cp_ProviderState cp\<rparr>"

text \<open>
  The checkpoint that the next poll loads, after the recorded fetches (the newest first): the one of the last fetch that did not fail, as
  \<open>src/internal/fetcher/pgstore/store.go\<close> writes it. A fetch whose record the repository refused is not in the list and leaves the checkpoint as it is.
\<close>

fun stored_checkpoint :: "checkpoint \<Rightarrow> fetch_record list \<Rightarrow> checkpoint" where
  "stored_checkpoint cp0 [] = cp0"
| "stored_checkpoint cp0 ((e, r, err) # older) =
     (if fr_Outcome r = OutcomeStored \<or> fr_Outcome r = OutcomeMetadataOnly \<or> fr_Outcome r = OutcomeNotModified
      then json_reload (fr_Checkpoint r) else stored_checkpoint cp0 older)"

text \<open>
  Polls of the feed one after the other, each with the checkpoint the records before it left, whatever has become of the fetcher's and the
  poller's state in between. The list holds all recorded fetches.
\<close>

inductive feed_polls :: "'s poller_env \<Rightarrow> ingest_endpoint \<Rightarrow> checkpoint \<Rightarrow> fetch_record list \<Rightarrow> bool" for P e cp0 where
  no_poll: "feed_polls P e cp0 []"
| next_poll: "feed_polls P e cp0 recs \<Longrightarrow> pollGlobalAdvisories P (e\<lparr>ie_Checkpoint := stored_checkpoint cp0 recs\<rparr>) st = (err, st')
    \<Longrightarrow> po_recorded st' = new @ po_recorded st \<Longrightarrow> feed_polls P e cp0 (new @ recs)"

text \<open>
  The continuation pages of the current scan, the newest first: a successful fetch of the first page starts a scan when there was no cursor,
  and every other successful fetch adds a page.
\<close>

fun scan_pages :: "checkpoint \<Rightarrow> fetch_record list \<Rightarrow> string list" where
  "scan_pages cp0 [] = []"
| "scan_pages cp0 ((e, r, err) # older) =
     (if fr_Outcome r = OutcomeFailed then scan_pages cp0 older
      else if ie_URL e = GlobalReviewedAdvisoriesURL then (if cp_Cursor (stored_checkpoint cp0 older) = [] then [] else scan_pages cp0 older)
      else ie_URL e # scan_pages cp0 older)"

abbreviation scan_count :: "checkpoint \<Rightarrow> int" where
  "scan_count cp \<equiv> advisoryScanPageCount (cp_ProviderState cp ''advisoryScanPages'')"

abbreviation scan_recent :: "checkpoint \<Rightarrow> string list" where
  "scan_recent cp \<equiv> advisoryRecentPages (cp_ProviderState cp ''advisoryScanRecentPages'')"

definition scan_inv :: "(string \<Rightarrow> string) \<Rightarrow> string list \<Rightarrow> checkpoint \<Rightarrow> bool" where
  "scan_inv sha pages cp \<longleftrightarrow>
     length pages \<le> 10001
     \<and> (cp_Cursor cp \<noteq> [] \<longrightarrow>
          scan_count cp = int (length pages) \<and> scan_recent cp = last_pages (map (page_digest sha) (rev pages))
          \<and> (advisoryScanIssue cp = [] \<longrightarrow> length pages \<le> 10000 \<and> page_digest sha (cp_Cursor cp) \<notin> set (take 32 (map (page_digest sha) (tl pages)))))"

lemma last_pages_rev: "last_pages (rev xs) = rev (take 32 xs)"
  by (simp add: last_pages_def recentPagesLimit_def rev_take)

lemma last_pages_idem [simp]: "last_pages (last_pages xs) = last_pages xs"
  by (simp add: last_pages_def)

lemma last_pages_snoc: "last_pages (last_pages xs @ [x]) = last_pages (xs @ [x])"
proof -
  obtain ys where "xs = rev ys" by (metis rev_rev_ident)
  then show ?thesis using last_pages_rev [of "x # ys"] last_pages_rev [of ys] last_pages_rev [of "x # take 32 ys"]
    by (simp add: min_def take_Cons' take_take)
qed

lemma scan_started_other: "k \<noteq> ''advisoryScanStartedAt'' \<Longrightarrow> scan_started now False st k = st k"
  by (simp add: scan_started_def Let_def)

lemma scan_page_values:
  "scan_page sha url page st ''advisoryScanPages'' = Some (AnyInt (advisoryScanPageCount (st ''advisoryScanPages'') + 1))"
  "scan_page sha url page st ''advisoryScanRecentPages'' = Some (AnyStrings (last_pages (advisoryRecentPages (st ''advisoryScanRecentPages'') @ [page_digest sha page])))"
  "scan_page sha url page st ''advisoryScanIssue'' =
     (if advisoryScanPageCount (st ''advisoryScanPages'') + 1 > maximumPagesPerScan then Some (AnyString ''page_limit'')
      else if page_digest sha url \<in> set (advisoryRecentPages (st ''advisoryScanRecentPages'')) then Some (AnyString ''cursor_cycle'')
      else st ''advisoryScanIssue'')"
  by (simp_all add: scan_page_def Let_def)

lemma scan_page_step:
  assumes "url \<noteq> []" "page \<noteq> []"
  shows "scan_count (setAdvisoryScanState sha now url False page cp) = scan_count cp + 1"
    and "scan_recent (setAdvisoryScanState sha now url False page cp) = last_pages (scan_recent cp @ [page_digest sha page])"
    and "advisoryScanIssue (setAdvisoryScanState sha now url False page cp) = [] \<Longrightarrow> page_digest sha url \<notin> set (scan_recent cp) \<and> scan_count cp + 1 \<le> 10000"
proof -
  let ?st = "scan_started now False (cp_ProviderState cp)"
  have st: "cp_ProviderState (setAdvisoryScanState sha now url False page cp) = scan_page sha url page ?st"
    using assms by (simp add: setAdvisoryScanState_def Let_def)
  note keep = scan_started_other [of _ now "cp_ProviderState cp"]
  show "scan_count (setAdvisoryScanState sha now url False page cp) = scan_count cp + 1"
    by (simp add: st scan_page_values keep advisoryScanPageCount_def [of "Some (AnyInt _)"])
  show "scan_recent (setAdvisoryScanState sha now url False page cp) = last_pages (scan_recent cp @ [page_digest sha page])"
    by (simp add: st scan_page_values keep advisoryRecentPages_def [of "Some (AnyStrings _)"])
  show "page_digest sha url \<notin> set (scan_recent cp) \<and> scan_count cp + 1 \<le> 10000" if "advisoryScanIssue (setAdvisoryScanState sha now url False page cp) = []"
    using that by (auto simp: advisoryScanIssue_def st scan_page_values keep maximumPagesPerScan_def split: if_split_asm)
qed

lemma scan_state_other:
  "url \<noteq> [] \<Longrightarrow> scan_count (setAdvisoryScanState sha now url False [] cp) = scan_count cp"
  "url \<noteq> [] \<Longrightarrow> scan_recent (setAdvisoryScanState sha now url False [] cp) = scan_recent cp"
  "url \<noteq> [] \<Longrightarrow> advisoryScanIssue (setAdvisoryScanState sha now url False [] cp) = advisoryScanIssue cp"
  by (simp_all add: setAdvisoryScanState_def scan_started_def Let_def advisoryScanIssue_def)

lemma scan_state_new:
  "url \<noteq> [] \<Longrightarrow> scan_count (setAdvisoryScanState sha now url True [] cp) = 0"
  "url \<noteq> [] \<Longrightarrow> scan_recent (setAdvisoryScanState sha now url True [] cp) = []"
  by (simp_all add: setAdvisoryScanState_def scan_started_def Let_def advisoryScanPageCount_def advisoryRecentPages_def last_pages_def)

lemma json_reload_count: "0 \<le> scan_count cp \<Longrightarrow> scan_count cp \<le> 10001 \<Longrightarrow> scan_count (json_reload cp) = scan_count cp"
  by (auto simp: json_reload_def json_value_def advisoryScanPageCount_def flt_ge_def flt_le_def split: option.splits config_value.splits)

lemma last_pages_filter:
  assumes "list_all ok (last_pages vs)"
  shows "last_pages (filter ok vs) = last_pages vs"
proof -
  define n where "n = length vs - recentPagesLimit"
  have split: "filter ok vs = filter ok (take n vs) @ last_pages vs"
  proof -
    have "filter ok (drop n vs) = drop n vs" using assms by (intro filter_True) (simp add: last_pages_def n_def list_all_iff)
    then show ?thesis using filter_append [of ok "take n vs" "drop n vs"] by (simp add: last_pages_def n_def)
  qed
  show ?thesis
  proof (cases "n = 0")
    case True
    then show ?thesis using split by (simp add: last_pages_def n_def)
  next
    case False
    then have "length (last_pages vs) = recentPagesLimit" by (simp add: last_pages_def n_def)
    then show ?thesis unfolding split by (simp add: last_pages_def [of "_ @ _"])
  qed
qed

lemma json_reload_recent:
  assumes "list_all (\<lambda>d. length d = 64) (scan_recent cp)"
  shows "scan_recent (json_reload cp) = scan_recent cp"
proof -
  have "concat (map (\<lambda>x. case x of AnyString d \<Rightarrow> if length d = 64 then [d] else [] | _ \<Rightarrow> []) (map AnyString vs)) = filter (\<lambda>d. length d = 64) vs" for vs
    by (induction vs) auto
  then show ?thesis using assms last_pages_filter [of "\<lambda>d. length d = 64"]
    by (auto simp: json_reload_def json_value_def advisoryRecentPages_def split: option.splits config_value.splits)
qed

lemma json_reload_cursor: "cp_Cursor (json_reload cp) = cp_Cursor cp"
  by (simp add: json_reload_def)

lemma json_reload_issue: "advisoryScanIssue (json_reload cp) = advisoryScanIssue cp"
  by (auto simp: json_reload_def json_value_def advisoryScanIssue_def split: option.splits config_value.splits)

text \<open>The four ways a checkpoint of the scan changes: the start, a page, a refresh of the first page, and the way through the database.\<close>

lemma scan_inv_start:
  "cp_Cursor (fr_Checkpoint r) = [] \<Longrightarrow> scan_inv (pe_sha256 P) [] (fr_Checkpoint (prepare_root P [] now r))"
  by (cases "fr_NextPageURL r = []") (auto simp: scan_inv_def prepare_root_def Let_def scan_state_new last_pages_def)

lemma scan_inv_page:
  assumes "scan_inv (pe_sha256 P) pages cp" "cp_Cursor cp \<noteq> []" "advisoryScanIssue cp = []"
  shows "scan_inv (pe_sha256 P) (cp_Cursor cp # pages) (fr_Checkpoint (prepare_page P cp now r))"
proof -
  let ?sha = "pe_sha256 P" and ?cp = "cp\<lparr>cp_Cursor := fr_NextPageURL r\<rparr>"
  from assms have old: "scan_count cp = int (length pages)" "scan_recent cp = last_pages (map (page_digest ?sha) (rev pages))" "length pages \<le> 10000"
    by (auto simp: scan_inv_def)
  show ?thesis
  proof (cases "fr_NextPageURL r = []")
    case True
    then show ?thesis using old by (simp add: scan_inv_def prepare_facts)
  next
    case False
    note step = scan_page_step [OF False assms(2), of ?sha now ?cp]
    have "set (scan_recent cp) = set (take 32 (map (page_digest ?sha) pages))" using old(2) last_pages_rev [of "map (page_digest ?sha) pages"] by (simp add: rev_map)
    then show ?thesis using old step False
      by (simp add: scan_inv_def prepare_page_def last_pages_snoc)
  qed
qed

lemma scan_inv_refresh:
  assumes "scan_inv (pe_sha256 P) pages cp" "cp_Cursor cp \<noteq> []" "cp_ProviderState (fr_Checkpoint r) = cp_ProviderState cp"
  shows "scan_inv (pe_sha256 P) pages (fr_Checkpoint (prepare_root P (cp_Cursor cp) now r))"
proof (cases "fr_Outcome r = OutcomeStored \<and> fr_NextPageURL r = []")
  case True
  then show ?thesis using assms by (simp add: scan_inv_def prepare_root_def Let_def)
next
  case False
  let ?cp = "(fr_Checkpoint r)\<lparr>cp_Cursor := cp_Cursor cp\<rparr>"
  have cp': "fr_Checkpoint (prepare_root P (cp_Cursor cp) now r) = setAdvisoryScanState (pe_sha256 P) now (cp_Cursor cp) False [] ?cp"
    using False assms(2) by (auto simp: prepare_root_def Let_def)
  have "advisoryScanIssue ?cp = advisoryScanIssue cp" using assms(3) by (simp add: advisoryScanIssue_def)
  then show ?thesis using assms unfolding cp' by (simp add: scan_inv_def scan_state_other)
qed

lemma scan_inv_reload:
  assumes "scan_inv sha pages cp" "\<And>x. length (sha x) = 32"
  shows "scan_inv sha pages (json_reload cp)"
proof (cases "cp_Cursor cp = []")
  case True
  then show ?thesis using assms by (simp add: scan_inv_def json_reload_def)
next
  case False
  with assms have inv: "scan_count cp = int (length pages)" "length pages \<le> 10001" "scan_recent cp = last_pages (map (page_digest sha) (rev pages))"
    by (auto simp: scan_inv_def)
  have "length (page_digest sha x) = 64" for x
    using assms(2) [of x] by (simp add: page_digest_def hex_encode_def length_concat comp_def sum_list_triv)
  then have "list_all (\<lambda>d. length d = 64) (scan_recent cp)" unfolding inv(3) last_pages_def by (auto simp: list_all_iff dest!: in_set_dropD)
  then have "scan_recent (json_reload cp) = scan_recent cp" "scan_count (json_reload cp) = scan_count cp" "cp_Cursor (json_reload cp) = cp_Cursor cp"
    using inv json_reload_recent json_reload_count [of cp] by (simp_all add: json_reload_def)
  then show ?thesis using assms(1) by (simp add: scan_inv_def json_reload_issue)
qed

text \<open>
  When a continuation page may be fetched: it is the stored cursor, there is no issue, the page budget is not used up, and the page is not among
  the 32 before the last one.
\<close>

definition page_due :: "(string \<Rightarrow> string) \<Rightarrow> checkpoint \<Rightarrow> fetch_record list \<Rightarrow> string \<Rightarrow> bool" where
  "page_due sha cp0 older url \<longleftrightarrow>
     url = cp_Cursor (stored_checkpoint cp0 older) \<and> advisoryScanIssue (stored_checkpoint cp0 older) = []
     \<and> length (scan_pages cp0 older) \<le> 10000 \<and> page_digest sha url \<notin> set (take 32 (map (page_digest sha) (tl (scan_pages cp0 older))))"

fun log_ok :: "(string \<Rightarrow> string) \<Rightarrow> checkpoint \<Rightarrow> fetch_record list \<Rightarrow> bool" where
  "log_ok sha cp0 [] \<longleftrightarrow> True"
| "log_ok sha cp0 (rec # older) \<longleftrightarrow> (ie_URL (fst rec) \<noteq> GlobalReviewedAdvisoriesURL \<longrightarrow> page_due sha cp0 older (ie_URL (fst rec))) \<and> log_ok sha cp0 older"

lemma log_ok_split: "log_ok sha cp0 (newer @ rec # older) \<Longrightarrow> ie_URL (fst rec) \<noteq> GlobalReviewedAdvisoriesURL \<Longrightarrow> page_due sha cp0 older (ie_URL (fst rec))"
  by (induction newer) auto

text \<open>The log and the checkpoint it leaves agree; within a poll the checkpoint is the one before it is stored.\<close>

definition log_inv :: "(string \<Rightarrow> string) \<Rightarrow> checkpoint \<Rightarrow> fetch_record list \<Rightarrow> bool" where
  "log_inv sha cp0 recs \<longleftrightarrow>
     log_ok sha cp0 recs \<and> scan_inv sha (scan_pages cp0 recs) (stored_checkpoint cp0 recs) \<and> cp_Cursor (stored_checkpoint cp0 recs) \<noteq> GlobalReviewedAdvisoriesURL"

definition in_poll :: "(string \<Rightarrow> string) \<Rightarrow> checkpoint \<Rightarrow> fetch_record list \<Rightarrow> checkpoint \<Rightarrow> bool" where
  "in_poll sha cp0 recs cp \<longleftrightarrow>
     log_inv sha cp0 recs \<and> stored_checkpoint cp0 recs = json_reload cp \<and> scan_inv sha (scan_pages cp0 recs) cp"

lemma in_poll_new:
  assumes "log_inv sha cp0 recs" "\<And>x. length (sha x) = 32" "fr_Outcome r \<in> {OutcomeStored, OutcomeNotModified}"
    and "scan_inv sha (scan_pages cp0 ((e, r, err) # recs)) (fr_Checkpoint r)" "cp_Cursor (fr_Checkpoint r) \<noteq> GlobalReviewedAdvisoriesURL"
    and "ie_URL e = GlobalReviewedAdvisoriesURL \<or> page_due sha cp0 recs (ie_URL e)"
  shows "in_poll sha cp0 ((e, r, err) # recs) (fr_Checkpoint r)"
proof -
  have "stored_checkpoint cp0 ((e, r, err) # recs) = json_reload (fr_Checkpoint r)" using assms(3) by auto
  moreover have "cp_Cursor (json_reload (fr_Checkpoint r)) = cp_Cursor (fr_Checkpoint r)" by (simp add: json_reload_def)
  ultimately show ?thesis
    using assms(1,5,6) assms(4) scan_inv_reload [OF assms(4,2)] unfolding in_poll_def log_inv_def by auto
qed

lemma log_inv_failed:
  assumes "log_inv sha cp0 recs" "fr_Outcome r = OutcomeFailed" "ie_URL e = GlobalReviewedAdvisoriesURL \<or> page_due sha cp0 recs (ie_URL e)"
  shows "log_inv sha cp0 ((e, r, err) # recs)"
  using assms by (auto simp: log_inv_def)

lemma in_poll_due:
  assumes "in_poll sha cp0 recs cp" "cp_Cursor cp \<noteq> []" "advisoryScanIssue cp = []"
  shows "page_due sha cp0 recs (cp_Cursor cp)"
  using assms by (auto simp: in_poll_def page_due_def scan_inv_def json_reload_issue) (simp add: json_reload_def)

context page_source
begin

lemma page_result:
  assumes "fetchAndRecord P e prepare st = (r, None, st')" "pe_fetch P = fetch" "ie_RegistryID e = globalID" "ie_SourceID e = globalID"
    and "\<And>now r0. fr_Outcome (prepare now r0) = fr_Outcome r0"
  obtains (lost) err where "po_recorded st' = (e, r, err) # po_recorded st" "fr_Outcome r = OutcomeFailed"
    | (got) err now r0 where "po_recorded st' = (e, r, err) # po_recorded st" "r = prepare now r0" "fr_Outcome r \<in> {OutcomeStored, OutcomeNotModified}"
        "cp_Cursor (fr_Checkpoint r0) = cp_Cursor (ie_Checkpoint e)" "cp_ProviderState (fr_Checkpoint r0) = cp_ProviderState (ie_Checkpoint e)"
        "fr_NextPageURL r0 \<noteq> GlobalReviewedAdvisoriesURL"
  using assms(1)
proof (cases rule: fetchAndRecord_cases)
  case (fetched now r0 s0 s1 ferr)
  then have none: "ferr = None" using failed assms(2) by (cases ferr) auto
  then have f: "fetch e s0 = (r0, None, s1)" using fetched(3) assms(2) by simp
  have "GlobalReviewedAdvisoriesURL \<noteq> []" by (simp add: GlobalReviewedAdvisoriesURL_def)
  then show ?thesis using got [of ferr now r0] page [OF f assms(3,4)] fetched none assms(5) by auto
qed (use lost in auto)

lemma pages_loop_log:
  assumes "pages_loop P e n cp st = (err, st')" "pe_fetch P = fetch" "ie_RegistryID e = globalID" "ie_SourceID e = globalID"
    and "\<And>x. length (pe_sha256 P x) = 32" "in_poll (pe_sha256 P) cp0 recs cp" "advisoryScanIssue cp = []"
  shows "\<exists>new. po_recorded st' = new @ po_recorded st \<and> log_inv (pe_sha256 P) cp0 (new @ recs)"
  using assms
proof (induction P e n cp st arbitrary: recs rule: pages_loop.induct)
  case (1 P e cp st)
  then show ?case by (intro exI [of _ "[]"]) (simp add: in_poll_def)
next
  case (2 P e n cp st)
  let ?e = "e\<lparr>ie_URL := cp_Cursor cp, ie_Checkpoint := empty_checkpoint\<rparr>" and ?sha = "pe_sha256 P"
  have inv: "log_inv ?sha cp0 recs" using 2(7) by (simp add: in_poll_def)
  show ?case
  proof (cases "cp_Cursor cp = [] \<or> \<not> pe_ctx_ok P (po_step st)")
    case True
    then show ?thesis using 2(2) inv by (intro exI [of _ "[]"]) (auto split: if_split_asm)
  next
    case go: False
    note due = in_poll_due [OF 2(7) _ 2(8)]
    obtain r ferr st1 where f: "fetchAndRecord P ?e (prepare_page P cp) st = (r, ferr, st1)" by (metis prod_cases3)
    show ?thesis
    proof (cases ferr)
      case (Some msg)
      from f have "po_recorded st1 = po_recorded st" by (cases rule: fetchAndRecord_cases) (use Some in auto)
      then show ?thesis using 2(2) inv go f Some by (intro exI [of _ "[]"]) auto
    next
      case None
      have ids: "ie_RegistryID ?e = globalID" "ie_SourceID ?e = globalID" using 2(4,5) by simp_all
      from f [unfolded None] 2(3) ids prepare_facts(2) show ?thesis
      proof (cases rule: page_result)
        case (lost err1)
        then have "st' = st1" using 2(2) go f None by (auto split: if_split_asm)
        then show ?thesis using lost log_inv_failed [OF inv lost(2), of ?e err1] due go by (intro exI [of _ "[(?e, r, err1)]"]) auto
      next
        case (got err1 now r0)
        have "cp_Cursor cp \<noteq> GlobalReviewedAdvisoriesURL" using 2(7) json_reload_cursor [of cp] by (auto simp: in_poll_def log_inv_def)
        then have pages: "scan_pages cp0 ((?e, r, err1) # recs) = cp_Cursor cp # scan_pages cp0 recs" using got(3) by auto
        have "scan_inv ?sha (scan_pages cp0 ((?e, r, err1) # recs)) (fr_Checkpoint r)"
          unfolding pages unfolding got(2) using 2(7,8) go by (intro scan_inv_page) (auto simp: in_poll_def)
        then have poll: "in_poll ?sha cp0 ((?e, r, err1) # recs) (fr_Checkpoint r)"
          using due go got(6) by (intro in_poll_new [OF inv 2(6) got(3)]) (simp_all add: got(2) prepare_facts)
        show ?thesis
        proof (cases "advisoryScanIssue (fr_Checkpoint r) = []")
          case True
          then have "pages_loop P e n (fr_Checkpoint r) st1 = (err, st')" using 2(2) go f None got(3) by auto
          from 2(1) [OF _ _ f [symmetric] refl None _ _ this 2(3,4,5,6) poll True] go got(3) True obtain new where
            "po_recorded st' = new @ po_recorded st1" "log_inv ?sha cp0 (new @ (?e, r, err1) # recs)" by auto
          then show ?thesis using got(1) by (intro exI [of _ "new @ [(?e, r, err1)]"]) simp
        next
          case False
          then have "st' = st1" using 2(2) go f None by (auto split: if_split_asm)
          then show ?thesis using got(1) poll by (intro exI [of _ "[(?e, r, err1)]"]) (simp add: in_poll_def)
        qed
      qed
    qed
  qed
qed

lemma poll_log:
  assumes "pollGlobalAdvisories P (e\<lparr>ie_Checkpoint := stored_checkpoint cp0 recs\<rparr>) st = (err, st')" "pe_fetch P = fetch"
    and "ie_RegistryID e = globalID" "ie_SourceID e = globalID" "ie_URL e = GlobalReviewedAdvisoriesURL"
    and "\<And>x. length (pe_sha256 P x) = 32" "log_inv (pe_sha256 P) cp0 recs"
  shows "\<exists>new. po_recorded st' = new @ po_recorded st \<and> log_inv (pe_sha256 P) cp0 (new @ recs)"
proof -
  let ?cp = "stored_checkpoint cp0 recs" and ?sha = "pe_sha256 P"
  let ?e = "e\<lparr>ie_Checkpoint := ?cp\<rparr>"
  let ?root = "root_endpoint P ?e st" and ?prior = "cp_Cursor ?cp"
  have root: "ie_RegistryID ?root = globalID" "ie_SourceID ?root = globalID" "ie_URL ?root = GlobalReviewedAdvisoriesURL"
      "cp_Cursor (ie_Checkpoint ?root) = ?prior" "cp_ProviderState (ie_Checkpoint ?root) = cp_ProviderState ?cp"
    using assms(3-5) by (simp_all add: root_endpoint_def)
  obtain r ferr st1 where f: "fetchAndRecord P ?root (prepare_root P ?prior) st = (r, ferr, st1)" by (metis prod_cases3)
  show ?thesis
  proof (cases "(?prior \<noteq> [] \<and> \<not> IsGlobalAdvisoryPageURL (pe_lib P) ?prior) \<or> ferr \<noteq> None")
    case True
    moreover from f have "ferr \<noteq> None \<Longrightarrow> po_recorded st1 = po_recorded st" by (cases rule: fetchAndRecord_cases) auto
    ultimately show ?thesis using assms(1,7) f by (intro exI [of _ "[]"]) (auto simp: pollGlobalAdvisories_def Let_def split: if_split_asm)
  next
    case False
    then have ok: "\<not> (?prior \<noteq> [] \<and> \<not> IsGlobalAdvisoryPageURL (pe_lib P) ?prior)" "ferr = None" by auto
    from f [unfolded ok(2)] assms(2) root(1,2) prepare_facts(1) show ?thesis
    proof (cases rule: page_result)
      case (lost err1)
      then have "st' = st1" using assms(1) ok f by (auto simp: pollGlobalAdvisories_def Let_def split: if_split_asm)
      then show ?thesis using lost log_inv_failed [OF assms(7) lost(2), of ?root err1] root(3) by (intro exI [of _ "[(?root, r, err1)]"]) auto
    next
      case (got err1 now r0)
      have pages: "scan_pages cp0 ((?root, r, err1) # recs) = (if ?prior = [] then [] else scan_pages cp0 recs)" using got(3) root(3) by auto
      have "scan_inv ?sha (scan_pages cp0 ((?root, r, err1) # recs)) (fr_Checkpoint r)"
        unfolding pages unfolding got(2) using scan_inv_start [of r0 P now] scan_inv_refresh [of P _ ?cp r0 now] got(4,5) root(4,5) assms(7)
        by (auto simp: log_inv_def)
      moreover have "cp_Cursor (fr_Checkpoint r) \<noteq> GlobalReviewedAdvisoriesURL"
        using got(4,6) root(4) assms(7) GlobalReviewedAdvisoriesURL_def unfolding got(2) by (auto simp: prepare_root_def Let_def log_inv_def)
      ultimately have poll: "in_poll ?sha cp0 ((?root, r, err1) # recs) (fr_Checkpoint r)"
        using root(3) by (intro in_poll_new [OF assms(7,6) got(3)]) auto
      show ?thesis
      proof (cases "advisoryScanIssue (fr_Checkpoint r) = []")
        case True
        then have "pages_loop P ?e continuationPagesPerPoll (fr_Checkpoint r) st1 = (err, st')"
          using assms(1) ok f got(3) by (auto simp: pollGlobalAdvisories_def Let_def)
        from pages_loop_log [OF this assms(2) _ _ assms(6) poll True] assms(3,4) obtain new where
          "po_recorded st' = new @ po_recorded st1" "log_inv ?sha cp0 (new @ (?root, r, err1) # recs)" by auto
        then show ?thesis using got(1) by (intro exI [of _ "new @ [(?root, r, err1)]"]) simp
      next
        case False
        then have "st' = st1" using assms(1) ok f by (auto simp: pollGlobalAdvisories_def Let_def split: if_split_asm)
        then show ?thesis using got(1) poll by (intro exI [of _ "[(?root, r, err1)]"]) (simp add: in_poll_def)
      qed
    qed
  qed
qed

lemma polls_log:
  assumes "feed_polls P e cp0 recs" "pe_fetch P = fetch" "ie_RegistryID e = globalID" "ie_SourceID e = globalID" "ie_URL e = GlobalReviewedAdvisoriesURL"
    and "\<And>x. length (pe_sha256 P x) = 32" "cp_Cursor cp0 = []"
  shows "log_inv (pe_sha256 P) cp0 recs"
  using assms(1)
proof induction
  case no_poll
  show ?case using assms(7) by (simp add: log_inv_def scan_inv_def GlobalReviewedAdvisoriesURL_def)
next
  case (next_poll recs st err st' new)
  from poll_log [OF next_poll(2) assms(2-6) next_poll(4)] next_poll(3) show ?case by auto
qed

end

text \<open>
  C37. A scan of the advisory feed ends, however many pages the source claims to have and in whatever order it names them. Over any number of
  polls, each with the checkpoint that the records before it left in the database, a scan records at most 10001 successful fetches of continuation
  pages. Every recorded fetch of a continuation page, also a failed one, is for the stored cursor, with no issue recorded, after at most 10000 pages
  of the scan, and for a page that is not among the 32 pages before the last one, so a cycle of cursors is found and its issue stops the scan.
\<close>

theorem scan_ends:
  assumes "feed_polls P e cp0 recs" "pe_fetch P = network_Fetch N (s3_ops C)" "cp_Cursor cp0 = []" "\<And>x. length (pe_sha256 P x) = 32"
    and "ie_RegistryID e = globalID" "ie_SourceID e = globalID" "ie_URL e = GlobalReviewedAdvisoriesURL"
  shows "length (scan_pages cp0 recs) \<le> 10001
    \<and> (\<forall>newer rec older. recs = newer @ rec # older \<and> ie_URL (fst rec) \<noteq> GlobalReviewedAdvisoriesURL \<longrightarrow> page_due (pe_sha256 P) cp0 older (ie_URL (fst rec)))"
proof -
  have "log_inv (pe_sha256 P) cp0 recs" using network.polls_log [OF assms(1,2,5-7,4,3)] .
  then show ?thesis using log_ok_split by (auto simp: log_inv_def scan_inv_def)
qed

section \<open>Instances\<close>

text \<open>A feed of a single page, without a robots policy.\<close>

definition sample_network :: network_env where
  "sample_network =
     \<lparr>nw_env = sample_fetch_env
        \<lparr>fe_url_string := (\<lambda>u. ''https://'' @ pu_Host u @ pu_Path u),
         fe_do := (\<lambda>n rq. Inr \<lparr>rs_StatusCode = (if rq_Accept rq = ''text/plain'' then 404 else 200), rs_URL = GlobalReviewedAdvisoriesURL,
           rs_Header = (\<lambda>h. if h = ''Content-Type'' then [''application/json''] else []), rs_ContentLength = 2, rs_Body = ''[]'', rs_BodyFails = False\<rparr>)\<rparr>,
      nw_robots = sample_robots_lib, nw_escaped_path = pu_Path, nw_allowLocalFixtures = False, nw_githubReadToken = []\<rparr>"

definition sample_poller :: "object_state fetch_state poller_env" where
  "sample_poller =
     \<lparr>pe_fetch = network_Fetch sample_network (s3_ops sample_object_client), pe_lib = fe_lib (nw_env sample_network), pe_enabled = True, pe_load = (\<lambda>i. Inr None),
      pe_record_ok = (\<lambda>n. True), pe_ctx_ok = (\<lambda>n. True), pe_now = (\<lambda>n. 738944 * (24 * hour)), pe_format = (\<lambda>t. ''2024-03-01T00:00:00Z''),
      pe_sha256 = (\<lambda>x. replicate 32 (CHR 0x07))\<rparr>"

definition sample_advisories :: ingest_endpoint where
  "sample_advisories =
     \<lparr>ie_RegistryID = globalID, ie_SourceID = globalID, ie_Connector = ConnectorGitHubAdvisories, ie_URL = GlobalReviewedAdvisoriesURL,
      ie_ContentPolicy = ''link-and-excerpt'', ie_ExpectedContentTypes = [''application/json''], ie_MaxResponseBytes = 1000, ie_Checkpoint = empty_checkpoint\<rparr>"

definition sample_poller_state :: "object_state fetch_state poller_state" where
  "sample_poller_state = \<lparr>po_fetch = sample_fetch_state, po_recorded = [], po_step = 0\<rparr>"

definition sample_poll :: "string option \<times> object_state fetch_state poller_state" where
  "sample_poll = pollGlobalAdvisories sample_poller sample_advisories sample_poller_state"

lemma sample_poll_facts:
  "fst sample_poll = None \<and> map (\<lambda>(e, r, err). (fr_Outcome r, cp_Cursor (fr_Checkpoint r))) (po_recorded (snd sample_poll)) = [(OutcomeStored, [])]"
  by code_simp

theorem poll_follows_feed_witness:
  "length (po_recorded (snd sample_poll)) = 1 \<and> feed_records (pe_lib sample_poller) (po_recorded (snd sample_poll))"
proof -
  obtain err st' where run: "sample_poll = (err, st')" by fastforce
  have "pollGlobalAdvisories sample_poller sample_advisories sample_poller_state = (err, st')" using run by (simp add: sample_poll_def)
  moreover have "pe_fetch sample_poller = network_Fetch sample_network (s3_ops sample_object_client)" "pe_lib sample_poller = fe_lib (nw_env sample_network)"
      "ie_RegistryID sample_advisories = globalID" "ie_SourceID sample_advisories = globalID" "ie_URL sample_advisories = GlobalReviewedAdvisoriesURL"
    by (simp_all add: sample_poller_def sample_advisories_def)
  ultimately obtain recs where "po_recorded st' = recs @ po_recorded sample_poller_state" "feed_records (pe_lib sample_poller) recs"
    using poll_follows_feed by blast
  moreover have "length (po_recorded (snd sample_poll)) = 1" using arg_cong [OF conjunct2 [OF sample_poll_facts], of length] by simp
  ultimately show ?thesis unfolding run by (simp add: sample_poller_state_def)
qed

theorem scan_ends_witness:
  "feed_polls sample_poller sample_advisories empty_checkpoint (po_recorded (snd sample_poll)) \<and> length (scan_pages empty_checkpoint (po_recorded (snd sample_poll))) \<le> 10001"
proof -
  obtain err st' where run: "sample_poll = (err, st')" by fastforce
  have "sample_advisories\<lparr>ie_Checkpoint := stored_checkpoint empty_checkpoint []\<rparr> = sample_advisories" by (simp add: sample_advisories_def)
  then have "pollGlobalAdvisories sample_poller (sample_advisories\<lparr>ie_Checkpoint := stored_checkpoint empty_checkpoint []\<rparr>) sample_poller_state = (err, st')"
    using run by (simp add: sample_poll_def)
  from next_poll [OF no_poll this, of "po_recorded st'"] have polls: "feed_polls sample_poller sample_advisories empty_checkpoint (po_recorded st')"
    by (simp add: sample_poller_state_def)
  have "length (scan_pages empty_checkpoint (po_recorded st')) \<le> 10001"
    using scan_ends [OF polls, of sample_network sample_object_client] by (simp add: sample_poller_def sample_advisories_def empty_checkpoint_def)
  then show ?thesis using polls unfolding run by simp
qed

end
