(* ===== verification/Parse_Worker.thy ===== *)
theory Parse_Worker
  imports Source_Registry Object_Store
begin

text \<open>
  Parsing jobs (\<open>src/internal/parsing/processor.go\<close> and the parse worker of \<open>src/internal/ingestion/ingestion.go\<close>): a raw document is read, checked against its recorded digest,
  split into entries or parsed, and its normalized text is stored under its content address together with the revision. The
  parsers, the repositories and the deduplicator are arguments; what the worker asks of them is its trace. The
  processor uses the interface \<open>raw_store\<close>.
\<close>

section \<open>Data\<close>

datatype parse_code =
    ParserBodyTooLarge | ParserCanceled | ParserCharacterEncoding | ParserEmptyDocument | ParserInvalidDocument | ParserInvalidURL
  | ParserObjectStorage | ParserUnsupported | SourceHandoffFailed | SourceEntryRecordFailed

text \<open>An error: whether it is a cancelled context, and the code if it is a parse error.\<close>

record work_error =
  we_Canceled :: bool
  we_Code :: "parse_code option"

definition WorkOther :: work_error where
  "WorkOther = \<lparr>we_Canceled = False, we_Code = None\<rparr>"

record raw_document =
  rd_ID :: string
  rd_SourceID :: string
  rd_Connector :: connector
  rd_URL :: string
  rd_ContentType :: string
  rd_ContentPolicy :: string
  rd_ObjectKey :: string
  rd_MaxResponseBytes :: int
  rd_RawSHA256 :: string
  rd_ParentRawID :: string
  rd_SourceEntryID :: string

record advisory_observation =
  ao_ID :: int
  ao_SourceID :: string
  ao_RegistryID :: string
  ao_ParentRegistryID :: string
  ao_Parent :: raw_document

record source_entry =
  se_ExternalID :: string
  se_URL :: string
  se_Payload :: string

record parse_request =
  pq_RawDocumentID :: string
  pq_SourceID :: string
  pq_Connector :: connector
  pq_URL :: string
  pq_ContentType :: string
  pq_Body :: string
  pq_MaxBytes :: int

record parsed_text =
  pt_NormalizedText :: string
  pt_NormalizedSHA256 :: string
  pt_CanonicalURL :: string

section \<open>The processor\<close>

text \<open>The revision repository refuses, records without asking for the text, or asks for it and then records or fails.\<close>

datatype record_plan = RecordOnly "string option" | CommitThen "string option"

record processor_env =
  pc_parse :: "parse_request \<Rightarrow> work_error + parsed_text"
  pc_record :: "string \<Rightarrow> parsed_text \<Rightarrow> record_plan"
  pc_failure_ok :: "parse_code \<Rightarrow> bool"

definition parserNameFor :: "connector \<Rightarrow> string" where
  "parserNameFor c =
     (case c of
        ConnectorAtom \<Rightarrow> ''gofeed-atom'' | ConnectorRSS \<Rightarrow> ''gofeed-rss'' | ConnectorJSONFeed \<Rightarrow> ''gofeed-json_feed'' | ConnectorPage \<Rightarrow> ''readeck-readability''
      | ConnectorGitHubReleases \<Rightarrow> ''github-releases-json'' | ConnectorGitHubAdvisories \<Rightarrow> ''github-advisories-json'' | ConnectorRegistry \<Rightarrow> ''registry-json''
      | ConnectorStructuredAPI \<Rightarrow> ''structured-api-json'' | ConnectorSourceEntry \<Rightarrow> ''source-entry-json'' | ConnectorOther _ \<Rightarrow> ''unsupported'')"

definition parse_errorCode :: "work_error \<Rightarrow> parse_code" where
  "parse_errorCode e = (case we_Code e of Some c \<Rightarrow> c | None \<Rightarrow> ParserInvalidDocument)"

text \<open>Recorded failures: the document, the parser and the code, the newest first.\<close>

type_synonym failure_log = "(string \<times> string \<times> parse_code) list"

definition recordParseFailure :: "processor_env \<Rightarrow> parse_request \<Rightarrow> parse_code \<Rightarrow> work_error \<Rightarrow> failure_log \<Rightarrow> work_error \<times> failure_log" where
  "recordParseFailure V q code err fl =
     (err, if pc_failure_ok V code then (pq_RawDocumentID q, parserNameFor (pq_Connector q), code) # fl else fl)"

record process_outcome =
  ps_Parsed :: parsed_text
  ps_RevisionID :: string
  ps_ObjectKey :: string

definition text_type :: string where "text_type = ''text/plain; charset=utf-8''"

text \<open>Whether the text was committed, whether the commit failed, the revision, and the store.\<close>

definition record_success :: "processor_env \<Rightarrow> 's raw_ops \<Rightarrow> parse_request \<Rightarrow> parsed_text \<Rightarrow> staged_object \<Rightarrow> string \<Rightarrow> 's \<Rightarrow> bool \<times> bool \<times> string option \<times> 's" where
  "record_success V R q parsed staged key b =
     (case pc_record V (pq_RawDocumentID q) parsed of
        RecordOnly recorded \<Rightarrow> (False, False, recorded, b)
      | CommitThen recorded \<Rightarrow>
          (case ro_commit R staged key b of
             (True, b1) \<Rightarrow> (True, False, recorded, b1)
           | (False, b1) \<Rightarrow> (False, True, None, b1)))"

definition process_staged ::
    "processor_env \<Rightarrow> 's raw_ops \<Rightarrow> parse_request \<Rightarrow> parsed_text \<Rightarrow> string \<Rightarrow> staged_object \<Rightarrow> failure_log \<Rightarrow> 's
      \<Rightarrow> (work_error + process_outcome) \<times> failure_log \<times> 's" where
  "process_staged V R q parsed key staged fl b =
     (case record_success V R q parsed staged key b of
        (committed, commitFailed, recorded, b1) \<Rightarrow>
          (let (aborted, b2) = (if committed then (True, b1) else ro_abort R staged b1) in
           if commitFailed then
             (let (err, fl1) = recordParseFailure V q ParserObjectStorage WorkOther fl in (Inl err, fl1, b2))
           else if \<not> aborted then (Inl WorkOther, fl, b2)
           else (case recorded of
                   None \<Rightarrow> (Inl WorkOther, fl, b2)
                 | Some revision \<Rightarrow> (Inr \<lparr>ps_Parsed = parsed, ps_RevisionID = revision, ps_ObjectKey = key\<rparr>, fl, b2))))"

definition parse_Process ::
    "processor_env \<Rightarrow> 's raw_ops \<Rightarrow> parse_request \<Rightarrow> failure_log \<Rightarrow> 's \<Rightarrow> (work_error + process_outcome) \<times> failure_log \<times> 's" where
  "parse_Process V R q fl b =
     (if trim_space (pq_RawDocumentID q) = [] \<or> trim_space (pq_SourceID q) = [] then (Inl WorkOther, fl, b)
      else (case pc_parse V q of
              Inl err \<Rightarrow> (let (err1, fl1) = recordParseFailure V q (parse_errorCode err) err fl in (Inl err1, fl1, b))
            | Inr parsed \<Rightarrow>
                (case NormalizedObjectKey (pq_SourceID q) (pt_NormalizedSHA256 parsed) of
                   None \<Rightarrow> (let (err1, fl1) = recordParseFailure V q ParserObjectStorage WorkOther fl in (Inl err1, fl1, b))
                 | Some key \<Rightarrow>
                     (case ro_stage R text_type (pt_NormalizedText parsed) False b of
                        (None, b1) \<Rightarrow> (let (err1, fl1) = recordParseFailure V q ParserObjectStorage WorkOther fl in (Inl err1, fl1, b1))
                      | (Some staged, b1) \<Rightarrow>
                          if st_SHA256 staged \<noteq> pt_NormalizedSHA256 parsed \<or> st_Bytes staged \<noteq> int (length (pt_NormalizedText parsed)) then
                            (let (err1, fl1) = recordParseFailure V q ParserObjectStorage WorkOther fl in (Inl err1, fl1, snd (ro_abort R staged b1)))
                          else process_staged V R q parsed key staged fl b1))))"

context raw_store
begin

lemma process_staged_frame:
  assumes "process_staged V R q parsed key staged fl b = (res, fl', b')" "look b (st_TemporaryKey staged) = Some obj"
  shows "final_key k \<Longrightarrow> look b' k = look b k \<or> k = key \<and> look b' k = Some (obj\<lparr>obj_ContentType := st_ContentType staged\<rparr>)"
    and "res = Inr pr \<Longrightarrow> ps_Parsed pr = parsed \<and> ps_ObjectKey pr = key
      \<and> (\<forall>recorded. pc_record V (pq_RawDocumentID q) parsed = CommitThen recorded \<longrightarrow> look b' key = Some (obj\<lparr>obj_ContentType := st_ContentType staged\<rparr>))"
proof -
  obtain cd cf rc b1 where rs: "record_success V R q parsed staged key b = (cd, cf, rc, b1)" by (metis prod_cases4)
  obtain ab b2 where a: "ro_abort R staged b1 = (ab, b2)" by fastforce
  have b': "b' = (if cd then b1 else b2)" using assms(1) rs a
    by (auto simp: process_staged_def recordParseFailure_def split: if_split_asm option.split_asm)
  have frame: "final_key k \<Longrightarrow> look b1 k = look b k \<or> k = key \<and> look b1 k = Some (obj\<lparr>obj_ContentType := st_ContentType staged\<rparr>)"
    using rs commit_frame commit_key assms(2) unfolding record_success_def by (auto split: record_plan.split_asm prod.split_asm bool.split_asm) metis+
  then show "final_key k \<Longrightarrow> look b' k = look b k \<or> k = key \<and> look b' k = Some (obj\<lparr>obj_ContentType := st_ContentType staged\<rparr>)"
    using b' abort_frame [OF a] by auto
  assume "res = Inr pr"
  then have ok: "\<not> cf" "ps_Parsed pr = parsed" "ps_ObjectKey pr = key" using assms(1) rs a
    by (auto simp: process_staged_def recordParseFailure_def split: if_split_asm option.split_asm)
  moreover have "look b' key = Some (obj\<lparr>obj_ContentType := st_ContentType staged\<rparr>)" if "pc_record V (pq_RawDocumentID q) parsed = CommitThen recorded" for recorded
    using rs that ok(1) commit_ok [OF _ assms(2)] b' unfolding record_success_def by (auto split: prod.split_asm bool.split_asm)
  ultimately show "ps_Parsed pr = parsed \<and> ps_ObjectKey pr = key
      \<and> (\<forall>recorded. pc_record V (pq_RawDocumentID q) parsed = CommitThen recorded \<longrightarrow> look b' key = Some (obj\<lparr>obj_ContentType := st_ContentType staged\<rparr>))" by blast
qed

text \<open>A processed document: its text is stored under its normalized key if the repository asked for it, and nothing else is changed.\<close>

lemma parse_Process_stored:
  assumes "parse_Process V R q fl b = (Inr pr, fl', b')"
  shows "fl' = fl \<and> NormalizedObjectKey (pq_SourceID q) (sha (pt_NormalizedText (ps_Parsed pr))) = Some (ps_ObjectKey pr)
    \<and> (\<forall>recorded. pc_record V (pq_RawDocumentID q) (ps_Parsed pr) = CommitThen recorded \<longrightarrow>
         look b' (ps_ObjectKey pr) = Some \<lparr>obj_Content = pt_NormalizedText (ps_Parsed pr), obj_ContentType = text_type\<rparr>)
    \<and> (\<forall>k. final_key k \<longrightarrow> k \<noteq> ps_ObjectKey pr \<longrightarrow> look b' k = look b k)"
proof -
  from assms obtain parsed key staged b1 where p: "pc_parse V q = Inr parsed" "NormalizedObjectKey (pq_SourceID q) (pt_NormalizedSHA256 parsed) = Some key"
      "ro_stage R text_type (pt_NormalizedText parsed) False b = (Some staged, b1)" "st_SHA256 staged = pt_NormalizedSHA256 parsed"
      "process_staged V R q parsed key staged fl b1 = (Inr pr, fl', b')"
    by (auto simp: parse_Process_def recordParseFailure_def split: if_split_asm sum.split_asm option.split_asm prod.split_asm)
  note st = stage_ok [OF p(3)]
  have obj: "look b1 (st_TemporaryKey staged) = Some \<lparr>obj_Content = pt_NormalizedText parsed, obj_ContentType = text_type\<rparr>" using st by simp
  have "fl' = fl" using p(5) by (auto simp: process_staged_def recordParseFailure_def split: prod.split_asm if_split_asm option.split_asm)
  then show ?thesis using process_staged_frame [OF p(5) obj] p(2,4) st stage_frame [OF p(3)] by auto
qed

end

section \<open>The worker\<close>

datatype worker_call =
    RecordEntries string string "source_entry list"
  | RecordIngestionFailure string string parse_code
  | CompleteParsedRevision string string string string
  | RecordObservationEntries int "source_entry list"

record 's worker_env =
  wk_load :: "string \<Rightarrow> string \<Rightarrow> work_error + raw_document"
  wk_load_observation :: "int \<Rightarrow> work_error + advisory_observation option"
  wk_managed :: "string \<Rightarrow> work_error + bool"
  wk_read :: "string \<Rightarrow> int \<Rightarrow> string option"
  wk_sha256 :: "string \<Rightarrow> string"
  wk_split :: "connector \<Rightarrow> string \<Rightarrow> string \<Rightarrow> work_error + source_entry list"
  wk_split_observation :: "string \<Rightarrow> string \<Rightarrow> work_error + source_entry list"
  wk_processor :: processor_env
  wk_objects :: "'s raw_ops"
  wk_dedupe :: "string \<Rightarrow> string \<Rightarrow> string \<Rightarrow> work_error + string"
  wk_answer :: "worker_call \<Rightarrow> work_error option"
  wk_ctx_done :: bool

record 's worker_state =
  ws_store :: 's
  ws_failures :: failure_log
  ws_calls :: "worker_call list"

definition ask_repository :: "'s worker_env \<Rightarrow> worker_call \<Rightarrow> 's worker_state \<Rightarrow> work_error option \<times> 's worker_state" where
  "ask_repository W c st = (wk_answer W c, st\<lparr>ws_calls := c # ws_calls st\<rparr>)"

definition IsCollectionConnector :: "connector \<Rightarrow> bool" where
  "IsCollectionConnector c \<longleftrightarrow>
     c \<in> set [ConnectorAtom, ConnectorRSS, ConnectorJSONFeed, ConnectorGitHubReleases, ConnectorGitHubAdvisories, ConnectorStructuredAPI]"

text \<open>A failure is recorded; the error that is returned is the first one, or the one of recording it.\<close>

definition fail_recorded :: "'s worker_env \<Rightarrow> raw_document \<Rightarrow> string \<Rightarrow> parse_code \<Rightarrow> work_error \<Rightarrow> 's worker_state \<Rightarrow> work_error option \<times> 's worker_state" where
  "fail_recorded W doc registryID code err st =
     (case ask_repository W (RecordIngestionFailure (rd_ID doc) registryID code) st of
        (Some recordErr, st1) \<Rightarrow> (Some recordErr, st1)
      | (None, st1) \<Rightarrow> (Some err, st1))"

definition recordCollectionEntries :: "'s worker_env \<Rightarrow> raw_document \<Rightarrow> string \<Rightarrow> source_entry list \<Rightarrow> 's worker_state \<Rightarrow> work_error option \<times> 's worker_state" where
  "recordCollectionEntries W doc registryID entries st =
     (case ask_repository W (RecordEntries (rd_ID doc) registryID entries) st of
        (None, st1) \<Rightarrow> (None, st1)
      | (Some err, st1) \<Rightarrow> (Some err, snd (ask_repository W (RecordIngestionFailure (rd_ID doc) registryID SourceEntryRecordFailed) st1)))"

definition split_failed :: "'s worker_env \<Rightarrow> raw_document \<Rightarrow> string \<Rightarrow> work_error \<Rightarrow> 's worker_state \<Rightarrow> work_error option \<times> 's worker_state" where
  "split_failed W doc registryID err st =
     (if we_Canceled err then (Some err, st)
      else fail_recorded W doc registryID (case we_Code err of Some c \<Rightarrow> c | None \<Rightarrow> ParserInvalidDocument) err st)"

definition complete_revision :: "'s worker_env \<Rightarrow> raw_document \<Rightarrow> string \<Rightarrow> string \<Rightarrow> string \<Rightarrow> 's worker_state \<Rightarrow> work_error option \<times> 's worker_state" where
  "complete_revision W doc registryID decision revision st =
     (case ask_repository W (CompleteParsedRevision (rd_ID doc) registryID decision revision) st of
        (None, st1) \<Rightarrow> (None, st1)
      | (Some err, st1) \<Rightarrow>
          if we_Canceled err \<or> wk_ctx_done W then (Some err, st1)
          else (Some err, snd (ask_repository W (RecordIngestionFailure (rd_ID doc) registryID SourceHandoffFailed) st1)))"

definition parse_request_of :: "raw_document \<Rightarrow> string \<Rightarrow> parse_request" where
  "parse_request_of doc payload =
     \<lparr>pq_RawDocumentID = rd_ID doc, pq_SourceID = rd_SourceID doc, pq_Connector = rd_Connector doc, pq_URL = rd_URL doc,
      pq_ContentType = rd_ContentType doc, pq_Body = payload, pq_MaxBytes = rd_MaxResponseBytes doc\<rparr>"

text \<open>The document is parsed; the entries of a collection are recorded, another document is deduplicated and handed on.\<close>

definition parse_payload ::
    "'s worker_env \<Rightarrow> raw_document \<Rightarrow> string \<Rightarrow> string \<Rightarrow> source_entry list option \<Rightarrow> 's worker_state \<Rightarrow> work_error option \<times> 's worker_state" where
  "parse_payload W doc registryID payload entries st =
     (case parse_Process (wk_processor W) (wk_objects W) (parse_request_of doc payload) (ws_failures st) (ws_store st) of
        (res, fl, b) \<Rightarrow>
          (let st1 = st\<lparr>ws_failures := fl, ws_store := b\<rparr> in
           case res of
             Inl err \<Rightarrow>
               (case we_Code err of
                  Some code \<Rightarrow>
                    if code \<noteq> ParserObjectStorage \<and> code \<noteq> ParserCanceled then fail_recorded W doc registryID code err st1 else (Some err, st1)
                | None \<Rightarrow> (Some err, st1))
           | Inr pr \<Rightarrow>
               (case entries of
                  Some es \<Rightarrow> recordCollectionEntries W doc registryID es st1
                | None \<Rightarrow>
                    (case wk_dedupe W (ps_RevisionID pr) (pt_NormalizedText (ps_Parsed pr)) (pt_CanonicalURL (ps_Parsed pr)) of
                       Inl err \<Rightarrow> (Some err, st1)
                     | Inr decision \<Rightarrow> complete_revision W doc registryID decision (ps_RevisionID pr) st1))))"

definition parse_document :: "'s worker_env \<Rightarrow> raw_document \<Rightarrow> string \<Rightarrow> 's worker_state \<Rightarrow> work_error option \<times> 's worker_state" where
  "parse_document W doc registryID st =
     (case wk_read W (rd_ObjectKey doc) (rd_MaxResponseBytes doc) of
        None \<Rightarrow> (Some WorkOther, st)
      | Some payload \<Rightarrow>
          if wk_sha256 W payload \<noteq> rd_RawSHA256 doc then (Some WorkOther, st)
          else if rd_ParentRawID doc = [] \<and> IsCollectionConnector (rd_Connector doc) then
            (case wk_split W (rd_Connector doc) (rd_URL doc) payload of
               Inl err \<Rightarrow> split_failed W doc registryID err st
             | Inr entries \<Rightarrow>
                 if entries = [] then recordCollectionEntries W doc registryID entries st
                 else parse_payload W doc registryID payload (Some entries) st)
          else parse_payload W doc registryID payload None st)"

definition worker_Parse :: "'s worker_env \<Rightarrow> string \<Rightarrow> string \<Rightarrow> 's worker_state \<Rightarrow> work_error option \<times> 's worker_state" where
  "worker_Parse W registryID rawDocumentID st =
     (if registryID = [] \<or> rawDocumentID = [] then (Some WorkOther, st)
      else (case wk_load W registryID rawDocumentID of
              Inl err \<Rightarrow> (Some err, st)
            | Inr doc \<Rightarrow>
                if rd_ParentRawID doc = [] \<and> rd_Connector doc = ConnectorGitHubAdvisories then
                  (case wk_managed W (rd_ID doc) of
                     Inl err \<Rightarrow> (Some err, st)
                   | Inr managed \<Rightarrow> if managed then (None, st) else parse_document W doc registryID st)
                else parse_document W doc registryID st))"

definition SplitAdvisoryObservation :: "'s worker_env \<Rightarrow> int \<Rightarrow> 's worker_state \<Rightarrow> work_error option \<times> 's worker_state" where
  "SplitAdvisoryObservation W observationID st =
     (if observationID \<le> 0 then (Some WorkOther, st)
      else (case wk_load_observation W observationID of
              Inl err \<Rightarrow> (Some err, st)
            | Inr None \<Rightarrow> (None, st)
            | Inr (Some ob) \<Rightarrow>
                (let parent = ao_Parent ob in
                 case wk_read W (rd_ObjectKey parent) (rd_MaxResponseBytes parent) of
                   None \<Rightarrow> (Some WorkOther, st)
                 | Some payload \<Rightarrow>
                     if wk_sha256 W payload \<noteq> rd_RawSHA256 parent then (Some WorkOther, st)
                     else (case wk_split_observation W (rd_URL parent) payload of
                             Inl err \<Rightarrow> split_failed W parent (ao_ParentRegistryID ob) err st
                           | Inr entries \<Rightarrow> ask_repository W (RecordObservationEntries (ao_ID ob) entries) st))))"

section \<open>What a job does\<close>

text \<open>The evidence: the bytes that were read have the digest that was recorded for the document.\<close>

definition evidence_ok :: "'s worker_env \<Rightarrow> raw_document \<Rightarrow> string \<Rightarrow> bool" where
  "evidence_ok W doc payload \<longleftrightarrow> wk_read W (rd_ObjectKey doc) (rd_MaxResponseBytes doc) = Some payload \<and> wk_sha256 W payload = rd_RawSHA256 doc"

text \<open>
  The calls a job may have made, the newest first: none, an accepted one that hands the document on, a recorded failure, or one that was refused and then
  recorded as a failure.
\<close>

definition hands_on :: "raw_document \<Rightarrow> worker_call \<Rightarrow> bool" where
  "hands_on doc c = (case c of RecordEntries i _ _ \<Rightarrow> i = rd_ID doc | CompleteParsedRevision i _ _ _ \<Rightarrow> i = rd_ID doc | _ \<Rightarrow> False)"

definition job_calls :: "'s worker_env \<Rightarrow> raw_document \<Rightarrow> string \<Rightarrow> work_error option \<Rightarrow> worker_call list \<Rightarrow> bool" where
  "job_calls W doc registryID err cs \<longleftrightarrow>
     (err = None \<and> (\<exists>c. cs = [c] \<and> hands_on doc c \<and> wk_answer W c = None))
     \<or> (err \<noteq> None \<and> (cs = [] \<or> (\<exists>code. cs = [RecordIngestionFailure (rd_ID doc) registryID code])
          \<or> (\<exists>c. hands_on doc c \<and> wk_answer W c \<noteq> None \<and> (cs = [c] \<or> (\<exists>code. cs = [RecordIngestionFailure (rd_ID doc) registryID code, c])))))"

lemma fail_recorded_calls:
  assumes "fail_recorded W doc registryID code err st = (e, st')"
  shows "ws_calls st' = [RecordIngestionFailure (rd_ID doc) registryID code] @ ws_calls st \<and> e \<noteq> None"
proof (cases "wk_answer W (RecordIngestionFailure (rd_ID doc) registryID code)")
  case None
  then show ?thesis using assms by (auto simp: fail_recorded_def ask_repository_def)
next
  case (Some recordErr)
  then have "e = Some recordErr" "st' = st\<lparr>ws_calls := RecordIngestionFailure (rd_ID doc) registryID code # ws_calls st\<rparr>"
    using assms by (simp_all add: fail_recorded_def ask_repository_def)
  then show ?thesis by simp
qed

lemma split_failed_calls:
  assumes "split_failed W doc registryID err st = (e, st')"
  shows "\<exists>cs. ws_calls st' = cs @ ws_calls st \<and> e \<noteq> None \<and> (cs = [] \<or> (\<exists>code. cs = [RecordIngestionFailure (rd_ID doc) registryID code]))"
  using assms by (auto simp: split_failed_def dest!: fail_recorded_calls split: if_split_asm)

lemma recordCollectionEntries_calls:
  assumes "recordCollectionEntries W doc registryID entries st = (e, st')"
  shows "\<exists>cs. ws_calls st' = cs @ ws_calls st \<and> job_calls W doc registryID e cs"
  using assms by (cases "wk_answer W (RecordEntries (rd_ID doc) registryID entries)")
    (auto simp: recordCollectionEntries_def ask_repository_def job_calls_def hands_on_def)

lemma complete_revision_calls:
  assumes "complete_revision W doc registryID decision revision st = (e, st')"
  shows "\<exists>cs. ws_calls st' = cs @ ws_calls st \<and> job_calls W doc registryID e cs"
  using assms by (cases "wk_answer W (CompleteParsedRevision (rd_ID doc) registryID decision revision)")
    (auto simp: complete_revision_def ask_repository_def job_calls_def hands_on_def split: if_split_asm)

lemma job_calls_failed: "e \<noteq> None \<Longrightarrow> cs = [] \<or> (\<exists>code. cs = [RecordIngestionFailure (rd_ID doc) registryID code]) \<Longrightarrow> job_calls W doc registryID e cs"
  by (auto simp: job_calls_def)

lemma parse_payload_calls:
  assumes "parse_payload W doc registryID payload entries st = (e, st')"
  shows "\<exists>cs. ws_calls st' = cs @ ws_calls st \<and> job_calls W doc registryID e cs"
proof -
  obtain res fl b where p: "parse_Process (wk_processor W) (wk_objects W) (parse_request_of doc payload) (ws_failures st) (ws_store st) = (res, fl, b)"
    by (metis prod_cases3)
  let ?st = "st\<lparr>ws_failures := fl, ws_store := b\<rparr>"
  show ?thesis
  proof (cases res)
    case (Inl err)
    then show ?thesis using assms p
      by (auto simp: parse_payload_def Let_def job_calls_def dest!: fail_recorded_calls split: option.split_asm if_split_asm)
  next
    case (Inr pr)
    consider (entries) es where "entries = Some es" "recordCollectionEntries W doc registryID es ?st = (e, st')"
      | (dedupe) err where "e = Some err" "st' = ?st"
      | (complete) decision where "complete_revision W doc registryID decision (ps_RevisionID pr) ?st = (e, st')"
      using assms p Inr by (auto simp: parse_payload_def Let_def split: option.split_asm sum.split_asm)
    then show ?thesis
    proof cases
      case entries
      from recordCollectionEntries_calls [OF entries(2)] show ?thesis by simp
    next
      case dedupe
      then show ?thesis using job_calls_failed [of e "[]" doc registryID W] by simp
    next
      case complete
      from complete_revision_calls [OF complete] show ?thesis by simp
    qed
  qed
qed

lemma parse_document_calls:
  assumes "parse_document W doc registryID st = (e, st')"
  shows "\<exists>cs. ws_calls st' = cs @ ws_calls st \<and> job_calls W doc registryID e cs \<and> (cs \<noteq> [] \<longrightarrow> (\<exists>payload. evidence_ok W doc payload))"
proof (cases "\<exists>payload. evidence_ok W doc payload")
  case False
  then have "e = Some WorkOther \<and> st' = st" using assms by (auto simp: parse_document_def evidence_ok_def split: option.split_asm if_split_asm)
  then show ?thesis by (auto simp: job_calls_def)
next
  case True
  then obtain payload where ok: "evidence_ok W doc payload" by blast
  consider (split) err where "split_failed W doc registryID err st = (e, st')" | (none) "recordCollectionEntries W doc registryID [] st = (e, st')"
    | (parse) entries where "parse_payload W doc registryID payload entries st = (e, st')"
    using assms ok by (auto simp: parse_document_def evidence_ok_def split: if_split_asm sum.split_asm)
  then show ?thesis
  proof cases
    case split
    from split_failed_calls [OF split] job_calls_failed ok show ?thesis by blast
  next
    case none
    from recordCollectionEntries_calls [OF none] ok show ?thesis by blast
  next
    case parse
    from parse_payload_calls [OF parse] ok show ?thesis by blast
  qed
qed

text \<open>
  C38. A parse job acts on verified evidence only and accounts for every outcome. It calls the repository at most twice, and only when the
  bytes read have the digest recorded for the document. It succeeds exactly when one accepted call has handed the document on, as
  entries or as a revision, or when the document belongs to a managed observation, which it leaves alone; when it fails, nothing was
  handed on, apart from a call that was refused.
\<close>

theorem parse_job_accounts:
  assumes "worker_Parse W registryID rawDocumentID st = (err, st')" "wk_load W registryID rawDocumentID = Inr doc"
  shows "\<exists>cs. ws_calls st' = cs @ ws_calls st \<and> (cs \<noteq> [] \<longrightarrow> (\<exists>payload. evidence_ok W doc payload))
    \<and> (job_calls W doc registryID err cs
       \<or> err = None \<and> cs = [] \<and> rd_ParentRawID doc = [] \<and> rd_Connector doc = ConnectorGitHubAdvisories \<and> wk_managed W (rd_ID doc) = Inr True)"
proof -
  have failed: ?thesis if "err \<noteq> None" "st' = st" using that job_calls_failed [of err "[]" doc registryID W] by simp
  have parsed: ?thesis if "parse_document W doc registryID st = (err, st')" using parse_document_calls [OF that] by blast
  show ?thesis
  proof (cases "registryID = [] \<or> rawDocumentID = []")
    case True
    then show ?thesis using assms(1) by (intro failed) (auto simp: worker_Parse_def)
  next
    case False
    note ids = False
    show ?thesis
    proof (cases "rd_ParentRawID doc = [] \<and> rd_Connector doc = ConnectorGitHubAdvisories")
      case False
      then show ?thesis using assms ids by (intro parsed) (auto simp: worker_Parse_def split: if_split_asm)
    next
      case True
      show ?thesis
      proof (cases "wk_managed W (rd_ID doc)")
        case (Inl e)
        then show ?thesis using assms ids True by (intro failed) (auto simp: worker_Parse_def)
      next
        case (Inr managed)
        show ?thesis
        proof (cases managed)
          case True
          then have "err = None" "st' = st" using assms ids Inr \<open>rd_ParentRawID doc = [] \<and> _\<close> by (simp_all add: worker_Parse_def)
          then show ?thesis using \<open>rd_ParentRawID doc = [] \<and> _\<close> Inr True by simp
        next
          case False
          then show ?thesis using assms ids True Inr by (intro parsed) (simp add: worker_Parse_def)
        qed
      qed
    qed
  qed
qed

text \<open>
  Normalized text is content-addressed: a processed document has its text, with the digest the parser reported, under the
  normalized key of its source and that digest whenever the repository took the revision with the text, and no other object outside the
  staging area is touched.
\<close>

lemma processed_text_stored:
  assumes "parse_Process V (s3_ops C) q fl b = (Inr pr, fl', b')"
  shows "NormalizedObjectKey (pq_SourceID q) (oc_sha256 C (pt_NormalizedText (ps_Parsed pr))) = Some (ps_ObjectKey pr)
    \<and> (\<forall>recorded. pc_record V (pq_RawDocumentID q) (ps_Parsed pr) = CommitThen recorded \<longrightarrow>
         (\<exists>obj. os_bucket b' (ps_ObjectKey pr) = Some obj \<and> obj_Content obj = pt_NormalizedText (ps_Parsed pr)))
    \<and> (\<forall>k. final_key k \<longrightarrow> k \<noteq> ps_ObjectKey pr \<longrightarrow> os_bucket b' k = os_bucket b k)"
  using s3.parse_Process_stored [OF assms] by auto

section \<open>Instances\<close>

definition sample_text_client :: object_client where
  "sample_text_client =
     \<lparr>oc_outcome = (\<lambda>n. CallDone), oc_random = (\<lambda>n. Some (replicate 16 (CHR 0x01))), oc_size = (\<lambda>n b. int (length b)), oc_bucket_exists = (\<lambda>n. True),
      oc_sha256 = (\<lambda>b. replicate 32 (CHR 0x07))\<rparr>"

definition sample_processor :: processor_env where
  "sample_processor =
     \<lparr>pc_parse = (\<lambda>q. Inr \<lparr>pt_NormalizedText = ''hello'', pt_NormalizedSHA256 = replicate 32 (CHR 0x07), pt_CanonicalURL = ''https://go.dev/''\<rparr>),
      pc_record = (\<lambda>i p. CommitThen (Some ''r1'')), pc_failure_ok = (\<lambda>c. True)\<rparr>"

definition sample_raw_document :: raw_document where
  "sample_raw_document =
     \<lparr>rd_ID = ''d1'', rd_SourceID = ''go-blog'', rd_Connector = ConnectorPage, rd_URL = ''https://go.dev/'', rd_ContentType = ''text/html'',
      rd_ContentPolicy = ''link-and-excerpt'', rd_ObjectKey = ''raw/x'', rd_MaxResponseBytes = 100, rd_RawSHA256 = replicate 32 (CHR 0x07), rd_ParentRawID = [], rd_SourceEntryID = []\<rparr>"

definition sample_worker :: "object_state worker_env" where
  "sample_worker =
     \<lparr>wk_load = (\<lambda>r i. Inr sample_raw_document), wk_load_observation = (\<lambda>i. Inr None), wk_managed = (\<lambda>i. Inr False), wk_read = (\<lambda>k n. Some ''<p>hello</p>''),
      wk_sha256 = (\<lambda>b. replicate 32 (CHR 0x07)), wk_split = (\<lambda>c u p. Inr []), wk_split_observation = (\<lambda>u p. Inr []), wk_processor = sample_processor,
      wk_objects = s3_ops sample_text_client, wk_dedupe = (\<lambda>r t u. Inr ''new''), wk_answer = (\<lambda>c. None), wk_ctx_done = False\<rparr>"

definition sample_worker_state :: "object_state worker_state" where
  "sample_worker_state = \<lparr>ws_store = \<lparr>os_bucket = (\<lambda>k. None), os_calls = 0\<rparr>, ws_failures = [], ws_calls = []\<rparr>"

lemma sample_parse_run:
  "case worker_Parse sample_worker ''go-blog'' ''d1'' sample_worker_state of
     (err, st') \<Rightarrow> err = None \<and> ws_calls st' = [CompleteParsedRevision ''d1'' ''go-blog'' ''new'' ''r1'']"
  by code_simp

theorem parse_job_accounts_witness:
  "\<exists>st'. worker_Parse sample_worker ''go-blog'' ''d1'' sample_worker_state = (None, st')
     \<and> job_calls sample_worker sample_raw_document ''go-blog'' None (ws_calls st')"
proof -
  obtain err st' where run: "worker_Parse sample_worker ''go-blog'' ''d1'' sample_worker_state = (err, st')" by fastforce
  then have err: "err = None" "ws_calls st' \<noteq> []" using sample_parse_run by auto
  have "wk_load sample_worker ''go-blog'' ''d1'' = Inr sample_raw_document" by (simp add: sample_worker_def)
  from parse_job_accounts [OF run this] show ?thesis using run err by (auto simp: sample_worker_state_def)
qed

definition sample_process :: "(work_error + process_outcome) \<times> failure_log \<times> object_state" where
  "sample_process =
     parse_Process sample_processor (s3_ops sample_text_client) (parse_request_of sample_raw_document ''<p>hello</p>'') [] \<lparr>os_bucket = (\<lambda>k. None), os_calls = 0\<rparr>"

lemma sample_process_ok: "case sample_process of (res, fl, b) \<Rightarrow> \<not> isl res \<and> pt_NormalizedText (ps_Parsed (projr res)) = ''hello''"
  by code_simp

lemma processed_text_stored_witness:
  "\<exists>pr obj. fst sample_process = Inr pr \<and> os_bucket (snd (snd sample_process)) (ps_ObjectKey pr) = Some obj \<and> obj_Content obj = ''hello''"
proof -
  obtain res fl b where run: "sample_process = (res, fl, b)" by (metis prod_cases3)
  obtain pr where pr: "res = Inr pr" "pt_NormalizedText (ps_Parsed pr) = ''hello''" using sample_process_ok unfolding run by (cases res) auto
  have "parse_Process sample_processor (s3_ops sample_text_client) (parse_request_of sample_raw_document ''<p>hello</p>'') [] \<lparr>os_bucket = (\<lambda>k. None), os_calls = 0\<rparr> = (Inr pr, fl, b)"
    using run pr(1) by (simp add: sample_process_def)
  from processed_text_stored [OF this] show ?thesis using pr unfolding run by (auto simp: sample_processor_def)
qed

end
