(* ===== verification/Dedupe.thy ===== *)
theory Dedupe
  imports Go_Time Go_Sort "HOL-Library.Word" "HOL-Library.Product_Lexorder"
begin

text \<open>
  Deduplication (\<open>src/internal/dedupe\<close>): fingerprints of texts (\<open>simhash.go\<close>) and the decision whether a
  document is new, a revision, a duplicate or part of a cluster (\<open>decision.go\<close>). Unicode normalisation, case
  mapping and character classes are the fields of the argument \<open>unicode\<close>; the stable sort of the
  standard library is an argument with its documented contract.
\<close>

unbundle bit_operations_syntax

section \<open>Fingerprints\<close>

type_synonym uint64 = "64 word"

record unicode =
  uc_ToLower :: "string \<Rightarrow> string"
  uc_NFKC :: "string \<Rightarrow> string"
  uc_ToValidUTF8 :: "string \<Rightarrow> string"
  uc_IsLetter :: "rune \<Rightarrow> bool"
  uc_IsDigit :: "rune \<Rightarrow> bool"

definition separator :: "unicode \<Rightarrow> rune \<Rightarrow> bool" where
  "separator U r \<longleftrightarrow> \<not> uc_IsLetter U r \<and> \<not> uc_IsDigit U r \<and> r \<noteq> 43 \<and> r \<noteq> 35"

text \<open>\<open>strings.FieldsFunc\<close>: the maximal runs of runes that are no separators, as byte strings; \<open>cur\<close> is the run so far.\<close>

function fields_func :: "(rune \<Rightarrow> bool) \<Rightarrow> string \<Rightarrow> string \<Rightarrow> string list" where
  "fields_func sep cur s =
     (if s = [] then (if cur = [] then [] else [cur])
      else let r = fst (decode_rune s); w = snd (decode_rune s) in
        if sep r then (if cur = [] then [] else [cur]) @ fields_func sep [] (drop w s)
        else fields_func sep (cur @ take w s) (drop w s))"
  by pat_completeness auto
termination
proof (relation "measure (\<lambda>(sep, cur, s). length s)", goal_cases)
  case (2 sep cur s r w)
  then show ?case using decode_rune_width [of s] by auto
next
  case (3 sep cur s r w)
  then show ?case using decode_rune_width [of s] by auto
qed simp

declare fields_func.simps [simp del]

definition tokenize :: "unicode \<Rightarrow> string \<Rightarrow> string list" where
  "tokenize U v = fields_func (separator U) [] (uc_NFKC U (uc_ToLower U v))"

definition NormalizeMetadata :: "unicode \<Rightarrow> string \<Rightarrow> string" where
  "NormalizeMetadata U v =
     join '' '' (fields_func (separator U) [] (uc_ToLower U (uc_NFKC U (uc_ToValidUTF8 U (trim_space v)))))"

text \<open>\<open>fnv.New64a\<close>.\<close>

definition fnv64a :: "string \<Rightarrow> uint64" where
  "fnv64a s = fold (\<lambda>c h. (h XOR of_nat (byte c)) * 1099511628211) s 14695981039346656037"

text \<open>The tokens, and every two neighbours joined by a zero byte.\<close>

fun bigrams :: "string list \<Rightarrow> string list" where
  "bigrams (a # b # rest) = (a @ [CHR 0x00] @ b) # bigrams (b # rest)"
| "bigrams _ = []"

definition features :: "string list \<Rightarrow> string list" where
  "features tokens = tokens @ bigrams tokens"

definition weight :: "string list \<Rightarrow> nat \<Rightarrow> int" where
  "weight fs b = fold (\<lambda>f w. if bit (fnv64a f) b then w + 1 else w - 1) fs 0"

definition fingerprint :: "(nat \<Rightarrow> int) \<Rightarrow> uint64" where
  "fingerprint weights = fold (\<lambda>b h. if weights b \<ge> 0 then h OR push_bit b 1 else h) [0..<64] 0"

definition SimHash :: "unicode \<Rightarrow> string \<Rightarrow> uint64" where
  "SimHash U v =
     (let tokens = tokenize U v in
      if tokens = [] then 0 else fingerprint (weight (features tokens)))"

definition OnesCount64 :: "uint64 \<Rightarrow> nat" where
  "OnesCount64 w = length (filter (bit w) [0..<64])"

definition SimHashDistance :: "uint64 \<Rightarrow> uint64 \<Rightarrow> nat" where
  "SimHashDistance a b = OnesCount64 (a XOR b)"

section \<open>Configuration and candidates\<close>

record dedupe_config =
  cfg_SimHashDistance :: int
  cfg_EmbeddingSimilarity :: float64
  cfg_ClusterMaxAge :: duration

text \<open>The literal 0.86 is the nearest \<open>float64\<close>.\<close>

definition DefaultConfig :: dedupe_config where
  "DefaultConfig = \<lparr>cfg_SimHashDistance = 17, cfg_EmbeddingSimilarity = Fin (7746191359077253 / 9007199254740992), cfg_ClusterMaxAge = 30 * 24 * hour\<rparr>"

definition config_Validate :: "dedupe_config \<Rightarrow> string option" where
  "config_Validate c =
     (if cfg_SimHashDistance c < 0 \<or> cfg_SimHashDistance c > 64 then Some ''SimHash distance must be between 0 and 64''
      else if flt_le (cfg_EmbeddingSimilarity c) (Fin 0) \<or> flt_gt (cfg_EmbeddingSimilarity c) (Fin 1)
      then Some ''embedding similarity must be greater than 0 and at most 1''
      else if cfg_ClusterMaxAge c \<le> 0 \<or> cfg_ClusterMaxAge c > 365 * 24 * hour
      then Some ''cluster maximum age must be between 1ns and 365 days'' else None)"

record document =
  doc_SourceID :: string
  doc_SourceEntryID :: string
  doc_CanonicalURL :: string
  doc_Title :: string
  doc_Author :: string
  doc_PackageName :: string
  doc_Version :: string
  doc_RawSHA256 :: string
  doc_NormalizedSHA256 :: string
  doc_SimHash :: uint64
  doc_PublishedAt :: time
  doc_FirstSeenAt :: time

record candidate =
  can_ItemID :: string
  can_ClusterID :: string
  can_RevisionID :: string
  can_SourceID :: string
  can_SourceEntryID :: string
  can_SourceTier :: string
  can_CanonicalURL :: string
  can_NormalizedTitle :: string
  can_NormalizedAuthor :: string
  can_PackageName :: string
  can_Version :: string
  can_RawSHA256 :: string
  can_NormalizedSHA256 :: string
  can_SimHash :: uint64
  can_PublishedAt :: time
  can_FirstSeenAt :: time
  can_ObservedAt :: time
  can_EmbeddingSimilarity :: float64

datatype dedupe_outcome = OutcomeCreate | OutcomeDuplicate | OutcomeRevision | OutcomeCluster

datatype dedupe_method =
    MethodNew | MethodRevision | MethodCanonicalURL | MethodRawSHA256 | MethodNormalizedSHA256
  | MethodMetadata | MethodSimHash | MethodEmbedding | MethodPackageVersion

record decision =
  dec_Outcome :: dedupe_outcome
  dec_Method :: dedupe_method
  dec_CandidateItemID :: string
  dec_CandidateRevisionID :: string
  dec_ClusterID :: string
  dec_SimHashDistance :: nat
  dec_Similarity :: float64

definition metadataCompatible :: "string \<Rightarrow> string \<Rightarrow> candidate \<Rightarrow> bool" where
  "metadataCompatible package version c \<longleftrightarrow>
     \<not> (package \<noteq> [] \<and> can_PackageName c \<noteq> [] \<and> package \<noteq> can_PackageName c)
     \<and> \<not> (version \<noteq> [] \<and> can_Version c \<noteq> [] \<and> version \<noteq> can_Version c)"

text \<open>The absolute value of the smallest \<open>int64\<close> wraps to itself, which is below every age.\<close>

definition datesWithin :: "document \<Rightarrow> candidate \<Rightarrow> duration \<Rightarrow> bool" where
  "datesWithin d c maximumAge =
     (let first = (if is_zero (doc_PublishedAt d) then doc_FirstSeenAt d else doc_PublishedAt d);
          second_time = (if is_zero (can_PublishedAt c) then can_FirstSeenAt c else can_PublishedAt c) in
      if is_zero first \<or> is_zero second_time then False
      else let difference = time_sub first second_time in
        (if difference < 0 then wrap64 (- difference) else difference) \<le> maximumAge)"

definition to_upper_ascii :: "string \<Rightarrow> string" where
  "to_upper_ascii s = map (\<lambda>c. if 97 \<le> byte c \<and> byte c \<le> (122 :: nat) then char_of (byte c - 32) else c) s"

text \<open>The only strings whose upper case is one of the four tiers differ from it in the case of the letter.\<close>

definition trustTierRank :: "string \<Rightarrow> nat" where
  "trustTierRank tier =
     (let t = to_upper_ascii tier in
      if t = ''T0'' then 0 else if t = ''T1'' then 1 else if t = ''T2'' then 2 else if t = ''T3'' then 3 else 4)"

definition base_decision :: "candidate \<Rightarrow> dedupe_outcome \<Rightarrow> dedupe_method \<Rightarrow> decision" where
  "base_decision c outcome method =
     \<lparr>dec_Outcome = outcome, dec_Method = method, dec_CandidateItemID = can_ItemID c, dec_CandidateRevisionID = can_RevisionID c,
      dec_ClusterID = can_ClusterID c, dec_SimHashDistance = 0, dec_Similarity = Fin 1\<rparr>"

definition hash_similarity :: "nat \<Rightarrow> rat" where
  "hash_similarity distance = 1 - of_nat distance / 64"

text \<open>\<open>None\<close>: the candidate does not match; otherwise the decision and its rank.\<close>

definition compareCandidate ::
    "document \<Rightarrow> string \<Rightarrow> string \<Rightarrow> string \<Rightarrow> string \<Rightarrow> candidate \<Rightarrow> dedupe_config \<Rightarrow> (decision \<times> nat) option" where
  "compareCandidate d title author package version c config =
     (if doc_SourceEntryID d \<noteq> [] \<and> doc_SourceEntryID d = can_SourceEntryID c
      then Some (base_decision c OutcomeRevision MethodRevision, 0)
      else if doc_SourceEntryID d = [] \<and> can_SourceEntryID c = [] \<and> doc_SourceID d = can_SourceID c
              \<and> doc_CanonicalURL d = can_CanonicalURL c
      then Some (base_decision c OutcomeRevision MethodRevision, 0)
      else if doc_CanonicalURL d = can_CanonicalURL c
      then Some (base_decision c OutcomeDuplicate MethodCanonicalURL, 1)
      else if doc_RawSHA256 d = can_RawSHA256 c
      then Some (base_decision c OutcomeDuplicate MethodRawSHA256, 2)
      else if doc_NormalizedSHA256 d = can_NormalizedSHA256 c
      then Some (base_decision c OutcomeDuplicate MethodNormalizedSHA256, 3)
      else
        let withinAge = datesWithin d c (cfg_ClusterMaxAge config);
            sameRelease = package \<noteq> [] \<and> version \<noteq> [] \<and> package = can_PackageName c \<and> version = can_Version c;
            metadataMatch = title \<noteq> [] \<and> title = can_NormalizedTitle c
              \<and> ((author \<noteq> [] \<and> author = can_NormalizedAuthor c) \<or> sameRelease);
            distance = SimHashDistance (doc_SimHash d) (can_SimHash c) in
        if withinAge \<and> metadataMatch
        then Some (base_decision c OutcomeDuplicate MethodMetadata, 4)
        else if withinAge \<and> metadataCompatible package version c \<and> doc_SimHash d \<noteq> 0 \<and> can_SimHash c \<noteq> 0
                \<and> int distance \<le> cfg_SimHashDistance config
        then Some ((base_decision c OutcomeDuplicate MethodSimHash)
                     \<lparr>dec_SimHashDistance := distance, dec_Similarity := Fin (hash_similarity distance)\<rparr>, 5)
        else if withinAge \<and> metadataCompatible package version c
                \<and> flt_ge (can_EmbeddingSimilarity c) (cfg_EmbeddingSimilarity config)
                \<and> flt_le (can_EmbeddingSimilarity c) (Fin 1)
        then Some ((base_decision c OutcomeCluster MethodEmbedding)\<lparr>dec_Similarity := can_EmbeddingSimilarity c\<rparr>, 6)
        else if withinAge \<and> sameRelease
        then Some ((base_decision c OutcomeCluster MethodPackageVersion)
                     \<lparr>dec_SimHashDistance := distance, dec_Similarity := Fin (max 0 (hash_similarity distance))\<rparr>, 7)
        else None)"

section \<open>The decision\<close>

record ranked_decision =
  rd_Decision :: decision
  rd_Candidate :: candidate
  rd_rank :: nat

definition decision_less :: "ranked_decision \<Rightarrow> ranked_decision \<Rightarrow> bool" where
  "decision_less a b =
     (let c = rd_Candidate a; d = rd_Candidate b in
      if rd_rank a \<noteq> rd_rank b then rd_rank a < rd_rank b
      else if rd_rank a = 0 \<and> can_ItemID c = can_ItemID d \<and> can_ObservedAt c \<noteq> can_ObservedAt d
      then can_ObservedAt c > can_ObservedAt d
      else if trustTierRank (can_SourceTier c) \<noteq> trustTierRank (can_SourceTier d)
      then trustTierRank (can_SourceTier c) < trustTierRank (can_SourceTier d)
      else if can_FirstSeenAt c \<noteq> can_FirstSeenAt d then can_FirstSeenAt c < can_FirstSeenAt d
      else can_ItemID c < can_ItemID d)"

definition new_decision :: decision where
  "new_decision = \<lparr>dec_Outcome = OutcomeCreate, dec_Method = MethodNew, dec_CandidateItemID = [], dec_CandidateRevisionID = [],
     dec_ClusterID = [], dec_SimHashDistance = 0, dec_Similarity = Fin 1\<rparr>"

definition ranked ::
    "unicode \<Rightarrow> document \<Rightarrow> candidate list \<Rightarrow> dedupe_config \<Rightarrow> ranked_decision list" where
  "ranked U d cs config =
     (let title = NormalizeMetadata U (doc_Title d); author = NormalizeMetadata U (doc_Author d);
          package = NormalizeMetadata U (doc_PackageName d); version = NormalizeMetadata U (doc_Version d) in
      concat (map (\<lambda>c. case compareCandidate d title author package version c config of
                 None \<Rightarrow> []
               | Some (dec, rank) \<Rightarrow> [\<lparr>rd_Decision = dec, rd_Candidate = c, rd_rank = rank\<rparr>]) cs))"

type_synonym sorter = "(ranked_decision \<Rightarrow> ranked_decision \<Rightarrow> bool) \<Rightarrow> ranked_decision list \<Rightarrow> ranked_decision list"

definition Decide :: "sorter \<Rightarrow> unicode \<Rightarrow> document \<Rightarrow> candidate list \<Rightarrow> dedupe_config \<Rightarrow> decision" where
  "Decide slice_stable U d cs config =
     (case config_Validate config of
        Some _ \<Rightarrow> new_decision
      | None \<Rightarrow>
          (case slice_stable decision_less (ranked U d cs config) of
             [] \<Rightarrow> new_decision
           | best # _ \<Rightarrow> rd_Decision best))"

section \<open>Distances between fingerprints\<close>

lemma OnesCount64_card: "OnesCount64 w = card {i. i < 64 \<and> bit w i}"
proof -
  have "{i. i < 64 \<and> bit w i} = set (filter (bit w) [0..<64])" by auto
  then show ?thesis by (simp add: OnesCount64_def distinct_card [symmetric])
qed

lemma SimHashDistance_card: "SimHashDistance a b = card {i. i < 64 \<and> bit a i \<noteq> bit b i}"
  unfolding SimHashDistance_def OnesCount64_card by (simp add: bit_xor_iff)

lemma same_bits: "(\<forall>i<64. bit a i = bit b i) \<longleftrightarrow> a = (b :: uint64)"
  by (auto intro!: bit_word_eqI)

lemma finite_bits [simp]: "finite {i. i < (64 :: nat) \<and> P i}"
  by simp

text \<open>
  The distance of two fingerprints is a metric with values from 0 to 64, and the similarity
  reported for it lies between 0 and 1, is 1 exactly for equal fingerprints and falls as the distance grows.
\<close>

lemma SimHashDistance_metric:
  "SimHashDistance a b \<le> 64 \<and> (SimHashDistance a b = 0 \<longleftrightarrow> a = b) \<and> SimHashDistance a b = SimHashDistance b a
   \<and> SimHashDistance a c \<le> SimHashDistance a b + SimHashDistance b c
   \<and> 0 \<le> hash_similarity (SimHashDistance a b) \<and> hash_similarity (SimHashDistance a b) \<le> 1
   \<and> (hash_similarity (SimHashDistance a b) = 1 \<longleftrightarrow> a = b)
   \<and> (hash_similarity (SimHashDistance a b) < hash_similarity (SimHashDistance a c) \<longleftrightarrow> SimHashDistance a c < SimHashDistance a b)"
proof -
  let ?D = "\<lambda>a b :: uint64. {i. i < 64 \<and> bit a i \<noteq> bit b i}"
  have "card (?D a b) \<le> card {..<64 :: nat}" by (rule card_mono) auto
  then have bound: "SimHashDistance a b \<le> 64" by (simp add: SimHashDistance_card)
  have zero: "SimHashDistance a b = 0 \<longleftrightarrow> a = b" using same_bits [of a b] by (auto simp: SimHashDistance_card)
  have "?D a b = ?D b a" by auto
  then have sym: "SimHashDistance a b = SimHashDistance b a" by (simp add: SimHashDistance_card)
  have "card (?D a c) \<le> card (?D a b \<union> ?D b c)" by (rule card_mono) auto
  also have "\<dots> \<le> card (?D a b) + card (?D b c)" by (rule card_Un_le)
  finally have triangle: "SimHashDistance a c \<le> SimHashDistance a b + SimHashDistance b c" by (simp add: SimHashDistance_card)
  have "(of_nat (SimHashDistance a b) :: rat) \<le> 64" using bound by (metis of_nat_le_iff of_nat_numeral)
  then show ?thesis using bound zero sym triangle by (auto simp: hash_similarity_def field_simps)
qed

section \<open>Fingerprints of texts\<close>

lemma weight_count: "weight fs b = (\<Sum>f\<leftarrow>fs. if bit (fnv64a f) b then 1 else - 1)"
proof -
  have "fold (\<lambda>f w. if bit (fnv64a f) b then w + 1 else w - 1) fs (x :: int) = x + (\<Sum>f\<leftarrow>fs. if bit (fnv64a f) b then 1 else - 1)" for x
    by (induction fs arbitrary: x) auto
  then show ?thesis by (simp add: weight_def)
qed

lemma weight_mset: "mset fs = mset gs \<Longrightarrow> weight fs b = weight gs b"
  unfolding weight_count by (simp flip: sum_mset_sum_list)

lemma bit_single: "bit (2 ^ n :: uint64) m \<longleftrightarrow> m = n \<and> n < 64"
  by (auto simp: bit_exp_iff)

lemma fingerprint_fold:
  "bit (fold (\<lambda>b h. if weights b \<ge> (0 :: int) then h OR push_bit b 1 else h) bs (h :: uint64)) b
     \<longleftrightarrow> bit h b \<or> (b \<in> set bs \<and> b < 64 \<and> weights b \<ge> 0)"
proof (induction bs arbitrary: h)
  case (Cons a bs)
  show ?case
    unfolding fold_Cons comp_def Cons.IH
    by (cases "weights a \<ge> 0") (auto simp: bit_or_iff bit_single)
qed simp

lemma fingerprint_bit: "bit (fingerprint weights) b \<longleftrightarrow> b < 64 \<and> weights b \<ge> 0"
proof -
  have "\<not> bit (0 :: uint64) b" "0 \<le> b" by simp_all
  then show ?thesis
    unfolding fingerprint_def fingerprint_fold set_upt atLeastLessThan_iff by blast
qed

text \<open>
  A fingerprint bit is the majority vote of the features: bit b is set exactly when at least half of
  the tokens and neighbouring pairs, counted with repetition, hash to a value with bit b set. The
  fingerprint of a text therefore depends only on the multiset of its features.
\<close>

lemma SimHash_majority:
  assumes "tokenize U v \<noteq> []"
  shows "(bit (SimHash U v) b \<longleftrightarrow> b < 64
      \<and> length (filter (\<lambda>f. \<not> bit (fnv64a f) b) (features (tokenize U v))) \<le> length (filter (\<lambda>f. bit (fnv64a f) b) (features (tokenize U v))))
    \<and> (mset (features (tokenize U v)) = mset (features (tokenize U w)) \<longrightarrow> SimHash U v = SimHash U w)"
proof -
  have count: "weight fs b = int (length (filter (\<lambda>f. bit (fnv64a f) b) fs)) - int (length (filter (\<lambda>f. \<not> bit (fnv64a f) b) fs))" for fs
    by (induction fs) (auto simp: weight_count)
  have "tokenize U w \<noteq> []" if "mset (features (tokenize U v)) = mset (features (tokenize U w))"
    using that assms by (cases "tokenize U w") (auto simp: features_def)
  moreover have "weight (features (tokenize U v)) = weight (features (tokenize U w))"
    if "mset (features (tokenize U v)) = mset (features (tokenize U w))"
    using weight_mset [OF that] by blast
  ultimately show ?thesis using assms by (auto simp: SimHash_def Let_def fingerprint_bit count)
qed

section \<open>The decision is the best match\<close>

text \<open>Revisions of one item carry its first appearance and one source tier.\<close>

definition item_consistent :: "candidate list \<Rightarrow> bool" where
  "item_consistent cs \<longleftrightarrow> (\<forall>c\<in>set cs. \<forall>d\<in>set cs. can_ItemID c = can_ItemID d
     \<longrightarrow> trustTierRank (can_SourceTier c) = trustTierRank (can_SourceTier d) \<and> can_FirstSeenAt c = can_FirstSeenAt d)"

lemma item_consistentD:
  "item_consistent cs \<Longrightarrow> c \<in> set cs \<Longrightarrow> d \<in> set cs \<Longrightarrow> can_ItemID c = can_ItemID d \<Longrightarrow>
   trustTierRank (can_SourceTier c) = trustTierRank (can_SourceTier d) \<and> can_FirstSeenAt c = can_FirstSeenAt d"
  unfolding item_consistent_def by blast

text \<open>Rank, source tier, first appearance, item, and for revisions the latest observation first.\<close>

definition decision_key :: "ranked_decision \<Rightarrow> nat \<times> nat \<times> int \<times> string \<times> int" where
  "decision_key a =
     (let c = rd_Candidate a in
      (rd_rank a, trustTierRank (can_SourceTier c), can_FirstSeenAt c, can_ItemID c, if rd_rank a = 0 then - can_ObservedAt c else 0))"

definition decision_candidates :: "unicode \<Rightarrow> document \<Rightarrow> dedupe_config \<Rightarrow> candidate \<Rightarrow> (decision \<times> nat) option" where
  "decision_candidates U d config c =
     compareCandidate d (NormalizeMetadata U (doc_Title d)) (NormalizeMetadata U (doc_Author d))
       (NormalizeMetadata U (doc_PackageName d)) (NormalizeMetadata U (doc_Version d)) c config"

lemma ranked_iff:
  "r \<in> set (ranked U d cs config) \<longleftrightarrow> rd_Candidate r \<in> set cs
     \<and> decision_candidates U d config (rd_Candidate r) = Some (rd_Decision r, rd_rank r)"
  by (cases r) (auto simp: ranked_def decision_candidates_def Let_def split: option.splits)

lemma decision_less_key:
  assumes "can_ItemID (rd_Candidate a) = can_ItemID (rd_Candidate b) \<Longrightarrow>
      trustTierRank (can_SourceTier (rd_Candidate a)) = trustTierRank (can_SourceTier (rd_Candidate b))
      \<and> can_FirstSeenAt (rd_Candidate a) = can_FirstSeenAt (rd_Candidate b)"
  shows "decision_less a b \<longleftrightarrow> decision_key a < decision_key b"
  using assms by (auto simp: decision_less_def decision_key_def Let_def)

lemma decision_less_weak:
  assumes "item_consistent (map rd_Candidate rs)"
  shows "strict_weak decision_less (set rs)"
proof (rule strict_weak_key [where key = decision_key])
  fix a b
  assume "a \<in> set rs" "b \<in> set rs"
  then show "decision_less a b \<longleftrightarrow> decision_key a < decision_key b"
    by (intro decision_less_key item_consistentD [OF assms]) simp_all
qed

text \<open>
  C14. The decision is the best match. Without a match, or with an invalid configuration, the document
  is new. Otherwise the decision comes from a matching candidate, no other match has stronger
  evidence (a lower rank), and among equal evidence none has a more trusted source, an earlier first
  appearance or, for revisions of the same item, a later observation. Revisions of one item agree on tier and first
  appearance, and the sort keeps its contract.
\<close>

theorem Decide_best:
  assumes "slice_sort slice_stable" and "item_consistent cs"
  shows "(config_Validate config \<noteq> None \<or> (\<forall>c\<in>set cs. decision_candidates U d config c = None) \<longrightarrow> Decide slice_stable U d cs config = new_decision)
    \<and> (config_Validate config = None \<and> (\<exists>c\<in>set cs. decision_candidates U d config c \<noteq> None) \<longrightarrow>
        (\<exists>best\<in>set (ranked U d cs config). Decide slice_stable U d cs config = rd_Decision best
           \<and> (\<forall>other\<in>set (ranked U d cs config). decision_key best \<le> decision_key other)))"
proof -
  let ?rs = "ranked U d cs config"
  have consistent: "item_consistent (map rd_Candidate ?rs)"
    using assms(2) unfolding item_consistent_def by (auto simp: ranked_iff)
  note sorted = slice_sort.head_least [OF assms(1) decision_less_weak [OF consistent]]
  have empty: "?rs = [] \<longleftrightarrow> (\<forall>c\<in>set cs. decision_candidates U d config c = None)"
    unfolding ranked_def decision_candidates_def Let_def concat_eq_Nil_conv
    by (simp split: option.split) (metis not_None_eq surj_pair)
  note nil = slice_sort.empty_iff [OF assms(1), of decision_less ?rs]
  show ?thesis
  proof (intro conjI impI)
    assume "config_Validate config \<noteq> None \<or> (\<forall>c\<in>set cs. decision_candidates U d config c = None)"
    then show "Decide slice_stable U d cs config = new_decision"
      using nil empty by (auto simp: Decide_def split: option.split)
  next
    assume *: "config_Validate config = None \<and> (\<exists>c\<in>set cs. decision_candidates U d config c \<noteq> None)"
    then obtain best rest where best: "slice_stable decision_less ?rs = best # rest"
      using nil empty by (cases "slice_stable decision_less ?rs") auto
    have "decision_key best \<le> decision_key other" if "other \<in> set ?rs" for other
    proof -
      have "decision_less other best \<longleftrightarrow> decision_key other < decision_key best"
        using that sorted [OF best] by (intro decision_less_key item_consistentD [OF consistent]) simp_all
      then show ?thesis using sorted [OF best] that by auto
    qed
    then show "\<exists>best\<in>set ?rs. Decide slice_stable U d cs config = rd_Decision best \<and> (\<forall>other\<in>set ?rs. decision_key best \<le> decision_key other)"
      using * best sorted [OF best] by (intro bexI [of _ best]) (auto simp: Decide_def)
  qed
qed

section \<open>Concrete documents\<close>

text \<open>ASCII only: letters, digits, no case mapping and no normalisation.\<close>

definition ascii :: unicode where
  "ascii = \<lparr>uc_ToLower = (\<lambda>s. s), uc_NFKC = (\<lambda>s. s), uc_ToValidUTF8 = (\<lambda>s. s),
     uc_IsLetter = (\<lambda>r. 97 \<le> r \<and> r \<le> 122), uc_IsDigit = (\<lambda>r. 48 \<le> r \<and> r \<le> 57)\<rparr>"

lemma SimHash_majority_witness:
  "bit (SimHash ascii ''go'') 0 \<longleftrightarrow> length (filter (\<lambda>f. \<not> bit (fnv64a f) 0) [''go'']) \<le> length (filter (\<lambda>f. bit (fnv64a f) 0) [''go''])"
proof -
  have "tokenize ascii ''go'' = [''go'']" by code_simp
  with SimHash_majority [of ascii "''go''" 0] show ?thesis by (simp add: features_def)
qed

definition sample_document :: document where
  "sample_document = \<lparr>doc_SourceID = ''s'', doc_SourceEntryID = ''e'', doc_CanonicalURL = ''https://go.dev/a'', doc_Title = ''go'',
     doc_Author = [], doc_PackageName = [], doc_Version = [], doc_RawSHA256 = ''raw'', doc_NormalizedSHA256 = ''norm'', doc_SimHash = 1,
     doc_PublishedAt = 0, doc_FirstSeenAt = 5\<rparr>"

definition sample_candidate :: "string \<Rightarrow> string \<Rightarrow> string \<Rightarrow> time \<Rightarrow> candidate" where
  "sample_candidate item revision tier observed = \<lparr>can_ItemID = item, can_ClusterID = ''c'', can_RevisionID = revision, can_SourceID = ''s'',
     can_SourceEntryID = ''e'', can_SourceTier = tier, can_CanonicalURL = ''https://go.dev/b'', can_NormalizedTitle = [],
     can_NormalizedAuthor = [], can_PackageName = [], can_Version = [], can_RawSHA256 = [], can_NormalizedSHA256 = [], can_SimHash = 0,
     can_PublishedAt = 0, can_FirstSeenAt = 1, can_ObservedAt = observed, can_EmbeddingSimilarity = Fin 0\<rparr>"

definition sample_revisions :: "candidate list" where
  "sample_revisions = [sample_candidate ''i'' ''r1'' ''T1'' 1, sample_candidate ''i'' ''r2'' ''T1'' 2]"

theorem Decide_best_witness:
  "\<exists>best\<in>set (ranked ascii sample_document sample_revisions DefaultConfig).
     Decide insertionSort ascii sample_document sample_revisions DefaultConfig = rd_Decision best
     \<and> dec_CandidateRevisionID (rd_Decision best) = ''r2''"
proof -
  have consistent: "item_consistent sample_revisions"
    by (simp add: item_consistent_def sample_revisions_def sample_candidate_def)
  have "config_Validate DefaultConfig = None" "\<not> list_all (\<lambda>c. Option.is_none (decision_candidates ascii sample_document DefaultConfig c)) sample_revisions"
    by code_simp+
  then have "config_Validate DefaultConfig = None \<and> (\<exists>c\<in>set sample_revisions. decision_candidates ascii sample_document DefaultConfig c \<noteq> None)"
    by (auto simp: list_all_iff Option.is_none_def)
  with Decide_best [OF insertion.slice_sort_axioms consistent, of DefaultConfig ascii sample_document]
  obtain best where "best \<in> set (ranked ascii sample_document sample_revisions DefaultConfig)"
    "Decide insertionSort ascii sample_document sample_revisions DefaultConfig = rd_Decision best" by blast
  moreover have "dec_CandidateRevisionID (Decide insertionSort ascii sample_document sample_revisions DefaultConfig) = ''r2''"
    by code_simp
  ultimately show ?thesis by auto
qed

text \<open>
  The comparison of equally ranked revisions is cyclic when revisions of one item come from
  sources of different tiers: the newer revision of the first item precedes its older one, the older one
  precedes the second item by its tier, and the second item precedes the newer revision. The decision
  then depends on the order in which the candidates arrive.
\<close>

lemma Decide_order_dependent:
  "decision_less (\<lparr>rd_Decision = new_decision, rd_Candidate = sample_candidate ''i'' ''new'' ''T3'' 2, rd_rank = 0\<rparr>)
     (\<lparr>rd_Decision = new_decision, rd_Candidate = sample_candidate ''i'' ''old'' ''T0'' 1, rd_rank = 0\<rparr>)
   \<and> decision_less (\<lparr>rd_Decision = new_decision, rd_Candidate = sample_candidate ''i'' ''old'' ''T0'' 1, rd_rank = 0\<rparr>)
     (\<lparr>rd_Decision = new_decision, rd_Candidate = sample_candidate ''j'' ''other'' ''T1'' 1, rd_rank = 0\<rparr>)
   \<and> decision_less (\<lparr>rd_Decision = new_decision, rd_Candidate = sample_candidate ''j'' ''other'' ''T1'' 1, rd_rank = 0\<rparr>)
     (\<lparr>rd_Decision = new_decision, rd_Candidate = sample_candidate ''i'' ''new'' ''T3'' 2, rd_rank = 0\<rparr>)
   \<and> dec_CandidateRevisionID (Decide insertionSort ascii sample_document
        [sample_candidate ''i'' ''new'' ''T3'' 2, sample_candidate ''i'' ''old'' ''T0'' 1, sample_candidate ''j'' ''other'' ''T1'' 1] DefaultConfig) = ''new''
   \<and> dec_CandidateRevisionID (Decide insertionSort ascii sample_document
        [sample_candidate ''i'' ''old'' ''T0'' 1, sample_candidate ''j'' ''other'' ''T1'' 1, sample_candidate ''i'' ''new'' ''T3'' 2] DefaultConfig) = ''old''"
  by code_simp

end
