(* ===== verification/Search.thy ===== *)
theory Search
  imports Go_Strings Go_Sort "HOL-Library.Product_Lexorder" "HOL-Library.AList"
begin

text \<open>
  Hybrid search (\<open>src/internal/search/search.go\<close>): the fusion of a keyword and a semantic ranking by reciprocal
  ranks, and the validation of a query. The result map is an association list; the order in which
  Go iterates over it, the sort and the rounding of \<open>float64\<close> are arguments.
\<close>

record ranked_id =
  rid_ID :: string
  rid_Rank :: int

record fused_rank =
  fr_ID :: string
  fr_Score :: rat
  fr_KeywordRank :: "int option"
  fr_SemanticRank :: "int option"

type_synonym results = "(string \<times> fused_rank) list"

definition empty_result :: fused_rank where
  "empty_result = \<lparr>fr_ID = [], fr_Score = 0, fr_KeywordRank = None, fr_SemanticRank = None\<rparr>"

definition add_candidate :: "(rat \<Rightarrow> rat) \<Rightarrow> int \<Rightarrow> bool \<Rightarrow> ranked_id \<Rightarrow> results \<Rightarrow> results" where
  "add_candidate round64 k keywordList c results =
     (let r = (case map_of results (rid_ID c) of None \<Rightarrow> empty_result | Some r \<Rightarrow> r);
          r = r\<lparr>fr_ID := rid_ID c, fr_Score := round64 (fr_Score r + round64 (1 / round64 (of_int (wrap64 (k + rid_Rank c)))))\<rparr>;
          r = (if keywordList then r\<lparr>fr_KeywordRank := Some (rid_Rank c)\<rparr> else r\<lparr>fr_SemanticRank := Some (rid_Rank c)\<rparr>)
      in AList.update (rid_ID c) r results)"

fun add_ranking :: "(rat \<Rightarrow> rat) \<Rightarrow> int \<Rightarrow> bool \<Rightarrow> string list \<Rightarrow> ranked_id list \<Rightarrow> results \<Rightarrow> string + results" where
  "add_ranking round64 k keywordList seen [] results = Inr results"
| "add_ranking round64 k keywordList seen (c # cs) results =
     (if trim_space (rid_ID c) = [] \<or> rid_Rank c < 1
      then Inl ''ranked candidates require a non-empty ID and positive rank''
      else if rid_ID c \<in> set seen then Inl ''a ranking list may contain each candidate only once''
      else add_ranking round64 k keywordList (rid_ID c # seen) cs (add_candidate round64 k keywordList c results))"

definition bestRank :: "fused_rank \<Rightarrow> int" where
  "bestRank r =
     (let best = max_int64;
          best = (case fr_KeywordRank r of None \<Rightarrow> best | Some x \<Rightarrow> if x < best then x else best)
      in case fr_SemanticRank r of None \<Rightarrow> best | Some x \<Rightarrow> if x < best then x else best)"

definition fused_less :: "fused_rank \<Rightarrow> fused_rank \<Rightarrow> bool" where
  "fused_less a b =
     (if fr_Score a \<noteq> fr_Score b then fr_Score a > fr_Score b
      else if bestRank a \<noteq> bestRank b then bestRank a < bestRank b
      else fr_ID a < fr_ID b)"

definition Fuse ::
    "((fused_rank \<Rightarrow> fused_rank \<Rightarrow> bool) \<Rightarrow> fused_rank list \<Rightarrow> fused_rank list) \<Rightarrow> (results \<Rightarrow> results) \<Rightarrow> (rat \<Rightarrow> rat)
      \<Rightarrow> ranked_id list \<Rightarrow> ranked_id list \<Rightarrow> int \<Rightarrow> string + fused_rank list" where
  "Fuse slice iteration round64 keyword semantic k =
     (if k < 1 \<or> k > 1000 then Inl ''RRF k must be between 1 and 1000''
      else and_then (add_ranking round64 k True [] keyword []) (\<lambda>results.
           and_then (add_ranking round64 k False [] semantic results) (\<lambda>results.
             Inr (slice fused_less (map snd (iteration results))))))"

text \<open>Letters and numbers are character classes of the Unicode tables.\<close>

definition ValidateQuery :: "(rune \<Rightarrow> bool) \<Rightarrow> string \<Rightarrow> string option" where
  "ValidateQuery letter_or_number query =
     (let t = trim_space query in
      if length t < 2 \<or> length t > 500 then Some ''search query must contain between 2 and 500 bytes''
      else if \<not> list_ex letter_or_number (runes t) then Some ''search query must contain a letter or number''
      else None)"

section \<open>What the fusion computes\<close>

definition rank_in :: "ranked_id list \<Rightarrow> string \<Rightarrow> int option" where
  "rank_in xs i = map_option rid_Rank (find (\<lambda>c. rid_ID c = i) xs)"

definition share :: "(rat \<Rightarrow> rat) \<Rightarrow> int \<Rightarrow> int option \<Rightarrow> rat \<Rightarrow> rat" where
  "share round64 k r base = (case r of None \<Rightarrow> base | Some n \<Rightarrow> round64 (base + round64 (1 / round64 (of_int (wrap64 (k + n))))))"

text \<open>The entry of one identifier, from its two ranks alone.\<close>

definition fused_entry :: "(rat \<Rightarrow> rat) \<Rightarrow> ranked_id list \<Rightarrow> ranked_id list \<Rightarrow> int \<Rightarrow> string \<Rightarrow> fused_rank" where
  "fused_entry round64 keyword semantic k i =
     \<lparr>fr_ID = i, fr_Score = share round64 k (rank_in semantic i) (share round64 k (rank_in keyword i) 0),
      fr_KeywordRank = rank_in keyword i, fr_SemanticRank = rank_in semantic i\<rparr>"

definition ranking_ok :: "ranked_id list \<Rightarrow> bool" where
  "ranking_ok xs \<longleftrightarrow> (\<forall>c\<in>set xs. trim_space (rid_ID c) \<noteq> [] \<and> 1 \<le> rid_Rank c) \<and> distinct (map rid_ID xs)"

text \<open>Adding a ranking to a result: the new score and rank.\<close>

definition with_rank :: "(rat \<Rightarrow> rat) \<Rightarrow> int \<Rightarrow> bool \<Rightarrow> string \<Rightarrow> int \<Rightarrow> fused_rank option \<Rightarrow> fused_rank" where
  "with_rank round64 k keywordList i n old =
     (let r = (case old of None \<Rightarrow> empty_result | Some r \<Rightarrow> r);
          r = r\<lparr>fr_ID := i, fr_Score := round64 (fr_Score r + round64 (1 / round64 (of_int (wrap64 (k + n)))))\<rparr>
      in if keywordList then r\<lparr>fr_KeywordRank := Some n\<rparr> else r\<lparr>fr_SemanticRank := Some n\<rparr>)"

lemma add_candidate_map_of:
  "map_of (add_candidate round64 k kw c results) =
     (map_of results)(rid_ID c \<mapsto> with_rank round64 k kw (rid_ID c) (rid_Rank c) (map_of results (rid_ID c)))"
  by (auto simp: add_candidate_def with_rank_def Let_def update_conv')

lemma add_candidate_distinct: "distinct (map fst results) \<Longrightarrow> distinct (map fst (add_candidate round64 k kw c results))"
  by (simp add: add_candidate_def Let_def distinct_update)

lemma add_ranking_Inr:
  "add_ranking round64 k kw seen cs results = Inr r \<longleftrightarrow>
     (\<forall>c\<in>set cs. trim_space (rid_ID c) \<noteq> [] \<and> 1 \<le> rid_Rank c) \<and> distinct (map rid_ID cs) \<and> rid_ID ` set cs \<inter> set seen = {}
     \<and> r = fold (add_candidate round64 k kw) cs results"
  by (induction cs arbitrary: seen results) (auto simp: not_less)

lemma find_none: "i \<notin> rid_ID ` set cs \<Longrightarrow> find (\<lambda>c. rid_ID c = i) cs = None"
  by (induction cs) auto

lemma fold_add_map_of:
  "distinct (map rid_ID cs) \<Longrightarrow> map_of (fold (add_candidate round64 k kw) cs results) i =
     (case rank_in cs i of None \<Rightarrow> map_of results i | Some n \<Rightarrow> Some (with_rank round64 k kw i n (map_of results i)))"
proof (induction cs arbitrary: results)
  case (Cons c cs)
  then show ?case by (auto simp: rank_in_def add_candidate_map_of find_none split: option.split)
qed (simp add: rank_in_def)

lemma fold_add_distinct: "distinct (map fst results) \<Longrightarrow> distinct (map fst (fold (add_candidate round64 k kw) cs results))"
  by (induction cs arbitrary: results) (simp_all add: add_candidate_distinct)

definition fused_ids :: "ranked_id list \<Rightarrow> ranked_id list \<Rightarrow> string set" where
  "fused_ids keyword semantic = rid_ID ` (set keyword \<union> set semantic)"

lemma rank_in_None: "rank_in xs i = None \<longleftrightarrow> i \<notin> rid_ID ` set xs"
  by (induction xs) (auto simp: rank_in_def)

lemma fuse_table:
  assumes "distinct (map rid_ID keyword)" "distinct (map rid_ID semantic)"
  shows "map_of (fold (add_candidate round64 k False) semantic (fold (add_candidate round64 k True) keyword [])) i =
    (if i \<in> fused_ids keyword semantic then Some (fused_entry round64 keyword semantic k i) else None)"
  using rank_in_None [of keyword i] rank_in_None [of semantic i]
  by (cases "rank_in keyword i"; cases "rank_in semantic i")
    (auto simp: fold_add_map_of [OF assms(1)] fold_add_map_of [OF assms(2)] with_rank_def empty_result_def fused_entry_def share_def
      fused_ids_def image_Un Let_def)

definition fused_key :: "fused_rank \<Rightarrow> rat \<times> int \<times> string" where
  "fused_key r = (- fr_Score r, bestRank r, fr_ID r)"

lemma fused_less_key: "fused_less a b \<longleftrightarrow> fused_key a < fused_key b"
  by (auto simp: fused_less_def fused_key_def)

lemma fused_key_inj: "inj_on fused_key ((\<lambda>i. fused_entry round64 keyword semantic k i) ` S)"
  by (auto simp: inj_on_def fused_key_def fused_entry_def)

text \<open>The reference: one entry per identifier, in the order of the keys.\<close>

definition fused_reference :: "(rat \<Rightarrow> rat) \<Rightarrow> ranked_id list \<Rightarrow> ranked_id list \<Rightarrow> int \<Rightarrow> fused_rank list" where
  "fused_reference round64 keyword semantic k =
     sort_key fused_key (map (fused_entry round64 keyword semantic k) (remdups (map rid_ID (keyword @ semantic))))"

lemma Fuse_Inr:
  assumes "slice_sort slice" and "\<And>r. mset (iteration r) = mset r"
  shows "Fuse slice iteration round64 keyword semantic k = Inr fused \<longleftrightarrow>
    1 \<le> k \<and> k \<le> 1000 \<and> ranking_ok keyword \<and> ranking_ok semantic \<and> fused = fused_reference round64 keyword semantic k"
proof -
  let ?table = "fold (add_candidate round64 k False) semantic (fold (add_candidate round64 k True) keyword [])"
  let ?ids = "remdups (map rid_ID (keyword @ semantic))" and ?entry = "fused_entry round64 keyword semantic k"
  have table: "slice fused_less (map snd (iteration ?table)) = fused_reference round64 keyword semantic k"
    if d: "distinct (map rid_ID keyword)" "distinct (map rid_ID semantic)"
  proof -
    have d_table: "distinct (map fst ?table)" by (simp add: fold_add_distinct)
    moreover have "map_of ?table = map_of (map (\<lambda>i. (i, ?entry i)) ?ids)"
      by (rule ext) (auto simp: fuse_table [OF d] map_of_map_restrict restrict_map_def fused_ids_def image_Un)
    ultimately have "set ?table = set (map (\<lambda>i. (i, ?entry i)) ?ids)"
      by (intro map_of_inject_set [THEN iffD1]) (auto simp: comp_def)
    then have "mset ?table = mset (map (\<lambda>i. (i, ?entry i)) ?ids)"
      using d_table by (subst set_eq_iff_mset_eq_distinct [symmetric]) (simp_all add: distinct_map inj_on_def)
    then have "mset (map snd (iteration ?table)) = mset (map snd (map (\<lambda>i. (i, ?entry i)) ?ids))"
      using assms(2) by (metis mset_map)
    then have perm: "mset (map snd (iteration ?table)) = mset (map ?entry ?ids)" by (simp add: comp_def)
    show ?thesis
      unfolding fused_reference_def
      by (rule slice_sort.sorted_unique [OF assms(1) _ _ perm]) (auto simp: fused_less_key intro: inj_on_subset [OF fused_key_inj])
  qed
  show ?thesis
    unfolding Fuse_def ranking_ok_def using table
    by (auto simp: go_result add_ranking_Inr not_less)
qed

text \<open>
  C15. Fusion is deterministic and equals its reference. For every order in which the result map is
  iterated and every sort that keeps its contract, the two rankings are accepted exactly when the constant is in
  range and each ranking has non-blank distinct identifiers with positive ranks, and the result has one entry for each
  identifier of either ranking, made from its two ranks alone, sorted by score, best rank and identifier.
\<close>

theorem Fuse_reference:
  assumes "slice_sort slice" and "\<And>r. mset (iteration r) = mset r"
  shows "(Fuse slice iteration round64 keyword semantic k = Inr fused \<longleftrightarrow>
      1 \<le> k \<and> k \<le> 1000 \<and> ranking_ok keyword \<and> ranking_ok semantic \<and> fused = fused_reference round64 keyword semantic k)
    \<and> set (fused_reference round64 keyword semantic k) = fused_entry round64 keyword semantic k ` fused_ids keyword semantic
    \<and> distinct (map fr_ID (fused_reference round64 keyword semantic k))"
proof -
  let ?ids = "remdups (map rid_ID (keyword @ semantic))" and ?entry = "fused_entry round64 keyword semantic k"
  have "mset (map fr_ID (fused_reference round64 keyword semantic k)) = mset (map fr_ID (map ?entry ?ids))"
    by (simp add: fused_reference_def multiset.map_comp)
  also have "map fr_ID (map ?entry ?ids) = ?ids" by (simp add: comp_def fused_entry_def)
  finally have "distinct (map fr_ID (fused_reference round64 keyword semantic k))"
    by (metis distinct_remdups mset_eq_imp_distinct_iff)
  then show ?thesis using Fuse_Inr [OF assms] by (auto simp: fused_reference_def fused_ids_def image_Un)
qed

section \<open>Better ranks, better score\<close>

definition rank_le :: "int option \<Rightarrow> int option \<Rightarrow> bool" where
  "rank_le a b \<longleftrightarrow> (case (a, b) of (_, None) \<Rightarrow> True | (None, Some _) \<Rightarrow> False | (Some x, Some y) \<Rightarrow> x \<le> y)"

definition small_ranks :: "ranked_id list \<Rightarrow> bool" where
  "small_ranks xs \<longleftrightarrow> (\<forall>c\<in>set xs. rid_Rank c < 2 ^ 62)"

lemma rank_in_range: "ranking_ok xs \<Longrightarrow> small_ranks xs \<Longrightarrow> rank_in xs i = Some n \<Longrightarrow> 1 \<le> n \<and> n < 2 ^ 62"
  by (auto simp: rank_in_def ranking_ok_def small_ranks_def find_Some_iff)

text \<open>A rounding to nearest keeps the order and represents the small integers exactly.\<close>

definition rounding :: "(rat \<Rightarrow> rat) \<Rightarrow> bool" where
  "rounding round64 \<longleftrightarrow> (\<forall>x y. x \<le> y \<longrightarrow> round64 x \<le> round64 y) \<and> round64 0 = 0 \<and> round64 1 = 1"

lemma share_mono:
  assumes "rounding round64" "1 \<le> k" "k \<le> 1000" "rank_le a b" "\<And>n. a = Some n \<Longrightarrow> 1 \<le> n \<and> n < 2 ^ 62"
    "\<And>n. b = Some n \<Longrightarrow> 1 \<le> n \<and> n < 2 ^ 62" "x \<le> y" "0 \<le> x" "round64 x = x"
  shows "share round64 k b x \<le> share round64 k a y"
proof -
  note mono = assms(1) [unfolded rounding_def, THEN conjunct1, rule_format]
  have zero: "round64 0 = 0" and one: "round64 1 = 1" using assms(1) by (auto simp: rounding_def)
  have pos: "1 \<le> round64 (of_int (wrap64 (k + n)))" and wrap: "wrap64 (k + n) = k + n" if "1 \<le> n" "n < 2 ^ 62" for n
  proof -
    show wrap: "wrap64 (k + n) = k + n" using that assms(2,3) by (intro wrap64_id) (simp add: int64_range_def)
    have "(1 :: rat) \<le> of_int (k + n)" using that assms(2) by simp
    then show "1 \<le> round64 (of_int (wrap64 (k + n)))" using mono [of 1 "of_int (k + n)"] one wrap by simp
  qed
  have grow: "x \<le> round64 (y + round64 (1 / round64 (of_int (wrap64 (k + n)))))" if "1 \<le> n" "n < 2 ^ 62" for n
  proof -
    have "0 \<le> round64 (1 / round64 (of_int (wrap64 (k + n))))"
      using mono [of 0 "1 / round64 (of_int (wrap64 (k + n)))"] zero pos [OF that] by simp
    then have "round64 x \<le> round64 (y + round64 (1 / round64 (of_int (wrap64 (k + n)))))" using assms(7) by (intro mono) simp
    then show ?thesis using assms(9) by simp
  qed
  show ?thesis
  proof (cases b)
    case None
    then show ?thesis using assms(5,7) grow by (cases a) (auto simp: share_def)
  next
    case (Some m)
    then obtain n where n: "a = Some n" "n \<le> m" using assms(4) by (cases a) (auto simp: rank_le_def)
    have r: "1 \<le> n" "n < 2 ^ 62" "1 \<le> m" "m < 2 ^ 62" using assms(5,6) n(1) Some by auto
    have "round64 (of_int (wrap64 (k + n))) \<le> round64 (of_int (wrap64 (k + m)))"
      using n(2) wrap r by (intro mono) simp
    then have "1 / round64 (of_int (wrap64 (k + m))) \<le> 1 / round64 (of_int (wrap64 (k + n)))"
      using pos [OF r(1,2)] by (intro divide_left_mono) auto
    then show ?thesis using n(1) Some assms(7) by (auto simp: share_def intro!: mono add_mono)
  qed
qed

text \<open>
  Better ranks never lose: when one identifier is ranked at least as well as another in both
  rankings (a missing rank is the worst), its fused score is at least as high, for every monotone
  rounding, and the result is sorted by falling score.
\<close>

lemma Fuse_monotone:
  assumes "slice_sort slice" and "\<And>r. mset (iteration r) = mset r" and "rounding round64" and "\<And>x. round64 (round64 x) = round64 x"
    and "Fuse slice iteration round64 keyword semantic k = Inr fused" and "small_ranks keyword" and "small_ranks semantic"
  shows "sorted_wrt (\<lambda>a b. fr_Score b \<le> fr_Score a) fused
    \<and> (\<forall>a\<in>set fused. \<forall>b\<in>set fused. rank_le (fr_KeywordRank a) (fr_KeywordRank b) \<and> rank_le (fr_SemanticRank a) (fr_SemanticRank b)
          \<longrightarrow> fr_Score b \<le> fr_Score a)"
proof -
  have k: "1 \<le> k" "k \<le> 1000" and ok: "ranking_ok keyword" "ranking_ok semantic" and fused: "fused = fused_reference round64 keyword semantic k"
    using Fuse_Inr [OF assms(1,2)] assms(5) by auto
  have "sorted_wrt (\<lambda>a b. fused_key a \<le> fused_key b) fused"
    unfolding fused fused_reference_def by (metis sorted_map sorted_sort_key)
  then have sorted: "sorted_wrt (\<lambda>a b. fr_Score b \<le> fr_Score a) fused"
    by (rule sorted_wrt_mono_rel [rotated]) (auto simp: fused_key_def)
  have zero: "round64 0 = 0" and mono: "\<And>x y. x \<le> y \<Longrightarrow> round64 x \<le> round64 y" using assms(3) by (auto simp: rounding_def)
  have score: "fr_Score (fused_entry round64 keyword semantic k j) \<le> fr_Score (fused_entry round64 keyword semantic k i)"
    if "rank_le (rank_in keyword i) (rank_in keyword j)" "rank_le (rank_in semantic i) (rank_in semantic j)" for i j
  proof -
    note range = rank_in_range [OF ok(1) assms(6)] rank_in_range [OF ok(2) assms(7)]
    let ?s = "\<lambda>i. share round64 k (rank_in keyword i) 0"
    have first: "?s j \<le> ?s i" using range that(1) zero by (intro share_mono [OF assms(3) k]) auto
    have "share round64 k None 0 \<le> ?s j" using range zero by (intro share_mono [OF assms(3) k]) (auto simp: rank_le_def split: option.split)
    then have "0 \<le> ?s j" by (simp add: share_def)
    moreover have "round64 (?s j) = ?s j" using zero assms(4) by (cases "rank_in keyword j") (auto simp: share_def)
    ultimately show ?thesis
      unfolding fused_entry_def using range that(2) first by (auto intro!: share_mono [OF assms(3) k])
  qed
  have "set fused = fused_entry round64 keyword semantic k ` fused_ids keyword semantic"
    by (auto simp: fused fused_reference_def fused_ids_def image_Un)
  then show ?thesis using sorted score by (auto simp: fused_entry_def)
qed

section \<open>A concrete fusion\<close>

definition sample_keyword :: "ranked_id list" where
  "sample_keyword = [\<lparr>rid_ID = ''a'', rid_Rank = 1\<rparr>, \<lparr>rid_ID = ''b'', rid_Rank = 2\<rparr>]"

definition sample_semantic :: "ranked_id list" where
  "sample_semantic = [\<lparr>rid_ID = ''a'', rid_Rank = 2\<rparr>, \<lparr>rid_ID = ''c'', rid_Rank = 1\<rparr>]"

abbreviation sample_fusion :: "string + fused_rank list" where
  "sample_fusion \<equiv> Fuse insertionSort rev (\<lambda>q. q) sample_keyword sample_semantic 60"

lemma sample_fusion_Inr: "\<exists>fused. sample_fusion = Inr fused \<and> map fr_ID fused = [''a'', ''c'', ''b'']"
proof -
  have "\<not> isl sample_fusion" "map fr_ID (projr sample_fusion) = [''a'', ''c'', ''b'']" by code_simp+
  then show ?thesis by (cases sample_fusion) auto
qed

theorem Fuse_reference_witness:
  "sample_fusion = Inr (fused_reference (\<lambda>q. q) sample_keyword sample_semantic 60)"
  using sample_fusion_Inr Fuse_reference [OF insertion.slice_sort_axioms, of rev "\<lambda>q. q" sample_keyword sample_semantic 60] by auto

lemma Fuse_monotone_witness:
  "\<exists>fused. sample_fusion = Inr fused \<and> sorted_wrt (\<lambda>a b. fr_Score b \<le> fr_Score a) fused"
proof -
  obtain fused where f: "sample_fusion = Inr fused" using sample_fusion_Inr by blast
  have "small_ranks sample_keyword" "small_ranks sample_semantic"
    by (simp_all add: small_ranks_def sample_keyword_def sample_semantic_def)
  with Fuse_monotone [OF insertion.slice_sort_axioms _ _ _ f] f show ?thesis by (auto simp: rounding_def)
qed

end
