(* ===== verification/Fetch_Limiter.thy ===== *)
theory Fetch_Limiter
  imports Go_Time "HOL-Library.Multiset"
begin

text \<open>
  The concurrency limiter of the fetcher (\<open>src/internal/fetcher/limiter.go\<close>). A semaphore channel is the number of
  its slots in use; the token bucket of a host is a record. Every call of \<open>Acquire\<close> and of the
  release function it returns is in one of six phases, and any number of calls run at once: a step of the
  system is one channel operation, one pass of the waiting loop or one cancellation of some call, so
  an execution is an interleaving of the calls. The rounding of \<open>float64\<close> is an argument.
\<close>

section \<open>The token bucket\<close>

record host_limit =
  hl_semaphore :: nat
  hl_capacity :: rat
  hl_tokens :: rat
  hl_updatedAt :: time

definition refill :: "(rat \<Rightarrow> rat) \<Rightarrow> duration \<Rightarrow> time \<Rightarrow> host_limit \<Rightarrow> host_limit" where
  "refill round64 minimumGap now limit =
     (let elapsed = time_sub now (hl_updatedAt limit) in
      if elapsed > 0
      then let tokens = round64 (hl_tokens limit + round64 (round64 (of_int elapsed) / round64 (of_int minimumGap))) in
        limit\<lparr>hl_tokens := (if tokens > hl_capacity limit then hl_capacity limit else tokens), hl_updatedAt := now\<rparr>
      else limit)"

text \<open>One pass of the loop in \<open>wait\<close>: whether a token was taken.\<close>

definition wait_pass :: "(rat \<Rightarrow> rat) \<Rightarrow> duration \<Rightarrow> time \<Rightarrow> host_limit \<Rightarrow> bool \<times> host_limit" where
  "wait_pass round64 minimumGap now limit =
     (let limit = refill round64 minimumGap now limit in
      if hl_tokens limit \<ge> 1 then (True, limit\<lparr>hl_tokens := round64 (hl_tokens limit - 1)\<rparr>) else (False, limit))"

section \<open>The limiter and its calls\<close>

record limiter =
  lim_global :: nat
  lim_globalCapacity :: nat
  lim_perHost :: nat
  lim_minimumGap :: duration
  lim_hosts :: "string \<Rightarrow> host_limit option"

definition NewHostLimiter :: "int \<Rightarrow> int \<Rightarrow> duration \<Rightarrow> string + limiter" where
  "NewHostLimiter global perHost minimumGap =
     (if global < 1 \<or> perHost < 1 \<or> perHost > global then Inl ''fetch concurrency must satisfy 1 <= per-host <= global''
      else if minimumGap < 0 then Inl ''minimum host request gap cannot be negative''
      else Inr \<lparr>lim_global = 0, lim_globalCapacity = nat global, lim_perHost = nat perHost, lim_minimumGap = minimumGap,
                lim_hosts = (\<lambda>h. None)\<rparr>)"

definition forHost :: "string \<Rightarrow> time \<Rightarrow> limiter \<Rightarrow> limiter" where
  "forHost host now L =
     (case lim_hosts L host of
        Some _ \<Rightarrow> L
      | None \<Rightarrow> L\<lparr>lim_hosts := (lim_hosts L)(host \<mapsto>
          \<lparr>hl_semaphore = 0, hl_capacity = of_nat (lim_perHost L), hl_tokens = of_nat (lim_perHost L), hl_updatedAt = now\<rparr>)\<rparr>)"

definition set_host :: "string \<Rightarrow> host_limit \<Rightarrow> limiter \<Rightarrow> limiter" where
  "set_host host hl L = L\<lparr>lim_hosts := (lim_hosts L)(host \<mapsto> hl)\<rparr>"

text \<open>
  Where a call is: in \<open>wait\<close>, before the send to the global channel, before the send to the
  host's channel, between \<open>Acquire\<close> and release, between the two receives of the release, done.
\<close>

datatype phase =
    Waiting string | WantGlobal string | WantHost string | Holding string | Releasing string | Finished

record system =
  sys_limiter :: limiter
  sys_calls :: "phase multiset"

definition move :: "phase \<Rightarrow> phase \<Rightarrow> limiter \<Rightarrow> system \<Rightarrow> system" where
  "move old new L s = \<lparr>sys_limiter = L, sys_calls = add_mset new (sys_calls s - {#old#})\<rparr>"

inductive lim_step :: "(rat \<Rightarrow> rat) \<Rightarrow> system \<Rightarrow> system \<Rightarrow> bool" for round64 where
  begin_call: "lim_step round64 s \<lparr>sys_limiter = forHost h now (sys_limiter s), sys_calls = add_mset (Waiting h) (sys_calls s)\<rparr>"
| no_gap: "Waiting h \<in># sys_calls s \<Longrightarrow> lim_minimumGap (sys_limiter s) = 0 \<Longrightarrow>
    lim_step round64 s (move (Waiting h) (WantGlobal h) (sys_limiter s) s)"
| token: "Waiting h \<in># sys_calls s \<Longrightarrow> lim_minimumGap (sys_limiter s) \<noteq> 0 \<Longrightarrow> lim_hosts (sys_limiter s) h = Some hl \<Longrightarrow>
    wait_pass round64 (lim_minimumGap (sys_limiter s)) now hl = (True, hl') \<Longrightarrow>
    lim_step round64 s (move (Waiting h) (WantGlobal h) (set_host h hl' (sys_limiter s)) s)"
| sleep: "Waiting h \<in># sys_calls s \<Longrightarrow> lim_minimumGap (sys_limiter s) \<noteq> 0 \<Longrightarrow> lim_hosts (sys_limiter s) h = Some hl \<Longrightarrow>
    wait_pass round64 (lim_minimumGap (sys_limiter s)) now hl = (False, hl') \<Longrightarrow>
    lim_step round64 s (move (Waiting h) (Waiting h) (set_host h hl' (sys_limiter s)) s)"
| cancel_wait: "Waiting h \<in># sys_calls s \<Longrightarrow> lim_step round64 s (move (Waiting h) Finished (sys_limiter s) s)"
| get_global: "WantGlobal h \<in># sys_calls s \<Longrightarrow> lim_global (sys_limiter s) < lim_globalCapacity (sys_limiter s) \<Longrightarrow>
    lim_step round64 s (move (WantGlobal h) (WantHost h) ((sys_limiter s)\<lparr>lim_global := lim_global (sys_limiter s) + 1\<rparr>) s)"
| cancel_global: "WantGlobal h \<in># sys_calls s \<Longrightarrow> lim_step round64 s (move (WantGlobal h) Finished (sys_limiter s) s)"
| get_host: "WantHost h \<in># sys_calls s \<Longrightarrow> lim_hosts (sys_limiter s) h = Some hl \<Longrightarrow> hl_semaphore hl < lim_perHost (sys_limiter s) \<Longrightarrow>
    lim_step round64 s (move (WantHost h) (Holding h) (set_host h (hl\<lparr>hl_semaphore := hl_semaphore hl + 1\<rparr>) (sys_limiter s)) s)"
| cancel_host: "WantHost h \<in># sys_calls s \<Longrightarrow>
    lim_step round64 s (move (WantHost h) Finished ((sys_limiter s)\<lparr>lim_global := lim_global (sys_limiter s) - 1\<rparr>) s)"
| release_host: "Holding h \<in># sys_calls s \<Longrightarrow> lim_hosts (sys_limiter s) h = Some hl \<Longrightarrow> 0 < hl_semaphore hl \<Longrightarrow>
    lim_step round64 s (move (Holding h) (Releasing h) (set_host h (hl\<lparr>hl_semaphore := hl_semaphore hl - 1\<rparr>) (sys_limiter s)) s)"
| release_global: "Releasing h \<in># sys_calls s \<Longrightarrow> 0 < lim_global (sys_limiter s) \<Longrightarrow>
    lim_step round64 s (move (Releasing h) Finished ((sys_limiter s)\<lparr>lim_global := lim_global (sys_limiter s) - 1\<rparr>) s)"

inductive reachable :: "(rat \<Rightarrow> rat) \<Rightarrow> limiter \<Rightarrow> system \<Rightarrow> bool" for round64 L where
  initial: "reachable round64 L \<lparr>sys_limiter = L, sys_calls = {#}\<rparr>"
| step: "reachable round64 L s \<Longrightarrow> lim_step round64 s s' \<Longrightarrow> reachable round64 L s'"

section \<open>Slots\<close>

definition uses_global :: "phase \<Rightarrow> bool" where
  "uses_global p = (case p of WantHost _ \<Rightarrow> True | Holding _ \<Rightarrow> True | Releasing _ \<Rightarrow> True | _ \<Rightarrow> False)"

fun phase_host :: "phase \<Rightarrow> string option" where
  "phase_host (Waiting h) = Some h"
| "phase_host (WantGlobal h) = Some h"
| "phase_host (WantHost h) = Some h"
| "phase_host (Holding h) = Some h"
| "phase_host (Releasing h) = Some h"
| "phase_host Finished = None"

definition lim_inv :: "nat \<Rightarrow> nat \<Rightarrow> system \<Rightarrow> bool" where
  "lim_inv cap per s \<longleftrightarrow>
     (let L = sys_limiter s; C = sys_calls s in
      lim_globalCapacity L = cap \<and> lim_perHost L = per
      \<and> lim_global L = size (filter_mset uses_global C) \<and> lim_global L \<le> cap
      \<and> (\<forall>h hl. lim_hosts L h = Some hl \<longrightarrow> hl_semaphore hl = count C (Holding h) \<and> hl_semaphore hl \<le> per)
      \<and> (\<forall>p\<in>#C. \<forall>h. phase_host p = Some h \<longrightarrow> lim_hosts L h \<noteq> None))"

lemma wait_pass_semaphore: "wait_pass round64 gap now hl = (b, hl') \<Longrightarrow> hl_semaphore hl' = hl_semaphore hl"
  by (auto simp: wait_pass_def refill_def Let_def split: if_splits)

lemma uses_simps [simp]:
  "\<not> uses_global (Waiting h)" "\<not> uses_global (WantGlobal h)" "uses_global (WantHost h)" "uses_global (Holding h)"
  "uses_global (Releasing h)" "\<not> uses_global Finished"
  by (simp_all add: uses_global_def)

text \<open>A call that moves from one phase to another: what becomes of the counts.\<close>

lemma moved_counts:
  assumes "p \<in># C"
  shows "size (filter_mset P (add_mset q (C - {#p#}))) + (if P p then 1 else 0) = size (filter_mset P C) + (if P q then 1 else 0)"
    "count (add_mset q (C - {#p#})) r + (if r = p then 1 else 0) = count C r + (if r = q then 1 else 0)"
proof -
  obtain D where D: "C = add_mset p D" using assms by (meson multi_member_split)
  show "size (filter_mset P (add_mset q (C - {#p#}))) + (if P p then 1 else 0) = size (filter_mset P C) + (if P q then 1 else 0)"
    "count (add_mset q (C - {#p#})) r + (if r = p then 1 else 0) = count C r + (if r = q then 1 else 0)"
    by (auto simp: D)
qed

lemma moved_hosts:
  assumes "\<forall>p\<in>#C. \<forall>h. phase_host p = Some h \<longrightarrow> H h \<noteq> None" "p \<in># C" "phase_host q = None \<or> phase_host q = phase_host p"
  shows "\<forall>x\<in>#add_mset q (C - {#p#}). \<forall>h. phase_host x = Some h \<longrightarrow> H h \<noteq> None"
  using assms by (auto dest: in_diffD)

text \<open>One call moves and the slots change with it.\<close>

lemma move_inv:
  assumes inv: "lim_inv cap per s" and p: "p \<in># sys_calls s" and q: "phase_host q = None \<or> phase_host q = phase_host p"
    and L': "lim_globalCapacity L' = cap" "lim_perHost L' = per"
    and glob: "lim_global L' + (if uses_global p then 1 else 0) = lim_global (sys_limiter s) + (if uses_global q then 1 else 0)" "lim_global L' \<le> cap"
    and hosts: "\<And>h hl'. lim_hosts L' h = Some hl' \<Longrightarrow> \<exists>hl. lim_hosts (sys_limiter s) h = Some hl
        \<and> hl_semaphore hl' + (if Holding h = p then 1 else 0) = hl_semaphore hl + (if Holding h = q then 1 else 0) \<and> hl_semaphore hl' \<le> per"
      "\<And>h. lim_hosts (sys_limiter s) h \<noteq> None \<Longrightarrow> lim_hosts L' h \<noteq> None"
  shows "lim_inv cap per (move p q L' s)"
proof -
  let ?C = "sys_calls s" and ?L = "sys_limiter s"
  have I: "lim_global ?L = size (filter_mset uses_global ?C)"
    "\<And>h hl. lim_hosts ?L h = Some hl \<Longrightarrow> hl_semaphore hl = count ?C (Holding h)"
    "\<forall>p\<in>#?C. \<forall>h. phase_host p = Some h \<longrightarrow> lim_hosts ?L h \<noteq> None"
    using inv by (auto simp: lim_inv_def Let_def)
  have "lim_global L' = size (filter_mset uses_global (add_mset q (?C - {#p#})))"
    using glob(1) I(1) moved_counts(1) [OF p, of uses_global q] by linarith
  moreover have "hl_semaphore hl' = count (add_mset q (?C - {#p#})) (Holding h) \<and> hl_semaphore hl' \<le> per" if "lim_hosts L' h = Some hl'" for h hl'
    using hosts(1) [OF that] I(2) moved_counts(2) [OF p, of q "Holding h"] by fastforce
  moreover have "\<forall>x\<in>#add_mset q (?C - {#p#}). \<forall>h. phase_host x = Some h \<longrightarrow> lim_hosts L' h \<noteq> None"
    using moved_hosts [OF I(3) p q] hosts(2) by blast
  ultimately show ?thesis using L' glob(2) unfolding lim_inv_def move_def Let_def system.select_convs by blast
qed

lemma lim_invD:
  assumes "lim_inv cap per s"
  shows "lim_globalCapacity (sys_limiter s) = cap" "lim_perHost (sys_limiter s) = per"
    "lim_global (sys_limiter s) = size (filter_mset uses_global (sys_calls s))" "lim_global (sys_limiter s) \<le> cap"
    "lim_hosts (sys_limiter s) h = Some hl \<Longrightarrow> hl_semaphore hl = count (sys_calls s) (Holding h)"
    "lim_hosts (sys_limiter s) h = Some hl \<Longrightarrow> hl_semaphore hl \<le> per"
    "p \<in># sys_calls s \<Longrightarrow> phase_host p = Some h \<Longrightarrow> \<exists>hl. lim_hosts (sys_limiter s) h = Some hl"
  using assms unfolding lim_inv_def Let_def by (metis not_None_eq)+

lemma uses_global_pos: "p \<in># C \<Longrightarrow> uses_global p \<Longrightarrow> 0 < size (filter_mset uses_global C)"
  by (auto dest: multi_member_split)

lemma lim_step_inv:
  assumes "lim_step round64 s s'" "lim_inv cap per s"
  shows "lim_inv cap per s'"
  using assms
proof (induction rule: lim_step.induct)
  case (begin_call s h now)
  then show ?case
    by (auto simp: lim_inv_def Let_def forHost_def count_eq_zero_iff split: option.splits)
       (metis option.distinct(1) phase_host.simps(4))+
next
  case (no_gap h s)
  note D = lim_invD [OF no_gap.prems]
  show ?case
    using no_gap.hyps D(1-4) by (intro move_inv [OF no_gap.prems]) (auto simp: set_host_def dest: D(6) split: if_splits)
next
  case (token h s hl now hl')
  note D = lim_invD [OF token.prems]
  show ?case
    using token.hyps D(1-4) D(6) [OF token.hyps(3)] wait_pass_semaphore [OF token.hyps(4)] by (intro move_inv [OF token.prems]) (auto simp: set_host_def dest: D(6) split: if_splits)
next
  case (sleep h s hl now hl')
  note D = lim_invD [OF sleep.prems]
  show ?case
    using sleep.hyps D(1-4) D(6) [OF sleep.hyps(3)] wait_pass_semaphore [OF sleep.hyps(4)] by (intro move_inv [OF sleep.prems]) (auto simp: set_host_def dest: D(6) split: if_splits)
next
  case (cancel_wait h s)
  note D = lim_invD [OF cancel_wait.prems]
  show ?case
    using cancel_wait.hyps D(1-4) by (intro move_inv [OF cancel_wait.prems]) (auto simp: set_host_def dest: D(6) split: if_splits)
next
  case (get_global h s)
  note D = lim_invD [OF get_global.prems]
  show ?case
    using get_global.hyps D(1-4) by (intro move_inv [OF get_global.prems]) (auto simp: set_host_def dest: D(6) split: if_splits)
next
  case (cancel_global h s)
  note D = lim_invD [OF cancel_global.prems]
  show ?case
    using cancel_global.hyps D(1-4) by (intro move_inv [OF cancel_global.prems]) (auto simp: set_host_def dest: D(6) split: if_splits)
next
  case (get_host h s hl)
  note D = lim_invD [OF get_host.prems]
  show ?case
    using get_host.hyps D(1-4) by (intro move_inv [OF get_host.prems]) (auto simp: set_host_def dest: D(6) split: if_splits)
next
  case (cancel_host h s)
  note D = lim_invD [OF cancel_host.prems]
  show ?case
    using cancel_host.hyps D(1-4) uses_global_pos [OF cancel_host.hyps] by (intro move_inv [OF cancel_host.prems]) (auto simp: set_host_def dest: D(6) split: if_splits)
next
  case (release_host h s hl)
  note D = lim_invD [OF release_host.prems]
  show ?case
    using release_host.hyps D(1-4) D(6) [OF release_host.hyps(2)] by (intro move_inv [OF release_host.prems]) (auto simp: set_host_def dest: D(6) split: if_splits)
next
  case (release_global h s)
  note D = lim_invD [OF release_global.prems]
  show ?case
    using release_global.hyps D(1-4) by (intro move_inv [OF release_global.prems]) (auto simp: set_host_def dest: D(6) split: if_splits)
qed

lemma reachable_inv:
  assumes "reachable round64 L s" "NewHostLimiter global perHost gap = Inr L"
  shows "lim_inv (nat global) (nat perHost) s"
  using assms
proof (induction rule: reachable.induct)
  case initial
  then show ?case by (auto simp: lim_inv_def NewHostLimiter_def Let_def split: if_splits)
next
  case (step s s')
  then show ?case using lim_step_inv by blast
qed

text \<open>
  C17. The concurrency limits hold in every interleaving: whatever calls run, are cancelled or released at once, the
  requests between \<open>Acquire\<close> and release are never more than the global limit, nor more than the limit
  of a host, and the slots in use are exactly those of calls in flight, so none is leaked: when no call
  is past its first send, both semaphores are empty.
\<close>

theorem limiter_bounds:
  assumes "NewHostLimiter global perHost gap = Inr L" and "reachable round64 L s"
  shows "int (size (filter_mset (\<lambda>p. \<exists>h. p = Holding h) (sys_calls s))) \<le> global
    \<and> int (count (sys_calls s) (Holding h)) \<le> perHost
    \<and> lim_global (sys_limiter s) = size (filter_mset uses_global (sys_calls s))
    \<and> (\<forall>hl. lim_hosts (sys_limiter s) h = Some hl \<longrightarrow> hl_semaphore hl = count (sys_calls s) (Holding h))"
proof -
  note D = lim_invD [OF reachable_inv [OF assms(2,1)]]
  have pos: "1 \<le> global" "1 \<le> perHost" using assms(1) by (auto simp: NewHostLimiter_def split: if_splits)
  have "size (filter_mset (\<lambda>p. \<exists>h. p = Holding h) (sys_calls s)) \<le> size (filter_mset uses_global (sys_calls s))"
    by (intro size_mset_mono mset_subset_eqI) auto
  then have "int (size (filter_mset (\<lambda>p. \<exists>h. p = Holding h) (sys_calls s))) \<le> global" using D(3,4) pos by linarith
  moreover have "int (count (sys_calls s) (Holding h)) \<le> perHost"
  proof (cases "Holding h \<in># sys_calls s")
    case True
    then obtain hl where hl: "lim_hosts (sys_limiter s) h = Some hl" using D(7) [OF True] by auto
    from D(5) [OF hl] D(6) [OF hl] pos show ?thesis by linarith
  next
    case False
    then show ?thesis using pos by (simp add: not_in_iff)
  qed
  ultimately show ?thesis using D(3,5) by blast
qed

section \<open>Nobody is stuck\<close>

definition in_flight :: "phase \<Rightarrow> bool" where
  "in_flight p = (case p of Waiting _ \<Rightarrow> False | Finished \<Rightarrow> False | _ \<Rightarrow> True)"

definition next_phase :: "phase \<Rightarrow> phase" where
  "next_phase p =
     (case p of WantGlobal h \<Rightarrow> WantHost h | WantHost h \<Rightarrow> Holding h | Holding h \<Rightarrow> Releasing h | Releasing h \<Rightarrow> Finished | _ \<Rightarrow> p)"

text \<open>A forward step: a send that succeeds or a receive of a release, no cancellation and no new call.\<close>

definition forward :: "(rat \<Rightarrow> rat) \<Rightarrow> system \<Rightarrow> system \<Rightarrow> bool" where
  "forward round64 s s' \<longleftrightarrow> lim_step round64 s s'
     \<and> (\<exists>p L'. p \<in># sys_calls s \<and> in_flight p \<and> s' = move p (next_phase p) L' s)"

definition stages_left :: "phase \<Rightarrow> nat" where
  "stages_left p = (case p of WantGlobal _ \<Rightarrow> 4 | WantHost _ \<Rightarrow> 3 | Holding _ \<Rightarrow> 2 | Releasing _ \<Rightarrow> 1 | _ \<Rightarrow> 0)"

definition work_left :: "system \<Rightarrow> nat" where
  "work_left s = sum_mset (image_mset stages_left (sys_calls s))"

lemma forwardI:
  "lim_step round64 s (move p (next_phase p) L' s) \<Longrightarrow> p \<in># sys_calls s \<Longrightarrow> in_flight p \<Longrightarrow> \<exists>s'. forward round64 s s'"
  unfolding forward_def by blast

lemma forward_work: "forward round64 s s' \<Longrightarrow> work_left s' < work_left s"
proof -
  assume "forward round64 s s'"
  then obtain p L' where p: "p \<in># sys_calls s" "in_flight p" "s' = move p (next_phase p) L' s" by (auto simp: forward_def)
  obtain D where D: "sys_calls s = add_mset p D" using p(1) by (meson multi_member_split)
  have "stages_left (next_phase p) < stages_left p"
    using p(2) by (cases p) (simp_all add: in_flight_def next_phase_def stages_left_def)
  then show ?thesis by (simp add: work_left_def p(3) move_def D)
qed

lemma progress_WantHost:
  assumes "lim_inv cap per s" "1 \<le> per" "WantHost h \<in># sys_calls s"
  shows "\<exists>s'. forward round64 s s'"
proof -
  note D = lim_invD [OF assms(1)]
  obtain hl where hl: "lim_hosts (sys_limiter s) h = Some hl" using D(7) [OF assms(3)] by auto
  show ?thesis
  proof (cases "hl_semaphore hl < per")
    case True
    then show ?thesis
      using get_host [OF assms(3) hl, of round64] D(2) assms(3) by (intro forwardI [of _ _ "WantHost h"]) (auto simp: next_phase_def in_flight_def)
  next
    case False
    then have sem: "0 < hl_semaphore hl" using assms(2) by linarith
    then have "0 < count (sys_calls s) (Holding h)" using D(5) [OF hl] by linarith
    then show ?thesis
      using release_host [of h s hl round64] hl sem
      by (intro forwardI [of _ _ "Holding h"]) (auto simp: next_phase_def in_flight_def)
  qed
qed

lemma progress_in_flight:
  assumes inv: "lim_inv cap per s" and caps: "1 \<le> per" "1 \<le> cap" and p: "p \<in># sys_calls s" "in_flight p" "uses_global p"
  shows "\<exists>s'. forward round64 s s'"
proof (cases p)
  case (WantHost h)
  then show ?thesis using progress_WantHost [OF inv caps(1)] p(1) by blast
next
  case (Holding h)
  then obtain hl where hl: "lim_hosts (sys_limiter s) h = Some hl" using lim_invD(7) [OF inv p(1)] by auto
  have "0 < hl_semaphore hl" using lim_invD(5) [OF inv hl] p(1) Holding by simp
  then show ?thesis
    using release_host [of h s hl round64] hl p(1) Holding by (intro forwardI [of _ _ "Holding h"]) (auto simp: next_phase_def in_flight_def)
next
  case (Releasing h)
  have "0 < lim_global (sys_limiter s)" using lim_invD(3) [OF inv] uses_global_pos [OF p(1,3)] by simp
  then show ?thesis
    using release_global [of h s round64] p(1) Releasing by (intro forwardI [of _ _ "Releasing h"]) (auto simp: next_phase_def in_flight_def)
qed (use p in \<open>simp_all add: in_flight_def\<close>)

text \<open>
  C18. The limiter cannot deadlock: in every reachable state in which some call waits for a slot or
  holds one, some such call can go one step further without a cancellation, and every such step lowers the
  number of stages left, so that after that many steps at most every call in flight has had its slots and returned
  them, whatever the order.
\<close>

theorem limiter_progress:
  assumes "NewHostLimiter global perHost gap = Inr L" and "reachable round64 L s"
  shows "((\<exists>p\<in>#sys_calls s. in_flight p) \<longrightarrow> (\<exists>s'. forward round64 s s'))
    \<and> (\<forall>s'. forward round64 s s' \<longrightarrow> work_left s' < work_left s \<and> reachable round64 L s')"
proof (intro conjI impI allI)
  note inv = reachable_inv [OF assms(2,1)]
  have caps: "1 \<le> nat perHost" "1 \<le> nat global" using assms(1) by (auto simp: NewHostLimiter_def split: if_splits)
  assume "\<exists>p\<in>#sys_calls s. in_flight p"
  then obtain p where p: "p \<in># sys_calls s" "in_flight p" by blast
  show "\<exists>s'. forward round64 s s'"
  proof (cases "uses_global p")
    case True
    then show ?thesis using progress_in_flight [OF inv caps p] by blast
  next
    case False
    then obtain h where h: "p = WantGlobal h" using p(2) by (cases p) (auto simp: in_flight_def)
    show ?thesis
    proof (cases "lim_global (sys_limiter s) < nat global")
      case True
      then show ?thesis
        using get_global [of h s round64] lim_invD(1) [OF inv] p(1) h by (intro forwardI [of _ _ p]) (auto simp: next_phase_def in_flight_def)
    next
      case False
      then have "0 < size (filter_mset uses_global (sys_calls s))" using lim_invD(3) [OF inv] caps(2) by linarith
      then obtain q where "q \<in># filter_mset uses_global (sys_calls s)" using multiset_nonemptyE nonempty_has_size by metis
      then have "q \<in># sys_calls s" "uses_global q" by simp_all
      moreover have "in_flight q" using \<open>uses_global q\<close> by (cases q) (auto simp: in_flight_def)
      ultimately show ?thesis using progress_in_flight [OF inv caps] by blast
    qed
  qed
next
  fix s'
  assume "forward round64 s s'"
  then show "work_left s' < work_left s" "reachable round64 L s'"
    using forward_work [of round64 s s'] reachable.step [OF assms(2), of s'] by (simp_all add: forward_def)
qed

section \<open>The rate of a host\<close>

text \<open>The passes through the waiting loop of one host at the given times, and how many took a token.\<close>

fun passes :: "(rat \<Rightarrow> rat) \<Rightarrow> duration \<Rightarrow> time list \<Rightarrow> host_limit \<Rightarrow> nat \<times> host_limit" where
  "passes round64 gap [] hl = (0, hl)"
| "passes round64 gap (now # ts) hl =
     (case wait_pass round64 gap now hl of (granted, hl') \<Rightarrow>
        case passes round64 gap ts hl' of (n, hl'') \<Rightarrow> ((if granted then n + 1 else n), hl''))"

text \<open>The rounding adds at most \<open>err\<close> to a result of the two additions of a refill below the capacity and to a decrement.\<close>

definition rounding_error :: "(rat \<Rightarrow> rat) \<Rightarrow> duration \<Rightarrow> rat \<Rightarrow> rat \<Rightarrow> bool" where
  "rounding_error round64 gap cap err \<longleftrightarrow> 0 \<le> err \<and>
     (\<forall>elapsed tokens. 0 < elapsed \<and> 0 \<le> tokens \<and> tokens + of_int elapsed / of_int gap < cap
        \<longrightarrow> round64 (tokens + round64 (round64 (of_int elapsed) / round64 (of_int gap))) \<le> tokens + of_int elapsed / of_int gap + err)
     \<and> (\<forall>x. 1 \<le> x \<and> x \<le> cap \<longrightarrow> 0 \<le> round64 (x - 1) \<and> round64 (x - 1) \<le> x - 1 + err)"

lemma refill_bound:
  assumes "rounding_error round64 gap (hl_capacity hl) err" "0 < gap" "hl_updatedAt hl \<le> now" "now - hl_updatedAt hl \<le> max_int64"
    "0 \<le> hl_tokens hl" "hl_tokens hl \<le> hl_capacity hl" "\<And>x. 0 \<le> x \<Longrightarrow> 0 \<le> round64 x"
  defines "hl' \<equiv> refill round64 gap now hl"
  shows "hl_tokens hl' \<le> hl_tokens hl + of_int (now - hl_updatedAt hl) / of_int gap + err \<and> 0 \<le> hl_tokens hl'
    \<and> hl_tokens hl' \<le> hl_capacity hl \<and> hl_capacity hl' = hl_capacity hl \<and> hl_updatedAt hl' = now"
proof -
  let ?e = "now - hl_updatedAt hl"
  have err: "0 \<le> err" using assms(1) by (simp add: rounding_error_def)
  have sub: "time_sub now (hl_updatedAt hl) = ?e" using assms(3,4) by (intro time_sub_exact) (auto simp: int64_range_def max_int64_def)
  show ?thesis
  proof (cases "0 < ?e")
    case False
    then have "?e = 0" using assms(3) by simp
    then show ?thesis using assms(5,6) err sub by (simp add: hl'_def refill_def Let_def)
  next
    case True
    have quotient: "0 \<le> (of_int ?e :: rat) / of_int gap" using True assms(2) by simp
    let ?t = "round64 (hl_tokens hl + round64 (round64 (of_int ?e) / round64 (of_int gap)))"
    have "0 \<le> round64 (of_int ?e)" "0 \<le> round64 (of_int gap)" using True assms(2) by (auto intro!: assms(7))
    then have t0: "0 \<le> ?t" using assms(2,5) True by (intro assms(7) add_nonneg_nonneg divide_nonneg_nonneg) auto
    have "(if ?t > hl_capacity hl then hl_capacity hl else ?t) \<le> hl_tokens hl + of_int ?e / of_int gap + err"
    proof (cases "hl_tokens hl + of_int ?e / of_int gap < hl_capacity hl")
      case True
      then have "?t \<le> hl_tokens hl + of_int ?e / of_int gap + err"
        using assms(1,5) \<open>0 < ?e\<close> unfolding rounding_error_def by blast
      then show ?thesis by auto
    next
      case False
      then show ?thesis using err by auto
    qed
    then show ?thesis using True sub t0 assms(5,6) by (auto simp: hl'_def refill_def Let_def)
  qed
qed

lemma wait_pass_bound:
  assumes "rounding_error round64 gap (hl_capacity hl) err" "0 < gap" "hl_updatedAt hl \<le> now" "now - hl_updatedAt hl \<le> max_int64"
    "0 \<le> hl_tokens hl" "hl_tokens hl \<le> hl_capacity hl" "\<And>x. 0 \<le> x \<Longrightarrow> 0 \<le> round64 x" "wait_pass round64 gap now hl = (granted, hl')"
  shows "(if granted then 1 else 0) + hl_tokens hl' \<le> hl_tokens hl + of_int (now - hl_updatedAt hl) / of_int gap + 2 * err
    \<and> 0 \<le> hl_tokens hl' \<and> hl_capacity hl' = hl_capacity hl \<and> hl_updatedAt hl' = now
    \<and> (round64 (hl_tokens (refill round64 gap now hl) - 1) \<le> hl_capacity hl \<longrightarrow> hl_tokens hl' \<le> hl_capacity hl)"
proof -
  have err: "0 \<le> err" using assms(1) by (simp add: rounding_error_def)
  let ?r = "refill round64 gap now hl"
  have r: "hl_tokens ?r \<le> hl_tokens hl + of_int (now - hl_updatedAt hl) / of_int gap + err" "0 \<le> hl_tokens ?r"
    "hl_tokens ?r \<le> hl_capacity hl" "hl_capacity ?r = hl_capacity hl" "hl_updatedAt ?r = now"
    using refill_bound [OF assms(1-7)] by auto
  have "1 \<le> hl_tokens ?r \<Longrightarrow> 0 \<le> round64 (hl_tokens ?r - 1) \<and> round64 (hl_tokens ?r - 1) \<le> hl_tokens ?r - 1 + err"
    using assms(1) r(3) unfolding rounding_error_def by blast
  then show ?thesis using assms(8) r err by (auto simp: wait_pass_def Let_def split: if_splits)
qed

lemma passes_bound:
  assumes "0 < gap" "\<And>x. 0 \<le> x \<Longrightarrow> 0 \<le> round64 x" "\<And>x y. x \<le> y \<Longrightarrow> round64 x \<le> round64 y"
  shows "rounding_error round64 gap (hl_capacity hl) err \<Longrightarrow> round64 (hl_capacity hl) = hl_capacity hl \<Longrightarrow> sorted (hl_updatedAt hl # ts) \<Longrightarrow>
    last (hl_updatedAt hl # ts) - hl_updatedAt hl \<le> max_int64 \<Longrightarrow> 0 \<le> hl_tokens hl \<Longrightarrow> hl_tokens hl \<le> hl_capacity hl \<Longrightarrow>
    passes round64 gap ts hl = (n, hl') \<Longrightarrow>
    of_nat n + hl_tokens hl' \<le> hl_tokens hl + of_int (last (hl_updatedAt hl # ts) - hl_updatedAt hl) / of_int gap + 2 * err * of_nat (length ts)
    \<and> 0 \<le> hl_tokens hl'"
proof (induction ts arbitrary: hl n)
  case (Cons now ts)
  obtain granted hl1 where pass: "wait_pass round64 gap now hl = (granted, hl1)" by (cases "wait_pass round64 gap now hl")
  obtain m hl2 where rest: "passes round64 gap ts hl1 = (m, hl2)" by (cases "passes round64 gap ts hl1")
  have n: "n = (if granted then m + 1 else m)" "hl' = hl2" using Cons.prems(7) pass rest by auto
  have le: "hl_updatedAt hl \<le> now" "now \<le> last (now # ts)" using Cons.prems(3) by (auto simp: last_ConsR)
  then have gap1: "now - hl_updatedAt hl \<le> max_int64" using Cons.prems(4) by simp
  note b = wait_pass_bound [OF Cons.prems(1) assms(1) le(1) gap1 Cons.prems(5,6) assms(2) pass]
  have "hl_tokens (refill round64 gap now hl) - 1 \<le> hl_capacity hl"
    using refill_bound [OF Cons.prems(1) assms(1) le(1) gap1 Cons.prems(5,6) assms(2)] by auto
  then have "round64 (hl_tokens (refill round64 gap now hl) - 1) \<le> hl_capacity hl" using assms(3) Cons.prems(2) by metis
  then have cap1: "hl_tokens hl1 \<le> hl_capacity hl1" "hl_capacity hl1 = hl_capacity hl" "hl_updatedAt hl1 = now" "0 \<le> hl_tokens hl1" using b by auto
  have IH: "of_nat m + hl_tokens hl2 \<le> hl_tokens hl1 + of_int (last (now # ts) - now) / of_int gap + 2 * err * of_nat (length ts) \<and> 0 \<le> hl_tokens hl2"
    using Cons.IH [of hl1 m] Cons.prems(1-4) cap1 rest le n(2) by auto
  have "(of_int (last (now # ts) - now) :: rat) / of_int gap + of_int (now - hl_updatedAt hl) / of_int gap
      = of_int (last (now # ts) - hl_updatedAt hl) / of_int gap"
    by (simp add: add_divide_distrib [symmetric])
  then show ?case using IH b n by (simp add: algebra_simps split: if_splits)
qed auto

text \<open>
  The rate of a host is bounded: of any sequence of passes through the waiting loop of a fresh
  bucket, at non-decreasing times, no more take a token than the limit per host plus one for every
  minimum gap that has elapsed, up to twice the rounding error for each pass.
\<close>

lemma limiter_rate:
  assumes "0 < gap" and "\<And>x. 0 \<le> x \<Longrightarrow> 0 \<le> round64 x" and "\<And>x y. x \<le> y \<Longrightarrow> round64 x \<le> round64 y"
    and "round64 (of_nat perHost) = of_nat perHost" and "rounding_error round64 gap (of_nat perHost) err"
    and "lim_hosts L h = None" and "lim_perHost L = perHost" and "lim_hosts (forHost h start L) h = Some hl"
    and "sorted (start # ts)" and "last (start # ts) - start \<le> max_int64"
  shows "of_nat (fst (passes round64 gap ts hl))
    \<le> of_nat perHost + of_int (last (start # ts) - start) / of_int gap + 2 * err * of_nat (length ts)"
proof -
  have hl: "hl_capacity hl = of_nat perHost" "hl_tokens hl = of_nat perHost" "hl_updatedAt hl = start"
    using assms(6-8) by (auto simp: forHost_def)
  obtain n hl' where "passes round64 gap ts hl = (n, hl')" by (cases "passes round64 gap ts hl")
  then show ?thesis using passes_bound [of gap round64 hl err ts n hl', OF assms(1-3)] assms(4,5,9,10) hl by auto
qed

section \<open>A concrete limiter\<close>

definition sample_limiter :: limiter where
  "sample_limiter = \<lparr>lim_global = 0, lim_globalCapacity = 2, lim_perHost = 1, lim_minimumGap = 0, lim_hosts = (\<lambda>h. None)\<rparr>"

lemma sample_limiter_new: "NewHostLimiter 2 1 0 = Inr sample_limiter"
  by (simp add: NewHostLimiter_def sample_limiter_def)

text \<open>One call has begun and got past the waiting loop.\<close>

lemma sample_run_reachable:
  "\<exists>s. reachable (\<lambda>q. q) sample_limiter s \<and> WantGlobal ''h'' \<in># sys_calls s"
proof -
  let ?s0 = "\<lparr>sys_limiter = sample_limiter, sys_calls = {#}\<rparr>"
  let ?s1 = "\<lparr>sys_limiter = forHost ''h'' 0 (sys_limiter ?s0), sys_calls = add_mset (Waiting ''h'') (sys_calls ?s0)\<rparr>"
  have r1: "reachable (\<lambda>q. q) sample_limiter ?s1" by (rule reachable.step [OF reachable.initial begin_call])
  have "lim_step (\<lambda>q. q) ?s1 (move (Waiting ''h'') (WantGlobal ''h'') (sys_limiter ?s1) ?s1)"
    by (rule no_gap) (simp_all add: sample_limiter_def forHost_def)
  from reachable.step [OF r1 this] show ?thesis by (auto simp: move_def)
qed

theorem limiter_bounds_witness:
  "\<exists>s. reachable (\<lambda>q. q) sample_limiter s \<and> WantGlobal ''h'' \<in># sys_calls s \<and> int (count (sys_calls s) (Holding ''h'')) \<le> 1"
  using sample_run_reachable limiter_bounds [OF sample_limiter_new] by blast

theorem limiter_progress_witness:
  "\<exists>s s'. reachable (\<lambda>q. q) sample_limiter s \<and> forward (\<lambda>q. q) s s' \<and> work_left s' < work_left s"
proof -
  obtain s where s: "reachable (\<lambda>q. q) sample_limiter s" "WantGlobal ''h'' \<in># sys_calls s" using sample_run_reachable by blast
  moreover have "in_flight (WantGlobal ''h'')" by (simp add: in_flight_def)
  ultimately show ?thesis using limiter_progress [OF sample_limiter_new s(1)] by blast
qed

lemma limiter_rate_witness:
  "\<exists>hl. lim_hosts (forHost ''h'' 0 sample_limiter) ''h'' = Some hl \<and> fst (passes (\<lambda>q. q) second [0, 1, second] hl) \<le> 2"
proof -
  obtain hl where hl: "lim_hosts (forHost ''h'' 0 sample_limiter) ''h'' = Some hl" by (simp add: forHost_def sample_limiter_def)
  have "rounding_error (\<lambda>q. q) second (of_nat 1) 0" by (simp add: rounding_error_def)
  from limiter_rate [OF _ _ _ _ this _ _ hl, of "[0, 1, second]"]
  have "(of_nat (fst (passes (\<lambda>q. q) second [0, 1, second] hl)) :: rat) \<le> 2"
    by (simp add: sample_limiter_def max_int64_def)
  then show ?thesis using hl by (metis of_nat_le_iff of_nat_numeral)
qed

end
