(* ===== verification/Job_Retry.thy ===== *)
theory Job_Retry
  imports Go_Time
begin

text \<open>
  The retry policy of the job queue (\<open>src/internal/jobqueue/retry.go\<close>): exponential back-off with a ceiling, computed by
  doubling a 64-bit duration.
\<close>

record retry_policy =
  initialDelay :: duration
  maximumDelay :: duration

text \<open>Go's division of a duration by two truncates towards zero.\<close>

definition half :: "duration \<Rightarrow> duration" where
  "half d = (if d < 0 then - (- d div 2) else d div 2)"

text \<open>The loop with the number of passes left (\<open>attempt\<close> runs from 1 to below \<open>job.Attempt\<close>).\<close>

fun retry_loop :: "duration \<Rightarrow> nat \<Rightarrow> duration \<Rightarrow> duration" where
  "retry_loop maximum 0 delay = delay"
| "retry_loop maximum (Suc n) delay =
     (if \<not> delay < maximum then delay
      else if delay > half maximum then maximum
      else retry_loop maximum n (wrap64 (delay * 2)))"

definition retry_delay :: "retry_policy \<Rightarrow> int \<Rightarrow> duration" where
  "retry_delay p attempt =
     (let delay = retry_loop (maximumDelay p) (nat (attempt - 1)) (initialDelay p) in
      if delay > maximumDelay p then maximumDelay p else delay)"

definition NextRetry :: "retry_policy \<Rightarrow> time \<Rightarrow> int \<Rightarrow> time" where
  "NextRetry p now attempt = now + retry_delay p attempt"

lemma retry_loop_eq:
  assumes "0 \<le> delay" "0 \<le> maximum" "int64_range maximum"
  shows "min maximum (retry_loop maximum n delay) = min maximum (delay * 2 ^ n)"
  using assms
proof (induction n arbitrary: delay)
  case (Suc n)
  show ?case
  proof (cases "delay < maximum \<and> delay \<le> half maximum")
    case True
    then have "int64_range (delay * 2)" using Suc.prems by (auto simp: half_def int64_range_def)
    then show ?thesis using True Suc.IH [of "delay * 2"] Suc.prems by (simp add: wrap64_id mult_ac)
  next
    case False
    have pow: "(1 :: int) \<le> 2 ^ n" by simp
    show ?thesis
    proof (cases "delay < maximum")
      case True
      with False have "maximum \<le> delay * 2" using Suc.prems by (simp add: half_def)
      also have "delay * 2 \<le> delay * 2 * 2 ^ n" using Suc.prems pow by (simp add: mult_le_cancel_left1)
      finally show ?thesis using True False by (simp add: mult_ac)
    next
      case ge: False
      have "delay * 1 \<le> delay * (2 * 2 ^ n)" using Suc.prems one_le_power [of "2 :: int" "Suc n"] by (intro mult_left_mono) auto
      then show ?thesis using ge by simp
    qed
  qed
qed simp

text \<open>
  The delay before attempt n + 1 is exactly the smaller of the ceiling and the initial delay times
  2 to the n, for every non-negative policy and every attempt number: the doubling never overflows. The
  delay never falls with the attempts, never exceeds the ceiling and reaches it.
\<close>

lemma retry_delay_exact:
  assumes "0 \<le> initialDelay p" and "0 \<le> maximumDelay p" and "int64_range (maximumDelay p)"
  shows "retry_delay p (int n + 1) = min (maximumDelay p) (initialDelay p * 2 ^ n)
    \<and> (m \<le> n \<longrightarrow> retry_delay p (int m + 1) \<le> retry_delay p (int n + 1))
    \<and> (0 < initialDelay p \<longrightarrow> NextRetry p now 64 = now + maximumDelay p)"
proof -
  have exact: "retry_delay p (int k + 1) = min (maximumDelay p) (initialDelay p * 2 ^ k)" for k
    using retry_loop_eq [OF assms, of k] by (auto simp: retry_delay_def Let_def min_def split: if_splits)
  have "min (maximumDelay p) (initialDelay p * 2 ^ m) \<le> min (maximumDelay p) (initialDelay p * 2 ^ n)" if "m \<le> n"
    using that assms(1) by (intro min.mono mult_left_mono power_increasing) auto
  moreover have "NextRetry p now 64 = now + maximumDelay p" if "0 < initialDelay p"
  proof -
    have "maximumDelay p \<le> 1 * 2 ^ 63" using assms(3) by (simp add: int64_range_def)
    also have "\<dots> \<le> initialDelay p * 2 ^ 63" using that by (intro mult_right_mono) auto
    finally show ?thesis using exact [of 63] by (simp add: NextRetry_def)
  qed
  ultimately show ?thesis using exact by simp
qed

definition sample_retry :: retry_policy where
  "sample_retry = \<lparr>initialDelay = 5 * second, maximumDelay = minute\<rparr>"

lemma retry_delay_exact_witness:
  "retry_delay sample_retry 3 = 20 * second \<and> retry_delay sample_retry 5 = minute"
  using retry_delay_exact [of sample_retry 2 0 0] retry_delay_exact [of sample_retry 4 0 0]
  by (simp add: sample_retry_def int64_range_def)

end
