(* ===== verification/Retention.thy ===== *)
theory Retention
  imports Go_Time
begin

text \<open>
  Retention (\<open>src/internal/retention/retention.go\<close>): the policy with its bounds and the run that prunes expired
  objects in batches. The repository is the argument \<open>repo\<close>: each call's answer may depend on the batch.
  The calls that delete something or record the end of the run are the trace.
\<close>

section \<open>The policy\<close>

abbreviation day :: duration where "day \<equiv> 24 * hour"

definition maximumBatches :: nat where "maximumBatches = 10"

record policy =
  RawSnapshots :: duration
  NormalizedRevision :: duration
  OperationalRows :: duration
  OutboxReplay :: duration
  MutationSnapshots :: duration
  BatchSize :: int

definition DefaultPolicy :: policy where
  "DefaultPolicy = \<lparr>RawSnapshots = 180 * day, NormalizedRevision = 365 * day, OperationalRows = 90 * day, OutboxReplay = 7 * day,
     MutationSnapshots = 30 * day, BatchSize = 100\<rparr>"

definition policy_Validate :: "policy \<Rightarrow> string option" where
  "policy_Validate p =
     (if RawSnapshots p < 7 * day \<or> RawSnapshots p > 10 * 365 * day
      then Some ''raw snapshot retention must be between 7 days and 10 years''
      else if NormalizedRevision p < RawSnapshots p \<or> NormalizedRevision p > 10 * 365 * day
      then Some ''normalized revision retention must be at least raw retention and at most 10 years''
      else if OperationalRows p < 7 * day \<or> OperationalRows p > 365 * day
      then Some ''operational row retention must be between 7 and 365 days''
      else if OutboxReplay p < day \<or> OutboxReplay p > 30 * day
      then Some ''outbox replay retention must be between 1 and 30 days''
      else if MutationSnapshots p < 30 * day \<or> MutationSnapshots p > 365 * day
      then Some ''mutation snapshot retention must be between 30 and 365 days''
      else if BatchSize p < 1 \<or> BatchSize p > 1000
      then Some ''retention batch size must be between 1 and 1000'' else None)"

section \<open>The run\<close>

record object_candidate =
  obj_ID :: string
  obj_Key :: string

record counts =
  RawObjectsPruned :: int
  NormalizedObjectsPruned :: int
  FetchAttemptsPruned :: int
  ParseAttemptsPruned :: int
  WebhookEventsPruned :: int
  OutboxEventsPruned :: int
  MutationStatesCompacted :: int

definition counts_Add :: "counts \<Rightarrow> counts \<Rightarrow> counts" where
  "counts_Add a b =
     \<lparr>RawObjectsPruned = wrap64 (RawObjectsPruned a + RawObjectsPruned b),
      NormalizedObjectsPruned = wrap64 (NormalizedObjectsPruned a + NormalizedObjectsPruned b),
      FetchAttemptsPruned = wrap64 (FetchAttemptsPruned a + FetchAttemptsPruned b),
      ParseAttemptsPruned = wrap64 (ParseAttemptsPruned a + ParseAttemptsPruned b),
      WebhookEventsPruned = wrap64 (WebhookEventsPruned a + WebhookEventsPruned b),
      OutboxEventsPruned = wrap64 (OutboxEventsPruned a + OutboxEventsPruned b),
      MutationStatesCompacted = wrap64 (MutationStatesCompacted a + MutationStatesCompacted b)\<rparr>"

datatype call =
    PruneRaw object_candidate time time "string + bool"
  | PruneNormalized object_candidate time time "string + bool"
  | PruneOperational policy time
  | Complete string counts time
  | Fail string string counts time

record repo =
  repo_Start :: "string \<Rightarrow> policy \<Rightarrow> time \<Rightarrow> (string \<times> counts \<times> bool \<times> string option)"
  repo_RawCandidates :: "nat \<Rightarrow> time \<Rightarrow> int \<Rightarrow> string + object_candidate list"
  repo_PruneRaw :: "nat \<Rightarrow> object_candidate \<Rightarrow> time \<Rightarrow> time \<Rightarrow> string + bool"
  repo_NormalizedCandidates :: "nat \<Rightarrow> time \<Rightarrow> int \<Rightarrow> string + object_candidate list"
  repo_PruneNormalized :: "nat \<Rightarrow> object_candidate \<Rightarrow> time \<Rightarrow> time \<Rightarrow> string + bool"
  repo_PruneOperational :: "policy \<Rightarrow> time \<Rightarrow> string + counts"
  repo_Complete :: "string \<Rightarrow> counts \<Rightarrow> time \<Rightarrow> string option"
  repo_Fail :: "string \<Rightarrow> string \<Rightarrow> counts \<Rightarrow> time \<Rightarrow> string option"

text \<open>\<open>now.Format(time.DateOnly)\<close>.\<close>

definition date_text :: "time \<Rightarrow> string" where
  "date_text t =
     (case civil_from_days (t div day) of
        (y, m, d) \<Rightarrow> zero_pad 4 (nat y) @ ''-'' @ zero_pad 2 (nat m) @ ''-'' @ zero_pad 2 (nat d))"

text \<open>
  The inner loop over the candidates of a batch: an error, or how many were pruned, with the calls
  made and their answers. The count so far is part of the result also when a call fails.
\<close>

fun prune_candidates ::
    "(object_candidate \<Rightarrow> string + bool) \<Rightarrow> (object_candidate \<Rightarrow> string + bool \<Rightarrow> call) \<Rightarrow> object_candidate list \<Rightarrow> int
      \<Rightarrow> string option \<times> int \<times> call list" where
  "prune_candidates prune event [] n = (None, n, [])"
| "prune_candidates prune event (c # cs) n =
     (case prune c of
        Inl e \<Rightarrow> (Some e, n, [event c (Inl e)])
      | Inr pruned \<Rightarrow>
          (case prune_candidates prune event cs (if pruned then wrap64 (n + 1) else n) of
             (r, m, calls) \<Rightarrow> (r, m, event c (Inr pruned) # calls)))"

text \<open>The batches from \<open>batch\<close> on, with the number still allowed.\<close>

fun prune_batches ::
    "(nat \<Rightarrow> string + object_candidate list) \<Rightarrow> (nat \<Rightarrow> object_candidate \<Rightarrow> string + bool) \<Rightarrow> (object_candidate \<Rightarrow> string + bool \<Rightarrow> call) \<Rightarrow> int
      \<Rightarrow> nat \<Rightarrow> nat \<Rightarrow> int \<Rightarrow> string option \<times> int \<times> call list" where
  "prune_batches candidates prune event size_limit batch 0 n = (None, n, [])"
| "prune_batches candidates prune event size_limit batch (Suc left) n =
     (case candidates batch of
        Inl e \<Rightarrow> (Some e, n, [])
      | Inr cs \<Rightarrow>
          (case prune_candidates (prune batch) event cs n of
             (Some e, m, calls) \<Rightarrow> (Some e, m, calls)
           | (None, m, calls) \<Rightarrow>
               if int (length cs) < size_limit then (None, m, calls)
               else (case prune_batches candidates prune event size_limit (Suc batch) left m of
                       (r, k, later) \<Rightarrow> (r, k, calls @ later))))"

definition run_fail :: "repo \<Rightarrow> time \<Rightarrow> string \<Rightarrow> counts \<Rightarrow> string \<Rightarrow> call list \<Rightarrow> (counts \<times> string option) \<times> call list" where
  "run_fail R now runID c cause calls =
     (let code = ''retention_run_failed'' in
      case repo_Fail R runID code c now of
        None \<Rightarrow> ((c, Some cause), calls @ [Fail runID code c now])
      | Some e \<Rightarrow> ((c, Some (cause @ ''; record retention failure: '' @ e)), calls @ [Fail runID code c now]))"

definition finish :: "repo \<Rightarrow> policy \<Rightarrow> time \<Rightarrow> string \<Rightarrow> counts \<Rightarrow> call list \<Rightarrow> (counts \<times> string option) \<times> call list" where
  "finish R p now runID c calls =
     (case repo_PruneOperational R p now of
        Inl e \<Rightarrow> run_fail R now runID c e (calls @ [PruneOperational p now])
      | Inr operational \<Rightarrow>
          let total = counts_Add c operational in
          case repo_Complete R runID total now of
            Some e \<Rightarrow> run_fail R now runID total e (calls @ [PruneOperational p now, Complete runID total now])
          | None \<Rightarrow> ((total, None), calls @ [PruneOperational p now, Complete runID total now]))"

definition normalized_phase :: "repo \<Rightarrow> policy \<Rightarrow> time \<Rightarrow> string \<Rightarrow> counts \<Rightarrow> call list \<Rightarrow> (counts \<times> string option) \<times> call list" where
  "normalized_phase R p now runID c calls =
     (let cutoff = now - NormalizedRevision p in
      case prune_batches (\<lambda>b. repo_NormalizedCandidates R b cutoff (BatchSize p)) (\<lambda>b x. repo_PruneNormalized R b x cutoff now)
             (\<lambda>x. PruneNormalized x cutoff now) (BatchSize p) 0 maximumBatches (NormalizedObjectsPruned c) of
        (Some e, n, later) \<Rightarrow> run_fail R now runID (c\<lparr>NormalizedObjectsPruned := n\<rparr>) e (calls @ later)
      | (None, n, later) \<Rightarrow> finish R p now runID (c\<lparr>NormalizedObjectsPruned := n\<rparr>) (calls @ later))"

definition Run :: "repo \<Rightarrow> policy \<Rightarrow> time \<Rightarrow> (counts \<times> string option) \<times> call list" where
  "Run R p now =
     (case repo_Start R (''retention:'' @ date_text now) p now of
        (runID, c, execute, err) \<Rightarrow>
          if err \<noteq> None \<or> \<not> execute then ((c, err), [])
          else let cutoff = now - RawSnapshots p in
            case prune_batches (\<lambda>b. repo_RawCandidates R b cutoff (BatchSize p)) (\<lambda>b x. repo_PruneRaw R b x cutoff now)
                   (\<lambda>x. PruneRaw x cutoff now) (BatchSize p) 0 maximumBatches (RawObjectsPruned c) of
              (Some e, n, calls) \<Rightarrow> run_fail R now runID (c\<lparr>RawObjectsPruned := n\<rparr>) e calls
            | (None, n, calls) \<Rightarrow> normalized_phase R p now runID (c\<lparr>RawObjectsPruned := n\<rparr>) calls)"

definition NewRunner :: "policy \<Rightarrow> string option" where
  "NewRunner p = policy_Validate p"

section \<open>The loops\<close>

text \<open>The calls that pruned an object: those answered with true.\<close>

definition pruned_calls :: "call list \<Rightarrow> call list" where
  "pruned_calls calls =
     filter (\<lambda>c. case c of PruneRaw _ _ _ a \<Rightarrow> a = Inr True | PruneNormalized _ _ _ a \<Rightarrow> a = Inr True | _ \<Rightarrow> False) calls"

definition prune_event :: "(object_candidate \<Rightarrow> string + bool \<Rightarrow> call) \<Rightarrow> bool" where
  "prune_event event \<longleftrightarrow> (\<forall>x a. pruned_calls [event x a] = (if a = Inr True then [event x a] else []))"

lemma pruned_calls_append [simp]: "pruned_calls (a @ b) = pruned_calls a @ pruned_calls b"
  by (simp add: pruned_calls_def)

lemma pruned_calls_Cons: "pruned_calls (c # cs) = pruned_calls [c] @ pruned_calls cs"
  by (simp add: pruned_calls_def)

lemma prune_candidates_calls:
  assumes "prune_event event"
  shows "prune_candidates prune event cs n = (r, m, calls) \<Longrightarrow> int64_range n \<Longrightarrow> int64_range (n + int (length cs)) \<Longrightarrow>
    set calls \<subseteq> (\<lambda>x. event x (prune x)) ` set cs \<and> length calls \<le> length cs \<and> m = n + int (length (pruned_calls calls))
    \<and> int (length (pruned_calls calls)) \<le> int (length cs)"
proof (induction cs arbitrary: n r m calls)
  case (Cons c cs)
  show ?case
  proof (cases "prune c")
    case (Inl e)
    then show ?thesis using Cons.prems assms by (auto simp: prune_event_def)
  next
    case (Inr pruned)
    let ?n = "if pruned then n + 1 else n"
    have "int64_range (n + 1)" using Cons.prems(2,3) by (auto simp: int64_range_def)
    then have n: "(if pruned then wrap64 (n + 1) else n) = ?n" by (simp add: wrap64_id)
    obtain r' m' calls' where rest: "prune_candidates prune event cs ?n = (r', m', calls')"
      by (cases "prune_candidates prune event cs ?n") auto
    have "int64_range ?n" "int64_range (?n + int (length cs))" using Cons.prems(2,3) by (auto simp: int64_range_def)
    note IH = Cons.IH [OF rest this]
    have all: "calls = event c (Inr pruned) # calls'" "m = m'" using Cons.prems(1) Inr rest n by auto
    have "length (pruned_calls calls) = (if pruned then 1 else 0) + length (pruned_calls calls')"
      using assms unfolding all(1) pruned_calls_Cons [of _ calls'] by (simp add: prune_event_def)
    then show ?thesis using IH all Inr by (auto split: if_splits)
  qed
qed (simp add: pruned_calls_def)

text \<open>A batch never has more candidates than asked for.\<close>

definition limited :: "(nat \<Rightarrow> string + object_candidate list) \<Rightarrow> int \<Rightarrow> bool" where
  "limited candidates size_limit \<longleftrightarrow> (\<forall>b cs. candidates b = Inr cs \<longrightarrow> int (length cs) \<le> size_limit)"

text \<open>The calls about candidates of the batches from \<open>b\<close> up to \<open>b + left\<close>, with the answers the repository gives.\<close>

definition batch_calls ::
    "(nat \<Rightarrow> string + object_candidate list) \<Rightarrow> (nat \<Rightarrow> object_candidate \<Rightarrow> string + bool) \<Rightarrow> (object_candidate \<Rightarrow> string + bool \<Rightarrow> call) \<Rightarrow> nat \<Rightarrow> nat
      \<Rightarrow> call set" where
  "batch_calls candidates prune event b left = {event x (prune i x) | i x cs. b \<le> i \<and> i < b + left \<and> candidates i = Inr cs \<and> x \<in> set cs}"

lemma batch_calls_Suc: "batch_calls candidates prune event (Suc b) left \<subseteq> batch_calls candidates prune event b (Suc left)"
  by (force simp: batch_calls_def)

lemma prune_batches_calls:
  assumes "limited candidates size_limit" "0 \<le> size_limit" "prune_event event"
  shows "prune_batches candidates prune event size_limit b left n = (r, m, calls) \<Longrightarrow> int64_range n \<Longrightarrow> int64_range (n + int left * size_limit) \<Longrightarrow>
    set calls \<subseteq> batch_calls candidates prune event b left \<and> int (length calls) \<le> int left * size_limit
    \<and> m = n + int (length (pruned_calls calls)) \<and> int (length (pruned_calls calls)) \<le> int left * size_limit"
proof (induction left arbitrary: b n r m calls)
  case (Suc left)
  define X where "X = int left * size_limit"
  have room: "0 \<le> X" and X: "int (Suc left) * size_limit = size_limit + X" using assms(2) by (simp_all add: X_def algebra_simps)
  show ?case
  proof (cases "candidates b")
    case (Inl e)
    then show ?thesis using Suc.prems assms(2) by (auto simp: pruned_calls_def)
  next
    case (Inr cs)
    obtain r1 m1 c1 where one: "prune_candidates (prune b) event cs n = (r1, m1, c1)" by (cases "prune_candidates (prune b) event cs n") auto
    have cs: "int (length cs) \<le> size_limit" using assms Inr by (auto simp: limited_def)
    then have "int64_range (n + int (length cs))" using Suc.prems(2,3) room unfolding X int64_range_def by linarith
    then have c1: "set c1 \<subseteq> (\<lambda>x. event x (prune b x)) ` set cs" "int (length c1) \<le> size_limit"
        "m1 = n + int (length (pruned_calls c1))" "int (length (pruned_calls c1)) \<le> size_limit"
      using prune_candidates_calls [OF assms(3) one Suc.prems(2)] cs by auto
    have sub: "set c1 \<subseteq> batch_calls candidates prune event b (Suc left)" using c1(1) Inr by (fastforce simp: batch_calls_def)
    obtain r2 m2 c2 where two: "prune_batches candidates prune event size_limit (Suc b) left m1 = (r2, m2, c2)"
      by (cases "prune_batches candidates prune event size_limit (Suc b) left m1") auto
    have "int64_range m1" "int64_range (m1 + int left * size_limit)"
      using c1(3,4) Suc.prems(2,3) room unfolding X int64_range_def X_def [symmetric] by linarith+
    note IH = Suc.IH [OF two this]
    have eq: "(r, m, calls) = (case r1 of Some e \<Rightarrow> (Some e, m1, c1) | None \<Rightarrow> if int (length cs) < size_limit then (None, m1, c1) else (r2, m2, c1 @ c2))"
      using Suc.prems(1) Inr one two by (cases r1) auto
    show ?thesis
    proof (cases "r1 = None \<and> \<not> int (length cs) < size_limit")
      case True
      then have parts: "calls = c1 @ c2" "m = m2" using eq by auto
      have "set calls \<subseteq> batch_calls candidates prune event b (Suc left)" using IH sub batch_calls_Suc parts by fastforce
      then show ?thesis using parts IH c1(2-4) unfolding X X_def [symmetric] by simp
    next
      case False
      then have "calls = c1" "m = m1" using eq by (auto split: option.splits if_splits)
      then show ?thesis using sub c1 room unfolding X by simp
    qed
  qed
qed (simp add: pruned_calls_def)

section \<open>The trace of a run\<close>

text \<open>The calls that a run may make for its raw and for its normalised objects.\<close>

definition raw_calls :: "repo \<Rightarrow> policy \<Rightarrow> time \<Rightarrow> call set" where
  "raw_calls R p now =
     {PruneRaw x (now - RawSnapshots p) now a | x a.
        \<exists>b < 10. \<exists>cs. repo_RawCandidates R b (now - RawSnapshots p) (BatchSize p) = Inr cs \<and> x \<in> set cs \<and> a = repo_PruneRaw R b x (now - RawSnapshots p) now}"

definition normalized_calls :: "repo \<Rightarrow> policy \<Rightarrow> time \<Rightarrow> call set" where
  "normalized_calls R p now =
     {PruneNormalized x (now - NormalizedRevision p) now a | x a.
        \<exists>b < 10. \<exists>cs. repo_NormalizedCandidates R b (now - NormalizedRevision p) (BatchSize p) = Inr cs \<and> x \<in> set cs
          \<and> a = repo_PruneNormalized R b x (now - NormalizedRevision p) now}"

lemma prune_events [simp]: "prune_event (\<lambda>x. PruneRaw x c t)" "prune_event (\<lambda>x. PruneNormalized x c t)"
  by (simp_all add: prune_event_def pruned_calls_def)

lemma batch_calls_kinds:
  "batch_calls (\<lambda>b. repo_RawCandidates R b (now - RawSnapshots p) (BatchSize p)) (\<lambda>b x. repo_PruneRaw R b x (now - RawSnapshots p) now)
     (\<lambda>x. PruneRaw x (now - RawSnapshots p) now) 0 maximumBatches \<subseteq> raw_calls R p now"
  "batch_calls (\<lambda>b. repo_NormalizedCandidates R b (now - NormalizedRevision p) (BatchSize p)) (\<lambda>b x. repo_PruneNormalized R b x (now - NormalizedRevision p) now)
     (\<lambda>x. PruneNormalized x (now - NormalizedRevision p) now) 0 maximumBatches \<subseteq> normalized_calls R p now"
  by (force simp: batch_calls_def raw_calls_def normalized_calls_def maximumBatches_def)+

text \<open>
  How a run ends after its prunes, with the counts \<open>d\<close> reached by then: a failure, or the operational rows and then a failure or a
  completion, which when it is refused is followed by a failure.
\<close>

inductive closing :: "repo \<Rightarrow> policy \<Rightarrow> time \<Rightarrow> string \<Rightarrow> counts \<Rightarrow> counts \<Rightarrow> string option \<Rightarrow> call list \<Rightarrow> bool"
  for R p now runID d where
  closing_early: "closing R p now runID d d (Some e) [Fail runID ''retention_run_failed'' d now]"
| closing_rows: "closing R p now runID d d (Some e) [PruneOperational p now, Fail runID ''retention_run_failed'' d now]"
| closing_refused: "\<lbrakk>repo_PruneOperational R p now = Inr rows; t = counts_Add d rows; repo_Complete R runID t now \<noteq> None\<rbrakk>
    \<Longrightarrow> closing R p now runID d t (Some e) [PruneOperational p now, Complete runID t now, Fail runID ''retention_run_failed'' t now]"
| closing_complete: "\<lbrakk>repo_PruneOperational R p now = Inr rows; t = counts_Add d rows; repo_Complete R runID t now = None\<rbrakk>
    \<Longrightarrow> closing R p now runID d t None [PruneOperational p now, Complete runID t now]"

lemma run_fail_parts: "\<exists>e'. run_fail R now runID c e calls = ((c, Some e'), calls @ [Fail runID ''retention_run_failed'' c now])"
  by (simp add: run_fail_def Let_def split: option.split)

lemma finish_closing:
  "\<exists>c' err cl. finish R p now runID d calls = ((c', err), calls @ cl) \<and> closing R p now runID d c' err cl"
proof (cases "repo_PruneOperational R p now")
  case (Inl e)
  then show ?thesis
    using run_fail_parts [of R now runID d e "calls @ [PruneOperational p now]"] closing_rows by (fastforce simp: finish_def)
next
  case (Inr rows)
  define t where "t = counts_Add d rows"
  show ?thesis
  proof (cases "repo_Complete R runID t now")
    case None
    then show ?thesis using Inr closing_complete [OF Inr t_def] by (auto simp: finish_def t_def [symmetric] Let_def)
  next
    case (Some e)
    then show ?thesis
      using Inr run_fail_parts [of R now runID t e "calls @ [PruneOperational p now, Complete runID t now]"] closing_refused [OF Inr t_def, of runID]
      by (fastforce simp: finish_def t_def [symmetric] Let_def)
  qed
qed

text \<open>A run is a list of raw prunes, a list of normalised prunes and an end; the counts grow by one for every object that was pruned.\<close>

definition run_shape :: "repo \<Rightarrow> policy \<Rightarrow> time \<Rightarrow> string \<Rightarrow> counts \<Rightarrow> (counts \<times> string option) \<times> call list \<Rightarrow> call list \<Rightarrow> call list \<Rightarrow> counts \<Rightarrow> call list \<Rightarrow> bool" where
  "run_shape R p now runID c res raw normal d cl \<longleftrightarrow>
     snd res = raw @ normal @ cl \<and> set raw \<subseteq> raw_calls R p now \<and> set normal \<subseteq> normalized_calls R p now
     \<and> int (length raw) \<le> 10 * BatchSize p \<and> int (length normal) \<le> 10 * BatchSize p
     \<and> d = c\<lparr>RawObjectsPruned := RawObjectsPruned c + int (length (pruned_calls raw)),
             NormalizedObjectsPruned := NormalizedObjectsPruned c + int (length (pruned_calls normal))\<rparr>
     \<and> closing R p now runID d (fst (fst res)) (snd (fst res)) cl"

lemma normalized_phase_shape:
  assumes "limited (\<lambda>b. repo_NormalizedCandidates R b (now - NormalizedRevision p) (BatchSize p)) (BatchSize p)" "0 \<le> BatchSize p"
    "int64_range (NormalizedObjectsPruned c)" "int64_range (NormalizedObjectsPruned c + 10 * BatchSize p)"
    "set raw \<subseteq> raw_calls R p now" "int (length raw) \<le> 10 * BatchSize p" "c = c0\<lparr>RawObjectsPruned := RawObjectsPruned c0 + int (length (pruned_calls raw))\<rparr>"
  shows "\<exists>normal d cl. run_shape R p now runID c0 (normalized_phase R p now runID c raw) raw normal d cl"
proof -
  let ?cut = "now - NormalizedRevision p"
  obtain r n normal where b: "prune_batches (\<lambda>b. repo_NormalizedCandidates R b ?cut (BatchSize p)) (\<lambda>b x. repo_PruneNormalized R b x ?cut now)
      (\<lambda>x. PruneNormalized x ?cut now) (BatchSize p) 0 maximumBatches (NormalizedObjectsPruned c) = (r, n, normal)" by (metis prod_cases3)
  have "int64_range (NormalizedObjectsPruned c + int maximumBatches * BatchSize p)" using assms(4) by (simp add: maximumBatches_def)
  from prune_batches_calls [OF assms(1,2) prune_events(2) b assms(3) this] batch_calls_kinds(2) [of R now p]
  have normal: "set normal \<subseteq> normalized_calls R p now" "int (length normal) \<le> 10 * BatchSize p" and n: "n = NormalizedObjectsPruned c + int (length (pruned_calls normal))"
    by (auto simp: maximumBatches_def)
  define d where "d = c\<lparr>NormalizedObjectsPruned := n\<rparr>"
  have "\<exists>c' err cl. normalized_phase R p now runID c raw = ((c', err), (raw @ normal) @ cl) \<and> closing R p now runID d c' err cl"
  proof (cases r)
    case (Some e)
    then show ?thesis using b run_fail_parts [of R now runID d e "raw @ normal"] closing_early
      by (fastforce simp: normalized_phase_def d_def Let_def)
  next
    case None
    then show ?thesis using b finish_closing [of R p now runID d "raw @ normal"] by (auto simp: normalized_phase_def d_def Let_def)
  qed
  then obtain c' err cl where cl: "normalized_phase R p now runID c raw = ((c', err), (raw @ normal) @ cl)" "closing R p now runID d c' err cl" by blast
  have "run_shape R p now runID c0 (normalized_phase R p now runID c raw) raw normal d cl"
    using normal assms(5-7) n cl(2) unfolding cl(1) by (simp add: run_shape_def d_def)
  then show ?thesis by blast
qed

lemma Run_shape:
  assumes "limited (\<lambda>b. repo_RawCandidates R b (now - RawSnapshots p) (BatchSize p)) (BatchSize p)"
    and "limited (\<lambda>b. repo_NormalizedCandidates R b (now - NormalizedRevision p) (BatchSize p)) (BatchSize p)" and "1 \<le> BatchSize p" "BatchSize p \<le> 1000"
    and "repo_Start R (''retention:'' @ date_text now) p now = (runID, c, True, None)"
    and "0 \<le> RawObjectsPruned c" "RawObjectsPruned c < 2 ^ 62" "0 \<le> NormalizedObjectsPruned c" "NormalizedObjectsPruned c < 2 ^ 62"
  shows "\<exists>raw normal d cl. run_shape R p now runID c (Run R p now) raw normal d cl"
proof -
  let ?cut = "now - RawSnapshots p"
  obtain r n raw where b: "prune_batches (\<lambda>b. repo_RawCandidates R b ?cut (BatchSize p)) (\<lambda>b x. repo_PruneRaw R b x ?cut now)
      (\<lambda>x. PruneRaw x ?cut now) (BatchSize p) 0 maximumBatches (RawObjectsPruned c) = (r, n, raw)" by (metis prod_cases3)
  have range: "int64_range (RawObjectsPruned c)" "int64_range (RawObjectsPruned c + int maximumBatches * BatchSize p)"
    "int64_range (NormalizedObjectsPruned c)" "int64_range (NormalizedObjectsPruned c + 10 * BatchSize p)"
    using assms(3,4,6-9) by (auto simp: int64_range_def maximumBatches_def)
  have "0 \<le> BatchSize p" using assms(3) by simp
  from prune_batches_calls [OF assms(1) this prune_events(1) b range(1,2)] batch_calls_kinds(1) [of R now p]
  have raw: "set raw \<subseteq> raw_calls R p now" "int (length raw) \<le> 10 * BatchSize p" and n: "n = RawObjectsPruned c + int (length (pruned_calls raw))"
    by (auto simp: maximumBatches_def)
  show ?thesis
  proof (cases r)
    case (Some e)
    define d where "d = c\<lparr>RawObjectsPruned := n\<rparr>"
    obtain e' where run: "Run R p now = ((d, Some e'), raw @ [Fail runID ''retention_run_failed'' d now])"
      using run_fail_parts [of R now runID d e raw] b assms(5) Some by (auto simp: Run_def d_def Let_def)
    have "pruned_calls [] = []" by (simp add: pruned_calls_def)
    then have "run_shape R p now runID c (Run R p now) raw [] d [Fail runID ''retention_run_failed'' d now]"
      unfolding run using raw n \<open>0 \<le> BatchSize p\<close> closing_early by (simp add: run_shape_def d_def)
    then show ?thesis by blast
  next
    case None
    then have "Run R p now = normalized_phase R p now runID (c\<lparr>RawObjectsPruned := n\<rparr>) raw" using b assms(5) by (simp add: Run_def Let_def)
    then show ?thesis
      using normalized_phase_shape [OF assms(2) \<open>0 \<le> BatchSize p\<close> _ _ raw, of "c\<lparr>RawObjectsPruned := n\<rparr>" c runID] range(3,4) n by auto
  qed
qed

section \<open>What a run does\<close>

text \<open>The ends a run records: its failures, and the completions that the repository took.\<close>

definition run_ends :: "repo \<Rightarrow> call list \<Rightarrow> call list" where
  "run_ends R calls = filter (\<lambda>x. case x of Fail _ _ _ _ \<Rightarrow> True | Complete i t n \<Rightarrow> repo_Complete R i t n = None | _ \<Rightarrow> False) calls"

definition raw_prunes :: "call list \<Rightarrow> call list" where
  "raw_prunes calls = filter (\<lambda>c. case c of PruneRaw _ _ _ _ \<Rightarrow> True | _ \<Rightarrow> False) calls"

definition normalized_prunes :: "call list \<Rightarrow> call list" where
  "normalized_prunes calls = filter (\<lambda>c. case c of PruneNormalized _ _ _ _ \<Rightarrow> True | _ \<Rightarrow> False) calls"

text \<open>The bounds of a policy that may run, in days.\<close>

definition policy_bounds :: "policy \<Rightarrow> bool" where
  "policy_bounds p \<longleftrightarrow>
     7 * day \<le> RawSnapshots p \<and> RawSnapshots p \<le> NormalizedRevision p \<and> NormalizedRevision p \<le> 3650 * day
     \<and> 7 * day \<le> OperationalRows p \<and> OperationalRows p \<le> 365 * day \<and> 1 * day \<le> OutboxReplay p \<and> OutboxReplay p \<le> 30 * day
     \<and> 30 * day \<le> MutationSnapshots p \<and> MutationSnapshots p \<le> 365 * day \<and> 1 \<le> BatchSize p \<and> BatchSize p \<le> 1000"

lemma NewRunner_bounds: "NewRunner p = None \<longleftrightarrow> policy_bounds p"
  by (auto simp: NewRunner_def policy_Validate_def policy_bounds_def)

definition prunes_ok :: "repo \<Rightarrow> policy \<Rightarrow> time \<Rightarrow> call list \<Rightarrow> bool" where
  "prunes_ok R p now calls \<longleftrightarrow>
     set (raw_prunes calls) \<subseteq> raw_calls R p now \<and> int (length (raw_prunes calls)) \<le> 10 * BatchSize p
     \<and> set (normalized_prunes calls) \<subseteq> normalized_calls R p now \<and> int (length (normalized_prunes calls)) \<le> 10 * BatchSize p
     \<and> (\<forall>q t. PruneOperational q t \<in> set calls \<longrightarrow> q = p \<and> t = now)"

lemma kind_filters:
  "set calls \<subseteq> raw_calls R p now \<Longrightarrow> raw_prunes calls = calls \<and> normalized_prunes calls = [] \<and> run_ends R calls = [] \<and> (\<forall>q t. PruneOperational q t \<notin> set calls)"
  "set calls \<subseteq> normalized_calls R p now \<Longrightarrow> raw_prunes calls = [] \<and> normalized_prunes calls = calls \<and> run_ends R calls = [] \<and> (\<forall>q t. PruneOperational q t \<notin> set calls)"
  by (auto simp: raw_prunes_def normalized_prunes_def run_ends_def raw_calls_def normalized_calls_def filter_empty_conv intro!: filter_True)

lemma closing_facts:
  assumes "closing R p now runID d c' err cl"
  shows "raw_prunes cl = []" "normalized_prunes cl = []" "cl \<noteq> []" "PruneOperational q t \<in> set cl \<Longrightarrow> q = p \<and> t = now"
    "run_ends R cl = [last cl]" "last cl = (if err = None then Complete runID c' now else Fail runID ''retention_run_failed'' c' now)"
    "c' = d \<and> err \<noteq> None \<or> (\<exists>rows. repo_PruneOperational R p now = Inr rows \<and> c' = counts_Add d rows)" "pruned_calls cl = []"
  using assms by (cases; simp add: raw_prunes_def normalized_prunes_def run_ends_def pruned_calls_def)+

lemma shape_facts:
  assumes "run_shape R p now runID c res raw normal d cl"
  shows "raw_prunes (snd res) = raw" "normalized_prunes (snd res) = normal" "prunes_ok R p now (snd res)" "run_ends R (snd res) = [last (snd res)]" "last (snd res) = last cl"
proof -
  have parts: "snd res = raw @ normal @ cl" "set raw \<subseteq> raw_calls R p now" "set normal \<subseteq> normalized_calls R p now"
      "int (length raw) \<le> 10 * BatchSize p" "int (length normal) \<le> 10 * BatchSize p" and cl: "closing R p now runID d (fst (fst res)) (snd (fst res)) cl"
    using assms unfolding run_shape_def by blast+
  note k = kind_filters(1) [OF parts(2)] kind_filters(2) [OF parts(3)] closing_facts [OF cl]
  show raw: "raw_prunes (snd res) = raw" using k parts(1) by (simp add: raw_prunes_def)
  show normal: "normalized_prunes (snd res) = normal" using k parts(1) by (simp add: normalized_prunes_def)
  show "last (snd res) = last cl" using k(5) parts(1) by simp
  then show "run_ends R (snd res) = [last (snd res)]" using k parts(1) by (simp add: run_ends_def)
  have "q = p \<and> t = now" if "PruneOperational q t \<in> set (snd res)" for q t using that k(1,2,6) parts(1) by auto
  then show "prunes_ok R p now (snd res)" unfolding prunes_ok_def raw normal using parts(2-5) by blast
qed

text \<open>
  C19. A retention run is bounded, keeps to its policy and records one end. A runner is only built for a policy whose periods are
  within the documented bounds. With a repository that honours the batch limit, a started run prunes raw objects only with the
  cutoff that lies the raw period before now, and normalised objects only with the cutoff of their own period, in both
  cases only candidates that the repository gave for that cutoff and limit, from at most ten batches; operational rows are pruned
  under the policy and the time of the run. Exactly one end is recorded, as the last call, with the counts that the caller gets: a completion the
  repository took when the run succeeds, a failure otherwise (also after a completion that was refused). The counts grow by one for
  every object that was pruned, and by those of the operational rows.
\<close>

theorem Run_bounded:
  assumes "NewRunner p = None" and "limited (\<lambda>b. repo_RawCandidates R b (now - RawSnapshots p) (BatchSize p)) (BatchSize p)"
    and "limited (\<lambda>b. repo_NormalizedCandidates R b (now - NormalizedRevision p) (BatchSize p)) (BatchSize p)"
    and "repo_Start R (''retention:'' @ date_text now) p now = (runID, c, True, None)"
    and "0 \<le> RawObjectsPruned c" and "RawObjectsPruned c < 2 ^ 62" and "0 \<le> NormalizedObjectsPruned c" and "NormalizedObjectsPruned c < 2 ^ 62"
    and "Run R p now = ((c', err), calls)"
    and "d = c\<lparr>RawObjectsPruned := RawObjectsPruned c + int (length (pruned_calls (raw_prunes calls))),
               NormalizedObjectsPruned := NormalizedObjectsPruned c + int (length (pruned_calls (normalized_prunes calls)))\<rparr>"
  shows "policy_bounds p \<and> prunes_ok R p now calls
    \<and> run_ends R calls = [last calls] \<and> last calls = (if err = None then Complete runID c' now else Fail runID ''retention_run_failed'' c' now)
    \<and> (c' = d \<and> err \<noteq> None \<or> (\<exists>rows. repo_PruneOperational R p now = Inr rows \<and> c' = counts_Add d rows))"
proof -
  have bounds: "policy_bounds p" using assms(1) by (simp add: NewRunner_bounds)
  then have "1 \<le> BatchSize p" "BatchSize p \<le> 1000" by (simp_all add: policy_bounds_def)
  from Run_shape [OF assms(2,3) this assms(4-8)] obtain raw normal d' cl where shape: "run_shape R p now runID c (Run R p now) raw normal d' cl" by blast
  note f = shape_facts [OF shape, unfolded assms(9) snd_conv]
  have "d' = d" using shape f(1,2) unfolding assms(10) run_shape_def by blast
  then have "closing R p now runID d c' err cl" using shape unfolding assms(9) run_shape_def fst_conv snd_conv by blast
  from closing_facts(6,7) [OF this] show ?thesis using bounds f(3-5) by simp
qed

definition zero_counts :: counts where
  "zero_counts = \<lparr>RawObjectsPruned = 0, NormalizedObjectsPruned = 0, FetchAttemptsPruned = 0, ParseAttemptsPruned = 0,
     WebhookEventsPruned = 0, OutboxEventsPruned = 0, MutationStatesCompacted = 0\<rparr>"

text \<open>One expired raw object and nothing else.\<close>

definition sample_repo :: repo where
  "sample_repo = \<lparr>repo_Start = (\<lambda>k p t. (''run'', zero_counts, True, None)),
     repo_RawCandidates = (\<lambda>b t n. Inr (if b = 0 then [\<lparr>obj_ID = ''o'', obj_Key = ''k''\<rparr>] else [])), repo_PruneRaw = (\<lambda>b x t n. Inr True),
     repo_NormalizedCandidates = (\<lambda>b t n. Inr []), repo_PruneNormalized = (\<lambda>b x t n. Inr True),
     repo_PruneOperational = (\<lambda>p t. Inr zero_counts), repo_Complete = (\<lambda>i c t. None), repo_Fail = (\<lambda>i k c t. None)\<rparr>"

text \<open>Under the default policy, with 180 days for raw objects.\<close>

theorem Run_bounded_witness:
  "raw_prunes (snd (Run sample_repo DefaultPolicy (1000 * day))) = [PruneRaw \<lparr>obj_ID = ''o'', obj_Key = ''k''\<rparr> (820 * day) (1000 * day) (Inr True)]
   \<and> policy_bounds DefaultPolicy
   \<and> run_ends sample_repo (snd (Run sample_repo DefaultPolicy (1000 * day))) = [Complete ''run'' (zero_counts\<lparr>RawObjectsPruned := 1\<rparr>) (1000 * day)]"
proof -
  have run: "Run sample_repo DefaultPolicy (1000 * day) = ((zero_counts\<lparr>RawObjectsPruned := 1\<rparr>, None),
      [PruneRaw \<lparr>obj_ID = ''o'', obj_Key = ''k''\<rparr> (820 * day) (1000 * day) (Inr True), PruneOperational DefaultPolicy (1000 * day),
       Complete ''run'' (zero_counts\<lparr>RawObjectsPruned := 1\<rparr>) (1000 * day)])" by code_simp
  have "NewRunner DefaultPolicy = None" by code_simp
  from Run_bounded [OF this _ _ _ _ _ _ _ run refl, of "''run''" zero_counts]
  have "policy_bounds DefaultPolicy" "run_ends sample_repo (snd (Run sample_repo DefaultPolicy (1000 * day))) = [Complete ''run'' (zero_counts\<lparr>RawObjectsPruned := 1\<rparr>) (1000 * day)]"
    unfolding run snd_conv by (simp_all add: sample_repo_def limited_def zero_counts_def DefaultPolicy_def)
  then show ?thesis unfolding run snd_conv by (simp add: raw_prunes_def)
qed

end
