(* ===== verification/Digest_Ranking.thy ===== *)
theory Digest_Ranking
  imports Go_Time Go_Sort "HOL-Library.Product_Lexorder" "HOL-Library.List_Lexorder" "HOL-Library.Char_ord"
begin

text \<open>
  The daily digest's ranking and rendering (\<open>src/internal/digest\<close>, the files \<open>types.go\<close>, \<open>rank.go\<close> and
  \<open>render.go\<close>): the score of a story or of a Radar candidate, the selection of at most \<open>maximum\<close>
  candidates with room reserved for some categories, and the payload of one channel. \<open>round64\<close>
  rounds a real result to the nearest \<open>float64\<close>, \<open>slice\<close> is \<open>slices.SortFunc\<close>, the JSON encoder and
  SHA-256 are arguments.
\<close>

section \<open>Candidates\<close>

datatype any_value = AnyString string | AnyBool bool | AnyNumber float64

record digest_candidate =
  dc_Type :: string
  dc_ID :: string
  dc_StoryID :: string
  dc_ItemID :: string
  dc_RadarID :: string
  dc_Headline :: string
  dc_Summary :: string
  dc_Action :: string
  dc_Signal :: string
  dc_Category :: string
  dc_Reason :: string
  dc_AppPath :: string
  dc_SourceURL :: string
  dc_Score :: float64
  dc_Observed :: time
  dc_Evidence :: "(string \<times> any_value) list"

record story_signals =
  sg_Confidence :: string
  sg_LifecycleState :: string
  sg_Signal :: string
  sg_SourceTier :: string
  sg_Status :: string
  sg_ObservedAt :: time
  sg_WindowStart :: time
  sg_WindowEnd :: time

record radar_signals =
  rg_CurrentState :: string
  rg_Misleading :: bool
  rg_ObservedAt :: time

section \<open>Scores\<close>

text \<open>\<open>math.Round\<close> (halves away from zero) and \<open>Duration.Seconds\<close>.\<close>

definition math_round :: "rat \<Rightarrow> rat" where
  "math_round x = (if x < 0 then - of_int \<lfloor>- x + 1 / 2\<rfloor> else of_int \<lfloor>x + 1 / 2\<rfloor>)"

definition whole_seconds :: "duration \<Rightarrow> int" where
  "whole_seconds d = (if d < 0 then - (- d div second) else d div second)"

definition duration_seconds :: "(rat \<Rightarrow> rat) \<Rightarrow> duration \<Rightarrow> rat" where
  "duration_seconds round64 d =
     round64 (round64 (of_int (whole_seconds d)) + round64 (round64 (of_int (d - whole_seconds d * second)) / 1000000000))"

definition storySignalScore :: "(rat \<Rightarrow> rat) \<Rightarrow> string \<Rightarrow> string \<Rightarrow> rat \<times> string \<times> string" where
  "storySignalScore round64 signal lifecycle =
     (if signal = ''security''
      then (round64 (90 / 100), ''security'', ''Confirmed security evidence receives the highest deterministic priority.'')
      else if signal = ''breaking-change''
      then (round64 (82 / 100), ''release'', ''A breaking change can require owner action in the current stack.'')
      else if lifecycle = ''preview'' \<or> lifecycle = ''release_candidate'' \<or> signal = ''proposal''
      then (round64 (68 / 100), ''coming_soon'', ''A source-declared preview or proposal can affect near-term planning.'')
      else if signal = ''release''
      then (round64 (74 / 100), ''release'', ''A stable release is eligible for the bounded release allocation.'')
      else if signal = ''migration''
      then (round64 (78 / 100), ''release'', ''A documented migration can require changes in the current stack.'')
      else if signal = ''deprecation''
      then (round64 (78 / 100), ''release'', ''A documented deprecation can require migration planning.'')
      else (round64 (56 / 100), ''general'', ''The evidence-backed story is ranked within the current digest window.''))"

definition recencyScore :: "(rat \<Rightarrow> rat) \<Rightarrow> time \<Rightarrow> time \<Rightarrow> time \<Rightarrow> rat" where
  "recencyScore round64 observedAt windowStart windowEnd =
     (let window = time_sub windowEnd windowStart in
      if window \<le> 0 \<or> observedAt < windowStart then 0
      else let position = round64 (duration_seconds round64 (time_sub observedAt windowStart) / duration_seconds round64 window)
           in max 0 (min (round64 (5 / 100)) (round64 (position * round64 (5 / 100)))))"

definition roundedScore :: "(rat \<Rightarrow> rat) \<Rightarrow> rat \<Rightarrow> rat" where
  "roundedScore round64 v = round64 (math_round (round64 (max 0 (min 1 v) * 10000)) / 10000)"

definition sourceAdjustment :: "(rat \<Rightarrow> rat) \<Rightarrow> string \<Rightarrow> rat" where
  "sourceAdjustment round64 tier =
     (if tier = ''T0'' then round64 (10 / 100) else if tier = ''T1'' then round64 (5 / 100)
      else if tier = ''T3'' then round64 (- 10 / 100) else 0)"

definition confidenceAdjustment :: "(rat \<Rightarrow> rat) \<Rightarrow> string \<Rightarrow> rat" where
  "confidenceAdjustment round64 c =
     (if c = ''high'' then round64 (5 / 100) else if c = ''low'' then round64 (- 10 / 100)
      else if c = ''unknown'' then round64 (- 15 / 100) else 0)"

definition ScoreStory :: "(rat \<Rightarrow> rat) \<Rightarrow> story_signals \<Rightarrow> rat \<times> string \<times> string" where
  "ScoreStory round64 s =
     (case storySignalScore round64 (sg_Signal s) (sg_LifecycleState s) of (base, category, reason) \<Rightarrow>
        (roundedScore round64
           (round64 (round64 (round64 (round64 (base + sourceAdjustment round64 (sg_SourceTier s))
              + confidenceAdjustment round64 (sg_Confidence s))
              + (if sg_Status s = ''updated'' then round64 (3 / 100) else 0))
              + recencyScore round64 (sg_ObservedAt s) (sg_WindowStart s) (sg_WindowEnd s))),
         category, reason))"

definition ScoreRadar :: "(rat \<Rightarrow> rat) \<Rightarrow> radar_signals \<Rightarrow> rat \<times> string" where
  "ScoreRadar round64 s =
     (let st = rg_CurrentState s;
          base = (if st = ''adopt'' then round64 (72 / 100) else if st = ''trial'' then round64 (70 / 100)
                  else if st = ''assess'' then round64 (66 / 100) else if st = ''hold'' then round64 (54 / 100) else 0);
          base = (if rg_Misleading s then round64 (base - round64 (8 / 100)) else base)
      in (roundedScore round64 base, ''A package assessment is ready for explicit owner review.''))"

section \<open>Selection\<close>

definition categoryPriority :: "string \<Rightarrow> int" where
  "categoryPriority c =
     (if c = ''security'' then 0 else if c = ''release'' then 1 else if c = ''coming_soon'' then 2
      else if c = ''radar'' then 3 else if c = ''later'' then 4 else if c = ''general'' then 5 else 0)"

text \<open>\<open>cmp.Compare\<close>: on floats a NaN is less than every other value.\<close>

definition compare_float :: "float64 \<Rightarrow> float64 \<Rightarrow> int" where
  "compare_float x y =
     (if x = NaN then (if y = NaN then 0 else - 1) else if y = NaN then 1
      else if flt_lt x y then - 1 else if flt_lt y x then 1 else 0)"

definition compare_ord :: "'a :: linorder \<Rightarrow> 'a \<Rightarrow> int" where
  "compare_ord x y = (if x < y then - 1 else if y < x then 1 else 0)"

definition candidate_cmp :: "digest_candidate \<Rightarrow> digest_candidate \<Rightarrow> int" where
  "candidate_cmp l r =
     (let scoreOrder = compare_float (dc_Score r) (dc_Score l) in
      if scoreOrder \<noteq> 0 then scoreOrder
      else let categoryOrder = compare_ord (categoryPriority (dc_Category l)) (categoryPriority (dc_Category r)) in
      if categoryOrder \<noteq> 0 then categoryOrder
      else let timeOrder = compare_ord (dc_Observed r) (dc_Observed l) in
      if timeOrder \<noteq> 0 then timeOrder
      else let typeOrder = compare_ord (dc_Type l) (dc_Type r) in
      if typeOrder \<noteq> 0 then typeOrder
      else compare_ord (dc_ID l) (dc_ID r))"

definition candidate_key :: "digest_candidate \<Rightarrow> string" where
  "candidate_key c = dc_Type c @ '':'' @ dc_ID c"

fun appendCategory ::
    "int \<Rightarrow> string \<Rightarrow> int \<Rightarrow> digest_candidate list \<Rightarrow> digest_candidate list \<times> string list \<Rightarrow> digest_candidate list \<times> string list" where
  "appendCategory maximum category limit [] st = st"
| "appendCategory maximum category limit (c # cs) (selected, seen) =
     (if dc_Category c \<noteq> category \<or> int (length selected) \<ge> maximum \<or> limit \<le> 0
      then appendCategory maximum category limit cs (selected, seen)
      else if candidate_key c \<in> set seen then appendCategory maximum category limit cs (selected, seen)
      else appendCategory maximum category (limit - 1) cs (selected @ [c], candidate_key c # seen))"

fun append_rest ::
    "int \<Rightarrow> digest_candidate list \<Rightarrow> digest_candidate list \<times> string list \<Rightarrow> digest_candidate list" where
  "append_rest maximum [] (selected, seen) = selected"
| "append_rest maximum (c # cs) (selected, seen) =
     (if int (length selected) \<ge> maximum then selected
      else if candidate_key c \<in> set seen then append_rest maximum cs (selected, seen)
      else append_rest maximum cs (selected @ [c], candidate_key c # seen))"

definition Select ::
    "((digest_candidate \<Rightarrow> digest_candidate \<Rightarrow> bool) \<Rightarrow> digest_candidate list \<Rightarrow> digest_candidate list)
      \<Rightarrow> digest_candidate list \<Rightarrow> int \<Rightarrow> float64 \<Rightarrow> digest_candidate list" where
  "Select slice candidates maximum minimumScore =
     (if maximum \<le> 0 then []
      else let eligible = slice (\<lambda>l r. candidate_cmp l r < 0) (filter (\<lambda>c. flt_ge (dc_Score c) minimumScore) candidates);
               st = appendCategory maximum ''security'' 2 eligible ([], []);
               st = appendCategory maximum ''release'' 4 eligible st;
               st = appendCategory maximum ''coming_soon'' 2 eligible st;
               st = appendCategory maximum ''radar'' 2 eligible st
           in append_rest maximum eligible st)"

section \<open>Rendering\<close>

text \<open>The bytes of a rune (\<open>string([]rune)\<close>) and \<open>strings.Fields\<close>, which splits around runs of spaces.\<close>

definition encode_rune :: "rune \<Rightarrow> string" where
  "encode_rune r =
     (if r < 128 then [char_of r]
      else if r < 2048 then [char_of (192 + r div 64), char_of (128 + r mod 64)]
      else if r > 1114111 \<or> 55296 \<le> r \<and> r \<le> 57343 then [char_of (239::nat), char_of (191::nat), char_of (189::nat)]
      else if r < 65536 then [char_of (224 + r div 4096), char_of (128 + r div 64 mod 64), char_of (128 + r mod 64)]
      else [char_of (240 + r div 262144), char_of (128 + r div 4096 mod 64), char_of (128 + r div 64 mod 64), char_of (128 + r mod 64)])"

text \<open>The ellipsis U+2026.\<close>

definition boundedText :: "string \<Rightarrow> nat \<Rightarrow> string" where
  "boundedText v maximum =
     (let v = join '' '' (split_fields v); rs = runes v in
      if length rs \<le> maximum then v
      else if maximum \<le> 1 then concat (map encode_rune (take maximum rs))
      else trim_space (concat (map encode_rune (take (maximum - 1) rs))) @ encode_rune 8230)"

record rendered_item =
  ri_Type :: string
  ri_ID :: string
  ri_Headline :: string
  ri_Summary :: string
  ri_Action :: string
  ri_Signal :: string
  ri_Reason :: string
  ri_AppPath :: string
  ri_SourceURL :: string
  ri_Score :: float64

record digest_payload =
  pl_Channel :: string
  pl_Title :: string
  pl_ExecutiveSummary :: string
  pl_LocalDate :: string
  pl_WindowStart :: time
  pl_WindowEnd :: time
  pl_GeneratedAt :: time
  pl_Items :: "rendered_item list"

record render_input =
  in_Channel :: string
  in_LocalDate :: string
  in_WindowStart :: time
  in_WindowEnd :: time
  in_GeneratedAt :: time
  in_ExecutiveSummary :: string
  in_Items :: "digest_candidate list"

definition render_item :: "digest_candidate \<Rightarrow> rendered_item" where
  "render_item c =
     \<lparr>ri_Type = dc_Type c, ri_ID = dc_ID c, ri_Headline = boundedText (dc_Headline c) 180,
      ri_Summary = boundedText (dc_Summary c) 600, ri_Action = boundedText (dc_Action c) 300, ri_Signal = dc_Signal c,
      ri_Reason = boundedText (dc_Reason c) 500, ri_AppPath = dc_AppPath c, ri_SourceURL = dc_SourceURL c, ri_Score = dc_Score c\<rparr>"

text \<open>The middle dot U+00B7 of the title. \<open>marshal\<close> is the JSON encoder.\<close>

definition render_payload :: "render_input \<Rightarrow> digest_payload" where
  "render_payload i =
     (let items = map render_item (in_Items i);
          summary = trim_space (in_ExecutiveSummary i);
          summary = (if summary \<noteq> [] then summary
                     else if items = [] then ''No material, evidence-backed changes met this digest'' @ [CHR 0x27] @ ''s reviewed threshold.''
                     else itoa (int (length items)) @ '' evidence-backed changes are ready for owner review.'')
      in \<lparr>pl_Channel = in_Channel i, pl_Title = ''Relantern morning brief '' @ encode_rune 183 @ '' '' @ in_LocalDate i,
          pl_ExecutiveSummary = boundedText summary 2000, pl_LocalDate = in_LocalDate i, pl_WindowStart = in_WindowStart i,
          pl_WindowEnd = in_WindowEnd i, pl_GeneratedAt = in_GeneratedAt i, pl_Items = items\<rparr>)"

definition Render ::
    "(digest_payload \<Rightarrow> string option) \<Rightarrow> (string \<Rightarrow> string) \<Rightarrow> render_input \<Rightarrow> string + (digest_payload \<times> string)" where
  "Render marshal sha256 i =
     (if in_Channel i \<notin> {''dashboard'', ''discord'', ''email''} then Inl ''unsupported digest channel''
      else if in_LocalDate i = [] \<or> \<not> in_WindowStart i < in_WindowEnd i \<or> is_zero (in_GeneratedAt i)
      then Inl ''digest render input is incomplete''
      else (case marshal (render_payload i) of
              None \<Rightarrow> Inl ''encode rendered digest''
            | Some encoded \<Rightarrow>
                if length encoded > 65536 then Inl ''rendered digest exceeds 64 KiB''
                else Inr (render_payload i, sha256 encoded)))"

section \<open>Scores lie between zero and one\<close>

text \<open>Rounding to \<open>float64\<close> is monotone and exact on integers of up to 53 bits.\<close>

definition nearest :: "(rat \<Rightarrow> rat) \<Rightarrow> bool" where
  "nearest round64 \<longleftrightarrow>
     (\<forall>x y. x \<le> y \<longrightarrow> round64 x \<le> round64 y) \<and> (\<forall>n. \<bar>n\<bar> \<le> 2 ^ 53 \<longrightarrow> round64 (of_int n) = of_int n)"

lemma nearestD:
  assumes "nearest round64"
  shows "x \<le> y \<Longrightarrow> round64 x \<le> round64 y" and "round64 0 = 0" and "round64 1 = 1" and "round64 10000 = 10000"
  using assms unfolding nearest_def
  by (auto dest: spec [of _ 0] spec [of _ 1] spec [of _ "10000"])

lemma math_round_mono: "0 \<le> x \<Longrightarrow> x \<le> y \<Longrightarrow> math_round x \<le> math_round y"
  by (simp add: math_round_def floor_mono)

lemma roundedScore_mono:
  assumes "nearest round64" "x \<le> y"
  shows "roundedScore round64 x \<le> roundedScore round64 y"
proof -
  note mono = nearestD(1) [OF assms(1)]
  have "0 \<le> round64 (max 0 (min 1 x) * 10000)" using mono [of 0 "max 0 (min 1 x) * 10000"] nearestD(2) [OF assms(1)] by simp
  moreover have "round64 (max 0 (min 1 x) * 10000) \<le> round64 (max 0 (min 1 y) * 10000)"
    using assms(2) by (intro mono mult_right_mono max.mono min.mono) simp_all
  ultimately have "math_round (round64 (max 0 (min 1 x) * 10000)) \<le> math_round (round64 (max 0 (min 1 y) * 10000))"
    by (rule math_round_mono)
  then show ?thesis
    unfolding roundedScore_def by (intro mono divide_right_mono) simp_all
qed

lemma roundedScore_bounds:
  assumes "nearest round64"
  shows "0 \<le> roundedScore round64 x \<and> roundedScore round64 x \<le> 1"
proof -
  have "\<lfloor>1 / 2 :: rat\<rfloor> = 0" "\<lfloor>20001 / 2 :: rat\<rfloor> = 10000" by (simp_all add: floor_eq_iff)
  then have "roundedScore round64 (min x 0) = 0" "roundedScore round64 (max x 1) = 1"
    using nearestD [OF assms] by (simp_all add: roundedScore_def math_round_def)
  then show ?thesis
    using roundedScore_mono [OF assms, of "min x 0" x] roundedScore_mono [OF assms, of x "max x 1"] by simp
qed

text \<open>Everything else equal, no story is scored above a security story.\<close>

lemma security_first:
  assumes "nearest round64"
  shows "fst (ScoreStory round64 s) \<le> fst (ScoreStory round64 (s\<lparr>sg_Signal := ''security''\<rparr>))"
proof -
  note mono = nearestD(1) [OF assms]
  have base: "fst (storySignalScore round64 (sg_Signal s) (sg_LifecycleState s)) \<le> fst (storySignalScore round64 ''security'' (sg_LifecycleState s))"
    by (auto simp: storySignalScore_def intro!: mono)
  have "roundedScore round64 (round64 (round64 (round64 (round64 (a + p) + q) + r) + t))
      \<le> roundedScore round64 (round64 (round64 (round64 (round64 (b + p) + q) + r) + t))" if "a \<le> b" for a b p q r t
    using that by (intro roundedScore_mono [OF assms] mono add_right_mono)
  from this [OF base] show ?thesis by (simp add: ScoreStory_def split_beta)
qed

section \<open>What is selected\<close>

text \<open>
  The reference: the eligible candidates in the order of the comparison, first the best ones of four
  categories up to their quota, then all the others, cut at the maximum.
\<close>

fun score_key :: "float64 \<Rightarrow> int \<times> rat" where
  "score_key NaN = (2, 0)"
| "score_key NegInf = (1, 0)"
| "score_key (Fin q) = (0, - q)"
| "score_key PosInf = (- 1, 0)"

definition rank_key :: "digest_candidate \<Rightarrow> (int \<times> rat) \<times> int \<times> int \<times> string \<times> string" where
  "rank_key c = (score_key (dc_Score c), categoryPriority (dc_Category c), - dc_Observed c, dc_Type c, dc_ID c)"

definition quota :: "string \<Rightarrow> nat \<Rightarrow> digest_candidate list \<Rightarrow> digest_candidate list" where
  "quota category n E = take n (filter (\<lambda>c. dc_Category c = category) E)"

definition reserved :: "digest_candidate list \<Rightarrow> digest_candidate list" where
  "reserved E = quota ''security'' 2 E @ quota ''release'' 4 E @ quota ''coming_soon'' 2 E @ quota ''radar'' 2 E"

definition select_reference :: "digest_candidate list \<Rightarrow> int \<Rightarrow> float64 \<Rightarrow> digest_candidate list" where
  "select_reference candidates maximum minimumScore =
     (let E = sort_key rank_key (filter (\<lambda>c. flt_ge (dc_Score c) minimumScore) candidates)
      in take (nat maximum) (reserved E @ filter (\<lambda>c. c \<notin> set (reserved E)) E))"

lemma compare_float_key: "x \<noteq> NaN \<Longrightarrow> y \<noteq> NaN \<Longrightarrow> compare_float y x = compare_ord (score_key x) (score_key y)"
  by (cases x; cases y) (auto simp: compare_float_def compare_ord_def)

lemma compare_ord_props [simp]:
  "compare_ord x y < 0 \<longleftrightarrow> x < y" "compare_ord x y = 0 \<longleftrightarrow> x = y"
  by (auto simp: compare_ord_def)

lemma compare_ord_uminus: "compare_ord (- x) (- y) = compare_ord y (x :: int)"
  by (simp add: compare_ord_def)

lemma candidate_cmp_key:
  assumes "dc_Score l \<noteq> NaN" "dc_Score r \<noteq> NaN"
  shows "candidate_cmp l r < 0 \<longleftrightarrow> rank_key l < rank_key r"
  unfolding candidate_cmp_def compare_float_key [OF assms] compare_ord_uminus [symmetric, of "dc_Observed l"] Let_def rank_key_def
  by (simp add: compare_ord_uminus) (auto simp: less_prod_simp)

text \<open>One pass over the candidates of a category, and the last pass, when the keys are distinct.\<close>

definition tracks :: "digest_candidate list \<times> string list \<Rightarrow> bool" where
  "tracks st \<longleftrightarrow> set (snd st) = candidate_key ` set (fst st)"

lemma appendCategory_eq:
  assumes "tracks (selected, seen)" and "distinct cs" and "inj_on candidate_key (set selected \<union> set cs)"
    and "\<forall>c\<in>set selected. c \<in> set cs \<longrightarrow> dc_Category c \<noteq> category"
  shows "fst (appendCategory (int m) category (int n) cs (selected, seen))
      = selected @ take (min n (m - length selected)) (filter (\<lambda>c. dc_Category c = category) cs)
    \<and> tracks (appendCategory (int m) category (int n) cs (selected, seen))"
  using assms
proof (induction cs arbitrary: selected seen n)
  case (Cons c cs)
  have inj: "inj_on candidate_key (set selected \<union> set cs)" using Cons.prems(3) by (rule inj_on_subset) auto
  show ?case
  proof (cases "dc_Category c = category \<and> length selected < m \<and> 0 < n")
    case True
    then obtain n' where n: "n = Suc n'" by (cases n) auto
    have "c \<notin> set selected" using True Cons.prems(4) by auto
    then have "candidate_key c \<notin> set seen"
      using Cons.prems(1,3) by (auto simp: tracks_def inj_on_def)
    moreover have "tracks (selected @ [c], candidate_key c # seen)" using Cons.prems(1) by (simp add: tracks_def)
    moreover have "inj_on candidate_key (set (selected @ [c]) \<union> set cs)" using Cons.prems(3) by (rule inj_on_subset) auto
    moreover have "\<forall>x\<in>set (selected @ [c]). x \<in> set cs \<longrightarrow> dc_Category x \<noteq> category" using Cons.prems(2,4) by auto
    moreover have "distinct cs" using Cons.prems(2) by simp
    ultimately show ?thesis
      using True n Cons.IH [of "selected @ [c]" "candidate_key c # seen" n'] by (simp add: take_Cons' min_def) (auto simp: Suc_diff_le)
  next
    case False
    have rest: "\<forall>x\<in>set selected. x \<in> set cs \<longrightarrow> dc_Category x \<noteq> category" using Cons.prems(4) by auto
    have "appendCategory (int m) category (int n) (c # cs) (selected, seen) = appendCategory (int m) category (int n) cs (selected, seen)"
      using False by auto
    moreover have "take (min n (m - length selected)) (filter (\<lambda>c. dc_Category c = category) (c # cs))
        = take (min n (m - length selected)) (filter (\<lambda>c. dc_Category c = category) cs)"
      using False by (cases "dc_Category c = category") auto
    ultimately show ?thesis
      using Cons.IH [OF Cons.prems(1) _ inj rest] Cons.prems(2) by simp
  qed
qed simp

lemma append_rest_eq:
  assumes "tracks (selected, seen)" and "distinct cs" and "inj_on candidate_key (set selected \<union> set cs)"
  shows "append_rest (int m) cs (selected, seen) = selected @ take (m - length selected) (filter (\<lambda>c. c \<notin> set selected) cs)"
  using assms
proof (induction cs arbitrary: selected seen)
  case (Cons c cs)
  have inj: "inj_on candidate_key (set selected \<union> set cs)" using Cons.prems(3) by (rule inj_on_subset) auto
  have key: "candidate_key c \<in> set seen \<longleftrightarrow> c \<in> set selected"
    using Cons.prems(1,3) by (auto simp: tracks_def inj_on_def)
  show ?case
  proof (cases "length selected < m \<and> c \<notin> set selected")
    case True
    have "filter (\<lambda>x. x \<notin> set (selected @ [c])) cs = filter (\<lambda>x. x \<notin> set selected) cs"
      using Cons.prems(2) by (intro filter_cong) auto
    moreover have "tracks (selected @ [c], candidate_key c # seen)" using Cons.prems(1) by (simp add: tracks_def)
    moreover have "inj_on candidate_key (set (selected @ [c]) \<union> set cs)" using Cons.prems(3) by (rule inj_on_subset) auto
    moreover have "m - length selected = Suc (m - Suc (length selected))" using True by arith
    ultimately show ?thesis
      using True key Cons.prems(2) Cons.IH [of "selected @ [c]" "candidate_key c # seen"] by simp
  next
    case False
    then show ?thesis using key Cons.IH [OF Cons.prems(1) _ inj] Cons.prems(2) by (auto simp: not_less)
  qed
qed simp

lemma quota_category: "c \<in> set (quota category n E) \<Longrightarrow> dc_Category c = category \<and> c \<in> set E"
  by (auto simp: quota_def dest: in_set_takeD)

text \<open>A pass adds its quota to what the passes for other categories selected before, cut at the maximum.\<close>

lemma appendCategory_quota:
  assumes "tracks st" and "fst st = take m A" and "set A \<subseteq> set E" and "\<forall>c\<in>set A. dc_Category c \<noteq> category"
    and "distinct E" and "inj_on candidate_key (set E)"
  shows "fst (appendCategory (int m) category (int n) E st) = take m (A @ quota category n E)
    \<and> tracks (appendCategory (int m) category (int n) E st)"
proof -
  obtain selected seen where st: "st = (selected, seen)" by (cases st)
  have sel: "set selected \<subseteq> set A" using assms(2) by (auto simp: st dest: in_set_takeD)
  then have "inj_on candidate_key (set selected \<union> set E)" using assms(3,6) by (metis Un_absorb1 order_trans)
  moreover have "\<forall>c\<in>set selected. c \<in> set E \<longrightarrow> dc_Category c \<noteq> category" using sel assms(4) by blast
  ultimately have *: "fst (appendCategory (int m) category (int n) E st)
      = selected @ take (min n (m - length selected)) (filter (\<lambda>c. dc_Category c = category) E)"
    "tracks (appendCategory (int m) category (int n) E st)"
    using appendCategory_eq [of selected seen E category m n] assms(1,5) by (simp_all add: st)
  have "m - length selected = m - length A" using assms(2) by (simp add: st)
  with * show ?thesis using assms(2) by (simp add: st quota_def min.commute)
qed

lemma reserved_props:
  assumes "distinct E"
  shows "distinct (reserved E)" and "set (reserved E) \<subseteq> set E"
proof -
  have "distinct (quota c n E)" for c n using assms by (simp add: quota_def)
  then show "distinct (reserved E)"
    by (auto simp: reserved_def dest!: quota_category)
  show "set (reserved E) \<subseteq> set E" by (auto simp: reserved_def dest!: quota_category)
qed

lemma passes_eq:
  assumes "distinct E" and "inj_on candidate_key (set E)"
  shows "append_rest (int m) E (appendCategory (int m) ''radar'' 2 E (appendCategory (int m) ''coming_soon'' 2 E
      (appendCategory (int m) ''release'' 4 E (appendCategory (int m) ''security'' 2 E ([], [])))))
    = take m (reserved E @ filter (\<lambda>c. c \<notin> set (reserved E)) E)"
proof -
  note pass = appendCategory_quota [OF _ _ _ _ assms, where m = m]
  let ?s1 = "appendCategory (int m) ''security'' 2 E ([], [])" and ?A1 = "quota ''security'' 2 E"
  have 1: "fst ?s1 = take m ?A1 \<and> tracks ?s1"
    using pass [of "([], [])" "[]" "''security''" 2] by (simp add: tracks_def)
  let ?s2 = "appendCategory (int m) ''release'' 4 E ?s1" and ?A2 = "?A1 @ quota ''release'' 4 E"
  have 2: "fst ?s2 = take m ?A2 \<and> tracks ?s2"
    using pass [of ?s1 ?A1 "''release''" 4] 1 by (force dest: quota_category)
  let ?s3 = "appendCategory (int m) ''coming_soon'' 2 E ?s2" and ?A3 = "?A2 @ quota ''coming_soon'' 2 E"
  have 3: "fst ?s3 = take m ?A3 \<and> tracks ?s3"
    using pass [of ?s2 ?A2 "''coming_soon''" 2] 2 by (force dest: quota_category)
  let ?s4 = "appendCategory (int m) ''radar'' 2 E ?s3"
  have 4: "fst ?s4 = take m (reserved E) \<and> tracks ?s4"
    using pass [of ?s3 ?A3 "''radar''" 2] 3 by (force simp: reserved_def dest: quota_category)
  obtain selected seen where st: "?s4 = (selected, seen)" by (cases ?s4)
  have sel: "selected = take m (reserved E)" and tr: "tracks (selected, seen)" using 4 by (auto simp: st)
  then have "set selected \<subseteq> set E" using reserved_props(2) [OF assms(1)] by (auto dest: in_set_takeD)
  then have "append_rest (int m) E ?s4 = selected @ take (m - length selected) (filter (\<lambda>c. c \<notin> set selected) E)"
    using append_rest_eq [OF tr assms(1)] assms(2) by (simp add: st Un_absorb1)
  then show ?thesis by (cases "length (reserved E) < m") (simp_all add: sel)
qed

lemma reference_complete:
  assumes "distinct E"
  shows "distinct (reserved E @ filter (\<lambda>c. c \<notin> set (reserved E)) E)"
    and "length (reserved E @ filter (\<lambda>c. c \<notin> set (reserved E)) E) = length E"
proof -
  show dist: "distinct (reserved E @ filter (\<lambda>c. c \<notin> set (reserved E)) E)"
    using reserved_props [OF assms] assms by auto
  have "set (reserved E @ filter (\<lambda>c. c \<notin> set (reserved E)) E) = set E"
    using reserved_props(2) [OF assms] by auto
  then show "length (reserved E @ filter (\<lambda>c. c \<notin> set (reserved E)) E) = length E"
    using distinct_card [OF dist] distinct_card [OF assms] by simp
qed

text \<open>
  C23. The digest is the reference selection, whatever sorting algorithm is used and in whatever order
  the candidates arrive: of the candidates that reach the minimum score, first the two best security
  stories, the four best releases, the two best upcoming changes and the two best Radar candidates,
  then the best of the others, up to the maximum. In particular no candidate is left out while there
  is room, and no candidate appears twice.
\<close>

theorem Select_reference:
  assumes "slice_sort slice" and "distinct (map candidate_key candidates)" and "minimumScore \<noteq> NaN"
  shows "Select slice candidates maximum minimumScore = select_reference candidates maximum minimumScore
    \<and> distinct (map candidate_key (Select slice candidates maximum minimumScore))
    \<and> length (Select slice candidates maximum minimumScore)
        = min (nat maximum) (length (filter (\<lambda>c. flt_ge (dc_Score c) minimumScore) candidates))"
proof -
  define elig where "elig = filter (\<lambda>c. flt_ge (dc_Score c) minimumScore) candidates"
  define E where "E = sort_key rank_key elig"
  have keys: "distinct (map candidate_key elig)" using assms(2) by (simp add: elig_def distinct_map inj_on_def)
  have "dc_Score c \<noteq> NaN" if "c \<in> set elig" for c using that by (auto simp: elig_def)
  moreover have "inj_on rank_key (set elig)"
    using keys by (auto simp: rank_key_def candidate_key_def distinct_map inj_on_def)
  ultimately have E: "slice (\<lambda>l r. candidate_cmp l r < 0) elig = E"
    unfolding E_def by (intro slice_sort.sorted_unique [OF assms(1)] candidate_cmp_key) auto
  have dist: "distinct E" "inj_on candidate_key (set E)" using keys by (simp_all add: E_def distinct_map)
  let ?R = "reserved E @ filter (\<lambda>c. c \<notin> set (reserved E)) E"
  have eq: "Select slice candidates maximum minimumScore = take (nat maximum) ?R"
    using passes_eq [OF dist, of "nat maximum"]
    by (cases "maximum \<le> 0") (simp_all add: Select_def Let_def elig_def [symmetric] E)
  have "set (take (nat maximum) ?R) \<subseteq> set E"
    using reserved_props(2) [OF dist(1)] by (auto dest!: in_set_takeD)
  then have "distinct (map candidate_key (take (nat maximum) ?R))"
    using reference_complete(1) [OF dist(1)] dist(2) unfolding distinct_map
    by (metis distinct_take inj_on_subset)
  moreover have "length (take (nat maximum) ?R) = min (nat maximum) (length elig)"
    using reference_complete(2) [OF dist(1)] by (simp add: E_def min.commute)
  ultimately show ?thesis
    unfolding eq by (simp add: select_reference_def Let_def elig_def E_def)
qed

definition sample_story :: "string \<Rightarrow> string \<Rightarrow> rat \<Rightarrow> digest_candidate" where
  "sample_story i category score =
     \<lparr>dc_Type = ''story'', dc_ID = i, dc_StoryID = i, dc_ItemID = i, dc_RadarID = [], dc_Headline = i, dc_Summary = i,
      dc_Action = [], dc_Signal = category, dc_Category = category, dc_Reason = ''why'', dc_AppPath = [], dc_SourceURL = [],
      dc_Score = Fin score, dc_Observed = 0, dc_Evidence = []\<rparr>"

definition sample_stories :: "digest_candidate list" where
  "sample_stories =
     [sample_story ''r1'' ''release'' (9 / 10), sample_story ''s1'' ''security'' (8 / 10), sample_story ''g1'' ''general'' (7 / 10),
      sample_story ''s2'' ''security'' (1 / 10)]"

theorem Select_reference_witness:
  "Select insertionSort sample_stories 2 (Fin (1 / 2)) = select_reference sample_stories 2 (Fin (1 / 2))
   \<and> map dc_ID (Select insertionSort sample_stories 2 (Fin (1 / 2))) = [''s1'', ''r1'']"
proof -
  have "distinct (map candidate_key sample_stories)" "map dc_ID (Select insertionSort sample_stories 2 (Fin (1 / 2))) = [''s1'', ''r1'']"
    by code_simp+
  with Select_reference [OF insertion.slice_sort_axioms this(1), of "Fin (1 / 2)" 2] show ?thesis by simp
qed

end
