(* ===== verification/Digest_Workflow.thy ===== *)
theory Digest_Workflow
  imports Digest_Ranking Postgres
begin

text \<open>
  The daily digest's transactions (\<open>src/internal/digest/pgstore\<close>) and the delivery job (\<open>src/internal/worker/river.go\<close>).
  A schedule occurrence is queued, its sources are checked, its candidates are captured and its
  digests, one per channel, are frozen; an external digest is then claimed, sent, and completed or
  failed, and a failed one can be retried. The record \<open>digest_db\<close> holds the tables these transactions
  write. What they read from other tables, the JSON column, the job queue's insert and the sender are
  the record \<open>digest_env\<close>; the metadata object of an occurrence is a record of the keys the code sets.
\<close>

section \<open>Tables\<close>

record digest_schedule =
  dsc_id :: string
  dsc_user_id :: string
  dsc_type :: string
  dsc_maximum_items :: int
  dsc_minimum_score :: float64
  dsc_include_coming_soon :: bool
  dsc_include_radar_candidates :: bool
  dsc_include_later_reminders :: bool
  dsc_empty_behavior :: string
  dsc_channels :: "string list"

record digest_metadata =
  md_digestStage :: "string option"
  md_externalDelivery :: "bool option"
  md_preflightAt :: "time option"
  md_stalePrioritySources :: "int option"
  md_duePrioritySources :: "int option"
  md_preparedAt :: "time option"
  md_windowStart :: "time option"
  md_windowEnd :: "time option"
  md_backlogWindow :: "bool option"
  md_candidateCount :: "nat option"
  md_finalizedAt :: "time option"
  md_selectedCount :: "nat option"
  md_externalDeliveryCount :: "nat option"

record digest_occurrence =
  oc_id :: string
  oc_schedule_id :: string
  oc_scheduled_for :: time
  oc_local_date :: string
  oc_state :: string
  oc_trigger_type :: string
  oc_started_at :: "time option"
  oc_completed_at :: "time option"
  oc_error_code :: "string option"
  oc_metadata :: digest_metadata

record captured_row =
  cap_occurrence_id :: string
  cap_type :: string
  cap_candidate_id :: string
  cap_item_id :: "string option"
  cap_score :: float64
  cap_category :: string
  cap_reason :: string
  cap_snapshot :: digest_candidate
  cap_captured_at :: time

record digest_row =
  dg_id :: string
  dg_user_id :: string
  dg_occurrence_id :: string
  dg_local_date :: string
  dg_window_start :: time
  dg_window_end :: time
  dg_channel :: string
  dg_state :: string
  dg_item_limit :: int
  dg_minimum_score :: float64
  dg_empty_behavior :: string
  dg_executive_summary :: string
  dg_payload :: digest_payload
  dg_payload_sha256 :: string
  dg_idempotency_key :: string
  dg_generated_at :: time
  dg_completed_at :: "time option"
  dg_error_code :: "string option"

record digest_item_row =
  it_digest_id :: string
  it_sort_order :: nat
  it_snapshot :: digest_candidate

record attempt_row =
  at_digest_id :: string
  at_channel :: string
  at_provider_id :: "string option"
  at_idempotency_key :: string
  at_state :: string
  at_count :: int
  at_payload_sha256 :: string
  at_attempted_at :: "time option"
  at_completed_at :: "time option"
  at_error_code :: "string option"

datatype digest_job = PreflightJob string | PrepareJob string | FinalizeJob string | DeliverJob string

text \<open>
  The audit and outbox events of owner retries. Their metadata object is the channel, the payload's
  digest and the instant; an audit event names its actor and target as text, an outbox event its aggregate.
\<close>

datatype retry_event =
    Audit_retried string string "string \<times> string \<times> time"
  | Outbox_retried string "string \<times> string \<times> time"

record digest_db =
  ddb_schedules :: "digest_schedule list"
  ddb_occurrences :: "digest_occurrence list"
  ddb_candidates :: "captured_row list"
  ddb_digests :: "digest_row list"
  ddb_items :: "digest_item_row list"
  ddb_attempts :: "attempt_row list"
  ddb_jobs :: "digest_job list"
  ddb_events :: "retry_event list"
  ddb_seq :: nat

datatype digest_error =
    DigestConflict
  | DigestInvalid
  | DigestNotFound
  | DigestQuery string
  | DigestSerialization
  | DigestCanceled

record occurrence_settings =
  os_UserID :: string
  os_LocalDate :: string
  os_ScheduledFor :: time
  os_State :: string
  os_MaximumItems :: int
  os_MinimumScore :: float64
  os_IncludeComingSoon :: bool
  os_IncludeRadarCandidates :: bool
  os_IncludeLaterReminders :: bool
  os_EmptyBehavior :: string
  os_Channels :: "string list"
  os_TriggerType :: string
  os_ExternalDelivery :: bool
  os_Stage :: string

text \<open>A row of the story query and of the Radar query.\<close>

record story_row =
  st_story_id :: string
  st_item_id :: string
  st_headline :: string
  st_summary :: string
  st_recommended_action :: string
  st_confidence :: string
  st_last_changed_at :: time
  st_status :: string
  st_signal :: string
  st_source_tier :: string
  st_canonical_url :: string
  st_lifecycle_state :: string
  st_source_id :: string
  st_location :: string

record radar_row =
  rd_id :: string
  rd_package_name :: string
  rd_incumbent_package :: string
  rd_repository_url :: string
  rd_current_status :: string
  rd_ecosystem :: string
  rd_misleading :: bool
  rd_assessed_at :: time
  rd_confidence :: float64

text \<open>
  The surroundings: the server, float rounding, the sort, the queries on other tables (\<open>None\<close> is an
  error), the eligibility condition of the recheck query, what a JSON column gives back for a value
  (\<open>None\<close> when the value is not encoded or not accepted), the JSON encoder, SHA-256 and whether the
  queue accepts a job.
\<close>

record digest_env =
  ev_pg :: pg
  ev_round64 :: "rat \<Rightarrow> rat"
  ev_sort :: "(digest_candidate \<Rightarrow> digest_candidate \<Rightarrow> bool) \<Rightarrow> digest_candidate list \<Rightarrow> digest_candidate list"
  ev_stories :: "occurrence_settings \<Rightarrow> time \<Rightarrow> time \<Rightarrow> story_row list option"
  ev_radar :: "string \<Rightarrow> time \<Rightarrow> time \<Rightarrow> radar_row list option"
  ev_priority :: "time \<Rightarrow> (int \<times> int) option"
  ev_eligible :: "occurrence_settings \<Rightarrow> time \<Rightarrow> captured_row \<Rightarrow> bool"
  ev_candidate_json :: "digest_candidate \<Rightarrow> digest_candidate option"
  ev_payload_json :: "digest_payload \<Rightarrow> digest_payload option"
  ev_marshal :: "digest_payload \<Rightarrow> string option"
  ev_sha256 :: "string \<Rightarrow> string"
  ev_enqueue :: "digest_job \<Rightarrow> bool"

section \<open>Statements\<close>

definition uuid_param :: "digest_env \<Rightarrow> string \<Rightarrow> digest_error + string" where
  "uuid_param V s = (case pg_uuid (ev_pg V) s of None \<Rightarrow> Inl (DigestQuery ''uuid'') | Some u \<Rightarrow> Inr u)"

definition update_occurrence_row :: "string \<Rightarrow> (digest_occurrence \<Rightarrow> digest_occurrence) \<Rightarrow> digest_db \<Rightarrow> digest_db" where
  "update_occurrence_row i f D = D\<lparr>ddb_occurrences := map (\<lambda>oc. if oc_id oc = i then f oc else oc) (ddb_occurrences D)\<rparr>"

definition update_digest_row :: "string \<Rightarrow> (digest_row \<Rightarrow> digest_row) \<Rightarrow> digest_db \<Rightarrow> digest_db" where
  "update_digest_row i f D = D\<lparr>ddb_digests := map (\<lambda>d. if dg_id d = i then f d else d) (ddb_digests D)\<rparr>"

definition update_attempt_rows :: "(attempt_row \<Rightarrow> bool) \<Rightarrow> (attempt_row \<Rightarrow> attempt_row) \<Rightarrow> digest_db \<Rightarrow> digest_db" where
  "update_attempt_rows P f D = D\<lparr>ddb_attempts := map (\<lambda>a. if P a then f a else a) (ddb_attempts D)\<rparr>"

definition enqueueDigestJob :: "digest_env \<Rightarrow> digest_job \<Rightarrow> digest_db \<Rightarrow> digest_error + digest_db" where
  "enqueueDigestJob V j D =
     (if ev_enqueue V j then Inr (D\<lparr>ddb_jobs := ddb_jobs D @ [j]\<rparr>) else Inl (DigestQuery ''enqueue digest work''))"

definition find_occurrence_row :: "digest_db \<Rightarrow> string \<Rightarrow> digest_occurrence option" where
  "find_occurrence_row D i = find (\<lambda>oc. oc_id oc = i) (ddb_occurrences D)"

definition schedule_of :: "digest_db \<Rightarrow> digest_occurrence \<Rightarrow> digest_schedule option" where
  "schedule_of D oc = find (\<lambda>s. dsc_id s = oc_schedule_id oc) (ddb_schedules D)"

definition terminalOccurrence :: "string \<Rightarrow> bool" where
  "terminalOccurrence st = (st = ''delivered'' \<or> st = ''skipped'' \<or> st = ''missed'')"

section \<open>Queueing and preflight\<close>

text \<open>\<open>server_now\<close> is SQL's \<open>now()\<close>.\<close>

definition queued_row :: "time \<Rightarrow> digest_occurrence \<Rightarrow> digest_occurrence" where
  "queued_row server_now r =
     r\<lparr>oc_state := ''preparing'', oc_started_at := (case oc_started_at r of None \<Rightarrow> Some server_now | Some t \<Rightarrow> Some t),
       oc_completed_at := None, oc_error_code := None, oc_metadata := (oc_metadata r)\<lparr>md_digestStage := Some ''queued''\<rparr>\<rparr>"

definition queueOccurrence :: "digest_env \<Rightarrow> time \<Rightarrow> string \<Rightarrow> digest_db \<Rightarrow> digest_error + (digest_db \<times> unit)" where
  "queueOccurrence V server_now occurrenceID D =
     and_then (uuid_param V occurrenceID) (\<lambda>i.
       case find_occurrence_row D i of
         None \<Rightarrow> Inl DigestNotFound
       | Some oc \<Rightarrow>
           (case schedule_of D oc of
              None \<Rightarrow> Inl DigestNotFound
            | Some s \<Rightarrow>
                if dsc_type s \<noteq> ''daily_digest'' then Inl DigestInvalid
                else if terminalOccurrence (oc_state oc) then Inr (D, ())
                else and_then (enqueueDigestJob V (PreflightJob occurrenceID) (update_occurrence_row i (queued_row server_now) D))
                  (\<lambda>D'. Inr (D', ()))))"

definition preflighted_row :: "time \<Rightarrow> int \<Rightarrow> int \<Rightarrow> digest_occurrence \<Rightarrow> digest_occurrence" where
  "preflighted_row now stale due r =
     r\<lparr>oc_metadata := (oc_metadata r)\<lparr>md_digestStage := Some ''preflighted'', md_preflightAt := Some now,
       md_stalePrioritySources := Some stale, md_duePrioritySources := Some due\<rparr>\<rparr>"

definition preflight :: "digest_env \<Rightarrow> string \<Rightarrow> time \<Rightarrow> digest_db \<Rightarrow> digest_error + (digest_db \<times> unit)" where
  "preflight V occurrenceID now D =
     and_then (uuid_param V occurrenceID) (\<lambda>i.
       case find_occurrence_row D i of
         None \<Rightarrow> Inl DigestNotFound
       | Some oc \<Rightarrow>
           if terminalOccurrence (oc_state oc) then Inr (D, ())
           else (case ev_priority V now of
             None \<Rightarrow> Inl (DigestQuery ''inspect priority source freshness'')
           | Some (stale, due) \<Rightarrow>
               and_then (enqueueDigestJob V (PrepareJob occurrenceID) (update_occurrence_row i (preflighted_row now stale due) D))
                 (\<lambda>D'. Inr (D', ()))))"

section \<open>Preparation\<close>

definition selectOccurrenceSettings :: "digest_db \<Rightarrow> string \<Rightarrow> digest_error + occurrence_settings" where
  "selectOccurrenceSettings D i =
     (case find_occurrence_row D i of
        None \<Rightarrow> Inl DigestNotFound
      | Some oc \<Rightarrow>
          (case schedule_of D oc of
             None \<Rightarrow> Inl DigestNotFound
           | Some s \<Rightarrow>
               if dsc_type s \<noteq> ''daily_digest'' then Inl DigestNotFound
               else Inr \<lparr>os_UserID = dsc_user_id s, os_LocalDate = oc_local_date oc, os_ScheduledFor = oc_scheduled_for oc,
                 os_State = oc_state oc, os_MaximumItems = dsc_maximum_items s, os_MinimumScore = dsc_minimum_score s,
                 os_IncludeComingSoon = dsc_include_coming_soon s, os_IncludeRadarCandidates = dsc_include_radar_candidates s,
                 os_IncludeLaterReminders = dsc_include_later_reminders s, os_EmptyBehavior = dsc_empty_behavior s,
                 os_Channels = dsc_channels s, os_TriggerType = oc_trigger_type oc,
                 os_ExternalDelivery = (case md_externalDelivery (oc_metadata oc) of Some b \<Rightarrow> b
                    | None \<Rightarrow> oc_trigger_type oc \<noteq> ''run_now''),
                 os_Stage = (case md_digestStage (oc_metadata oc) of Some st \<Rightarrow> st | None \<Rightarrow> [])\<rparr>))"

definition story_candidate :: "digest_env \<Rightarrow> time \<Rightarrow> time \<Rightarrow> story_row \<Rightarrow> digest_candidate" where
  "story_candidate V windowStart windowEnd r =
     (case ScoreStory (ev_round64 V) \<lparr>sg_Confidence = st_confidence r, sg_LifecycleState = st_lifecycle_state r,
             sg_Signal = st_signal r, sg_SourceTier = st_source_tier r, sg_Status = st_status r,
             sg_ObservedAt = st_last_changed_at r, sg_WindowStart = windowStart, sg_WindowEnd = windowEnd\<rparr> of
        (score, category, reason) \<Rightarrow>
          \<lparr>dc_Type = ''story'', dc_ID = st_story_id r, dc_StoryID = st_story_id r, dc_ItemID = st_item_id r, dc_RadarID = [],
           dc_Headline = st_headline r, dc_Summary = st_summary r, dc_Action = st_recommended_action r, dc_Signal = st_signal r,
           dc_Category = (if st_location r = ''later'' then ''later'' else category),
           dc_Reason = (if st_location r = ''later'' then ''An owner-saved Later item is due for a bounded reminder.'' else reason),
           dc_AppPath = ''/story/'' @ st_story_id r, dc_SourceURL = st_canonical_url r, dc_Score = Fin score,
           dc_Observed = st_last_changed_at r,
           dc_Evidence = [(''confidence'', AnyString (st_confidence r)), (''lifecycleState'', AnyString (st_lifecycle_state r)),
             (''sourceId'', AnyString (st_source_id r)), (''sourceTier'', AnyString (st_source_tier r)),
             (''status'', AnyString (st_status r))]\<rparr>)"

definition radar_candidate :: "digest_env \<Rightarrow> radar_row \<Rightarrow> digest_candidate" where
  "radar_candidate V r =
     (case ScoreRadar (ev_round64 V) \<lparr>rg_CurrentState = rd_current_status r, rg_Misleading = rd_misleading r,
             rg_ObservedAt = rd_assessed_at r\<rparr> of
        (score, reason) \<Rightarrow>
          \<lparr>dc_Type = ''radar'', dc_ID = rd_id r, dc_StoryID = [], dc_ItemID = [], dc_RadarID = rd_id r,
           dc_Headline = rd_package_name r @ '' compared with '' @ rd_incumbent_package r,
           dc_Summary = rd_package_name r @ '' is currently in '' @ rd_current_status r @ '' with reviewed evidence for ''
             @ rd_ecosystem r @ '' projects.'',
           dc_Action = ''Review the comparison and record an explicit owner decision.'', dc_Signal = ''radar'',
           dc_Category = ''radar'', dc_Reason = reason, dc_AppPath = ''/radar?candidate='' @ rd_id r,
           dc_SourceURL = rd_repository_url r, dc_Score = Fin score, dc_Observed = rd_assessed_at r,
           dc_Evidence = [(''confidence'', AnyNumber (rd_confidence r)), (''currentState'', AnyString (rd_current_status r)),
             (''ecosystem'', AnyString (rd_ecosystem r)), (''incumbent'', AnyString (rd_incumbent_package r)),
             (''misleading'', AnyBool (rd_misleading r))]\<rparr>)"

definition captureCandidates ::
    "digest_env \<Rightarrow> occurrence_settings \<Rightarrow> time \<Rightarrow> time \<Rightarrow> digest_error + digest_candidate list" where
  "captureCandidates V settings windowStart windowEnd =
     (case ev_stories V settings windowStart windowEnd of
        None \<Rightarrow> Inl (DigestQuery ''select story digest candidates'')
      | Some rows \<Rightarrow>
          let stories = map (story_candidate V windowStart windowEnd) rows in
          if \<not> os_IncludeRadarCandidates settings then Inr stories
          else (case ev_radar V (os_UserID settings) windowStart windowEnd of
             None \<Rightarrow> Inl (DigestQuery ''select Radar digest candidates'')
           | Some radar \<Rightarrow> Inr (stories @ map (radar_candidate V) radar)))"

definition digest_categories :: "string list" where
  "digest_categories = [''security'', ''release'', ''coming_soon'', ''radar'', ''later'', ''general'']"

definition candidate_columns_ok :: "string \<Rightarrow> float64 \<Rightarrow> string \<Rightarrow> string \<Rightarrow> bool" where
  "candidate_columns_ok kind score category reason \<longleftrightarrow>
     kind \<in> {''story'', ''radar''} \<and> flt_le (Fin 0) score \<and> flt_le score (Fin 1) \<and> category \<in> set digest_categories
     \<and> 3 \<le> rune_count reason \<and> rune_count reason \<le> 1000"

text \<open>The insert of one candidate, with \<open>on conflict ... do nothing\<close>.\<close>

definition insert_candidate ::
    "digest_env \<Rightarrow> string \<Rightarrow> time \<Rightarrow> digest_candidate \<Rightarrow> digest_db \<Rightarrow> digest_error + digest_db" where
  "insert_candidate V i now c D =
     (case ev_candidate_json V c of
        None \<Rightarrow> Inl (DigestQuery ''encode digest candidate'')
      | Some snapshot \<Rightarrow>
          and_then (uuid_param V (dc_ID c)) (\<lambda>cid.
          and_then (if dc_ItemID c = [] then Inr None else and_then (uuid_param V (dc_ItemID c)) (\<lambda>u. Inr (Some u))) (\<lambda>item.
            if \<not> candidate_columns_ok (dc_Type c) (dc_Score c) (dc_Category c) (dc_Reason c)
               \<or> (dc_Type c = ''story'' \<and> item = None)
            then Inl (DigestQuery ''persist digest candidate'')
            else if \<exists>r\<in>set (ddb_candidates D). cap_occurrence_id r = i \<and> cap_type r = dc_Type c \<and> cap_candidate_id r = cid
            then Inr D
            else Inr (D\<lparr>ddb_candidates := ddb_candidates D @
                [\<lparr>cap_occurrence_id = i, cap_type = dc_Type c, cap_candidate_id = cid,
                  cap_item_id = (if dc_Type c = ''story'' then item else None), cap_score = dc_Score c, cap_category = dc_Category c,
                  cap_reason = dc_Reason c, cap_snapshot = snapshot, cap_captured_at = pg_time (ev_pg V) now\<rparr>]\<rparr>))))"

fun insert_candidates ::
    "digest_env \<Rightarrow> string \<Rightarrow> time \<Rightarrow> digest_candidate list \<Rightarrow> digest_db \<Rightarrow> digest_error + digest_db" where
  "insert_candidates V i now [] D = Inr D"
| "insert_candidates V i now (c # cs) D = and_then (insert_candidate V i now c D) (\<lambda>D'. insert_candidates V i now cs D')"

text \<open>\<open>max(window_end)\<close> of the owner's delivered dashboard digests that ended before.\<close>

definition prior_ends :: "digest_db \<Rightarrow> string \<Rightarrow> time \<Rightarrow> time list" where
  "prior_ends D user windowEnd =
     map dg_window_end (filter (\<lambda>d. dg_user_id d = user \<and> dg_channel d = ''dashboard'' \<and> dg_state d = ''delivered''
       \<and> dg_window_end d < windowEnd) (ddb_digests D))"

definition prior_cutoff :: "digest_db \<Rightarrow> string \<Rightarrow> time \<Rightarrow> time option" where
  "prior_cutoff D user windowEnd =
     (case prior_ends D user windowEnd of [] \<Rightarrow> None | t # ts \<Rightarrow> Some (foldr max ts t))"

definition digest_window :: "digest_db \<Rightarrow> occurrence_settings \<Rightarrow> time \<times> time" where
  "digest_window D settings =
     (let windowEnd = os_ScheduledFor settings - 15 * minute
      in (case prior_cutoff D (os_UserID settings) windowEnd of None \<Rightarrow> windowEnd - 24 * hour | Some t \<Rightarrow> t, windowEnd))"

definition prepared_row :: "time \<Rightarrow> time \<Rightarrow> time \<Rightarrow> nat \<Rightarrow> digest_occurrence \<Rightarrow> digest_occurrence" where
  "prepared_row now windowStart windowEnd captured r =
     r\<lparr>oc_state := ''preparing'',
       oc_metadata := (oc_metadata r)\<lparr>md_digestStage := Some ''prepared'', md_preparedAt := Some now,
         md_windowStart := Some windowStart, md_windowEnd := Some windowEnd,
         md_backlogWindow := Some (time_sub windowEnd windowStart > 36 * hour), md_candidateCount := Some captured\<rparr>\<rparr>"

definition prepare_new ::
    "digest_env \<Rightarrow> string \<Rightarrow> string \<Rightarrow> occurrence_settings \<Rightarrow> time \<Rightarrow> digest_db \<Rightarrow> digest_error + (digest_db \<times> unit)" where
  "prepare_new V occurrenceID i settings now D =
     (case digest_window D settings of (windowStart, windowEnd) \<Rightarrow>
        if \<not> windowStart < windowEnd then Inl DigestInvalid
        else and_then (captureCandidates V settings windowStart windowEnd) (\<lambda>candidates.
             and_then (insert_candidates V i now candidates D) (\<lambda>D1.
             and_then (enqueueDigestJob V (FinalizeJob occurrenceID)
               (update_occurrence_row i (prepared_row now windowStart windowEnd (length candidates)) D1)) (\<lambda>D2. Inr (D2, ())))))"

definition prepare :: "digest_env \<Rightarrow> string \<Rightarrow> time \<Rightarrow> digest_db \<Rightarrow> digest_error + (digest_db \<times> unit)" where
  "prepare V occurrenceID now D =
     and_then (uuid_param V occurrenceID) (\<lambda>i.
     and_then (selectOccurrenceSettings D i) (\<lambda>settings.
       if terminalOccurrence (os_State settings) then Inr (D, ())
       else if os_Stage settings = ''prepared'' \<or> os_Stage settings = ''finalized''
       then and_then (enqueueDigestJob V (FinalizeJob occurrenceID) D) (\<lambda>D'. Inr (D', ()))
       else prepare_new V occurrenceID i settings now D))"

section \<open>Finalization\<close>

definition selectFrozenWindow :: "digest_env \<Rightarrow> digest_db \<Rightarrow> string \<Rightarrow> digest_error + (time \<times> time \<times> bool)" where
  "selectFrozenWindow V D i =
     (case find_occurrence_row D i of
        None \<Rightarrow> Inl (DigestQuery ''select frozen digest window'')
      | Some oc \<Rightarrow>
          (case (md_windowStart (oc_metadata oc), md_windowEnd (oc_metadata oc)) of
             (Some ws, Some we) \<Rightarrow>
               Inr (pg_time (ev_pg V) ws, pg_time (ev_pg V) we,
                    (case md_backlogWindow (oc_metadata oc) of None \<Rightarrow> False | Some b \<Rightarrow> b))
           | _ \<Rightarrow> Inl (DigestQuery ''select frozen digest window'')))"

definition loadEligibleCandidates :: "digest_env \<Rightarrow> digest_db \<Rightarrow> string \<Rightarrow> occurrence_settings \<Rightarrow> time \<Rightarrow> digest_candidate list" where
  "loadEligibleCandidates V D i settings now =
     map cap_snapshot (sort_key (\<lambda>r. (cap_type r, cap_candidate_id r))
       (filter (\<lambda>r. cap_occurrence_id r = i \<and> ev_eligible V settings now r) (ddb_candidates D)))"

text \<open>The dashboard and the schedule's channels, sorted, each once.\<close>

definition digest_channels :: "occurrence_settings \<Rightarrow> digest_candidate list \<Rightarrow> string list" where
  "digest_channels settings selected =
     (let channels = (if os_ExternalDelivery settings then ''dashboard'' # os_Channels settings else [''dashboard'']);
          channels = remdups_adj (sort channels)
      in if selected = [] \<and> os_EmptyBehavior settings \<noteq> ''all_clear'' then [''dashboard''] else channels)"

definition completion_ok :: "string \<Rightarrow> time option \<Rightarrow> bool" where
  "completion_ok st completed \<longleftrightarrow>
     (st \<in> {''delivered'', ''skipped''} \<and> completed \<noteq> None) \<or> (st \<in> {''ready'', ''delivering'', ''failed''} \<and> completed = None)"

text \<open>The constraints of \<open>app.digests\<close>: the checks of the row and its three unique keys.\<close>

definition digest_row_ok :: "digest_row \<Rightarrow> bool" where
  "digest_row_ok d \<longleftrightarrow>
     dg_channel d \<in> {''dashboard'', ''discord'', ''email''} \<and> dg_state d \<in> {''ready'', ''delivering'', ''delivered'', ''skipped'', ''failed''}
     \<and> dg_item_limit d \<in> {5, 10, 15, 20} \<and> flt_le (Fin 0) (dg_minimum_score d) \<and> flt_le (dg_minimum_score d) (Fin 1)
     \<and> dg_empty_behavior d \<in> {''send_nothing'', ''all_clear'', ''dashboard_only''}
     \<and> 1 \<le> rune_count (dg_executive_summary d) \<and> rune_count (dg_executive_summary d) \<le> 2000
     \<and> length (dg_payload_sha256 d) = 32 \<and> 16 \<le> rune_count (dg_idempotency_key d) \<and> rune_count (dg_idempotency_key d) \<le> 255
     \<and> dg_window_start d < dg_window_end d \<and> completion_ok (dg_state d) (dg_completed_at d)
     \<and> (case dg_error_code d of None \<Rightarrow> True | Some e \<Rightarrow> 1 \<le> rune_count e \<and> rune_count e \<le> 120)"

definition digest_keys_free :: "digest_db \<Rightarrow> digest_row \<Rightarrow> bool" where
  "digest_keys_free D d \<longleftrightarrow>
     list_all (\<lambda>e. dg_id e \<noteq> dg_id d
       \<and> (dg_user_id e, dg_local_date e, dg_channel e) \<noteq> (dg_user_id d, dg_local_date d, dg_channel d)
       \<and> (dg_occurrence_id e, dg_channel e) \<noteq> (dg_occurrence_id d, dg_channel d)
       \<and> dg_idempotency_key e \<noteq> dg_idempotency_key d) (ddb_digests D)"

definition insert_digest :: "digest_row \<Rightarrow> digest_db \<Rightarrow> digest_error + digest_db" where
  "insert_digest d D =
     (if digest_row_ok d \<and> digest_keys_free D d
      then Inr (D\<lparr>ddb_digests := ddb_digests D @ [d], ddb_seq := ddb_seq D + 1\<rparr>)
      else Inl (DigestQuery ''persist immutable digest''))"

definition insert_item :: "digest_env \<Rightarrow> string \<Rightarrow> nat \<Rightarrow> digest_candidate \<Rightarrow> digest_db \<Rightarrow> digest_error + digest_db" where
  "insert_item V i position c D =
     (case ev_candidate_json V c of
        None \<Rightarrow> Inl (DigestQuery ''encode selected digest item'')
      | Some snapshot \<Rightarrow>
          if \<not> candidate_columns_ok (dc_Type c) (dc_Score c) (dc_Category c) (dc_Reason c) \<or> position > 19
          then Inl (DigestQuery ''persist selected digest item'')
          else Inr (D\<lparr>ddb_items := ddb_items D @ [\<lparr>it_digest_id = i, it_sort_order = position, it_snapshot = snapshot\<rparr>]\<rparr>))"

fun insert_items :: "digest_env \<Rightarrow> string \<Rightarrow> nat \<Rightarrow> digest_candidate list \<Rightarrow> digest_db \<Rightarrow> digest_error + digest_db" where
  "insert_items V i position [] D = Inr D"
| "insert_items V i position (c # cs) D =
     and_then (insert_item V i position c D) (\<lambda>D'. insert_items V i (position + 1) cs D')"

definition insert_attempt :: "attempt_row \<Rightarrow> digest_db \<Rightarrow> digest_error + digest_db" where
  "insert_attempt a D =
     (if at_channel a \<in> {''discord'', ''email''}
         \<and> list_all (\<lambda>b. (at_digest_id b, at_channel b) \<noteq> (at_digest_id a, at_channel a) \<and> at_idempotency_key b \<noteq> at_idempotency_key a)
             (ddb_attempts D)
      then Inr (D\<lparr>ddb_attempts := ddb_attempts D @ [a]\<rparr>)
      else Inl (DigestQuery ''create digest delivery ledger''))"

text \<open>What is the same for all channels of one run.\<close>

record frozen_digest =
  fz_occurrence_text :: string
  fz_occurrence_id :: string
  fz_settings :: occurrence_settings
  fz_windowStart :: time
  fz_windowEnd :: time
  fz_generatedAt :: time
  fz_summary :: string
  fz_selected :: "digest_candidate list"

definition digest_entry ::
    "digest_env \<Rightarrow> frozen_digest \<Rightarrow> string \<Rightarrow> digest_payload \<Rightarrow> digest_payload \<Rightarrow> string \<Rightarrow> digest_db \<Rightarrow> digest_row" where
  "digest_entry V z channel payload stored hash D =
     (let E = ev_pg V; generated = pg_time E (fz_generatedAt z); settings = fz_settings z in
      \<lparr>dg_id = uuid_v7 E (ddb_seq D), dg_user_id = os_UserID settings, dg_occurrence_id = fz_occurrence_id z,
       dg_local_date = os_LocalDate settings, dg_window_start = fz_windowStart z, dg_window_end = fz_windowEnd z, dg_channel = channel,
       dg_state = (if channel = ''dashboard'' then ''delivered'' else ''ready''), dg_item_limit = os_MaximumItems settings,
       dg_minimum_score = os_MinimumScore settings, dg_empty_behavior = os_EmptyBehavior settings,
       dg_executive_summary = pl_ExecutiveSummary payload, dg_payload = stored, dg_payload_sha256 = hash,
       dg_idempotency_key = ''digest:'' @ fz_occurrence_text z @ '':'' @ channel, dg_generated_at = generated,
       dg_completed_at = (if channel = ''dashboard'' then Some generated else None), dg_error_code = None\<rparr>)"

definition pending_attempt :: "digest_row \<Rightarrow> attempt_row" where
  "pending_attempt d =
     \<lparr>at_digest_id = dg_id d, at_channel = dg_channel d, at_provider_id = None, at_idempotency_key = dg_idempotency_key d,
      at_state = ''pending'', at_count = 0, at_payload_sha256 = dg_payload_sha256 d, at_attempted_at = None,
      at_completed_at = None, at_error_code = None\<rparr>"

definition persist_digest :: "digest_env \<Rightarrow> digest_row \<Rightarrow> digest_candidate list \<Rightarrow> digest_db \<Rightarrow> digest_error + digest_db" where
  "persist_digest V d selected D =
     and_then (insert_digest d D) (\<lambda>D1.
     and_then (insert_items V (dg_id d) 0 selected D1) (\<lambda>D2.
       if dg_channel d = ''dashboard'' then Inr D2
       else and_then (insert_attempt (pending_attempt d) D2) (enqueueDigestJob V (DeliverJob (dg_id d)))))"

definition finalize_channel :: "digest_env \<Rightarrow> frozen_digest \<Rightarrow> string \<Rightarrow> digest_db \<Rightarrow> digest_error + digest_db" where
  "finalize_channel V z channel D =
     (if channel \<notin> {''dashboard'', ''discord'', ''email''} then Inl DigestInvalid
      else (case Render (ev_marshal V) (ev_sha256 V)
          \<lparr>in_Channel = channel, in_LocalDate = os_LocalDate (fz_settings z), in_WindowStart = fz_windowStart z,
           in_WindowEnd = fz_windowEnd z, in_GeneratedAt = fz_generatedAt z, in_ExecutiveSummary = fz_summary z,
           in_Items = fz_selected z\<rparr> of
        Inl e \<Rightarrow> Inl (DigestQuery e)
      | Inr (payload, hash) \<Rightarrow>
          (case ev_payload_json V payload of
             None \<Rightarrow> Inl (DigestQuery ''encode immutable digest payload'')
           | Some stored \<Rightarrow> persist_digest V (digest_entry V z channel payload stored hash D) (fz_selected z) D)))"

fun finalize_channels :: "digest_env \<Rightarrow> frozen_digest \<Rightarrow> string list \<Rightarrow> digest_db \<Rightarrow> digest_error + digest_db" where
  "finalize_channels V z [] D = Inr D"
| "finalize_channels V z (c # cs) D = and_then (finalize_channel V z c D) (\<lambda>D'. finalize_channels V z cs D')"

fun enqueue_all :: "digest_env \<Rightarrow> digest_job list \<Rightarrow> digest_db \<Rightarrow> digest_error + digest_db" where
  "enqueue_all V [] D = Inr D"
| "enqueue_all V (j # js) D = and_then (enqueueDigestJob V j D) (\<lambda>D'. enqueue_all V js D')"

definition ready_digests :: "digest_db \<Rightarrow> string \<Rightarrow> digest_row list" where
  "ready_digests D i =
     sort_key dg_channel (filter (\<lambda>d. dg_occurrence_id d = i \<and> dg_channel d \<noteq> ''dashboard'' \<and> dg_state d = ''ready'') (ddb_digests D))"

definition resumeFinalized :: "digest_env \<Rightarrow> string \<Rightarrow> digest_db \<Rightarrow> digest_error + (digest_db \<times> unit)" where
  "resumeFinalized V i D =
     and_then (enqueue_all V (map (\<lambda>d. DeliverJob (dg_id d)) (ready_digests D i)) D) (\<lambda>D'. Inr (D', ()))"

definition backlog_summary :: "bool \<Rightarrow> nat \<Rightarrow> string" where
  "backlog_summary backlog n =
     (if backlog then itoa (int n) @ '' evidence-backed changes are ready for review from an extended window; the remaining candidates stay available in Search.''
      else [])"

definition finalized_row :: "digest_env \<Rightarrow> time \<Rightarrow> nat \<Rightarrow> nat \<Rightarrow> digest_occurrence \<Rightarrow> digest_occurrence" where
  "finalized_row V now selected external r =
     r\<lparr>oc_state := (if external > 0 then ''ready'' else ''delivered''),
       oc_completed_at := (if external > 0 then None else Some (pg_time (ev_pg V) now)), oc_error_code := None,
       oc_metadata := (oc_metadata r)\<lparr>md_digestStage := Some ''finalized'', md_finalizedAt := Some now,
         md_selectedCount := Some selected, md_externalDeliveryCount := Some external\<rparr>\<rparr>"

definition external_count :: "string list \<Rightarrow> nat" where
  "external_count channels = length (filter (\<lambda>c. c \<noteq> ''dashboard'') channels)"

definition finalize_new ::
    "digest_env \<Rightarrow> string \<Rightarrow> string \<Rightarrow> occurrence_settings \<Rightarrow> time \<Rightarrow> time \<times> time \<times> bool \<Rightarrow> digest_db \<Rightarrow> digest_error + (digest_db \<times> unit)" where
  "finalize_new V occurrenceID i settings now w D =
     (case w of (windowStart, windowEnd, backlog) \<Rightarrow>
      let selected = Select (ev_sort V) (loadEligibleCandidates V D i settings now) (os_MaximumItems settings) (os_MinimumScore settings);
          channels = digest_channels settings selected;
          z = \<lparr>fz_occurrence_text = occurrenceID, fz_occurrence_id = i, fz_settings = settings, fz_windowStart = windowStart,
               fz_windowEnd = windowEnd, fz_generatedAt = now, fz_summary = backlog_summary backlog (length selected),
               fz_selected = selected\<rparr>
      in and_then (finalize_channels V z channels D) (\<lambda>D1.
           Inr (update_occurrence_row i (finalized_row V now (length selected) (external_count channels)) D1, ())))"

definition finalize :: "digest_env \<Rightarrow> string \<Rightarrow> time \<Rightarrow> digest_db \<Rightarrow> digest_error + (digest_db \<times> unit)" where
  "finalize V occurrenceID now D =
     and_then (uuid_param V occurrenceID) (\<lambda>i.
     and_then (selectOccurrenceSettings D i) (\<lambda>settings.
       if terminalOccurrence (os_State settings) then Inr (D, ())
       else if \<exists>d\<in>set (ddb_digests D). dg_occurrence_id d = i then resumeFinalized V i D
       else if os_Stage settings \<noteq> ''prepared'' then Inl DigestConflict
       else and_then (selectFrozenWindow V D i) (\<lambda>w. finalize_new V occurrenceID i settings now w D)))"

section \<open>Delivery\<close>

record digest_delivery =
  dl_DigestID :: string
  dl_OccurrenceID :: string
  dl_Channel :: string
  dl_Attempt :: int
  dl_IdempotencyKey :: string
  dl_LocalDate :: string
  dl_ScheduledFor :: time
  dl_Payload :: digest_payload
  dl_PayloadSHA256 :: string

definition find_digest :: "digest_db \<Rightarrow> string \<Rightarrow> digest_row option" where
  "find_digest D i = find (\<lambda>d. dg_id d = i) (ddb_digests D)"

text \<open>The writes of a claim and the request it hands to the sender.\<close>

definition claim_writes :: "digest_env \<Rightarrow> digest_row \<Rightarrow> time \<Rightarrow> digest_db \<Rightarrow> digest_db" where
  "claim_writes V d now D =
     update_occurrence_row (dg_occurrence_id d) (\<lambda>r. r\<lparr>oc_state := ''delivering'', oc_completed_at := None, oc_error_code := None\<rparr>)
    (update_digest_row (dg_id d) (\<lambda>e. e\<lparr>dg_state := ''delivering'', dg_completed_at := None, dg_error_code := None\<rparr>)
    (update_attempt_rows (\<lambda>b. at_digest_id b = dg_id d \<and> at_channel b = dg_channel d)
       (\<lambda>b. b\<lparr>at_state := ''delivering'', at_count := at_count b + 1, at_attempted_at := Some (pg_time (ev_pg V) now),
              at_completed_at := None, at_error_code := None\<rparr>) D))"

definition delivery_request :: "digest_row \<Rightarrow> digest_occurrence \<Rightarrow> attempt_row \<Rightarrow> digest_delivery" where
  "delivery_request d oc a =
     \<lparr>dl_DigestID = dg_id d, dl_OccurrenceID = dg_occurrence_id d, dl_Channel = dg_channel d, dl_Attempt = at_count a + 1,
      dl_IdempotencyKey = dg_idempotency_key d, dl_LocalDate = dg_local_date d, dl_ScheduledFor = oc_scheduled_for oc,
      dl_Payload = dg_payload d, dl_PayloadSHA256 = dg_payload_sha256 d\<rparr>"

definition beginDelivery ::
    "digest_env \<Rightarrow> string \<Rightarrow> time \<Rightarrow> digest_db \<Rightarrow> digest_error + (digest_db \<times> digest_delivery option)" where
  "beginDelivery V digestID now D =
     and_then (uuid_param V digestID) (\<lambda>i.
       case find_digest D i of
         None \<Rightarrow> Inl DigestNotFound
       | Some d \<Rightarrow>
           (case find_occurrence_row D (dg_occurrence_id d) of
              None \<Rightarrow> Inl DigestNotFound
            | Some oc \<Rightarrow>
                if dg_channel d = ''dashboard'' then Inl DigestInvalid
                else if dg_state d = ''delivered'' \<or> dg_state d = ''skipped'' then Inr (D, None)
                else (case find (\<lambda>a. at_digest_id a = dg_id d \<and> at_channel a = dg_channel d) (ddb_attempts D) of
                   None \<Rightarrow> Inl (DigestQuery ''claim digest delivery attempt'')
                 | Some a \<Rightarrow>
                     if at_count a \<ge> 2 ^ 31 - 1 then Inl (DigestQuery ''claim digest delivery attempt'')
                     else Inr (claim_writes V d now D, Some (delivery_request d oc a)))))"

definition completion_writes :: "digest_env \<Rightarrow> digest_row \<Rightarrow> string \<Rightarrow> time \<Rightarrow> digest_db \<Rightarrow> digest_db" where
  "completion_writes V d providerID now D =
     update_digest_row (dg_id d) (\<lambda>e. e\<lparr>dg_state := ''delivered'', dg_completed_at := Some (pg_time (ev_pg V) now), dg_error_code := None\<rparr>)
    (update_attempt_rows (\<lambda>b. at_digest_id b = dg_id d \<and> at_channel b = dg_channel d)
       (\<lambda>b. b\<lparr>at_provider_id := Some providerID, at_state := ''delivered'', at_completed_at := Some (pg_time (ev_pg V) now),
              at_error_code := None\<rparr>) D)"

definition incomplete :: "digest_row \<Rightarrow> digest_db \<Rightarrow> bool" where
  "incomplete d D \<longleftrightarrow>
     (\<exists>e\<in>set (ddb_digests D). dg_occurrence_id e = dg_occurrence_id d \<and> dg_channel e \<noteq> ''dashboard'' \<and> dg_state e \<noteq> ''delivered'')"

definition completeDelivery :: "digest_env \<Rightarrow> string \<Rightarrow> string \<Rightarrow> time \<Rightarrow> digest_db \<Rightarrow> digest_error + (digest_db \<times> unit)" where
  "completeDelivery V digestID providerID now D =
     and_then (uuid_param V digestID) (\<lambda>i.
       case find_digest D i of
         None \<Rightarrow> Inl DigestNotFound
       | Some d \<Rightarrow>
           if dg_state d = ''delivered'' then Inr (D, ())
           else
             (let D1 = completion_writes V d providerID now D
              in if incomplete d D1 then Inr (D1, ())
                 else Inr (update_occurrence_row (dg_occurrence_id d)
                        (\<lambda>r. r\<lparr>oc_state := ''delivered'', oc_completed_at := Some (pg_time (ev_pg V) now), oc_error_code := None\<rparr>) D1, ())))"

definition boundedErrorCode :: "string \<Rightarrow> string" where
  "boundedErrorCode v = (let v = trim_space v in if v = [] then ''delivery_failed'' else if length v > 120 then take 120 v else v)"

definition failDelivery :: "digest_env \<Rightarrow> string \<Rightarrow> string \<Rightarrow> time \<Rightarrow> digest_db \<Rightarrow> digest_error + (digest_db \<times> unit)" where
  "failDelivery V digestID errorCode now D =
     and_then (uuid_param V digestID) (\<lambda>i.
       case find_digest D i of
         None \<Rightarrow> Inl DigestNotFound
       | Some d \<Rightarrow>
           (let errorCode = boundedErrorCode errorCode;
                D1 = update_attempt_rows (\<lambda>b. at_digest_id b = i \<and> at_channel b = dg_channel d)
                  (\<lambda>b. b\<lparr>at_state := ''failed'', at_completed_at := None, at_error_code := Some errorCode\<rparr>) D;
                D2 = update_digest_row i (\<lambda>e. e\<lparr>dg_state := ''failed'', dg_completed_at := None, dg_error_code := Some errorCode\<rparr>) D1
            in Inr (update_occurrence_row (dg_occurrence_id d)
                 (\<lambda>r. r\<lparr>oc_state := ''failed'', oc_completed_at := None, oc_error_code := Some errorCode\<rparr>) D2, ())))"

definition retry_writes :: "digest_row \<Rightarrow> digest_db \<Rightarrow> digest_db" where
  "retry_writes d D =
     update_attempt_rows (\<lambda>b. at_digest_id b = dg_id d)
       (\<lambda>b. b\<lparr>at_provider_id := None, at_state := ''pending'', at_completed_at := None, at_error_code := None\<rparr>)
    (update_digest_row (dg_id d) (\<lambda>e. e\<lparr>dg_state := ''ready'', dg_completed_at := None, dg_error_code := None\<rparr>) D)"

definition retry_metadata :: "digest_row \<Rightarrow> time \<Rightarrow> string \<times> string \<times> time" where
  "retry_metadata d now = (dg_channel d, dg_payload_sha256 d, now)"

definition retryDelivery :: "digest_env \<Rightarrow> string \<Rightarrow> string \<Rightarrow> time \<Rightarrow> digest_db \<Rightarrow> digest_error + (digest_db \<times> unit)" where
  "retryDelivery V userID digestID now D =
     and_then (uuid_param V digestID) (\<lambda>i.
     and_then (uuid_param V userID) (\<lambda>user.
       case find (\<lambda>d. dg_id d = i \<and> dg_user_id d = user) (ddb_digests D) of
         None \<Rightarrow> Inl DigestNotFound
       | Some d \<Rightarrow>
           if dg_channel d = ''dashboard'' \<or> dg_state d \<noteq> ''failed'' then Inl DigestConflict
           else and_then (enqueueDigestJob V (DeliverJob digestID) (retry_writes d D)) (\<lambda>D'.
                  Inr (D'\<lparr>ddb_events := ddb_events D' @ [Audit_retried userID digestID (retry_metadata d now),
                        Outbox_retried user (retry_metadata d now)]\<rparr>, ()))))"

section \<open>Retries and the delivery job\<close>

text \<open>
  \<open>retrySerializableValue\<close>: at most five attempts, each a transaction of its own. An attempt may meet a
  serialization failure; other transactions may commit between two attempts (\<open>others\<close>), and the
  context may end while the loop waits (\<open>canceled\<close>).
\<close>

datatype attempt_fate = Serialization_failure | Attempt tx_fate

record surroundings =
  su_fate :: "nat \<Rightarrow> attempt_fate"
  su_others :: "nat \<Rightarrow> digest_db \<Rightarrow> digest_db"
  su_canceled :: "nat \<Rightarrow> bool"

definition attempt_tx ::
    "attempt_fate \<Rightarrow> (digest_db \<Rightarrow> digest_error + (digest_db \<times> 'a)) \<Rightarrow> digest_db \<Rightarrow> (digest_error + 'a) \<times> digest_db" where
  "attempt_tx fate body D =
     (case fate of Serialization_failure \<Rightarrow> (Inl DigestSerialization, D)
      | Attempt f \<Rightarrow> run_tx f (DigestQuery ''transaction'') body D)"

fun serializable_from ::
    "nat \<Rightarrow> nat \<Rightarrow> surroundings \<Rightarrow> (digest_db \<Rightarrow> digest_error + (digest_db \<times> 'a)) \<Rightarrow> digest_db \<Rightarrow> (digest_error + 'a) \<times> digest_db" where
  "serializable_from 0 attempt su body D = attempt_tx (su_fate su attempt) body (su_others su attempt D)"
| "serializable_from (Suc left) attempt su body D =
     (case attempt_tx (su_fate su attempt) body (su_others su attempt D) of (r, D') \<Rightarrow>
        if r \<noteq> Inl DigestSerialization then (r, D')
        else if su_canceled su attempt then (Inl DigestCanceled, D')
        else serializable_from left (attempt + 1) su body D')"

definition serializableAttempts :: nat where
  "serializableAttempts = 5"

definition retrySerializableValue ::
    "surroundings \<Rightarrow> (digest_db \<Rightarrow> digest_error + (digest_db \<times> 'a)) \<Rightarrow> digest_db \<Rightarrow> (digest_error + 'a) \<times> digest_db" where
  "retrySerializableValue su body D = serializable_from (serializableAttempts - 1) 0 su body D"

definition BeginDelivery ::
    "digest_env \<Rightarrow> surroundings \<Rightarrow> string \<Rightarrow> time \<Rightarrow> digest_db \<Rightarrow> (digest_error + digest_delivery option) \<times> digest_db" where
  "BeginDelivery V su digestID now D = retrySerializableValue su (beginDelivery V digestID now) D"

definition CompleteDelivery :: "digest_env \<Rightarrow> surroundings \<Rightarrow> string \<Rightarrow> string \<Rightarrow> time \<Rightarrow> digest_db \<Rightarrow> (digest_error + unit) \<times> digest_db" where
  "CompleteDelivery V su digestID receipt now D =
     (let providerID = trim_space receipt in
      if providerID = [] \<or> length providerID > 255 then (Inl DigestInvalid, D)
      else retrySerializableValue su (completeDelivery V digestID providerID now) D)"

definition FailDelivery :: "digest_env \<Rightarrow> tx_fate \<Rightarrow> string \<Rightarrow> string \<Rightarrow> time \<Rightarrow> digest_db \<Rightarrow> (digest_error + unit) \<times> digest_db" where
  "FailDelivery V fate digestID errorCode now D =
     run_tx fate (DigestQuery ''transaction'') (failDelivery V digestID errorCode now) D"

datatype job_result = JobDone | JobRetry | JobCancel

definition mapDigestWorkflowError :: "digest_error \<Rightarrow> job_result" where
  "mapDigestWorkflowError e = (if e \<in> {DigestInvalid, DigestNotFound, DigestConflict} then JobCancel else JobRetry)"

text \<open>
  The delivery job. \<open>send\<close> is the sender: a receipt, or an error that may be permanent. The last
  component lists what was sent.
\<close>

definition deliverDigestWork ::
    "digest_env \<Rightarrow> surroundings \<Rightarrow> surroundings \<Rightarrow> tx_fate \<Rightarrow> (digest_delivery \<Rightarrow> bool + string) \<Rightarrow> string \<Rightarrow> time \<Rightarrow> time \<Rightarrow> digest_db
      \<Rightarrow> job_result \<times> digest_db \<times> digest_delivery list" where
  "deliverDigestWork V su1 su2 fate send digestID now now2 D =
     (case BeginDelivery V su1 digestID now D of
        (Inl e, D1) \<Rightarrow> (mapDigestWorkflowError e, D1, [])
      | (Inr None, D1) \<Rightarrow> (JobDone, D1, [])
      | (Inr (Some request), D1) \<Rightarrow>
          (case send request of
             Inl permanent \<Rightarrow>
               (case FailDelivery V fate (dl_DigestID request)
                       (if permanent then ''delivery_provider_rejected'' else ''delivery_provider_unavailable'') now2 D1 of
                  (Inl _, D2) \<Rightarrow> (JobRetry, D2, [request])
                | (Inr _, D2) \<Rightarrow> (if permanent then JobCancel else JobRetry, D2, [request]))
           | Inr receipt \<Rightarrow>
               (case CompleteDelivery V su2 (dl_DigestID request) receipt now2 D1 of
                  (Inl _, D2) \<Rightarrow> (JobRetry, D2, [request])
                | (Inr _, D2) \<Rightarrow> (JobDone, D2, [request]))))"

section \<open>Invariants\<close>

text \<open>A digest without its delivery state: what no transaction may change.\<close>

definition frozen :: "digest_row \<Rightarrow> digest_row" where
  "frozen d = d\<lparr>dg_state := [], dg_completed_at := None, dg_error_code := None\<rparr>"

definition state_pairs :: "(string \<times> string) set" where
  "state_pairs = {(''ready'', ''pending''), (''delivering'', ''delivering''), (''delivered'', ''delivered''), (''failed'', ''failed'')}"

definition attempt_matches :: "digest_row \<Rightarrow> attempt_row \<Rightarrow> bool" where
  "attempt_matches d a \<longleftrightarrow>
     at_digest_id a = dg_id d \<and> at_channel a = dg_channel d \<and> at_idempotency_key a = dg_idempotency_key d
     \<and> at_payload_sha256 a = dg_payload_sha256 d \<and> (dg_state d, at_state a) \<in> state_pairs
     \<and> (at_state a = ''delivered'' \<longleftrightarrow> at_completed_at a \<noteq> None) \<and> (at_state a = ''delivered'' \<longrightarrow> at_provider_id a \<noteq> None)"

definition attempts_of :: "digest_db \<Rightarrow> string \<Rightarrow> attempt_row list" where
  "attempts_of D i = filter (\<lambda>a. at_digest_id a = i) (ddb_attempts D)"

definition keys_ok :: "digest_row list \<Rightarrow> bool" where
  "keys_ok ds \<longleftrightarrow> distinct (map dg_id ds) \<and> distinct (map (\<lambda>d. (dg_occurrence_id d, dg_channel d)) ds)"

definition has_dashboard :: "digest_row list \<Rightarrow> bool" where
  "has_dashboard ds \<longleftrightarrow> (\<forall>d\<in>set ds. \<exists>e\<in>set ds. dg_occurrence_id e = dg_occurrence_id d \<and> dg_channel e = ''dashboard'')"

definition ledger_ok :: "digest_db \<Rightarrow> bool" where
  "ledger_ok D \<longleftrightarrow>
     (\<forall>d\<in>set (ddb_digests D). digest_row_ok d
        \<and> (if dg_channel d = ''dashboard'' then dg_state d = ''delivered'' \<and> attempts_of D (dg_id d) = []
           else \<exists>a. attempts_of D (dg_id d) = [a] \<and> attempt_matches d a))"

definition foreign_ok :: "digest_db \<Rightarrow> bool" where
  "foreign_ok D \<longleftrightarrow> (\<forall>a\<in>set (ddb_attempts D). at_digest_id a \<in> dg_id ` set (ddb_digests D))
     \<and> (\<forall>t\<in>set (ddb_items D). it_digest_id t \<in> dg_id ` set (ddb_digests D))"

definition occurrences_ok :: "digest_db \<Rightarrow> bool" where
  "occurrences_ok D \<longleftrightarrow> distinct (map oc_id (ddb_occurrences D))
     \<and> (\<forall>oc\<in>set (ddb_occurrences D). oc_state oc = ''delivered'' \<longrightarrow>
          (\<forall>d\<in>set (ddb_digests D). dg_occurrence_id d = oc_id oc \<longrightarrow> dg_state d = ''delivered''))"

definition core_inv :: "digest_db \<Rightarrow> bool" where
  "core_inv D \<longleftrightarrow> keys_ok (ddb_digests D) \<and> ledger_ok D \<and> foreign_ok D \<and> occurrences_ok D"

definition digest_inv :: "digest_db \<Rightarrow> bool" where
  "digest_inv D \<longleftrightarrow> core_inv D \<and> has_dashboard (ddb_digests D)"

text \<open>What a transaction may do to frozen data: append digests, and append items of new digests only.\<close>

definition keeps_frozen :: "digest_db \<Rightarrow> digest_db \<Rightarrow> bool" where
  "keeps_frozen D D' \<longleftrightarrow>
     (\<exists>new. map frozen (ddb_digests D') = map frozen (ddb_digests D) @ new)
     \<and> (\<exists>items. ddb_items D' = ddb_items D @ items \<and> (\<forall>t\<in>set items. it_digest_id t \<notin> dg_id ` set (ddb_digests D)))"

lemma frozen_sel [simp]:
  "dg_id (frozen d) = dg_id d" "dg_occurrence_id (frozen d) = dg_occurrence_id d" "dg_channel (frozen d) = dg_channel d"
  "dg_payload (frozen d) = dg_payload d" "dg_payload_sha256 (frozen d) = dg_payload_sha256 d"
  "dg_idempotency_key (frozen d) = dg_idempotency_key d"
  by (simp_all add: frozen_def)

lemma map_frozen:
  assumes "map frozen ds = map frozen es"
  shows "map dg_id ds = map dg_id es" "map (\<lambda>d. (dg_occurrence_id d, dg_channel d)) ds = map (\<lambda>d. (dg_occurrence_id d, dg_channel d)) es"
proof -
  have "map (f \<circ> frozen) ds = map (f \<circ> frozen) es" for f :: "digest_row \<Rightarrow> 'x" using assms by (metis map_map)
  from this [of dg_id] this [of "\<lambda>d. (dg_occurrence_id d, dg_channel d)"]
  show "map dg_id ds = map dg_id es" "map (\<lambda>d. (dg_occurrence_id d, dg_channel d)) ds = map (\<lambda>d. (dg_occurrence_id d, dg_channel d)) es"
    by (simp_all add: comp_def)
qed

lemma keeps_frozen_refl: "keeps_frozen D D"
  by (auto simp: keeps_frozen_def)

lemma keeps_frozen_same:
  "map frozen (ddb_digests D') = map frozen (ddb_digests D) \<Longrightarrow> ddb_items D' = ddb_items D \<Longrightarrow> keeps_frozen D D'"
  by (auto simp: keeps_frozen_def)

lemma keeps_frozen_trans:
  assumes "keeps_frozen D D'" "keeps_frozen D' D''"
  shows "keeps_frozen D D''"
proof -
  obtain n1 i1 n2 i2 where 1: "map frozen (ddb_digests D') = map frozen (ddb_digests D) @ n1" "ddb_items D' = ddb_items D @ i1"
      "\<forall>t\<in>set i1. it_digest_id t \<notin> dg_id ` set (ddb_digests D)"
    and 2: "map frozen (ddb_digests D'') = map frozen (ddb_digests D') @ n2" "ddb_items D'' = ddb_items D' @ i2"
      "\<forall>t\<in>set i2. it_digest_id t \<notin> dg_id ` set (ddb_digests D')"
    using assms unfolding keeps_frozen_def by blast
  have "dg_id ` frozen ` set (ddb_digests D) \<subseteq> dg_id ` frozen ` set (ddb_digests D')"
    using arg_cong [OF 1(1), of set] by auto
  then have "dg_id ` set (ddb_digests D) \<subseteq> dg_id ` set (ddb_digests D')" by (simp add: image_image)
  then show ?thesis
    unfolding keeps_frozen_def using 1 2 by (intro conjI exI [of _ "n1 @ n2"] exI [of _ "i1 @ i2"]) auto
qed

lemma find_digest_Some: "find_digest D i = Some d \<Longrightarrow> d \<in> set (ddb_digests D) \<and> dg_id d = i"
  by (auto simp: find_digest_def find_Some_iff)

lemma ledger_external:
  "ledger_ok D \<Longrightarrow> d \<in> set (ddb_digests D) \<Longrightarrow> dg_channel d \<noteq> ''dashboard''
   \<Longrightarrow> digest_row_ok d \<and> (\<exists>a. attempts_of D (dg_id d) = [a] \<and> attempt_matches d a)"
  by (auto simp: ledger_ok_def)

lemma ledger_dashboard:
  "ledger_ok D \<Longrightarrow> d \<in> set (ddb_digests D) \<Longrightarrow> dg_channel d = ''dashboard''
   \<Longrightarrow> digest_row_ok d \<and> dg_state d = ''delivered'' \<and> attempts_of D (dg_id d) = []"
  by (auto simp: ledger_ok_def)

lemma has_dashboard_pairs:
  "has_dashboard ds \<longleftrightarrow> (\<forall>p\<in>set (map (\<lambda>d. (dg_occurrence_id d, dg_channel d)) ds).
     (fst p, ''dashboard'') \<in> set (map (\<lambda>d. (dg_occurrence_id d, dg_channel d)) ds))"
  unfolding has_dashboard_def set_map ball_simps(9) fst_conv image_iff prod.inject by metis

lemma frozen_eq_sel:
  assumes "frozen d = frozen e"
  shows "dg_id d = dg_id e" "dg_occurrence_id d = dg_occurrence_id e" "dg_channel d = dg_channel e"
    and "dg_payload d = dg_payload e" "dg_payload_sha256 d = dg_payload_sha256 e" "dg_idempotency_key d = dg_idempotency_key e"
  using arg_cong [OF assms, of dg_id] arg_cong [OF assms, of dg_occurrence_id] arg_cong [OF assms, of dg_channel]
    arg_cong [OF assms, of dg_payload] arg_cong [OF assms, of dg_payload_sha256] arg_cong [OF assms, of dg_idempotency_key] by simp_all

text \<open>
  One transition of an external digest: its state columns and its attempt row change together, and the
  occurrence is not called delivered too early. \<open>advance\<close> collects what the transactions change.
\<close>

definition advance ::
    "digest_row \<Rightarrow> (digest_row \<Rightarrow> digest_row) \<Rightarrow> (attempt_row \<Rightarrow> bool) \<Rightarrow> (attempt_row \<Rightarrow> attempt_row)
      \<Rightarrow> (digest_occurrence \<Rightarrow> digest_occurrence) \<Rightarrow> digest_db \<Rightarrow> digest_db \<Rightarrow> bool" where
  "advance d f P g h D D' \<longleftrightarrow>
     ddb_digests D' = map (\<lambda>e. if dg_id e = dg_id d then f e else e) (ddb_digests D)
     \<and> ddb_attempts D' = map (\<lambda>a. if P a then g a else a) (ddb_attempts D) \<and> ddb_items D' = ddb_items D
     \<and> ddb_occurrences D' = map (\<lambda>oc. if oc_id oc = dg_occurrence_id d then h oc else oc) (ddb_occurrences D)"

definition legal_change ::
    "digest_row \<Rightarrow> (digest_row \<Rightarrow> digest_row) \<Rightarrow> (attempt_row \<Rightarrow> bool) \<Rightarrow> (attempt_row \<Rightarrow> attempt_row)
      \<Rightarrow> (digest_occurrence \<Rightarrow> digest_occurrence) \<Rightarrow> bool" where
  "legal_change d f P g h \<longleftrightarrow>
     (\<forall>e. frozen (f e) = frozen e) \<and> digest_row_ok (f d) \<and> (\<forall>a. P a \<longrightarrow> at_digest_id a = dg_id d)
     \<and> (\<forall>a. attempt_matches d a \<longrightarrow> P a \<and> attempt_matches (f d) (g a)) \<and> (\<forall>a. at_digest_id (g a) = at_digest_id a)
     \<and> (\<forall>oc. oc_id (h oc) = oc_id oc)"

lemma advance_ledger:
  assumes "keys_ok (ddb_digests D)" "ledger_ok D" and d: "d \<in> set (ddb_digests D)" "dg_channel d \<noteq> ''dashboard''"
    and "legal_change d f P g h" "advance d f P g h D D'"
  shows "ledger_ok D'"
  unfolding ledger_ok_def
proof
  note L = assms(5) [unfolded legal_change_def] and A = assms(6) [unfolded advance_def]
  obtain a where a: "attempts_of D (dg_id d) = [a]" "attempt_matches d a" using ledger_external [OF assms(2) d] by blast
  have other: "attempts_of D' j = attempts_of D j" if "j \<noteq> dg_id d" for j
  proof -
    have "attempts_of D' j = map (\<lambda>a. if P a then g a else a) (attempts_of D j)"
      using A L by (simp add: attempts_of_def filter_map comp_def) (metis (no_types, lifting) filter_cong)
    also have "\<dots> = attempts_of D j" using that L by (intro map_idI) (auto simp: attempts_of_def)
    finally show ?thesis .
  qed
  have "attempts_of D' (dg_id d) = map (\<lambda>a. if P a then g a else a) (attempts_of D (dg_id d))"
    using A L by (simp add: attempts_of_def filter_map comp_def) (metis (no_types, lifting) filter_cong)
  then have own: "attempts_of D' (dg_id d) = [g a]" using a L by simp
  fix e' assume "e' \<in> set (ddb_digests D')"
  then obtain e where e: "e \<in> set (ddb_digests D)" "e' = (if dg_id e = dg_id d then f e else e)" using A by auto
  show "digest_row_ok e' \<and> (if dg_channel e' = ''dashboard'' then dg_state e' = ''delivered'' \<and> attempts_of D' (dg_id e') = []
         else \<exists>a. attempts_of D' (dg_id e') = [a] \<and> attempt_matches e' a)"
  proof (cases "dg_id e = dg_id d")
    case True
    then have "e = d" using assms(1) e(1) d(1) by (auto simp: keys_ok_def distinct_map inj_on_def)
    moreover have "dg_id (f d) = dg_id d" "dg_channel (f d) = dg_channel d" using L frozen_eq_sel [of "f d" d] by auto
    ultimately show ?thesis using e(2) own L a(2) d(2) by auto
  next
    case False
    then show ?thesis using e other [OF False] assms(2) by (simp add: ledger_ok_def)
  qed
qed

lemma advance_occurrences:
  assumes "keys_ok (ddb_digests D)" "occurrences_ok D" and d: "d \<in> set (ddb_digests D)"
    and "legal_change d f P g h" "advance d f P g h D D'"
    and fin: "\<And>oc. oc \<in> set (ddb_occurrences D) \<Longrightarrow> oc_id oc = dg_occurrence_id d \<Longrightarrow> oc_state (h oc) = ''delivered''
      \<Longrightarrow> \<forall>e\<in>set (ddb_digests D'). dg_occurrence_id e = dg_occurrence_id d \<longrightarrow> dg_state e = ''delivered''"
  shows "occurrences_ok D'"
proof -
  note L = assms(4) [unfolded legal_change_def] and A = assms(5) [unfolded advance_def]
  have dist: "map oc_id (ddb_occurrences D') = map oc_id (ddb_occurrences D)" using A L by simp
  have "dg_state e' = ''delivered''"
    if oc': "oc' \<in> set (ddb_occurrences D')" "oc_state oc' = ''delivered''" and e': "e' \<in> set (ddb_digests D')" "dg_occurrence_id e' = oc_id oc'"
    for oc' e'
  proof -
    obtain oc where oc: "oc \<in> set (ddb_occurrences D)" "oc' = (if oc_id oc = dg_occurrence_id d then h oc else oc)"
      using oc'(1) A by auto
    obtain e where e: "e \<in> set (ddb_digests D)" "e' = (if dg_id e = dg_id d then f e else e)" using e'(1) A by auto
    have fe: "dg_occurrence_id (f e) = dg_occurrence_id e" using L frozen_eq_sel(2) by blast
    show ?thesis
    proof (cases "oc_id oc = dg_occurrence_id d")
      case True
      then have "oc_state (h oc) = ''delivered''" "dg_occurrence_id e' = dg_occurrence_id d" using oc(2) oc'(2) e'(2) L by simp_all
      then show ?thesis using fin [OF oc(1) True] e'(1) by blast
    next
      case False
      then have occ: "dg_occurrence_id e = oc_id oc" using e(2) e'(2) oc(2) fe by (simp split: if_splits)
      have "e = d" if "dg_id e = dg_id d"
        using that assms(1) e(1) d by (simp add: keys_ok_def distinct_map inj_on_def)
      then have "e' = e" "oc' = oc" using False occ e(2) oc(2) by (metis, simp)
      then show ?thesis using e(1) oc(1) oc'(2) occ assms(2) by (simp add: occurrences_ok_def)
    qed
  qed
  moreover have "distinct (map oc_id (ddb_occurrences D'))" using assms(2) by (simp add: dist occurrences_ok_def)
  ultimately show ?thesis unfolding occurrences_ok_def by blast
qed

lemma transition:
  assumes inv: "core_inv D" and d: "d \<in> set (ddb_digests D)" "dg_channel d \<noteq> ''dashboard''"
    and L: "legal_change d f P g h" and A: "advance d f P g h D D'"
    and fin: "\<And>oc. oc \<in> set (ddb_occurrences D) \<Longrightarrow> oc_id oc = dg_occurrence_id d \<Longrightarrow> oc_state (h oc) = ''delivered''
      \<Longrightarrow> \<forall>e\<in>set (ddb_digests D'). dg_occurrence_id e = dg_occurrence_id d \<longrightarrow> dg_state e = ''delivered''"
  shows "core_inv D' \<and> keeps_frozen D D' \<and> (has_dashboard (ddb_digests D) \<longrightarrow> has_dashboard (ddb_digests D'))"
proof -
  have fr: "map frozen (ddb_digests D') = map frozen (ddb_digests D)" using L A by (simp add: legal_change_def advance_def)
  have items: "ddb_items D' = ddb_items D" using A by (simp add: advance_def)
  have ids: "dg_id ` set (ddb_digests D') = dg_id ` set (ddb_digests D)" using map_frozen(1) [OF fr] by (metis list.set_map)
  have "foreign_ok D'"
    using inv L A by (simp add: core_inv_def foreign_ok_def legal_change_def ids items) (auto simp: advance_def)
  moreover have "keys_ok (ddb_digests D')" using inv map_frozen [OF fr] by (simp add: core_inv_def keys_ok_def)
  moreover have "has_dashboard (ddb_digests D) \<longrightarrow> has_dashboard (ddb_digests D')"
    unfolding has_dashboard_pairs map_frozen(2) [OF fr] by simp
  ultimately show ?thesis
    using keeps_frozen_same [OF fr items] advance_ledger [OF _ _ d L A] advance_occurrences [OF _ _ d(1) L A fin] inv
    by (simp add: core_inv_def)
qed

lemma update_digest_row_sel [simp]:
  "ddb_digests (update_digest_row i f D) = map (\<lambda>d. if dg_id d = i then f d else d) (ddb_digests D)"
  "ddb_attempts (update_digest_row i f D) = ddb_attempts D" "ddb_items (update_digest_row i f D) = ddb_items D"
  "ddb_occurrences (update_digest_row i f D) = ddb_occurrences D"
  by (simp_all add: update_digest_row_def)

lemma update_attempt_rows_sel [simp]:
  "ddb_digests (update_attempt_rows P g D) = ddb_digests D"
  "ddb_attempts (update_attempt_rows P g D) = map (\<lambda>a. if P a then g a else a) (ddb_attempts D)"
  "ddb_items (update_attempt_rows P g D) = ddb_items D" "ddb_occurrences (update_attempt_rows P g D) = ddb_occurrences D"
  by (simp_all add: update_attempt_rows_def)

lemma update_occurrence_row_sel [simp]:
  "ddb_digests (update_occurrence_row i h D) = ddb_digests D" "ddb_attempts (update_occurrence_row i h D) = ddb_attempts D"
  "ddb_items (update_occurrence_row i h D) = ddb_items D"
  "ddb_occurrences (update_occurrence_row i h D) = map (\<lambda>oc. if oc_id oc = i then h oc else oc) (ddb_occurrences D)"
  by (simp_all add: update_occurrence_row_def)

lemma boundedErrorCode_length: "1 \<le> rune_count (boundedErrorCode e) \<and> rune_count (boundedErrorCode e) \<le> 120"
proof -
  have "boundedErrorCode e \<noteq> []" "length (boundedErrorCode e) \<le> 120" by (auto simp: boundedErrorCode_def Let_def)
  then show ?thesis using rune_count_pos [of "boundedErrorCode e"] rune_count_le [of "boundedErrorCode e"] by linarith
qed

text \<open>A sound change of the tables.\<close>

definition sound :: "digest_db \<Rightarrow> digest_db \<Rightarrow> bool" where
  "sound D D' \<longleftrightarrow> (core_inv D \<longrightarrow> core_inv D' \<and> keeps_frozen D D' \<and> (has_dashboard (ddb_digests D) \<longrightarrow> has_dashboard (ddb_digests D')))"

lemma sound_refl: "sound D D"
  by (simp add: sound_def keeps_frozen_refl)

lemma sound_inv: "sound D D' \<Longrightarrow> digest_inv D \<Longrightarrow> digest_inv D'"
  by (simp add: sound_def digest_inv_def)

lemma sound_transition:
  assumes "d \<in> set (ddb_digests D)" "dg_channel d \<noteq> ''dashboard''"
    and "core_inv D \<Longrightarrow> legal_change d f P g h" and "advance d f P g h D D'"
    and "\<And>oc. core_inv D \<Longrightarrow> oc \<in> set (ddb_occurrences D) \<Longrightarrow> oc_id oc = dg_occurrence_id d \<Longrightarrow> oc_state (h oc) = ''delivered''
      \<Longrightarrow> \<forall>e\<in>set (ddb_digests D'). dg_occurrence_id e = dg_occurrence_id d \<longrightarrow> dg_state e = ''delivered''"
  shows "sound D D'"
  unfolding sound_def using transition [OF _ assms(1,2) _ assms(4)] assms(3,5) by blast

lemma row_ok_change:
  "digest_row_ok d \<Longrightarrow> st \<in> {''ready'', ''delivering'', ''delivered'', ''failed''} \<Longrightarrow> completion_ok st c
   \<Longrightarrow> (case e of None \<Rightarrow> True | Some x \<Rightarrow> 1 \<le> rune_count x \<and> rune_count x \<le> 120)
   \<Longrightarrow> digest_row_ok (d\<lparr>dg_state := st, dg_completed_at := c, dg_error_code := e\<rparr>)"
  by (auto simp: digest_row_ok_def)

lemma legal_changeI:
  assumes "digest_row_ok d" "(st, ast) \<in> state_pairs" "completion_ok st c"
    and "case e of None \<Rightarrow> True | Some x \<Rightarrow> 1 \<le> rune_count x \<and> rune_count x \<le> 120"
    and "\<And>a. P a \<Longrightarrow> at_digest_id a = dg_id d" "\<And>a. at_digest_id a = dg_id d \<Longrightarrow> at_channel a = dg_channel d \<Longrightarrow> P a"
    and "\<And>a. at_digest_id (g a) = at_digest_id a" "\<And>a. at_channel (g a) = at_channel a"
      "\<And>a. at_idempotency_key (g a) = at_idempotency_key a" "\<And>a. at_payload_sha256 (g a) = at_payload_sha256 a"
      "\<And>a. at_state (g a) = ast" "\<And>a. at_completed_at (g a) \<noteq> None \<longleftrightarrow> ast = ''delivered''"
      "\<And>a. ast = ''delivered'' \<Longrightarrow> at_provider_id (g a) \<noteq> None"
    and "\<And>oc. oc_id (h oc) = oc_id oc"
  shows "legal_change d (\<lambda>x. x\<lparr>dg_state := st, dg_completed_at := c, dg_error_code := e\<rparr>) P g h"
proof -
  have "st \<in> {''ready'', ''delivering'', ''delivered'', ''failed''}" using assms(2) unfolding state_pairs_def by blast
  then have "digest_row_ok (d\<lparr>dg_state := st, dg_completed_at := c, dg_error_code := e\<rparr>)" by (intro row_ok_change assms)
  moreover have "attempt_matches (d\<lparr>dg_state := st, dg_completed_at := c, dg_error_code := e\<rparr>) (g a)" if "attempt_matches d a" for a
    using that assms(2,7-13) by (simp add: attempt_matches_def)
  moreover have "P a" if "attempt_matches d a" for a using that assms(6) by (simp add: attempt_matches_def)
  ultimately show ?thesis using assms(5,7,14) by (simp add: legal_change_def frozen_def)
qed

lemma state_pairs_simps [simp]:
  "(''ready'', ''pending'') \<in> state_pairs" "(''delivering'', ''delivering'') \<in> state_pairs"
  "(''delivered'', ''delivered'') \<in> state_pairs" "(''failed'', ''failed'') \<in> state_pairs"
  by (simp_all add: state_pairs_def)

lemma core_row_ok: "core_inv D \<Longrightarrow> d \<in> set (ddb_digests D) \<Longrightarrow> digest_row_ok d"
  by (simp add: core_inv_def ledger_ok_def)

lemma beginDelivery_Some:
  assumes "beginDelivery V digestID now D = Inr (D', Some r)"
  shows "\<exists>i d oc a. pg_uuid (ev_pg V) digestID = Some i \<and> find_digest D i = Some d \<and> find_occurrence_row D (dg_occurrence_id d) = Some oc
    \<and> dg_channel d \<noteq> ''dashboard'' \<and> dg_state d \<noteq> ''delivered''
    \<and> find (\<lambda>a. at_digest_id a = dg_id d \<and> at_channel a = dg_channel d) (ddb_attempts D) = Some a
    \<and> D' = claim_writes V d now D \<and> r = delivery_request d oc a"
  using assms by (auto simp: beginDelivery_def uuid_param_def go_result split: option.split_asm if_split_asm)

lemma beginDelivery_None: "beginDelivery V digestID now D = Inr (D', None) \<Longrightarrow> D' = D"
  by (auto simp: beginDelivery_def uuid_param_def go_result split: option.split_asm if_split_asm)

lemma claim_sound:
  assumes d: "d \<in> set (ddb_digests D)" "dg_channel d \<noteq> ''dashboard''"
  shows "sound D (claim_writes V d now D)"
proof -
  have "advance d (\<lambda>e. e\<lparr>dg_state := ''delivering'', dg_completed_at := None, dg_error_code := None\<rparr>)
     (\<lambda>b. at_digest_id b = dg_id d \<and> at_channel b = dg_channel d)
     (\<lambda>b. b\<lparr>at_state := ''delivering'', at_count := at_count b + 1, at_attempted_at := Some (pg_time (ev_pg V) now),
            at_completed_at := None, at_error_code := None\<rparr>)
     (\<lambda>r. r\<lparr>oc_state := ''delivering'', oc_completed_at := None, oc_error_code := None\<rparr>) D (claim_writes V d now D)"
    by (simp add: advance_def claim_writes_def)
  then show ?thesis
  proof (rule sound_transition [OF d, rotated], goal_cases)
    case 2
    show ?case by (rule legal_changeI [where ast = "''delivering''"]) (simp_all add: core_row_ok [OF 2 d(1)] completion_ok_def)
  qed simp
qed

lemma beginDelivery_sound:
  assumes "beginDelivery V digestID now D = Inr (D', r)"
  shows "sound D D'"
proof (cases r)
  case None
  then show ?thesis using assms beginDelivery_None sound_refl by blast
next
  case (Some q)
  then obtain i d where "find_digest D i = Some d" "dg_channel d \<noteq> ''dashboard''" "D' = claim_writes V d now D"
    using beginDelivery_Some assms by blast
  then show ?thesis using claim_sound find_digest_Some by blast
qed

lemma completion_sound:
  assumes d: "d \<in> set (ddb_digests D)" "dg_channel d \<noteq> ''dashboard''" and D1: "D1 = completion_writes V d providerID now D"
  shows "incomplete d D1 \<Longrightarrow> dg_state d \<noteq> ''delivered'' \<Longrightarrow> sound D D1"
    and "\<not> incomplete d D1 \<Longrightarrow> sound D (update_occurrence_row (dg_occurrence_id d)
      (\<lambda>r. r\<lparr>oc_state := ''delivered'', oc_completed_at := Some t, oc_error_code := None\<rparr>) D1)"
proof -
  let ?t = "pg_time (ev_pg V) now"
  let ?f = "\<lambda>e. e\<lparr>dg_state := ''delivered'', dg_completed_at := Some ?t, dg_error_code := None\<rparr>"
    and ?g = "\<lambda>b. b\<lparr>at_provider_id := Some providerID, at_state := ''delivered'', at_completed_at := Some ?t, at_error_code := None\<rparr>"
    and ?P = "\<lambda>b. at_digest_id b = dg_id d \<and> at_channel b = dg_channel d"
  have legal: "legal_change d ?f ?P ?g h" if "core_inv D" "\<And>oc. oc_id (h oc) = oc_id oc" for h
    by (rule legal_changeI [where ast = "''delivered''"]) (simp_all add: that core_row_ok [OF that(1) d(1)] completion_ok_def)
  have ds: "ddb_digests D1 = map (\<lambda>e. if dg_id e = dg_id d then ?f e else e) (ddb_digests D)" by (simp add: D1 completion_writes_def)
  show "sound D D1" if "incomplete d D1" "dg_state d \<noteq> ''delivered''"
  proof (rule sound_transition [OF d legal, where h = "\<lambda>oc. oc"])
    show "advance d ?f ?P ?g (\<lambda>oc. oc) D D1" by (simp add: advance_def D1 completion_writes_def)
    show "\<forall>e\<in>set (ddb_digests D1). dg_occurrence_id e = dg_occurrence_id d \<longrightarrow> dg_state e = ''delivered''"
      if "core_inv D" "oc \<in> set (ddb_occurrences D)" "oc_id oc = dg_occurrence_id d" "oc_state oc = ''delivered''" for oc
      using that d(1) \<open>dg_state d \<noteq> ''delivered''\<close> by (auto simp: core_inv_def occurrences_ok_def)
  qed simp_all
  let ?h = "\<lambda>r. r\<lparr>oc_state := ''delivered'', oc_completed_at := Some t, oc_error_code := None\<rparr>"
  show "sound D (update_occurrence_row (dg_occurrence_id d) ?h D1)" if closed: "\<not> incomplete d D1"
  proof (rule sound_transition [OF d legal, where h = ?h])
    show "advance d ?f ?P ?g ?h D (update_occurrence_row (dg_occurrence_id d) ?h D1)" by (simp add: advance_def D1 completion_writes_def)
    fix oc assume inv: "core_inv D"
    have "dg_state e = ''delivered''" if e: "e \<in> set (ddb_digests D1)" "dg_occurrence_id e = dg_occurrence_id d" for e
    proof (cases "dg_channel e = ''dashboard''")
      case True
      obtain e0 where e0: "e0 \<in> set (ddb_digests D)" "e = (if dg_id e0 = dg_id d then ?f e0 else e0)" using e(1) by (auto simp: ds)
      then have "dg_channel e0 = ''dashboard''" using True by (simp split: if_splits)
      then show ?thesis using ledger_dashboard [of D e0] inv e0 by (simp add: core_inv_def)
    qed (use closed e in \<open>auto simp: incomplete_def\<close>)
    then show "\<forall>e\<in>set (ddb_digests (update_occurrence_row (dg_occurrence_id d) ?h D1)).
        dg_occurrence_id e = dg_occurrence_id d \<longrightarrow> dg_state e = ''delivered''" by simp
  qed simp_all
qed

text \<open>A dashboard digest is always delivered, so completing one changes nothing.\<close>

lemma completeDelivery_sound:
  assumes "completeDelivery V digestID providerID now D = Inr (D', u)"
  shows "sound D D'"
proof -
  obtain i d where d: "find_digest D i = Some d"
    and D': "(if dg_state d = ''delivered'' then Inr (D, ()) else let D1 = completion_writes V d providerID now D
      in if incomplete d D1 then Inr (D1, ()) else Inr (update_occurrence_row (dg_occurrence_id d)
        (\<lambda>r. r\<lparr>oc_state := ''delivered'', oc_completed_at := Some (pg_time (ev_pg V) now), oc_error_code := None\<rparr>) D1, ())) = (Inr (D', u) :: digest_error + _)"
    using assms by (auto simp: completeDelivery_def go_result split: option.split_asm)
  note mem = find_digest_Some [OF d, THEN conjunct1]
  show ?thesis
  proof (cases "dg_channel d = ''dashboard''")
    case True
    then have "core_inv D \<Longrightarrow> dg_state d = ''delivered''" using ledger_dashboard [OF _ mem] by (simp add: core_inv_def)
    then show ?thesis using D' sound_refl by (auto simp: sound_def)
  next
    case False
    then show ?thesis using D' completion_sound [OF mem False refl] by (auto simp: Let_def sound_refl split: if_split_asm)
  qed
qed

lemma failDelivery_sound:
  assumes "failDelivery V digestID errorCode now D = Inr (D', u)"
    and "pg_uuid (ev_pg V) digestID = Some i" "find_digest D i = Some d" "dg_channel d \<noteq> ''dashboard''"
  shows "sound D D'"
proof -
  have d: "d \<in> set (ddb_digests D)" "dg_id d = i" using find_digest_Some [OF assms(3)] by auto
  let ?e = "boundedErrorCode errorCode"
  have "advance d (\<lambda>e. e\<lparr>dg_state := ''failed'', dg_completed_at := None, dg_error_code := Some ?e\<rparr>)
     (\<lambda>b. at_digest_id b = i \<and> at_channel b = dg_channel d)
     (\<lambda>b. b\<lparr>at_state := ''failed'', at_completed_at := None, at_error_code := Some ?e\<rparr>)
     (\<lambda>r. r\<lparr>oc_state := ''failed'', oc_completed_at := None, oc_error_code := Some ?e\<rparr>) D D'"
    using assms d(2) by (auto simp: failDelivery_def uuid_param_def Let_def advance_def)
  then show ?thesis
  proof (rule sound_transition [OF d(1) assms(4), rotated], goal_cases)
    case 2
    show ?case by (rule legal_changeI [where ast = "''failed''"])
      (simp_all add: core_row_ok [OF 2 d(1)] completion_ok_def d boundedErrorCode_length del: One_nat_def)
  qed simp
qed

lemma enqueueDigestJob_Inr: "enqueueDigestJob V j D = Inr D' \<longleftrightarrow> ev_enqueue V j \<and> D' = D\<lparr>ddb_jobs := ddb_jobs D @ [j]\<rparr>"
  by (auto simp: enqueueDigestJob_def)

lemma retryDelivery_sound:
  assumes "retryDelivery V userID digestID now D = Inr (D', u)"
  shows "sound D D'"
proof -
  obtain i user d where d: "find (\<lambda>d. dg_id d = i \<and> dg_user_id d = user) (ddb_digests D) = Some d"
      "dg_channel d \<noteq> ''dashboard''" "dg_state d = ''failed''"
    and D': "D' = retry_writes d D\<lparr>ddb_jobs := ddb_jobs (retry_writes d D) @ [DeliverJob digestID],
      ddb_events := ddb_events (retry_writes d D) @ [Audit_retried userID digestID (retry_metadata d now), Outbox_retried user (retry_metadata d now)]\<rparr>"
    using assms by (auto simp: retryDelivery_def uuid_param_def go_result enqueueDigestJob_Inr split: option.split_asm if_split_asm)
  then have mem: "d \<in> set (ddb_digests D)" "dg_id d = i" by (auto simp: find_Some_iff)
  have A: "advance d (\<lambda>e. e\<lparr>dg_state := ''ready'', dg_completed_at := None, dg_error_code := None\<rparr>) (\<lambda>b. at_digest_id b = i)
      (\<lambda>b. b\<lparr>at_provider_id := None, at_state := ''pending'', at_completed_at := None, at_error_code := None\<rparr>) (\<lambda>oc. oc) D D'"
    by (simp add: D' retry_writes_def advance_def mem)
  show ?thesis
  proof (rule sound_transition [OF mem(1) d(2) _ A], goal_cases)
    case 1
    show ?case by (rule legal_changeI [where ast = "''pending''"]) (simp_all add: core_row_ok [OF 1 mem(1)] completion_ok_def mem)
  next
    case (2 oc)
    then show ?case using mem(1) d(3) by (auto simp: core_inv_def occurrences_ok_def)
  qed
qed

section \<open>Finalization keeps the tables sound\<close>

text \<open>A digest that is added: a valid row with fresh keys, its items, and a pending attempt unless it is the dashboard's.\<close>

definition adds :: "digest_row \<Rightarrow> digest_db \<Rightarrow> digest_db \<Rightarrow> bool" where
  "adds d D D' \<longleftrightarrow>
     digest_row_ok d \<and> digest_keys_free D d \<and> dg_state d = (if dg_channel d = ''dashboard'' then ''delivered'' else ''ready'')
     \<and> ddb_digests D' = ddb_digests D @ [d] \<and> ddb_occurrences D' = ddb_occurrences D
     \<and> (\<exists>items. ddb_items D' = ddb_items D @ items \<and> (\<forall>t\<in>set items. it_digest_id t = dg_id d))
     \<and> (if dg_channel d = ''dashboard'' then ddb_attempts D' = ddb_attempts D
        else \<exists>a. ddb_attempts D' = ddb_attempts D @ [a] \<and> attempt_matches d a)"

lemma insert_items_Inr:
  "insert_items V i p cs D = Inr D' \<Longrightarrow> \<exists>items. D' = D\<lparr>ddb_items := ddb_items D @ items\<rparr> \<and> (\<forall>t\<in>set items. it_digest_id t = i)"
proof (induction cs arbitrary: p D)
  case (Cons c cs)
  then obtain D1 where D1: "insert_item V i p c D = Inr D1" "insert_items V i (p + 1) cs D1 = Inr D'" by (auto simp: go_result)
  then obtain t where "D1 = D\<lparr>ddb_items := ddb_items D @ [t]\<rparr>" "it_digest_id t = i"
    by (auto simp: insert_item_def split: option.split_asm if_split_asm)
  moreover obtain items where "D' = D1\<lparr>ddb_items := ddb_items D1 @ items\<rparr>" "\<forall>t\<in>set items. it_digest_id t = i"
    using Cons.IH [OF D1(2)] by blast
  ultimately show ?case by (intro exI [of _ "t # items"]) simp
qed (intro exI [of _ "[]"], simp)

lemma persist_digest_adds:
  assumes "persist_digest V d selected D = Inr D'" and "dg_state d = (if dg_channel d = ''dashboard'' then ''delivered'' else ''ready'')"
  shows "adds d D D'"
proof -
  obtain D1 D2 where D1: "insert_digest d D = Inr D1" and D2: "insert_items V (dg_id d) 0 selected D1 = Inr D2"
    and D': "(if dg_channel d = ''dashboard'' then Inr D2
       else and_then (insert_attempt (pending_attempt d) D2) (enqueueDigestJob V (DeliverJob (dg_id d)))) = Inr D'"
    using assms(1) by (auto simp: persist_digest_def go_result)
  have 1: "digest_row_ok d" "digest_keys_free D d" "D1 = D\<lparr>ddb_digests := ddb_digests D @ [d], ddb_seq := ddb_seq D + 1\<rparr>"
    using D1 by (auto simp: insert_digest_def split: if_split_asm)
  obtain items where 2: "D2 = D1\<lparr>ddb_items := ddb_items D1 @ items\<rparr>" "\<forall>t\<in>set items. it_digest_id t = dg_id d"
    using insert_items_Inr [OF D2] by blast
  show ?thesis
  proof (cases "dg_channel d = ''dashboard''")
    case True
    then show ?thesis using D' 1 2 assms(2) by (auto simp: adds_def)
  next
    case False
    then have "D' = D2\<lparr>ddb_attempts := ddb_attempts D2 @ [pending_attempt d], ddb_jobs := ddb_jobs D2 @ [DeliverJob (dg_id d)]\<rparr>"
      using D' by (auto simp: go_result insert_attempt_def enqueueDigestJob_Inr split: if_split_asm)
    moreover have "attempt_matches d (pending_attempt d)" using False assms(2) by (simp add: attempt_matches_def pending_attempt_def)
    ultimately show ?thesis using False 1 2 assms(2) by (auto simp: adds_def)
  qed
qed

lemma finalize_channel_adds:
  assumes "finalize_channel V z channel D = Inr D'"
  shows "\<exists>d. adds d D D' \<and> dg_channel d = channel \<and> dg_occurrence_id d = fz_occurrence_id z"
proof -
  obtain payload stored hash where "persist_digest V (digest_entry V z channel payload stored hash D) (fz_selected z) D = Inr D'"
    using assms by (auto simp: finalize_channel_def split: if_split_asm sum.split_asm option.split_asm)
  then show ?thesis
    by (intro exI [of _ "digest_entry V z channel payload stored hash D"]) (auto simp: digest_entry_def Let_def intro!: persist_digest_adds)
qed

lemma adds_sound:
  assumes "adds d D D'" and "core_inv D" and "\<forall>oc\<in>set (ddb_occurrences D). oc_id oc = dg_occurrence_id d \<longrightarrow> oc_state oc \<noteq> ''delivered''"
  shows "core_inv D' \<and> keeps_frozen D D'"
proof -
  note A = assms(1) [unfolded adds_def]
  have fresh: "dg_id d \<notin> dg_id ` set (ddb_digests D)" "(dg_occurrence_id d, dg_channel d) \<notin> (\<lambda>e. (dg_occurrence_id e, dg_channel e)) ` set (ddb_digests D)"
    using A by (auto simp: digest_keys_free_def list_all_iff)
  have "keys_ok (ddb_digests D')" using assms(2) A fresh by (simp add: core_inv_def keys_ok_def)
  moreover have "keeps_frozen D D'" using A fresh by (auto simp: keeps_frozen_def)
  moreover have "foreign_ok D'"
    using assms(2) A by (auto simp: core_inv_def foreign_ok_def attempt_matches_def split: if_split_asm)
  moreover have "occurrences_ok D'"
    using assms(2,3) A by (auto simp: core_inv_def occurrences_ok_def)
  moreover have "ledger_ok D'"
  proof -
    have none: "attempts_of D (dg_id d) = []"
      using assms(2) fresh(1) unfolding core_inv_def foreign_ok_def attempts_of_def filter_empty_conv by metis
    have old: "attempts_of D' (dg_id e) = attempts_of D (dg_id e)" if "e \<in> set (ddb_digests D)" for e
      using that A fresh(1) by (auto simp: attempts_of_def attempt_matches_def image_iff split: if_split_asm)
    have "\<exists>a. attempts_of D' (dg_id d) = [a] \<and> attempt_matches d a" if ext: "dg_channel d \<noteq> ''dashboard''"
      using A none ext by (auto simp: attempts_of_def attempt_matches_def)
    moreover have "attempts_of D' (dg_id d) = []" if "dg_channel d = ''dashboard''"
      using that A none by (simp add: attempts_of_def)
    ultimately show ?thesis
      using assms(2) A old by (auto simp: core_inv_def ledger_ok_def)
  qed
  ultimately show ?thesis by (simp add: core_inv_def)
qed

lemma finalize_channels_Inr:
  assumes "finalize_channels V z cs D = Inr D'" and "core_inv D"
    and "\<forall>oc\<in>set (ddb_occurrences D). oc_id oc = fz_occurrence_id z \<longrightarrow> oc_state oc \<noteq> ''delivered''"
  shows "core_inv D' \<and> keeps_frozen D D' \<and> ddb_occurrences D' = ddb_occurrences D
    \<and> (\<exists>new. ddb_digests D' = ddb_digests D @ new \<and> map dg_channel new = cs
        \<and> (\<forall>d\<in>set new. dg_occurrence_id d = fz_occurrence_id z \<and> (dg_channel d = ''dashboard'' \<longrightarrow> dg_state d = ''delivered'')))"
  using assms
proof (induction cs arbitrary: D)
  case Nil
  then show ?case by (simp add: keeps_frozen_refl)
next
  case (Cons c cs)
  then obtain D1 where D1: "finalize_channel V z c D = Inr D1" "finalize_channels V z cs D1 = Inr D'" by (auto simp: go_result)
  then obtain d where d: "adds d D D1" "dg_channel d = c" "dg_occurrence_id d = fz_occurrence_id z" using finalize_channel_adds by blast
  have s: "core_inv D1" "keeps_frozen D D1" using adds_sound [OF d(1) Cons.prems(2)] Cons.prems(3) d(3) by auto
  have D1s: "ddb_digests D1 = ddb_digests D @ [d]" "ddb_occurrences D1 = ddb_occurrences D" "c = ''dashboard'' \<longrightarrow> dg_state d = ''delivered''"
    using d by (auto simp: adds_def)
  from Cons.IH [OF D1(2) s(1)] Cons.prems(3) D1s(2) obtain new where
    "core_inv D'" "keeps_frozen D1 D'" "ddb_occurrences D' = ddb_occurrences D1" "ddb_digests D' = ddb_digests D1 @ new"
    "map dg_channel new = cs" "\<forall>d\<in>set new. dg_occurrence_id d = fz_occurrence_id z \<and> (dg_channel d = ''dashboard'' \<longrightarrow> dg_state d = ''delivered'')"
    by auto
  then show ?case using D1s d keeps_frozen_trans [OF s(2)] by (intro conjI exI [of _ "d # new"]) auto
qed

lemma dashboard_channel: "''dashboard'' \<in> set (digest_channels settings selected)"
  by (simp add: digest_channels_def Let_def)

lemma find_occurrence_unique:
  "distinct (map oc_id (ddb_occurrences D)) \<Longrightarrow> find_occurrence_row D i = Some oc \<Longrightarrow> x \<in> set (ddb_occurrences D) \<Longrightarrow> oc_id x = i \<Longrightarrow> x = oc"
  by (auto simp: find_occurrence_row_def find_Some_iff distinct_map inj_on_def)

lemma selectOccurrenceSettings_Inr:
  "selectOccurrenceSettings D i = Inr settings \<Longrightarrow> \<exists>oc. find_occurrence_row D i = Some oc \<and> os_State settings = oc_state oc
     \<and> os_ScheduledFor settings = oc_scheduled_for oc"
  by (auto simp: selectOccurrenceSettings_def split: option.split_asm if_split_asm)

lemma enqueue_all_Inr: "enqueue_all V js D = Inr D' \<Longrightarrow> D' = D\<lparr>ddb_jobs := ddb_jobs D @ js\<rparr>"
proof (induction js arbitrary: D)
  case (Cons j js)
  then show ?case using Cons.IH [of "D\<lparr>ddb_jobs := ddb_jobs D @ [j]\<rparr>"] by (auto simp: go_result enqueueDigestJob_Inr)
qed simp

lemma tables_cong:
  assumes "ddb_digests D' = ddb_digests D" "ddb_attempts D' = ddb_attempts D" "ddb_items D' = ddb_items D"
  shows "ledger_ok D' = ledger_ok D" "foreign_ok D' = foreign_ok D"
  using assms by (simp_all add: ledger_ok_def foreign_ok_def attempts_of_def)

lemma occurrences_okI:
  "map oc_id (ddb_occurrences D') = map oc_id (ddb_occurrences D) \<Longrightarrow> occurrences_ok D
   \<Longrightarrow> (\<And>x. x \<in> set (ddb_occurrences D') \<Longrightarrow> oc_state x = ''delivered''
       \<Longrightarrow> \<forall>d\<in>set (ddb_digests D'). dg_occurrence_id d = oc_id x \<longrightarrow> dg_state d = ''delivered'')
   \<Longrightarrow> occurrences_ok D'"
  unfolding occurrences_ok_def by simp

text \<open>A change of one occurrence that does not call it delivered.\<close>

lemma occurrence_sound:
  assumes "ddb_digests D' = ddb_digests D" "ddb_attempts D' = ddb_attempts D" "ddb_items D' = ddb_items D"
    and "ddb_occurrences D' = map (\<lambda>oc. if oc_id oc = i then h oc else oc) (ddb_occurrences D)"
    and "\<And>oc. oc_id (h oc) = oc_id oc" "\<And>oc. oc_state (h oc) = ''delivered'' \<Longrightarrow> oc_state oc = ''delivered''"
  shows "sound D D'"
proof -
  have ids: "map oc_id (ddb_occurrences D') = map oc_id (ddb_occurrences D)" using assms(4,5) by simp
  have "occurrences_ok D'" if ok: "occurrences_ok D"
  proof (rule occurrences_okI [OF ids ok])
    fix x' assume x': "x' \<in> set (ddb_occurrences D')" "oc_state x' = ''delivered''"
    then obtain x where "x \<in> set (ddb_occurrences D)" "oc_id x' = oc_id x" "oc_state x = ''delivered''"
      using assms(4,5,6) by (auto split: if_split_asm)
    then show "\<forall>d\<in>set (ddb_digests D'). dg_occurrence_id d = oc_id x' \<longrightarrow> dg_state d = ''delivered''"
      using ok assms(1) by (simp add: occurrences_ok_def)
  qed
  then have "occurrences_ok D \<longrightarrow> occurrences_ok D'" by blast
  with tables_cong [OF assms(1-3)] show ?thesis using assms(1,3) by (simp add: sound_def core_inv_def keeps_frozen_same)
qed

lemma finalize_new_sound:
  assumes ch: "finalize_channels V z (digest_channels settings selected) D = Inr D1"
    and none: "\<forall>d\<in>set (ddb_digests D). dg_occurrence_id d \<noteq> fz_occurrence_id z"
    and oc: "find_occurrence_row D (fz_occurrence_id z) = Some oc" "oc_state oc \<noteq> ''delivered''"
    and h: "\<And>r. oc_id (h r) = oc_id r"
    "\<And>r. oc_state (h r) = ''delivered'' \<Longrightarrow> filter (\<lambda>c. c \<noteq> ''dashboard'') (digest_channels settings selected) = []"
  shows "sound D (update_occurrence_row (fz_occurrence_id z) h D1)"
proof -
  let ?i = "fz_occurrence_id z" and ?cs = "digest_channels settings selected"
  let ?D' = "update_occurrence_row ?i h D1"
  have "core_inv ?D' \<and> keeps_frozen D ?D' \<and> (has_dashboard (ddb_digests D) \<longrightarrow> has_dashboard (ddb_digests ?D'))" if inv: "core_inv D"
  proof -
    have "distinct (map oc_id (ddb_occurrences D))" using inv by (simp add: core_inv_def occurrences_ok_def)
    from find_occurrence_unique [OF this oc(1)]
    have open_: "\<forall>x\<in>set (ddb_occurrences D). oc_id x = ?i \<longrightarrow> oc_state x \<noteq> ''delivered''" using oc(2) by blast
    from finalize_channels_Inr [OF ch inv this] obtain new where
      1: "core_inv D1" "keeps_frozen D D1" "ddb_occurrences D1 = ddb_occurrences D" "ddb_digests D1 = ddb_digests D @ new"
        "map dg_channel new = ?cs" "\<forall>d\<in>set new. dg_occurrence_id d = ?i \<and> (dg_channel d = ''dashboard'' \<longrightarrow> dg_state d = ''delivered'')"
      by blast
    have cs: "dg_channel ` set new = set ?cs" using 1(5) by (metis list.set_map)
    have all: "dg_state d = ''delivered''" if "filter (\<lambda>c. c \<noteq> ''dashboard'') ?cs = []" "d \<in> set new" for d
      using that cs 1(6) by (auto simp: filter_empty_conv)
    have ids: "map oc_id (ddb_occurrences ?D') = map oc_id (ddb_occurrences D1)" by (simp add: h)
    have "\<forall>d\<in>set (ddb_digests ?D'). dg_occurrence_id d = oc_id x' \<longrightarrow> dg_state d = ''delivered''"
      if x': "x' \<in> set (ddb_occurrences ?D')" "oc_state x' = ''delivered''" for x'
    proof -
      obtain x where x: "x \<in> set (ddb_occurrences D1)" "x' = (if oc_id x = ?i then h x else x)" using x'(1) by auto
      show ?thesis
      proof (cases "oc_id x = ?i")
        case True
        then have "filter (\<lambda>c. c \<noteq> ''dashboard'') ?cs = []" "oc_id x' = ?i" using x(2) x'(2) h by auto
        then show ?thesis using 1(4) none all by auto
      next
        case False
        then show ?thesis using x x'(2) 1(1) by (auto simp: core_inv_def occurrences_ok_def)
      qed
    qed
    then have "occurrences_ok ?D'" using 1(1) occurrences_okI [OF ids] unfolding core_inv_def by blast
    then have "core_inv ?D'" using 1(1) tables_cong [of ?D' D1] by (simp add: core_inv_def)
    moreover have "has_dashboard (ddb_digests D) \<longrightarrow> has_dashboard (ddb_digests ?D')"
    proof -
      have "''dashboard'' \<in> dg_channel ` set new" using cs dashboard_channel by simp
      then obtain e where e: "e \<in> set new" "dg_channel e = ''dashboard''" by auto
      have "\<exists>e\<in>set (ddb_digests D1). dg_occurrence_id e = dg_occurrence_id d \<and> dg_channel e = ''dashboard''" if "d \<in> set new" for d
        using that e 1(4,6) by (intro bexI [of _ e]) simp_all
      then show ?thesis using 1(4) by (simp add: has_dashboard_def) blast
    qed
    moreover have "keeps_frozen D ?D'" using 1(2) by (simp add: keeps_frozen_def)
    ultimately show ?thesis by blast
  qed
  then show ?thesis by (simp add: sound_def)
qed

lemma finalize_sound:
  assumes "finalize V occurrenceID now D = Inr (D', u)"
  shows "sound D D'"
proof -
  obtain i settings where i: "uuid_param V occurrenceID = Inr i" "selectOccurrenceSettings D i = Inr settings"
    using assms by (auto simp: finalize_def go_result)
  obtain oc where oc: "find_occurrence_row D i = Some oc" "os_State settings = oc_state oc" using selectOccurrenceSettings_Inr [OF i(2)] by blast
  consider "terminalOccurrence (os_State settings)" | "\<not> terminalOccurrence (os_State settings)" "\<exists>d\<in>set (ddb_digests D). dg_occurrence_id d = i"
    | "\<not> terminalOccurrence (os_State settings)" "\<forall>d\<in>set (ddb_digests D). dg_occurrence_id d \<noteq> i" by blast
  then show ?thesis
  proof cases
    case 1
    then show ?thesis using assms i by (simp add: finalize_def sound_refl)
  next
    case 2
    then have "enqueue_all V (map (\<lambda>d. DeliverJob (dg_id d)) (ready_digests D i)) D = Inr D'"
      using assms i by (auto simp: finalize_def resumeFinalized_def go_result)
    from enqueue_all_Inr [OF this] show ?thesis by (intro occurrence_sound [where i = i and h = "\<lambda>oc. oc"]) auto
  next
    case 3
    then obtain w where "finalize_new V occurrenceID i settings now w D = Inr (D', u)"
      using assms i by (auto simp: finalize_def go_result split: if_split_asm)
    then obtain z selected D1 where D1: "finalize_channels V z (digest_channels settings selected) D = Inr D1" "fz_occurrence_id z = i"
        "D' = update_occurrence_row i (finalized_row V now (length selected) (external_count (digest_channels settings selected))) D1"
      by (cases w) (auto simp: finalize_new_def Let_def go_result)
    show ?thesis
      unfolding D1(3) D1(2) [symmetric]
      by (rule finalize_new_sound [OF D1(1), where oc = oc])
         (use 3 oc D1(2) in \<open>auto simp: terminalOccurrence_def finalized_row_def external_count_def split: if_split_asm\<close>)
  qed
qed

lemma row_changes [simp]:
  "oc_id (queued_row t r) = oc_id r" "oc_state (queued_row t r) = ''preparing''"
  "oc_id (preflighted_row now stale due r) = oc_id r" "oc_state (preflighted_row now stale due r) = oc_state r"
  "oc_id (prepared_row now ws we n r) = oc_id r" "oc_state (prepared_row now ws we n r) = ''preparing''"
  by (simp_all add: queued_row_def preflighted_row_def prepared_row_def)

lemma queueOccurrence_Inr:
  "queueOccurrence V server_now occurrenceID D = Inr (D', u) \<Longrightarrow> D' = D
   \<or> (\<exists>i. enqueueDigestJob V (PreflightJob occurrenceID) (update_occurrence_row i (queued_row server_now) D) = Inr D')"
  by (auto simp: queueOccurrence_def go_result split: option.split_asm if_split_asm)

lemma preflight_Inr:
  "preflight V occurrenceID now D = Inr (D', u) \<Longrightarrow> D' = D
   \<or> (\<exists>i a b. enqueueDigestJob V (PrepareJob occurrenceID) (update_occurrence_row i (preflighted_row now a b) D) = Inr D')"
  by (auto simp: preflight_def go_result split: option.split_asm if_split_asm)

lemma job_sound:
  assumes "enqueueDigestJob V j (update_occurrence_row i h D) = Inr D'"
    and "\<And>oc. oc_id (h oc) = oc_id oc" "\<And>oc. oc_state (h oc) = ''delivered'' \<Longrightarrow> oc_state oc = ''delivered''"
  shows "sound D D'"
  using assms by (intro occurrence_sound [where i = i and h = h]) (auto simp: enqueueDigestJob_Inr)

lemma queueOccurrence_sound: "queueOccurrence V server_now occurrenceID D = Inr (D', u) \<Longrightarrow> sound D D'"
  using queueOccurrence_Inr job_sound [where h = "queued_row _"] sound_refl by fastforce

lemma preflight_sound: "preflight V occurrenceID now D = Inr (D', u) \<Longrightarrow> sound D D'"
  using preflight_Inr job_sound [where h = "preflighted_row _ _ _"] sound_refl by fastforce

lemma insert_candidates_Inr: "insert_candidates V i now cs D = Inr D' \<Longrightarrow> \<exists>rows. D' = D\<lparr>ddb_candidates := ddb_candidates D @ rows\<rparr>"
proof (induction cs arbitrary: D)
  case (Cons c cs)
  then obtain D1 where D1: "insert_candidate V i now c D = Inr D1" "insert_candidates V i now cs D1 = Inr D'" by (auto simp: go_result)
  then have "D1 = D \<or> (\<exists>r. D1 = D\<lparr>ddb_candidates := ddb_candidates D @ [r]\<rparr>)"
    by (auto simp: insert_candidate_def go_result split: option.split_asm if_split_asm)
  moreover have "D = D\<lparr>ddb_candidates := ddb_candidates D @ []\<rparr>" by simp
  ultimately obtain r1 where "D1 = D\<lparr>ddb_candidates := ddb_candidates D @ r1\<rparr>" by metis
  moreover obtain r2 where "D' = D1\<lparr>ddb_candidates := ddb_candidates D1 @ r2\<rparr>" using Cons.IH [OF D1(2)] by blast
  ultimately show ?case by (intro exI [of _ "r1 @ r2"]) simp
qed (intro exI [of _ "[]"], simp)

lemma prepare_new_Inr:
  assumes "prepare_new V occurrenceID i settings now D = Inr (D', u)"
  shows "\<exists>ws we n rows. digest_window D settings = (ws, we) \<and> ws < we
    \<and> D' = update_occurrence_row i (prepared_row now ws we n) (D\<lparr>ddb_candidates := ddb_candidates D @ rows\<rparr>)\<lparr>ddb_jobs := ddb_jobs D @ [FinalizeJob occurrenceID]\<rparr>"
proof -
  obtain ws we n D1 cs where "digest_window D settings = (ws, we)" "ws < we" "insert_candidates V i now cs D = Inr D1"
    "enqueueDigestJob V (FinalizeJob occurrenceID) (update_occurrence_row i (prepared_row now ws we n) D1) = Inr D'"
    using assms by (auto simp: prepare_new_def go_result split: prod.split_asm if_split_asm)
  then show ?thesis using insert_candidates_Inr [of V i now cs D D1] by (fastforce simp: enqueueDigestJob_Inr update_occurrence_row_def)
qed

lemma prepare_sound:
  assumes "prepare V occurrenceID now D = Inr (D', u)"
  shows "sound D D'"
proof -
  consider "D' = D" | "enqueueDigestJob V (FinalizeJob occurrenceID) D = Inr D'"
    | i settings where "prepare_new V occurrenceID i settings now D = Inr (D', u)"
    using assms by (auto simp: prepare_def go_result split: if_split_asm)
  then show ?thesis
  proof cases
    case 2
    then show ?thesis by (intro occurrence_sound [where i = "[]" and h = "\<lambda>oc. oc"]) (auto simp: enqueueDigestJob_Inr)
  next
    case (3 i settings)
    from prepare_new_Inr [OF 3] obtain ws we n rows where
      "D' = update_occurrence_row i (prepared_row now ws we n) (D\<lparr>ddb_candidates := ddb_candidates D @ rows\<rparr>)\<lparr>ddb_jobs := ddb_jobs D @ [FinalizeJob occurrenceID]\<rparr>"
      by blast
    then show ?thesis by (intro occurrence_sound [where i = i and h = "prepared_row now ws we n"]) auto
  qed (simp add: sound_refl)
qed

lemma foldr_max: "foldr max ts t \<in> set (t # ts) \<and> (\<forall>x\<in>set (t # ts). x \<le> foldr max ts (t :: int))"
  by (induction ts) (auto simp: max_def)

lemma prior_cutoff_None: "prior_cutoff D user we = None \<longleftrightarrow> prior_ends D user we = []"
  by (simp add: prior_cutoff_def split: list.split)

lemma prior_cutoff_Some:
  "prior_cutoff D user we = Some t \<Longrightarrow> t \<in> set (prior_ends D user we) \<and> (\<forall>x\<in>set (prior_ends D user we). x \<le> t)"
  using foldr_max by (auto simp: prior_cutoff_def split: list.split_asm)

lemma digest_window_eq:
  "digest_window D settings = (ws, we) \<longleftrightarrow> we = os_ScheduledFor settings - 15 * minute
     \<and> ws = (case prior_cutoff D (os_UserID settings) we of None \<Rightarrow> we - 24 * hour | Some t \<Rightarrow> t)"
  unfolding digest_window_def Let_def prod.inject by metis

lemma digest_window_start:
  assumes "digest_window D settings = (ws, we)"
  shows "(if prior_ends D (os_UserID settings) we = [] then ws = we - 24 * hour else ws \<in> set (prior_ends D (os_UserID settings) we))
    \<and> (\<forall>x\<in>set (prior_ends D (os_UserID settings) we). x \<le> ws)"
proof (cases "prior_cutoff D (os_UserID settings) we")
  case None
  then have "prior_ends D (os_UserID settings) we = []" using prior_cutoff_None by blast
  moreover have "ws = we - 24 * hour" using assms unfolding digest_window_eq None option.case by blast
  ultimately show ?thesis by simp
next
  case (Some t)
  then have "prior_ends D (os_UserID settings) we \<noteq> []" using prior_cutoff_None by (metis option.distinct(1))
  moreover have "ws = t" using assms unfolding digest_window_eq Some option.case by blast
  ultimately show ?thesis using prior_cutoff_Some [OF Some] by simp
qed

lemma prior_endsI:
  "d \<in> set (ddb_digests D) \<Longrightarrow> dg_user_id d = user \<Longrightarrow> dg_channel d = ''dashboard'' \<Longrightarrow> dg_state d = ''delivered''
    \<Longrightarrow> dg_window_end d < we \<Longrightarrow> dg_window_end d \<in> set (prior_ends D user we)"
  by (auto simp: prior_ends_def)

lemma digest_window_covers:
  assumes "digest_window D settings = (ws, we)" "d \<in> set (ddb_digests D)" "dg_user_id d = os_UserID settings"
    "dg_channel d = ''dashboard''" "dg_state d = ''delivered''"
  shows "dg_window_end d \<le> ws \<or> we \<le> dg_window_end d"
proof (cases "dg_window_end d < we")
  case True
  then have "dg_window_end d \<in> set (prior_ends D (os_UserID settings) we)" by (rule prior_endsI [OF assms(2-5)])
  then show ?thesis using digest_window_start [OF assms(1)] by blast
next
  case False
  then show ?thesis by simp
qed

lemma update_occurrence_row_cases:
  assumes "oc \<in> set (ddb_occurrences (update_occurrence_row i f D))" "oc_id oc = i" "\<And>old. oc_id (f old) = oc_id old"
  shows "\<exists>old. oc = f old"
  using assms by (auto simp: update_occurrence_row_def split: if_split_asm)

lemma prepared_row_window:
  assumes "oc \<in> set (ddb_occurrences (update_occurrence_row i (prepared_row now ws we n) D))" "oc_id oc = i"
  shows "md_windowStart (oc_metadata oc) = Some ws \<and> md_windowEnd (oc_metadata oc) = Some we"
proof -
  obtain old where "oc = prepared_row now ws we n old"
    using update_occurrence_row_cases [OF assms] by (auto simp: prepared_row_def)
  then show ?thesis by (simp add: prepared_row_def)
qed

text \<open>
  The window an occurrence is given leaves no gap and reads nothing twice: it ends fifteen minutes
  before the scheduled time, it starts where the owner's latest delivered digest before that ended
  (24 hours earlier when there is none), so no delivered digest ends inside it, and it is recorded with the occurrence.
\<close>

lemma prepare_window:
  assumes "prepare_new V occurrenceID i settings now D = Inr (D', u)"
  shows "\<exists>ws we. we = os_ScheduledFor settings - 15 * minute \<and> ws < we
    \<and> (\<forall>oc\<in>set (ddb_occurrences D'). oc_id oc = i \<longrightarrow> md_windowStart (oc_metadata oc) = Some ws \<and> md_windowEnd (oc_metadata oc) = Some we)
    \<and> (\<forall>d\<in>set (ddb_digests D). dg_user_id d = os_UserID settings \<and> dg_channel d = ''dashboard'' \<and> dg_state d = ''delivered''
          \<longrightarrow> dg_window_end d \<le> ws \<or> we \<le> dg_window_end d)
    \<and> (if prior_ends D (os_UserID settings) we = [] then ws = we - 24 * hour else ws \<in> set (prior_ends D (os_UserID settings) we))"
proof -
  obtain ws we n rows where w: "digest_window D settings = (ws, we)" and lt: "ws < we"
    and D': "D' = update_occurrence_row i (prepared_row now ws we n) (D\<lparr>ddb_candidates := ddb_candidates D @ rows\<rparr>)\<lparr>ddb_jobs := ddb_jobs D @ [FinalizeJob occurrenceID]\<rparr>"
    using prepare_new_Inr [OF assms] by blast
  have same: "ddb_occurrences (X\<lparr>ddb_jobs := jobs\<rparr>) = ddb_occurrences X" for X :: digest_db and jobs by simp
  show ?thesis
  proof (intro exI conjI)
    show "we = os_ScheduledFor settings - 15 * minute" using w unfolding digest_window_eq by blast
    show "ws < we" by (rule lt)
    show "\<forall>oc\<in>set (ddb_occurrences D'). oc_id oc = i \<longrightarrow> md_windowStart (oc_metadata oc) = Some ws \<and> md_windowEnd (oc_metadata oc) = Some we"
      unfolding D' same using prepared_row_window by blast
    show "\<forall>d\<in>set (ddb_digests D). dg_user_id d = os_UserID settings \<and> dg_channel d = ''dashboard'' \<and> dg_state d = ''delivered''
          \<longrightarrow> dg_window_end d \<le> ws \<or> we \<le> dg_window_end d"
      using digest_window_covers [OF w] by blast
    show "if prior_ends D (os_UserID settings) we = [] then ws = we - 24 * hour else ws \<in> set (prior_ends D (os_UserID settings) we)"
      using digest_window_start [OF w] by blast
  qed
qed

section \<open>Concurrent workers\<close>

text \<open>
  The whole system: the tables and the requests that workers have claimed and not yet recorded. Each
  step is one committed transaction of some worker, of the owner's retry, of the scheduler or of the
  settings; a worker may also stop without recording anything.
\<close>

record digest_system =
  sy_db :: digest_db
  sy_sending :: "digest_delivery multiset"

definition with_db :: "digest_system \<Rightarrow> digest_db \<Rightarrow> digest_system" where
  "with_db s D = s\<lparr>sy_db := D\<rparr>"

inductive digest_step :: "digest_env \<Rightarrow> digest_system \<Rightarrow> digest_system \<Rightarrow> bool" for V where
  schedule: "oc_id oc \<notin> oc_id ` set (ddb_occurrences (sy_db s)) \<Longrightarrow> oc_state oc \<noteq> ''delivered'' \<Longrightarrow>
    digest_step V s (with_db s ((sy_db s)\<lparr>ddb_occurrences := ddb_occurrences (sy_db s) @ [oc]\<rparr>))"
| settings: "digest_step V s (with_db s ((sy_db s)\<lparr>ddb_schedules := schedules\<rparr>))"
| queue: "queueOccurrence V t i (sy_db s) = Inr (D', u) \<Longrightarrow> digest_step V s (with_db s D')"
| check: "preflight V i now (sy_db s) = Inr (D', u) \<Longrightarrow> digest_step V s (with_db s D')"
| capture: "prepare V i now (sy_db s) = Inr (D', u) \<Longrightarrow> digest_step V s (with_db s D')"
| freeze: "finalize V i now (sy_db s) = Inr (D', u) \<Longrightarrow> digest_step V s (with_db s D')"
| claim: "beginDelivery V i now (sy_db s) = Inr (D', Some r) \<Longrightarrow>
    digest_step V s \<lparr>sy_db = D', sy_sending = add_mset r (sy_sending s)\<rparr>"
| sent: "r \<in># sy_sending s \<Longrightarrow> completeDelivery V (dl_DigestID r) providerID now (sy_db s) = Inr (D', u) \<Longrightarrow>
    digest_step V s \<lparr>sy_db = D', sy_sending = sy_sending s - {#r#}\<rparr>"
| failed: "r \<in># sy_sending s \<Longrightarrow> failDelivery V (dl_DigestID r) code now (sy_db s) = Inr (D', u) \<Longrightarrow>
    digest_step V s \<lparr>sy_db = D', sy_sending = sy_sending s - {#r#}\<rparr>"
| lost: "r \<in># sy_sending s \<Longrightarrow> digest_step V s (s\<lparr>sy_sending := sy_sending s - {#r#}\<rparr>)"
| retry: "retryDelivery V userID i now (sy_db s) = Inr (D', u) \<Longrightarrow> digest_step V s (with_db s D')"

inductive digest_run :: "digest_env \<Rightarrow> digest_system \<Rightarrow> digest_system \<Rightarrow> bool" for V s where
  refl: "digest_run V s s"
| step: "digest_run V s s' \<Longrightarrow> digest_step V s' s'' \<Longrightarrow> digest_run V s s''"

text \<open>A claimed request repeats the frozen columns of an external digest.\<close>

definition request_ok :: "digest_env \<Rightarrow> digest_db \<Rightarrow> digest_delivery \<Rightarrow> bool" where
  "request_ok V D r \<longleftrightarrow> pg_uuid (ev_pg V) (dl_DigestID r) = Some (dl_DigestID r)
     \<and> (\<exists>d\<in>set (ddb_digests D). dl_DigestID r = dg_id d \<and> dg_channel d \<noteq> ''dashboard'' \<and> dl_Channel r = dg_channel d
         \<and> dl_Payload r = dg_payload d \<and> dl_PayloadSHA256 r = dg_payload_sha256 d \<and> dl_IdempotencyKey r = dg_idempotency_key d)"

definition system_inv :: "digest_env \<Rightarrow> digest_system \<Rightarrow> bool" where
  "system_inv V s \<longleftrightarrow> digest_inv (sy_db s) \<and> (\<forall>r\<in>#sy_sending s. request_ok V (sy_db s) r)"

lemma keeps_frozen_row:
  assumes "keeps_frozen D D'" "d \<in> set (ddb_digests D)"
  shows "\<exists>d'\<in>set (ddb_digests D'). frozen d' = frozen d"
proof -
  obtain new where new: "map frozen (ddb_digests D') = map frozen (ddb_digests D) @ new" using assms(1) by (auto simp: keeps_frozen_def)
  have "frozen d \<in> set (map frozen (ddb_digests D'))" unfolding new using assms(2) by simp
  then show ?thesis by auto
qed

lemma request_ok_keeps:
  assumes "keeps_frozen D D'" "request_ok V D r"
  shows "request_ok V D' r"
proof -
  obtain d where d: "d \<in> set (ddb_digests D)" "dl_DigestID r = dg_id d" "dg_channel d \<noteq> ''dashboard''" "dl_Channel r = dg_channel d"
      "dl_Payload r = dg_payload d" "dl_PayloadSHA256 r = dg_payload_sha256 d" "dl_IdempotencyKey r = dg_idempotency_key d"
    using assms(2) by (auto simp: request_ok_def)
  obtain d' where d': "d' \<in> set (ddb_digests D')" "frozen d' = frozen d" using keeps_frozen_row [OF assms(1) d(1)] by blast
  with d assms(2) show ?thesis unfolding request_ok_def frozen_eq_sel [OF d'(2), symmetric] by blast
qed

lemma system_invI:
  assumes "system_inv V s" and "sound (sy_db s) D'" and "\<And>r. r \<in># rs \<Longrightarrow> r \<in># sy_sending s \<or> request_ok V D' r"
  shows "system_inv V \<lparr>sy_db = D', sy_sending = rs\<rparr> \<and> keeps_frozen (sy_db s) D'"
proof -
  have "core_inv (sy_db s)" using assms(1) by (simp add: system_inv_def digest_inv_def)
  then have kf: "keeps_frozen (sy_db s) D'" using assms(2) by (simp add: sound_def)
  have "request_ok V D' r" if "r \<in># rs" for r
    using assms(1,3) that request_ok_keeps [OF kf] by (auto simp: system_inv_def)
  then show ?thesis using kf assms(1) sound_inv [OF assms(2)] by (simp add: system_inv_def)
qed

lemma claim_request:
  assumes "beginDelivery V i now D = Inr (D', Some r)" and "pg_laws (ev_pg V)" and "sound D D'" "core_inv D"
  shows "request_ok V D' r"
proof -
  obtain j d oc a where j: "pg_uuid (ev_pg V) i = Some j" "find_digest D j = Some d" "dg_channel d \<noteq> ''dashboard''" "r = delivery_request d oc a"
    using beginDelivery_Some [OF assms(1)] by blast
  have "pg_uuid (ev_pg V) j = Some j" using assms(2) j(1) by (auto simp: pg_laws_def)
  then have "request_ok V D r" using j find_digest_Some [OF j(2)] by (auto simp: request_ok_def delivery_request_def)
  then show ?thesis using assms(3,4) by (auto simp: sound_def intro: request_ok_keeps)
qed

lemma failed_sound:
  assumes "failDelivery V (dl_DigestID r) code now D = Inr (D', u)" and "request_ok V D r"
  shows "sound D D'"
proof -
  let ?i = "dl_DigestID r"
  obtain d0 where d0: "d0 \<in> set (ddb_digests D)" "?i = dg_id d0" "dg_channel d0 \<noteq> ''dashboard''"
    and uuid: "pg_uuid (ev_pg V) ?i = Some ?i" using assms(2) by (auto simp: request_ok_def)
  obtain d where d: "find_digest D ?i = Some d" using assms(1) uuid by (auto simp: failDelivery_def uuid_param_def split: option.split_asm)
  show ?thesis
  proof (cases "dg_channel d = ''dashboard''")
    case False
    then show ?thesis by (rule failDelivery_sound [OF assms(1) uuid d])
  next
    case True
    then have "\<not> core_inv D"
      using d0 find_digest_Some [OF d] by (auto simp: core_inv_def keys_ok_def distinct_map inj_on_def)
    then show ?thesis by (simp add: sound_def)
  qed
qed

lemma schedule_sound:
  assumes "oc_id oc \<notin> oc_id ` set (ddb_occurrences D)" "oc_state oc \<noteq> ''delivered''"
  shows "sound D (D\<lparr>ddb_occurrences := ddb_occurrences D @ [oc]\<rparr>)"
  using assms tables_cong [of "D\<lparr>ddb_occurrences := ddb_occurrences D @ [oc]\<rparr>" D]
  by (auto simp: sound_def core_inv_def keeps_frozen_same occurrences_ok_def)

lemma digest_step_sound:
  assumes "digest_step V s s'" "pg_laws (ev_pg V)" "system_inv V s"
  shows "system_inv V s' \<and> keeps_frozen (sy_db s) (sy_db s')"
proof -
  note I = system_invI [OF assms(3)]
  have upd: "system_inv V (with_db s D') \<and> keeps_frozen (sy_db s) (sy_db (with_db s D'))" if "sound (sy_db s) D'" for D'
    using I [OF that, of "sy_sending s"] by (cases s) (simp add: with_db_def)
  have core: "core_inv (sy_db s)" using assms(3) by (simp add: system_inv_def digest_inv_def)
  have sub: "x \<in># sy_sending s" if "x \<in># sy_sending s - {#r#}" for x r using that by (rule in_diffD)
  show ?thesis
    using assms(1)
  proof cases
    case (settings schedules)
    have "sound (sy_db s) ((sy_db s)\<lparr>ddb_schedules := schedules\<rparr>)"
      by (rule occurrence_sound [where i = "[]" and h = "\<lambda>oc. oc"]) simp_all
    then show ?thesis using upd settings by simp
  next
    case (claim i now D' r)
    show ?thesis using I [OF beginDelivery_sound [OF claim(2)], of "add_mset r (sy_sending s)"]
      claim_request [OF claim(2) assms(2) beginDelivery_sound [OF claim(2)] core] claim(1) by auto
  next
    case (sent r providerID now D' u)
    then show ?thesis using I [OF completeDelivery_sound [OF sent(3)], of "sy_sending s - {#r#}"] sub by auto
  next
    case (failed r code now D' u)
    then have "request_ok V (sy_db s) r" using assms(3) by (simp add: system_inv_def)
    then show ?thesis using I [OF failed_sound [OF failed(3)], of "sy_sending s - {#r#}"] sub failed(1) by auto
  next
    case (lost r)
    then show ?thesis using I [OF sound_refl, of "sy_sending s - {#r#}"] sub by (cases s) auto
  qed (auto intro!: upd schedule_sound dest: queueOccurrence_sound preflight_sound prepare_sound finalize_sound retryDelivery_sound)
qed

lemma digest_run_sound:
  assumes "digest_run V s s'" "pg_laws (ev_pg V)" "system_inv V s"
  shows "system_inv V s' \<and> keeps_frozen (sy_db s) (sy_db s')"
  using assms(1)
proof induction
  case refl
  show ?case using assms(3) by (simp add: keeps_frozen_refl)
next
  case (step s' s'')
  then show ?case using digest_step_sound [OF step(2) assms(2)] keeps_frozen_trans by blast
qed

text \<open>Before any digest exists.\<close>

definition no_digests :: "digest_system \<Rightarrow> bool" where
  "no_digests s \<longleftrightarrow> ddb_digests (sy_db s) = [] \<and> ddb_items (sy_db s) = [] \<and> ddb_attempts (sy_db s) = []
     \<and> distinct (map oc_id (ddb_occurrences (sy_db s))) \<and> sy_sending s = {#}"

lemma no_digests_inv: "no_digests s \<Longrightarrow> system_inv V s"
  by (simp add: no_digests_def system_inv_def digest_inv_def core_inv_def keys_ok_def has_dashboard_def ledger_ok_def foreign_ok_def
        occurrences_ok_def)

text \<open>
  C20. However the jobs of several workers, the owner's retries, the scheduler and the settings
  interleave: an occurrence has at most one digest per channel and always a dashboard digest, which is
  delivered at once; every external digest has exactly one row in the delivery ledger, with its key
  and its payload hash, and the two are always in the same state; an occurrence is called delivered
  only when all its digests are; and every request a worker holds carries the frozen payload, hash
  and key of an external digest.
\<close>

theorem digest_system_safe:
  assumes "digest_run V s s'" and "no_digests s" and "pg_laws (ev_pg V)"
  shows "digest_inv (sy_db s') \<and> (\<forall>r\<in>#sy_sending s'. request_ok V (sy_db s') r)"
  using digest_run_sound [OF assms(1,3) no_digests_inv [OF assms(2)]] by (simp add: system_inv_def)

lemma keeps_frozen_items:
  assumes "keeps_frozen D D'" "d \<in> set (ddb_digests D)"
  shows "filter (\<lambda>t. it_digest_id t = dg_id d) (ddb_items D') = filter (\<lambda>t. it_digest_id t = dg_id d) (ddb_items D)"
proof -
  obtain items where "ddb_items D' = ddb_items D @ items" "\<forall>t\<in>set items. it_digest_id t \<notin> dg_id ` set (ddb_digests D)"
    using assms(1) by (auto simp: keeps_frozen_def)
  moreover from this have "filter (\<lambda>t. it_digest_id t = dg_id d) items = []" using assms(2) by (auto simp: filter_empty_conv)
  ultimately show ?thesis by simp
qed


section \<open>One delivery\<close>

lemma attempt_tx_Inr: "attempt_tx fate body D = (Inr r, D') \<Longrightarrow> body D = Inr (D', r)"
  by (auto simp: attempt_tx_def split: attempt_fate.split_asm dest: run_tx_Inr)

lemma attempt_tx_Inl: "attempt_tx fate body D = (Inl e, D') \<Longrightarrow> D' = D"
  by (auto simp: attempt_tx_def run_tx_def split: attempt_fate.split_asm sum.split_asm if_split_asm)

text \<open>
  The contract of the retry loop: when other transactions keep a relation to the first state, an
  accepted result comes from one execution of the body on such a state.
\<close>

locale serializable_op =
  fixes body :: "digest_db \<Rightarrow> digest_error + (digest_db \<times> 'a)" and R :: "digest_db \<Rightarrow> digest_db \<Rightarrow> bool"
  assumes refl: "R D D" and trans: "R D D' \<Longrightarrow> R D' D'' \<Longrightarrow> R D D''"
begin

lemma serializable_from_once:
  "serializable_from left attempt su body D = (res, D') \<Longrightarrow> (\<And>k E. R E (su_others su k E))
   \<Longrightarrow> (\<exists>D1. R D D1 \<and> (case res of Inr r \<Rightarrow> body D1 = Inr (D', r) | Inl e \<Rightarrow> D' = D1))"
proof (induction left arbitrary: attempt D)
  case 0
  then show ?case
    by (auto split: sum.split dest: attempt_tx_Inr attempt_tx_Inl intro!: exI [of _ "su_others su attempt D"])
next
  case (Suc left)
  obtain r D1 where a: "attempt_tx (su_fate su attempt) body (su_others su attempt D) = (r, D1)" by (metis surj_pair)
  show ?case
  proof (cases "r = Inl DigestSerialization")
    case False
    then show ?thesis using Suc.prems a
      by (auto split: sum.split dest: attempt_tx_Inr attempt_tx_Inl intro!: exI [of _ "su_others su attempt D"])
  next
    case True
    then have D1: "D1 = su_others su attempt D" using a attempt_tx_Inl by blast
    show ?thesis
    proof (cases "su_canceled su attempt")
      case True
      then show ?thesis using Suc.prems a D1 \<open>r = _\<close> by (intro exI [of _ D1]) auto
    next
      case False
      then have "serializable_from left (attempt + 1) su body D1 = (res, D')" using Suc.prems(1) a \<open>r = _\<close> by simp
      from Suc.IH [OF this Suc.prems(2)] show ?thesis using trans D1 Suc.prems(2) by blast
    qed
  qed
qed

lemma retry_once:
  "retrySerializableValue su body D = (res, D') \<Longrightarrow> (\<And>k E. R E (su_others su k E))
   \<Longrightarrow> (\<exists>D1. R D D1 \<and> (case res of Inr r \<Rightarrow> body D1 = Inr (D', r) | Inl e \<Rightarrow> D' = D1))"
  unfolding retrySerializableValue_def by (rule serializable_from_once)

end

interpretation begin_op: serializable_op "beginDelivery V digestID now" sound for V digestID now
  by unfold_locales (auto simp: sound_def keeps_frozen_refl intro: keeps_frozen_trans)

interpretation complete_op: serializable_op "completeDelivery V digestID providerID now" sound for V digestID providerID now
  by unfold_locales (auto simp: sound_def keeps_frozen_refl intro: keeps_frozen_trans)

definition delivered_in :: "digest_db \<Rightarrow> string \<Rightarrow> bool" where
  "delivered_in D i \<longleftrightarrow> (\<forall>d\<in>set (ddb_digests D). dg_id d = i \<longrightarrow> dg_state d = ''delivered'')"

lemma completeDelivery_delivers:
  assumes "completeDelivery V i providerID now D = Inr (D', u)" and "pg_uuid (ev_pg V) i = Some i" and "keys_ok (ddb_digests D)"
  shows "delivered_in D' i"
proof -
  obtain d where d: "find_digest D i = Some d" using assms(1,2) by (auto simp: completeDelivery_def uuid_param_def split: option.split_asm)
  have one: "e = d" if "e \<in> set (ddb_digests D)" "dg_id e = i" for e
    using that find_digest_Some [OF d] assms(3) by (auto simp: keys_ok_def distinct_map inj_on_def)
  show ?thesis
  proof (cases "dg_state d = ''delivered''")
    case True
    then have "D' = D" using assms(1,2) d by (simp add: completeDelivery_def uuid_param_def)
    then show ?thesis using True one by (auto simp: delivered_in_def)
  next
    case False
    then have "ddb_digests D' = ddb_digests (completion_writes V d providerID now D)"
      using assms(1,2) d by (auto simp: completeDelivery_def uuid_param_def Let_def split: if_split_asm)
    then show ?thesis using find_digest_Some [OF d] by (auto simp: completion_writes_def delivered_in_def)
  qed
qed

interpretation begin_alone: serializable_op "beginDelivery V digestID now" "(=)" for V digestID now
  by unfold_locales simp_all

lemma BeginDelivery_alone:
  assumes "BeginDelivery V su digestID now D = (b, D1)" and "su_others su = (\<lambda>k E. E)"
    and "pg_uuid (ev_pg V) digestID = Some i" "delivered_in D i"
  shows "D1 = D \<and> (\<forall>r. b \<noteq> Inr (Some r))"
proof -
  have once: "case b of Inr r \<Rightarrow> beginDelivery V digestID now D = Inr (D1, r) | Inl e \<Rightarrow> D1 = D"
    using begin_alone.retry_once [OF assms(1) [unfolded BeginDelivery_def]] assms(2) by auto
  have none: "beginDelivery V digestID now D \<noteq> Inr (D1, Some r)" for r
    using beginDelivery_Some [of V digestID now D D1 r] assms(3,4) find_digest_Some by (fastforce simp: delivered_in_def)
  show ?thesis
  proof (cases b)
    case (Inr r)
    then show ?thesis using once none beginDelivery_None by (cases r) auto
  qed (use once in simp)
qed

lemma BeginDelivery_claims:
  assumes "BeginDelivery V su digestID now D = (Inr (Some r), D1)" and "digest_inv D" and "pg_laws (ev_pg V)" and "\<And>k E. sound E (su_others su k E)"
  shows "digest_inv D1 \<and> request_ok V D1 r"
proof -
  obtain D0 where D0: "sound D D0" "beginDelivery V digestID now D0 = Inr (D1, Some r)"
    using begin_op.retry_once [OF assms(1) [unfolded BeginDelivery_def] assms(4)] by auto
  then have "digest_inv D0" using assms(2) sound_inv by blast
  then show ?thesis
    using beginDelivery_sound [OF D0(2)] claim_request [OF D0(2) assms(3)] sound_inv by (auto simp: digest_inv_def)
qed

lemma CompleteDelivery_result:
  assumes "CompleteDelivery V su (dl_DigestID r) receipt now D = (c, D')" and "digest_inv D" and "request_ok V D r" and "\<And>k E. sound E (su_others su k E)"
  shows "request_ok V D' r \<and> (\<forall>u. c = Inr u \<longrightarrow> delivered_in D' (dl_DigestID r))"
proof (cases "trim_space receipt = [] \<or> length (trim_space receipt) > 255")
  case True
  then show ?thesis using assms by (auto simp: CompleteDelivery_def Let_def)
next
  case False
  then have "retrySerializableValue su (completeDelivery V (dl_DigestID r) (trim_space receipt) now) D = (c, D')"
    using assms(1) by (simp add: CompleteDelivery_def Let_def)
  from complete_op.retry_once [OF this assms(4)] obtain D0 where D0: "sound D D0"
    "case c of Inr u \<Rightarrow> completeDelivery V (dl_DigestID r) (trim_space receipt) now D0 = Inr (D', u) | Inl e \<Rightarrow> D' = D0" by auto
  have inv: "core_inv D" "core_inv D0" "request_ok V D0 r"
    using assms(2,3) D0(1) by (auto simp: digest_inv_def sound_def intro: request_ok_keeps)
  show ?thesis
  proof (cases c)
    case (Inl e)
    then show ?thesis using D0(2) inv(3) by simp
  next
    case (Inr u)
    then have c: "completeDelivery V (dl_DigestID r) (trim_space receipt) now D0 = Inr (D', u)" using D0(2) by simp
    have "delivered_in D' (dl_DigestID r)" using completeDelivery_delivers [OF c] inv(2,3) by (simp add: request_ok_def core_inv_def)
    then show ?thesis using completeDelivery_sound [OF c] inv(2,3) by (auto simp: sound_def intro: request_ok_keeps)
  qed
qed

lemma FailDelivery_result:
  assumes "FailDelivery V fate (dl_DigestID r) code now D = (c, D')" and "digest_inv D" and "request_ok V D r"
  shows "request_ok V D' r"
proof (cases c)
  case (Inl e)
  then show ?thesis using assms by (auto simp: FailDelivery_def run_tx_def split: sum.split_asm if_split_asm)
next
  case (Inr u)
  then have "failDelivery V (dl_DigestID r) code now D = Inr (D', u)" using assms(1) by (auto simp: FailDelivery_def dest: run_tx_Inr)
  from failed_sound [OF this assms(3)] show ?thesis using assms(2,3) by (auto simp: sound_def digest_inv_def intro: request_ok_keeps)
qed

text \<open>A recorded failure: the digest and its ledger row are failed with the code.\<close>

definition failed_in :: "digest_db \<Rightarrow> digest_delivery \<Rightarrow> string \<Rightarrow> bool" where
  "failed_in D r code \<longleftrightarrow>
     (\<forall>d\<in>set (ddb_digests D). dg_id d = dl_DigestID r \<longrightarrow> dg_state d = ''failed'' \<and> dg_error_code d = Some code)
     \<and> (\<forall>a\<in>set (ddb_attempts D). at_digest_id a = dl_DigestID r \<and> at_channel a = dl_Channel r \<longrightarrow> at_state a = ''failed'' \<and> at_error_code a = Some code)"

lemma request_digest:
  assumes "core_inv D" "request_ok V D r"
  shows "\<exists>d. find_digest D (dl_DigestID r) = Some d \<and> dg_id d = dl_DigestID r \<and> dg_channel d = dl_Channel r"
proof -
  obtain e where e: "e \<in> set (ddb_digests D)" "dl_DigestID r = dg_id e" "dl_Channel r = dg_channel e" using assms(2) by (auto simp: request_ok_def)
  then obtain d where d: "find_digest D (dl_DigestID r) = Some d" using e by (cases "find_digest D (dl_DigestID r)") (auto simp: find_digest_def find_None_iff)
  then have "d = e" using find_digest_Some [OF d] e assms(1) by (auto simp: core_inv_def keys_ok_def distinct_map inj_on_def)
  then show ?thesis using d e by simp
qed

lemma FailDelivery_records:
  assumes "FailDelivery V fate (dl_DigestID r) code now D = (c, D')" and "core_inv D" and "request_ok V D r"
  shows "isl c = (fate \<noteq> Commits)" "fate = Commits \<Longrightarrow> failed_in D' r (boundedErrorCode code)"
proof -
  obtain d where d: "find_digest D (dl_DigestID r) = Some d" "dg_id d = dl_DigestID r" "dg_channel d = dl_Channel r" using request_digest [OF assms(2,3)] by blast
  have uuid: "pg_uuid (ev_pg V) (dl_DigestID r) = Some (dl_DigestID r)" using assms(3) by (simp add: request_ok_def)
  show "isl c = (fate \<noteq> Commits)"
    using assms(1) d uuid by (cases fate) (auto simp: FailDelivery_def run_tx_def failDelivery_def uuid_param_def Let_def)
  show "failed_in D' r (boundedErrorCode code)" if "fate = Commits"
    using assms(1) d uuid that
    by (auto simp: FailDelivery_def run_tx_def failDelivery_def uuid_param_def Let_def failed_in_def update_occurrence_row_def update_digest_row_def update_attempt_rows_def)
qed

text \<open>A transaction that commits at the latest on its fifth attempt, with only serialization failures before.\<close>

definition commits_in_time :: "surroundings \<Rightarrow> bool" where
  "commits_in_time su \<longleftrightarrow> (\<exists>k<5. su_fate su k = Attempt Commits \<and> (\<forall>j<k. su_fate su j = Serialization_failure \<and> \<not> su_canceled su j))"

lemma serializable_from_commits:
  assumes "\<And>k E. P E \<Longrightarrow> P (su_others su k E)" "\<And>E. P E \<Longrightarrow> \<exists>y. body E = Inr y"
  shows "P D \<Longrightarrow> k \<le> left \<Longrightarrow> \<forall>j<k. su_fate su (a + j) = Serialization_failure \<and> \<not> su_canceled su (a + j)
    \<Longrightarrow> su_fate su (a + k) = Attempt Commits \<Longrightarrow> \<not> isl (fst (serializable_from left a su body D))"
proof (induction left arbitrary: a k D)
  case 0
  then obtain D1 y where "body (su_others su a D) = Inr (D1, y)" using assms by (metis surj_pair)
  then show ?case using 0 by (simp add: attempt_tx_def run_tx_def)
next
  case (Suc left)
  show ?case
  proof (cases k)
    case 0
    obtain D1 y where "body (su_others su a D) = Inr (D1, y)" using Suc.prems(1) assms by (metis surj_pair)
    then show ?thesis using Suc.prems(4) 0 by (simp add: attempt_tx_def run_tx_def)
  next
    case (Suc k')
    have first: "su_fate su a = Serialization_failure" "\<not> su_canceled su a" using Suc.prems(3) Suc by (metis add.right_neutral zero_less_Suc)+
    have later: "\<forall>j<k'. su_fate su (a + 1 + j) = Serialization_failure \<and> \<not> su_canceled su (a + 1 + j)" "su_fate su (a + 1 + k') = Attempt Commits"
      using Suc.prems(3) [THEN spec, of "Suc _"] Suc.prems(4) Suc by auto
    have "\<not> isl (fst (serializable_from left (a + 1) su body (su_others su a D)))"
      using Suc.IH [OF assms(1) [OF Suc.prems(1)] _ later] Suc.prems(2) Suc by simp
    then show ?thesis using first by (simp add: attempt_tx_def)
  qed
qed

lemma CompleteDelivery_commits:
  assumes "CompleteDelivery V su (dl_DigestID r) receipt now D = (c, D')" and "core_inv D" and "request_ok V D r" and "\<And>k E. sound E (su_others su k E)"
    and "commits_in_time su" "trim_space receipt \<noteq> []" "length (trim_space receipt) \<le> 255"
  shows "\<not> isl c"
proof -
  obtain k where k: "k < 5" "su_fate su k = Attempt Commits" "\<forall>j<k. su_fate su j = Serialization_failure \<and> \<not> su_canceled su j"
    using assms(5) by (auto simp: commits_in_time_def)
  have keep: "core_inv (su_others su k E) \<and> request_ok V (su_others su k E) r" if "core_inv E \<and> request_ok V E r" for k E
    using that assms(4) [of E k] by (auto simp: sound_def intro: request_ok_keeps)
  have total: "\<exists>y. completeDelivery V (dl_DigestID r) (trim_space receipt) now E = Inr y" if "core_inv E \<and> request_ok V E r" for E
    using that request_digest [of E V r] by (auto simp: completeDelivery_def uuid_param_def request_ok_def Let_def)
  have "\<not> isl (fst (serializable_from (serializableAttempts - 1) 0 su (completeDelivery V (dl_DigestID r) (trim_space receipt) now) D))"
    by (rule serializable_from_commits [where P = "\<lambda>E. core_inv E \<and> request_ok V E r" and k = k, OF keep total])
      (use assms(2,3) k in \<open>auto simp: serializableAttempts_def\<close>)
  then show ?thesis using assms(1,6,7) by (simp add: CompleteDelivery_def retrySerializableValue_def Let_def)
qed

lemma failure_codes: "boundedErrorCode ''delivery_provider_rejected'' = ''delivery_provider_rejected''"
    "boundedErrorCode ''delivery_provider_unavailable'' = ''delivery_provider_unavailable''"
  by code_simp+

text \<open>
  What the job does after a claim: a permanent rejection is recorded and cancels the job, any other sending error is recorded and
  retried, and a failure that could not be recorded is retried; a receipt completes the delivery.
\<close>

definition after_send :: "digest_env \<Rightarrow> tx_fate \<Rightarrow> surroundings \<Rightarrow> digest_delivery \<Rightarrow> bool + string \<Rightarrow> job_result \<Rightarrow> digest_db \<Rightarrow> bool" where
  "after_send V fate su r outcome res D' \<longleftrightarrow>
     request_ok V D' r \<and>
     (case outcome of
        Inl permanent \<Rightarrow>
          res = (if permanent \<and> fate = Commits then JobCancel else JobRetry)
          \<and> (fate = Commits \<longrightarrow> failed_in D' r (if permanent then ''delivery_provider_rejected'' else ''delivery_provider_unavailable''))
      | Inr receipt \<Rightarrow>
          (res = JobDone \<and> delivered_in D' (dl_DigestID r) \<or> res = JobRetry)
          \<and> (commits_in_time su \<and> trim_space receipt \<noteq> [] \<and> length (trim_space receipt) \<le> 255 \<longrightarrow> res = JobDone))"

lemma after_send_holds:
  assumes "deliverDigestWork V su1 su2 fate send digestID now now2 D = (res, D', msgs)" and "BeginDelivery V su1 digestID now D = (Inr (Some r), D1)"
    and "digest_inv D1" "request_ok V D1 r" "\<And>k E. sound E (su_others su2 k E)"
  shows "msgs = [r]" "after_send V fate su2 r (send r) res D'"
proof -
  have core: "core_inv D1" using assms(3) by (simp add: digest_inv_def)
  have "msgs = [r] \<and> after_send V fate su2 r (send r) res D'"
  proof (cases "send r")
    case (Inl permanent)
    let ?code = "if permanent then ''delivery_provider_rejected'' else ''delivery_provider_unavailable''"
    obtain c D2 where c: "FailDelivery V fate (dl_DigestID r) ?code now2 D1 = (c, D2)" by (metis surj_pair)
    have "msgs = [r]" "D' = D2" "res = (if permanent \<and> \<not> isl c then JobCancel else JobRetry)"
      using assms(1,2) Inl c by (auto simp: deliverDigestWork_def split: sum.split_asm)
    moreover have "boundedErrorCode ?code = ?code" using failure_codes by simp
    ultimately show ?thesis using Inl FailDelivery_records [OF c core assms(4)] FailDelivery_result [OF c assms(3,4)] by (simp add: after_send_def)
  next
    case (Inr receipt)
    obtain c D2 where c: "CompleteDelivery V su2 (dl_DigestID r) receipt now2 D1 = (c, D2)" by (metis surj_pair)
    have "msgs = [r]" "D' = D2" "res = (if isl c then JobRetry else JobDone)"
      using assms(1,2) Inr c by (auto simp: deliverDigestWork_def split: sum.split_asm)
    moreover have "\<not> isl c \<Longrightarrow> delivered_in D2 (dl_DigestID r)" using CompleteDelivery_result [OF c assms(3,4,5)] by (cases c) auto
    ultimately show ?thesis
      using Inr CompleteDelivery_commits [OF c core assms(4,5)] CompleteDelivery_result [OF c assms(3,4,5)] by (auto simp: after_send_def)
  qed
  then show "msgs = [r]" "after_send V fate su2 r (send r) res D'" by auto
qed


section \<open>A concrete occurrence\<close>

definition sample_schedule :: digest_schedule where
  "sample_schedule = \<lparr>dsc_id = ''morning'', dsc_user_id = ''owner'', dsc_type = ''daily_digest'', dsc_maximum_items = 5,
     dsc_minimum_score = Fin (1 / 2), dsc_include_coming_soon = True, dsc_include_radar_candidates = False,
     dsc_include_later_reminders = False, dsc_empty_behavior = ''send_nothing'', dsc_channels = [''email'']\<rparr>"

definition sample_occurrence :: "string \<Rightarrow> digest_occurrence" where
  "sample_occurrence st = \<lparr>oc_id = ''occ1'', oc_schedule_id = ''morning'', oc_scheduled_for = 100 * 24 * hour, oc_local_date = ''2026-01-05'',
     oc_state = st, oc_trigger_type = ''scheduled'', oc_started_at = None, oc_completed_at = None, oc_error_code = None,
     oc_metadata = \<lparr>md_digestStage = None, md_externalDelivery = None, md_preflightAt = None, md_stalePrioritySources = None,
       md_duePrioritySources = None, md_preparedAt = None, md_windowStart = None, md_windowEnd = None, md_backlogWindow = None,
       md_candidateCount = None, md_finalizedAt = None, md_selectedCount = None, md_externalDeliveryCount = None\<rparr>\<rparr>"

definition sample_env :: digest_env where
  "sample_env = \<lparr>ev_pg = pg_sample, ev_round64 = (\<lambda>x. x), ev_sort = insertionSort, ev_stories = (\<lambda>_ _ _. Some []),
     ev_radar = (\<lambda>_ _ _. Some []), ev_priority = (\<lambda>_. Some (0, 0)), ev_eligible = (\<lambda>_ _ _. True), ev_candidate_json = Some,
     ev_payload_json = Some, ev_marshal = (\<lambda>_. Some ''{}''), ev_sha256 = (\<lambda>_. replicate 32 CHR ''h''), ev_enqueue = (\<lambda>_. True)\<rparr>"

definition sample_digest :: "string \<Rightarrow> string \<Rightarrow> digest_row" where
  "sample_digest i channel = \<lparr>dg_id = i, dg_user_id = ''owner'', dg_occurrence_id = ''occ1'', dg_local_date = ''2026-01-05'',
     dg_window_start = 0, dg_window_end = 1000, dg_channel = channel, dg_state = (if channel = ''dashboard'' then ''delivered'' else ''ready''),
     dg_item_limit = 5, dg_minimum_score = Fin (1 / 2), dg_empty_behavior = ''send_nothing'', dg_executive_summary = ''brief'',
     dg_payload = \<lparr>pl_Channel = channel, pl_Title = ''t'', pl_ExecutiveSummary = ''brief'', pl_LocalDate = ''2026-01-05'', pl_WindowStart = 0,
       pl_WindowEnd = 1000, pl_GeneratedAt = 2000, pl_Items = []\<rparr>,
     dg_payload_sha256 = replicate 32 CHR ''h'', dg_idempotency_key = ''digest:occ1:'' @ channel, dg_generated_at = 2000,
     dg_completed_at = (if channel = ''dashboard'' then Some 2000 else None), dg_error_code = None\<rparr>"

definition sample_queued :: digest_db where
  "sample_queued = \<lparr>ddb_schedules = [sample_schedule], ddb_occurrences = [sample_occurrence ''enqueued''], ddb_candidates = [], ddb_digests = [],
     ddb_items = [], ddb_attempts = [], ddb_jobs = [], ddb_events = [], ddb_seq = 0\<rparr>"

definition sample_ready :: digest_db where
  "sample_ready = sample_queued\<lparr>ddb_occurrences := [sample_occurrence ''ready''],
     ddb_digests := [sample_digest ''d1'' ''dashboard'', sample_digest ''d2'' ''email''],
     ddb_attempts := [pending_attempt (sample_digest ''d2'' ''email'')]\<rparr>"

lemma sample_rows: "digest_row_ok (sample_digest ''d1'' ''dashboard'')" "digest_row_ok (sample_digest ''d2'' ''email'')"
  by code_simp+

lemma sample_ready_inv: "digest_inv sample_ready"
proof -
  have "keys_ok (ddb_digests sample_ready)" "has_dashboard (ddb_digests sample_ready)" "occurrences_ok sample_ready" "foreign_ok sample_ready"
    by code_simp+
  moreover have "ledger_ok sample_ready"
    using sample_rows by (simp add: ledger_ok_def sample_ready_def attempts_of_def pending_attempt_def attempt_matches_def) (simp add: sample_digest_def)
  ultimately show ?thesis by (simp add: digest_inv_def core_inv_def)
qed

lemma sample_laws [simp]: "pg_laws (ev_pg sample_env)"
  by (simp add: sample_env_def pg_sample_laws)

definition sample_started :: digest_db where
  "sample_started = fst (projr (queueOccurrence sample_env 0 ''occ1'' sample_queued))"

theorem digest_system_safe_witness:
  "digest_inv sample_started \<and> map oc_state (ddb_occurrences sample_started) = [''preparing'']"
proof -
  have "\<not> isl (queueOccurrence sample_env 0 ''occ1'' sample_queued)" and state: "map oc_state (ddb_occurrences sample_started) = [''preparing'']"
    by code_simp+
  then have "queueOccurrence sample_env 0 ''occ1'' sample_queued = Inr (sample_started, ())"
    by (cases "queueOccurrence sample_env 0 ''occ1'' sample_queued") (auto simp: sample_started_def)
  then have "digest_run sample_env \<lparr>sy_db = sample_queued, sy_sending = {#}\<rparr> (with_db \<lparr>sy_db = sample_queued, sy_sending = {#}\<rparr> sample_started)"
    by (intro digest_run.step [OF digest_run.refl] digest_step.queue) simp
  from digest_system_safe [OF this] show ?thesis using state
    by (simp add: no_digests_def sample_queued_def with_db_def)
qed

definition sample_settings :: occurrence_settings where
  "sample_settings = projr (selectOccurrenceSettings sample_queued ''occ1'')"

lemma prepare_window_witness:
  "\<exists>ws we. we = 100 * 24 * hour - 15 * minute \<and> ws < we
     \<and> md_windowEnd (oc_metadata (hd (ddb_occurrences (fst (projr (prepare_new sample_env ''occ1'' ''occ1'' sample_settings 0 sample_queued)))))) = Some we"
proof -
  let ?r = "prepare_new sample_env ''occ1'' ''occ1'' sample_settings 0 sample_queued"
  have "\<not> isl ?r" "os_ScheduledFor sample_settings = 100 * 24 * hour" "map oc_id (ddb_occurrences (fst (projr ?r))) = [''occ1'']"
    by code_simp+
  moreover from this have "?r = Inr (fst (projr ?r), ())" by (cases ?r) auto
  ultimately show ?thesis using prepare_window [of sample_env "''occ1''" "''occ1''" sample_settings 0 sample_queued "fst (projr ?r)" "()"]
    by (cases "ddb_occurrences (fst (projr ?r))") auto
qed

definition sample_claimed :: digest_db where
  "sample_claimed = fst (projr (beginDelivery sample_env ''d2'' 5000 sample_ready))"


text \<open>No interference, and one serialization failure before the claim succeeds.\<close>

definition sample_calm :: surroundings where
  "sample_calm = \<lparr>su_fate = (\<lambda>k. if k = 0 then Serialization_failure else Attempt Commits), su_others = (\<lambda>k D. D), su_canceled = (\<lambda>k. False)\<rparr>"

definition sample_delivery :: "job_result \<times> digest_db \<times> digest_delivery list" where
  "sample_delivery = deliverDigestWork sample_env sample_calm sample_calm Commits (\<lambda>r. Inr ''msg-1'') ''d2'' 5000 6000 sample_ready"


text \<open>
  \<open>FailDelivery\<close> does not look at the digest's state: a failure recorded late, after another worker
  completed the delivery, reopens a delivered digest, and the next claim sends it again.
\<close>

definition sample_reopened :: digest_db where
  "sample_reopened = fst (projr (failDelivery sample_env ''d2'' ''delivery_provider_unavailable'' 7000 (fst (snd sample_delivery))))"

lemma late_failure_reopens:
  "map dg_state (ddb_digests (fst (snd sample_delivery))) = [''delivered'', ''delivered'']
   \<and> map dg_state (ddb_digests sample_reopened) = [''delivered'', ''failed'']
   \<and> \<not> Option.is_none (snd (projr (beginDelivery sample_env ''d2'' 8000 sample_reopened)))"
  by (intro conjI; code_simp)

end
