(* ===== verification/Spec2Isabelle.thy ===== *)
theory Spec2Isabelle
  imports Reading_Store Scheduler Webhook Soak Alert_System Source_Poller Parse_Worker Dedupe Search Fetch_Limiter Job_Retry Retention Digest_Workflow
begin

text \<open>
  A verification library for Relantern, a single-owner developer-intelligence platform written in Go
  (sources under \<open>src/\<close>). The platform polls reviewed sources, fetches them under a strict
  destination policy, parses and deduplicates what it finds, extracts claims with a language model,
  and presents the result as stories that the owner reads, searches, snoozes and receives as a
  daily digest; confirmed critical advisories raise alerts. State lives in PostgreSQL and in an object
  store, and work runs as jobs of the queue library River.

  \<^bold>\<open>Conventions.\<close> A Go function that returns \<open>(T, error)\<close> is a function into \<open>'e + 'a\<close>, one that returns
  only an error is a function into \<open>'e option\<close>; a struct is a record, a string is a list of bytes, an
  instant is a number of nanoseconds, and a store operation is a function on a record of tables
  that runs as the body of a transaction (\<open>Postgres.run_tx\<close>). What is not part of the repository is an argument:
  \<^item> the database server and the UUID package: the record \<open>pg\<close>, with \<open>pg_laws\<close> for what they document;
  \<^item> the time-zone database (\<open>tz\<close>), the rounding of \<open>float64\<close> (\<open>round64\<close>), Unicode tables (\<open>unicode\<close>), URL and
    address parsers and the resolver (\<open>url_parse\<close>, \<open>net_lib\<close>), the library sort (with the contract of the
    locale \<open>slice_sort\<close>), JSON codecs, SHA-256, the insertion of unique jobs (\<open>queue_law\<close>), the HTTP client, the provider, the sender, the bucket service and the file system.

  \<^bold>\<open>Prelude.\<close> \<open>Go_Base\<close> (results, early returns, loops that stop at an error, 64-bit wrap-around, IEEE
  comparisons), \<open>Go_Strings\<close> (UTF-8 decoding, trimming, splitting, number syntax), \<open>Go_Time\<close> (instants,
  calendar, RFC 3339), \<open>Go_Sort\<close> (the contract of the library's sorts and an instance of it),
  \<open>Postgres\<close> (the server's behaviour, transactions and the contract \<open>tx_body\<close>).

  \<^bold>\<open>Components.\<close>
  \<^item> \<open>Reading_State\<close>: \<open>src/internal/readingstate/transition.go\<close> and \<open>readingstate.go\<close>. The transition function \<open>Apply\<close>
    and \<open>Validate\<close>. Reachable states satisfy the constraints of their table, validation never rejects
    an accepted command, each command changes its own dimension only, snoozes return on time.
  \<^item> \<open>Reading_Store\<close>: \<open>src/internal/readingstate/pgstore\<close> (\<open>store.go\<close>, \<open>snooze.go\<close>, \<open>feedback.go\<close>). Every store call as a
    transaction on the tables; it uses \<open>Reading_State.Apply\<close>. The store implements the state machine (\<open>mutate_refines\<close>), commands are
    idempotent, no update is lost, undo is an inverse, bulk commands are atomic; the tables keep their constraints.
  \<^item> \<open>Scheduler\<close>: \<open>src/internal/scheduler\<close>. \<open>NextOccurrence\<close> is sound in every zone and the least due instant in a
    zone with one offset; the search is bounded by 370 days as in the code. \<open>Reconcile\<close> records each due instant once.
  \<^item> \<open>Evidence_Spans\<close>, \<open>Claim_Extraction\<close>: \<open>src/internal/extraction\<close> (\<open>spans.go\<close>, \<open>budget.go\<close>, \<open>validate.go\<close>, \<open>processor.go\<close>).
    Spans cover the text, accepted outputs are exactly the grounded ones, a run asks at most twice.
  \<^item> \<open>Research\<close>: \<open>src/internal/research\<close> (\<open>types.go\<close>, \<open>validate.go\<close>, \<open>processor.go\<close>, \<open>client.go\<close>); it uses \<open>Claim_Extraction\<close> for budgets and model
    configuration. A job sends verified facts under their recorded digest, at most once, and completes a run only as its last call, directly after a successful
    record of the attempt, with a brief that cites supplied claims and returned sources on approved domains; the identity of the facts does not depend on their order.
  \<^item> \<open>Webhook\<close>: \<open>src/internal/openaiwebhook/webhook.go\<close> and the poll job of \<open>src/internal/worker/river.go\<close>; it uses \<open>Research\<close> and \<open>Postgres\<close>. The store as a
    step relation with the queue's removal of jobs and the pruning of processed events by \<open>src/internal/retention/pgstore\<close>: for accepted events a
    poll job was inserted, deliveries of stored events are idempotent (at the time resolution of the database), collisions are refused; the handler
    only reaches the store with an authorised request, and the job marks events when it is done with their response.
  \<^item> \<open>Soak\<close>: \<open>src/internal/soak/ledger.go\<close>. The evaluation refines a declarative gate.
  \<^item> \<open>Alert\<close>: \<open>src/internal/alert\<close> (\<open>match.go\<close>, \<open>policy.go\<close>, \<open>types.go\<close>); it uses \<open>Scheduler\<close> for quiet hours. Exactly the
    affected watches are alerted; in a zone without clock changes the delivery time is the first instant outside quiet hours.
  \<^item> \<open>Advisory_Evidence\<close>: \<open>src/internal/storage/storage.go\<close>, \<open>src/internal/sources/global_advisories.go\<close> and \<open>readAdvisory\<close>. Object keys are
    content addresses that name their source and digest; an advisory is only read from bytes with the recorded digest.
  \<^item> \<open>Advisory_Links\<close>: the pagination in \<open>src/internal/sources/global_advisories.go\<close>; it uses \<open>Advisory_Evidence\<close>. The next page is always another
    page of the official feed, and a usual \<open>Link\<close> header is understood.
  \<^item> \<open>Source_Registry\<close>: \<open>src/internal/sources\<close> (\<open>types.go\<close>, \<open>validate.go\<close>). Validation of the registry and its fixtures; what it accepts
    is well-typed, its advisory endpoints are those \<open>Advisory_Evidence\<close> accepts, and its fixtures exceed every limit.
  \<^item> \<open>Alert_Store\<close>, \<open>Alert_Ledger\<close>, \<open>Alert_Delivery\<close>, \<open>Alert_System\<close>: \<open>src/internal/alert/pgstore\<close> and the alert delivery job of
    \<open>src/internal/worker/river.go\<close>; they use \<open>Alert\<close> and \<open>Advisory_Evidence\<close>. Admission, correction, ordered observations, backfill and
    catch-up (\<open>Alert_Store\<close>), the invariant of the ledger and what no transaction undoes (\<open>Alert_Ledger\<close>), claims,
    outcomes and reconciliation (\<open>Alert_Delivery\<close>), and the whole store as a step relation over concurrent workers
    (\<open>Alert_System\<close>): a consistent ledger, claims for current alerts only, one payload under one key, nothing sent
    after a receipt or a correction, no delivery that stays stranded, observations in order and once.
  \<^item> \<open>Dedupe\<close>: \<open>src/internal/dedupe\<close> (\<open>simhash.go\<close>, \<open>decision.go\<close>, \<open>types.go\<close>). The best match is chosen, when the
    revisions of an item agree on tier and first appearance.
  \<^item> \<open>Search\<close>: \<open>src/internal/search/search.go\<close>. Fusion equals its reference for every map order.
  \<^item> \<open>Fetch_Policy\<close>, \<open>Fetch_Limiter\<close>: \<open>src/internal/fetcher\<close> (\<open>policy.go\<close>, \<open>limiter.go\<close>). No address of a special-purpose range
    is dialled (for an address with a zone the code only tests some of the ranges, and the theorem says which); the limiter is a step relation over concurrent calls, with its bounds, progress and rate.
  \<^item> \<open>Object_Store\<close>: \<open>src/internal/storage/s3store/store.go\<close>. Staging, commit, abort, bounded reads and deletion on a bucket whose calls
    may fail with or without an effect (\<open>oc_outcome\<close>); the locale \<open>raw_store\<close> states what its clients rely on.
  \<^item> \<open>Fetcher\<close>: \<open>src/internal/fetcher\<close> (\<open>fetcher.go\<close>, \<open>transport.go\<close>, \<open>body.go\<close>, \<open>endpoint.go\<close>, \<open>types.go\<close>); it uses \<open>Fetch_Policy\<close>, \<open>Advisory_Links\<close>,
    \<open>Source_Registry\<close> and \<open>Object_Store\<close>. The whole fetch with its retries: what is reported stored is stored, the store stays
    content-addressed, requests are bounded and made under a slot, the token only goes to the GitHub API over HTTPS, redirects and connections obey the policy, and
    validated registry endpoints are fetchable.
  \<^item> \<open>Robots\<close>, \<open>Source_Poller\<close>: \<open>src/internal/ingestion\<close> (\<open>network.go\<close> and the poller of \<open>ingestion.go\<close>); they use \<open>Fetcher\<close>. The longest matching
    robots rule decides; a poll of the advisory feed refuses an invalid cursor and only follows pages of the feed, and a scan over any number of polls,
    with the checkpoints that the fetch store (\<open>src/internal/fetcher/pgstore\<close>) keeps between them, ends.
  \<^item> \<open>Parse_Worker\<close>: \<open>src/internal/parsing/processor.go\<close> and the parse worker of \<open>ingestion.go\<close>; it uses \<open>Object_Store\<close>. A parse job acts on
    verified evidence and hands a document on exactly once; normalised text is content-addressed.
  \<^item> \<open>Job_Retry\<close>: \<open>src/internal/jobqueue/retry.go\<close>. The delay is exact and never overflows.
  \<^item> \<open>Retention\<close>: \<open>src/internal/retention/retention.go\<close>. Runs are bounded (ten batches of each kind), prune with
    the exact cutoffs of the policy only and record exactly one end with exact counts.
  \<^item> \<open>Digest_Ranking\<close>: \<open>src/internal/digest\<close> (\<open>rank.go\<close>, \<open>render.go\<close>). The selection equals a declarative reference.
  \<^item> \<open>Digest_Workflow\<close>: \<open>src/internal/digest/pgstore\<close> and the delivery job of \<open>src/internal/worker/river.go\<close>; it uses
    \<open>Digest_Ranking\<close>. The whole workflow as a step relation over concurrent workers, the invariant of
    its tables, the immutability of frozen digests, the outcome of the delivery job on every branch (cancelled, retried, done, and what is recorded).

  \<^bold>\<open>Interfaces.\<close> \<open>slice_sort\<close> (a sort and its contract; interpreted by the library's insertion sort), \<open>tx_body\<close> (a
  transaction body that keeps an invariant; interpreted by the reading store's operations),
  \<open>serializable_op\<close> (an operation retried on serialization failures; interpreted by the digest's claim and completion),
  \<open>ledger_operation\<close> (an operation that keeps the alert ledger; interpreted by every operation of the alert store),
  \<open>raw_store\<close> (staging, commit and abort of objects; interpreted by the S3 store, relied on by the fetcher and the parse processor) and
  \<open>page_source\<close> (a fetch of feed pages; interpreted by the network fetcher on the S3 store, relied on by the poller).

  \<^bold>\<open>Bounds.\<close> No fuel is added anywhere: loops are structural recursions, recursions on what is left of
  a string, or bounded as in the code (370 days of search, two extraction attempts, ten
  retention batches, five serializable attempts, the configured fetch attempts, two continuation pages in a poll). Concurrency is interleaving of committed transactions.

  \<^bold>\<open>Not modelled.\<close> The remaining stores (ingestion, fetches, parsing, discovery, research, control plane, deduplication,
  search, retention) and the HTTP layer, whose logic is mostly in SQL text; the parsers, which rest on
  third-party packages; the provider clients, configuration, tooling and the web client; radar assessments,
  manual captures and the checks of the control plane.
\<close>

end
